(* ===== verification/Prelude.thy ===== *)
theory Prelude
  imports Complex_Main "HOL-Library.Word" "HOL-Library.Char_ord" "HOL-Library.List_Lexorder"
begin

text \<open>
  The shared vocabulary of the development: Go errors and results, the string functions of
  Go's \<^verbatim>\<open>strings\<close>, \<^verbatim>\<open>strconv\<close>, \<^verbatim>\<open>fmt\<close> and
  \<^verbatim>\<open>encoding/hex\<close> packages that the program calls, and the generic lemmas on
  lists, strings and options that the component theories share.

  A Go string is a sequence of bytes, and so is HOL's \<^typ>\<open>string\<close> (a list of 8-bit
  characters). A Go function that returns \<^verbatim>\<open>(T, error)\<close> returns a value of type
  \<open>'a result\<close>: \<^term>\<open>Inl e\<close> for a non-nil error, \<^term>\<open>Inr x\<close> for a value.
\<close>

named_theorems go_simps \<open>unfolding rules of the Go library functions\<close>
named_theorems box_simps \<open>unfolding rules of the box operations\<close>
named_theorems store_simps \<open>unfolding rules of the stores\<close>

section \<open>Errors\<close>

text \<open>
  The sentinel errors of the program, errors made by \<^verbatim>\<open>fmt.Errorf\<close> or
  \<^verbatim>\<open>errors.New\<close> with a text (\<open>Errorf\<close>), and errors that wrap another one
  with \<^verbatim>\<open>%w\<close> behind a prefix (\<open>Wrapf\<close>).
\<close>

datatype err =
    ErrNotFound          \<comment> \<open>box.ErrNotFound\<close>
  | StoreErrNotFound     \<comment> \<open>store.ErrNotFound\<close>
  | ErrNoBackends        \<comment> \<open>box.ErrNoBackends\<close>
  | ErrNoRoute           \<comment> \<open>gateway.ErrNoRoute\<close>
  | ErrEOF               \<comment> \<open>io.EOF\<close>
  | ErrUnexpectedEOF     \<comment> \<open>io.ErrUnexpectedEOF\<close>
  | Errorf string
  | Wrapf string err

type_synonym 'a result = "err + 'a"

primrec err_text :: "err \<Rightarrow> string" where
  "err_text ErrNotFound = ''box: not found''"
| "err_text StoreErrNotFound = ''store: not found''"
| "err_text ErrNoBackends = ''no compute backends configured''"
| "err_text ErrNoRoute = ''gateway: no route for host''"
| "err_text ErrEOF = ''EOF''"
| "err_text ErrUnexpectedEOF = ''unexpected EOF''"
| "err_text (Errorf s) = s"
| "err_text (Wrapf s e) = s @ err_text e"

text \<open>\<^verbatim>\<open>errors.Is\<close>: the error itself or one it wraps is the target.\<close>

primrec unwrap :: "err \<Rightarrow> err option" where
  "unwrap ErrNotFound = None"
| "unwrap StoreErrNotFound = None"
| "unwrap ErrNoBackends = None"
| "unwrap ErrNoRoute = None"
| "unwrap ErrEOF = None"
| "unwrap ErrUnexpectedEOF = None"
| "unwrap (Errorf s) = None"
| "unwrap (Wrapf s e) = Some e"

fun errors_Is :: "err \<Rightarrow> err \<Rightarrow> bool" where
  "errors_Is (Wrapf s e) t = (Wrapf s e = t \<or> errors_Is e t)"
| "errors_Is e t = (e = t)"

lemma errors_Is_refl [simp]: "errors_Is e e"
  by (cases e) auto

lemma errors_Is_unwrap: "unwrap e = Some e' \<Longrightarrow> errors_Is e' t \<Longrightarrow> errors_Is e t"
  by (cases e) auto

text \<open>Reading a result, and running the rest of a function after one.\<close>

definition is_ok :: "'a result \<Rightarrow> bool" where
  "is_ok r = (case r of Inl _ \<Rightarrow> False | Inr _ \<Rightarrow> True)"

lemma is_ok_simps [simp]: "is_ok (Inr x)" "\<not> is_ok (Inl e)"
  by (simp_all add: is_ok_def)

lemma is_ok_iff: "is_ok r \<longleftrightarrow> (\<exists>x. r = Inr x)"
  by (cases r) auto

primrec rbind :: "'a result \<Rightarrow> ('a \<Rightarrow> 'b result) \<Rightarrow> 'b result" where
  "rbind (Inl e) f = Inl e"
| "rbind (Inr x) f = f x"

lemma rbind_Inr_iff [simp]: "rbind r f = Inr y \<longleftrightarrow> (\<exists>x. r = Inr x \<and> f x = Inr y)"
  by (cases r) auto

lemma rbind_assoc: "rbind (rbind r f) g = rbind r (\<lambda>x. rbind (f x) g)"
  by (cases r) auto

section \<open>Strings\<close>

definition HasPrefix :: "string \<Rightarrow> string \<Rightarrow> bool" where
  "HasPrefix s p = (take (length p) s = p)"

definition CutPrefix :: "string \<Rightarrow> string \<Rightarrow> string \<times> bool" where
  "CutPrefix s p = (if HasPrefix s p then (drop (length p) s, True) else (s, False))"

definition TrimPrefix :: "string \<Rightarrow> string \<Rightarrow> string" where
  "TrimPrefix s p = (if HasPrefix s p then drop (length p) s else s)"

definition HasSuffix :: "string \<Rightarrow> string \<Rightarrow> bool" where
  "HasSuffix s p = HasPrefix (rev s) (rev p)"

definition TrimSuffix :: "string \<Rightarrow> string \<Rightarrow> string" where
  "TrimSuffix s p = (if HasSuffix s p then take (length s - length p) s else s)"

definition ContainsAny :: "string \<Rightarrow> string \<Rightarrow> bool" where
  "ContainsAny s cs = list_ex (\<lambda>c. c \<in> set cs) s"

text \<open>\<^verbatim>\<open>strings.Contains\<close>\<close>

fun Contains :: "string \<Rightarrow> string \<Rightarrow> bool" where
  "Contains [] t = (t = [])"
| "Contains (c # s) t = (HasPrefix (c # s) t \<or> Contains s t)"

text \<open>\<^verbatim>\<open>strings.Cut\<close>, \<^verbatim>\<open>strings.Split\<close> and \<^verbatim>\<open>strings.LastIndex\<close>, each
  with a one-byte separator.\<close>

definition Cut :: "char \<Rightarrow> string \<Rightarrow> string \<times> string \<times> bool" where
  "Cut c s = (takeWhile (\<lambda>x. x \<noteq> c) s, drop 1 (dropWhile (\<lambda>x. x \<noteq> c) s), c \<in> set s)"

fun Split :: "char \<Rightarrow> string \<Rightarrow> string list" where
  "Split c [] = [[]]"
| "Split c (x # xs) =
     (if x = c then [] # Split c xs
      else (case Split c xs of [] \<Rightarrow> [[x]] | y # ys \<Rightarrow> (x # y) # ys))"

fun Join :: "char \<Rightarrow> string list \<Rightarrow> string" where
  "Join c [] = []"
| "Join c [s] = s"
| "Join c (s # t # ss) = s @ c # Join c (t # ss)"

definition LastIndex :: "char \<Rightarrow> string \<Rightarrow> nat option" where
  "LastIndex c s =
     (if c \<in> set s then Some (length s - 1 - length (takeWhile (\<lambda>x. x \<noteq> c) (rev s))) else None)"

text \<open>ASCII white space, as \<^verbatim>\<open>strings.TrimSpace\<close> and \<^verbatim>\<open>strings.Fields\<close> see it in
  ASCII text.\<close>

definition is_space :: "char \<Rightarrow> bool" where
  "is_space c = (c \<in> set [CHR '' '', CHR 0x09, CHR 0x0A, CHR 0x0B, CHR 0x0C, CHR 0x0D])"

definition TrimSpace :: "string \<Rightarrow> string" where
  "TrimSpace s = rev (dropWhile is_space (rev (dropWhile is_space s)))"

lemma TrimSpace_edges: "TrimSpace s = [] \<or> \<not> is_space (hd (TrimSpace s)) \<and> \<not> is_space (last (TrimSpace s))"
proof -
  let ?u = "dropWhile is_space s" and ?v = "dropWhile is_space (rev (dropWhile is_space s))"
  have l: "?v = [] \<or> \<not> is_space (hd ?v)" using hd_dropWhile by blast
  have "\<not> is_space (hd (rev ?v))" if "?v \<noteq> []"
  proof -
    have "?u \<noteq> []" using that by (metis dropWhile.simps(1) rev.simps(1))
    then have "\<not> is_space (hd ?u)" by (rule hd_dropWhile)
    moreover have "hd (rev ?v) = hd ?u"
      using that by (metis \<open>?u \<noteq> []\<close> hd_rev last_appendR rev_is_Nil_conv takeWhile_dropWhile_id rev_rev_ident last_rev)
    ultimately show ?thesis by simp
  qed
  with l show ?thesis by (auto simp: TrimSpace_def last_rev)
qed

lemma TrimSpace_idem [simp]: "TrimSpace (TrimSpace s) = TrimSpace s"
proof -
  have "TrimSpace t = t" if "t = [] \<or> \<not> is_space (hd t) \<and> \<not> is_space (last t)" for t
  proof (cases t)
    case (Cons c cs)
    with that have "dropWhile is_space t = t" "dropWhile is_space (rev t) = rev t"
      unfolding dropWhile_eq_self_iff hd_rev by auto
    then show ?thesis by (simp add: TrimSpace_def)
  qed (simp add: TrimSpace_def)
  with TrimSpace_edges show ?thesis by blast
qed

fun Fields_aux :: "string \<Rightarrow> string \<Rightarrow> string list" where
  "Fields_aux acc [] = (if acc = [] then [] else [rev acc])"
| "Fields_aux acc (c # cs) =
     (if is_space c then (if acc = [] then Fields_aux [] cs else rev acc # Fields_aux [] cs)
      else Fields_aux (c # acc) cs)"

definition Fields :: "string \<Rightarrow> string list" where
  "Fields s = Fields_aux [] s"

subsection \<open>Lemmas on prefixes, cuts and splits\<close>

lemma HasPrefix_append [simp]: "HasPrefix (p @ s) p"
  by (simp add: HasPrefix_def)

lemma HasPrefix_iff: "HasPrefix s p \<longleftrightarrow> (\<exists>t. s = p @ t)"
  by (metis HasPrefix_def append_take_drop_id append_eq_conv_conj)

lemma Contains_iff: "Contains s t \<longleftrightarrow> (\<exists>a b. s = a @ t @ b)"
proof (induction s)
  case (Cons c s)
  show ?case
  proof
    assume "Contains (c # s) t"
    with Cons show "\<exists>a b. c # s = a @ t @ b" by (metis Contains.simps(2) HasPrefix_iff append_Cons append_Nil)
  next
    assume "\<exists>a b. c # s = a @ t @ b"
    then obtain a b where "c # s = a @ t @ b" by blast
    then have "HasPrefix (c # s) t \<or> (\<exists>a b. s = a @ t @ b)" unfolding HasPrefix_iff by (cases a) auto
    with Cons show "Contains (c # s) t" by auto
  qed
qed auto

lemma CutPrefix_append [simp]: "CutPrefix (p @ s) p = (s, True)"
  by (simp add: CutPrefix_def)

lemma CutPrefix_True_iff: "CutPrefix s p = (t, True) \<longleftrightarrow> s = p @ t"
  by (auto simp: CutPrefix_def HasPrefix_iff)

lemma takeWhile_sep: "c \<notin> set a \<Longrightarrow> takeWhile (\<lambda>x. x \<noteq> c) (a @ c # b) = a"
  by (induction a) auto

lemma dropWhile_sep: "c \<notin> set a \<Longrightarrow> dropWhile (\<lambda>x. x \<noteq> c) (a @ c # b) = c # b"
  by (induction a) auto

lemma takeWhile_no_sep: "c \<notin> set a \<Longrightarrow> takeWhile (\<lambda>x. x \<noteq> c) a = a"
  by (induction a) auto

lemma dropWhile_no_sep: "c \<notin> set a \<Longrightarrow> dropWhile (\<lambda>x. x \<noteq> c) a = []"
  by (induction a) auto

lemma Cut_found: "c \<notin> set a \<Longrightarrow> Cut c (a @ c # b) = (a, b, True)"
  by (simp add: Cut_def takeWhile_sep dropWhile_sep)

lemma Cut_missing: "c \<notin> set a \<Longrightarrow> Cut c a = (a, [], False)"
  by (simp add: Cut_def takeWhile_no_sep dropWhile_no_sep)

lemma Split_not_Nil [simp]: "Split c s \<noteq> []"
  by (induction s) (auto split: list.splits)

lemma Split_no_sep: "c \<notin> set s \<Longrightarrow> Split c s = [s]"
  by (induction s) auto

lemma Split_append_sep: "c \<notin> set a \<Longrightarrow> Split c (a @ c # b) = a # Split c b"
  by (induction a) auto

lemma Split_append: "Split c (a @ c # b) = Split c a @ Split c b"
proof (induction a)
  case (Cons x a)
  then show ?case by (cases "Split c a") (auto split: list.splits)
qed simp

lemma Split_segments: "seg \<in> set (Split c s) \<Longrightarrow> c \<notin> set seg"
proof (induction s arbitrary: seg)
  case Nil
  then show ?case by simp
next
  case (Cons x xs)
  obtain y ys where ys: "Split c xs = y # ys" by (cases "Split c xs") auto
  show ?case
  proof (cases "x = c")
    case True
    with Cons show ?thesis by auto
  next
    case False
    with Cons.prems ys have "seg = x # y \<or> seg \<in> set ys" by auto
    moreover have "\<And>z. z \<in> set (y # ys) \<Longrightarrow> c \<notin> set z" using Cons.IH ys by metis
    ultimately show ?thesis using False by fastforce
  qed
qed

lemma Join_Split: "Join c (Split c s) = s"
proof (induction s)
  case Nil
  then show ?case by simp
next
  case (Cons x xs)
  obtain y ys where ys: "Split c xs = y # ys" by (cases "Split c xs") auto
  with Cons show ?case by (cases ys) auto
qed

lemma Split_Join:
  "ss \<noteq> [] \<Longrightarrow> list_all (\<lambda>s. c \<notin> set s) ss \<Longrightarrow> Split c (Join c ss) = ss"
  by (induction c ss rule: Join.induct) (auto simp: Split_no_sep Split_append_sep)

lemma LastIndex_append:
  assumes "c \<notin> set b"
  shows "LastIndex c (a @ c # b) = Some (length a)"
proof -
  have "takeWhile (\<lambda>x. x \<noteq> c) (rev b @ c # rev a) = rev b"
    using assms by (subst takeWhile_append2) auto
  then show ?thesis by (simp add: LastIndex_def)
qed

lemma LastIndex_None [simp]: "LastIndex c s = None \<longleftrightarrow> c \<notin> set s"
  by (simp add: LastIndex_def)

lemma LastIndex_Some_split:
  assumes "LastIndex c s = Some i"
  shows "\<exists>b. s = take i s @ c # b \<and> c \<notin> set b \<and> b = drop (Suc i) s"
proof -
  from assms have "c \<in> set s" by (auto simp: LastIndex_def split: if_splits)
  then obtain a b where ab: "s = a @ c # b" "c \<notin> set b"
    using split_list_last by metis
  with assms have "i = length a" by (simp add: LastIndex_append)
  with ab show ?thesis by auto
qed

section \<open>Numbers and quoting in text\<close>

definition digit_char :: "nat \<Rightarrow> char" where
  "digit_char d = char_of (48 + d)"

definition digit_val :: "char \<Rightarrow> nat" where
  "digit_val c = of_char c - 48"

definition is_digit :: "char \<Rightarrow> bool" where
  "is_digit c = (48 \<le> (of_char c :: nat) \<and> (of_char c :: nat) \<le> 57)"

fun show_nat :: "nat \<Rightarrow> string" where
  "show_nat n = (if n < 10 then [digit_char n] else show_nat (n div 10) @ [digit_char (n mod 10)])"

declare show_nat.simps [simp del]

definition show_int :: "int \<Rightarrow> string" where
  "show_int i = (if i < 0 then CHR ''-'' # show_nat (nat (- i)) else show_nat (nat i))"

definition read_nat :: "string \<Rightarrow> nat" where
  "read_nat s = foldl (\<lambda>n c. 10 * n + digit_val c) 0 s"

lemma of_char_digit: "d < 10 \<Longrightarrow> (of_char (digit_char d) :: nat) = 48 + d"
  by (simp add: digit_char_def)

lemma digit_val_char [simp]: "d < 10 \<Longrightarrow> digit_val (digit_char d) = d"
  by (simp add: digit_val_def of_char_digit)

lemma is_digit_char [simp]: "d < 10 \<Longrightarrow> is_digit (digit_char d)"
  by (simp add: is_digit_def of_char_digit)

lemma digit_val_less: "is_digit c \<Longrightarrow> digit_val c < 10"
  unfolding is_digit_def digit_val_def by arith

lemma digit_char_val [simp]: "is_digit c \<Longrightarrow> digit_char (digit_val c) = c"
  by (simp add: is_digit_def digit_val_def digit_char_def)

lemma show_nat_digits: "c \<in> set (show_nat n) \<Longrightarrow> is_digit c"
proof (induction n rule: show_nat.induct)
  case (1 n)
  then show ?case
    by (cases "n < 10") (auto simp: show_nat.simps [of n])
qed

lemma show_nat_not_Nil [simp]: "show_nat n \<noteq> []"
  by (subst show_nat.simps) simp

lemma read_show_nat [simp]: "read_nat (show_nat n) = n"
proof (induction n rule: show_nat.induct)
  case (1 n)
  then show ?case
    by (cases "n < 10") (auto simp: show_nat.simps [of n] read_nat_def)
qed

lemma show_nat_inj: "show_nat m = show_nat n \<Longrightarrow> m = n"
  by (metis read_show_nat)

lemma show_nat_inj_iff [simp]: "show_nat m = show_nat n \<longleftrightarrow> m = n"
  using show_nat_inj by blast

text \<open>Hexadecimal digits, and \<^verbatim>\<open>hex.EncodeToString\<close> on a list of bytes.\<close>

definition hex_char :: "nat \<Rightarrow> char" where
  "hex_char d = (if d < 10 then char_of (48 + d) else char_of (87 + d))"

definition hex_byte :: "8 word \<Rightarrow> string" where
  "hex_byte b = [hex_char (unat b div 16), hex_char (unat b mod 16)]"

definition hex_encode :: "8 word list \<Rightarrow> string" where
  "hex_encode bs = concat (map hex_byte bs)"

lemma of_char_hex: "d < 16 \<Longrightarrow> (of_char (hex_char d) :: nat) = (if d < 10 then 48 + d else 87 + d)"
  by (simp add: hex_char_def)

lemma length_hex_encode: "length (hex_encode bs) = 2 * length bs"
  by (induction bs) (auto simp: hex_encode_def hex_byte_def)

lemma unat_byte_div_less: "unat (b :: 8 word) div 16 < 16"
proof -
  have "unat b < 2 ^ LENGTH(8)" by (rule unsigned_less)
  then show ?thesis by (simp add: less_mult_imp_div_less)
qed

lemma hex_char_range: "d < 16 \<Longrightarrow> hex_char d \<in> set ''0123456789abcdef''"
proof -
  assume "d < 16"
  then have "d = 0 \<or> d = 1 \<or> d = 2 \<or> d = 3 \<or> d = 4 \<or> d = 5 \<or> d = 6 \<or> d = 7 \<or> d = 8 \<or>
    d = 9 \<or> d = 10 \<or> d = 11 \<or> d = 12 \<or> d = 13 \<or> d = 14 \<or> d = 15" by arith
  then show ?thesis by (elim disjE) (hypsubst, code_simp)+
qed

lemma hex_encode_range: "set (hex_encode bs) \<subseteq> set ''0123456789abcdef''"
proof
  fix c
  assume "c \<in> set (hex_encode bs)"
  then obtain b where "c \<in> set (hex_byte b)" by (auto simp: hex_encode_def)
  then have "c = hex_char (unat b div 16) \<or> c = hex_char (unat b mod 16)"
    by (simp add: hex_byte_def)
  then show "c \<in> set ''0123456789abcdef''"
    using hex_char_range unat_byte_div_less by (metis mod_less_divisor zero_less_numeral)
qed

text \<open>\<^verbatim>\<open>%q\<close> of \<^verbatim>\<open>fmt\<close>: the text between double quotes, with quotes, backslashes and
  control characters escaped.\<close>

definition quote_char :: "char \<Rightarrow> string" where
  "quote_char c =
     (let n = (of_char c :: nat) in
      if c = CHR 0x22 then [CHR 0x5C, CHR 0x22]
      else if c = CHR 0x5C then [CHR 0x5C, CHR 0x5C]
      else if n = 7 then [CHR 0x5C, CHR ''a''] else if n = 8 then [CHR 0x5C, CHR ''b'']
      else if n = 9 then [CHR 0x5C, CHR ''t''] else if n = 10 then [CHR 0x5C, CHR ''n'']
      else if n = 11 then [CHR 0x5C, CHR ''v''] else if n = 12 then [CHR 0x5C, CHR ''f'']
      else if n = 13 then [CHR 0x5C, CHR ''r'']
      else if n < 32 \<or> n = 127 then [CHR 0x5C, CHR ''x'', hex_char (n div 16), hex_char (n mod 16)]
      else [c])"

definition quoted :: "string \<Rightarrow> string" where
  "quoted s = CHR 0x22 # concat (map quote_char s) @ [CHR 0x22]"

text \<open>\<^verbatim>\<open>%v\<close> of a string slice.\<close>

definition show_strings :: "string list \<Rightarrow> string" where
  "show_strings ss = ''['' @ Join (CHR '' '') ss @ '']''"

section \<open>Lists\<close>

text \<open>Finding and replacing the first element of a list with a property: what a loop with an
  early return, or an update of one row, does.\<close>

lemma find_Some_iff': "find P xs = Some x \<Longrightarrow> x \<in> set xs \<and> P x"
  by (metis find_Some_iff nth_mem)

lemma find_None_all: "find P xs = None \<longleftrightarrow> (\<forall>x \<in> set xs. \<not> P x)"
  by (auto simp: find_None_iff)

lemma distinct_map_find:
  assumes "distinct (map f xs)" and "x \<in> set xs"
  shows "find (\<lambda>y. f y = f x) xs = Some x"
  using assms by (induction xs) (auto simp: image_iff)

lemma find_map_key: "(\<And>x. x \<in> set xs \<Longrightarrow> P (g x) = P x) \<Longrightarrow>
  find P (map g xs) = map_option g (find P xs)"
  by (induction xs) auto

lemma sint_word64: "0 \<le> x \<Longrightarrow> x < 2 ^ 63 \<Longrightarrow> sint (word_of_int x :: 64 word) = x"
  unfolding sint_sbintrunc' by (intro signed_take_bit_int_eq_self) simp_all

lemma triple_collapse: "p = (fst p, fst (snd p), snd (snd p))"
  by simp

section \<open>Paths\<close>

text \<open>\<^verbatim>\<open>path.Clean\<close> and \<^verbatim>\<open>path.Join\<close> (and \<^verbatim>\<open>path/filepath\<close> on Unix): elements are taken
  from left to right, an empty one and a dot are dropped, two dots remove the element before.\<close>

fun clean_elems :: "bool \<Rightarrow> string list \<Rightarrow> string list \<Rightarrow> string list" where
  "clean_elems rooted acc [] = rev acc"
| "clean_elems rooted acc (e # es) =
     (if e = [] \<or> e = ''.'' then clean_elems rooted acc es
      else if e = ''..'' then
        (case acc of
           [] \<Rightarrow> if rooted then clean_elems rooted [] es else clean_elems rooted [''..''] es
         | a # as \<Rightarrow> if a = ''..'' then clean_elems rooted (''..'' # acc) es else clean_elems rooted as es)
      else clean_elems rooted (e # acc) es)"

definition path_Clean :: "string \<Rightarrow> string" where
  "path_Clean p =
     (let rooted = HasPrefix p ''/'';
          body = Join (CHR ''/'') (clean_elems rooted [] (Split (CHR ''/'') p))
      in if rooted then CHR ''/'' # body else if body = [] then ''.'' else body)"

definition path_Join :: "string list \<Rightarrow> string" where
  "path_Join es =
     (let es' = filter (\<lambda>e. e \<noteq> []) es in if es' = [] then [] else path_Clean (Join (CHR ''/'') es'))"

section \<open>Addresses\<close>

text \<open>\<^verbatim>\<open>net.SplitHostPort\<close>: the port after the last colon; a host with a colon needs brackets.\<close>

definition SplitHostPort :: "string \<Rightarrow> (string \<times> string) option" where
  "SplitHostPort hp =
     (case LastIndex (CHR '':'') hp of
        None \<Rightarrow> None
      | Some i \<Rightarrow>
          (let port = drop (Suc i) hp in
           if HasPrefix hp ''['' then
             (let (host, rest, found) = Cut (CHR '']'') (drop 1 hp) in
              if \<not> found \<or> length host + 2 \<noteq> i \<or> CHR ''['' \<in> set (drop 1 hp) \<or> CHR '']'' \<in> set rest
              then None else Some (host, port))
           else (let host = take i hp in
                 if CHR '':'' \<in> set host \<or> CHR ''['' \<in> set hp \<or> CHR '']'' \<in> set hp
                 then None else Some (host, port))))"

definition JoinHostPort :: "string \<Rightarrow> string \<Rightarrow> string" where
  "JoinHostPort host port =
     (if CHR '':'' \<in> set host then ''['' @ host @ '']:'' @ port else host @ '':'' @ port)"

end
