(* ===== verification/Go_Time.thy ===== *)
theory Go_Time
  imports Prelude
begin

text \<open>
  Go's \<^verbatim>\<open>time\<close> package as far as the program uses it. An instant
  (\<^verbatim>\<open>time.Time\<close>) is the number of nanoseconds since Go's zero instant (1 January of
  year 1, UTC), so that \<^verbatim>\<open>t.IsZero()\<close> is \<^term>\<open>t = (0::int)\<close>; a
  \<^verbatim>\<open>time.Duration\<close> is a number of nanoseconds in the range of int64. The monotonic
  reading that \<^verbatim>\<open>time.Now\<close> also carries is not modelled. \<^verbatim>\<open>time.ParseDuration\<close>
  is translated with its overflow checks, and its one floating-point computation (fractions of
  a unit) with rounding to 53-bit precision.
\<close>

type_synonym time = int
type_synonym duration = int

definition max_duration :: duration where "max_duration = 2 ^ 63 - 1"
definition min_duration :: duration where "min_duration = - (2 ^ 63)"

definition is_duration :: "int \<Rightarrow> bool" where
  "is_duration d = (min_duration \<le> d \<and> d \<le> max_duration)"

definition IsZero :: "time \<Rightarrow> bool" where "IsZero t = (t = 0)"

text \<open>\<^verbatim>\<open>t.Sub(u)\<close> saturates at the ends of the range of durations.\<close>

definition time_Sub :: "time \<Rightarrow> time \<Rightarrow> duration" where
  "time_Sub t u =
     (if t - u > max_duration then max_duration
      else if t - u < min_duration then min_duration else t - u)"

definition time_Add :: "time \<Rightarrow> duration \<Rightarrow> time" where "time_Add t d = t + d"
definition time_Before :: "time \<Rightarrow> time \<Rightarrow> bool" where "time_Before t u = (t < u)"
definition time_After :: "time \<Rightarrow> time \<Rightarrow> bool" where "time_After t u = (u < t)"

definition Nanosecond :: duration where "Nanosecond = 1"
definition Second :: duration where "Second = 1000000000"
definition Minute :: duration where "Minute = 60 * Second"
definition Hour :: duration where "Hour = 60 * Minute"

text \<open>Seconds between the zero instant and the Unix epoch; \<^verbatim>\<open>t.Unix()\<close> and
  \<^verbatim>\<open>t.Nanosecond()\<close>.\<close>

definition unix_epoch_secs :: int where "unix_epoch_secs = 62135596800"

definition time_Unix :: "time \<Rightarrow> int" where
  "time_Unix t = t div 1000000000 - unix_epoch_secs"

definition time_Nanosecond :: "time \<Rightarrow> int" where
  "time_Nanosecond t = t mod 1000000000"

lemmas time_defs = IsZero_def time_Sub_def time_Add_def time_Before_def time_After_def
  max_duration_def min_duration_def is_duration_def

lemma time_Sub_range: "is_duration (time_Sub t u)"
  by (simp add: time_defs)

lemma time_Sub_ge_iff:
  assumes "min_duration < d" "d \<le> max_duration"
  shows "time_Sub t u \<ge> d \<longleftrightarrow> t \<ge> time_Add u d"
  using assms by (auto simp: time_defs)

lemma time_Sub_mono: "t \<le> t' \<Longrightarrow> time_Sub t u \<le> time_Sub t' u"
  by (simp add: time_defs)

section \<open>Rounding to double precision\<close>

function bit_length :: "int \<Rightarrow> int" where
  "bit_length n = (if n \<le> 0 then 0 else bit_length (n div 2) + 1)"
  by pat_completeness auto
termination
  by (relation "measure nat") auto

declare bit_length.simps [simp del]

definition pow2 :: "int \<Rightarrow> rat" where
  "pow2 e = (if 0 \<le> e then 2 ^ nat e else 1 / 2 ^ nat (- e))"

definition round_even :: "rat \<Rightarrow> int" where
  "round_even q =
     (let f = \<lfloor>q\<rfloor>; r = q - of_int f in
      if r < 1 / 2 then f else if r > 1 / 2 then f + 1 else if even f then f else f + 1)"

text \<open>The double nearest to a positive rational in the normal range, ties to even.\<close>

definition float64 :: "rat \<Rightarrow> rat" where
  "float64 q =
     (if q \<le> 0 then 0 else
      let a = fst (quotient_of q); b = snd (quotient_of q);
          k = bit_length a - bit_length b;
          e = (if pow2 k \<le> q then k else k - 1) - 52
      in of_int (round_even (q / pow2 e)) * pow2 e)"

section \<open>ParseDuration\<close>

text \<open>\<^verbatim>\<open>leadingInt\<close>: the value of the leading digits, \<^term>\<open>None\<close> on overflow.\<close>

fun leadingInt :: "int \<Rightarrow> string \<Rightarrow> (int \<times> string) option" where
  "leadingInt x [] = Some (x, [])"
| "leadingInt x (c # cs) =
     (if \<not> is_digit c then Some (x, c # cs)
      else if x > 2 ^ 63 div 10 then None
      else let y = x * 10 + int (digit_val c) in if y > 2 ^ 63 then None else leadingInt y cs)"

text \<open>\<^verbatim>\<open>leadingFraction\<close>: the digits after the point as an integer and its scale;
  digits that would overflow are dropped.\<close>

fun leadingFraction :: "int \<Rightarrow> int \<Rightarrow> bool \<Rightarrow> string \<Rightarrow> int \<times> int \<times> string" where
  "leadingFraction x scale ovf [] = (x, scale, [])"
| "leadingFraction x scale ovf (c # cs) =
     (if \<not> is_digit c then (x, scale, c # cs)
      else if ovf then leadingFraction x scale True cs
      else if x > (2 ^ 63 - 1) div 10 then leadingFraction x scale True cs
      else let y = x * 10 + int (digit_val c) in
           if y > 2 ^ 63 then leadingFraction x scale True cs
           else leadingFraction y (scale * 10) False cs)"

definition unitMap :: "string \<Rightarrow> int option" where
  "unitMap u =
     (if u = ''ns'' then Some 1
      else if u = ''us'' \<or> u = [CHR 0xC2, CHR 0xB5, CHR ''s''] \<or> u = [CHR 0xCE, CHR 0xBC, CHR ''s'']
        then Some 1000
      else if u = ''ms'' then Some 1000000
      else if u = ''s'' then Some 1000000000
      else if u = ''m'' then Some (60 * 1000000000)
      else if u = ''h'' then Some (3600 * 1000000000) else None)"

definition is_unit_char :: "char \<Rightarrow> bool" where
  "is_unit_char c = (c \<noteq> CHR ''.'' \<and> \<not> is_digit c)"

definition frac_ns :: "int \<Rightarrow> int \<Rightarrow> int \<Rightarrow> int" where
  "frac_ns f unit scale =
     \<lfloor>float64 (float64 (of_int f) * float64 (of_int unit / of_int scale))\<rfloor>"

text \<open>One round of the loop of \<^verbatim>\<open>ParseDuration\<close>: a number, its optional fraction and its
  unit. The result is the sum so far and the rest of the text.\<close>

definition duration_term :: "int \<Rightarrow> string \<Rightarrow> (int \<times> string) option" where
  "duration_term d s =
     (if \<not> (s \<noteq> [] \<and> (hd s = CHR ''.'' \<or> is_digit (hd s))) then None
      else case leadingInt 0 s of
        None \<Rightarrow> None
      | Some (v, s1) \<Rightarrow>
          (let pre = length s \<noteq> length s1;
               point = (s1 \<noteq> [] \<and> hd s1 = CHR ''.'');
               (f, scale, s2) = (if point then leadingFraction 0 1 False (tl s1) else (0, 1, s1));
               post = (point \<and> length (tl s1) \<noteq> length s2);
               u = takeWhile is_unit_char s2; s3 = dropWhile is_unit_char s2
           in if \<not> pre \<and> \<not> post then None
              else if u = [] then None
              else case unitMap u of
                None \<Rightarrow> None
              | Some unit \<Rightarrow>
                  if v > 2 ^ 63 div unit then None
                  else let w = v * unit + (if f > 0 then frac_ns f unit scale else 0);
                           d' = (d + w) mod 2 ^ 64
                       in if f > 0 \<and> w > 2 ^ 63 then None
                          else if d' > 2 ^ 63 then None else Some (d', s3)))"

lemma leadingInt_length: "leadingInt x s = Some (v, r) \<Longrightarrow> length r \<le> length s"
  by (induction x s arbitrary: v r rule: leadingInt.induct) (fastforce split: if_splits simp: Let_def)+

lemma leadingFraction_length: "leadingFraction x sc ovf s = (f, sc', r) \<Longrightarrow> length r \<le> length s"
  by (induction x sc ovf s arbitrary: f sc' r rule: leadingFraction.induct)
    (fastforce split: if_splits simp: Let_def)+

lemma dropWhile_shorter: "takeWhile P s \<noteq> [] \<Longrightarrow> length (dropWhile P s) < length s"
  by (cases s) (auto split: if_splits simp: le_imp_less_Suc length_dropWhile_le)

lemma duration_term_shorter:
  assumes "duration_term d s = Some (d', r)"
  shows "length r < length s"
proof -
  from assms obtain v s1 where li: "leadingInt 0 s = Some (v, s1)"
    by (auto simp: duration_term_def split: if_splits option.splits)
  define point where "point = (s1 \<noteq> [] \<and> hd s1 = CHR ''.'')"
  obtain f scale s2 where fr: "(if point then leadingFraction 0 1 False (tl s1) else (0, 1, s1)) = (f, scale, s2)"
    by (metis prod_cases3)
  have s2: "length s2 \<le> length s"
  proof (cases point)
    case True
    with fr have "length s2 \<le> length (tl s1)" by (auto dest: leadingFraction_length)
    then show ?thesis using leadingInt_length [OF li] by simp
  next
    case False
    with fr show ?thesis using leadingInt_length [OF li] by simp
  qed
  from assms li fr have "takeWhile is_unit_char s2 \<noteq> []" "r = dropWhile is_unit_char s2"
    by (auto simp: duration_term_def Let_def point_def split: if_splits option.splits prod.splits)
  then show ?thesis using dropWhile_shorter s2 by fastforce
qed

function parse_terms :: "int \<Rightarrow> string \<Rightarrow> int option" where
  "parse_terms d s =
     (if s = [] then Some d
      else case duration_term d s of None \<Rightarrow> None | Some (d', r) \<Rightarrow> parse_terms d' r)"
  by pat_completeness auto
termination
  by (relation "measure (\<lambda>(d, s). length s)") (auto dest: duration_term_shorter)

declare parse_terms.simps [simp del]

definition bad_duration :: err where
  "bad_duration = Errorf ''time: invalid duration''"

definition ParseDuration :: "string \<Rightarrow> duration result" where
  "ParseDuration s =
     (let neg = (s \<noteq> [] \<and> hd s = CHR ''-'');
          body = (if s \<noteq> [] \<and> (hd s = CHR ''-'' \<or> hd s = CHR ''+'') then tl s else s)
      in if body = ''0'' then Inr 0
         else if body = [] then Inl bad_duration
         else case parse_terms 0 body of
           None \<Rightarrow> Inl bad_duration
         | Some d \<Rightarrow>
             if neg then Inr (- d)
             else if d > 2 ^ 63 - 1 then Inl bad_duration else Inr d)"

subsection \<open>Facts about ParseDuration\<close>

lemma duration_term_bound: "duration_term d s = Some (d', r) \<Longrightarrow> 0 \<le> d' \<and> d' \<le> 2 ^ 63"
  by (auto simp: duration_term_def Let_def split: if_splits option.splits prod.splits)

lemma parse_terms_bound:
  "0 \<le> d \<and> d \<le> 2 ^ 63 \<Longrightarrow> parse_terms d s = Some v \<Longrightarrow> 0 \<le> v \<and> v \<le> 2 ^ 63"
proof (induction d s rule: parse_terms.induct)
  case (1 d s)
  show ?case
  proof (cases "s = []")
    case True
    with "1.prems" show ?thesis by (simp add: parse_terms.simps)
  next
    case False
    with "1.prems" obtain d' r where t: "duration_term d s = Some (d', r)" "parse_terms d' r = Some v"
      by (auto simp: parse_terms.simps [of d s] split: option.splits)
    from False t duration_term_bound [OF t(1)] show ?thesis by (intro "1.IH") auto
  qed
qed

lemma parse_terms_0_bound: "parse_terms 0 s = Some v \<Longrightarrow> 0 \<le> v \<and> v \<le> 2 ^ 63"
  using parse_terms_bound [of 0 s v] by simp

lemma ParseDuration_range: "ParseDuration s = Inr d \<Longrightarrow> is_duration d"
  by (auto simp: ParseDuration_def is_duration_def min_duration_def max_duration_def Let_def
      split: if_splits option.splits dest: parse_terms_0_bound)

definition read_acc :: "int \<Rightarrow> string \<Rightarrow> int" where
  "read_acc x s = foldl (\<lambda>n c. 10 * n + int (digit_val c)) x s"

lemma read_acc_simps [simp]:
  "read_acc x [] = x"
  "read_acc x (c # s) = read_acc (10 * x + int (digit_val c)) s"
  by (simp_all add: read_acc_def)

lemma read_acc_mono: "0 \<le> x \<Longrightarrow> x \<le> read_acc x s"
proof (induction s arbitrary: x)
  case (Cons c s)
  then have "10 * x + int (digit_val c) \<le> read_acc (10 * x + int (digit_val c)) s" by simp
  with Cons.prems show ?case by simp
qed simp

lemma read_acc_nat: "read_acc (int n) s = int (foldl (\<lambda>n c. 10 * n + digit_val c) n s)"
proof (induction s arbitrary: n)
  case (Cons c s)
  from Cons [of "10 * n + digit_val c"] show ?case by simp
qed simp

lemma leadingInt_read:
  assumes "list_all is_digit s" and "0 \<le> x" and "read_acc x s \<le> 2 ^ 60"
    and "rest = [] \<or> \<not> is_digit (hd rest)"
  shows "leadingInt x (s @ rest) = Some (read_acc x s, rest)"
  using assms
proof (induction s arbitrary: x)
  case Nil
  then show ?case by (cases rest) auto
next
  case (Cons c s)
  let ?y = "10 * x + int (digit_val c)"
  have y: "?y \<le> 2 ^ 60" using Cons.prems read_acc_mono [of ?y s] by simp
  with Cons.prems have "x \<le> 2 ^ 63 div 10" "?y \<le> 2 ^ 63" "0 \<le> ?y" by simp_all
  with Cons show ?case by (simp add: Let_def mult.commute)
qed

lemma leadingInt_show_nat:
  assumes "n \<le> 2 ^ 60" and "rest = [] \<or> \<not> is_digit (hd rest)"
  shows "leadingInt 0 (show_nat n @ rest) = Some (int n, rest)"
proof -
  have "list_all is_digit (show_nat n)" using show_nat_digits by (auto simp: list_all_iff)
  moreover have "read_acc 0 (show_nat n) = int n"
    using read_acc_nat [of 0 "show_nat n"] read_show_nat [of n] unfolding read_nat_def by simp
  ultimately show ?thesis using assms leadingInt_read [of "show_nat n" 0 rest] by simp
qed

text \<open>A number of seconds, written in decimal and followed by \<^verbatim>\<open>s\<close>, parses to itself.\<close>

lemma duration_term_seconds:
  assumes "n \<le> 9223372036"
  shows "duration_term 0 (show_nat n @ ''s'') = Some (int n * 1000000000, [])"
proof -
  have hd: "is_digit (hd (show_nat n @ ''s''))"
    using show_nat_digits [of "hd (show_nat n)" n] by simp
  have nd: "\<not> is_digit CHR ''s''" by code_simp
  have li: "leadingInt 0 (show_nat n @ ''s'') = Some (int n, ''s'')"
    using assms nd by (intro leadingInt_show_nat) auto
  have u: "is_unit_char CHR ''s''" by code_simp
  from assms have "int n * 1000000000 \<le> 2 ^ 63" "int n * 1000000000 < 2 ^ 64" by simp_all
  then show ?thesis
    using hd li u assms
    by (simp add: duration_term_def Let_def unitMap_def)
qed

lemma ParseDuration_seconds:
  assumes "n \<le> 9223372036"
  shows "ParseDuration (show_nat n @ ''s'') = Inr (int n * Second)"
proof -
  let ?s = "show_nat n @ ''s''"
  have d: "is_digit (hd (show_nat n))" using show_nat_digits [of "hd (show_nat n)" n] by simp
  have "\<not> is_digit CHR ''-''" "\<not> is_digit CHR ''+''" by code_simp+
  with d have sign: "hd ?s \<noteq> CHR ''-''" "hd ?s \<noteq> CHR ''+''" by auto
  have "parse_terms 0 ?s = Some (int n * 1000000000)"
    by (simp add: parse_terms.simps duration_term_seconds [OF assms])
  moreover have "?s \<noteq> ''0''" "?s \<noteq> []" by (auto simp: append_eq_Cons_conv)
  moreover have "int n * 1000000000 \<le> 2 ^ 63 - 1" using assms by simp
  ultimately show ?thesis
    using sign by (simp add: ParseDuration_def Let_def Second_def)
qed

lemma show_nat_no_char: "\<not> is_digit c \<Longrightarrow> c \<notin> set (show_nat n)"
  using show_nat_digits by blast

end
