(* ===== verification/Ports.thy ===== *)
theory Ports
  imports Go_Time "HOL-Library.AList"
begin

text \<open>
  The provider contracts of \<^verbatim>\<open>internal/core/ports/ports.go\<close>: the vendor-neutral data
  types as records, and each Go interface as a record of functions over the world
  \<open>'w\<close> they act on, every call returning its result and the world after it. An optional
  capability that the code finds by a type assertion (\<^verbatim>\<open>ports.Suspender\<close>) is an
  optional field. A Go \<^verbatim>\<open>map[string]string\<close> is an association list with distinct
  keys.
\<close>

section \<open>Neutral types\<close>

datatype instance_phase =
    InstanceRunning | InstanceStopped | InstanceGone | InstanceFailed
  | InstancePhaseOther string

fun instance_phase_text :: "instance_phase \<Rightarrow> string" where
  "instance_phase_text InstanceRunning = ''running''"
| "instance_phase_text InstanceStopped = ''stopped''"
| "instance_phase_text InstanceGone = ''gone''"
| "instance_phase_text InstanceFailed = ''failed''"
| "instance_phase_text (InstancePhaseOther s) = s"

record mount =
  mt_Source :: string
  mt_Target :: string
  mt_ReadOnly :: bool
  mt_Device :: bool

record compute_instance =
  inst_Ref :: string
  inst_Phase :: instance_phase
  inst_IP :: string

record agent_image =
  ai_ImageRef :: string
  ai_BinaryPath :: string
  ai_TargetPath :: string
  ai_HostBinaryPath :: string

type_synonym env = "(string \<times> string) list"

record provision_request =
  pr_WorkspaceID :: string
  pr_ImageRef :: string
  pr_MemMB :: int
  pr_CPUMillis :: int
  pr_GuestBin :: string
  pr_Mounts :: "mount list"
  pr_Env :: env
  pr_Agent :: agent_image

record home_request =
  hr_WorkspaceID :: string
  hr_TenantID :: string
  hr_Owner :: string

record expose_request =
  er_WorkspaceID :: string
  er_Name :: string
  er_Port :: int
  er_Scheme :: string
  er_TenantID :: string

record endpoint =
  ep_Ref :: string
  ep_URL :: string
  ep_Name :: string
  ep_Port :: int

record credential =
  cred_Scheme :: string
  cred_Value :: string

record principal =
  pl_ID :: string
  pl_TenantID :: string
  pl_DisplayName :: string
  pl_Roles :: "string list"

record access_request =
  ar_Principal :: principal
  ar_Action :: string
  ar_Resource :: string

record decision =
  dec_Allow :: bool
  dec_Reason :: string

record usage_event =
  ue_TenantID :: string
  ue_PrincipalID :: string
  ue_WorkspaceID :: string
  ue_Kind :: string
  ue_Value :: int
  ue_UnixMillis :: int

record principal_ref =
  prf_PrincipalID :: string
  prf_TenantID :: string

record quota_state =
  qs_Allowed :: bool
  qs_WorkspacesUsed :: int
  qs_WorkspacesLimit :: int
  qs_Reason :: string

record build_request =
  br_WorkspaceID :: string
  br_SourceRef :: string
  br_Provider :: string
  br_Options :: "(string \<times> string) list"
  br_TenantID :: string

record image_ref =
  ir_Ref :: string
  ir_BuildRef :: string

record build_status =
  bs_Phase :: string
  bs_ImageRef :: string
  bs_Message :: string

section \<open>The contracts\<close>

record 'w suspender_ops =
  c_Suspend :: "string \<Rightarrow> 'w \<Rightarrow> unit result \<times> 'w"
  c_Resume :: "string \<Rightarrow> 'w \<Rightarrow> unit result \<times> 'w"

record 'w compute_ops =
  c_Provision :: "provision_request \<Rightarrow> 'w \<Rightarrow> compute_instance result \<times> 'w"
  c_Status :: "string \<Rightarrow> 'w \<Rightarrow> compute_instance result \<times> 'w"
  c_Stop :: "string \<Rightarrow> 'w \<Rightarrow> unit result \<times> 'w"
  c_Destroy :: "string \<Rightarrow> 'w \<Rightarrow> unit result \<times> 'w"
  c_Suspender :: "'w suspender_ops option"

record 'w storage_ops =
  st_EnsureHome :: "home_request \<Rightarrow> 'w \<Rightarrow> mount result \<times> 'w"
  st_Delete :: "string \<Rightarrow> 'w \<Rightarrow> unit result \<times> 'w"

record 'w ingress_ops =
  ig_Expose :: "expose_request \<Rightarrow> 'w \<Rightarrow> endpoint result \<times> 'w"
  ig_Unexpose :: "string \<Rightarrow> 'w \<Rightarrow> unit result \<times> 'w"

record 'w identity_ops =
  id_Authenticate :: "credential \<Rightarrow> 'w \<Rightarrow> principal result \<times> 'w"
  id_Authorize :: "access_request \<Rightarrow> 'w \<Rightarrow> decision result \<times> 'w"

record 'w metering_ops =
  me_Emit :: "usage_event \<Rightarrow> 'w \<Rightarrow> unit result \<times> 'w"
  me_Quota :: "principal_ref \<Rightarrow> 'w \<Rightarrow> quota_state result \<times> 'w"

record 'w build_ops =
  bd_Resolve :: "build_request \<Rightarrow> 'w \<Rightarrow> image_ref result \<times> 'w"
  bd_Status :: "string \<Rightarrow> 'w \<Rightarrow> build_status result \<times> 'w"

end
