(* ===== verification/Box_Model.thy ===== *)
theory Box_Model
  imports Ports
begin

text \<open>
  The box of \<^verbatim>\<open>internal/core/box\<close>: its record (\<^verbatim>\<open>box.go\<close>), its phases and their
  legal transitions (\<^verbatim>\<open>phase.go\<close>), resource flavors (\<^verbatim>\<open>flavor.go\<close>), backend
  selection (\<^verbatim>\<open>backend.go\<close>), idle detection (\<^verbatim>\<open>idle.go\<close>) and the lifetime
  decision for ephemeral boxes (\<^verbatim>\<open>lifetime.go\<close>). Random bytes and the clock are
  arguments.
\<close>

section \<open>Phases\<close>

text \<open>\<^verbatim>\<open>Phase\<close> is a Go string; a value other than the seven constants, which a database row
  may hold, is \<open>PhaseOther\<close>.\<close>

datatype phase =
    PhasePending | PhaseProvisioning | PhaseRunning | PhaseSuspended | PhaseStopped
  | PhaseFailed | PhaseDestroying | PhaseOther string

fun phase_text :: "phase \<Rightarrow> string" where
  "phase_text PhasePending = ''Pending''"
| "phase_text PhaseProvisioning = ''Provisioning''"
| "phase_text PhaseRunning = ''Running''"
| "phase_text PhaseSuspended = ''Suspended''"
| "phase_text PhaseStopped = ''Stopped''"
| "phase_text PhaseFailed = ''Failed''"
| "phase_text PhaseDestroying = ''Destroying''"
| "phase_text (PhaseOther s) = s"

definition phase_of_text :: "string \<Rightarrow> phase" where
  "phase_of_text s =
     (if s = ''Pending'' then PhasePending
      else if s = ''Provisioning'' then PhaseProvisioning
      else if s = ''Running'' then PhaseRunning
      else if s = ''Suspended'' then PhaseSuspended
      else if s = ''Stopped'' then PhaseStopped
      else if s = ''Failed'' then PhaseFailed
      else if s = ''Destroying'' then PhaseDestroying
      else PhaseOther s)"

fun transitions :: "phase \<Rightarrow> phase list" where
  "transitions PhasePending = [PhaseProvisioning, PhaseFailed, PhaseDestroying]"
| "transitions PhaseProvisioning = [PhaseRunning, PhaseFailed, PhaseDestroying]"
| "transitions PhaseRunning =
     [PhaseProvisioning, PhaseSuspended, PhaseStopped, PhaseFailed, PhaseDestroying]"
| "transitions PhaseSuspended = [PhaseRunning, PhaseProvisioning, PhaseFailed, PhaseDestroying]"
| "transitions PhaseStopped = [PhaseProvisioning, PhaseDestroying]"
| "transitions PhaseFailed = [PhaseProvisioning, PhaseDestroying]"
| "transitions PhaseDestroying = []"
| "transitions (PhaseOther s) = []"

definition CanTransition :: "phase \<Rightarrow> phase \<Rightarrow> bool" where
  "CanTransition from to = (if from = to then True else to \<in> set (transitions from))"

definition known_phase :: "phase \<Rightarrow> bool" where
  "known_phase p = (case p of PhaseOther _ \<Rightarrow> False | _ \<Rightarrow> True)"

text \<open>A phase that \<^verbatim>\<open>Phase(text)\<close> can produce: an \<open>PhaseOther\<close> is not one of the seven
  constants in disguise.\<close>

definition phase_ok :: "phase \<Rightarrow> bool" where
  "phase_ok p = (phase_of_text (phase_text p) = p)"

lemma phase_text_of_text [simp]: "phase_text (phase_of_text s) = s"
  by (simp add: phase_of_text_def)

lemma known_phase_ok: "known_phase p \<Longrightarrow> phase_ok p"
  by (cases p) (simp_all add: known_phase_def phase_ok_def phase_of_text_def)

lemma phase_ok_of_text [simp]: "phase_ok (phase_of_text s)"
  by (simp add: phase_ok_def)

lemma CanTransition_refl [simp]: "CanTransition p p"
  by (simp add: CanTransition_def)

lemma CanTransition_Destroying: "known_phase p \<Longrightarrow> CanTransition p PhaseDestroying"
  by (cases p) (simp_all add: CanTransition_def known_phase_def)

lemma Destroying_is_final: "CanTransition PhaseDestroying p \<longleftrightarrow> p = PhaseDestroying"
  by (auto simp: CanTransition_def)

section \<open>The box\<close>

record box =
  b_ID :: string
  b_TenantID :: string
  b_Owner :: string
  b_Name :: string
  b_ImageRef :: string
  b_Backend :: string
  b_MemMB :: int
  b_CPUMillis :: int
  b_Ephemeral :: bool
  b_Grace :: duration
  b_MaxTTL :: duration
  b_Deadline :: "time option"
  b_AutoSuspend :: bool
  b_KeepAliveUntil :: time
  b_IdleTimeoutOverride :: duration
  b_Phase :: phase
  b_InstanceRef :: string
  b_IP :: string
  b_BootstrapToken :: string
  b_AgentConnected :: bool
  b_Attached :: bool
  b_Message :: string
  b_Load :: rat
  b_LastActive :: time
  b_AgentState :: string
  b_AgentStatus :: string
  b_CreatedAt :: time
  b_UpdatedAt :: time

text \<open>The Go zero value of \<^verbatim>\<open>Box\<close>; its phase is the empty string.\<close>

definition zero_box :: box where
  "zero_box = \<lparr> b_ID = [], b_TenantID = [], b_Owner = [], b_Name = [], b_ImageRef = [],
     b_Backend = [], b_MemMB = 0, b_CPUMillis = 0, b_Ephemeral = False, b_Grace = 0,
     b_MaxTTL = 0, b_Deadline = None, b_AutoSuspend = False, b_KeepAliveUntil = 0,
     b_IdleTimeoutOverride = 0, b_Phase = PhaseOther [], b_InstanceRef = [], b_IP = [],
     b_BootstrapToken = [], b_AgentConnected = False, b_Attached = False, b_Message = [],
     b_Load = 0, b_LastActive = 0, b_AgentState = [], b_AgentStatus = [], b_CreatedAt = 0,
     b_UpdatedAt = 0 \<rparr>"

definition newID :: "8 word list \<Rightarrow> string" where
  "newID rnd = hex_encode (take 8 rnd)"

definition New :: "8 word list \<Rightarrow> time \<Rightarrow> string \<Rightarrow> string \<Rightarrow> string \<Rightarrow> string \<Rightarrow> box" where
  "New rnd now tenantID owner name imageRef = zero_box\<lparr>
     b_ID := newID rnd, b_TenantID := tenantID, b_Owner := owner, b_Name := name,
     b_ImageRef := imageRef, b_Phase := PhasePending, b_CreatedAt := now, b_UpdatedAt := now \<rparr>"

text \<open>The four fields that say which box it is.\<close>

definition box_identity :: "box \<Rightarrow> string \<times> string \<times> string \<times> string" where
  "box_identity b = (b_ID b, b_TenantID b, b_Owner b, b_Name b)"

lemma newID_chars: "set (newID rnd) \<subseteq> set ''0123456789abcdef''"
  unfolding newID_def by (rule hex_encode_range)

section \<open>Flavors\<close>

record flavor =
  fl_CPUMillis :: int
  fl_MemMB :: int

definition builtinFlavors :: "(string \<times> flavor) list" where
  "builtinFlavors =
     [(''small'', \<lparr> fl_CPUMillis = 1000, fl_MemMB = 1024 \<rparr>),
      (''medium'', \<lparr> fl_CPUMillis = 2000, fl_MemMB = 2048 \<rparr>),
      (''large'', \<lparr> fl_CPUMillis = 4000, fl_MemMB = 4096 \<rparr>)]"

definition ResolveFlavor :: "string \<Rightarrow> flavor option" where
  "ResolveFlavor name = map_of builtinFlavors name"

definition Apply :: "flavor \<Rightarrow> box \<Rightarrow> box" where
  "Apply f b =
     (let b1 = (if fl_CPUMillis f > 0 then b\<lparr>b_CPUMillis := fl_CPUMillis f\<rparr> else b)
      in if fl_MemMB f > 0 then b1\<lparr>b_MemMB := fl_MemMB f\<rparr> else b1)"

lemma Apply_fields [simp]:
  "b_CPUMillis (Apply f b) = (if fl_CPUMillis f > 0 then fl_CPUMillis f else b_CPUMillis b)"
  "b_MemMB (Apply f b) = (if fl_MemMB f > 0 then fl_MemMB f else b_MemMB b)"
  "b_ID (Apply f b) = b_ID b" "b_TenantID (Apply f b) = b_TenantID b"
  "b_Owner (Apply f b) = b_Owner b" "b_Name (Apply f b) = b_Name b"
  "b_Phase (Apply f b) = b_Phase b" "b_Attached (Apply f b) = b_Attached b"
  "b_Ephemeral (Apply f b) = b_Ephemeral b" "b_AutoSuspend (Apply f b) = b_AutoSuspend b"
  "b_Grace (Apply f b) = b_Grace b" "b_ImageRef (Apply f b) = b_ImageRef b"
  "b_Backend (Apply f b) = b_Backend b"
  by (simp_all add: Apply_def Let_def)

section \<open>Backends\<close>

definition ResolveBackend :: "string \<Rightarrow> string list \<Rightarrow> string \<Rightarrow> string result" where
  "ResolveBackend requested available def =
     (if available = [] then Inl ErrNoBackends
      else if requested \<noteq> [] then
        (if requested \<notin> set available
         then Inl (Errorf (''backend '' @ quoted requested @ '' not available (have '' @
                show_strings available @ '')''))
         else Inr requested)
      else if length available = 1 then Inr (hd available)
      else if def \<noteq> [] then
        (if def \<notin> set available
         then Inl (Errorf (''default backend '' @ quoted def @ '' not available (have '' @
                show_strings available @ '')''))
         else Inr def)
      else Inl (Errorf (''multiple backends '' @ show_strings available @
             '' and none requested; specify one or set a default'')))"

section \<open>Idle detection\<close>

record idle_config =
  ic_Timeout :: duration
  ic_LoadThreshold :: rat

text \<open>The literal 0.2 is the double nearest to it.\<close>

definition DefaultIdle :: idle_config where
  "DefaultIdle = \<lparr> ic_Timeout = 15 * Minute,
     ic_LoadThreshold = 3602879701896397 / 18014398509481984 \<rparr>"

definition RecordHeartbeat :: "rat \<Rightarrow> time \<Rightarrow> idle_config \<Rightarrow> box \<Rightarrow> box" where
  "RecordHeartbeat load now cfg b =
     (let b1 = b\<lparr>b_Load := load\<rparr>
      in if b_Attached b1 \<or> load \<ge> ic_LoadThreshold cfg then b1\<lparr>b_LastActive := now\<rparr> else b1)"

definition EffectiveIdle :: "box \<Rightarrow> idle_config \<Rightarrow> idle_config" where
  "EffectiveIdle b def =
     (if b_IdleTimeoutOverride b > 0 then def\<lparr>ic_Timeout := b_IdleTimeoutOverride b\<rparr> else def)"

definition IsIdle :: "box \<Rightarrow> time \<Rightarrow> idle_config \<Rightarrow> bool" where
  "IsIdle b now cfg =
     (if b_Attached b \<or> b_Load b \<ge> ic_LoadThreshold cfg \<or> IsZero (b_LastActive b) then False
      else time_Sub now (b_LastActive b) \<ge> ic_Timeout cfg)"

section \<open>Lifetime of ephemeral boxes\<close>

record reap_action =
  ra_Reap :: bool
  ra_SetDeadline :: "time option"
  ra_ClearDeadline :: bool

definition no_action :: reap_action where
  "no_action = \<lparr> ra_Reap = False, ra_SetDeadline = None, ra_ClearDeadline = False \<rparr>"

definition EvalLifetime :: "box \<Rightarrow> time \<Rightarrow> reap_action" where
  "EvalLifetime b now =
     (if \<not> b_Ephemeral b then no_action
      else if b_MaxTTL b > 0 \<and> time_Sub now (b_CreatedAt b) \<ge> b_MaxTTL b
        then no_action\<lparr>ra_Reap := True\<rparr>
      else if b_Attached b then
        (if b_Deadline b \<noteq> None then no_action\<lparr>ra_ClearDeadline := True\<rparr> else no_action)
      else if b_Grace b \<le> 0 then no_action\<lparr>ra_Reap := True\<rparr>
      else case b_Deadline b of
        None \<Rightarrow> no_action\<lparr>ra_SetDeadline := Some (time_Add now (b_Grace b))\<rparr>
      | Some d \<Rightarrow> if \<not> time_Before now d then no_action\<lparr>ra_Reap := True\<rparr> else no_action)"

end
