(* ===== verification/Box_Store.thy ===== *)
theory Box_Store
  imports Box_Model
begin

text \<open>
  The persistence interface of the box core (\<^verbatim>\<open>internal/core/box/store.go\<close>): its operations
  as a record of functions over the state \<open>'s\<close> of the store, and the contract its clients rely
  on as two locales. \<open>box_store_frame\<close> says what an operation may do to the stored boxes
  whatever happens (a failing statement included); \<open>box_store\<close> adds that a store that is up
  answers. Both are interpreted on the box database and on the workspace-store adapter.
\<close>

section \<open>The interface\<close>

text \<open>\<open>sUpdate\<close> also returns the box as the call leaves it: the sqlite store stamps
  \<^verbatim>\<open>UpdatedAt\<close> in the caller's box.\<close>

record 's store_ops =
  sGet :: "string \<Rightarrow> string \<Rightarrow> 's \<Rightarrow> box result \<times> 's"
  sGetByName :: "string \<Rightarrow> string \<Rightarrow> 's \<Rightarrow> box result \<times> 's"
  sList :: "string \<Rightarrow> 's \<Rightarrow> box list result \<times> 's"
  sCreate :: "box \<Rightarrow> 's \<Rightarrow> unit result \<times> 's"
  sUpdate :: "box \<Rightarrow> 's \<Rightarrow> unit result \<times> box \<times> 's"
  sDelete :: "string \<Rightarrow> string \<Rightarrow> 's \<Rightarrow> unit result \<times> 's"

section \<open>The contract\<close>

text \<open>What an update stores for a row: every field of the new box but the columns that identify
  the row and its creation time, with a fresh modification time.\<close>

definition overwrite :: "time \<Rightarrow> box \<Rightarrow> box \<Rightarrow> box" where
  "overwrite now x b = b\<lparr> b_ID := b_ID x, b_TenantID := b_TenantID x, b_Owner := b_Owner x,
     b_Name := b_Name x, b_CreatedAt := b_CreatedAt x, b_UpdatedAt := now \<rparr>"

definition upd_rows :: "time \<Rightarrow> box \<Rightarrow> box list \<Rightarrow> box list" where
  "upd_rows now b rs = map (\<lambda>x. if b_ID x = b_ID b then overwrite now x b else x) rs"

definition del_rows :: "string \<Rightarrow> box list \<Rightarrow> box list" where
  "del_rows i rs = filter (\<lambda>x. b_ID x \<noteq> i) rs"

definition row :: "box list \<Rightarrow> string \<Rightarrow> box option" where
  "row rs i = find (\<lambda>x. b_ID x = i) rs"

lemma overwrite_fields [simp]:
  "b_ID (overwrite now x b) = b_ID x" "b_TenantID (overwrite now x b) = b_TenantID x"
  "b_Owner (overwrite now x b) = b_Owner x" "b_Name (overwrite now x b) = b_Name x"
  "b_CreatedAt (overwrite now x b) = b_CreatedAt x" "b_UpdatedAt (overwrite now x b) = now"
  "b_Phase (overwrite now x b) = b_Phase b" "b_Attached (overwrite now x b) = b_Attached b"
  "b_Ephemeral (overwrite now x b) = b_Ephemeral b" "b_InstanceRef (overwrite now x b) = b_InstanceRef b"
  "b_Deadline (overwrite now x b) = b_Deadline b" "b_IP (overwrite now x b) = b_IP b"
  "b_Grace (overwrite now x b) = b_Grace b" "b_MaxTTL (overwrite now x b) = b_MaxTTL b"
  "b_AgentConnected (overwrite now x b) = b_AgentConnected b"
  "b_Message (overwrite now x b) = b_Message b" "b_LastActive (overwrite now x b) = b_LastActive b"
  "b_BootstrapToken (overwrite now x b) = b_BootstrapToken b"
  "b_AutoSuspend (overwrite now x b) = b_AutoSuspend b"
  by (simp_all add: overwrite_def)

lemma ids_upd_rows [simp]: "map b_ID (upd_rows now b rs) = map b_ID rs"
  by (simp add: upd_rows_def)

lemma row_Some_iff:
  "distinct (map b_ID rs) \<Longrightarrow> row rs i = Some b \<longleftrightarrow> b \<in> set rs \<and> b_ID b = i"
  using distinct_map_find unfolding row_def by (auto simp: find_Some_iff)

lemma row_None_iff: "row rs i = None \<longleftrightarrow> i \<notin> b_ID ` set rs"
  by (auto simp: row_def find_None_iff)

lemma row_SomeD: "row rs i = Some b \<Longrightarrow> b \<in> set rs \<and> b_ID b = i"
  by (auto simp: row_def find_Some_iff)

lemma row_upd_rows:
  "row (upd_rows now b rs) i =
     (if i = b_ID b then map_option (\<lambda>x. overwrite now x b) (row rs i) else row rs i)"
  unfolding row_def upd_rows_def by (induction rs) auto

lemma row_del_rows: "row (del_rows j rs) i = (if i = j then None else row rs i)"
  unfolding row_def del_rows_def by (induction rs) auto

lemma row_append: "row (rs @ [b]) i = (case row rs i of Some x \<Rightarrow> Some x | None \<Rightarrow> if b_ID b = i then Some b else None)"
  unfolding row_def by (induction rs) auto

lemma upd_rows_id: "b_ID b \<notin> b_ID ` set rs \<Longrightarrow> upd_rows now b rs = rs"
  unfolding upd_rows_def by (rule map_idI) (metis image_eqI)

lemma distinct_del_rows: "distinct (map b_ID rs) \<Longrightarrow> distinct (map b_ID (del_rows i rs))"
  by (simp add: del_rows_def distinct_map_filter)

lemma set_upd_rows: "x \<in> set (upd_rows now b rs) \<Longrightarrow> x \<in> set rs \<or> (\<exists>y \<in> set rs. b_ID y = b_ID b \<and> x = overwrite now y b)"
  by (auto simp: upd_rows_def split: if_splits)

text \<open>\<open>rows\<close> are the stored boxes as a read returns them. A store persists every field of a
  box (\<open>full\<close>), or all but the two status fields the in-box agent reports. \<open>clash x b\<close> says
  that a unique key keeps \<open>b\<close> from being created beside \<open>x\<close>.\<close>

definition persisted :: "bool \<Rightarrow> box \<Rightarrow> box" where
  "persisted full b = (if full then b else b\<lparr>b_AgentState := [], b_AgentStatus := []\<rparr>)"

lemma persisted_fields [simp]:
  "b_ID (persisted f b) = b_ID b" "b_TenantID (persisted f b) = b_TenantID b"
  "b_Owner (persisted f b) = b_Owner b" "b_Name (persisted f b) = b_Name b"
  "b_Phase (persisted f b) = b_Phase b" "b_Attached (persisted f b) = b_Attached b"
  "b_Ephemeral (persisted f b) = b_Ephemeral b" "b_InstanceRef (persisted f b) = b_InstanceRef b"
  "b_CreatedAt (persisted f b) = b_CreatedAt b" "box_identity (persisted f b) = box_identity b"
  "persisted f (persisted f b) = persisted f b"
  by (simp_all add: persisted_def box_identity_def)

lemma persisted_iff: "persisted f b = b \<longleftrightarrow> f \<or> b_AgentState b = [] \<and> b_AgentStatus b = []"
  by (cases b) (auto simp: persisted_def)

locale box_store_frame =
  fixes S :: "'s store_ops" and rows :: "'s \<Rightarrow> box list" and wf :: "'s \<Rightarrow> bool"
    and full :: bool and now :: time
  assumes wf_ids: "wf s \<Longrightarrow> distinct (map b_ID (rows s))"
    and wf_row: "wf s \<Longrightarrow> b \<in> set (rows s) \<Longrightarrow> phase_ok (b_Phase b) \<and> persisted full b = b"
    and get_frame: "sGet S t i s = (rb, s') \<Longrightarrow> s' = s"
    and get_sound: "wf s \<Longrightarrow> sGet S t i s = (Inr b, s') \<Longrightarrow> row (rows s) i = Some b"
    and list_frame: "sList S t s = (rl, s') \<Longrightarrow> s' = s"
    and list_sound: "wf s \<Longrightarrow> sList S t s = (Inr bs, s') \<Longrightarrow>
      bs = filter (\<lambda>b. t = [] \<or> b_TenantID b = t) (rows s)"
    and create_sound: "wf s \<Longrightarrow> phase_ok (b_Phase b) \<Longrightarrow> sCreate S b s = (r, s') \<Longrightarrow>
      wf s' \<and> rows s' = (if is_ok r then rows s @ [persisted full b] else rows s)"
    and update_sound: "wf s \<Longrightarrow> phase_ok (b_Phase b) \<Longrightarrow> sUpdate S b s = (r, b', s') \<Longrightarrow>
      wf s' \<and> rows s' = (if is_ok r then upd_rows now (persisted full b) (rows s) else rows s) \<and>
      b' \<in> {b, b\<lparr>b_UpdatedAt := now\<rparr>}"
    and delete_sound: "wf s \<Longrightarrow> sDelete S t i s = (r, s') \<Longrightarrow>
      wf s' \<and> (rows s' = rows s \<or> is_ok r \<and> rows s' = del_rows i (rows s))"

locale box_store = box_store_frame +
  fixes up :: "'a \<Rightarrow> bool" and clash :: "box \<Rightarrow> box \<Rightarrow> bool"
  assumes up_get: "wf s \<Longrightarrow> up s \<Longrightarrow> b \<in> set (rows s) \<Longrightarrow>
      sGet S (b_TenantID b) (b_ID b) s = (Inr b, s)"
    and up_missing: "wf s \<Longrightarrow> up s \<Longrightarrow> row (rows s) i = None \<Longrightarrow> sGet S t i s = (Inl ErrNotFound, s)"
    and up_list: "wf s \<Longrightarrow> up s \<Longrightarrow>
      sList S t s = (Inr (filter (\<lambda>b. t = [] \<or> b_TenantID b = t) (rows s)), s)"
    and up_update: "wf s \<Longrightarrow> up s \<Longrightarrow> phase_ok (b_Phase b) \<Longrightarrow> row (rows s) (b_ID b) = Some x \<Longrightarrow>
      b_TenantID x = b_TenantID b \<Longrightarrow> \<exists>b' s'. sUpdate S b s = (Inr (), b', s') \<and> up s'"
    and up_create: "wf s \<Longrightarrow> up s \<Longrightarrow> phase_ok (b_Phase b) \<Longrightarrow> row (rows s) (b_ID b) = None \<Longrightarrow>
      \<not> (\<exists>x \<in> set (rows s). clash x b) \<Longrightarrow>
      \<exists>s'. sCreate S b s = (Inr (), s') \<and> up s'"
    and up_delete: "wf s \<Longrightarrow> up s \<Longrightarrow> b \<in> set (rows s) \<Longrightarrow>
      \<exists>s'. sDelete S (b_TenantID b) (b_ID b) s = (Inr (), s') \<and> up s' \<and>
        rows s' = del_rows (b_ID b) (rows s)"

context box_store_frame
begin

lemma wf_phases: "wf s \<Longrightarrow> b \<in> set (rows s) \<Longrightarrow> phase_ok (b_Phase b)"
  by (simp add: wf_row)

lemma get_row_tenant: "wf s \<Longrightarrow> sGet S t i s = (Inr b, s') \<Longrightarrow> b \<in> set (rows s) \<and> b_ID b = i \<and> s' = s"
  using get_sound get_frame row_SomeD by blast

end

text \<open>An update that succeeds is read back: with every field of the box but the modification
  time and whatever the store does not persist.\<close>

context box_store
begin

lemma update_then_get:
  assumes "wf s" "up s" "phase_ok (b_Phase b)" "row (rows s) (b_ID b) = Some x"
    "box_identity x = box_identity b" "b_CreatedAt x = b_CreatedAt b"
    and u: "sUpdate S b s = (r, b', s')"
  shows "r = Inr () \<and> fst (sGet S (b_TenantID b) (b_ID b) s') = Inr ((persisted full b)\<lparr>b_UpdatedAt := now\<rparr>)"
proof -
  have t: "b_TenantID x = b_TenantID b" using assms by (simp add: box_identity_def)
  from up_update [OF assms(1-4) t] u have ok: "r = Inr ()" "up s'" by auto
  from update_sound [OF assms(1,3) u] ok have s': "wf s'" "rows s' = upd_rows now (persisted full b) (rows s)" by auto
  have "row (rows s') (b_ID b) = Some (overwrite now x (persisted full b))"
    using assms(4) s'(2) by (simp add: row_upd_rows)
  moreover have "overwrite now x (persisted full b) = (persisted full b)\<lparr>b_UpdatedAt := now\<rparr>"
    using assms(5,6) by (simp add: overwrite_def box_identity_def)
  ultimately have "(persisted full b)\<lparr>b_UpdatedAt := now\<rparr> \<in> set (rows s')" by (metis row_SomeD)
  from up_get [OF s'(1) ok(2) this] ok show ?thesis by simp
qed

end

end
