(* ===== verification/Box_Reconcile.thy ===== *)
theory Box_Reconcile
  imports Box_Store "HOL-Library.AList"
begin

text \<open>
  The reconcile loop (\<^verbatim>\<open>internal/core/box/reconcile.go\<close>): \<open>ReconcileOne\<close> advances one box by
  one step, \<open>Drain\<close> suspends the persistent boxes at shutdown, \<open>Run\<close> is the event loop. The
  state is the pair of the store's state \<open>'s\<close> and the providers' state \<open>'c\<close>; each operation is
  given the instant and the random bytes it reads.

  The abstract specification is a step relation on one box: \<open>quiet_step\<close> (the steps that keep
  the phase) and \<open>phase_step\<close>. The refinement lemma says that \<open>ReconcileOne\<close> moves the row of its
  box by quiet steps and at most one phase step, or removes it when that is allowed, and keeps
  every other row.
\<close>

section \<open>The reconciler\<close>

record ('s, 'c) hooks_ops =
  h_PreProvision :: "box \<Rightarrow> 's \<times> 'c \<Rightarrow> (mount list \<times> env) result \<times> 's \<times> 'c"
  h_PostRunning :: "box \<Rightarrow> 's \<times> 'c \<Rightarrow> unit result \<times> 's \<times> 'c"
  h_PreDestroy :: "box \<Rightarrow> 's \<times> 'c \<Rightarrow> unit result \<times> 's \<times> 'c"

record ('s, 'c) reconcile_config =
  rc_AgentAddr :: string
  rc_Agent :: agent_image
  rc_MetaURL :: string
  rc_GuestBin :: string
  rc_Idle :: idle_config
  rc_Interval :: duration
  rc_Hooks :: "('s, 'c) hooks_ops option"
  rc_TrustedSSH :: bool

text \<open>The store is indexed by the instant of the call, which it stamps on the rows it writes.\<close>

record ('s, 'c) reconciler =
  r_store :: "time \<Rightarrow> 's store_ops"
  r_compute :: "'c compute_ops"
  r_cfg :: "('s, 'c) reconcile_config"

definition zero_idle :: idle_config where
  "zero_idle = \<lparr> ic_Timeout = 0, ic_LoadThreshold = 0 \<rparr>"

definition NewReconciler :: "(time \<Rightarrow> 's store_ops) \<Rightarrow> 'c compute_ops \<Rightarrow> ('s, 'c) reconcile_config \<Rightarrow>
    ('s, 'c) reconciler" where
  "NewReconciler s c cfg =
     (let cfg1 = (if rc_Interval cfg = 0 then cfg\<lparr>rc_Interval := Second\<rparr> else cfg);
          cfg2 = (if rc_Idle cfg1 = zero_idle then cfg1\<lparr>rc_Idle := DefaultIdle\<rparr> else cfg1)
      in \<lparr> r_store = s, r_compute = c, r_cfg = cfg2 \<rparr>)"

definition newToken :: "8 word list \<Rightarrow> string" where
  "newToken rnd = hex_encode (take 16 rnd)"

definition setPhase :: "('s, 'c) reconciler \<Rightarrow> time \<Rightarrow> box \<Rightarrow> phase \<Rightarrow> string \<Rightarrow> 's \<times> 'c \<Rightarrow>
    unit result \<times> 's \<times> 'c" where
  "setPhase r now b p msg = (\<lambda>(s, c).
     if \<not> CanTransition (b_Phase b) p then
       (Inl (Errorf (''illegal transition '' @ phase_text (b_Phase b) @ ''->'' @ phase_text p)), s, c)
     else
       (let b1 = (if p = PhaseRunning \<and> IsZero (b_LastActive b) then b\<lparr>b_LastActive := now\<rparr> else b);
            (r1, _, s1) = sUpdate (r_store r now) (b1\<lparr>b_Phase := p, b_Message := msg\<rparr>) s
        in (r1, s1, c)))"

definition fail :: "('s, 'c) reconciler \<Rightarrow> time \<Rightarrow> box \<Rightarrow> err \<Rightarrow> 's \<times> 'c \<Rightarrow> unit result \<times> 's \<times> 'c" where
  "fail r now b cause = (\<lambda>(s, c).
     let (_, _, s1) = sUpdate (r_store r now) (b\<lparr>b_Phase := PhaseFailed, b_Message := err_text cause\<rparr>) s
     in (Inl cause, s1, c))"

definition provision_env :: "('s, 'c) reconcile_config \<Rightarrow> box \<Rightarrow> env" where
  "provision_env cfg b =
     [(''HOPBOX_AGENT_TOKEN'', b_BootstrapToken b), (''HOPBOX_CONTROL_ADDR'', rc_AgentAddr cfg),
      (''HOPBOX_WORKSPACE_ID'', b_ID b), (''HOPBOX_PRINCIPAL'', b_Owner b)] @
     (if rc_MetaURL cfg \<noteq> [] then [(''BOX_META'', rc_MetaURL cfg)] else []) @
     (if rc_TrustedSSH cfg then [(''HOPBOX_SSH_TRUSTED'', ''1'')] else [])"

definition env_merge :: "env \<Rightarrow> env \<Rightarrow> env" where
  "env_merge e h = foldl (\<lambda>m (k, v). AList.update k v m) e h"

text \<open>\<^verbatim>\<open>provision\<close>, from the call of the compute provider on, and the whole of it.\<close>

definition provision_compute :: "('s, 'c) reconciler \<Rightarrow> time \<Rightarrow> box \<Rightarrow> mount list \<Rightarrow> env \<Rightarrow> 's \<times> 'c \<Rightarrow>
    unit result \<times> 's \<times> 'c" where
  "provision_compute r now b mounts e = (\<lambda>(s, c).
     case c_Provision (r_compute r)
         \<lparr> pr_WorkspaceID = b_ID b, pr_ImageRef = b_ImageRef b, pr_MemMB = b_MemMB b,
           pr_CPUMillis = b_CPUMillis b, pr_GuestBin = rc_GuestBin (r_cfg r), pr_Mounts = mounts,
           pr_Env = e, pr_Agent = rc_Agent (r_cfg r) \<rparr> c of
       (Inl er, c') \<Rightarrow> fail r now b (Wrapf ''compute: '' er) (s, c')
     | (Inr inst, c') \<Rightarrow>
         (let (r1, _, s1) = sUpdate (r_store r now)
                (b\<lparr>b_InstanceRef := inst_Ref inst, b_IP := inst_IP inst, b_AgentConnected := False,
                   b_Phase := PhaseProvisioning, b_Message := ''provisioned, awaiting agent''\<rparr>) s
          in (r1, s1, c')))"

definition provision :: "('s, 'c) reconciler \<Rightarrow> time \<Rightarrow> 8 word list \<Rightarrow> box \<Rightarrow> 's \<times> 'c \<Rightarrow>
    unit result \<times> 's \<times> 'c" where
  "provision r now rnd b0 = (\<lambda>(s, c).
     let b = (if b_BootstrapToken b0 = [] then b0\<lparr>b_BootstrapToken := newToken rnd\<rparr> else b0);
         e = provision_env (r_cfg r) b
     in case rc_Hooks (r_cfg r) of
          None \<Rightarrow> provision_compute r now b [] e (s, c)
        | Some h \<Rightarrow>
            (case h_PreProvision h b (s, c) of
               (Inl er, s1, c1) \<Rightarrow> fail r now b (Wrapf ''pre-provision: '' er) (s1, c1)
             | (Inr (m, hookEnv), s1, c1) \<Rightarrow>
                 provision_compute r now b m (env_merge e hookEnv) (s1, c1)))"

definition shouldSuspend :: "('s, 'c) reconciler \<Rightarrow> time \<Rightarrow> box \<Rightarrow> bool" where
  "shouldSuspend r now b =
     (if b_Ephemeral b \<or> \<not> b_AutoSuspend b \<or> \<not> b_AgentConnected b then False
      else if c_Suspender (r_compute r) = None then False
      else time_After now (b_KeepAliveUntil b) \<and> IsIdle b now (EffectiveIdle b (rc_Idle (r_cfg r))))"

definition suspend :: "('s, 'c) reconciler \<Rightarrow> time \<Rightarrow> 'c suspender_ops \<Rightarrow> box \<Rightarrow> 's \<times> 'c \<Rightarrow>
    unit result \<times> 's \<times> 'c" where
  "suspend r now susp b = (\<lambda>(s, c).
     case c_Suspend susp (b_InstanceRef b) c of
       (Inl er, c') \<Rightarrow> (Inl (Wrapf (''suspend '' @ b_InstanceRef b @ '': '') er), s, c')
     | (Inr _, c') \<Rightarrow>
         setPhase r now (b\<lparr>b_AgentConnected := False\<rparr>) PhaseSuspended ''auto-suspended (idle)'' (s, c'))"

definition resume :: "('s, 'c) reconciler \<Rightarrow> time \<Rightarrow> 8 word list \<Rightarrow> box \<Rightarrow> 's \<times> 'c \<Rightarrow>
    unit result \<times> 's \<times> 'c" where
  "resume r now rnd b = (\<lambda>(s, c).
     case c_Suspender (r_compute r) of
       None \<Rightarrow> provision r now rnd b (s, c)
     | Some susp \<Rightarrow>
         (case c_Resume susp (b_InstanceRef b) c of
            (Inl er, c') \<Rightarrow> (Inl (Wrapf (''resume '' @ b_InstanceRef b @ '': '') er), s, c')
          | (Inr _, c') \<Rightarrow> setPhase r now b PhaseRunning ''resumed (attached)'' (s, c')))"

text \<open>\<^verbatim>\<open>reconcileLifetime\<close> returns the \<^verbatim>\<open>(done, err)\<close> pair and the box as it leaves it.\<close>

definition reconcileLifetime :: "('s, 'c) reconciler \<Rightarrow> time \<Rightarrow> box \<Rightarrow> 's \<times> 'c \<Rightarrow>
    (bool \<times> unit result) \<times> box \<times> 's \<times> 'c" where
  "reconcileLifetime r now b = (\<lambda>(s, c).
     let act = EvalLifetime b now in
     if ra_Reap act then
       (let (r1, s1, c1) = setPhase r now b PhaseDestroying ''ephemeral: lifetime expired'' (s, c)
        in ((True, r1), b, s1, c1))
     else
       (let (r1, b1, s1) = (case ra_SetDeadline act of
              Some d \<Rightarrow> sUpdate (r_store r now) (b\<lparr>b_Deadline := Some d\<rparr>) s
            | None \<Rightarrow> (Inr (), b, s))
        in if \<not> is_ok r1 then ((True, r1), b1, s1, c)
        else (let (r2, b2, s2) = (if ra_ClearDeadline act
                then sUpdate (r_store r now) (b1\<lparr>b_Deadline := None\<rparr>) s1
                else (Inr (), b1, s1))
              in if \<not> is_ok r2 then ((True, r2), b2, s2, c)
              else ((\<not> b_Attached b2, Inr ()), b2, s2, c))))"

definition healIfDead :: "('s, 'c) reconciler \<Rightarrow> time \<Rightarrow> 8 word list \<Rightarrow> box \<Rightarrow> 's \<times> 'c \<Rightarrow>
    unit result \<times> 's \<times> 'c" where
  "healIfDead r now rnd b = (\<lambda>(s, c).
     if b_InstanceRef b = [] then provision r now rnd b (s, c)
     else case c_Status (r_compute r) (b_InstanceRef b) c of
       (Inl er, c') \<Rightarrow> (Inl (Wrapf (''status '' @ b_InstanceRef b @ '': '') er), s, c')
     | (Inr inst, c') \<Rightarrow>
         if inst_Phase inst = InstanceGone \<or> inst_Phase inst = InstanceFailed
         then provision r now rnd b (s, c') else (Inr (), s, c'))"

definition checkAlive :: "('s, 'c) reconciler \<Rightarrow> time \<Rightarrow> box \<Rightarrow> 's \<times> 'c \<Rightarrow> unit result \<times> 's \<times> 'c" where
  "checkAlive r now b = (\<lambda>(s, c).
     if b_InstanceRef b = [] then (Inr (), s, c)
     else case c_Status (r_compute r) (b_InstanceRef b) c of
       (Inl er, c') \<Rightarrow> (Inl er, s, c')
     | (Inr inst, c') \<Rightarrow>
         if inst_Phase inst = InstanceFailed \<or> inst_Phase inst = InstanceGone
         then fail r now b (Errorf (''instance '' @ b_InstanceRef b @ '' phase='' @
                instance_phase_text (inst_Phase inst) @ '' before agent connected'')) (s, c')
         else (Inr (), s, c'))"

definition destroy :: "('s, 'c) reconciler \<Rightarrow> time \<Rightarrow> box \<Rightarrow> 's \<times> 'c \<Rightarrow> unit result \<times> 's \<times> 'c" where
  "destroy r now b = (\<lambda>(s, c).
     let (s1, c1) = (case rc_Hooks (r_cfg r) of None \<Rightarrow> (s, c) | Some h \<Rightarrow> snd (h_PreDestroy h b (s, c)));
         (r2, c2) = (if b_InstanceRef b \<noteq> [] then c_Destroy (r_compute r) (b_InstanceRef b) c1 else (Inr (), c1))
     in case r2 of
          Inl er \<Rightarrow> (Inl er, s1, c2)
        | Inr _ \<Rightarrow>
            (let (r3, s3) = sDelete (r_store r now) (b_TenantID b) (b_ID b) s1 in (r3, s3, c2)))"

text \<open>\<^verbatim>\<open>ReconcileOne\<close> after the box has been read, and the tail of its running branch.\<close>

definition reconcile_running :: "('s, 'c) reconciler \<Rightarrow> time \<Rightarrow> 8 word list \<Rightarrow> box \<Rightarrow> 's \<times> 'c \<Rightarrow>
    unit result \<times> 's \<times> 'c" where
  "reconcile_running r now rnd b sc =
     (case (c_Suspender (r_compute r), shouldSuspend r now b) of
        (Some susp, True) \<Rightarrow> suspend r now susp b sc
      | _ \<Rightarrow>
          if \<not> b_AgentConnected b then healIfDead r now rnd b sc
          else (case rc_Hooks (r_cfg r) of Some h \<Rightarrow> h_PostRunning h b sc | None \<Rightarrow> (Inr (), sc)))"

definition reconcile_box :: "('s, 'c) reconciler \<Rightarrow> time \<Rightarrow> 8 word list \<Rightarrow> box \<Rightarrow> 's \<times> 'c \<Rightarrow>
    unit result \<times> 's \<times> 'c" where
  "reconcile_box r now rnd b sc =
     (case b_Phase b of
        PhasePending \<Rightarrow> provision r now rnd b sc
      | PhaseProvisioning \<Rightarrow>
          if b_AgentConnected b then setPhase r now b PhaseRunning ''agent connected'' sc
          else checkAlive r now b sc
      | PhaseRunning \<Rightarrow>
          if b_Ephemeral b then
            (let ((fin, res), b1, sc1) = reconcileLifetime r now b sc in
             if fin \<or> \<not> is_ok res then (res, sc1) else reconcile_running r now rnd b1 sc1)
          else reconcile_running r now rnd b sc
      | PhaseSuspended \<Rightarrow> if b_Attached b then resume r now rnd b sc else (Inr (), sc)
      | PhaseDestroying \<Rightarrow> destroy r now b sc
      | PhaseFailed \<Rightarrow> if b_Ephemeral b then destroy r now b sc else (Inr (), sc)
      | PhaseStopped \<Rightarrow> if b_Ephemeral b then destroy r now b sc else (Inr (), sc)
      | PhaseOther _ \<Rightarrow> (Inr (), sc))"

definition ReconcileOne :: "('s, 'c) reconciler \<Rightarrow> time \<Rightarrow> 8 word list \<Rightarrow> string \<Rightarrow> string \<Rightarrow> 's \<times> 'c \<Rightarrow>
    unit result \<times> 's \<times> 'c" where
  "ReconcileOne r now rnd tenant i = (\<lambda>(s, c).
     case sGet (r_store r now) tenant i s of
       (Inl er, s') \<Rightarrow> (Inl er, s', c)
     | (Inr b, s') \<Rightarrow> reconcile_box r now rnd b (s', c))"

definition drain_one :: "('s, 'c) reconciler \<Rightarrow> time \<Rightarrow> 'c suspender_ops \<Rightarrow> box \<Rightarrow> 's \<times> 'c \<Rightarrow> 's \<times> 'c" where
  "drain_one r now susp b = (\<lambda>(s, c).
     if b_Ephemeral b \<or> b_Phase b \<noteq> PhaseRunning then (s, c)
     else case c_Suspend susp (b_InstanceRef b) c of
       (Inl _, c') \<Rightarrow> (s, c')
     | (Inr _, c') \<Rightarrow>
         snd (setPhase r now (b\<lparr>b_AgentConnected := False\<rparr>) PhaseSuspended ''suspended (shutdown)'' (s, c')))"

definition Drain :: "('s, 'c) reconciler \<Rightarrow> time \<Rightarrow> string \<Rightarrow> 's \<times> 'c \<Rightarrow> 's \<times> 'c" where
  "Drain r now tenant = (\<lambda>(s, c).
     case c_Suspender (r_compute r) of
       None \<Rightarrow> (s, c)
     | Some susp \<Rightarrow>
         (case sList (r_store r now) tenant s of
            (Inl _, s') \<Rightarrow> (s', c)
          | (Inr boxes, s') \<Rightarrow> fold (drain_one r now susp) boxes (s', c)))"

section \<open>The event queue and the loop\<close>

type_synonym reconcile_req = "string \<times> string"

definition queue_cap :: nat where "queue_cap = 1024"

definition Trigger :: "string \<Rightarrow> string \<Rightarrow> reconcile_req list \<Rightarrow> reconcile_req list" where
  "Trigger i tenant events = (if length events < queue_cap then events @ [(tenant, i)] else events)"

definition run_event :: "('s, 'c) reconciler \<Rightarrow> time \<Rightarrow> 8 word list \<Rightarrow> reconcile_req \<Rightarrow> 's \<times> 'c \<Rightarrow> 's \<times> 'c" where
  "run_event r now rnd req sc = snd (ReconcileOne r now rnd (fst req) (snd req) sc)"

text \<open>One sweep: each listed box at the instant and with the random bytes of its turn.\<close>

fun sweep_boxes :: "('s, 'c) reconciler \<Rightarrow> (time \<times> 8 word list) list \<Rightarrow> box list \<Rightarrow> 's \<times> 'c \<Rightarrow> 's \<times> 'c" where
  "sweep_boxes r ((now, rnd) # ins) (b # bs) sc =
     sweep_boxes r ins bs (snd (ReconcileOne r now rnd (b_TenantID b) (b_ID b) sc))"
| "sweep_boxes r _ _ sc = sc"

definition run_tick :: "('s, 'c) reconciler \<Rightarrow> time \<Rightarrow> (time \<times> 8 word list) list \<Rightarrow> 's \<times> 'c \<Rightarrow> 's \<times> 'c" where
  "run_tick r now ins = (\<lambda>(s, c).
     case sList (r_store r now) [] s of
       (Inl _, s') \<Rightarrow> (s', c)
     | (Inr all, s') \<Rightarrow> sweep_boxes r ins all (s', c))"

text \<open>The loop as a step relation: it receives an event or a tick of its ticker (the sweep takes
  one input per listed box), and other parties trigger it.\<close>

inductive run_step :: "('s, 'c) reconciler \<Rightarrow> reconcile_req list \<times> 's \<times> 'c \<Rightarrow>
    reconcile_req list \<times> 's \<times> 'c \<Rightarrow> bool" for r where
  event: "run_step r (req # events, s, c) (events, run_event r now rnd req (s, c))"
| tick: "run_step r (events, s, c) (events, run_tick r now ins (s, c))"
| trigger: "run_step r (events, s, c) (Trigger i tenant events, s, c)"


section \<open>The abstract machine of one box\<close>

definition started :: "time \<Rightarrow> box \<Rightarrow> box" where
  "started now x = (if IsZero (b_LastActive x) then x\<lparr>b_LastActive := now\<rparr> else x)"

definition tokened :: "string \<Rightarrow> box \<Rightarrow> box" where
  "tokened tok x = (if b_BootstrapToken x = [] then x\<lparr>b_BootstrapToken := tok\<rparr> else x)"

text \<open>When a box may be (re)built: it is new, or it runs with its agent gone and nobody counts it
  down, or it is suspended, wanted, and the backend cannot resume it.\<close>

definition rebuildable :: "bool \<Rightarrow> box \<Rightarrow> bool" where
  "rebuildable susp x =
     (case b_Phase x of
        PhasePending \<Rightarrow> True
      | PhaseRunning \<Rightarrow> \<not> b_AgentConnected x \<and> (b_Ephemeral x \<longrightarrow> b_Attached x)
      | PhaseSuspended \<Rightarrow> b_Attached x \<and> \<not> susp
      | _ \<Rightarrow> False)"

definition removable :: "box \<Rightarrow> bool" where
  "removable x = (b_Phase x = PhaseDestroying \<or>
     b_Ephemeral x \<and> (b_Phase x = PhaseFailed \<or> b_Phase x = PhaseStopped))"

inductive quiet_step :: "time \<Rightarrow> box \<Rightarrow> box \<Rightarrow> bool" for now where
  touch: "quiet_step now x (x\<lparr>b_UpdatedAt := u\<rparr>)"
| countdown: "b_Phase x = PhaseRunning \<Longrightarrow> ra_SetDeadline (EvalLifetime x now) = Some d \<Longrightarrow>
    quiet_step now x (x\<lparr>b_Deadline := Some d\<rparr>)"
| cleared: "b_Phase x = PhaseRunning \<Longrightarrow> ra_ClearDeadline (EvalLifetime x now) \<Longrightarrow>
    quiet_step now x (x\<lparr>b_Deadline := None\<rparr>)"

inductive phase_step :: "idle_config \<Rightarrow> bool \<Rightarrow> time \<Rightarrow> box \<Rightarrow> box \<Rightarrow> bool" for idle susp now where
  provisioned: "rebuildable susp x \<Longrightarrow> phase_step idle susp now x
    ((tokened tok x)\<lparr>b_InstanceRef := ref, b_IP := ip, b_AgentConnected := False,
       b_Phase := PhaseProvisioning, b_Message := ''provisioned, awaiting agent''\<rparr>)"
| build_failed: "rebuildable susp x \<Longrightarrow> phase_step idle susp now x
    ((tokened tok x)\<lparr>b_Phase := PhaseFailed, b_Message := m\<rparr>)"
| died: "b_Phase x = PhaseProvisioning \<Longrightarrow> \<not> b_AgentConnected x \<Longrightarrow> b_InstanceRef x \<noteq> [] \<Longrightarrow>
    phase_step idle susp now x (x\<lparr>b_Phase := PhaseFailed, b_Message := m\<rparr>)"
| connected: "b_Phase x = PhaseProvisioning \<Longrightarrow> b_AgentConnected x \<Longrightarrow> phase_step idle susp now x
    ((started now x)\<lparr>b_Phase := PhaseRunning, b_Message := ''agent connected''\<rparr>)"
| expired: "b_Phase x = PhaseRunning \<Longrightarrow> ra_Reap (EvalLifetime x now) \<Longrightarrow> phase_step idle susp now x
    (x\<lparr>b_Phase := PhaseDestroying, b_Message := ''ephemeral: lifetime expired''\<rparr>)"
| suspended: "b_Phase x = PhaseRunning \<Longrightarrow> susp \<Longrightarrow> \<not> b_Ephemeral x \<Longrightarrow> b_AutoSuspend x \<Longrightarrow>
    b_AgentConnected x \<Longrightarrow> b_KeepAliveUntil x < now \<Longrightarrow> IsIdle x now (EffectiveIdle x idle) \<Longrightarrow>
    phase_step idle susp now x
      (x\<lparr>b_AgentConnected := False, b_Phase := PhaseSuspended, b_Message := ''auto-suspended (idle)''\<rparr>)"
| resumed: "b_Phase x = PhaseSuspended \<Longrightarrow> b_Attached x \<Longrightarrow> susp \<Longrightarrow> phase_step idle susp now x
    ((started now x)\<lparr>b_Phase := PhaseRunning, b_Message := ''resumed (attached)''\<rparr>)"

inductive_cases quiet_stepE: "quiet_step now x y"
inductive_cases phase_stepE: "phase_step idle susp now x y"

text \<open>What one reconcile may do to a box: quiet steps, at most one phase step, quiet steps.\<close>

definition tick_box :: "idle_config \<Rightarrow> bool \<Rightarrow> time \<Rightarrow> box \<Rightarrow> box \<Rightarrow> bool" where
  "tick_box idle susp now =
     (quiet_step now)\<^sup>*\<^sup>* OO (phase_step idle susp now)\<^sup>=\<^sup>= OO (quiet_step now)\<^sup>*\<^sup>*"

lemma rebuildable_phases:
  "rebuildable susp x \<Longrightarrow> b_Phase x \<in> {PhasePending, PhaseRunning, PhaseSuspended}"
  by (cases "b_Phase x") (auto simp: rebuildable_def)

lemma phase_step_legal: "phase_step idle susp now x y \<Longrightarrow> CanTransition (b_Phase x) (b_Phase y)"
  by (erule phase_step.cases) (auto simp: CanTransition_def dest!: rebuildable_phases)

lemma quiet_step_phase: "quiet_step now x y \<Longrightarrow> b_Phase y = b_Phase x"
  by (erule quiet_step.cases) auto

text \<open>The fields no reconcile changes.\<close>

definition constant_part :: "box \<Rightarrow> (string \<times> string \<times> string \<times> string) \<times> bool \<times> bool \<times> bool \<times> duration \<times>
    duration \<times> time" where
  "constant_part b = (box_identity b, b_Ephemeral b, b_AutoSuspend b, b_Attached b, b_Grace b, b_MaxTTL b,
     b_CreatedAt b)"

lemma quiet_step_constant: "quiet_step now x y \<Longrightarrow> constant_part y = constant_part x"
  by (erule quiet_step.cases) (auto simp: constant_part_def box_identity_def)

lemma phase_step_constant: "phase_step idle susp now x y \<Longrightarrow> constant_part y = constant_part x"
  by (erule phase_step.cases)
    (auto simp: constant_part_def box_identity_def tokened_def started_def)

lemma quiet_steps:
  assumes "(quiet_step now)\<^sup>*\<^sup>* x y"
  shows "b_Phase y = b_Phase x" "constant_part y = constant_part x"
  using assms by (induction rule: rtranclp_induct) (auto dest: quiet_step_phase quiet_step_constant)

lemma tick_box_legal: "tick_box idle susp now x y \<Longrightarrow> CanTransition (b_Phase x) (b_Phase y)"
  by (auto simp: tick_box_def dest!: quiet_steps(1) phase_step_legal)

lemma tick_box_constant: "tick_box idle susp now x y \<Longrightarrow> constant_part y = constant_part x"
  by (auto simp: tick_box_def dest!: quiet_steps(2) phase_step_constant)

lemma tick_box_phaseI: "phase_step idle susp now x z \<Longrightarrow> tick_box idle susp now x (z\<lparr>b_UpdatedAt := u\<rparr>)"
  unfolding tick_box_def using quiet_step.touch [of now z u] by blast

lemma tick_box_touchI: "tick_box idle susp now x (x\<lparr>b_UpdatedAt := u\<rparr>)"
  unfolding tick_box_def using quiet_step.touch [of now x u] by blast

lemma tick_box_refl: "tick_box idle susp now x x"
  unfolding tick_box_def by blast

lemma tick_box_quietI: "(quiet_step now)\<^sup>*\<^sup>* x z \<Longrightarrow> tick_box idle susp now z y \<Longrightarrow> tick_box idle susp now x y"
  unfolding tick_box_def by (elim relcomppE, intro relcomppI) (rule rtranclp_trans, assumption+)

text \<open>Consequences for a persistent box, and for a box with a session.\<close>

lemma EvalLifetime_reap_ephemeral: "ra_Reap (EvalLifetime b t) \<Longrightarrow> b_Ephemeral b"
  by (auto simp: EvalLifetime_def no_action_def split: if_splits)

lemma EvalLifetime_reap_attached:
  "ra_Reap (EvalLifetime b t) \<Longrightarrow> b_Attached b \<Longrightarrow> b_MaxTTL b > 0 \<and> time_Sub t (b_CreatedAt b) \<ge> b_MaxTTL b"
  by (auto simp: EvalLifetime_def no_action_def split: if_splits)

lemma phase_step_to_Destroying:
  "phase_step idle susp now x y \<Longrightarrow> b_Phase y = PhaseDestroying \<Longrightarrow> ra_Reap (EvalLifetime x now)"
  by (erule phase_step.cases) auto

lemma phase_step_to_Suspended:
  "phase_step idle susp now x y \<Longrightarrow> b_Phase y = PhaseSuspended \<Longrightarrow> \<not> b_Attached x"
  by (erule phase_step.cases) (auto simp: IsIdle_def split: if_splits)

lemma tick_boxE:
  assumes "tick_box idle susp now x y"
  obtains x1 y1 where "(quiet_step now)\<^sup>*\<^sup>* x x1" "(phase_step idle susp now)\<^sup>=\<^sup>= x1 y1" "b_Phase y = b_Phase y1"
  using assms quiet_steps(1) unfolding tick_box_def by (elim relcomppE) metis

lemma tick_box_persistent:
  assumes "tick_box idle susp now x y" "\<not> b_Ephemeral x" "b_Phase x \<noteq> PhaseDestroying"
  shows "b_Phase y \<noteq> PhaseDestroying"
proof
  assume "b_Phase y = PhaseDestroying"
  then obtain x1 y1 where q: "(quiet_step now)\<^sup>*\<^sup>* x x1" "(phase_step idle susp now)\<^sup>=\<^sup>= x1 y1"
    "b_Phase y1 = PhaseDestroying"
    using tick_boxE [OF assms(1)] by metis
  then have "phase_step idle susp now x1 y1" using assms(3) quiet_steps(1) [OF q(1)] by auto
  from EvalLifetime_reap_ephemeral [OF phase_step_to_Destroying [OF this q(3)]] quiet_steps(2) [OF q(1)] assms(2)
  show False by (simp add: constant_part_def)
qed

lemma tick_box_attached:
  assumes "tick_box idle susp now x y" "b_Attached x" "b_Phase x = PhaseRunning"
    and ttl: "b_MaxTTL x \<le> 0 \<or> time_Sub now (b_CreatedAt x) < b_MaxTTL x"
  shows "b_Phase y \<noteq> PhaseDestroying \<and> b_Phase y \<noteq> PhaseSuspended"
proof -
  obtain x1 y1 where q: "(quiet_step now)\<^sup>*\<^sup>* x x1" "(phase_step idle susp now)\<^sup>=\<^sup>= x1 y1"
    "b_Phase y = b_Phase y1"
    using tick_boxE [OF assms(1)] by metis
  have c: "b_Attached x1" "b_MaxTTL x1 = b_MaxTTL x" "b_CreatedAt x1 = b_CreatedAt x" "b_Phase x1 = PhaseRunning"
    using quiet_steps [OF q(1)] assms(2,3) by (auto simp: constant_part_def)
  from q(2) show ?thesis
  proof (rule sup2E)
    assume p: "phase_step idle susp now x1 y1"
    then show ?thesis
      using phase_step_to_Destroying [OF p] phase_step_to_Suspended [OF p] EvalLifetime_reap_attached [of x1 now] c q(3) ttl
      by auto
  next
    assume "x1 = y1"
    with c q(3) show ?thesis by simp
  qed
qed

section \<open>The reconciler refines the abstract machine\<close>

text \<open>Two boxes that differ at most in the modification time, and stores' rows that do.\<close>

definition same_box :: "box \<Rightarrow> box \<Rightarrow> bool" where
  "same_box x y = (y = x\<lparr>b_UpdatedAt := b_UpdatedAt y\<rparr>)"

lemma same_box_refl [simp]: "same_box x x"
  by (simp add: same_box_def)

lemma same_boxE: "same_box x b \<Longrightarrow> (\<And>u. b = x\<lparr>b_UpdatedAt := u\<rparr> \<Longrightarrow> P) \<Longrightarrow> P"
  unfolding same_box_def by blast

lemma same_box_trans: "same_box x y \<Longrightarrow> same_box y z \<Longrightarrow> same_box x z"
  by (elim same_boxE) (simp add: same_box_def)

lemma same_box_touch [simp]: "same_box x (x\<lparr>b_UpdatedAt := u\<rparr>)"
  by (simp add: same_box_def)

definition others_kept :: "string \<Rightarrow> box list \<Rightarrow> box list \<Rightarrow> bool" where
  "others_kept i rs rs' = (\<forall>j. j \<noteq> i \<longrightarrow> rel_option same_box (row rs j) (row rs' j))"

lemma rel_option_same_trans:
  "rel_option same_box a b \<Longrightarrow> rel_option same_box b c \<Longrightarrow> rel_option same_box a c"
  by (cases a; cases b; cases c) (auto intro: same_box_trans)

lemma rel_option_same_refl [simp]: "rel_option same_box a a"
  by (cases a) auto

lemma others_kept_refl [simp]: "others_kept i rs rs"
  by (simp add: others_kept_def)

lemma others_kept_trans: "others_kept i rs rs' \<Longrightarrow> others_kept i rs' rs'' \<Longrightarrow> others_kept i rs rs''"
  unfolding others_kept_def using rel_option_same_trans by blast

text \<open>A box edited for a write: what no reconcile changes is unchanged.\<close>

definition edit_of :: "box \<Rightarrow> box \<Rightarrow> bool" where
  "edit_of x b = (constant_part b = constant_part x \<and> b_AgentState b = b_AgentState x \<and>
     b_AgentStatus b = b_AgentStatus x \<and> phase_ok (b_Phase b))"

lemma edit_of_overwrite:
  "edit_of x b \<Longrightarrow> overwrite now x b = b\<lparr>b_UpdatedAt := now\<rparr>"
  by (simp add: edit_of_def constant_part_def box_identity_def overwrite_def)

context box_store_frame
begin

lemma write_row:
  assumes "wf s" "row (rows s) i = Some x" "edit_of x b" "sUpdate S b s = (r, b', s')"
  shows "wf s'" "others_kept i (rows s) (rows s')"
    "row (rows s') i = Some (if is_ok r then b\<lparr>b_UpdatedAt := now\<rparr> else x)" "same_box b b'"
proof -
  have x: "x \<in> set (rows s)" "b_ID x = i" using row_SomeD [OF assms(2)] by auto
  have id: "b_ID b = i" using assms(3) x by (simp add: edit_of_def constant_part_def box_identity_def)
  have "persisted full b = b"
    using wf_row [OF assms(1) x(1)] assms(3) unfolding persisted_iff by (simp add: edit_of_def)
  with update_sound [OF assms(1) _ assms(4)] assms(3)
  have u: "wf s'" "rows s' = (if is_ok r then upd_rows now b (rows s) else rows s)"
    "b' \<in> {b, b\<lparr>b_UpdatedAt := now\<rparr>}" by (auto simp: edit_of_def)
  from u(1) show "wf s'" .
  from u(2) id show "others_kept i (rows s) (rows s')"
    by (auto simp: others_kept_def row_upd_rows)
  from u(2) id assms(2) edit_of_overwrite [OF assms(3)]
  show "row (rows s') i = Some (if is_ok r then b\<lparr>b_UpdatedAt := now\<rparr> else x)"
    by (simp add: row_upd_rows)
  from u(3) show "same_box b b'" by auto
qed

end

locale reconcile_env = box_store_frame S rows wf full now
  for S :: "'s store_ops" and rows wf full now +
  fixes H :: "('s, 'c) hooks_ops option"
  assumes hook_pre: "H = Some h \<Longrightarrow> wf s \<Longrightarrow> h_PreProvision h b (s, c) = (rp, s', c') \<Longrightarrow>
      wf s' \<and> (\<forall>j. rel_option same_box (row (rows s) j) (row (rows s') j))"
    and hook_post: "H = Some h \<Longrightarrow> wf s \<Longrightarrow> h_PostRunning h b (s, c) = (ru, s', c') \<Longrightarrow>
      wf s' \<and> (\<forall>j. rel_option same_box (row (rows s) j) (row (rows s') j))"
    and hook_destroy: "H = Some h \<Longrightarrow> wf s \<Longrightarrow> h_PreDestroy h b (s, c) = (ru, s', c') \<Longrightarrow>
      wf s' \<and> (\<forall>j. rel_option same_box (row (rows s) j) (row (rows s') j))"

text \<open>The outcome of a reconcile of the box with identifier \<open>i\<close>, whose row was \<open>x\<close>.\<close>

context reconcile_env
begin

definition outcome :: "('s, 'c) reconciler \<Rightarrow> string \<Rightarrow> box \<Rightarrow> 's \<Rightarrow> 's \<Rightarrow> bool" where
  "outcome r i x s s' =
     (wf s' \<and> others_kept i (rows s) (rows s') \<and>
      (case row (rows s') i of
         None \<Rightarrow> removable x
       | Some y \<Rightarrow> tick_box (rc_Idle (r_cfg r)) (c_Suspender (r_compute r) \<noteq> None) now x y))"

lemma outcome_refl: "wf s \<Longrightarrow> row (rows s) i = Some x \<Longrightarrow> outcome r i x s s"
  by (simp add: outcome_def tick_box_refl)

lemma outcome_touched:
  assumes "wf s'" "row (rows s) i = Some x" "\<forall>j. rel_option same_box (row (rows s) j) (row (rows s') j)"
  shows "outcome r i x s s'"
proof -
  obtain y where y: "row (rows s') i = Some y" "same_box x y"
    using assms(2,3) by (metis option.rel_cases option.discI option.inject)
  have "tick_box (rc_Idle (r_cfg r)) (c_Suspender (r_compute r) \<noteq> None) now x y"
    using y(2) by (elim same_boxE) (simp add: tick_box_touchI)
  with y assms show ?thesis by (simp add: outcome_def others_kept_def)
qed

lemma outcome_write:
  assumes "wf s" "row (rows s) i = Some x" "edit_of x b" "sUpdate S b s = (res, b', s')"
    and "phase_step (rc_Idle (r_cfg r)) (c_Suspender (r_compute r) \<noteq> None) now x z"
    and "b\<lparr>b_UpdatedAt := now\<rparr> = z\<lparr>b_UpdatedAt := now\<rparr>"
  shows "outcome r i x s s'"
  using write_row [OF assms(1-4)] tick_box_phaseI [OF assms(5), of now] assms(6)
  by (simp add: outcome_def tick_box_refl)

lemma outcome_after_touch:
  assumes "outcome r i x' s' s''" "same_box x x'" "others_kept i (rows s) (rows s')"
  shows "outcome r i x s s''"
proof -
  have q: "(quiet_step now)\<^sup>*\<^sup>* x x'" using assms(2) quiet_step.touch by (elim same_boxE) blast
  have rem: "removable x' = removable x" using assms(2) by (elim same_boxE) (simp add: removable_def)
  show ?thesis
    using assms(1,3) rem tick_box_quietI [OF q] others_kept_trans
    unfolding outcome_def by (auto split: option.splits)
qed

lemma outcome_after_quiet:
  assumes "outcome r i x' s' s''" "(quiet_step now)\<^sup>*\<^sup>* x x'" "others_kept i (rows s) (rows s')"
    "b_Ephemeral x' = b_Ephemeral x"
  shows "outcome r i x s s''"
proof -
  have rem: "removable x' = removable x" using assms(2,4) quiet_steps(1) by (simp add: removable_def)
  show ?thesis
    using assms(1,3) rem tick_box_quietI [OF assms(2)] others_kept_trans
    unfolding outcome_def by (auto split: option.splits)
qed

lemma setPhase_outcome:
  assumes "r_store r now = S" "wf s" "row (rows s) i = Some x"
    and b: "constant_part b = constant_part x" "b_AgentState b = b_AgentState x" "b_AgentStatus b = b_AgentStatus x"
    and p: "known_phase p"
    and step: "phase_step (rc_Idle (r_cfg r)) (c_Suspender (r_compute r) \<noteq> None) now x z"
      "z\<lparr>b_UpdatedAt := now\<rparr> = (if p = PhaseRunning then started now b else b)\<lparr>b_Phase := p, b_Message := m, b_UpdatedAt := now\<rparr>"
    and run: "setPhase r now b p m (s, c) = (res, s', c')"
  shows "outcome r i x s s'"
proof (cases "CanTransition (b_Phase b) p")
  case False
  with run assms(2,3) show ?thesis by (auto simp: setPhase_def outcome_refl)
next
  case True
  let ?b = "(if p = PhaseRunning then started now b else b)\<lparr>b_Phase := p, b_Message := m\<rparr>"
  have e: "edit_of x ?b"
    using b known_phase_ok [OF p] by (simp add: edit_of_def constant_part_def box_identity_def started_def)
  obtain ru bu su where u: "sUpdate S ?b s = (ru, bu, su)" using prod_cases3 by blast
  have eq: "(if p = PhaseRunning \<and> IsZero (b_LastActive b) then b\<lparr>b_LastActive := now\<rparr> else b)
      \<lparr>b_Phase := p, b_Message := m\<rparr> = ?b" by (simp add: started_def)
  from run True assms(1) u have "s' = su"
    unfolding setPhase_def eq by (simp only: prod.case Let_def eq) (simp split: prod.splits)
  with outcome_write [OF assms(2,3) e u step(1)] step(2) show ?thesis by simp
qed

end

context reconcile_env
begin

lemma fail_outcome:
  assumes "r_store r now = S" "wf s" "row (rows s) i = Some x"
    and b: "constant_part b = constant_part x" "b_AgentState b = b_AgentState x" "b_AgentStatus b = b_AgentStatus x"
    and step: "phase_step (rc_Idle (r_cfg r)) (c_Suspender (r_compute r) \<noteq> None) now x z"
      "z\<lparr>b_UpdatedAt := now\<rparr> = b\<lparr>b_Phase := PhaseFailed, b_Message := err_text e, b_UpdatedAt := now\<rparr>"
    and run: "fail r now b e (s, c) = (res, s', c')"
  shows "outcome r i x s s'"
proof -
  let ?b = "b\<lparr>b_Phase := PhaseFailed, b_Message := err_text e\<rparr>"
  have e: "edit_of x ?b"
    using b by (simp add: edit_of_def constant_part_def box_identity_def known_phase_ok known_phase_def)
  obtain ru bu su where u: "sUpdate S ?b s = (ru, bu, su)" using prod_cases3 by blast
  with run assms(1) have "s' = su" by (simp add: fail_def)
  with outcome_write [OF assms(2,3) e u step(1)] step(2) show ?thesis by simp
qed

lemma provision_compute_outcome:
  assumes "r_store r now = S" "wf s" "row (rows s) i = Some x" "same_box x b0"
    and re: "rebuildable (c_Suspender (r_compute r) \<noteq> None) x"
    and run: "provision_compute r now (tokened tok b0) ms en (s, c) = (res, s', c')"
  shows "outcome r i x s s'"
proof -
  let ?b = "tokened tok b0"
  obtain u where b0: "b0 = x\<lparr>b_UpdatedAt := u\<rparr>" using assms(4) by (elim same_boxE)
  have tk: "?b = (tokened tok x)\<lparr>b_UpdatedAt := u\<rparr>" by (simp add: b0 tokened_def)
  have con: "constant_part ?b = constant_part x" "b_AgentState ?b = b_AgentState x" "b_AgentStatus ?b = b_AgentStatus x"
    by (simp_all add: b0 tokened_def constant_part_def box_identity_def)
  obtain rq where rq: "(case c_Provision (r_compute r) rq c of
       (Inl er, c') \<Rightarrow> fail r now ?b (Wrapf ''compute: '' er) (s, c')
     | (Inr inst, c') \<Rightarrow>
         (let (r1, _, s1) = sUpdate S
                (?b\<lparr>b_InstanceRef := inst_Ref inst, b_IP := inst_IP inst, b_AgentConnected := False,
                   b_Phase := PhaseProvisioning, b_Message := ''provisioned, awaiting agent''\<rparr>) s
          in (r1, s1, c'))) = (res, s', c')"
    using run assms(1) unfolding provision_compute_def by (simp only: prod.case)
  obtain rp cp where cp: "c_Provision (r_compute r) rq c = (rp, cp)" by fastforce
  show ?thesis
  proof (cases rp)
    case (Inl er)
    with rq cp have f: "fail r now ?b (Wrapf ''compute: '' er) (s, cp) = (res, s', c')" by simp
    show ?thesis
      by (rule fail_outcome [OF assms(1-3) con phase_step.build_failed [OF re] _ f]) (simp add: tk)
  next
    case (Inr inst)
    let ?w = "?b\<lparr>b_InstanceRef := inst_Ref inst, b_IP := inst_IP inst, b_AgentConnected := False,
                   b_Phase := PhaseProvisioning, b_Message := ''provisioned, awaiting agent''\<rparr>"
    obtain ru bu su where u: "sUpdate S ?w s = (ru, bu, su)" using prod_cases3 by blast
    have "edit_of x ?w" using con
      by (simp add: edit_of_def constant_part_def box_identity_def known_phase_ok known_phase_def)
    moreover from rq cp Inr u have "s' = su" by simp
    ultimately show ?thesis
      using outcome_write [OF assms(2,3) _ u phase_step.provisioned [OF re]] by (simp add: tk)
  qed
qed

lemma provision_outcome:
  assumes "r_store r now = S" "rc_Hooks (r_cfg r) = H" "wf s" "row (rows s) i = Some x" "same_box x b0"
    and re: "rebuildable (c_Suspender (r_compute r) \<noteq> None) x"
    and run: "provision r now rnd b0 (s, c) = (res, s', c')"
  shows "outcome r i x s s'"
proof -
  let ?b = "tokened (newToken rnd) b0"
  note run' = run [unfolded provision_def, folded tokened_def, simplified Let_def prod.case]
  show ?thesis
  proof (cases H)
    case None
    with run' assms(2) have "provision_compute r now ?b [] (provision_env (r_cfg r) ?b) (s, c) = (res, s', c')"
      by simp
    then show ?thesis by (rule provision_compute_outcome [OF assms(1,3-6)])
  next
    case (Some h)
    obtain rp s1 c1 where p: "h_PreProvision h ?b (s, c) = (rp, s1, c1)" using prod_cases3 by blast
    from hook_pre [OF Some assms(3) p]
    have w: "wf s1" "\<forall>j. rel_option same_box (row (rows s) j) (row (rows s1) j)" by auto
    then obtain x1 where x1: "row (rows s1) i = Some x1" "same_box x x1"
      using assms(4) by (metis option.rel_cases option.discI option.inject)
    have s1: "same_box x1 b0" using x1(2) assms(5) by (elim same_boxE) (simp add: same_box_def)
    have re1: "rebuildable (c_Suspender (r_compute r) \<noteq> None) x1"
      using x1(2) re by (elim same_boxE) (simp add: rebuildable_def split: phase.splits)
    have ok: "others_kept i (rows s) (rows s1)" using w by (simp add: others_kept_def)
    have "outcome r i x1 s1 s'"
    proof (cases rp)
      case (Inl er)
      with run' assms(2) Some p have f: "fail r now ?b (Wrapf ''pre-provision: '' er) (s1, c1) = (res, s', c')"
        by simp
      obtain u where b0: "b0 = x1\<lparr>b_UpdatedAt := u\<rparr>" using s1 by (elim same_boxE)
      have tk: "?b = (tokened (newToken rnd) x1)\<lparr>b_UpdatedAt := u\<rparr>" by (simp add: b0 tokened_def)
      show ?thesis
        by (rule fail_outcome [OF assms(1) w(1) x1(1) _ _ _ phase_step.build_failed [OF re1] _ f])
          (simp_all add: tk, simp_all add: tokened_def constant_part_def box_identity_def)
    next
      case (Inr me)
      with run' assms(2) Some p have "provision_compute r now ?b (fst me)
          (env_merge (provision_env (r_cfg r) ?b) (snd me)) (s1, c1) = (res, s', c')"
        by (cases me) simp
      then show ?thesis by (rule provision_compute_outcome [OF assms(1) w(1) x1(1) s1 re1])
    qed
    then show ?thesis by (rule outcome_after_touch [OF _ x1(2) ok])
  qed
qed

end

context reconcile_env
begin

lemma suspend_outcome:
  assumes "r_store r now = S" "wf s" "row (rows s) i = Some x" "same_box x b"
    and ph: "b_Phase x = PhaseRunning" and sh: "shouldSuspend r now b"
    and run: "suspend r now susp b (s, c) = (res, s', c')"
  shows "outcome r i x s s'"
proof -
  obtain u where b: "b = x\<lparr>b_UpdatedAt := u\<rparr>" using assms(4) by (elim same_boxE)
  have g: "c_Suspender (r_compute r) \<noteq> None" "\<not> b_Ephemeral x" "b_AutoSuspend x" "b_AgentConnected x"
    "b_KeepAliveUntil x < now" "IsIdle x now (EffectiveIdle x (rc_Idle (r_cfg r)))"
    using sh by (auto simp: shouldSuspend_def b time_After_def IsIdle_def EffectiveIdle_def split: if_splits)
  obtain rs cs where cs: "c_Suspend susp (b_InstanceRef b) c = (rs, cs)" by fastforce
  show ?thesis
  proof (cases rs)
    case (Inl er)
    with run cs assms(2,3) show ?thesis by (auto simp: suspend_def outcome_refl)
  next
    case (Inr v)
    with run cs have f: "setPhase r now (b\<lparr>b_AgentConnected := False\<rparr>) PhaseSuspended ''auto-suspended (idle)'' (s, cs) = (res, s', c')"
      by (simp add: suspend_def)
    show ?thesis
      by (rule setPhase_outcome [OF assms(1-3) _ _ _ _ phase_step.suspended [OF ph g] _ f])
        (simp_all add: b constant_part_def box_identity_def known_phase_def)
  qed
qed

lemma resume_outcome:
  assumes "r_store r now = S" "rc_Hooks (r_cfg r) = H" "wf s" "row (rows s) i = Some x"
    and ph: "b_Phase x = PhaseSuspended" "b_Attached x"
    and run: "resume r now rnd x (s, c) = (res, s', c')"
  shows "outcome r i x s s'"
proof (cases "c_Suspender (r_compute r)")
  case None
  with run have f: "provision r now rnd x (s, c) = (res, s', c')" by (simp add: resume_def)
  show ?thesis
    by (rule provision_outcome [OF assms(1-4) _ _ f]) (simp_all add: None ph rebuildable_def)
next
  case (Some susp)
  then have sp: "c_Suspender (r_compute r) \<noteq> None" by simp
  obtain rs cs where cs: "c_Resume susp (b_InstanceRef x) c = (rs, cs)" by fastforce
  show ?thesis
  proof (cases rs)
    case (Inl er)
    with run cs Some assms(3,4) show ?thesis by (auto simp: resume_def outcome_refl)
  next
    case (Inr v)
    with run cs Some have f: "setPhase r now x PhaseRunning ''resumed (attached)'' (s, cs) = (res, s', c')"
      by (simp add: resume_def)
    show ?thesis
      by (rule setPhase_outcome [OF assms(1,3,4) _ _ _ _ phase_step.resumed [OF ph sp] _ f])
        (simp_all add: known_phase_def)
  qed
qed

lemma healIfDead_outcome:
  assumes "r_store r now = S" "rc_Hooks (r_cfg r) = H" "wf s" "row (rows s) i = Some x" "same_box x b"
    and re: "rebuildable (c_Suspender (r_compute r) \<noteq> None) x"
    and run: "healIfDead r now rnd b (s, c) = (res, s', c')"
  shows "outcome r i x s s'"
proof -
  obtain rs cs where cs: "c_Status (r_compute r) (b_InstanceRef b) c = (rs, cs)" by fastforce
  have "s' = s \<or> provision r now rnd b (s, c) = (res, s', c') \<or> provision r now rnd b (s, cs) = (res, s', c')"
    using run cs by (auto simp: healIfDead_def split: if_splits sum.splits)
  then show ?thesis using provision_outcome [OF assms(1-6)] outcome_refl assms(3,4) by blast
qed

lemma checkAlive_outcome:
  assumes "r_store r now = S" "wf s" "row (rows s) i = Some x"
    and ph: "b_Phase x = PhaseProvisioning" "\<not> b_AgentConnected x"
    and run: "checkAlive r now x (s, c) = (res, s', c')"
  shows "outcome r i x s s'"
proof -
  obtain rs cs where cs: "c_Status (r_compute r) (b_InstanceRef x) c = (rs, cs)" by fastforce
  have "s' = s \<or> b_InstanceRef x \<noteq> [] \<and> (\<exists>e. fail r now x e (s, cs) = (res, s', c'))"
    using run cs by (auto simp: checkAlive_def split: if_splits sum.splits)
  then show ?thesis
  proof
    assume "s' = s"
    then show ?thesis using assms(2,3) by (simp add: outcome_refl)
  next
    assume "b_InstanceRef x \<noteq> [] \<and> (\<exists>e. fail r now x e (s, cs) = (res, s', c'))"
    then obtain e where e: "b_InstanceRef x \<noteq> []" "fail r now x e (s, cs) = (res, s', c')" by blast
    show ?thesis
      by (rule fail_outcome [OF assms(1-3) _ _ _ phase_step.died [OF ph e(1)] _ e(2)]) simp_all
  qed
qed

lemma destroy_outcome:
  assumes "r_store r now = S" "rc_Hooks (r_cfg r) = H" "wf s" "row (rows s) i = Some x" "removable x"
    and run: "destroy r now x (s, c) = (res, s', c')"
  shows "outcome r i x s s'"
proof -
  obtain s1 c1 where h: "(case H of None \<Rightarrow> (s, c) | Some h \<Rightarrow> snd (h_PreDestroy h x (s, c))) = (s1, c1)" by fastforce
  have w: "wf s1 \<and> (\<forall>j. rel_option same_box (row (rows s) j) (row (rows s1) j))"
  proof (cases H)
    case None
    with h assms(3) show ?thesis by auto
  next
    case (Some hk)
    obtain rp where "h_PreDestroy hk x (s, c) = (rp, s1, c1)"
      using h Some by (cases "h_PreDestroy hk x (s, c)") auto
    then show ?thesis by (rule hook_destroy [OF Some assms(3)])
  qed
  from run h assms(1,2) have "s' = s1 \<or> (\<exists>rd. sDelete S (b_TenantID x) (b_ID x) s1 = (rd, s'))"
    by (auto simp: destroy_def Let_def split: sum.splits prod.splits if_splits)
  then show ?thesis
  proof
    assume "s' = s1"
    with w assms(4) show ?thesis by (auto intro: outcome_touched)
  next
    assume "\<exists>rd. sDelete S (b_TenantID x) (b_ID x) s1 = (rd, s')"
    then obtain rd where "sDelete S (b_TenantID x) (b_ID x) s1 = (rd, s')" ..
    from delete_sound [OF _ this] w
    consider "wf s'" "rows s' = rows s1" | "wf s'" "rows s' = del_rows (b_ID x) (rows s1)" by blast
    then show ?thesis
    proof cases
      case 1
      with w assms(4) show ?thesis by (auto intro: outcome_touched)
    next
      case 2
      have "b_ID x = i" using row_SomeD [OF assms(4)] by simp
      with 2 w assms(5) show ?thesis by (simp add: outcome_def row_del_rows others_kept_def)
    qed
  qed
qed

end

context reconcile_env
begin

lemma reconcile_running_outcome:
  assumes "r_store r now = S" "rc_Hooks (r_cfg r) = H" "wf s" "row (rows s) i = Some x" "same_box x b"
    and ph: "b_Phase x = PhaseRunning" "b_Ephemeral x \<longrightarrow> b_Attached x"
    and run: "reconcile_running r now rnd b (s, c) = (res, s', c')"
  shows "outcome r i x s s'"
proof -
  have conn: "b_AgentConnected b = b_AgentConnected x" using assms(5) by (elim same_boxE) simp
  have "(\<exists>susp. shouldSuspend r now b \<and> suspend r now susp b (s, c) = (res, s', c')) \<or>
    \<not> b_AgentConnected x \<and> healIfDead r now rnd b (s, c) = (res, s', c') \<or>
    (\<exists>h. H = Some h \<and> h_PostRunning h b (s, c) = (res, s', c')) \<or> s' = s"
    using run conn assms(2) by (auto simp: reconcile_running_def split: option.splits bool.splits if_splits)
  then show ?thesis
  proof (elim disjE exE conjE)
    fix susp
    assume "shouldSuspend r now b" "suspend r now susp b (s, c) = (res, s', c')"
    then show ?thesis by (rule suspend_outcome [OF assms(1,3,4,5) ph(1)])
  next
    assume "\<not> b_AgentConnected x" "healIfDead r now rnd b (s, c) = (res, s', c')"
    then show ?thesis using healIfDead_outcome [OF assms(1-5)] ph by (simp add: rebuildable_def)
  next
    fix h
    assume "H = Some h" "h_PostRunning h b (s, c) = (res, s', c')"
    then show ?thesis using hook_post [OF _ assms(3)] outcome_touched assms(4) by blast
  next
    assume "s' = s"
    with assms(3,4) show ?thesis by (simp add: outcome_refl)
  qed
qed

text \<open>The lifetime part: the row after it, when the tick goes on.\<close>

lemma EvalLifetime_exclusive:
  "ra_SetDeadline (EvalLifetime b t) = Some d \<Longrightarrow> \<not> ra_ClearDeadline (EvalLifetime b t) \<and> \<not> b_Attached b"
  "ra_ClearDeadline (EvalLifetime b t) \<Longrightarrow> ra_SetDeadline (EvalLifetime b t) = None"
  by (auto simp: EvalLifetime_def no_action_def split: if_splits option.splits)

lemma lifetime_write_outcome:
  assumes "wf s" "row (rows s) i = Some x" and w: "sUpdate S (x\<lparr>b_Deadline := d\<rparr>) s = (ru, b1, s1)"
    and q: "quiet_step now x (x\<lparr>b_Deadline := d\<rparr>)"
  shows "\<exists>y. wf s1 \<and> row (rows s1) i = Some y \<and> (quiet_step now)\<^sup>*\<^sup>* x y \<and> others_kept i (rows s) (rows s1) \<and>
    (is_ok ru \<longrightarrow> same_box y b1)"
proof -
  have e: "edit_of x (x\<lparr>b_Deadline := d\<rparr>)"
    using wf_phases [OF assms(1)] row_SomeD [OF assms(2)]
    by (simp add: edit_of_def constant_part_def box_identity_def)
  note wr = write_row [OF assms(1,2) e w]
  let ?y = "if is_ok ru then x\<lparr>b_Deadline := d, b_UpdatedAt := now\<rparr> else x"
  have "(quiet_step now)\<^sup>*\<^sup>* x (x\<lparr>b_Deadline := d, b_UpdatedAt := now\<rparr>)"
    using q quiet_step.touch [of now "x\<lparr>b_Deadline := d\<rparr>" now]
    by (meson converse_rtranclp_into_rtranclp r_into_rtranclp)
  moreover have "is_ok ru \<Longrightarrow> same_box (x\<lparr>b_Deadline := d, b_UpdatedAt := now\<rparr>) b1"
    using wr(4) by (elim same_boxE) (simp add: same_box_def)
  ultimately show ?thesis using wr(1-3) by (intro exI [of _ ?y]) auto
qed

lemma reconcileLifetime_outcome:
  assumes "r_store r now = S" "wf s" "row (rows s) i = Some x" "b_Phase x = PhaseRunning"
    and run: "reconcileLifetime r now x (s, c) = ((fin, res), b1, s1, c1)"
  shows "if fin \<or> \<not> is_ok res then outcome r i x s s1
    else \<exists>y. wf s1 \<and> row (rows s1) i = Some y \<and> (quiet_step now)\<^sup>*\<^sup>* x y \<and>
      others_kept i (rows s) (rows s1) \<and> same_box y b1 \<and> b_Attached y"
proof (cases "ra_Reap (EvalLifetime x now)")
  case True
  obtain rp sp cp where p: "setPhase r now x PhaseDestroying ''ephemeral: lifetime expired'' (s, c) = (rp, sp, cp)"
    using prod_cases3 by blast
  have "outcome r i x s sp"
    by (rule setPhase_outcome [OF assms(1-3) _ _ _ _ phase_step.expired [OF assms(4) True] _ p])
      (simp_all add: known_phase_def)
  with run True p show ?thesis by (auto simp: reconcileLifetime_def)
next
  case False
  show ?thesis
  proof (cases "ra_SetDeadline (EvalLifetime x now) = None \<and> \<not> ra_ClearDeadline (EvalLifetime x now)")
    case True
    with run False assms(2,3) show ?thesis by (auto simp: reconcileLifetime_def outcome_refl)
  next
    case w: False
    define d where "d = (case ra_SetDeadline (EvalLifetime x now) of Some d \<Rightarrow> Some d | None \<Rightarrow> None)"
    obtain ru bu su where u: "sUpdate S (x\<lparr>b_Deadline := d\<rparr>) s = (ru, bu, su)" using prod_cases3 by blast
    have q: "quiet_step now x (x\<lparr>b_Deadline := d\<rparr>)"
      using w quiet_step.countdown [OF assms(4)] quiet_step.cleared [OF assms(4)]
      by (auto simp: d_def split: option.splits)
    from lifetime_write_outcome [OF assms(2,3) u q] obtain y where
      y: "wf su" "row (rows su) i = Some y" "(quiet_step now)\<^sup>*\<^sup>* x y" "others_kept i (rows s) (rows su)"
        "is_ok ru \<longrightarrow> same_box y bu" by blast
    have out: "outcome r i x s su"
      using outcome_after_quiet [OF outcome_refl [OF y(1,2)] y(3,4)] quiet_steps(2) [OF y(3)]
      by (simp add: constant_part_def)
    have r: "s1 = su" "b1 = bu" "fin = (\<not> is_ok ru \<or> \<not> b_Attached bu)" "is_ok res = is_ok ru"
      using run False w u assms(1) EvalLifetime_exclusive [of x now]
      by (auto simp: reconcileLifetime_def d_def split: option.splits if_splits)
    have "is_ok ru \<Longrightarrow> b_Attached bu = b_Attached y" using y(5) by (auto elim: same_boxE)
    with out r y show ?thesis by auto
  qed
qed

end

context reconcile_env
begin

lemma reconcile_box_outcome:
  assumes "r_store r now = S" "rc_Hooks (r_cfg r) = H" "wf s" "row (rows s) i = Some x"
    and run: "reconcile_box r now rnd x (s, c) = (res, s', c')"
  shows "outcome r i x s s'"
proof (cases "b_Phase x")
  case PhasePending
  with run provision_outcome [OF assms(1-4) same_box_refl] show ?thesis
    by (simp add: reconcile_box_def rebuildable_def)
next
  case PhaseProvisioning
  show ?thesis
  proof (cases "b_AgentConnected x")
    case True
    with PhaseProvisioning run have f: "setPhase r now x PhaseRunning ''agent connected'' (s, c) = (res, s', c')"
      by (simp add: reconcile_box_def)
    show ?thesis
      by (rule setPhase_outcome [OF assms(1,3,4) _ _ _ _ phase_step.connected [OF PhaseProvisioning True] _ f])
        (simp_all add: known_phase_def)
  next
    case False
    with run PhaseProvisioning checkAlive_outcome [OF assms(1,3,4)] show ?thesis
      by (simp add: reconcile_box_def)
  qed
next
  case PhaseRunning
  show ?thesis
  proof (cases "b_Ephemeral x")
    case False
    with run PhaseRunning reconcile_running_outcome [OF assms(1-4) same_box_refl] show ?thesis
      by (simp add: reconcile_box_def)
  next
    case True
    obtain fin rl b1 s1 c1 where l: "reconcileLifetime r now x (s, c) = ((fin, rl), b1, s1, c1)"
      by (metis prod_cases3 surj_pair)
    note lo = reconcileLifetime_outcome [OF assms(1,3,4) PhaseRunning l]
    show ?thesis
    proof (cases "fin \<or> \<not> is_ok rl")
      case True
      with lo run l PhaseRunning \<open>b_Ephemeral x\<close> show ?thesis by (simp add: reconcile_box_def)
    next
      case False
      with lo obtain y where y: "wf s1" "row (rows s1) i = Some y" "(quiet_step now)\<^sup>*\<^sup>* x y"
        "others_kept i (rows s) (rows s1)" "same_box y b1" "b_Attached y" by auto
      have run1: "reconcile_running r now rnd b1 (s1, c1) = (res, s', c')"
        using False run l PhaseRunning \<open>b_Ephemeral x\<close> by (simp add: reconcile_box_def)
      have "outcome r i y s1 s'"
        by (rule reconcile_running_outcome [OF assms(1,2) y(1,2,5) _ _ run1])
          (simp_all add: quiet_steps(1) [OF y(3)] PhaseRunning y(6))
      then show ?thesis
        using outcome_after_quiet [OF _ y(3,4)] quiet_steps(2) [OF y(3)] by (simp add: constant_part_def)
    qed
  qed
next
  case PhaseSuspended
  with run assms(3,4) resume_outcome [OF assms(1-4) PhaseSuspended] show ?thesis
    by (auto simp: reconcile_box_def outcome_refl split: if_splits)
next
  case PhaseStopped
  with run assms(3,4) destroy_outcome [OF assms(1-4)] show ?thesis
    by (auto simp: reconcile_box_def removable_def outcome_refl split: if_splits)
next
  case PhaseFailed
  with run assms(3,4) destroy_outcome [OF assms(1-4)] show ?thesis
    by (auto simp: reconcile_box_def removable_def outcome_refl split: if_splits)
next
  case PhaseDestroying
  with run destroy_outcome [OF assms(1-4)] show ?thesis
    by (simp add: reconcile_box_def removable_def)
next
  case (PhaseOther t)
  with run assms(3,4) show ?thesis by (auto simp: reconcile_box_def outcome_refl)
qed

lemma ReconcileOne_refines:
  assumes "r_store r now = S" "rc_Hooks (r_cfg r) = H" "wf s"
    and run: "ReconcileOne r now rnd t i (s, c) = (res, s', c')"
  shows "wf s' \<and> others_kept i (rows s) (rows s') \<and>
    (case row (rows s) i of None \<Rightarrow> row (rows s') i = None
     | Some x \<Rightarrow> (case row (rows s') i of None \<Rightarrow> removable x
        | Some y \<Rightarrow> tick_box (rc_Idle (r_cfg r)) (c_Suspender (r_compute r) \<noteq> None) now x y))"
proof -
  obtain rg sg where g: "sGet S t i s = (rg, sg)" by fastforce
  have sg: "sg = s" using g by (rule get_frame)
  show ?thesis
  proof (cases rg)
    case (Inl er)
    with run g sg assms(1,3) show ?thesis
      by (auto simp: ReconcileOne_def tick_box_refl split: option.splits)
  next
    case (Inr x)
    have x: "row (rows s) i = Some x" using get_sound [OF assms(3)] g Inr by blast
    from run g sg Inr assms(1) have "reconcile_box r now rnd x (s, c) = (res, s', c')"
      by (simp add: ReconcileOne_def)
    from reconcile_box_outcome [OF assms(1-3) x this] x show ?thesis by (simp add: outcome_def)
  qed
qed

end

end
