(* ===== verification/Box_Spec.thy ===== *)
theory Box_Spec
  imports Box_Model
begin

text \<open>
  The grammar of a box request (\<^verbatim>\<open>internal/core/box/spec.go\<close>): the user name of
  \<^verbatim>\<open>ssh box@host\<close> parsed into a record, and a printer against which the parser is
  proved a left inverse.
\<close>

record spec =
  sp_Name :: string
  sp_Backend :: string
  sp_Image :: string
  sp_Flavor :: string
  sp_Grace :: duration
  sp_ForceNew :: bool
  sp_Special :: string
  sp_SessionID :: string

definition zero_spec :: spec where
  "zero_spec = \<lparr> sp_Name = [], sp_Backend = [], sp_Image = [], sp_Flavor = [], sp_Grace = 0,
     sp_ForceNew = False, sp_Special = [], sp_SessionID = [] \<rparr>"

text \<open>The part of \<^verbatim>\<open>ParseSpec\<close> that takes the trailing \<^verbatim>\<open>+\<close> or \<^verbatim>\<open>+duration\<close> off
  the text, and the part that reads the segments.\<close>

definition parse_suffix :: "string \<Rightarrow> (string \<times> bool \<times> duration) result" where
  "parse_suffix username =
     (case LastIndex (CHR ''+'') username of
        None \<Rightarrow> Inr (username, False, 0)
      | Some i \<Rightarrow>
          (let suffix = drop (Suc i) username; rest = take i username in
           if suffix = [] then Inr (rest, True, 0)
           else case ParseDuration suffix of
             Inl e \<Rightarrow> Inl (Wrapf (''bad duration '' @ quoted suffix @ '': '') e)
           | Inr d \<Rightarrow> Inr (rest, False, d)))"

definition parse_segments :: "string \<Rightarrow> string \<Rightarrow> bool \<Rightarrow> duration \<Rightarrow> spec result" where
  "parse_segments username rest forceNew grace =
     (let segs = Split (CHR '':'') rest;
          (name, backend, _) = Cut (CHR ''~'') (hd segs)
      in if name = [] then Inl (Errorf (''empty box name in '' @ quoted username))
         else if length segs > 3 then Inl (Errorf (''too many segments in '' @ quoted username))
         else Inr (zero_spec\<lparr> sp_Name := name, sp_Backend := backend,
                sp_Image := (if length segs > 1 then segs ! 1 else []),
                sp_Flavor := (if length segs > 2 then segs ! 2 else []),
                sp_Grace := grace, sp_ForceNew := forceNew \<rparr>))"

definition ParseSpec :: "string \<Rightarrow> spec result" where
  "ParseSpec username =
     (if username = [] then Inl (Errorf ''empty username'')
      else if username = ''cli'' \<or> username = ''sudo'' then Inr (zero_spec\<lparr>sp_Special := username\<rparr>)
      else if username = ''_'' then Inr (zero_spec\<lparr>sp_Special := ''_''\<rparr>)
      else case CutPrefix username ''session-'' of
        (sid, True) \<Rightarrow> Inr (zero_spec\<lparr>sp_Special := ''session'', sp_SessionID := sid\<rparr>)
      | (_, False) \<Rightarrow>
          (case parse_suffix username of
             Inl e \<Rightarrow> Inl e
           | Inr (rest, forceNew, grace) \<Rightarrow> parse_segments username rest forceNew grace))"

section \<open>The printer\<close>

text \<open>The grammar read as a printer: \<^verbatim>\<open>name[~backend][:image[:flavor]]\<close> followed by nothing,
  by \<^verbatim>\<open>+\<close> (a fresh box), or by \<^verbatim>\<open>+\<close> and a number of seconds.\<close>

definition spec_segments :: "spec \<Rightarrow> string list" where
  "spec_segments s =
     (sp_Name s @ (if sp_Backend s = [] then [] else CHR ''~'' # sp_Backend s)) #
     (if sp_Flavor s \<noteq> [] then [sp_Image s, sp_Flavor s]
      else if sp_Image s \<noteq> [] then [sp_Image s] else [])"

definition show_spec :: "spec \<Rightarrow> nat \<Rightarrow> string" where
  "show_spec s secs =
     Join (CHR '':'') (spec_segments s) @
     (if sp_ForceNew s then ''+'' else if secs = 0 then [] else CHR ''+'' # show_nat secs @ ''s'')"

text \<open>A spec the grammar can express: a non-empty name, no separator inside a part, and a text
  that is not one of the special user names.\<close>

definition plain :: "string \<Rightarrow> bool" where
  "plain s = (CHR '':'' \<notin> set s \<and> CHR ''~'' \<notin> set s \<and> CHR ''+'' \<notin> set s)"

definition spec_ok :: "spec \<Rightarrow> nat \<Rightarrow> bool" where
  "spec_ok s secs =
     (sp_Name s \<noteq> [] \<and> list_all plain [sp_Name s, sp_Backend s, sp_Image s, sp_Flavor s] \<and>
      sp_Name s \<notin> set [''cli'', ''sudo'', ''_''] \<and> \<not> HasPrefix (sp_Name s) ''session-'' \<and>
      sp_Special s = [] \<and> sp_SessionID s = [] \<and> secs \<le> 9223372036 \<and>
      sp_Grace s = int secs * Second \<and> (sp_ForceNew s \<longrightarrow> secs = 0))"

lemma HasPrefix_within:
  assumes "HasPrefix (a @ x) p" and "x = [] \<or> hd x \<notin> set p"
  shows "HasPrefix a p"
proof (cases "length p \<le> length a")
  case True
  with assms(1) show ?thesis by (simp add: HasPrefix_def)
next
  case False
  with assms(1) have p: "p = a @ take (length p - length a) x"
    by (simp add: HasPrefix_def)
  show ?thesis
  proof (cases x)
    case Nil
    with p show ?thesis by (simp add: HasPrefix_def)
  next
    case (Cons c cs)
    with False p have "c \<in> set p" by (metis Suc_diff_Suc in_set_conv_decomp not_le_imp_less take_Suc_Cons)
    with assms(2) Cons show ?thesis by simp
  qed
qed

lemma Join_plus_free:
  "list_all (\<lambda>t. CHR ''+'' \<notin> set t) ss \<Longrightarrow> CHR ''+'' \<notin> set (Join (CHR '':'') ss)"
  by (induction "CHR '':''" ss rule: Join.induct) auto

lemma spec_segments_plus_free:
  "spec_ok s secs \<Longrightarrow> CHR ''+'' \<notin> set (Join (CHR '':'') (spec_segments s))"
  by (rule Join_plus_free) (auto simp: spec_ok_def plain_def spec_segments_def)

lemma show_spec_suffix:
  assumes ok: "spec_ok s secs"
  shows "parse_suffix (show_spec s secs) =
    Inr (Join (CHR '':'') (spec_segments s), sp_ForceNew s, sp_Grace s)"
proof -
  let ?J = "Join (CHR '':'') (spec_segments s)"
  have J: "CHR ''+'' \<notin> set ?J" using ok by (rule spec_segments_plus_free)
  have nd: "CHR ''+'' \<notin> set (show_nat secs @ ''s'')"
    using show_nat_no_char [of "CHR ''+''" secs] by (simp add: is_digit_def)
  consider (none) "\<not> sp_ForceNew s" "secs = 0" | (new) "sp_ForceNew s" | (dur) "\<not> sp_ForceNew s" "secs \<noteq> 0"
    by blast
  then show ?thesis
  proof cases
    case none
    with J ok show ?thesis by (simp add: show_spec_def parse_suffix_def spec_ok_def LastIndex_def)
  next
    case new
    with ok have "secs = 0" by (simp add: spec_ok_def)
    with new ok show ?thesis
      using LastIndex_append [of "CHR ''+''" "[]" ?J]
      by (simp add: show_spec_def parse_suffix_def spec_ok_def)
  next
    case dur
    have "ParseDuration (show_nat secs @ ''s'') = Inr (int secs * Second)"
      using ok by (intro ParseDuration_seconds) (simp add: spec_ok_def)
    with dur ok show ?thesis
      using LastIndex_append [OF nd, of ?J]
      by (simp add: show_spec_def parse_suffix_def spec_ok_def)
  qed
qed

lemma Split_spec_segments:
  assumes "spec_ok s secs"
  shows "Split (CHR '':'') (Join (CHR '':'') (spec_segments s)) = spec_segments s"
  using assms by (intro Split_Join) (auto simp: spec_segments_def spec_ok_def plain_def)

lemma Cut_first_segment:
  assumes "spec_ok s secs"
  shows "\<exists>f. Cut (CHR ''~'') (hd (spec_segments s)) = (sp_Name s, sp_Backend s, f)"
proof (cases "sp_Backend s = []")
  case True
  with assms show ?thesis
    using Cut_missing [of "CHR ''~''" "sp_Name s"] by (auto simp: spec_segments_def spec_ok_def plain_def)
next
  case False
  with assms show ?thesis
    using Cut_found [of "CHR ''~''" "sp_Name s" "sp_Backend s"]
    by (auto simp: spec_segments_def spec_ok_def plain_def)
qed

lemma show_spec_not_special:
  assumes ok: "spec_ok s secs"
  shows "show_spec s secs \<noteq> []" "show_spec s secs \<notin> set [''cli'', ''sudo'', ''_'']"
    "\<not> HasPrefix (show_spec s secs) ''session-''"
proof -
  obtain x where x: "show_spec s secs = sp_Name s @ x" "x = [] \<or> hd x \<in> set ''~:+''"
    by (cases "sp_Backend s = []"; cases "sp_Flavor s = []"; cases "sp_Image s = []"; cases "sp_ForceNew s";
        cases "secs = 0") (auto simp: show_spec_def spec_segments_def)
  from ok have n: "sp_Name s \<noteq> []" "sp_Name s \<notin> set [''cli'', ''sudo'', ''_'']"
    "\<not> HasPrefix (sp_Name s) ''session-''" by (auto simp: spec_ok_def)
  from x n show "show_spec s secs \<noteq> []" by simp
  show "show_spec s secs \<notin> set [''cli'', ''sudo'', ''_'']"
  proof
    assume special: "show_spec s secs \<in> set [''cli'', ''sudo'', ''_'']"
    then have no: "set (show_spec s secs) \<inter> set ''~:+'' = {}" by auto
    have "x = []"
    proof (rule ccontr)
      assume "x \<noteq> []"
      with x have "hd x \<in> set (show_spec s secs)" "hd x \<in> set ''~:+''" by auto
      with no show False by blast
    qed
    with x special n show False by simp
  qed
  show "\<not> HasPrefix (show_spec s secs) ''session-''"
  proof
    assume "HasPrefix (show_spec s secs) ''session-''"
    moreover have "x = [] \<or> hd x \<notin> set ''session-''" using x(2) by auto
    ultimately have "HasPrefix (sp_Name s) ''session-''" unfolding x(1) by (rule HasPrefix_within)
    with n show False by simp
  qed
qed

lemma parse_segments_show:
  assumes ok: "spec_ok s secs"
  shows "parse_segments u (Join (CHR '':'') (spec_segments s)) (sp_ForceNew s) (sp_Grace s) = Inr s"
proof -
  obtain f where "Cut (CHR ''~'') (hd (spec_segments s)) = (sp_Name s, sp_Backend s, f)"
    using Cut_first_segment [OF ok] by blast
  then show ?thesis
    using Split_spec_segments [OF ok] ok
    by (simp add: parse_segments_def Let_def spec_segments_def zero_spec_def spec_ok_def)
qed

section \<open>Properties\<close>



text \<open>What the parser guarantees of the request it returns, for the clients that build a box
  from it.\<close>

definition request_ok :: "spec \<Rightarrow> bool" where
  "request_ok s =
     (sp_Name s \<noteq> [] \<and> sp_Special s = [] \<and> sp_SessionID s = [] \<and>
      CHR ''~'' \<notin> set (sp_Name s) \<and>
      list_all (\<lambda>t. CHR '':'' \<notin> set t) [sp_Name s, sp_Backend s, sp_Image s, sp_Flavor s] \<and>
      is_duration (sp_Grace s) \<and> (sp_ForceNew s \<longrightarrow> sp_Grace s = 0))"

lemma Cut_parts:
  assumes "Cut c s = (a, b, f)"
  shows "c \<notin> set a" "set a \<subseteq> set s" "set b \<subseteq> set s"
  using assms by (auto simp: Cut_def dest: set_takeWhileD set_dropWhileD in_set_dropD)

lemma parse_segments_ok:
  assumes p: "parse_segments u rest fresh g = Inr s" and g: "is_duration g" "fresh \<longrightarrow> g = 0"
  shows "request_ok s"
proof -
  obtain n b f where c: "Cut (CHR ''~'') (hd (Split (CHR '':'') rest)) = (n, b, f)"
    by (cases "Cut (CHR ''~'') (hd (Split (CHR '':'') rest))") auto
  have seg: "\<And>t. t \<in> set (Split (CHR '':'') rest) \<Longrightarrow> CHR '':'' \<notin> set t" by (rule Split_segments)
  have hd: "CHR '':'' \<notin> set (hd (Split (CHR '':'') rest))" by (rule seg) simp
  from Cut_parts [OF c] hd have nb: "CHR ''~'' \<notin> set n" "CHR '':'' \<notin> set n" "CHR '':'' \<notin> set b"
    by auto
  from p c have s: "n \<noteq> []" "s = zero_spec\<lparr>sp_Name := n, sp_Backend := b,
      sp_Image := (if length (Split (CHR '':'') rest) > 1 then Split (CHR '':'') rest ! 1 else []),
      sp_Flavor := (if length (Split (CHR '':'') rest) > 2 then Split (CHR '':'') rest ! 2 else []),
      sp_Grace := g, sp_ForceNew := fresh\<rparr>"
    by (auto simp: parse_segments_def Let_def split: if_splits)
  with nb g show ?thesis by (simp add: request_ok_def zero_spec_def seg)
qed

lemma parse_suffix_ok:
  assumes "parse_suffix u = Inr (rest, fresh, g)"
  shows "is_duration g" "fresh \<longrightarrow> g = 0"
  using assms ParseDuration_range
  by (auto simp: parse_suffix_def Let_def is_duration_def min_duration_def max_duration_def
      split: option.splits if_splits sum.splits)

text \<open>A user name the parser accepts is either one of the special ones (it then names no
  box) or a well-formed request: a non-empty name free of separators, parts free of colons, a
  grace that is a Go duration, and never both \<^verbatim>\<open>+\<close> and a grace.\<close>

theorem ParseSpec_sound:
  assumes "ParseSpec u = Inr s"
  shows "if sp_Special s = [] then request_ok s
    else sp_Name s = [] \<and> (u \<in> set [''cli'', ''sudo'', ''_''] \<and> sp_Special s = u \<or>
      u = ''session-'' @ sp_SessionID s \<and> sp_Special s = ''session'')"
proof (cases "u \<in> set [''cli'', ''sudo'', ''_''] \<or> HasPrefix u ''session-''")
  case True
  then show ?thesis
  proof
    assume "u \<in> set [''cli'', ''sudo'', ''_'']"
    then consider "u = ''cli''" | "u = ''sudo''" | "u = ''_''" by auto
    then show ?thesis using assms by cases (auto simp: ParseSpec_def zero_spec_def)
  next
    assume "HasPrefix u ''session-''"
    then obtain t where "u = ''session-'' @ t" by (auto simp: HasPrefix_iff)
    with assms show ?thesis
      by (auto simp: ParseSpec_def zero_spec_def CutPrefix_def HasPrefix_def)
  qed
next
  case False
  with assms obtain rest fresh g where "parse_suffix u = Inr (rest, fresh, g)"
    "parse_segments u rest fresh g = Inr s"
    by (auto simp: ParseSpec_def CutPrefix_def split: if_splits sum.splits)
  then have "request_ok s" using parse_segments_ok parse_suffix_ok by blast
  then show ?thesis by (simp add: request_ok_def)
qed

theorem ParseSpec_sound_witness:
  "ParseSpec ''session-42'' = Inr (zero_spec\<lparr>sp_Special := ''session'', sp_SessionID := ''42''\<rparr>) \<and>
   sp_Name (zero_spec\<lparr>sp_Special := ''session'', sp_SessionID := ''42''\<rparr>) = []"
proof -
  have p: "ParseSpec ''session-42'' = Inr (zero_spec\<lparr>sp_Special := ''session'', sp_SessionID := ''42''\<rparr>)"
    by code_simp
  with ParseSpec_sound [OF p] show ?thesis by (simp split: if_splits)
qed

end
