(* ===== verification/Box_Engine.thy ===== *)
theory Box_Engine
  imports Box_Store Box_Spec
begin

text \<open>
  The box product's service (\<^verbatim>\<open>internal/core/box/engine.go\<close>): attach to a box by user name,
  release it, inspect, list and destroy it. The engine runs over a store (state \<open>'s\<close>) and a
  reconcile wake-up, a function on its own state \<open>'q\<close>. The instant, and the random bytes of a
  new identifier, are arguments.
\<close>

section \<open>The engine\<close>

record engine_config =
  ec_Tenant :: string
  ec_DefaultImage :: string
  ec_Backends :: "string list"
  ec_DefBackend :: string
  ec_DefaultFlavor :: flavor
  ec_Persistent :: "(string \<Rightarrow> bool) option"
  ec_DefaultGrace :: duration

record ('s, 'q) engine =
  e_store :: "'s store_ops"
  e_wake :: "string \<Rightarrow> string \<Rightarrow> 'q \<Rightarrow> 'q"
  e_cfg :: engine_config

definition NewEngine :: "'s store_ops \<Rightarrow> (string \<Rightarrow> string \<Rightarrow> 'q \<Rightarrow> 'q) option \<Rightarrow> engine_config \<Rightarrow> ('s, 'q) engine" where
  "NewEngine s wake cfg =
     \<lparr> e_store = s, e_wake = (case wake of None \<Rightarrow> (\<lambda>_ _ q. q) | Some f \<Rightarrow> f), e_cfg = cfg \<rparr>"

definition persistent_owner :: "engine_config \<Rightarrow> string \<Rightarrow> bool" where
  "persistent_owner cfg owner = (case ec_Persistent cfg of None \<Rightarrow> False | Some f \<Rightarrow> f owner)"

definition build :: "engine_config \<Rightarrow> 8 word list \<Rightarrow> time \<Rightarrow> string \<Rightarrow> spec \<Rightarrow> box result" where
  "build cfg rnd now owner spec =
     (if sp_Special spec \<noteq> [] then
        Inl (Errorf (''special username '' @ quoted (sp_Special spec) @ '' spawns no box''))
      else case ResolveBackend (sp_Backend spec) (ec_Backends cfg) (ec_DefBackend cfg) of
        Inl e \<Rightarrow> Inl e
      | Inr backend \<Rightarrow>
          (let image = (if sp_Image spec = [] then ec_DefaultImage cfg else sp_Image spec);
               b = (New rnd now (ec_Tenant cfg) owner (sp_Name spec) image)\<lparr>b_Backend := backend\<rparr>;
               b = (if persistent_owner cfg owner then b\<lparr>b_AutoSuspend := True\<rparr>
                    else b\<lparr>b_Ephemeral := True\<rparr>);
               b = b\<lparr>b_Grace := sp_Grace spec\<rparr>;
               b = (if b_Ephemeral b \<and> b_Grace b = 0 then b\<lparr>b_Grace := ec_DefaultGrace cfg\<rparr> else b);
               fl = (case ResolveFlavor (sp_Flavor spec) of
                       None \<Rightarrow> ec_DefaultFlavor cfg | Some named \<Rightarrow> named)
           in Inr (Apply fl b)))"

definition byOwnerName :: "('s, 'q) engine \<Rightarrow> string \<Rightarrow> string \<Rightarrow> 's \<Rightarrow> box result \<times> 's" where
  "byOwnerName e owner name s =
     (case sList (e_store e) (ec_Tenant (e_cfg e)) s of
        (Inl er, s') \<Rightarrow> (Inl er, s')
      | (Inr all, s') \<Rightarrow>
          (case find (\<lambda>b. b_Owner b = owner \<and> b_Name b = name) all of
             Some b \<Rightarrow> (Inr b, s')
           | None \<Rightarrow> (Inl ErrNotFound, s')))"

text \<open>\<^verbatim>\<open>Attach\<close> returns the box; the release closure it returns is \<open>releaser\<close> at the box's
  identifier.\<close>

definition attach_create :: "('s, 'q) engine \<Rightarrow> 8 word list \<Rightarrow> time \<Rightarrow> string \<Rightarrow> spec \<Rightarrow> 's \<times> 'q \<Rightarrow>
    box result \<times> 's \<times> 'q" where
  "attach_create e rnd now owner spec = (\<lambda>(s, q).
     case build (e_cfg e) rnd now owner spec of
       Inl er \<Rightarrow> (Inl er, s, q)
     | Inr b0 \<Rightarrow>
         (let b = b0\<lparr>b_Attached := True\<rparr> in
          case sCreate (e_store e) b s of
            (Inl er, s') \<Rightarrow> (Inl (Wrapf ''create box: '' er), s', q)
          | (Inr _, s') \<Rightarrow> (Inr b, s', e_wake e (b_ID b) (ec_Tenant (e_cfg e)) q)))"

definition attach_reuse :: "('s, 'q) engine \<Rightarrow> box \<Rightarrow> 's \<times> 'q \<Rightarrow> box result \<times> 's \<times> 'q" where
  "attach_reuse e b = (\<lambda>(s, q).
     case sUpdate (e_store e) (b\<lparr>b_Attached := True\<rparr>) s of
       (Inl er, b', s') \<Rightarrow> (Inl (Wrapf ''attach box: '' er), s', q)
     | (Inr _, b', s') \<Rightarrow> (Inr b', s', e_wake e (b_ID b') (ec_Tenant (e_cfg e)) q))"

definition Attach :: "('s, 'q) engine \<Rightarrow> 8 word list \<Rightarrow> time \<Rightarrow> string \<Rightarrow> string \<Rightarrow> 's \<times> 'q \<Rightarrow>
    box result \<times> 's \<times> 'q" where
  "Attach e rnd now owner username = (\<lambda>(s, q).
     case ParseSpec username of
       Inl er \<Rightarrow> (Inl er, s, q)
     | Inr spec \<Rightarrow>
         if sp_Special spec \<noteq> [] then
           (Inl (Errorf (''username '' @ quoted username @ '' does not spawn a box'')), s, q)
         else case byOwnerName e owner (sp_Name spec) s of
           (Inr b, s') \<Rightarrow> attach_reuse e b (s', q)
         | (Inl er, s') \<Rightarrow>
             if errors_Is er ErrNotFound then attach_create e rnd now owner spec (s', q)
             else (Inl er, s', q))"

definition State :: "('s, 'q) engine \<Rightarrow> string \<Rightarrow> 's \<Rightarrow> (phase \<times> string \<times> bool) \<times> 's" where
  "State e i s =
     (case sGet (e_store e) (ec_Tenant (e_cfg e)) i s of
        (Inl _, s') \<Rightarrow> ((PhaseOther [], [], False), s')
      | (Inr b, s') \<Rightarrow> ((b_Phase b, b_Message b, True), s'))"

definition releaser :: "('s, 'q) engine \<Rightarrow> time \<Rightarrow> string \<Rightarrow> 's \<times> 'q \<Rightarrow> 's \<times> 'q" where
  "releaser e now i = (\<lambda>(s, q).
     case sGet (e_store e) (ec_Tenant (e_cfg e)) i s of
       (Inl _, s') \<Rightarrow> (s', q)
     | (Inr b, s') \<Rightarrow>
         (case sUpdate (e_store e) (b\<lparr>b_Attached := False, b_LastActive := now\<rparr>) s' of
            (Inl _, _, s'') \<Rightarrow> (s'', q)
          | (Inr _, _, s'') \<Rightarrow> (s'', e_wake e i (ec_Tenant (e_cfg e)) q)))"

definition engine_Get :: "('s, 'q) engine \<Rightarrow> string \<Rightarrow> 's \<Rightarrow> box result \<times> 's" where
  "engine_Get e i s = sGet (e_store e) (ec_Tenant (e_cfg e)) i s"

definition engine_List :: "('s, 'q) engine \<Rightarrow> 's \<Rightarrow> box list result \<times> 's" where
  "engine_List e s = sList (e_store e) (ec_Tenant (e_cfg e)) s"

definition engine_Destroy :: "('s, 'q) engine \<Rightarrow> string \<Rightarrow> 's \<times> 'q \<Rightarrow> unit result \<times> 's \<times> 'q" where
  "engine_Destroy e i = (\<lambda>(s, q).
     case sGet (e_store e) (ec_Tenant (e_cfg e)) i s of
       (Inl er, s') \<Rightarrow> (Inl er, s', q)
     | (Inr b, s') \<Rightarrow>
         (case sUpdate (e_store e) (b\<lparr>b_Phase := PhaseDestroying\<rparr>) s' of
            (Inl er, _, s'') \<Rightarrow> (Inl er, s'', q)
          | (Inr _, _, s'') \<Rightarrow> (Inr (), s'', e_wake e i (ec_Tenant (e_cfg e)) q)))"

section \<open>What a built box looks like\<close>

definition chosen_flavor :: "engine_config \<Rightarrow> spec \<Rightarrow> flavor" where
  "chosen_flavor cfg spec =
     (case ResolveFlavor (sp_Flavor spec) of None \<Rightarrow> ec_DefaultFlavor cfg | Some f \<Rightarrow> f)"

lemma build_Inr:
  assumes "build cfg rnd now owner spec = Inr b"
  obtains backend where "sp_Special spec = []" "backend \<in> set (ec_Backends cfg)"
    "b = Apply (chosen_flavor cfg spec)
      ((New rnd now (ec_Tenant cfg) owner (sp_Name spec)
          (if sp_Image spec = [] then ec_DefaultImage cfg else sp_Image spec))
       \<lparr>b_Backend := backend, b_AutoSuspend := persistent_owner cfg owner,
         b_Ephemeral := \<not> persistent_owner cfg owner,
         b_Grace := (if \<not> persistent_owner cfg owner \<and> sp_Grace spec = 0
           then ec_DefaultGrace cfg else sp_Grace spec)\<rparr>)"
proof -
  from assms obtain backend where
    r: "ResolveBackend (sp_Backend spec) (ec_Backends cfg) (ec_DefBackend cfg) = Inr backend"
    and sp: "sp_Special spec = []"
    by (auto simp: build_def split: if_splits sum.splits)
  from r have "backend \<in> set (ec_Backends cfg)"
    by (auto simp: ResolveBackend_def split: if_splits)
  moreover have "Inr b = build cfg rnd now owner spec" using assms ..
  then have "b = Apply (chosen_flavor cfg spec)
      ((New rnd now (ec_Tenant cfg) owner (sp_Name spec)
          (if sp_Image spec = [] then ec_DefaultImage cfg else sp_Image spec))
       \<lparr>b_Backend := backend, b_AutoSuspend := persistent_owner cfg owner,
         b_Ephemeral := \<not> persistent_owner cfg owner,
         b_Grace := (if \<not> persistent_owner cfg owner \<and> sp_Grace spec = 0
           then ec_DefaultGrace cfg else sp_Grace spec)\<rparr>)"
    using r sp by (cases "persistent_owner cfg owner"; cases "sp_Grace spec = 0")
      (simp_all add: build_def Let_def chosen_flavor_def New_def zero_box_def)
  ultimately show thesis using that sp by blast
qed

lemma build_box:
  assumes "build cfg rnd now owner spec = Inr b"
  shows "b_ID b = newID rnd" "b_TenantID b = ec_Tenant cfg" "b_Owner b = owner" "b_Name b = sp_Name spec"
    "b_Phase b = PhasePending" "b_Attached b = False"
  by (rule build_Inr [OF assms], simp add: New_def zero_box_def)+

section \<open>The engine over a store that keeps its contract\<close>

context box_store_frame
begin

lemma byOwnerName_sound:
  assumes "wf s" "e_store e = S" "byOwnerName e owner name s = (r, s')"
  shows "s' = s" "r = Inr b \<Longrightarrow> b \<in> set (rows s) \<and> b_Owner b = owner \<and> b_Name b = name \<and>
    (ec_Tenant (e_cfg e) = [] \<or> b_TenantID b = ec_Tenant (e_cfg e))"
proof -
  obtain rl sl where l: "sList S (ec_Tenant (e_cfg e)) s = (rl, sl)" by fastforce
  have sl: "sl = s" using l by (rule list_frame)
  with l assms(2,3) show "s' = s" by (auto simp: byOwnerName_def split: sum.splits option.splits)
  assume "r = Inr b"
  with l sl assms(2,3) obtain bs where rl: "rl = Inr bs"
    and f: "find (\<lambda>b. b_Owner b = owner \<and> b_Name b = name) bs = Some b"
    by (auto simp: byOwnerName_def split: sum.splits option.splits)
  from l rl have "bs = filter (\<lambda>b. ec_Tenant (e_cfg e) = [] \<or> b_TenantID b = ec_Tenant (e_cfg e)) (rows s)"
    using list_sound [OF assms(1)] by blast
  moreover from f have "b \<in> set bs" "b_Owner b = owner" "b_Name b = name"
    by (auto simp: find_Some_iff)
  ultimately show "b \<in> set (rows s) \<and> b_Owner b = owner \<and> b_Name b = name \<and>
    (ec_Tenant (e_cfg e) = [] \<or> b_TenantID b = ec_Tenant (e_cfg e))" by auto
qed

lemma attach_create_sound:
  assumes "wf s" "e_store e = S" and a: "attach_create e rnd now owner spec (s, q) = (r, s', q')"
  shows "wf s' \<and> (case r of Inl _ \<Rightarrow> rows s' = rows s
    | Inr b \<Rightarrow> rows s' = rows s @ [persisted full b] \<and> b_Owner b = owner \<and> b_Name b = sp_Name spec \<and>
        b_TenantID b = ec_Tenant (e_cfg e) \<and> b_Attached b \<and> b_Phase b = PhasePending)"
proof (cases "build (e_cfg e) rnd now owner spec")
  case (Inl er)
  with a have "r = Inl er" "s' = s" by (simp_all add: attach_create_def)
  with assms(1) show ?thesis by simp
next
  case (Inr b0)
  let ?b = "b0\<lparr>b_Attached := True\<rparr>"
  obtain rc sc where c: "sCreate S ?b s = (rc, sc)" by fastforce
  have "phase_ok (b_Phase ?b)" using build_box [OF Inr] by (simp add: known_phase_ok known_phase_def)
  from create_sound [OF assms(1) this c]
  have cs: "wf sc" "rows sc = (if is_ok rc then rows s @ [persisted full ?b] else rows s)" by auto
  from a Inr c assms(2) have "r = (case rc of Inl er \<Rightarrow> Inl (Wrapf ''create box: '' er) | Inr _ \<Rightarrow> Inr ?b)" "s' = sc"
    by (auto simp: attach_create_def Let_def split: sum.splits)
  with cs build_box [OF Inr] show ?thesis by (cases rc) auto
qed

lemma attach_reuse_sound:
  assumes "wf s" "e_store e = S" "b \<in> set (rows s)"
    and a: "attach_reuse e b (s, q) = (r, s', q')"
  shows "wf s' \<and> (case r of Inl _ \<Rightarrow> rows s' = rows s
    | Inr b' \<Rightarrow> rows s' = upd_rows now (persisted full (b\<lparr>b_Attached := True\<rparr>)) (rows s) \<and>
        box_identity b' = box_identity b \<and> b_Attached b' \<and> b_Phase b' = b_Phase b)"
proof -
  let ?b = "b\<lparr>b_Attached := True\<rparr>"
  obtain ru bu su where u: "sUpdate S ?b s = (ru, bu, su)" using prod_cases3 by blast
  have "phase_ok (b_Phase ?b)" using wf_phases [OF assms(1,3)] by simp
  from update_sound [OF assms(1) this u]
  have us: "wf su" "rows su = (if is_ok ru then upd_rows now (persisted full ?b) (rows s) else rows s)"
    "bu = ?b \<or> bu = ?b\<lparr>b_UpdatedAt := now\<rparr>" by auto
  from a u assms(2) have "r = (case ru of Inl er \<Rightarrow> Inl (Wrapf ''attach box: '' er) | Inr _ \<Rightarrow> Inr bu)" "s' = su"
    by (auto simp: attach_reuse_def split: sum.splits)
  with us show ?thesis by (cases ru) (auto simp: box_identity_def)
qed

text \<open>The two ways an attach can succeed, and that a failed one changes no box.\<close>

lemma Attach_sound:
  assumes "wf s" "e_store e = S" and a: "Attach e rnd now owner u (s, q) = (r, s', q')"
  shows "wf s' \<and> (case r of Inl _ \<Rightarrow> rows s' = rows s
    | Inr b \<Rightarrow> b_Owner b = owner \<and> b_Attached b \<and>
        (rows s' = rows s @ [persisted full b] \<and> b_Phase b = PhasePending \<or>
         (\<exists>x \<in> set (rows s). box_identity b = box_identity x \<and> b_Phase b = b_Phase x \<and>
            rows s' = upd_rows now (persisted full (x\<lparr>b_Attached := True\<rparr>)) (rows s))))"
proof (cases "ParseSpec u")
  case (Inl er)
  with a assms show ?thesis by (auto simp: Attach_def)
next
  case (Inr spec)
  show ?thesis
  proof (cases "sp_Special spec = []")
    case False
    with a assms Inr show ?thesis by (auto simp: Attach_def)
  next
    case True
    obtain rn sn where bn: "byOwnerName e owner (sp_Name spec) s = (rn, sn)" by fastforce
    note sound = byOwnerName_sound [OF assms(1,2) bn]
    show ?thesis
    proof (cases rn)
      case L: (Inl er)
      show ?thesis
      proof (cases "errors_Is er ErrNotFound")
        case nf: True
        with a Inr True L bn sound(1) have "attach_create e rnd now owner spec (s, q) = (r, s', q')"
          by (simp add: Attach_def)
        from attach_create_sound [OF assms(1,2) this] show ?thesis by (cases r) auto
      next
        case False
        with a Inr True L bn sound(1) have "r = Inl er" "s' = s" by (simp_all add: Attach_def)
        with assms(1) show ?thesis by simp
      qed
    next
      case R: (Inr x)
      with a Inr True bn sound(1) have "attach_reuse e x (s, q) = (r, s', q')" by (simp add: Attach_def)
      from attach_reuse_sound [OF assms(1,2) _ this] sound(2) [OF R]
      show ?thesis by (auto simp: box_identity_def split: sum.splits)
    qed
  qed
qed

lemma Attach_isolation:
  assumes "wf s" "e_store e = S" and a: "Attach e rnd now owner u (s, q) = (r, s', q')"
    and x: "row (rows s) i = Some x" "b_Owner x \<noteq> owner"
  shows "row (rows s') i = Some x"
proof (cases r)
  case (Inl er)
  with Attach_sound [OF assms(1-3)] x show ?thesis by auto
next
  case (Inr b)
  from Attach_sound [OF assms(1-3)] Inr consider
    "rows s' = rows s @ [persisted full b]"
    | y where "y \<in> set (rows s)" "b_Owner y = owner" "rows s' = upd_rows now (persisted full (y\<lparr>b_Attached := True\<rparr>)) (rows s)"
    by (auto simp: box_identity_def)
  then show ?thesis
  proof cases
    case 1
    with x show ?thesis by (simp add: row_append)
  next
    case (2 y)
    have "i \<noteq> b_ID y"
    proof
      assume "i = b_ID y"
      then have "row (rows s) i = Some y" using 2(1) by (simp add: row_Some_iff [OF wf_ids [OF assms(1)]])
      with x 2(2) show False by simp
    qed
    with 2(3) x show ?thesis by (simp add: row_upd_rows)
  qed
qed

lemma releaser_sound:
  assumes "wf s" "e_store e = S" and a: "releaser e now i (s, q) = (s', q')"
  shows "wf s' \<and> (rows s' = rows s \<or> (\<exists>b. row (rows s) i = Some b \<and>
    rows s' = upd_rows now (persisted full (b\<lparr>b_Attached := False, b_LastActive := now\<rparr>)) (rows s)))"
proof -
  obtain rg sg where g: "sGet S (ec_Tenant (e_cfg e)) i s = (rg, sg)" by fastforce
  show ?thesis
  proof (cases rg)
    case (Inl er)
    have "sg = s" using g by (rule get_frame)
    with Inl g a assms show ?thesis by (auto simp: releaser_def)
  next
    case (Inr b)
    with g assms(1) have r: "row (rows s) i = Some b" "sg = s" using get_sound get_frame by auto
    let ?b = "b\<lparr>b_Attached := False, b_LastActive := now\<rparr>"
    obtain ru bu su where u: "sUpdate S ?b s = (ru, bu, su)" using prod_cases3 by blast
    have "phase_ok (b_Phase ?b)" using wf_phases [OF assms(1)] row_SomeD [OF r(1)] by simp
    from update_sound [OF assms(1) this u] a g Inr u r assms(2) show ?thesis
      by (cases ru) (auto simp: releaser_def)
  qed
qed

end

section \<open>Properties\<close>

text \<open>A box built from a request is owned by the requester under the engine's tenant, is
  pending, is either ephemeral or auto-suspending (by the owner's tier, never both), runs on a
  configured backend, has the requested image or else the default one, and has the resources of
  the named flavor or else of the engine's default wherever that sets them. An ephemeral box
  with no requested grace has the engine's default.\<close>

theorem build_spec:
  assumes "build cfg rnd now owner spec = Inr b"
  shows "b_Owner b = owner \<and> b_TenantID b = ec_Tenant cfg \<and> b_Name b = sp_Name spec \<and>
    b_Phase b = PhasePending \<and> b_Backend b \<in> set (ec_Backends cfg) \<and>
    b_Ephemeral b = (\<not> persistent_owner cfg owner) \<and> b_AutoSuspend b = persistent_owner cfg owner \<and>
    b_ImageRef b = (if sp_Image spec = [] then ec_DefaultImage cfg else sp_Image spec) \<and>
    b_Grace b = (if sp_Grace spec = 0 \<and> b_Ephemeral b then ec_DefaultGrace cfg else sp_Grace spec) \<and>
    (let fl = (case ResolveFlavor (sp_Flavor spec) of None \<Rightarrow> ec_DefaultFlavor cfg | Some f \<Rightarrow> f)
     in b_CPUMillis b = max 0 (fl_CPUMillis fl) \<and> b_MemMB b = max 0 (fl_MemMB fl))"
  by (rule build_Inr [OF assms]) (simp add: New_def zero_box_def chosen_flavor_def Let_def max_def)


theorem build_spec_witness:
  "\<exists>b. build \<lparr> ec_Tenant = ''default'', ec_DefaultImage = ''alpine'', ec_Backends = [''docker''], ec_DefBackend = [],
        ec_DefaultFlavor = \<lparr> fl_CPUMillis = 2000, fl_MemMB = 2048 \<rparr>, ec_Persistent = None, ec_DefaultGrace = 120 \<rparr>
      [1, 2, 3, 4, 5, 6, 7, 8] 1000 ''alice'' (zero_spec\<lparr>sp_Name := ''web'', sp_Flavor := ''large''\<rparr>) = Inr b \<and>
    b_Owner b = ''alice'' \<and> b_Ephemeral b \<and> b_Grace b = 120 \<and> b_MemMB b = 4096"
proof -
  let ?cfg = "\<lparr> ec_Tenant = ''default'', ec_DefaultImage = ''alpine'', ec_Backends = [''docker''], ec_DefBackend = [],
        ec_DefaultFlavor = \<lparr> fl_CPUMillis = 2000, fl_MemMB = 2048 \<rparr>, ec_Persistent = None, ec_DefaultGrace = 120 \<rparr>"
  obtain b where b: "build ?cfg [1, 2, 3, 4, 5, 6, 7, 8] 1000 ''alice'' (zero_spec\<lparr>sp_Name := ''web'', sp_Flavor := ''large''\<rparr>) = Inr b"
    by (simp add: build_def ResolveBackend_def zero_spec_def Let_def)
  from build_spec [OF b] b show ?thesis
    by (simp add: persistent_owner_def zero_spec_def ResolveFlavor_def builtinFlavors_def Let_def)
qed

end
