(* ===== verification/Box_Progress.thy ===== *)
theory Box_Progress
  imports Box_Reconcile Box_Engine
begin

text \<open>
  What \<open>ReconcileOne\<close> achieves when the store is up and the providers answer, over any store that
  keeps its contract and with no host-layer hooks: one lemma per step of a box's life. The
  properties of the daemon chain them.
\<close>

context box_store
begin

lemma up_write:
  assumes "wf s" "up s" "row (rows s) i = Some x" "edit_of x b"
  obtains b' s' where "sUpdate S b s = (Inr (), b', s')" "wf s'" "up s'"
    "row (rows s') i = Some (b\<lparr>b_UpdatedAt := now\<rparr>)" "same_box b b'" "rows s' = upd_rows now b (rows s)"
proof -
  have x: "b_ID b = i" "b_TenantID x = b_TenantID b" "phase_ok (b_Phase b)"
    using row_SomeD [OF assms(3)] assms(4) by (auto simp: edit_of_def constant_part_def box_identity_def)
  from up_update [OF assms(1,2) x(3) _ x(2)] assms(3) x(1) obtain b' s' where
    u: "sUpdate S b s = (Inr (), b', s')" "up s'" by auto
  have "persisted full b = b"
    using wf_row [OF assms(1)] row_SomeD [OF assms(3)] assms(4) unfolding persisted_iff by (auto simp: edit_of_def)
  then have "rows s' = upd_rows now b (rows s)" using update_sound [OF assms(1) x(3) u(1)] by simp
  with write_row [OF assms(1,3,4) u(1)] u show thesis by (intro that [of b' s']) auto
qed

lemma up_read:
  assumes "wf s" "up s" "row (rows s) i = Some x" "r_store r now = S"
  shows "ReconcileOne r now rnd (b_TenantID x) i (s, c) = reconcile_box r now rnd x (s, c)"
  using up_get [OF assms(1,2)] row_SomeD [OF assms(3)] assms(4) by (auto simp: ReconcileOne_def)

text \<open>The countdown of a detached ephemeral box starts.\<close>

lemma countdown_starts:
  assumes "wf s" "up s" "row (rows s) i = Some x" "r_store r now = S"
    and x: "b_Phase x = PhaseRunning" "b_Ephemeral x" "\<not> b_Attached x"
      "ra_SetDeadline (EvalLifetime x now) = Some d"
  obtains s' where "ReconcileOne r now rnd (b_TenantID x) i (s, c) = (Inr (), s', c)" "wf s'" "up s'"
    "row (rows s') i = Some (x\<lparr>b_Deadline := Some d, b_UpdatedAt := now\<rparr>)"
proof -
  have "edit_of x (x\<lparr>b_Deadline := Some d\<rparr>)"
    using wf_phases [OF assms(1)] row_SomeD [OF assms(3)] by (simp add: edit_of_def constant_part_def box_identity_def)
  then obtain b' s' where u: "sUpdate S (x\<lparr>b_Deadline := Some d\<rparr>) s = (Inr (), b', s')" "wf s'" "up s'"
    "row (rows s') i = Some (x\<lparr>b_Deadline := Some d, b_UpdatedAt := now\<rparr>)" "same_box (x\<lparr>b_Deadline := Some d\<rparr>) b'"
    using up_write [OF assms(1-3)] by (metis (full_types))
  have na: "\<not> ra_Reap (EvalLifetime x now)" "\<not> ra_ClearDeadline (EvalLifetime x now)"
    using x(4) by (auto simp: EvalLifetime_def no_action_def split: if_splits option.splits)
  have "\<not> b_Attached b'" using u(5) x(3) by (elim same_boxE) simp
  then have "reconcile_box r now rnd x (s, c) = (Inr (), s', c)"
    using x u(1) na assms(4) by (simp add: reconcile_box_def reconcileLifetime_def)
  with u up_read [OF assms(1-4)] show thesis by (intro that) auto
qed

text \<open>A reap decision is carried out, and a box being destroyed goes once its instance does.\<close>

lemma reap_marks:
  assumes "wf s" "up s" "row (rows s) i = Some x" "r_store r now = S"
    and x: "b_Phase x = PhaseRunning" "b_Ephemeral x" "ra_Reap (EvalLifetime x now)"
  obtains s' where "ReconcileOne r now rnd (b_TenantID x) i (s, c) = (Inr (), s', c)" "wf s'" "up s'"
    "row (rows s') i = Some (x\<lparr>b_Phase := PhaseDestroying, b_Message := ''ephemeral: lifetime expired'',
       b_UpdatedAt := now\<rparr>)"
proof -
  let ?b = "x\<lparr>b_Phase := PhaseDestroying, b_Message := ''ephemeral: lifetime expired''\<rparr>"
  have "edit_of x ?b"
    by (simp add: edit_of_def constant_part_def box_identity_def known_phase_ok known_phase_def)
  then obtain b' s' where u: "sUpdate S ?b s = (Inr (), b', s')" "wf s'" "up s'"
    "row (rows s') i = Some (?b\<lparr>b_UpdatedAt := now\<rparr>)"
    using up_write [OF assms(1-3)] by metis
  have "setPhase r now x PhaseDestroying ''ephemeral: lifetime expired'' (s, c) = (Inr (), s', c)"
    using u(1) assms(4) x(1) by (simp add: setPhase_def CanTransition_def)
  then have "reconcile_box r now rnd x (s, c) = (Inr (), s', c)"
    using x by (simp add: reconcile_box_def reconcileLifetime_def)
  with u up_read [OF assms(1-4)] show thesis by (intro that) auto
qed

lemma destroy_removes:
  assumes "wf s" "up s" "row (rows s) i = Some x" "r_store r now = S" "rc_Hooks (r_cfg r) = None" "removable x"
    and d: "b_InstanceRef x \<noteq> [] \<Longrightarrow> c_Destroy (r_compute r) (b_InstanceRef x) c = (Inr (), c')"
  obtains s' where "ReconcileOne r now rnd (b_TenantID x) i (s, c) =
      (Inr (), s', if b_InstanceRef x \<noteq> [] then c' else c)" "wf s'" "up s'" "row (rows s') i = None"
proof -
  have x: "x \<in> set (rows s)" "b_ID x = i" using row_SomeD [OF assms(3)] by auto
  from up_delete [OF assms(1,2) x(1)] obtain s' where
    s': "sDelete S (b_TenantID x) (b_ID x) s = (Inr (), s')" "up s'" "rows s' = del_rows (b_ID x) (rows s)" by blast
  have wf': "wf s'" using delete_sound [OF assms(1) s'(1)] by simp
  have "reconcile_box r now rnd x (s, c) = destroy r now x (s, c)"
    using assms(6) by (auto simp: reconcile_box_def removable_def)
  also have "\<dots> = (Inr (), s', if b_InstanceRef x \<noteq> [] then c' else c)"
    using assms(4,5) s'(1) d by (simp add: destroy_def)
  finally show thesis
    using up_read [OF assms(1-4)] s' wf' x by (intro that) (auto simp: row_del_rows)
qed

text \<open>Provisioning with a provider that answers stores the new instance, whatever the phase was.\<close>

lemma provision_stores:
  assumes "wf s" "up s" "row (rows s) i = Some x" "r_store r now = S" "rc_Hooks (r_cfg r) = None"
    and p: "\<And>q. pr_WorkspaceID q = i \<Longrightarrow> \<exists>inst c'. c_Provision (r_compute r) q c = (Inr inst, c')"
  obtains s' c' q and inst :: compute_instance where "provision r now rnd x (s, c) = (Inr (), s', c')" "wf s'" "up s'"
    "row (rows s') i = Some ((tokened (newToken rnd) x)\<lparr>b_InstanceRef := inst_Ref inst, b_IP := inst_IP inst,
       b_AgentConnected := False, b_Phase := PhaseProvisioning,
       b_Message := ''provisioned, awaiting agent'', b_UpdatedAt := now\<rparr>)"
    "c_Provision (r_compute r) q c = (Inr inst, c')"
proof -
  let ?t = "tokened (newToken rnd) x"
  let ?q = "\<lparr> pr_WorkspaceID = b_ID ?t, pr_ImageRef = b_ImageRef ?t, pr_MemMB = b_MemMB ?t,
           pr_CPUMillis = b_CPUMillis ?t, pr_GuestBin = rc_GuestBin (r_cfg r), pr_Mounts = [],
           pr_Env = provision_env (r_cfg r) ?t, pr_Agent = rc_Agent (r_cfg r) \<rparr>"
  have id: "b_ID ?t = i" using row_SomeD [OF assms(3)] by (simp add: tokened_def)
  with p [of ?q] obtain inst c' where ci: "c_Provision (r_compute r) ?q c = (Inr inst, c')" by auto
  let ?b = "?t\<lparr>b_InstanceRef := inst_Ref inst, b_IP := inst_IP inst, b_AgentConnected := False,
                   b_Phase := PhaseProvisioning, b_Message := ''provisioned, awaiting agent''\<rparr>"
  have "edit_of x ?b"
    by (simp add: edit_of_def constant_part_def box_identity_def known_phase_ok known_phase_def tokened_def)
  then obtain b' s' where u: "sUpdate S ?b s = (Inr (), b', s')" "wf s'" "up s'"
    "row (rows s') i = Some (?b\<lparr>b_UpdatedAt := now\<rparr>)"
    using up_write [OF assms(1-3)] by metis
  have "provision r now rnd x (s, c) = provision_compute r now ?t [] (provision_env (r_cfg r) ?t) (s, c)"
    using assms(5) unfolding provision_def tokened_def Let_def by simp
  also have "\<dots> = (Inr (), s', c')" using ci u(1) assms(4) by (simp add: provision_compute_def)
  finally show thesis using u ci by (intro that [of s' c' inst ?q]) simp_all
qed

text \<open>A pending box is provisioned, and runs once its agent is connected.\<close>

lemma pending_provisioned:
  assumes "wf s" "up s" "row (rows s) i = Some x" "r_store r now = S" "rc_Hooks (r_cfg r) = None"
    and x: "b_Phase x = PhasePending"
    and p: "\<And>q. pr_WorkspaceID q = i \<Longrightarrow> \<exists>inst c'. c_Provision (r_compute r) q c = (Inr inst, c')"
  obtains s' c' and inst :: compute_instance where "ReconcileOne r now rnd (b_TenantID x) i (s, c) = (Inr (), s', c')" "wf s'" "up s'"
    "row (rows s') i = Some ((tokened (newToken rnd) x)\<lparr>b_InstanceRef := inst_Ref inst, b_IP := inst_IP inst,
       b_AgentConnected := False, b_Phase := PhaseProvisioning,
       b_Message := ''provisioned, awaiting agent'', b_UpdatedAt := now\<rparr>)"
proof (rule provision_stores [OF assms(1-5) p])
  fix s' c' q and inst :: compute_instance
  assume "provision r now rnd x (s, c) = (Inr (), s', c')" "wf s'" "up s'"
    "row (rows s') i = Some ((tokened (newToken rnd) x)\<lparr>b_InstanceRef := inst_Ref inst, b_IP := inst_IP inst,
       b_AgentConnected := False, b_Phase := PhaseProvisioning,
       b_Message := ''provisioned, awaiting agent'', b_UpdatedAt := now\<rparr>)"
  with x up_read [OF assms(1-4)] show thesis by (intro that [of s' c' inst]) (auto simp: reconcile_box_def)
qed

text \<open>A running box whose agent is gone and whose instance is dead gets a new instance.\<close>

lemma dead_reprovisioned:
  assumes "wf s" "up s" "row (rows s) i = Some x" "r_store r now = S" "rc_Hooks (r_cfg r) = None"
    and x: "b_Phase x = PhaseRunning" "\<not> b_Ephemeral x" "\<not> b_AgentConnected x" "b_InstanceRef x \<noteq> []"
    and st: "c_Status (r_compute r) (b_InstanceRef x) c = (Inr i0, c0)" "inst_Phase i0 \<in> {InstanceGone, InstanceFailed}"
    and p: "\<And>q. pr_WorkspaceID q = i \<Longrightarrow> \<exists>inst c'. c_Provision (r_compute r) q c0 = (Inr inst, c')"
  obtains s' c' q and inst :: compute_instance where "ReconcileOne r now rnd (b_TenantID x) i (s, c) = (Inr (), s', c')" "wf s'" "up s'"
    "row (rows s') i = Some ((tokened (newToken rnd) x)\<lparr>b_InstanceRef := inst_Ref inst, b_IP := inst_IP inst,
       b_AgentConnected := False, b_Phase := PhaseProvisioning,
       b_Message := ''provisioned, awaiting agent'', b_UpdatedAt := now\<rparr>)"
    "c_Provision (r_compute r) q c0 = (Inr inst, c')"
proof (rule provision_stores [OF assms(1-5) p])
  fix s' c' q and inst :: compute_instance
  assume "provision r now rnd x (s, c0) = (Inr (), s', c')" and o: "wf s'" "up s'"
    "row (rows s') i = Some ((tokened (newToken rnd) x)\<lparr>b_InstanceRef := inst_Ref inst, b_IP := inst_IP inst,
       b_AgentConnected := False, b_Phase := PhaseProvisioning,
       b_Message := ''provisioned, awaiting agent'', b_UpdatedAt := now\<rparr>)"
    and q: "c_Provision (r_compute r) q c0 = (Inr inst, c')"
  then have "healIfDead r now rnd x (s, c) = (Inr (), s', c')" using x st by (auto simp: healIfDead_def)
  moreover have "\<not> shouldSuspend r now x" using x by (simp add: shouldSuspend_def)
  ultimately have "reconcile_box r now rnd x (s, c) = (Inr (), s', c')"
    using x by (simp add: reconcile_box_def reconcile_running_def split: option.splits)
  with o q up_read [OF assms(1-4)] show thesis by (intro that [of s' c' inst q]) auto
qed

lemma connected_runs:
  assumes "wf s" "up s" "row (rows s) i = Some x" "r_store r now = S"
    and x: "b_Phase x = PhaseProvisioning" "b_AgentConnected x"
  obtains s' where "ReconcileOne r now rnd (b_TenantID x) i (s, c) = (Inr (), s', c)" "wf s'" "up s'"
    "row (rows s') i = Some ((started now x)\<lparr>b_Phase := PhaseRunning, b_Message := ''agent connected'',
       b_UpdatedAt := now\<rparr>)"
proof -
  let ?b = "(started now x)\<lparr>b_Phase := PhaseRunning, b_Message := ''agent connected''\<rparr>"
  have "edit_of x ?b"
    by (simp add: edit_of_def constant_part_def box_identity_def known_phase_ok known_phase_def started_def)
  then obtain b' s' where u: "sUpdate S ?b s = (Inr (), b', s')" "wf s'" "up s'"
    "row (rows s') i = Some (?b\<lparr>b_UpdatedAt := now\<rparr>)"
    using up_write [OF assms(1-3)] by metis
  have "reconcile_box r now rnd x (s, c) = (Inr (), s', c)"
    using u(1) assms(4) x unfolding started_def by (simp add: reconcile_box_def setPhase_def CanTransition_def split: if_splits)
  with u up_read [OF assms(1-4)] show thesis by (intro that) auto
qed

text \<open>An idle box is suspended; attached again, it is resumed.\<close>

lemma idle_suspends:
  assumes "wf s" "up s" "row (rows s) i = Some x" "r_store r now = S"
    and x: "b_Phase x = PhaseRunning" "shouldSuspend r now x" "c_Suspender (r_compute r) = Some susp"
      "c_Suspend susp (b_InstanceRef x) c = (Inr (), c')"
  obtains s' where "ReconcileOne r now rnd (b_TenantID x) i (s, c) = (Inr (), s', c')" "wf s'" "up s'"
    "row (rows s') i = Some (x\<lparr>b_AgentConnected := False, b_Phase := PhaseSuspended,
       b_Message := ''auto-suspended (idle)'', b_UpdatedAt := now\<rparr>)"
    "rows s' = upd_rows now (x\<lparr>b_AgentConnected := False, b_Phase := PhaseSuspended,
       b_Message := ''auto-suspended (idle)''\<rparr>) (rows s)"
proof -
  let ?b = "x\<lparr>b_AgentConnected := False, b_Phase := PhaseSuspended, b_Message := ''auto-suspended (idle)''\<rparr>"
  have "edit_of x ?b"
    by (simp add: edit_of_def constant_part_def box_identity_def known_phase_ok known_phase_def)
  then obtain b' s' where u: "sUpdate S ?b s = (Inr (), b', s')" "wf s'" "up s'"
    "row (rows s') i = Some (?b\<lparr>b_UpdatedAt := now\<rparr>)" "rows s' = upd_rows now ?b (rows s)"
    using up_write [OF assms(1-3)] by metis
  have e: "\<not> b_Ephemeral x" using x(2) by (auto simp: shouldSuspend_def split: if_splits)
  have "suspend r now susp x (s, c) = (Inr (), s', c')"
    using u(1) assms(4) x(1,4) by (simp add: suspend_def setPhase_def CanTransition_def)
  then have "reconcile_box r now rnd x (s, c) = (Inr (), s', c')"
    using x e by (simp add: reconcile_box_def reconcile_running_def)
  with u up_read [OF assms(1-4)] show thesis by (intro that) auto
qed

lemma attached_resumes:
  assumes "wf s" "up s" "row (rows s) i = Some x" "r_store r now = S"
    and x: "b_Phase x = PhaseSuspended" "b_Attached x" "c_Suspender (r_compute r) = Some susp"
      "c_Resume susp (b_InstanceRef x) c = (Inr (), c')"
  obtains s' where "ReconcileOne r now rnd (b_TenantID x) i (s, c) = (Inr (), s', c')" "wf s'" "up s'"
    "row (rows s') i = Some ((started now x)\<lparr>b_Phase := PhaseRunning, b_Message := ''resumed (attached)'',
       b_UpdatedAt := now\<rparr>)"
proof -
  let ?b = "(started now x)\<lparr>b_Phase := PhaseRunning, b_Message := ''resumed (attached)''\<rparr>"
  have "edit_of x ?b"
    by (simp add: edit_of_def constant_part_def box_identity_def known_phase_ok known_phase_def started_def)
  then obtain b' s' where u: "sUpdate S ?b s = (Inr (), b', s')" "wf s'" "up s'"
    "row (rows s') i = Some (?b\<lparr>b_UpdatedAt := now\<rparr>)"
    using up_write [OF assms(1-3)] by metis
  have "reconcile_box r now rnd x (s, c) = (Inr (), s', c')"
    using u(1) assms(4) x unfolding started_def
    by (simp add: reconcile_box_def resume_def setPhase_def CanTransition_def split: if_splits)
  with u up_read [OF assms(1-4)] show thesis by (intro that) auto
qed

end

text \<open>The engine's operations when the store is up.\<close>

context box_store
begin

lemma up_update_row:
  assumes "wf s" "up s" "row (rows s) i = Some x" "phase_ok (b_Phase b)" "persisted full b = b"
    "box_identity b = box_identity x" "b_CreatedAt b = b_CreatedAt x"
  obtains b' s' where "sUpdate S b s = (Inr (), b', s')" "wf s'" "up s'"
    "row (rows s') i = Some (b\<lparr>b_UpdatedAt := now\<rparr>)" "same_box b b'"
    "\<And>j. j \<noteq> i \<Longrightarrow> row (rows s') j = row (rows s) j" "rows s' = upd_rows now b (rows s)"
proof -
  have x: "b_ID b = i" "b_TenantID x = b_TenantID b"
    using row_SomeD [OF assms(3)] assms(6) by (auto simp: box_identity_def)
  from up_update [OF assms(1,2,4) _ x(2)] assms(3) x(1) obtain b' s' where
    u: "sUpdate S b s = (Inr (), b', s')" "up s'" by auto
  from update_sound [OF assms(1,4) u(1)] assms(5)
  have w: "wf s'" "rows s' = upd_rows now b (rows s)" "b' \<in> {b, b\<lparr>b_UpdatedAt := now\<rparr>}" by auto
  have "overwrite now x b = b\<lparr>b_UpdatedAt := now\<rparr>"
    using assms(6,7) by (simp add: overwrite_def box_identity_def)
  with u w x(1) assms(3) show thesis by (intro that [of b' s']) (auto simp: row_upd_rows)
qed

text \<open>A write to an owner's box does not change which box the owner's name finds.\<close>

lemma byOwnerName_after_write:
  assumes "wf s" "up s" "e_store e = S" "byOwnerName e owner name s = (Inr x, s)"
    and "wf s'" "up s'" "e_store e' = S" "e_cfg e' = e_cfg e" "rows s' = upd_rows t b (rows s)" "b_ID b = b_ID x"
  shows "byOwnerName e' owner name s' = (Inr (overwrite t x b), s')"
proof -
  let ?T = "ec_Tenant (e_cfg e)" and ?P = "\<lambda>b. b_Owner b = owner \<and> b_Name b = name"
  let ?g = "\<lambda>x. if b_ID x = b_ID b then overwrite t x b else x"
  have f: "find ?P (filter (\<lambda>b. ?T = [] \<or> b_TenantID b = ?T) (rows s)) = Some x"
    using assms(3,4) up_list [OF assms(1,2), of ?T] by (auto simp: byOwnerName_def split: option.splits)
  have "filter (\<lambda>b. ?T = [] \<or> b_TenantID b = ?T) (rows s') = map ?g (filter (\<lambda>b. ?T = [] \<or> b_TenantID b = ?T) (rows s))"
    unfolding assms(9) upd_rows_def filter_map by (intro arg_cong [of _ _ "map ?g"] filter_cong) auto
  moreover have "find ?P (map ?g xs) = map_option ?g (find ?P xs)" for xs by (rule find_map_key) auto
  ultimately show ?thesis
    using f up_list [OF assms(5,6), of ?T] assms(7,8,10) by (simp add: byOwnerName_def)
qed

lemma Attach_reuses:
  assumes "wf s" "up s" "e_store e = S" "ParseSpec u = Inr spec" "sp_Special spec = []"
    and b: "byOwnerName e owner (sp_Name spec) s = (Inr x, s)"
  obtains b' s' where "Attach e rnd now owner u (s, q) = (Inr b', s', e_wake e (b_ID x) (ec_Tenant (e_cfg e)) q)"
    "wf s'" "up s'" "row (rows s') (b_ID x) = Some (x\<lparr>b_Attached := True, b_UpdatedAt := now\<rparr>)"
    "same_box (x\<lparr>b_Attached := True\<rparr>) b'" "rows s' = upd_rows now (x\<lparr>b_Attached := True\<rparr>) (rows s)"
proof -
  have m: "x \<in> set (rows s)" using byOwnerName_sound(2) [OF assms(1,3) b] by simp
  then have r: "row (rows s) (b_ID x) = Some x" by (simp add: row_Some_iff [OF wf_ids [OF assms(1)]])
  have "phase_ok (b_Phase (x\<lparr>b_Attached := True\<rparr>))" "persisted full (x\<lparr>b_Attached := True\<rparr>) = x\<lparr>b_Attached := True\<rparr>"
    using wf_row [OF assms(1) m] by (simp_all add: persisted_iff)
  then obtain b' s' where u: "sUpdate S (x\<lparr>b_Attached := True\<rparr>) s = (Inr (), b', s')" "wf s'" "up s'"
    "row (rows s') (b_ID x) = Some (x\<lparr>b_Attached := True, b_UpdatedAt := now\<rparr>)" "same_box (x\<lparr>b_Attached := True\<rparr>) b'"
    "rows s' = upd_rows now (x\<lparr>b_Attached := True\<rparr>) (rows s)"
    by (rule up_update_row [OF assms(1,2) r]) (auto simp: box_identity_def)
  have "b_ID b' = b_ID x" using u(5) by (elim same_boxE) simp
  with u b assms(3,4,5) show thesis by (intro that [of b' s']) (auto simp: Attach_def attach_reuse_def)
qed

lemma releaser_detaches:
  assumes "wf s" "up s" "e_store e = S" "row (rows s) i = Some x" "b_TenantID x = ec_Tenant (e_cfg e)"
  obtains s' where "releaser e now i (s, q) = (s', e_wake e i (ec_Tenant (e_cfg e)) q)" "wf s'" "up s'"
    "row (rows s') i = Some (x\<lparr>b_Attached := False, b_LastActive := now, b_UpdatedAt := now\<rparr>)"
    "\<And>j. j \<noteq> i \<Longrightarrow> row (rows s') j = row (rows s) j"
proof -
  let ?b = "x\<lparr>b_Attached := False, b_LastActive := now\<rparr>"
  have m: "x \<in> set (rows s)" "b_ID x = i" using row_SomeD [OF assms(4)] by auto
  have "phase_ok (b_Phase ?b)" "persisted full ?b = ?b" using wf_row [OF assms(1) m(1)] by (simp_all add: persisted_iff)
  then obtain b' s' where u: "sUpdate S ?b s = (Inr (), b', s')" "wf s'" "up s'"
    "row (rows s') i = Some (?b\<lparr>b_UpdatedAt := now\<rparr>)" "\<And>j. j \<noteq> i \<Longrightarrow> row (rows s') j = row (rows s) j"
    by (rule up_update_row [OF assms(1,2,4)]) (auto simp: box_identity_def)
  have "sGet S (ec_Tenant (e_cfg e)) i s = (Inr x, s)" using up_get [OF assms(1,2) m(1)] m(2) assms(5) by simp
  with u assms(3) show thesis by (intro that [of s']) (auto simp: releaser_def)
qed

end

end
