(* ===== verification/Sql_Base.thy ===== *)
theory Sql_Base
  imports Go_Time "HOL-Library.Product_Lexorder"
begin

text \<open>
  What the two sqlite stores share: time stamps in text columns, booleans in integer columns,
  and the order of \<^verbatim>\<open>ORDER BY updated_at DESC\<close>.

  A time column holds \<^verbatim>\<open>t.Format(time.RFC3339Nano)\<close>, the empty text, or some other text.
  Formatting is lossless to the nanosecond (for the years 0 to 9999), so the text of an instant
  is represented by the instant, \<open>Stamp t\<close>. The order of the texts is not the order of the
  instants: RFC3339Nano drops the trailing zeros of the fraction. \<open>stamp_key\<close> has the
  seconds, whose text has a fixed width, and the text that follows them.
\<close>

datatype stamp = NoStamp | Stamp time | BadStamp string

definition Format_ts :: "time \<Rightarrow> stamp" where
  "Format_ts t = Stamp t"

fun Parse_ts :: "stamp \<Rightarrow> time result" where
  "Parse_ts NoStamp = Inl (Errorf ''parsing time'')"
| "Parse_ts (Stamp t) = Inr t"
| "Parse_ts (BadStamp s) = Inl (Errorf ''parsing time'')"

definition b2i :: "bool \<Rightarrow> int" where
  "b2i b = (if b then 1 else 0)"

lemma b2i_neq_0 [simp]: "b2i b \<noteq> 0 \<longleftrightarrow> b" "b2i b = 0 \<longleftrightarrow> \<not> b"
  by (simp_all add: b2i_def)

text \<open>The nine digits of the nanoseconds, and the text after the seconds.\<close>

definition nano_digits :: "int \<Rightarrow> string" where
  "nano_digits n = map (\<lambda>k. digit_char (nat (n div 10 ^ k mod 10))) [8, 7, 6, 5, 4, 3, 2, 1, 0]"

definition frac_text :: "time \<Rightarrow> string" where
  "frac_text t =
     (if time_Nanosecond t = 0 then ''Z''
      else CHR ''.'' # rev (dropWhile (\<lambda>c. c = CHR ''0'') (rev (nano_digits (time_Nanosecond t)))) @ ''Z'')"

fun stamp_key :: "stamp \<Rightarrow> int \<times> string" where
  "stamp_key NoStamp = (- 1, [])"
| "stamp_key (Stamp t) = (t div Second, frac_text t)"
| "stamp_key (BadStamp s) = (- 1, s)"

text \<open>The first row of a query ordered by a key, descending; of equal keys the earlier row.\<close>

fun first_desc :: "('a \<Rightarrow> 'k::linorder) \<Rightarrow> 'a list \<Rightarrow> 'a option" where
  "first_desc f [] = None"
| "first_desc f (x # xs) =
     (case first_desc f xs of None \<Rightarrow> Some x | Some y \<Rightarrow> if f x < f y then Some y else Some x)"

lemma first_desc_None [simp]: "first_desc f xs = None \<longleftrightarrow> xs = []"
  by (cases xs) (auto split: option.splits)

lemma first_desc_max: "first_desc f xs = Some y \<Longrightarrow> y \<in> set xs \<and> (\<forall>x \<in> set xs. f x \<le> f y)"
  by (induction xs arbitrary: y) (force split: option.splits if_splits)+

text \<open>Stamps of different seconds are ordered as their instants.\<close>

lemma stamp_key_seconds: "t div Second < u div Second \<Longrightarrow> stamp_key (Stamp t) < stamp_key (Stamp u)"
  by simp

end
