(* ===== verification/Workspace_Sqlite.thy ===== *)
theory Workspace_Sqlite
  imports Box_Progress Sql_Base
begin

text \<open>
  The dev-env workspace (\<^verbatim>\<open>internal/core/workspace\<close>), the interface of its store
  (\<^verbatim>\<open>internal/core/store/store.go\<close>) and the sqlite store
  (\<^verbatim>\<open>internal/core/store/sqlite/sqlite.go\<close>, with the keys of \<^verbatim>\<open>schema.sql\<close>). A
  column that holds JSON is represented by the value it encodes (\<open>JsonOf\<close>) or by a text that
  does not decode. The state and the failing statements are as in the box database.
\<close>

section \<open>Workspaces\<close>

record ingress_port =
  ip_Name :: string
  ip_Port :: int

record ws_endpoint =
  we_Name :: string
  we_URL :: string
  we_Port :: int
  we_Ref :: string

record workspace =
  w_Box :: box
  w_Ingress :: "ingress_port list"
  w_HomeMount :: string
  w_Endpoints :: "ws_endpoint list"

definition workspace_New :: "8 word list \<Rightarrow> time \<Rightarrow> string \<Rightarrow> string \<Rightarrow> string \<Rightarrow> string \<Rightarrow> workspace" where
  "workspace_New rnd now tenantID owner name imageRef =
     \<lparr> w_Box = New rnd now tenantID owner name imageRef, w_Ingress = [], w_HomeMount = [], w_Endpoints = [] \<rparr>"

record 's workspace_store =
  wsCreate :: "workspace \<Rightarrow> 's \<Rightarrow> unit result \<times> 's"
  wsGet :: "string \<Rightarrow> string \<Rightarrow> 's \<Rightarrow> workspace result \<times> 's"
  wsGetByName :: "string \<Rightarrow> string \<Rightarrow> 's \<Rightarrow> workspace result \<times> 's"
  wsGetByToken :: "string \<Rightarrow> 's \<Rightarrow> workspace result \<times> 's"
  wsGetByIP :: "string \<Rightarrow> 's \<Rightarrow> workspace result \<times> 's"
  wsList :: "string \<Rightarrow> 's \<Rightarrow> workspace list result \<times> 's"
  wsListAll :: "'s \<Rightarrow> workspace list result \<times> 's"
  wsUpdate :: "workspace \<Rightarrow> 's \<Rightarrow> unit result \<times> workspace \<times> 's"
  wsDelete :: "string \<Rightarrow> string \<Rightarrow> 's \<Rightarrow> unit result \<times> 's"

section \<open>Rows\<close>

datatype 'a json_text = JsonOf 'a | BadJson string

record lifetime_json =
  lt_Ephemeral :: bool
  lt_Grace :: duration
  lt_MaxTTL :: duration
  lt_Deadline :: "time option"
  lt_AutoSuspend :: bool
  lt_KeepAliveUntil :: "time option"
  lt_IdleTimeoutOverride :: duration
  lt_LastActive :: "time option"
  lt_Load :: rat

record ws_row =
  wr_id :: string
  wr_tenant_id :: string
  wr_owner :: string
  wr_name :: string
  wr_image_ref :: string
  wr_mem_mb :: int
  wr_cpu_millis :: int
  wr_phase :: string
  wr_instance_ref :: string
  wr_ip :: string
  wr_home_mount :: string
  wr_bootstrap_token :: string
  wr_agent_connected :: int
  wr_attached :: int
  wr_message :: string
  wr_ingress_spec :: "ingress_port list json_text"
  wr_endpoints :: "ws_endpoint list json_text"
  wr_backend :: string
  wr_lifetime :: "lifetime_json json_text"
  wr_created_at :: stamp
  wr_updated_at :: stamp

record ws_db =
  wd_rows :: "ws_row list"
  wd_fault :: "err option"
  wd_conflict :: err

definition nilIfZero :: "time \<Rightarrow> time option" where
  "nilIfZero t = (if IsZero t then None else Some t)"

definition marshalLifetime :: "workspace \<Rightarrow> lifetime_json json_text" where
  "marshalLifetime w = (let b = w_Box w in JsonOf
     \<lparr> lt_Ephemeral = b_Ephemeral b, lt_Grace = b_Grace b, lt_MaxTTL = b_MaxTTL b, lt_Deadline = b_Deadline b,
       lt_AutoSuspend = b_AutoSuspend b, lt_KeepAliveUntil = nilIfZero (b_KeepAliveUntil b),
       lt_IdleTimeoutOverride = b_IdleTimeoutOverride b, lt_LastActive = nilIfZero (b_LastActive b),
       lt_Load = b_Load b \<rparr>)"

definition unmarshalLifetime :: "lifetime_json json_text \<Rightarrow> box \<Rightarrow> box result" where
  "unmarshalLifetime s b =
     (case s of
        BadJson t \<Rightarrow> Inl (Wrapf (''parse lifetime '' @ quoted t @ '': '') (Errorf ''invalid character''))
      | JsonOf lt \<Rightarrow>
          (let b1 = b\<lparr>b_Ephemeral := lt_Ephemeral lt, b_Grace := lt_Grace lt, b_MaxTTL := lt_MaxTTL lt,
                 b_Deadline := lt_Deadline lt, b_AutoSuspend := lt_AutoSuspend lt,
                 b_IdleTimeoutOverride := lt_IdleTimeoutOverride lt, b_Load := lt_Load lt\<rparr>;
               b2 = (case lt_KeepAliveUntil lt of None \<Rightarrow> b1 | Some t \<Rightarrow> b1\<lparr>b_KeepAliveUntil := t\<rparr>)
           in Inr (case lt_LastActive lt of None \<Rightarrow> b2 | Some t \<Rightarrow> b2\<lparr>b_LastActive := t\<rparr>)))"

definition parse_json :: "string \<Rightarrow> 'a json_text \<Rightarrow> 'a result" where
  "parse_json col s =
     (case s of JsonOf x \<Rightarrow> Inr x
      | BadJson t \<Rightarrow> Inl (Wrapf (''parse '' @ col @ '' '' @ quoted t @ '': '') (Errorf ''invalid character'')))"

definition parse_required :: "string \<Rightarrow> stamp \<Rightarrow> time result" where
  "parse_required col st =
     (case st of Stamp t \<Rightarrow> Inr t
      | NoStamp \<Rightarrow> Inl (Wrapf (''parse '' @ col @ '' '' @ quoted [] @ '': '') (Errorf ''parsing time''))
      | BadStamp s \<Rightarrow> Inl (Wrapf (''parse '' @ col @ '' '' @ quoted s @ '': '') (Errorf ''parsing time'')))"

text \<open>The part of the box that the plain columns hold.\<close>

definition ws_base :: "ws_row \<Rightarrow> box" where
  "ws_base r = zero_box\<lparr> b_ID := wr_id r, b_TenantID := wr_tenant_id r, b_Owner := wr_owner r, b_Name := wr_name r,
     b_ImageRef := wr_image_ref r, b_MemMB := wr_mem_mb r, b_CPUMillis := wr_cpu_millis r,
     b_Phase := phase_of_text (wr_phase r), b_InstanceRef := wr_instance_ref r, b_IP := wr_ip r,
     b_BootstrapToken := wr_bootstrap_token r, b_AgentConnected := (wr_agent_connected r \<noteq> 0),
     b_Attached := (wr_attached r \<noteq> 0), b_Message := wr_message r, b_Backend := wr_backend r \<rparr>"

definition ws_scan :: "ws_row \<Rightarrow> workspace result" where
  "ws_scan r =
     rbind (parse_json ''ingress_spec'' (wr_ingress_spec r)) (\<lambda>ing.
     rbind (parse_json ''endpoints'' (wr_endpoints r)) (\<lambda>eps.
     rbind (unmarshalLifetime (wr_lifetime r) (ws_base r)) (\<lambda>b.
     rbind (parse_required ''created_at'' (wr_created_at r)) (\<lambda>created.
     rbind (parse_required ''updated_at'' (wr_updated_at r)) (\<lambda>updated. Inr
       \<lparr> w_Box = b\<lparr>b_CreatedAt := created, b_UpdatedAt := updated\<rparr>, w_Ingress = ing,
         w_HomeMount = wr_home_mount r, w_Endpoints = eps \<rparr>)))))"

section \<open>Statements\<close>

definition ws_insert_row :: "workspace \<Rightarrow> ws_row" where
  "ws_insert_row w = (let b = w_Box w in
     \<lparr> wr_id = b_ID b, wr_tenant_id = b_TenantID b, wr_owner = b_Owner b, wr_name = b_Name b,
       wr_image_ref = b_ImageRef b, wr_mem_mb = b_MemMB b, wr_cpu_millis = b_CPUMillis b,
       wr_phase = phase_text (b_Phase b), wr_instance_ref = b_InstanceRef b, wr_ip = b_IP b,
       wr_home_mount = w_HomeMount w, wr_bootstrap_token = b_BootstrapToken b,
       wr_agent_connected = b2i (b_AgentConnected b), wr_attached = b2i (b_Attached b), wr_message = b_Message b,
       wr_ingress_spec = JsonOf (w_Ingress w), wr_endpoints = JsonOf (w_Endpoints w), wr_backend = b_Backend b,
       wr_lifetime = marshalLifetime w, wr_created_at = Format_ts (b_CreatedAt b),
       wr_updated_at = Format_ts (b_UpdatedAt b) \<rparr>)"

definition ws_set_row :: "workspace \<Rightarrow> ws_row \<Rightarrow> ws_row" where
  "ws_set_row w r = (let b = w_Box w in r
     \<lparr> wr_image_ref := b_ImageRef b, wr_mem_mb := b_MemMB b, wr_cpu_millis := b_CPUMillis b,
       wr_phase := phase_text (b_Phase b), wr_instance_ref := b_InstanceRef b, wr_ip := b_IP b,
       wr_home_mount := w_HomeMount w, wr_bootstrap_token := b_BootstrapToken b,
       wr_agent_connected := b2i (b_AgentConnected b), wr_attached := b2i (b_Attached b), wr_message := b_Message b,
       wr_ingress_spec := JsonOf (w_Ingress w), wr_endpoints := JsonOf (w_Endpoints w), wr_backend := b_Backend b,
       wr_lifetime := marshalLifetime w, wr_updated_at := Format_ts (b_UpdatedAt b) \<rparr>)"

text \<open>The keys: the primary key, and one name per tenant.\<close>

definition ws_key_conflict :: "ws_row \<Rightarrow> ws_row \<Rightarrow> bool" where
  "ws_key_conflict r r' = (wr_id r = wr_id r' \<or> wr_tenant_id r = wr_tenant_id r' \<and> wr_name r = wr_name r')"

definition ws_one :: "(ws_row list \<Rightarrow> ws_row option) \<Rightarrow> ws_db \<Rightarrow> workspace result \<times> ws_db" where
  "ws_one q db =
     (case wd_fault db of
        Some e \<Rightarrow> (Inl e, db)
      | None \<Rightarrow> (case q (wd_rows db) of None \<Rightarrow> (Inl StoreErrNotFound, db) | Some r \<Rightarrow> (ws_scan r, db)))"

definition CreateWorkspace :: "workspace \<Rightarrow> ws_db \<Rightarrow> unit result \<times> ws_db" where
  "CreateWorkspace w db =
     (case wd_fault db of
        Some e \<Rightarrow> (Inl e, db)
      | None \<Rightarrow>
          if list_ex (ws_key_conflict (ws_insert_row w)) (wd_rows db) then (Inl (wd_conflict db), db)
          else (Inr (), db\<lparr>wd_rows := wd_rows db @ [ws_insert_row w]\<rparr>))"

definition GetWorkspace :: "string \<Rightarrow> string \<Rightarrow> ws_db \<Rightarrow> workspace result \<times> ws_db" where
  "GetWorkspace tenantID i = ws_one (find (\<lambda>r. wr_tenant_id r = tenantID \<and> wr_id r = i))"

definition ws_GetByName :: "string \<Rightarrow> string \<Rightarrow> ws_db \<Rightarrow> workspace result \<times> ws_db" where
  "ws_GetByName tenantID name = ws_one (find (\<lambda>r. wr_tenant_id r = tenantID \<and> wr_name r = name))"

definition ws_GetByToken :: "string \<Rightarrow> ws_db \<Rightarrow> workspace result \<times> ws_db" where
  "ws_GetByToken token db =
     (if token = [] then (Inl StoreErrNotFound, db) else ws_one (find (\<lambda>r. wr_bootstrap_token r = token)) db)"

definition ws_GetByIP :: "string \<Rightarrow> ws_db \<Rightarrow> workspace result \<times> ws_db" where
  "ws_GetByIP ip db =
     (if ip = [] then (Inl StoreErrNotFound, db)
      else ws_one (\<lambda>rs. first_desc (\<lambda>r. stamp_key (wr_updated_at r)) (filter (\<lambda>r. wr_ip r = ip) rs)) db)"

fun ws_scan_all :: "ws_row list \<Rightarrow> workspace list result" where
  "ws_scan_all [] = Inr []"
| "ws_scan_all (r # rs) = rbind (ws_scan r) (\<lambda>w. rbind (ws_scan_all rs) (\<lambda>ws. Inr (w # ws)))"

definition ws_list :: "(ws_row \<Rightarrow> bool) \<Rightarrow> ws_db \<Rightarrow> workspace list result \<times> ws_db" where
  "ws_list cond db =
     (case wd_fault db of Some e \<Rightarrow> (Inl e, db) | None \<Rightarrow> (ws_scan_all (filter cond (wd_rows db)), db))"

definition ListWorkspaces :: "string \<Rightarrow> ws_db \<Rightarrow> workspace list result \<times> ws_db" where
  "ListWorkspaces tenantID = ws_list (\<lambda>r. wr_tenant_id r = tenantID)"

definition ListAll :: "ws_db \<Rightarrow> workspace list result \<times> ws_db" where
  "ListAll = ws_list (\<lambda>r. True)"

definition UpdateWorkspace :: "time \<Rightarrow> workspace \<Rightarrow> ws_db \<Rightarrow> unit result \<times> workspace \<times> ws_db" where
  "UpdateWorkspace now w0 db =
     (let w = w0\<lparr>w_Box := (w_Box w0)\<lparr>b_UpdatedAt := now\<rparr>\<rparr>;
          hit = (\<lambda>r. wr_tenant_id r = b_TenantID (w_Box w) \<and> wr_id r = b_ID (w_Box w))
      in case wd_fault db of
           Some e \<Rightarrow> (Inl e, w, db)
         | None \<Rightarrow>
             (if list_ex hit (wd_rows db)
              then (Inr (), w, db\<lparr>wd_rows := map (\<lambda>r. if hit r then ws_set_row w r else r) (wd_rows db)\<rparr>)
              else (Inl StoreErrNotFound, w, db)))"

definition DeleteWorkspace :: "string \<Rightarrow> string \<Rightarrow> ws_db \<Rightarrow> unit result \<times> ws_db" where
  "DeleteWorkspace tenantID i db =
     (case wd_fault db of
        Some e \<Rightarrow> (Inl e, db)
      | None \<Rightarrow> (Inr (), db\<lparr>wd_rows := filter (\<lambda>r. \<not> (wr_tenant_id r = tenantID \<and> wr_id r = i)) (wd_rows db)\<rparr>))"

definition sqlite_store :: "time \<Rightarrow> ws_db workspace_store" where
  "sqlite_store now = \<lparr> wsCreate = CreateWorkspace, wsGet = GetWorkspace, wsGetByName = ws_GetByName,
     wsGetByToken = ws_GetByToken, wsGetByIP = ws_GetByIP, wsList = ListWorkspaces, wsListAll = ListAll,
     wsUpdate = UpdateWorkspace now, wsDelete = DeleteWorkspace \<rparr>"

section \<open>Reading back what was written\<close>

definition ws_kept :: "workspace \<Rightarrow> workspace" where
  "ws_kept w = w\<lparr>w_Box := persisted False (w_Box w)\<rparr>"

lemma ws_scan_insert_row:
  assumes "phase_ok (b_Phase (w_Box w))"
  shows "ws_scan (ws_insert_row w) = Inr (ws_kept w)"
  using assms
  by (cases "w_Box w"; cases w)
    (simp add: ws_scan_def ws_base_def ws_insert_row_def ws_kept_def persisted_def parse_json_def Let_def unmarshalLifetime_def
      marshalLifetime_def nilIfZero_def IsZero_def Format_ts_def phase_ok_def zero_box_def parse_required_def)

lemma unmarshalLifetime_fields:
  assumes "unmarshalLifetime s b = Inr b1"
  shows "b_ID b1 = b_ID b" "b_TenantID b1 = b_TenantID b" "b_Owner b1 = b_Owner b" "b_Name b1 = b_Name b"
    "b_Phase b1 = b_Phase b" "b_AgentState b1 = b_AgentState b" "b_AgentStatus b1 = b_AgentStatus b"
proof -
  obtain lt where s: "s = JsonOf lt" using assms by (cases s) (auto simp: unmarshalLifetime_def)
  have b1: "b1 = (case unmarshalLifetime s b of Inr y \<Rightarrow> y)" using assms by simp
  show "b_ID b1 = b_ID b" "b_TenantID b1 = b_TenantID b" "b_Owner b1 = b_Owner b" "b_Name b1 = b_Name b"
    "b_Phase b1 = b_Phase b" "b_AgentState b1 = b_AgentState b" "b_AgentStatus b1 = b_AgentStatus b"
    unfolding b1 s unmarshalLifetime_def Let_def by (simp_all split: option.split)
qed

lemma ws_scan_columns:
  assumes "ws_scan r = Inr w"
  shows "b_ID (w_Box w) = wr_id r" "b_TenantID (w_Box w) = wr_tenant_id r" "b_Owner (w_Box w) = wr_owner r"
    "b_Name (w_Box w) = wr_name r" "phase_ok (b_Phase (w_Box w))" "persisted False (w_Box w) = w_Box w"
    "wr_created_at r = Stamp (b_CreatedAt (w_Box w))"
proof -
  have b: "b_ID (ws_base r) = wr_id r" "b_TenantID (ws_base r) = wr_tenant_id r" "b_Owner (ws_base r) = wr_owner r"
    "b_Name (ws_base r) = wr_name r" "b_Phase (ws_base r) = phase_of_text (wr_phase r)"
    "b_AgentState (ws_base r) = []" "b_AgentStatus (ws_base r) = []"
    by (simp_all add: ws_base_def zero_box_def)
  obtain b1 c v where u: "unmarshalLifetime (wr_lifetime r) (ws_base r) = Inr b1"
    and c: "parse_required ''created_at'' (wr_created_at r) = Inr c"
    and w: "w_Box w = b1\<lparr>b_CreatedAt := c, b_UpdatedAt := v\<rparr>"
    using assms by (auto simp: ws_scan_def)
  note f = unmarshalLifetime_fields [OF u]
  show "b_ID (w_Box w) = wr_id r" "b_TenantID (w_Box w) = wr_tenant_id r" "b_Owner (w_Box w) = wr_owner r"
    "b_Name (w_Box w) = wr_name r" "phase_ok (b_Phase (w_Box w))" "persisted False (w_Box w) = w_Box w"
    using b f unfolding w persisted_iff by simp_all
  show "wr_created_at r = Stamp (b_CreatedAt (w_Box w))"
    using c unfolding w by (cases "wr_created_at r") (simp_all add: parse_required_def)
qed

lemma ws_scan_set_row:
  assumes "ws_scan r = Inr x" "phase_ok (b_Phase (w_Box w))"
  shows "ws_scan (ws_set_row w r) = Inr (w\<lparr>w_Box :=
    overwrite (b_UpdatedAt (w_Box w)) (w_Box x) (persisted False (w_Box w))\<rparr>)"
  using assms(2) ws_scan_columns(1-4,7) [OF assms(1)]
  by (cases "w_Box w"; cases w)
    (simp add: ws_scan_def ws_base_def ws_set_row_def persisted_def parse_json_def Let_def unmarshalLifetime_def overwrite_def
      marshalLifetime_def nilIfZero_def IsZero_def Format_ts_def phase_ok_def zero_box_def parse_required_def)

section \<open>The stored workspaces\<close>

definition ws_scanned :: "ws_row \<Rightarrow> workspace" where
  "ws_scanned r = (case ws_scan r of Inl _ \<Rightarrow> workspace_New [] 0 [] [] [] [] | Inr w \<Rightarrow> w)"

definition ws_all :: "ws_db \<Rightarrow> workspace list" where
  "ws_all db = map ws_scanned (wd_rows db)"

definition ws_wf :: "ws_db \<Rightarrow> bool" where
  "ws_wf db = (list_all (\<lambda>r. is_ok (ws_scan r)) (wd_rows db) \<and> distinct (map wr_id (wd_rows db)))"

lemma ws_wf_scan: "ws_wf db \<Longrightarrow> r \<in> set (wd_rows db) \<Longrightarrow> ws_scan r = Inr (ws_scanned r)"
  by (auto simp: ws_wf_def list_all_iff is_ok_iff ws_scanned_def)

lemma ws_wf_columns:
  assumes "ws_wf db" "r \<in> set (wd_rows db)"
  shows "b_ID (w_Box (ws_scanned r)) = wr_id r" "b_TenantID (w_Box (ws_scanned r)) = wr_tenant_id r"
    "b_Owner (w_Box (ws_scanned r)) = wr_owner r" "b_Name (w_Box (ws_scanned r)) = wr_name r"
    "phase_ok (b_Phase (w_Box (ws_scanned r)))" "persisted False (w_Box (ws_scanned r)) = w_Box (ws_scanned r)"
  using ws_scan_columns [OF ws_wf_scan [OF assms]] by auto

definition ws_find :: "string \<Rightarrow> string \<Rightarrow> ws_db \<Rightarrow> workspace option" where
  "ws_find t i db = find (\<lambda>w. b_TenantID (w_Box w) = t \<and> b_ID (w_Box w) = i) (ws_all db)"

lemma find_ws_scanned:
  assumes "ws_wf db" "\<And>r. r \<in> set (wd_rows db) \<Longrightarrow> P (ws_scanned r) = Q r"
  shows "find P (ws_all db) = map_option ws_scanned (find Q (wd_rows db))"
proof -
  have "set rs \<subseteq> set (wd_rows db) \<Longrightarrow> find P (map ws_scanned rs) = map_option ws_scanned (find Q rs)" for rs
    using assms(2) by (induction rs) auto
  then show ?thesis by (simp add: ws_all_def)
qed

lemma ws_one_find:
  assumes "ws_wf db" "\<And>r. r \<in> set (wd_rows db) \<Longrightarrow> P (ws_scanned r) = Q r" "wd_fault db = None"
  shows "ws_one (find Q) db = (case find P (ws_all db) of None \<Rightarrow> Inl StoreErrNotFound | Some w \<Rightarrow> Inr w, db)"
proof -
  have "find P (ws_all db) = map_option ws_scanned (find Q (wd_rows db))"
    using assms(1,2) by (rule find_ws_scanned)
  then show ?thesis
    using assms(3) ws_wf_scan [OF assms(1)]
    by (auto simp: ws_one_def dest!: find_Some_iff' split: option.splits)
qed

lemma GetWorkspace_find:
  "ws_wf db \<Longrightarrow> wd_fault db = None \<Longrightarrow>
     GetWorkspace t i db = (case ws_find t i db of None \<Rightarrow> Inl StoreErrNotFound | Some w \<Rightarrow> Inr w, db)"
  unfolding GetWorkspace_def ws_find_def by (rule ws_one_find) (auto simp: ws_wf_columns)

lemma ws_scan_all_map: "(\<And>r. r \<in> set rs \<Longrightarrow> ws_scan r = Inr (ws_scanned r)) \<Longrightarrow> ws_scan_all rs = Inr (map ws_scanned rs)"
  by (induction rs) auto

lemma ws_list_rows:
  assumes "ws_wf db" "wd_fault db = None" "\<And>r. r \<in> set (wd_rows db) \<Longrightarrow> P (ws_scanned r) = Q r"
  shows "ws_list Q db = (Inr (filter P (ws_all db)), db)"
proof -
  let ?rs = "filter Q (wd_rows db)"
  have "ws_scan_all ?rs = Inr (map ws_scanned ?rs)" by (rule ws_scan_all_map) (auto simp: ws_wf_scan [OF assms(1)])
  moreover have "map ws_scanned ?rs = filter P (ws_all db)"
    using assms(3) by (auto simp: ws_all_def filter_map intro!: arg_cong [of _ _ "map ws_scanned"] filter_cong)
  ultimately show ?thesis using assms(2) by (simp add: ws_list_def)
qed

lemma ws_faulty: "wd_fault db = Some e \<Longrightarrow> GetWorkspace t i db = (Inl e, db)" "wd_fault db = Some e \<Longrightarrow> ws_list Q db = (Inl e, db)"
  "wd_fault db = Some e \<Longrightarrow> CreateWorkspace w db = (Inl e, db)"
  "wd_fault db = Some e \<Longrightarrow> DeleteWorkspace t i db = (Inl e, db)"
  by (simp_all add: GetWorkspace_def ws_one_def ws_list_def CreateWorkspace_def DeleteWorkspace_def)

lemma ws_all_ids: "ws_wf db \<Longrightarrow> map (b_ID \<circ> w_Box) (ws_all db) = map wr_id (wd_rows db)"
  by (simp add: ws_all_def ws_wf_columns(1))

text \<open>An update of a stored workspace replaces it, but for the columns that are never set.\<close>

definition ws_overwrite :: "time \<Rightarrow> workspace \<Rightarrow> workspace \<Rightarrow> workspace" where
  "ws_overwrite now x w = w\<lparr>w_Box := overwrite now (w_Box x) (persisted False (w_Box w))\<rparr>"

definition ws_upd :: "time \<Rightarrow> workspace \<Rightarrow> workspace list \<Rightarrow> workspace list" where
  "ws_upd now w ws = map (\<lambda>x. if b_TenantID (w_Box x) = b_TenantID (w_Box w) \<and> b_ID (w_Box x) = b_ID (w_Box w)
     then ws_overwrite now x w else x) ws"

lemma overwrite_touch: "overwrite t x (persisted f (b\<lparr>b_UpdatedAt := u\<rparr>)) = overwrite t x (persisted f b)"
  by (simp add: overwrite_def persisted_def)

lemma UpdateWorkspace_rows:
  assumes "ws_wf db" "phase_ok (b_Phase (w_Box w))" "UpdateWorkspace now w db = (r, w', db')"
  shows "ws_wf db' \<and> wd_fault db' = wd_fault db \<and>
    (is_ok r \<longleftrightarrow> wd_fault db = None \<and> ws_find (b_TenantID (w_Box w)) (b_ID (w_Box w)) db \<noteq> None) \<and>
    ws_all db' = (if is_ok r then ws_upd now w (ws_all db) else ws_all db)"
proof -
  let ?w = "w\<lparr>w_Box := (w_Box w)\<lparr>b_UpdatedAt := now\<rparr>\<rparr>"
  let ?hit = "\<lambda>r. wr_tenant_id r = b_TenantID (w_Box w) \<and> wr_id r = b_ID (w_Box w)"
  let ?f = "\<lambda>r. if ?hit r then ws_set_row ?w r else r"
  have ex: "ws_find (b_TenantID (w_Box w)) (b_ID (w_Box w)) db \<noteq> None \<longleftrightarrow> list_ex ?hit (wd_rows db)"
    unfolding ws_find_def find_None_iff ws_all_def list_ex_iff using ws_wf_columns(1,2) [OF assms(1)] by auto
  show ?thesis
  proof (cases "wd_fault db = None \<and> list_ex ?hit (wd_rows db)")
    case False
    then have "\<not> is_ok r \<and> db' = db" using assms(3)
      by (cases "wd_fault db") (auto simp: UpdateWorkspace_def Let_def)
    with assms(1) False ex show ?thesis by auto
  next
    case True
    then have r: "r = Inr ()" "wd_rows db' = map ?f (wd_rows db)" "wd_fault db' = None"
      using assms(3) by (auto simp: UpdateWorkspace_def Let_def)
    have sc: "ws_scan (?f x) = Inr (if ?hit x then ws_overwrite now (ws_scanned x) w else ws_scanned x)"
      if "x \<in> set (wd_rows db)" for x
    proof (cases "?hit x")
      case True
      have "ws_scan (ws_set_row ?w x) = Inr (ws_overwrite now (ws_scanned x) w)"
        using ws_scan_set_row [OF ws_wf_scan [OF assms(1) that], of ?w] assms(2)
        by (simp add: ws_overwrite_def overwrite_touch)
      with True show ?thesis by simp
    next
      case False
      then show ?thesis using ws_wf_scan [OF assms(1) that] by (simp only: if_False)
    qed
    have ids: "map wr_id (map ?f (wd_rows db)) = map wr_id (wd_rows db)" by (simp add: ws_set_row_def Let_def)
    have ok: "is_ok (ws_scan (?f x))" if "x \<in> set (wd_rows db)" for x
      unfolding sc [OF that] by (rule is_ok_simps(1))
    have all: "\<forall>y \<in> set (wd_rows db'). is_ok (ws_scan y)"
      unfolding r(2) set_map using ok by blast
    have dis: "distinct (map wr_id (wd_rows db'))"
      unfolding r(2) ids using assms(1) by (simp add: ws_wf_def)
    have "ws_wf db'" using all dis by (simp only: ws_wf_def list_all_iff simp_thms)
    moreover have "ws_all db' = ws_upd now w (ws_all db)"
      using sc ws_wf_columns(1,2) [OF assms(1)] unfolding ws_all_def ws_upd_def r(2) by (simp add: ws_scanned_def)
    ultimately show ?thesis using r True ex by simp
  qed
qed

lemma CreateWorkspace_rows:
  assumes "ws_wf db" "phase_ok (b_Phase (w_Box w))" "CreateWorkspace w db = (r, db')"
  shows "ws_wf db' \<and> wd_fault db' = wd_fault db \<and>
    ws_all db' = (if is_ok r then ws_all db @ [ws_kept w] else ws_all db)"
proof (cases "wd_fault db = None \<and> \<not> list_ex (ws_key_conflict (ws_insert_row w)) (wd_rows db)")
  case False
  then have "\<not> is_ok r \<and> db' = db"
    using assms(3) by (auto simp: CreateWorkspace_def split: option.splits if_splits)
  with assms(1) show ?thesis by simp
next
  case True
  then have r: "r = Inr ()" "db' = db\<lparr>wd_rows := wd_rows db @ [ws_insert_row w]\<rparr>"
    using assms(3) by (auto simp: CreateWorkspace_def)
  have "wr_id (ws_insert_row w) \<notin> wr_id ` set (wd_rows db)"
    using True by (auto simp: list_ex_iff ws_key_conflict_def)
  with assms(1) r ws_scan_insert_row [OF assms(2)] show ?thesis by (simp add: ws_wf_def ws_all_def ws_scanned_def)
qed

lemma DeleteWorkspace_rows:
  assumes "ws_wf db" "DeleteWorkspace t i db = (r, db')"
  shows "ws_wf db' \<and> wd_fault db' = wd_fault db \<and> (is_ok r \<longleftrightarrow> wd_fault db = None) \<and>
    ws_all db' = (if is_ok r then filter (\<lambda>w. \<not> (b_TenantID (w_Box w) = t \<and> b_ID (w_Box w) = i)) (ws_all db) else ws_all db)"
proof (cases "wd_fault db")
  case (Some e)
  with assms show ?thesis by (auto simp: DeleteWorkspace_def)
next
  case None
  then have r: "r = Inr ()" "db' = db\<lparr>wd_rows := filter (\<lambda>r. \<not> (wr_tenant_id r = t \<and> wr_id r = i)) (wd_rows db)\<rparr>"
    using assms(2) by (auto simp: DeleteWorkspace_def)
  have "ws_all db' = filter (\<lambda>w. \<not> (b_TenantID (w_Box w) = t \<and> b_ID (w_Box w) = i)) (ws_all db)"
    using ws_wf_columns(1,2) [OF assms(1)]
    by (auto simp: r(2) ws_all_def filter_map intro!: arg_cong [of _ _ "map ws_scanned"] filter_cong)
  with assms(1) None r show ?thesis by (auto simp: ws_wf_def list_all_iff distinct_map_filter)
qed

end
