(* ===== verification/Box_Adapter.thy ===== *)
theory Box_Adapter
  imports Workspace_Sqlite
begin

text \<open>
  The dev-env's view of its workspaces as boxes (\<^verbatim>\<open>internal/core/boxstore/boxstore.go\<close>) and
  its lifecycle hooks (\<^verbatim>\<open>hooks.go\<close>): a storage home and SSH settings before provisioning,
  gateway endpoints while running, their removal before teardown. The adapter over the sqlite
  workspace store is proved to keep the contract of the box store, without the agent-reported
  status fields, and the hooks to keep the stored boxes.
\<close>

section \<open>The adapter\<close>

definition mapErr :: "err \<Rightarrow> err" where
  "mapErr e = (if errors_Is e StoreErrNotFound then ErrNotFound else e)"

definition ad_Get :: "'s workspace_store \<Rightarrow> string \<Rightarrow> string \<Rightarrow> 's \<Rightarrow> box result \<times> 's" where
  "ad_Get A tenant i s =
     (case wsGet A tenant i s of (Inl e, s') \<Rightarrow> (Inl (mapErr e), s') | (Inr w, s') \<Rightarrow> (Inr (w_Box w), s'))"

definition ad_GetByName :: "'s workspace_store \<Rightarrow> string \<Rightarrow> string \<Rightarrow> 's \<Rightarrow> box result \<times> 's" where
  "ad_GetByName A tenant name s =
     (case wsGetByName A tenant name s of (Inl e, s') \<Rightarrow> (Inl (mapErr e), s') | (Inr w, s') \<Rightarrow> (Inr (w_Box w), s'))"

definition ad_List :: "'s workspace_store \<Rightarrow> string \<Rightarrow> 's \<Rightarrow> box list result \<times> 's" where
  "ad_List A tenant s =
     (case (if tenant = [] then wsListAll A s else wsList A tenant s) of
        (Inl e, s') \<Rightarrow> (Inl e, s') | (Inr ws, s') \<Rightarrow> (Inr (map w_Box ws), s'))"

definition ad_Create :: "'s workspace_store \<Rightarrow> box \<Rightarrow> 's \<Rightarrow> unit result \<times> 's" where
  "ad_Create A b s = wsCreate A \<lparr> w_Box = b, w_Ingress = [], w_HomeMount = [], w_Endpoints = [] \<rparr> s"

text \<open>\<^verbatim>\<open>Update\<close> copies the box into the stored workspace, so the caller's box is left as it is.\<close>

definition ad_Update :: "'s workspace_store \<Rightarrow> box \<Rightarrow> 's \<Rightarrow> unit result \<times> box \<times> 's" where
  "ad_Update A b s =
     (case wsGet A (b_TenantID b) (b_ID b) s of
        (Inl e, s') \<Rightarrow> (Inl (mapErr e), b, s')
      | (Inr w, s') \<Rightarrow> (let (r, _, s'') = wsUpdate A (w\<lparr>w_Box := b\<rparr>) s' in (r, b, s'')))"

definition ad_Delete :: "'s workspace_store \<Rightarrow> string \<Rightarrow> string \<Rightarrow> 's \<Rightarrow> unit result \<times> 's" where
  "ad_Delete A tenant i s = wsDelete A tenant i s"

definition Adapter :: "'s workspace_store \<Rightarrow> 's store_ops" where
  "Adapter A = \<lparr> sGet = ad_Get A, sGetByName = ad_GetByName A, sList = ad_List A, sCreate = ad_Create A,
     sUpdate = ad_Update A, sDelete = ad_Delete A \<rparr>"

lemmas Adapter_ops = Adapter_def ad_Get_def ad_List_def ad_Create_def ad_Update_def ad_Delete_def

section \<open>The adapter over the sqlite store keeps the store contract\<close>

definition ws_boxes :: "ws_db \<Rightarrow> box list" where
  "ws_boxes db = map w_Box (ws_all db)"

definition same_tenant_name :: "box \<Rightarrow> box \<Rightarrow> bool" where
  "same_tenant_name x b = (b_TenantID x = b_TenantID b \<and> b_Name x = b_Name b)"

lemma ws_boxes_distinct: "ws_wf db \<Longrightarrow> distinct (map b_ID (ws_boxes db))"
  using ws_all_ids [of db] by (simp add: ws_boxes_def ws_wf_def)

lemma ws_findD:
  "ws_find t i db = Some w \<Longrightarrow> w \<in> set (ws_all db) \<and> b_TenantID (w_Box w) = t \<and> b_ID (w_Box w) = i"
  unfolding ws_find_def by (drule find_Some_iff') simp

lemma ws_find_row:
  assumes "ws_wf db"
  shows "ws_find t i db = Some w \<Longrightarrow> row (ws_boxes db) i = Some (w_Box w) \<and> b_TenantID (w_Box w) = t \<and> b_ID (w_Box w) = i"
    "row (ws_boxes db) i = Some b \<Longrightarrow> \<exists>w. ws_find (b_TenantID b) i db = Some w \<and> w_Box w = b"
proof -
  note d = row_Some_iff [OF ws_boxes_distinct [OF assms]]
  show 1: "ws_find t i db = Some w \<Longrightarrow> row (ws_boxes db) i = Some (w_Box w) \<and> b_TenantID (w_Box w) = t \<and> b_ID (w_Box w) = i"
    for t w unfolding d by (drule ws_findD) (simp add: ws_boxes_def)
  assume r: "row (ws_boxes db) i = Some b"
  then obtain w where w: "w \<in> set (ws_all db)" "w_Box w = b" "b_ID b = i"
    using row_SomeD [OF r] by (auto simp: ws_boxes_def)
  have "ws_find (b_TenantID b) i db \<noteq> None"
  proof
    assume "ws_find (b_TenantID b) i db = None"
    then have "\<forall>x \<in> set (ws_all db). \<not> (b_TenantID (w_Box x) = b_TenantID b \<and> b_ID (w_Box x) = i)"
      unfolding ws_find_def find_None_all .
    from bspec [OF this w(1)] w(2,3) show False by simp
  qed
  then obtain v where v: "ws_find (b_TenantID b) i db = Some v" by (metis not_None_eq)
  have "Some b = Some (w_Box v)" using conjunct1 [OF 1 [OF v]] unfolding r .
  then have "w_Box v = b" by simp
  with v show "\<exists>w. ws_find (b_TenantID b) i db = Some w \<and> w_Box w = b" by (intro exI conjI)
qed

lemma ws_find_None: "row (ws_boxes db) i = None \<Longrightarrow> ws_find t i db = None"
  by (auto simp: ws_find_def find_None_iff row_None_iff ws_boxes_def image_iff)

lemma ws_upd_boxes:
  assumes "ws_wf db" "ws_find (b_TenantID b) (b_ID b) db = Some w"
  shows "map w_Box (ws_upd now (w\<lparr>w_Box := b\<rparr>) (ws_all db)) = upd_rows now (persisted False b) (ws_boxes db)"
proof -
  have t: "b_TenantID x = b_TenantID b" if "x \<in> set (ws_boxes db)" "b_ID x = b_ID b" for x
  proof -
    have "row (ws_boxes db) (b_ID b) = Some x" using that by (simp add: row_Some_iff [OF ws_boxes_distinct [OF assms(1)]])
    with ws_find_row(1) [OF assms] show ?thesis by auto
  qed
  have "w_Box (if b_TenantID (w_Box x) = b_TenantID b \<and> b_ID (w_Box x) = b_ID b then ws_overwrite now x (w\<lparr>w_Box := b\<rparr>) else x) =
      (if b_ID (w_Box x) = b_ID b then overwrite now (w_Box x) (persisted False b) else w_Box x)" if "x \<in> set (ws_all db)" for x
    using t [of "w_Box x"] that by (simp add: ws_boxes_def ws_overwrite_def)
  then show ?thesis by (simp add: ws_upd_def ws_boxes_def upd_rows_def)
qed

lemma ad_Get_cases:
  assumes "ws_wf db"
  shows "ad_Get (sqlite_store now) t i db =
    (case wd_fault db of Some e \<Rightarrow> Inl (mapErr e)
     | None \<Rightarrow> (case ws_find t i db of None \<Rightarrow> Inl ErrNotFound | Some w \<Rightarrow> Inr (w_Box w)), db)"
  using GetWorkspace_find [OF assms, of t i]
  by (cases "wd_fault db"; cases "ws_find t i db") (simp_all add: ad_Get_def sqlite_store_def ws_faulty mapErr_def)

lemma ad_List_cases:
  assumes "ws_wf db"
  shows "ad_List (sqlite_store now) t db =
    (case wd_fault db of Some e \<Rightarrow> Inl e | None \<Rightarrow> Inr (filter (\<lambda>b. t = [] \<or> b_TenantID b = t) (ws_boxes db)), db)"
proof (cases "wd_fault db")
  case (Some e)
  then show ?thesis by (simp add: ad_List_def sqlite_store_def ListAll_def ListWorkspaces_def ws_faulty)
next
  case None
  have "ws_list (\<lambda>r. True) db = (Inr (filter (\<lambda>w. True) (ws_all db)), db)"
    by (rule ws_list_rows [OF assms None]) simp
  moreover have "ws_list (\<lambda>r. wr_tenant_id r = t) db = (Inr (filter (\<lambda>w. b_TenantID (w_Box w) = t) (ws_all db)), db)"
    by (rule ws_list_rows [OF assms None]) (simp add: ws_wf_columns [OF assms])
  ultimately show ?thesis
    using None by (simp add: ad_List_def sqlite_store_def ListAll_def ListWorkspaces_def ws_boxes_def filter_map o_def)
qed

lemma ad_Update_rows:
  assumes "ws_wf db" "phase_ok (b_Phase b)" "ad_Update (sqlite_store now) b db = (r, b', db')"
  shows "ws_wf db' \<and> wd_fault db' = wd_fault db \<and> b' = b \<and>
    (is_ok r \<longleftrightarrow> wd_fault db = None \<and> ws_find (b_TenantID b) (b_ID b) db \<noteq> None) \<and>
    ws_boxes db' = (if is_ok r then upd_rows now (persisted False b) (ws_boxes db) else ws_boxes db)"
proof (cases "wd_fault db = None \<and> ws_find (b_TenantID b) (b_ID b) db \<noteq> None")
  case False
  then have "\<not> is_ok r \<and> b' = b \<and> db' = db"
    using assms(3) GetWorkspace_find [OF assms(1)]
    by (cases "wd_fault db") (auto simp: ad_Update_def sqlite_store_def ws_faulty)
  with assms(1) False show ?thesis by auto
next
  case True
  then obtain w where w: "ws_find (b_TenantID b) (b_ID b) db = Some w" by auto
  obtain ru wu dbu where u: "UpdateWorkspace now (w\<lparr>w_Box := b\<rparr>) db = (ru, wu, dbu)" using prod_cases3 by blast
  have r: "r = ru" "b' = b" "db' = dbu"
    using assms(3) GetWorkspace_find [OF assms(1)] True w u by (auto simp: ad_Update_def sqlite_store_def)
  have "phase_ok (b_Phase (w_Box (w\<lparr>w_Box := b\<rparr>)))" using assms(2) by simp
  from UpdateWorkspace_rows [OF assms(1) this u] True w ws_upd_boxes [OF assms(1) w] r
  show ?thesis by (auto simp: ws_boxes_def)
qed

lemma ad_Delete_rows:
  assumes "ws_wf db" "ad_Delete (sqlite_store now) t i db = (r, db')"
  shows "ws_wf db' \<and> wd_fault db' = wd_fault db \<and> (is_ok r \<longleftrightarrow> wd_fault db = None) \<and>
    ws_boxes db' = (if is_ok r \<and> ws_find t i db \<noteq> None then del_rows i (ws_boxes db) else ws_boxes db)"
proof -
  have d: "DeleteWorkspace t i db = (r, db')" using assms(2) by (simp add: ad_Delete_def sqlite_store_def)
  let ?P = "\<lambda>b. \<not> (b_TenantID b = t \<and> b_ID b = i)"
  have b: "map w_Box (filter (\<lambda>w. ?P (w_Box w)) (ws_all db)) = filter ?P (ws_boxes db)"
    by (simp add: ws_boxes_def filter_map o_def)
  have "filter ?P (ws_boxes db) = (if ws_find t i db \<noteq> None then del_rows i (ws_boxes db) else ws_boxes db)"
  proof (cases "ws_find t i db")
    case None
    then have "\<forall>b \<in> set (ws_boxes db). ?P b" by (auto simp: ws_find_def find_None_iff ws_boxes_def)
    with None show ?thesis by (simp add: filter_id_conv)
  next
    case (Some w)
    have "?P b \<longleftrightarrow> b_ID b \<noteq> i" if "b \<in> set (ws_boxes db)" for b
      using ws_find_row(1) [OF assms(1) Some] that row_Some_iff [OF ws_boxes_distinct [OF assms(1)], of i b] by auto
    then have "filter ?P (ws_boxes db) = del_rows i (ws_boxes db)" unfolding del_rows_def by (rule filter_cong [OF refl])
    with Some show ?thesis by simp
  qed
  with DeleteWorkspace_rows [OF assms(1) d] b show ?thesis by (auto simp: ws_boxes_def)
qed

lemma ad_Create_ok:
  assumes "ws_wf db" "wd_fault db = None" "row (ws_boxes db) (b_ID b) = None"
    "\<not> (\<exists>x \<in> set (ws_boxes db). same_tenant_name x b)"
  shows "\<exists>db'. ad_Create (sqlite_store now) b db = (Inr (), db') \<and> wd_fault db' = None"
proof -
  let ?w = "\<lparr> w_Box = b, w_Ingress = [], w_HomeMount = [], w_Endpoints = [] \<rparr>"
  have "\<not> ws_key_conflict (ws_insert_row ?w) r" if "r \<in> set (wd_rows db)" for r
  proof -
    have m: "w_Box (ws_scanned r) \<in> set (ws_boxes db)" using that by (auto simp: ws_boxes_def ws_all_def)
    then have "b_ID (w_Box (ws_scanned r)) \<noteq> b_ID b" using assms(3) unfolding row_None_iff by (metis image_eqI)
    with m assms(4) ws_wf_columns [OF assms(1) that] show ?thesis
      by (auto simp: ws_key_conflict_def ws_insert_row_def same_tenant_name_def Let_def)
  qed
  then show ?thesis using assms(2) by (auto simp: ad_Create_def sqlite_store_def CreateWorkspace_def list_ex_iff)
qed

interpretation wsbox: box_store "Adapter (sqlite_store now)" ws_boxes ws_wf False now "\<lambda>db. wd_fault db = None" same_tenant_name
proof (unfold_locales, goal_cases)
  case (1 s)
  then show ?case by (rule ws_boxes_distinct)
next
  case (2 s b)
  then show ?case using ws_wf_columns(5,6) by (auto simp: ws_boxes_def ws_all_def)
next
  case (3 t i s rb s')
  then show ?case
    by (cases "wd_fault s") (auto simp: Adapter_ops sqlite_store_def GetWorkspace_def ws_one_def split: option.splits sum.splits)
next
  case (4 s t i b s')
  then show ?case using ws_find_row(1) [OF 4(1)]
    by (auto simp: Adapter_def ad_Get_cases split: option.splits)
next
  case (5 t s rl s')
  then show ?case
    by (cases "wd_fault s") (auto simp: Adapter_ops sqlite_store_def ListAll_def ListWorkspaces_def ws_list_def split: if_splits sum.splits)
next
  case (6 s t bs s')
  then show ?case by (auto simp: Adapter_def ad_List_cases split: option.splits)
next
  case (7 s b r s')
  let ?w = "\<lparr> w_Box = b, w_Ingress = [], w_HomeMount = [], w_Endpoints = [] \<rparr>"
  have "CreateWorkspace ?w s = (r, s')" using 7(3) by (simp add: Adapter_ops sqlite_store_def)
  from CreateWorkspace_rows [OF 7(1) _ this] 7(2) show ?case by (simp add: ws_boxes_def ws_kept_def)
next
  case (8 s b r b' s')
  then show ?case using ad_Update_rows [of s b now r b' s'] by (simp add: Adapter_def)
next
  case (9 s t i r s')
  then show ?case using ad_Delete_rows [of s now t i r s'] by (simp add: Adapter_def split: if_splits)
next
  case (10 s b)
  then have "row (ws_boxes s) (b_ID b) = Some b" by (simp add: row_Some_iff [OF ws_boxes_distinct [OF 10(1)]])
  from ws_find_row(2) [OF 10(1) this] 10 show ?case by (auto simp: Adapter_def ad_Get_cases)
next
  case (11 s i t)
  then show ?case by (simp add: Adapter_def ad_Get_cases ws_find_None)
next
  case (12 s t)
  then show ?case by (simp add: Adapter_def ad_List_cases)
next
  case (13 s b x)
  obtain r b' s' where u: "ad_Update (sqlite_store now) b s = (r, b', s')" using prod_cases3 by blast
  from ws_find_row(2) [OF 13(1,4)] 13(5) have "ws_find (b_TenantID b) (b_ID b) s \<noteq> None" by auto
  with ad_Update_rows [OF 13(1,3) u] 13(2) u show ?case by (cases r) (auto simp: Adapter_def)
next
  case (14 s b)
  then show ?case using ad_Create_ok [of s b now] by (simp add: Adapter_def)
next
  case (15 s b)
  obtain r s' where d: "ad_Delete (sqlite_store now) (b_TenantID b) (b_ID b) s = (r, s')" by fastforce
  have "row (ws_boxes s) (b_ID b) = Some b" using 15 by (simp add: row_Some_iff [OF ws_boxes_distinct [OF 15(1)]])
  from ws_find_row(2) [OF 15(1) this] ad_Delete_rows [OF 15(1) d] 15(2) d show ?case
    by (cases r) (auto simp: Adapter_def)
qed

section \<open>The hooks\<close>

record hooks_config =
  hc_TrustedUserCA :: string
  hc_AuthorizedKeys :: string

record ('s, 'c) hooks =
  hk_store :: "'s workspace_store"
  hk_storage :: "'c storage_ops"
  hk_ingress :: "'c ingress_ops option"
  hk_cfg :: hooks_config

definition NewHooks :: "'s workspace_store \<Rightarrow> 'c storage_ops \<Rightarrow> 'c ingress_ops option \<Rightarrow> hooks_config \<Rightarrow> ('s, 'c) hooks" where
  "NewHooks s storage ingress cfg = \<lparr> hk_store = s, hk_storage = storage, hk_ingress = ingress, hk_cfg = cfg \<rparr>"

definition hook_env :: "hooks_config \<Rightarrow> mount \<Rightarrow> env" where
  "hook_env cfg mt =
     [(''HOPBOX_SSH_HOST_KEY'', path_Join [mt_Target mt, ''.hopbox'', ''ssh_host_ed25519_key''])] @
     (if hc_TrustedUserCA cfg \<noteq> [] then [(''HOPBOX_TRUSTED_USER_CA'', hc_TrustedUserCA cfg)] else []) @
     (if hc_AuthorizedKeys cfg \<noteq> [] then [(''HOPBOX_AUTHORIZED_KEYS'', hc_AuthorizedKeys cfg)] else [])"

definition PreProvision :: "('s, 'c) hooks \<Rightarrow> box \<Rightarrow> 's \<times> 'c \<Rightarrow> (mount list \<times> env) result \<times> 's \<times> 'c" where
  "PreProvision h b = (\<lambda>(s, c).
     case st_EnsureHome (hk_storage h)
         \<lparr> hr_WorkspaceID = b_ID b, hr_TenantID = b_TenantID b, hr_Owner = b_Owner b \<rparr> c of
       (Inl e, c1) \<Rightarrow> (Inl (Wrapf ''storage: '' e), s, c1)
     | (Inr mt, c1) \<Rightarrow>
         (case wsGet (hk_store h) (b_TenantID b) (b_ID b) s of
            (Inl e, s1) \<Rightarrow> (Inl e, s1, c1)
          | (Inr w, s1) \<Rightarrow>
              (case wsUpdate (hk_store h) (w\<lparr>w_HomeMount := mt_Source mt\<rparr>) s1 of
                 (Inl e, _, s2) \<Rightarrow> (Inl e, s2, c1)
               | (Inr _, _, s2) \<Rightarrow> (Inr ([mt], hook_env (hk_cfg h) mt), s2, c1))))"

text \<open>The loop of \<^verbatim>\<open>PostRunning\<close>: the set of names that already have an endpoint is computed once,
  before it.\<close>

fun expose_missing :: "'c ingress_ops \<Rightarrow> string \<Rightarrow> string \<Rightarrow> string list \<Rightarrow> ingress_port list \<Rightarrow> ws_endpoint list \<Rightarrow> bool \<Rightarrow>
    'c \<Rightarrow> (ws_endpoint list \<times> bool) result \<times> 'c" where
  "expose_missing ig i tenant known [] eps changed c = (Inr (eps, changed), c)"
| "expose_missing ig i tenant known (ip # ips) eps changed c =
     (if ip_Name ip \<in> set known then expose_missing ig i tenant known ips eps changed c
      else case ig_Expose ig \<lparr> er_WorkspaceID = i, er_Name = ip_Name ip, er_Port = ip_Port ip,
               er_Scheme = ''subdomain'', er_TenantID = tenant \<rparr> c of
        (Inl e, c') \<Rightarrow> (Inl (Wrapf (''ingress expose '' @ quoted (ip_Name ip) @ '': '') e), c')
      | (Inr ep, c') \<Rightarrow> expose_missing ig i tenant known ips
          (eps @ [\<lparr> we_Name = ep_Name ep, we_URL = ep_URL ep, we_Port = ep_Port ep, we_Ref = ep_Ref ep \<rparr>]) True c')"

definition PostRunning :: "('s, 'c) hooks \<Rightarrow> box \<Rightarrow> 's \<times> 'c \<Rightarrow> unit result \<times> 's \<times> 'c" where
  "PostRunning h b = (\<lambda>(s, c).
     case hk_ingress h of
       None \<Rightarrow> (Inr (), s, c)
     | Some ig \<Rightarrow>
         (case wsGet (hk_store h) (b_TenantID b) (b_ID b) s of
            (Inl e, s1) \<Rightarrow> (Inl e, s1, c)
          | (Inr w, s1) \<Rightarrow>
              if w_Ingress w = [] then (Inr (), s1, c)
              else (case expose_missing ig (b_ID (w_Box w)) (b_TenantID (w_Box w)) (map we_Name (w_Endpoints w))
                        (w_Ingress w) (w_Endpoints w) False c of
                 (Inl e, c1) \<Rightarrow> (Inl e, s1, c1)
               | (Inr (eps, changed), c1) \<Rightarrow>
                   if changed then
                     (let (r, _, s2) = wsUpdate (hk_store h) (w\<lparr>w_Endpoints := eps\<rparr>) s1 in (r, s2, c1))
                   else (Inr (), s1, c1))))"

definition PreDestroy :: "('s, 'c) hooks \<Rightarrow> box \<Rightarrow> 's \<times> 'c \<Rightarrow> unit result \<times> 's \<times> 'c" where
  "PreDestroy h b = (\<lambda>(s, c).
     case hk_ingress h of
       None \<Rightarrow> (Inr (), s, c)
     | Some ig \<Rightarrow>
         (case wsGet (hk_store h) (b_TenantID b) (b_ID b) s of
            (Inl _, s1) \<Rightarrow> (Inr (), s1, c)
          | (Inr w, s1) \<Rightarrow> (Inr (), s1, fold (\<lambda>e c. snd (ig_Unexpose ig (we_Ref e) c)) (w_Endpoints w) c)))"

definition box_hooks :: "('s, 'c) hooks \<Rightarrow> ('s, 'c) hooks_ops" where
  "box_hooks h = \<lparr> h_PreProvision = PreProvision h, h_PostRunning = PostRunning h, h_PreDestroy = PreDestroy h \<rparr>"

text \<open>A hook writes back the workspace it read with its home or its endpoints changed: no stored
  box changes but in its modification time.\<close>

lemma wsGet_sqlite:
  assumes "ws_wf db" "wsGet (sqlite_store now) t i db = (r, db')"
  shows "db' = db \<and> (\<forall>w. r = Inr w \<longrightarrow> ws_find t i db = Some w)"
  using assms GetWorkspace_find [OF assms(1), of t i]
  by (cases "wd_fault db"; cases "ws_find t i db") (auto simp: sqlite_store_def ws_faulty)

lemma rewrite_workspace:
  assumes "ws_wf db" "ws_find t i db = Some w" "w_Box w' = w_Box w"
    and "wsUpdate (sqlite_store now) w' db = (r, w'', db')"
  shows "ws_wf db' \<and> (\<forall>j. rel_option same_box (row (ws_boxes db) j) (row (ws_boxes db') j))"
proof -
  have u: "UpdateWorkspace now w' db = (r, w'', db')" using assms(4) by (simp add: sqlite_store_def)
  note f = ws_find_row(1) [OF assms(1,2)]
  have m: "w_Box w \<in> set (ws_boxes db)" using row_SomeD f by blast
  have ok: "phase_ok (b_Phase (w_Box w'))" "persisted False (w_Box w) = w_Box w"
    using wsbox.wf_row [OF assms(1) m] assms(3) by simp_all
  from UpdateWorkspace_rows [OF assms(1) ok(1) u]
  have r: "ws_wf db'" "ws_all db' = (if is_ok r then ws_upd now w' (ws_all db) else ws_all db)" by auto
  have f': "ws_find (b_TenantID (w_Box w)) (b_ID (w_Box w)) db = Some w" using f assms(2) by simp
  have "map w_Box (ws_upd now w' (ws_all db)) = map w_Box (ws_upd now (w\<lparr>w_Box := w_Box w\<rparr>) (ws_all db))"
    by (simp add: ws_upd_def ws_overwrite_def assms(3))
  then have b: "map w_Box (ws_upd now w' (ws_all db)) = upd_rows now (w_Box w) (ws_boxes db)"
    using ws_upd_boxes [OF assms(1) f', of now] ok(2) by simp
  have "overwrite now (w_Box w) (w_Box w) = (w_Box w)\<lparr>b_UpdatedAt := now\<rparr>" by (simp add: overwrite_def)
  then have "rel_option same_box (row (ws_boxes db) j) (row (upd_rows now (w_Box w) (ws_boxes db)) j)" for j
    using f by (auto simp: row_upd_rows)
  with r b show ?thesis by (simp add: ws_boxes_def)
qed

interpretation wsrec: reconcile_env "Adapter (sqlite_store now)" ws_boxes ws_wf False now
  "Some (box_hooks (NewHooks (sqlite_store now) storage ingress cfg))"
proof (unfold_locales, goal_cases)
  case (1 h s b c rp s' c')
  then have run: "PreProvision (NewHooks (sqlite_store now) storage ingress cfg) b (s, c) = (rp, s', c')"
    by (auto simp: box_hooks_def)
  obtain rg sg where g: "wsGet (sqlite_store now) (b_TenantID b) (b_ID b) s = (rg, sg)" by fastforce
  note gs = wsGet_sqlite [OF 1(2) g]
  from run g gs consider "s' = s"
    | w m ru wu where "rg = Inr w" "wsUpdate (sqlite_store now) (w\<lparr>w_HomeMount := m\<rparr>) s = (ru, wu, s')"
    by (auto simp: PreProvision_def NewHooks_def split: sum.splits prod.splits)
  then show ?case
  proof cases
    case 1
    with \<open>ws_wf s\<close> show ?thesis by simp
  next
    case (2 w m ru wu)
    have "w_Box (w\<lparr>w_HomeMount := m\<rparr>) = w_Box w" by simp
    with 2 gs rewrite_workspace [OF \<open>ws_wf s\<close>] show ?thesis by blast
  qed
next
  case (2 h s b c ru s' c')
  then have run: "PostRunning (NewHooks (sqlite_store now) storage ingress cfg) b (s, c) = (ru, s', c')"
    by (auto simp: box_hooks_def)
  obtain rg sg where g: "wsGet (sqlite_store now) (b_TenantID b) (b_ID b) s = (rg, sg)" by fastforce
  note gs = wsGet_sqlite [OF 2(2) g]
  from run g gs consider "s' = s"
    | w m ru wu where "rg = Inr w" "wsUpdate (sqlite_store now) (w\<lparr>w_Endpoints := m\<rparr>) s = (ru, wu, s')"
    by (auto simp: PostRunning_def NewHooks_def split: sum.splits prod.splits option.splits if_splits)
  then show ?case
  proof cases
    case 1
    with \<open>ws_wf s\<close> show ?thesis by simp
  next
    case (2 w m ru wu)
    have "w_Box (w\<lparr>w_Endpoints := m\<rparr>) = w_Box w" by simp
    with 2 gs rewrite_workspace [OF \<open>ws_wf s\<close>] show ?thesis by blast
  qed
next
  case (3 h s b c ru s' c')
  then have run: "PreDestroy (NewHooks (sqlite_store now) storage ingress cfg) b (s, c) = (ru, s', c')"
    by (auto simp: box_hooks_def)
  obtain rg sg where g: "wsGet (sqlite_store now) (b_TenantID b) (b_ID b) s = (rg, sg)" by fastforce
  with run wsGet_sqlite [OF 3(2) g] have "s' = s"
    by (auto simp: PreDestroy_def NewHooks_def split: sum.splits prod.splits option.splits)
  with 3(2) show ?case by simp
qed

section \<open>Properties\<close>

definition demo_ws :: "box \<Rightarrow> ws_db" where
  "demo_ws b = \<lparr> wd_rows = [ws_insert_row \<lparr> w_Box = b, w_Ingress = [], w_HomeMount = [], w_Endpoints = [] \<rparr>],
     wd_fault = None, wd_conflict = Errorf ''UNIQUE constraint failed'' \<rparr>"

lemma demo_ws_simps:
  assumes "phase_ok (b_Phase b)" "persisted False b = b"
  shows "ws_wf (demo_ws b)" "ws_boxes (demo_ws b) = [b]" "wd_fault (demo_ws b) = None"
  using assms by (simp_all add: demo_ws_def ws_wf_def ws_boxes_def ws_all_def ws_scanned_def ws_scan_insert_row ws_kept_def)

text \<open>The workspace store gives back what was written: an update through the box adapter that
  succeeds is read back with every field of the box but the modification time and the two status
  fields the in-box agent reports, which the workspace table has no column for; the home mount and
  the endpoints of the workspace survive.\<close>

theorem adapter_update_roundtrip:
  assumes "ws_wf db" "phase_ok (b_Phase b)" "ad_Update (sqlite_store now) b db = (Inr (), b', db')"
    and "ws_find (b_TenantID b) (b_ID b) db = Some w" "box_identity (w_Box w) = box_identity b"
      "b_CreatedAt (w_Box w) = b_CreatedAt b"
  shows "wsGet (sqlite_store now) (b_TenantID b) (b_ID b) db' =
    (Inr (w\<lparr>w_Box := b\<lparr>b_UpdatedAt := now, b_AgentState := [], b_AgentStatus := []\<rparr>\<rparr>), db')"
proof -
  obtain ru wu dbu where u: "UpdateWorkspace now (w\<lparr>w_Box := b\<rparr>) db = (ru, wu, dbu)" using prod_cases3 by blast
  from ad_Update_rows [OF assms(1,2,3)] have f: "wd_fault db = None" "wd_fault db' = None" "ws_wf db'" by auto
  have r: "ru = Inr ()" "dbu = db'"
    using assms(3,4) GetWorkspace_find [OF assms(1)] f(1) u by (auto simp: ad_Update_def sqlite_store_def)
  have ok: "phase_ok (b_Phase (w_Box (w\<lparr>w_Box := b\<rparr>)))" using assms(2) by simp
  from UpdateWorkspace_rows [OF assms(1) ok u] r have a: "ws_all db' = ws_upd now (w\<lparr>w_Box := b\<rparr>) (ws_all db)" by simp
  have o: "ws_overwrite now w (w\<lparr>w_Box := b\<rparr>) = w\<lparr>w_Box := b\<lparr>b_UpdatedAt := now, b_AgentState := [], b_AgentStatus := []\<rparr>\<rparr>"
    using assms(5,6) by (simp add: ws_overwrite_def overwrite_def persisted_def box_identity_def)
  have "ws_find (b_TenantID b) (b_ID b) db' = Some (ws_overwrite now w (w\<lparr>w_Box := b\<rparr>))"
    unfolding ws_find_def a ws_upd_def
    using find_map_key [of "ws_all db" "\<lambda>x. b_TenantID (w_Box x) = b_TenantID b \<and> b_ID (w_Box x) = b_ID b"
        "\<lambda>x. if b_TenantID (w_Box x) = b_TenantID (w_Box (w\<lparr>w_Box := b\<rparr>)) \<and> b_ID (w_Box x) = b_ID (w_Box (w\<lparr>w_Box := b\<rparr>))
          then ws_overwrite now x (w\<lparr>w_Box := b\<rparr>) else x"]
      assms(4) ws_findD [OF assms(4)] by (simp add: ws_find_def ws_overwrite_def)
  with GetWorkspace_find [OF f(3,2)] show ?thesis unfolding o by (simp add: sqlite_store_def)
qed

theorem adapter_update_roundtrip_witness:
  "\<exists>b db'. ad_Update (sqlite_store 9) (zero_box\<lparr>b_ID := ''w1'', b_Phase := PhaseRunning, b_Attached := True, b_AgentState := ''working''\<rparr>)
      (demo_ws (zero_box\<lparr>b_ID := ''w1'', b_Phase := PhasePending\<rparr>)) = (Inr (), b, db') \<and>
    wsGet (sqlite_store 9) [] ''w1'' db' = (Inr \<lparr> w_Box = zero_box\<lparr>b_ID := ''w1'', b_Phase := PhaseRunning, b_Attached := True, b_UpdatedAt := 9\<rparr>,
      w_Ingress = [], w_HomeMount = [], w_Endpoints = [] \<rparr>, db')"
proof -
  let ?x = "zero_box\<lparr>b_ID := ''w1'', b_Phase := PhasePending\<rparr>"
  let ?b = "zero_box\<lparr>b_ID := ''w1'', b_Phase := PhaseRunning, b_Attached := True, b_AgentState := ''working''\<rparr>"
  let ?w = "\<lparr> w_Box = ?x, w_Ingress = [], w_HomeMount = [], w_Endpoints = [] \<rparr>"
  have x: "phase_ok (b_Phase ?x)" "persisted False ?x = ?x" "phase_ok (b_Phase ?b)"
    by (simp_all add: known_phase_ok known_phase_def persisted_def zero_box_def)
  have all: "ws_all (demo_ws ?x) = [?w]"
    using x(1,2) ws_scan_insert_row [of ?w] by (simp add: demo_ws_def ws_all_def ws_scanned_def ws_kept_def)
  have f: "ws_find (b_TenantID ?b) (b_ID ?b) (demo_ws ?x) = Some ?w"
    unfolding ws_find_def all by (simp add: zero_box_def)
  obtain r b' db' where u: "ad_Update (sqlite_store 9) ?b (demo_ws ?x) = (r, b', db')" using prod_cases3 by blast
  from ad_Update_rows [OF demo_ws_simps(1) [OF x(1,2)] x(3) u] f demo_ws_simps(3) [OF x(1,2)] have "is_ok r" by simp
  then have r: "r = Inr ()" by (simp add: is_ok_iff)
  from adapter_update_roundtrip [OF demo_ws_simps(1) [OF x(1,2)] x(3) u [unfolded r] f] u r show ?thesis
    by (simp add: box_identity_def zero_box_def)
qed

text \<open>Under the dev-env the name of a box is unique per tenant, not per owner: creating a box
  whose name another owner of the tenant uses fails, whatever its identifier.\<close>

theorem adapter_name_taken:
  assumes "ws_wf db" "wd_fault db = None" "x \<in> set (ws_boxes db)" "b_TenantID x = b_TenantID b" "b_Name x = b_Name b"
  shows "sCreate (Adapter (sqlite_store now)) b db = (Inl (wd_conflict db), db)"
proof -
  obtain r where r: "r \<in> set (wd_rows db)" "x = w_Box (ws_scanned r)"
    using assms(3) by (auto simp: ws_boxes_def ws_all_def)
  have "ws_key_conflict (ws_insert_row \<lparr> w_Box = b, w_Ingress = [], w_HomeMount = [], w_Endpoints = [] \<rparr>) r"
    using ws_wf_columns(2,4) [OF assms(1) r(1)] assms(4,5) r(2)
    by (simp add: ws_key_conflict_def ws_insert_row_def Let_def)
  with r(1) assms(2) show ?thesis
    by (auto simp: Adapter_def ad_Create_def sqlite_store_def CreateWorkspace_def list_ex_iff)
qed

theorem adapter_name_taken_witness:
  "fst (sCreate (Adapter (sqlite_store 9)) (zero_box\<lparr>b_ID := ''w2'', b_Owner := ''bob'', b_Name := ''web'', b_Phase := PhasePending\<rparr>)
     (demo_ws (zero_box\<lparr>b_ID := ''w1'', b_Owner := ''alice'', b_Name := ''web'', b_Phase := PhasePending\<rparr>))) =
   Inl (Errorf ''UNIQUE constraint failed'')"
proof -
  let ?x = "zero_box\<lparr>b_ID := ''w1'', b_Owner := ''alice'', b_Name := ''web'', b_Phase := PhasePending\<rparr>"
  have x: "phase_ok (b_Phase ?x)" "persisted False ?x = ?x"
    by (simp_all add: known_phase_ok known_phase_def persisted_def zero_box_def)
  have m: "?x \<in> set (ws_boxes (demo_ws ?x))" unfolding demo_ws_simps(2) [OF x] by simp
  let ?b = "zero_box\<lparr>b_ID := ''w2'', b_Owner := ''bob'', b_Name := ''web'', b_Phase := PhasePending\<rparr>"
  have "sCreate (Adapter (sqlite_store 9)) ?b (demo_ws ?x) = (Inl (wd_conflict (demo_ws ?x)), demo_ws ?x)"
    by (rule adapter_name_taken [OF demo_ws_simps(1,3) [OF x] m]) simp_all
  moreover have "wd_conflict (demo_ws ?x) = Errorf ''UNIQUE constraint failed''" by (simp add: demo_ws_def)
  ultimately show ?thesis by (simp only: fst_conv)
qed

end
