(* ===== verification/Json.thy ===== *)
theory Json
  imports Prelude
begin

text \<open>
  The part of \<^verbatim>\<open>encoding/json\<close> that the programs use: the text of a value as \<^verbatim>\<open>Marshal\<close> writes it and
  the reader behind \<^verbatim>\<open>Unmarshal\<close> and \<^verbatim>\<open>Decoder\<close>, on byte strings. A string is escaped and read by
  UTF-8 sequences, a byte that begins none becomes the replacement character. The reader takes fuel, twice
  the length of its input and one more: \<open>json_fuel_enough\<close> shows that more changes nothing, \<open>json_read_show\<close> that it
  reads back what was written.
\<close>

section \<open>UTF-8\<close>

definition byte_in :: "nat \<Rightarrow> nat \<Rightarrow> string \<Rightarrow> nat \<Rightarrow> bool" where
  "byte_in lo hi s k \<longleftrightarrow> k < length s \<and> lo \<le> (of_char (s ! k) :: nat) \<and> (of_char (s ! k) :: nat) \<le> hi"

text \<open>Whether a text begins with a sequence of two, three and four bytes, and the length of the sequence at
  its head, 0 when there is none.\<close>

definition rune2 :: "string \<Rightarrow> bool" where
  "rune2 s \<longleftrightarrow> byte_in 194 223 s 0 \<and> byte_in 128 191 s 1"

definition rune3 :: "string \<Rightarrow> bool" where
  "rune3 s \<longleftrightarrow> (byte_in 224 224 s 0 \<and> byte_in 160 191 s 1 \<or> byte_in 225 236 s 0 \<and> byte_in 128 191 s 1 \<or>
     byte_in 237 237 s 0 \<and> byte_in 128 159 s 1 \<or> byte_in 238 239 s 0 \<and> byte_in 128 191 s 1) \<and> byte_in 128 191 s 2"

definition rune4 :: "string \<Rightarrow> bool" where
  "rune4 s \<longleftrightarrow> (byte_in 240 240 s 0 \<and> byte_in 144 191 s 1 \<or> byte_in 241 243 s 0 \<and> byte_in 128 191 s 1 \<or>
     byte_in 244 244 s 0 \<and> byte_in 128 143 s 1) \<and> byte_in 128 191 s 2 \<and> byte_in 128 191 s 3"

definition rune_len :: "string \<Rightarrow> nat" where
  "rune_len s = (if byte_in 0 127 s 0 then 1 else if rune2 s then 2 else if rune3 s then 3 else if rune4 s then 4 else 0)"

lemma rune_len_Nil [simp]: "rune_len [] = 0"
  by (simp add: rune_len_def byte_in_def rune2_def rune3_def rune4_def)

lemma rune_length: "byte_in lo hi s k \<Longrightarrow> k < length s"
  by (simp add: byte_in_def)

lemma rune_len_bound: "rune_len s \<le> length s"
proof -
  have "rune2 s \<Longrightarrow> 1 < length s" "rune3 s \<Longrightarrow> 2 < length s" "rune4 s \<Longrightarrow> 3 < length s" "byte_in 0 127 s 0 \<Longrightarrow> 0 < length s"
    unfolding rune2_def rune3_def rune4_def by (blast dest: rune_length)+
  then show ?thesis by (auto simp: rune_len_def Suc_le_eq)
qed

lemma rune_len_ascii_iff: "rune_len (c # s) = Suc 0 \<longleftrightarrow> (of_char c :: nat) < 128"
  by (auto simp: rune_len_def byte_in_def)

lemma byte_in_take:
  assumes "k < n" "n \<le> length s"
  shows "byte_in lo hi (take n s @ t) k \<longleftrightarrow> byte_in lo hi s k"
  using assms by (auto simp: byte_in_def nth_append)

text \<open>The head sequence does not depend on what follows it.\<close>

lemma rune_len_take:
  assumes "rune_len s = n" "n \<noteq> 0"
  shows "rune_len (take n s @ t) = n"
proof -
  have n: "n \<le> length s" using rune_len_bound assms(1) by metis
  note bt = byte_in_take [OF _ n, of _ _ _ t]
  have "byte_in lo hi (take n s @ t) 0 \<longleftrightarrow> byte_in lo hi s 0" for lo hi using assms(2) by (simp add: bt)
  moreover have "2 \<le> n \<Longrightarrow> rune2 (take n s @ t) \<longleftrightarrow> rune2 s" by (simp add: rune2_def bt)
  moreover have "3 \<le> n \<Longrightarrow> rune3 (take n s @ t) \<longleftrightarrow> rune3 s" by (simp add: rune3_def bt)
  moreover have "4 \<le> n \<Longrightarrow> rune4 (take n s @ t) \<longleftrightarrow> rune4 s" by (simp add: rune4_def bt)
  ultimately show ?thesis using assms by (auto simp: rune_len_def split: if_splits)
qed

lemma rune_len_high: "rune_len (c # s) = n \<Longrightarrow> n \<noteq> 0 \<Longrightarrow> n \<noteq> Suc 0 \<Longrightarrow> 128 \<le> (of_char c :: nat)"
  using rune_len_ascii_iff [of c s] by (auto simp: not_less)

function valid_utf8 :: "string \<Rightarrow> bool" where
  "valid_utf8 s = (if s = [] then True else if rune_len s = 0 then False else valid_utf8 (drop (rune_len s) s))"
  by pat_completeness auto

termination
proof (relation "measure length")
  fix s :: string assume "s \<noteq> []" "rune_len s \<noteq> 0"
  then show "(drop (rune_len s) s, s) \<in> measure length" by (cases s) simp_all
qed simp

declare valid_utf8.simps [simp del]

lemma valid_utf8_Nil [simp]: "valid_utf8 []"
  by (simp add: valid_utf8.simps)

lemma valid_utf8_Cons_ascii [simp]: "(of_char c :: nat) < 128 \<Longrightarrow> valid_utf8 (c # s) \<longleftrightarrow> valid_utf8 s"
  by (simp add: valid_utf8.simps [of "c # s"] rune_len_ascii_iff [THEN iffD2])

lemma valid_utf8_ascii: "\<forall>c \<in> set s. (of_char c :: nat) < 128 \<Longrightarrow> valid_utf8 s"
  by (induction s) simp_all

text \<open>The bytes of a code point.\<close>

definition utf8_encode :: "nat \<Rightarrow> string" where
  "utf8_encode v = map char_of
     (if v < 128 then [v]
      else if v < 2048 then [192 + v div 64, 128 + v mod 64]
      else if v < 65536 then [224 + v div 4096, 128 + v div 64 mod 64, 128 + v mod 64]
      else [240 + v div 262144, 128 + v div 4096 mod 64, 128 + v div 64 mod 64, 128 + v mod 64])"

definition rune_error :: string where
  "rune_error = utf8_encode 65533"

text \<open>What is left of a text on its way through a string literal: every byte that begins no sequence is
  replaced.\<close>

function to_valid :: "string \<Rightarrow> string" where
  "to_valid [] = []"
| "to_valid (c # cs) =
     (let n = rune_len (c # cs) in
      if n = 0 then rune_error @ to_valid cs else take n (c # cs) @ to_valid (drop n (c # cs)))"
  by pat_completeness auto

termination
  by (relation "measure length") auto

declare to_valid.simps(2) [simp del]

lemma to_valid_id: "valid_utf8 s \<Longrightarrow> to_valid s = s"
proof (induction s rule: to_valid.induct)
  case (2 c cs)
  let ?n = "rune_len (c # cs)"
  have "?n \<noteq> 0" "valid_utf8 (drop ?n (c # cs))" using "2.prems" by (simp_all add: valid_utf8.simps [of "c # cs"] split: if_splits)
  with "2.IH"(2) [OF refl this] show ?case by (simp add: to_valid.simps(2) Let_def append_take_drop_id)
qed simp

section \<open>Strings\<close>

definition json_escape_char :: "char \<Rightarrow> string" where
  "json_escape_char c =
     (let n = (of_char c :: nat) in
      if c = CHR 0x22 \<or> c = CHR 0x5C then [CHR 0x5C, c]
      else if n = 8 then [CHR 0x5C, CHR ''b''] else if n = 12 then [CHR 0x5C, CHR ''f'']
      else if n = 10 then [CHR 0x5C, CHR ''n''] else if n = 13 then [CHR 0x5C, CHR ''r'']
      else if n = 9 then [CHR 0x5C, CHR ''t'']
      else if n < 32 \<or> c = CHR ''<'' \<or> c = CHR ''>'' \<or> c = CHR ''&''
      then [CHR 0x5C] @ ''u00'' @ [hex_char (n div 16), hex_char (n mod 16)]
      else [c])"

text \<open>The line and paragraph separators are escaped too.\<close>

definition line_sep :: "char \<Rightarrow> string" where
  "line_sep c = [CHR 0xE2, CHR 0x80, c]"

function json_escape :: "string \<Rightarrow> string" where
  "json_escape [] = []"
| "json_escape (c # cs) =
     (let s = c # cs; n = rune_len s in
      if n = 0 then [CHR 0x5C] @ ''ufffd'' @ json_escape cs
      else if n = 1 then json_escape_char c @ json_escape cs
      else (if take n s = line_sep (CHR 0xA8) then [CHR 0x5C] @ ''u2028''
            else if take n s = line_sep (CHR 0xA9) then [CHR 0x5C] @ ''u2029'' else take n s) @ json_escape (drop n s))"
  by pat_completeness auto

termination
  by (relation "measure length") auto

declare json_escape.simps(2) [simp del]

definition json_string :: "string \<Rightarrow> string" where
  "json_string s = CHR 0x22 # json_escape s @ [CHR 0x22]"

definition hex_val :: "char \<Rightarrow> nat option" where
  "hex_val c =
     (let n = (of_char c :: nat) in
      if 48 \<le> n \<and> n \<le> 57 then Some (n - 48) else if 97 \<le> n \<and> n \<le> 102 then Some (n - 87)
      else if 65 \<le> n \<and> n \<le> 70 then Some (n - 55) else None)"

fun hex4 :: "string \<Rightarrow> nat option" where
  "hex4 (a # b # c # d # _) =
     (case (hex_val a, hex_val b, hex_val c, hex_val d) of
        (Some w, Some x, Some y, Some z) \<Rightarrow> Some (((w * 16 + x) * 16 + y) * 16 + z)
      | _ \<Rightarrow> None)"
| "hex4 _ = None"

text \<open>The second half of a surrogate pair at the head of a text.\<close>

definition low_half :: "string \<Rightarrow> nat option" where
  "low_half r =
     (if take 2 r = [CHR 0x5C, CHR ''u''] then
        (case hex4 (drop 2 r) of Some w \<Rightarrow> if 56320 \<le> w \<and> w < 57344 then Some w else None | None \<Rightarrow> None)
      else None)"

definition unescape :: "string \<Rightarrow> (string \<times> string) option" where
  "unescape s =
     (case s of
        [] \<Rightarrow> None
      | e # es \<Rightarrow>
          if e = CHR 0x22 \<or> e = CHR 0x5C \<or> e = CHR ''/'' then Some ([e], es)
          else if e = CHR ''b'' then Some ([CHR 0x08], es) else if e = CHR ''f'' then Some ([CHR 0x0C], es)
          else if e = CHR ''n'' then Some ([CHR 0x0A], es) else if e = CHR ''r'' then Some ([CHR 0x0D], es)
          else if e = CHR ''t'' then Some ([CHR 0x09], es)
          else if e = CHR ''u'' then
            (case hex4 es of
               None \<Rightarrow> None
             | Some v \<Rightarrow>
                 if 55296 \<le> v \<and> v < 57344 then
                   (case (v < 56320, low_half (drop 4 es)) of
                      (True, Some w) \<Rightarrow> Some (utf8_encode (65536 + (v - 55296) * 1024 + (w - 56320)), drop 10 es)
                    | _ \<Rightarrow> Some (rune_error, drop 4 es))
                 else Some (utf8_encode v, drop 4 es))
          else None)"

text \<open>One character of a string literal: its bytes and the rest.\<close>

definition json_char :: "string \<Rightarrow> (string \<times> string) option" where
  "json_char s =
     (case s of
        [] \<Rightarrow> None
      | c # cs \<Rightarrow>
          if c = CHR 0x5C then unescape cs
          else if (of_char c :: nat) < 32 then None
          else if rune_len s = 0 then Some (rune_error, cs)
          else Some (take (rune_len s) s, drop (rune_len s) s))"

lemma hex4_length: "hex4 s = Some v \<Longrightarrow> 4 \<le> length s"
  by (cases s rule: hex4.cases) auto

lemma json_char_shrinks: "json_char s = Some (d, r) \<Longrightarrow> length r < length s"
  using hex4_length by (auto simp: json_char_def unescape_def split: list.splits if_splits option.splits bool.splits)

function unquote :: "string \<Rightarrow> (string \<times> string) option" where
  "unquote s =
     (if s \<noteq> [] \<and> hd s = CHR 0x22 then Some ([], tl s)
      else case json_char s of
        None \<Rightarrow> None
      | Some (d, r) \<Rightarrow> (case unquote r of None \<Rightarrow> None | Some (t, r') \<Rightarrow> Some (d @ t, r')))"
  by pat_completeness auto

termination
  by (relation "measure length") (auto dest: json_char_shrinks)

declare unquote.simps [simp del]

lemma unquote_shrinks: "unquote s = Some (t, r) \<Longrightarrow> length r < length s"
proof (induction s arbitrary: t r rule: unquote.induct)
  case (1 s)
  show ?case
  proof (cases "s \<noteq> [] \<and> hd s = CHR 0x22")
    case True
    with "1.prems" show ?thesis by (auto simp: unquote.simps [of s])
  next
    case False
    with "1.prems" obtain d r1 t1 where "json_char s = Some (d, r1)" "unquote r1 = Some (t1, r)"
      by (auto simp: unquote.simps [of s] split: option.splits)
    with "1.IH" [OF False] json_char_shrinks show ?thesis by fastforce
  qed
qed


text \<open>A character is read back from what it is written as, and so is a text of well-formed sequences.\<close>

lemma hex_val_char: "d < 16 \<Longrightarrow> hex_val (hex_char d) = Some d"
  by (simp add: hex_val_def of_char_hex Let_def)

lemma utf8_encode_ascii: "(of_char c :: nat) < 128 \<Longrightarrow> utf8_encode (of_char c) = [c]"
  by (simp add: utf8_encode_def)

lemma unescape_hex:
  assumes "(of_char c :: nat) < 128"
  shows "unescape (''u00'' @ [hex_char (of_char c div 16), hex_char (of_char c mod 16)] @ r) = Some ([c], r)"
proof -
  have d: "(of_char c :: nat) div 16 < 16" using assms by simp
  have z: "hex_val (CHR ''0'') = Some 0" by (simp add: hex_val_def Let_def)
  have "hex4 (CHR ''0'' # CHR ''0'' # hex_char (of_char c div 16) # hex_char (of_char c mod 16) # r) = Some (of_char c)"
    using d by (simp add: hex_val_char z)
  with assms show ?thesis by (simp add: unescape_def utf8_encode_ascii)
qed

lemma json_char_escape:
  assumes "(of_char c :: nat) < 128"
  shows "json_char (json_escape_char c @ r) = Some ([c], r)"
proof -
  let ?n = "of_char c :: nat"
  have ctl: "?n = 8 \<Longrightarrow> c = CHR 0x08" "?n = 12 \<Longrightarrow> c = CHR 0x0C" "?n = 10 \<Longrightarrow> c = CHR 0x0A" "?n = 13 \<Longrightarrow> c = CHR 0x0D" "?n = 9 \<Longrightarrow> c = CHR 0x09"
    using char_of_char [where 'a = nat, of c] by (auto simp: char_of_def bit_0)
  have b: "json_char (CHR 0x5C # x) = unescape x" for x by (simp add: json_char_def)
  consider "c = CHR 0x22 \<or> c = CHR 0x5C" | "?n = 8" | "?n = 12" | "?n = 10" | "?n = 13" | "?n = 9"
    | "c \<noteq> CHR 0x22" "c \<noteq> CHR 0x5C" "?n \<noteq> 8" "?n \<noteq> 12" "?n \<noteq> 10" "?n \<noteq> 13" "?n \<noteq> 9" "?n < 32 \<or> c = CHR ''<'' \<or> c = CHR ''>'' \<or> c = CHR ''&''"
    | "c \<noteq> CHR 0x22" "c \<noteq> CHR 0x5C" "\<not> (?n < 32 \<or> c = CHR ''<'' \<or> c = CHR ''>'' \<or> c = CHR ''&'')"
    by blast
  then show ?thesis
  proof cases
    case 7
    then have "json_escape_char c = CHR 0x5C # ''u00'' @ [hex_char (?n div 16), hex_char (?n mod 16)]"
      unfolding json_escape_char_def Let_def by simp
    with unescape_hex [OF assms, of r] show ?thesis by (simp add: b)
  next
    case 8
    then have "json_escape_char c = [c]" unfolding json_escape_char_def Let_def by simp
    with 8 assms rune_len_ascii_iff [of c r] show ?thesis by (simp add: json_char_def)
  qed (auto simp: json_escape_char_def b unescape_def dest!: ctl)
qed

lemma unquote_step:
  assumes "json_char (x @ r) = Some (d, r)" "x \<noteq> []" "hd x \<noteq> CHR 0x22"
  shows "unquote (x @ r) = map_option (apfst (append d)) (unquote r)"
  using assms by (auto simp: unquote.simps [of "x @ r"] split: option.split prod.split)

lemma json_char_seq:
  assumes "rune_len s = n" "1 < n"
  shows "json_char (take n s @ r) = Some (take n s, r)" "take n s \<noteq> []" "hd (take n s) \<noteq> CHR 0x22"
proof -
  obtain c cs where s: "s = c # cs" using assms by (cases s) auto
  have h: "128 \<le> (of_char c :: nat)" using rune_len_high [of c cs n] assms s by simp
  then have c: "c \<noteq> CHR 0x5C" "c \<noteq> CHR 0x22" by auto
  have n: "rune_len (take n s @ r) = n" "length (take n s) = n"
    using rune_len_take [OF assms(1)] rune_len_bound [of s] assms by auto
  then have "take n (take n s @ r) = take n s" "drop n (take n s @ r) = r" by simp_all
  moreover have "take n s @ r = c # take (n - 1) cs @ r" using s assms(2) by (cases n) simp_all
  ultimately show "json_char (take n s @ r) = Some (take n s, r)"
    using c h n(1) assms(2) by (auto simp: json_char_def)
  show "take n s \<noteq> []" "hd (take n s) \<noteq> CHR 0x22" using s c assms(2) by (auto simp: hd_append take_Cons' split: if_splits)
qed

lemma json_char_sep:
  "json_char (CHR 0x5C # ''u2028'' @ r) = Some (line_sep (CHR 0xA8), r)"
  "json_char (CHR 0x5C # ''u2029'' @ r) = Some (line_sep (CHR 0xA9), r)"
  by (simp_all add: json_char_def unescape_def hex_val_def utf8_encode_def line_sep_def Let_def char_of_def bit_0)

lemma json_escape_char_head: "json_escape_char c \<noteq> []" "hd (json_escape_char c) \<noteq> CHR 0x22"
  by (auto simp: json_escape_char_def Let_def)

lemma json_char_error: "json_char (CHR 0x5C # ''ufffd'' @ r) = Some (rune_error, r)"
  by (simp add: json_char_def unescape_def hex_val_def rune_error_def Let_def)

text \<open>What is read from the literal of a text.\<close>

lemma unquote_escape: "unquote (json_escape s @ CHR 0x22 # r) = Some (to_valid s, r)"
proof (induction s rule: json_escape.induct)
  case 1
  show ?case by (simp add: unquote.simps [of "CHR 0x22 # r"])
next
  case (2 c cs)
  let ?s = "c # cs" and ?n = "rune_len (c # cs)"
  consider "?n = 0" | "?n = 1" | "1 < ?n" by linarith
  then show ?case
  proof cases
    case 1
    then have "json_escape ?s = (CHR 0x5C # ''ufffd'') @ json_escape cs" by (simp add: json_escape.simps(2) Let_def)
    with unquote_step [of "CHR 0x5C # ''ufffd''" "json_escape cs @ CHR 0x22 # r" rune_error] json_char_error [of "json_escape cs @ CHR 0x22 # r"]
      "2.IH"(1) [OF refl refl 1] 1 show ?thesis by (simp add: to_valid.simps(2))
  next
    case n: 2
    then have a: "(of_char c :: nat) < 128" using rune_len_ascii_iff [of c cs] by simp
    have "json_escape ?s = json_escape_char c @ json_escape cs" using n by (simp add: json_escape.simps(2) Let_def)
    with unquote_step [OF json_char_escape [OF a] json_escape_char_head, of "json_escape cs @ CHR 0x22 # r"]
      "2.IH"(2) [OF refl refl] n show ?thesis by (simp add: to_valid.simps(2))
  next
    case 3
    let ?x = "if take ?n ?s = line_sep (CHR 0xA8) then CHR 0x5C # ''u2028''
            else if take ?n ?s = line_sep (CHR 0xA9) then CHR 0x5C # ''u2029'' else take ?n ?s"
    have e: "json_escape ?s = ?x @ json_escape (drop ?n ?s)" using 3 by (simp add: json_escape.simps(2) Let_def)
    have x: "json_char (?x @ y) = Some (take ?n ?s, y)" "?x \<noteq> []" "hd ?x \<noteq> CHR 0x22" for y
      using json_char_seq [of ?s ?n] json_char_sep [of y] 3 by auto
    have "?n \<noteq> 0" "?n \<noteq> 1" using 3 by simp_all
    with unquote_step [OF x, of "json_escape (drop ?n ?s) @ CHR 0x22 # r"] "2.IH"(3) [OF refl refl] e show ?thesis
      by (simp add: to_valid.simps(2) [of c cs] Let_def)
  qed
qed

lemma json_escape_ascii: "(of_char c :: nat) < 128 \<Longrightarrow> json_escape (c # cs) = json_escape_char c @ json_escape cs"
  by (simp add: json_escape.simps(2) rune_len_ascii_iff [THEN iffD2] Let_def)

lemma json_escape_char_length: "length (json_escape_char c) \<le> 6"
  by (simp add: json_escape_char_def Let_def)

lemma json_escape_length: "length (json_escape s) \<le> 6 * length s"
proof (induction s rule: json_escape.induct)
  case (2 c cs)
  let ?s = "c # cs" and ?n = "rune_len (c # cs)"
  consider "?n = 0" | "?n = 1" | "1 < ?n" by linarith
  then show ?case
  proof cases
    case 1
    with "2.IH"(1) [OF refl refl] show ?thesis by (simp add: json_escape.simps(2) Let_def)
  next
    case n: 2
    with "2.IH"(2) [OF refl refl] json_escape_char_length [of c] show ?thesis by (simp add: json_escape.simps(2) Let_def)
  next
    case 3
    have "?n \<noteq> 0" "?n \<noteq> 1" using 3 by simp_all
    from "2.IH"(3) [OF refl refl this] have ih: "length (json_escape (drop ?n ?s)) \<le> 6 * (length ?s - ?n)" by simp
    with 3 rune_len_bound [of ?s] show ?thesis by (auto simp: json_escape.simps(2) Let_def)
  qed
qed simp

section \<open>Values\<close>

datatype json = JNull | JBool bool | JNum string | JStr string | JArr "json list" | JObj "(string \<times> json) list"

definition json_ws :: "string \<Rightarrow> string" where
  "json_ws s = dropWhile (\<lambda>c. c = CHR '' '' \<or> c = CHR 0x09 \<or> c = CHR 0x0A \<or> c = CHR 0x0D) s"

lemma json_ws_length: "length (json_ws s) \<le> length s"
  by (simp add: json_ws_def length_dropWhile_le)

definition digits_rest :: "string \<Rightarrow> (string \<times> string) option" where
  "digits_rest s = (let d = takeWhile is_digit s in if d = [] then None else Some (d, dropWhile is_digit s))"

text \<open>The optional fraction and exponent of a number.\<close>

definition json_fraction :: "string \<Rightarrow> (string \<times> string) option" where
  "json_fraction s =
     (if s \<noteq> [] \<and> hd s = CHR ''.'' then map_option (apfst (Cons (CHR ''.''))) (digits_rest (tl s)) else Some ([], s))"

definition json_exponent :: "string \<Rightarrow> (string \<times> string) option" where
  "json_exponent s =
     (if s \<noteq> [] \<and> (hd s = CHR ''e'' \<or> hd s = CHR ''E'') then
        (let r = tl s; sign = (if r \<noteq> [] \<and> (hd r = CHR ''+'' \<or> hd r = CHR ''-'') then [hd r] else [])
         in map_option (apfst (append (hd s # sign))) (digits_rest (drop (length sign) r)))
      else Some ([], s))"

text \<open>The integer part has no leading zero.\<close>

definition json_integer :: "string \<Rightarrow> (string \<times> string) option" where
  "json_integer s = (if s \<noteq> [] \<and> hd s = CHR ''0'' then Some (''0'', tl s) else digits_rest s)"

definition json_number :: "string \<Rightarrow> (string \<times> string) option" where
  "json_number s =
     (let sign = (if s \<noteq> [] \<and> hd s = CHR ''-'' then ''-'' else []) in
      case json_integer (drop (length sign) s) of
        None \<Rightarrow> None
      | Some (i, r) \<Rightarrow>
          (case json_fraction r of
             None \<Rightarrow> None
           | Some (f, r1) \<Rightarrow> (case json_exponent r1 of None \<Rightarrow> None | Some (e, r2) \<Rightarrow> Some (sign @ i @ f @ e, r2))))"

definition json_literal :: "string \<Rightarrow> (json \<times> string) option" where
  "json_literal s =
     (if HasPrefix s ''true'' then Some (JBool True, drop 4 s)
      else if HasPrefix s ''false'' then Some (JBool False, drop 5 s)
      else if HasPrefix s ''null'' then Some (JNull, drop 4 s)
      else map_option (apfst JNum) (json_number s))"

definition starts :: "char \<Rightarrow> string \<Rightarrow> bool" where
  "starts c s \<longleftrightarrow> s \<noteq> [] \<and> hd s = c"

lemma starts_simps [simp]: "\<not> starts c []" "starts c (x # s) \<longleftrightarrow> x = c"
  by (simp_all add: starts_def)

text \<open>A value, the elements of an array and the members of an object after the opening bracket, with fuel.\<close>

fun json_value :: "nat \<Rightarrow> string \<Rightarrow> (json \<times> string) option"
  and json_elems :: "nat \<Rightarrow> string \<Rightarrow> (json list \<times> string) option"
  and json_members :: "nat \<Rightarrow> string \<Rightarrow> ((string \<times> json) list \<times> string) option" where
  "json_value 0 s0 = None"
| "json_value (Suc n) s0 =
     (let s = json_ws s0 in
      if starts (CHR ''{'') s then
        (let r = json_ws (tl s) in
         if starts (CHR ''}'') r then Some (JObj [], tl r) else map_option (apfst JObj) (json_members n r))
      else if starts (CHR ''['') s then
        (let r = json_ws (tl s) in
         if starts (CHR '']'') r then Some (JArr [], tl r) else map_option (apfst JArr) (json_elems n r))
      else if starts (CHR 0x22) s then map_option (apfst JStr) (unquote (tl s))
      else json_literal s)"
| "json_elems 0 s = None"
| "json_elems (Suc n) s =
     (case json_value n s of
        None \<Rightarrow> None
      | Some (v, r0) \<Rightarrow>
          (let r = json_ws r0 in
           if starts (CHR '','') r then map_option (apfst (Cons v)) (json_elems n (tl r))
           else if starts (CHR '']'') r then Some ([v], tl r) else None))"
| "json_members 0 s0 = None"
| "json_members (Suc n) s0 =
     (let s = json_ws s0 in
      if \<not> starts (CHR 0x22) s then None
      else case unquote (tl s) of
        None \<Rightarrow> None
      | Some (k, r0) \<Rightarrow>
          (let r1 = json_ws r0 in
           if \<not> starts (CHR '':'') r1 then None
           else case json_value n (tl r1) of
             None \<Rightarrow> None
           | Some (v, r2) \<Rightarrow>
               (let r = json_ws r2 in
                if starts (CHR '','') r then map_option (apfst (Cons (k, v))) (json_members n (tl r))
                else if starts (CHR ''}'') r then Some ([(k, v)], tl r) else None)))"

fun json_depth :: "json \<Rightarrow> nat" where
  "json_depth (JArr js) = Suc (foldr max (map json_depth js) 0)"
| "json_depth (JObj ms) = Suc (foldr max (map (\<lambda>(k, v). json_depth v) ms) 0)"
| "json_depth _ = 0"

text \<open>The first value of a text, as \<^verbatim>\<open>Decoder.Decode\<close> takes it, and a text that is one value, as
  \<^verbatim>\<open>Unmarshal\<close> wants it; both refuse deeper nesting than 10000.\<close>

definition json_read :: "string \<Rightarrow> (json \<times> string) option" where
  "json_read s =
     (case json_value (2 * length s + 1) s of
        Some (j, r) \<Rightarrow> if json_depth j \<le> 10000 then Some (j, r) else None
      | None \<Rightarrow> None)"

definition json_parse :: "string \<Rightarrow> json option" where
  "json_parse s = (case json_read s of Some (j, r) \<Rightarrow> if json_ws r = [] then Some j else None | None \<Rightarrow> None)"

text \<open>The compact text of a value.\<close>

fun json_show :: "json \<Rightarrow> string"
  and show_elems :: "json list \<Rightarrow> string"
  and show_members :: "(string \<times> json) list \<Rightarrow> string" where
  "json_show JNull = ''null''"
| "json_show (JBool b) = (if b then ''true'' else ''false'')"
| "json_show (JNum t) = t"
| "json_show (JStr s) = json_string s"
| "json_show (JArr []) = ''[]''"
| "json_show (JArr (j # js)) = ''['' @ json_show j @ show_elems js"
| "json_show (JObj []) = ''{}''"
| "json_show (JObj ((k, v) # ms)) = ''{'' @ json_string k @ '':'' @ json_show v @ show_members ms"
| "show_elems [] = '']''"
| "show_elems (j # js) = '','' @ json_show j @ show_elems js"
| "show_members [] = ''}''"
| "show_members ((k, v) # ms) = '','' @ json_string k @ '':'' @ json_show v @ show_members ms"

section \<open>Fuel\<close>

lemma starts_length: "starts c s \<Longrightarrow> length (tl s) < length s"
  by (cases s) simp_all

lemma digits_rest_shrinks: "digits_rest s = Some (d, r) \<Longrightarrow> length r < length s"
  by (cases s) (auto simp: digits_rest_def Let_def length_dropWhile_le le_imp_less_Suc split: if_splits)

lemma json_fraction_shrinks: "json_fraction s = Some (d, r) \<Longrightarrow> length r \<le> length s"
  by (cases s) (auto simp: json_fraction_def split: if_splits dest!: digits_rest_shrinks)

lemma json_exponent_shrinks: "json_exponent s = Some (d, r) \<Longrightarrow> length r \<le> length s"
  by (cases s) (auto simp: json_exponent_def Let_def split: if_splits dest!: digits_rest_shrinks)

lemma json_integer_shrinks: "json_integer s = Some (d, r) \<Longrightarrow> length r < length s"
  by (cases s) (auto simp: json_integer_def split: if_splits dest!: digits_rest_shrinks)

lemma json_number_shrinks: "json_number s = Some (d, r) \<Longrightarrow> length r < length s"
  by (cases s) (fastforce simp: json_number_def Let_def split: option.splits if_splits
      dest!: json_integer_shrinks json_fraction_shrinks json_exponent_shrinks)+

lemma json_literal_shrinks: "json_literal s = Some (j, r) \<Longrightarrow> length r < length s"
  by (cases s) (auto simp: json_literal_def HasPrefix_iff split: if_splits dest!: json_number_shrinks)

lemma reader_shrinks:
  "(json_value n s = Some (j, r) \<longrightarrow> length r < length s) \<and> (json_elems n s = Some (js, r) \<longrightarrow> length r < length s) \<and>
   (json_members n s = Some (ms, r) \<longrightarrow> length r < length s)"
proof (induction n arbitrary: s j js ms r)
  case (Suc n)
  note ws = json_ws_length le_less_trans less_le_trans
  have v: "length r < length s" if "json_value n s = Some (j, r)" for s j r using Suc that by blast
  have e: "length r < length s" if "json_elems n s = Some (js, r)" for s js r using Suc that by blast
  have m: "length r < length s" if "json_members n s = Some (ms, r)" for s ms r using Suc that by blast
  have skip: "length (tl (json_ws x)) < length x" if "starts c (json_ws x)" for c x
    using starts_length [OF that] json_ws_length [of x] by simp
  have "length r < length s" if r: "json_value (Suc n) s = Some (j, r)"
  proof (cases "starts (CHR ''{'') (json_ws s) \<or> starts (CHR ''['') (json_ws s) \<or> starts (CHR 0x22) (json_ws s)")
    case True
    with skip [of _ s] r json_ws_length [of "tl (json_ws s)"] skip [of _ "tl (json_ws s)"]
    show ?thesis
      by (auto simp: Let_def split: if_splits dest!: m e unquote_shrinks)
        (metis less_trans order.strict_trans1)+
  next
    case False
    with r have "json_literal (json_ws s) = Some (j, r)" by (simp add: Let_def)
    from json_literal_shrinks [OF this] json_ws_length [of s] show ?thesis by simp
  qed
  moreover have "length r < length s" if r: "json_elems (Suc n) s = Some (js, r)"
  proof -
    from r obtain v1 r0 where v1: "json_value n s = Some (v1, r0)" by (auto split: option.splits)
    with r v [OF v1] skip [of _ r0] show ?thesis by (auto simp: Let_def split: if_splits dest!: e) (metis less_trans)+
  qed
  moreover have "length r < length s" if r: "json_members (Suc n) s = Some (ms, r)"
  proof -
    from r obtain k r0 v1 r2 where st: "starts (CHR 0x22) (json_ws s)" "unquote (tl (json_ws s)) = Some (k, r0)"
        "starts (CHR '':'') (json_ws r0)" "json_value n (tl (json_ws r0)) = Some (v1, r2)"
      by (auto simp: Let_def split: option.splits if_splits)
    have "length r2 < length s" using skip [OF st(1)] unquote_shrinks [OF st(2)] skip [OF st(3)] v [OF st(4)] by simp
    with r st skip [of _ r2] show ?thesis by (auto simp: Let_def split: if_splits dest!: m) (metis less_trans)+
  qed
  ultimately show ?case by blast
qed simp

lemmas json_value_shrinks = reader_shrinks [THEN conjunct1, rule_format]

lemma skip_length: "starts c (json_ws x) \<Longrightarrow> Suc (length (tl (json_ws x))) \<le> length x"
  using starts_length [of c "json_ws x"] json_ws_length [of x] by simp

lemma reader_fuel:
  "(2 * length s < n \<and> 2 * length s < m \<longrightarrow> json_value n s = json_value m s) \<and>
   (Suc (2 * length s) < n \<and> Suc (2 * length s) < m \<longrightarrow> json_elems n s = json_elems m s \<and> json_members n s = json_members m s)"
proof (induction n arbitrary: m s)
  case (Suc n)
  have "json_value (Suc n) s = json_value m s" if b: "2 * length s < Suc n" "2 * length s < m"
  proof -
    obtain m' where m: "m = Suc m'" using b by (cases m) auto
    have "json_elems n (json_ws (tl (json_ws s))) = json_elems m' (json_ws (tl (json_ws s))) \<and>
        json_members n (json_ws (tl (json_ws s))) = json_members m' (json_ws (tl (json_ws s)))" if "starts c (json_ws s)" for c
    proof -
      have "Suc (length (json_ws (tl (json_ws s)))) \<le> length s"
        using skip_length [OF that] json_ws_length [of "tl (json_ws s)"] by simp
      with b m show ?thesis using Suc [of "json_ws (tl (json_ws s))" m'] by simp
    qed
    then show ?thesis unfolding m by (simp add: Let_def)
  qed
  moreover have "json_elems (Suc n) s = json_elems m s \<and> json_members (Suc n) s = json_members m s"
    if b: "Suc (2 * length s) < Suc n" "Suc (2 * length s) < m"
  proof -
    obtain m' where m: "m = Suc m'" using b by (cases m) auto
    have ih: "json_value n x = json_value m' x" if "length x \<le> length s" for x using Suc [of x m'] b m that by simp
    have ih2: "json_elems n x = json_elems m' x" "json_members n x = json_members m' x" if "Suc (length x) \<le> length s" for x
      using Suc [of x m'] b m that by simp_all
    have "json_elems n (tl (json_ws r)) = json_elems m' (tl (json_ws r))" if "json_value m' s = Some (v, r)" "starts c (json_ws r)" for c v r
      by (rule ih2) (use json_value_shrinks [OF that(1)] skip_length [OF that(2)] in simp)
    then have "json_elems (Suc n) s = json_elems m s" unfolding m by (simp add: ih Let_def split: option.split prod.split)
    moreover have "json_members (Suc n) s = json_members m s"
    proof (cases "starts (CHR 0x22) (json_ws s)")
      case True
      show ?thesis
      proof (cases "unquote (tl (json_ws s))")
        case (Some kr)
        obtain k r0 where kr: "kr = (k, r0)" by fastforce
        with Some have l0: "Suc (length r0) < length s" using unquote_shrinks skip_length [OF True] by fastforce
        show ?thesis
        proof (cases "starts (CHR '':'') (json_ws r0)")
          case c: True
          have l1: "length (tl (json_ws r0)) \<le> length s" using skip_length [OF c] l0 by simp
          have "json_members n (tl (json_ws r)) = json_members m' (tl (json_ws r))"
            if "json_value m' (tl (json_ws r0)) = Some (v, r)" "starts d (json_ws r)" for d v r
            by (rule ih2) (use json_value_shrinks [OF that(1)] skip_length [OF that(2)] l1 in simp)
          then show ?thesis unfolding m by (simp add: True Some kr c ih [OF l1] Let_def split: option.split prod.split)
        qed (simp add: m True Some kr Let_def)
      qed (simp add: m True Let_def)
    qed (simp add: m Let_def)
    ultimately show ?thesis by blast
  qed
  ultimately show ?case by blast
qed simp

lemma json_fuel_enough: "2 * length s < n \<Longrightarrow> json_value n s = json_value (2 * length s + 1) s"
  using reader_fuel [of s n "2 * length s + 1"] by simp

section \<open>Reading back what was written\<close>

text \<open>The values that the encoders of the programs produce: numbers are integers.\<close>

definition int_text :: "string \<Rightarrow> bool" where
  "int_text t \<longleftrightarrow> (let d = (if starts (CHR ''-'') t then tl t else t) in d \<noteq> [] \<and> list_all is_digit d \<and> (hd d = CHR ''0'' \<longrightarrow> d = ''0''))"

fun json_ints :: "json \<Rightarrow> bool" where
  "json_ints (JNum t) = int_text t"
| "json_ints (JArr js) = list_all json_ints js"
| "json_ints (JObj ms) = list_all (\<lambda>(k, v). json_ints v) ms"
| "json_ints _ = True"

text \<open>A value with its strings as they come back.\<close>

fun json_fix :: "json \<Rightarrow> json" where
  "json_fix (JStr s) = JStr (to_valid s)"
| "json_fix (JArr js) = JArr (map json_fix js)"
| "json_fix (JObj ms) = JObj (map (\<lambda>(k, v). (to_valid k, json_fix v)) ms)"
| "json_fix j = j"

text \<open>A text that does not go on with a number.\<close>

definition num_end :: "string \<Rightarrow> bool" where
  "num_end r \<longleftrightarrow> r = [] \<or> \<not> is_digit (hd r) \<and> hd r \<noteq> CHR ''.'' \<and> hd r \<noteq> CHR ''e'' \<and> hd r \<noteq> CHR ''E''"

lemma num_end_simps [simp]:
  "num_end []" "num_end (CHR '','' # r)" "num_end (CHR '']'' # r)" "num_end (CHR ''}'' # r)" "num_end (CHR 0x0A # r)"
  by (simp_all add: num_end_def is_digit_def)

lemma json_integer_digits:
  assumes "d \<noteq> []" "list_all is_digit d" "hd d = CHR ''0'' \<longrightarrow> d = ''0''" "num_end r"
  shows "json_integer (d @ r) = Some (d, r)"
proof (cases "hd d = CHR ''0''")
  case True
  with assms(3) show ?thesis by (simp add: json_integer_def)
next
  case False
  have "takeWhile is_digit (d @ r) = d" "dropWhile is_digit (d @ r) = r"
    using assms(2,4) by (cases r; auto simp: takeWhile_append dropWhile_append list_all_iff num_end_def)+
  with False assms(1) show ?thesis by (simp add: json_integer_def digits_rest_def)
qed

lemma digit_facts: "is_digit c \<Longrightarrow> c \<noteq> CHR ''-'' \<and> c \<noteq> CHR ''t'' \<and> c \<noteq> CHR ''f'' \<and> c \<noteq> CHR ''n'' \<and> c \<noteq> CHR ''{'' \<and> c \<noteq> CHR ''['' \<and>
    c \<noteq> CHR 0x22 \<and> c \<noteq> CHR '' '' \<and> c \<noteq> CHR 0x09 \<and> c \<noteq> CHR 0x0A \<and> c \<noteq> CHR 0x0D"
  by (auto simp: is_digit_def)

lemma json_number_int:
  assumes "int_text t" "num_end r"
  shows "json_number (t @ r) = Some (t, r)"
proof -
  have e: "json_fraction r = Some ([], r)" "json_exponent r = Some ([], r)"
    using assms(2) by (auto simp: json_fraction_def json_exponent_def num_end_def)
  show ?thesis
  proof (cases "starts (CHR ''-'') t")
    case True
    then obtain d where t: "t = CHR ''-'' # d" by (cases t) auto
    with assms(1) have "json_integer (d @ r) = Some (d, r)" by (intro json_integer_digits assms(2)) (simp_all add: int_text_def)
    with t e show ?thesis by (simp add: json_number_def)
  next
    case False
    with assms(1) have d: "t \<noteq> []" "list_all is_digit t" "json_integer (t @ r) = Some (t, r)"
      by (simp_all add: int_text_def json_integer_digits assms(2))
    then have "hd (t @ r) \<noteq> CHR ''-''" using digit_facts by (cases t) auto
    with d e show ?thesis by (simp add: json_number_def)
  qed
qed

lemma int_text_head: "int_text t \<Longrightarrow> \<exists>c cs. t = c # cs \<and> (c = CHR ''-'' \<or> is_digit c)"
  by (cases t) (auto simp: int_text_def Let_def split: if_splits)

lemma json_ws_skip: "c \<noteq> CHR '' '' \<Longrightarrow> c \<noteq> CHR 0x09 \<Longrightarrow> c \<noteq> CHR 0x0A \<Longrightarrow> c \<noteq> CHR 0x0D \<Longrightarrow> json_ws (c # s) = c # s"
  by (simp add: json_ws_def)

lemma json_value_int:
  assumes "int_text t" "num_end r"
  shows "json_value (Suc n) (t @ r) = Some (JNum t, r)"
proof -
  obtain c cs where t: "t = c # cs" "c = CHR ''-'' \<or> is_digit c" using int_text_head [OF assms(1)] by blast
  then have f: "c \<noteq> CHR ''t''" "c \<noteq> CHR ''f''" "c \<noteq> CHR ''n''" "c \<noteq> CHR ''{''" "c \<noteq> CHR ''[''" "c \<noteq> CHR 0x22"
      "json_ws (c # x) = c # x" for x
    using digit_facts [of c] json_ws_skip [of c x] by auto
  then have "json_literal (t @ r) = map_option (apfst JNum) (json_number (t @ r))"
    by (simp add: json_literal_def HasPrefix_def t(1))
  with f json_number_int [OF assms] show ?thesis by (simp add: t(1) Let_def)
qed

lemma json_show_head: "json_ints j \<Longrightarrow> \<exists>c cs. json_show j = c # cs \<and> c \<notin> {CHR '']'', CHR ''}'', CHR '' '', CHR 0x09, CHR 0x0A, CHR 0x0D}"
proof (cases j)
  case (JNum t)
  assume "json_ints j"
  with JNum int_text_head [of t] digit_facts show ?thesis by (auto simp: is_digit_def)
next
  case (JArr js)
  then show ?thesis by (cases js) simp_all
next
  case (JObj ms)
  then show ?thesis by (cases ms) auto
qed (auto simp: json_string_def)

text \<open>What the reader does with a value that it reads back, inside an array and an object.\<close>

definition reads_back :: "json \<Rightarrow> bool" where
  "reads_back j \<longleftrightarrow> (\<forall>n r. num_end r \<and> 2 * length (json_show j @ r) < n \<longrightarrow> json_value n (json_show j @ r) = Some (json_fix j, r))"

lemma reads_backD: "reads_back j \<Longrightarrow> num_end r \<Longrightarrow> 2 * length (json_show j @ r) < n \<Longrightarrow> json_value n (json_show j @ r) = Some (json_fix j, r)"
  unfolding reads_back_def by blast

lemma reads_backI: "(\<And>n r. num_end r \<Longrightarrow> json_value (Suc n) (json_show j @ r) = Some (json_fix j, r)) \<Longrightarrow> reads_back j"
  by (metis less_zeroE not0_implies_Suc reads_back_def)

lemma elems_read_back:
  assumes "reads_back j" "\<forall>x \<in> set js. reads_back x" "Suc (2 * length (json_show j @ show_elems js @ r)) < n"
  shows "json_elems n (json_show j @ show_elems js @ r) = Some (map json_fix (j # js), r)"
  using assms
proof (induction js arbitrary: j n)
  case Nil
  obtain n' where n: "n = Suc n'" using Nil by (cases n) auto
  have "json_value n' (json_show j @ CHR '']'' # r) = Some (json_fix j, CHR '']'' # r)" by (rule reads_backD) (use Nil n in simp_all)
  then show ?case by (simp add: n json_ws_skip Let_def)
next
  case (Cons x js)
  obtain n' where n: "n = Suc n'" using Cons by (cases n) auto
  have "json_value n' (json_show j @ CHR '','' # json_show x @ show_elems js @ r) = Some (json_fix j, CHR '','' # json_show x @ show_elems js @ r)"
    by (rule reads_backD) (use Cons n in simp_all)
  moreover have "json_elems n' (json_show x @ show_elems js @ r) = Some (map json_fix (x # js), r)" by (rule Cons.IH) (use Cons n in simp_all)
  ultimately show ?case by (simp add: n json_ws_skip Let_def)
qed

lemma members_read_back:
  assumes "reads_back v" "\<forall>(k, v) \<in> set ms. reads_back v"
    "Suc (2 * length (json_string k @ '':'' @ json_show v @ show_members ms @ r)) < n"
  shows "json_members n (json_string k @ '':'' @ json_show v @ show_members ms @ r) = Some (map (\<lambda>(k, v). (to_valid k, json_fix v)) ((k, v) # ms), r)"
  using assms
proof (induction ms arbitrary: k v n)
  case Nil
  obtain n' where n: "n = Suc n'" using Nil by (cases n) auto
  have "json_value n' (json_show v @ CHR ''}'' # r) = Some (json_fix v, CHR ''}'' # r)" by (rule reads_backD) (use Nil n in simp_all)
  then show ?case by (simp add: n json_ws_skip json_string_def unquote_escape Let_def)
next
  case (Cons x ms)
  obtain n' where n: "n = Suc n'" using Cons by (cases n) auto
  obtain k2 v2 where x: "x = (k2, v2)" by fastforce
  let ?t = "json_string k2 @ '':'' @ json_show v2 @ show_members ms @ r"
  have "json_value n' (json_show v @ CHR '','' # ?t) = Some (json_fix v, CHR '','' # ?t)" by (rule reads_backD) (use Cons n x in simp_all)
  moreover have "json_members n' ?t = Some (map (\<lambda>(k, v). (to_valid k, json_fix v)) (x # ms), r)" unfolding x by (rule Cons.IH) (use Cons n x in auto)
  ultimately show ?case
    by (simp add: n x json_ws_skip json_string_def [of k] unquote_escape Let_def)
qed

lemma json_reads_back: "json_ints j \<Longrightarrow> reads_back j"
proof (induction j)
  case (JNum t)
  then show ?case by (intro reads_backI) (simp add: json_value_int del: json_value.simps)
next
  case (JStr s)
  then show ?case by (intro reads_backI) (simp add: json_string_def json_ws_skip unquote_escape)
next
  case (JArr js)
  show ?case
  proof (cases js)
    case (Cons x xs)
    with JArr.prems have x: "json_ints x" by simp
    have "json_value n (json_show (JArr js) @ r) = Some (json_fix (JArr js), r)" if l: "2 * length (json_show (JArr js) @ r) < n" for n r
    proof -
      obtain n' where n: "n = Suc n'" using l by (cases n) simp_all
      obtain c cs where h: "json_show x = c # cs" "c \<noteq> CHR '']''" "\<And>s. json_ws (c # s) = c # s"
        using json_show_head [OF x] json_ws_skip by fastforce
      have "json_elems n' (json_show x @ show_elems xs @ r) = Some (map json_fix (x # xs), r)"
        by (rule elems_read_back) (use JArr Cons l n in \<open>auto simp: list_all_iff\<close>)
      with h show ?thesis by (simp add: Cons n json_ws_skip Let_def)
    qed
    then show ?thesis by (simp add: reads_back_def)
  qed (auto intro!: reads_backI simp: json_ws_skip)
next
  case (JObj ms)
  show ?case
  proof (cases ms)
    case (Cons x xs)
    obtain k v where x: "x = (k, v)" by fastforce
    have ok: "\<forall>(k, v) \<in> set ms. reads_back v"
      using JObj by (fastforce simp: list_all_iff)
    have "json_value n (json_show (JObj ms) @ r) = Some (json_fix (JObj ms), r)" if l: "2 * length (json_show (JObj ms) @ r) < n" for n r
    proof -
      obtain n' where n: "n = Suc n'" using l by (cases n) simp_all
      have "json_members n' (json_string k @ '':'' @ json_show v @ show_members xs @ r) = Some (map (\<lambda>(k, v). (to_valid k, json_fix v)) ((k, v) # xs), r)"
        by (rule members_read_back) (use ok Cons x l n in auto)
      then show ?thesis by (simp add: Cons x n json_ws_skip json_string_def [of k] Let_def)
    qed
    then show ?thesis by (simp add: reads_back_def)
  qed (auto intro!: reads_backI simp: json_ws_skip)
qed (auto intro!: reads_backI simp: json_ws_skip json_literal_def HasPrefix_def)

lemma foldr_max_map: "(\<And>x. x \<in> set xs \<Longrightarrow> f x = g x) \<Longrightarrow> foldr max (map f xs) (0 :: nat) = foldr max (map g xs) 0"
  by (induction xs) simp_all

lemma json_depth_fix [simp]: "json_depth (json_fix j) = json_depth j"
proof (induction j)
  case (JArr js)
  then show ?case by (simp add: o_def foldr_max_map [of js "json_depth \<circ> json_fix" json_depth, unfolded o_def])
next
  case (JObj ms)
  have "foldr max (map (\<lambda>x. json_depth (json_fix (snd x))) ms) 0 = foldr max (map (\<lambda>x. json_depth (snd x)) ms) 0"
    by (rule foldr_max_map) (use JObj in fastforce)
  then show ?case by (simp add: o_def case_prod_unfold)
qed simp_all

lemma json_read_show:
  assumes "json_ints j" "json_depth j \<le> 10000" "num_end r"
  shows "json_read (json_show j @ r) = Some (json_fix j, r)"
  using reads_backD [OF json_reads_back [OF assms(1)] assms(3), of "2 * length (json_show j @ r) + 1"] assms(2)
  by (simp add: json_read_def)

lemma json_parse_show: "json_ints j \<Longrightarrow> json_depth j \<le> 10000 \<Longrightarrow> json_parse (json_show j) = Some (json_fix j)"
  using json_read_show [of j "[]"] by (simp add: json_parse_def json_ws_def)

lemma json_string_length: "length (json_string s) \<le> 6 * length s + 2"
  using json_escape_length [of s] by (simp add: json_string_def)

section \<open>Structs\<close>

text \<open>
  A struct is written as an object of its fields in order. It is read member by member: a member whose name
  matches a field up to case is decoded into it, null leaves it alone, another kind of value is skipped and
  makes the whole call fail, but only after the other members were taken. A decoder therefore maps the old
  value of a field to its new one and says whether the kind was right.
\<close>

text \<open>Names up to case: ASCII letters, and the two other characters that fold to one.\<close>

definition upper_char :: "char \<Rightarrow> char" where
  "upper_char c = (let n = (of_char c :: nat) in if 97 \<le> n \<and> n \<le> 122 then char_of (n - 32) else c)"

lemma upper_char_simps [simp]:
  "upper_char (CHR ''a'') = CHR ''A''" "upper_char (CHR ''b'') = CHR ''B''" "upper_char (CHR ''c'') = CHR ''C''" "upper_char (CHR ''d'') = CHR ''D''" "upper_char (CHR ''e'') = CHR ''E''" "upper_char (CHR ''f'') = CHR ''F''" "upper_char (CHR ''g'') = CHR ''G''"
  "upper_char (CHR ''h'') = CHR ''H''" "upper_char (CHR ''i'') = CHR ''I''" "upper_char (CHR ''j'') = CHR ''J''" "upper_char (CHR ''k'') = CHR ''K''" "upper_char (CHR ''l'') = CHR ''L''" "upper_char (CHR ''m'') = CHR ''M''" "upper_char (CHR ''n'') = CHR ''N''"
  "upper_char (CHR ''o'') = CHR ''O''" "upper_char (CHR ''p'') = CHR ''P''" "upper_char (CHR ''q'') = CHR ''Q''" "upper_char (CHR ''r'') = CHR ''R''" "upper_char (CHR ''s'') = CHR ''S''" "upper_char (CHR ''t'') = CHR ''T''" "upper_char (CHR ''u'') = CHR ''U''"
  "upper_char (CHR ''v'') = CHR ''V''" "upper_char (CHR ''w'') = CHR ''W''" "upper_char (CHR ''x'') = CHR ''X''" "upper_char (CHR ''y'') = CHR ''Y''" "upper_char (CHR ''z'') = CHR ''Z''" "upper_char (CHR ''_'') = CHR ''_''" "upper_char (CHR ''-'') = CHR ''-''"
  by (simp_all add: upper_char_def char_of_def bit_0 Let_def)

function fold_name :: "string \<Rightarrow> string" where
  "fold_name [] = []"
| "fold_name (c # cs) =
     (if take 2 (c # cs) = [CHR 0xC5, CHR 0xBF] then CHR ''S'' # fold_name (drop 1 cs)
      else if take 3 (c # cs) = [CHR 0xE2, CHR 0x84, CHR 0xAA] then CHR ''K'' # fold_name (drop 2 cs)
      else upper_char c # fold_name cs)"
  by pat_completeness auto

termination
  by (relation "measure length") auto

definition get_field :: "(json \<Rightarrow> 'a \<Rightarrow> 'a \<times> bool) \<Rightarrow> string \<Rightarrow> (string \<times> json) list \<Rightarrow> 'a \<Rightarrow> 'a \<times> bool" where
  "get_field dec name ms v0 =
     foldl (\<lambda>(v, ok) (k, j). if fold_name k = fold_name name then (let (v', ok') = dec j v in (v', ok \<and> ok')) else (v, ok))
       (v0, True) ms"

fun dec_str :: "json \<Rightarrow> string \<Rightarrow> string \<times> bool" where
  "dec_str (JStr s) v = (s, True)"
| "dec_str JNull v = (v, True)"
| "dec_str _ v = (v, False)"

fun dec_bool :: "json \<Rightarrow> bool \<Rightarrow> bool \<times> bool" where
  "dec_bool (JBool b) v = (b, True)"
| "dec_bool JNull v = (v, True)"
| "dec_bool _ v = (v, False)"

text \<open>An unsigned integer below a bound.\<close>

fun dec_uint :: "nat \<Rightarrow> json \<Rightarrow> nat \<Rightarrow> nat \<times> bool" where
  "dec_uint bnd (JNum t) v = (if list_all is_digit t \<and> read_nat t < bnd then (read_nat t, True) else (v, False))"
| "dec_uint bnd JNull v = (v, True)"
| "dec_uint bnd _ v = (v, False)"

text \<open>The elements of a slice are decoded into the elements it has.\<close>

fun dec_strs :: "json \<Rightarrow> string list \<Rightarrow> string list \<times> bool" where
  "dec_strs (JArr js) v =
     (let es = map (\<lambda>(i, j). dec_str j (if i < length v then v ! i else [])) (enumerate 0 js)
      in (map fst es, list_all snd es))"
| "dec_strs JNull v = ([], True)"
| "dec_strs _ v = (v, False)"

text \<open>Whether decoding failed, and what was filled in; callers that ignore the error use the latter.\<close>

definition dec_struct :: "((string \<times> json) list \<Rightarrow> 'a \<times> bool) \<Rightarrow> 'a \<Rightarrow> json \<Rightarrow> 'a \<times> bool" where
  "dec_struct fields zero j = (case j of JObj ms \<Rightarrow> fields ms | JNull \<Rightarrow> (zero, True) | _ \<Rightarrow> (zero, False))"

definition Unmarshal_into :: "(json \<Rightarrow> 'a \<times> bool) \<Rightarrow> 'a \<Rightarrow> string \<Rightarrow> 'a \<times> bool" where
  "Unmarshal_into dec zero s = (case json_parse s of None \<Rightarrow> (zero, False) | Some j \<Rightarrow> dec j)"

definition json_error :: err where
  "json_error = Errorf ''json: cannot unmarshal''"

definition Unmarshal_text :: "(json \<Rightarrow> 'a \<times> bool) \<Rightarrow> string \<Rightarrow> 'a result" where
  "Unmarshal_text dec s =
     (case json_parse s of None \<Rightarrow> Inl json_error | Some j \<Rightarrow> (let (v, ok) = dec j in if ok then Inr v else Inl json_error))"

lemma get_field_Nil [simp]: "get_field dec name [] v = (v, True)"
  by (simp add: get_field_def)

lemma get_field_other: "fold_name k \<noteq> fold_name name \<Longrightarrow> get_field dec name ((k, j) # ms) v = get_field dec name ms v"
  by (simp add: get_field_def)

lemma get_field_hit:
  assumes "fold_name k = fold_name name" "dec j v = (v', True)" "\<forall>(k, j) \<in> set ms. fold_name k \<noteq> fold_name name"
  shows "get_field dec name ((k, j) # ms) v = (v', True)"
proof -
  have "foldl (\<lambda>(v, ok) (k, j). if fold_name k = fold_name name then (let (v', ok') = dec j v in (v', ok \<and> ok')) else (v, ok)) (x, b) ms = (x, b)" for x b
    using assms(3) by (induction ms) auto
  then show ?thesis using assms(1,2) by (simp add: get_field_def)
qed

lemma dec_strs_of: "dec_strs (JArr (map JStr ss)) [] = (ss, True)"
  by (simp add: dec_strs.simps(1) enumerate_eq_zip zip_map2 list_all_iff o_def case_prod_unfold set_zip)

lemma fix_strs: "list_all valid_utf8 ss \<Longrightarrow> map (json_fix \<circ> JStr) ss = map JStr ss"
  by (induction ss) (simp_all add: to_valid_id)

declare dec_strs.simps(1) [simp del]

lemma strs_plain [simp]: "list_all json_ints (map JStr ss)" "foldr max (map (json_depth \<circ> JStr) ss) 0 = 0"
  by (induction ss) simp_all

lemma show_nat_head: "hd (show_nat n) = CHR ''0'' \<Longrightarrow> n = 0"
proof (induction n rule: show_nat.induct)
  case (1 n)
  have z: "d < 10 \<Longrightarrow> digit_char d = CHR ''0'' \<Longrightarrow> d = 0" for d using of_char_digit [of d] by simp
  show ?case
  proof (cases "n < 10")
    case True
    with "1.prems" z show ?thesis by (simp add: show_nat.simps [of n])
  next
    case False
    with "1.prems" have "hd (show_nat (n div 10)) = CHR ''0''" by (simp add: show_nat.simps [of n] hd_append)
    with "1.IH" False have "n div 10 = 0" by blast
    with False show ?thesis by simp
  qed
qed

lemma int_text_show_nat: "int_text (show_nat n)"
proof -
  have d: "list_all is_digit (show_nat n)" using show_nat_digits by (auto simp: list_all_iff)
  then have "\<not> starts (CHR ''-'') (show_nat n)" using digit_facts by (cases "show_nat n") (auto simp: list_all_iff)
  moreover have "show_nat 0 = ''0''" by (simp add: show_nat.simps [of 0] digit_char_def char_of_def bit_0)
  then have "hd (show_nat n) = CHR ''0'' \<longrightarrow> show_nat n = ''0''" using show_nat_head [of n] by auto
  ultimately show ?thesis using d by (simp add: int_text_def)
qed

lemma dec_uint_show [simp]: "n < bnd \<Longrightarrow> dec_uint bnd (JNum (show_nat n)) v = (n, True)"
  using show_nat_digits by (auto simp: list_all_iff dec_uint.simps(1))

declare dec_uint.simps(1) [simp del]

text \<open>
  An encoder and a decoder of one type. The law is the one a client needs: values that are fine are decoded
  from their own text, with whatever it does to strings.
\<close>

locale json_codec =
  fixes enc :: "'a \<Rightarrow> json"
    and dec :: "json \<Rightarrow> 'a \<times> bool"
    and fine :: "'a \<Rightarrow> bool"
  assumes enc_ints: "json_ints (enc x)"
    and enc_depth: "json_depth (enc x) \<le> 10000"
    and dec_enc: "fine x \<Longrightarrow> dec (json_fix (enc x)) = (x, True)"
begin

lemma parse_enc: "json_parse (json_show (enc x)) = Some (json_fix (enc x))"
  by (rule json_parse_show [OF enc_ints enc_depth])

lemma text_roundtrip: "fine x \<Longrightarrow> Unmarshal_text dec (json_show (enc x)) = Inr x"
  by (simp add: Unmarshal_text_def parse_enc dec_enc)

end

section \<open>Quoting with \<open>%q\<close>\<close>

text \<open>The characters for which the quoting of \<^verbatim>\<open>fmt\<close> is a JSON literal: it writes others as escapes JSON does
  not have.\<close>

definition plain_char :: "char \<Rightarrow> bool" where
  "plain_char c \<longleftrightarrow> (let n = (of_char c :: nat) in 32 \<le> n \<and> n < 127 \<or> n \<in> {8, 9, 10, 12, 13})"

lemma json_char_quote:
  assumes "plain_char c"
  shows "json_char (quote_char c @ r) = Some ([c], r)" "quote_char c \<noteq> []" "hd (quote_char c) \<noteq> CHR 0x22"
proof -
  let ?n = "of_char c :: nat"
  have b: "json_char (CHR 0x5C # x) = unescape x" for x by (simp add: json_char_def)
  have ctl: "?n = 8 \<Longrightarrow> c = CHR 0x08" "?n = 12 \<Longrightarrow> c = CHR 0x0C" "?n = 10 \<Longrightarrow> c = CHR 0x0A" "?n = 13 \<Longrightarrow> c = CHR 0x0D" "?n = 9 \<Longrightarrow> c = CHR 0x09"
    using char_of_char [where 'a = nat, of c] by (auto simp: char_of_def bit_0)
  consider "c = CHR 0x22 \<or> c = CHR 0x5C" | "?n \<in> {8, 9, 10, 12, 13}" | "c \<noteq> CHR 0x22" "c \<noteq> CHR 0x5C" "32 \<le> ?n" "?n < 127"
    using assms by (auto simp: plain_char_def Let_def)
  then have "json_char (quote_char c @ r) = Some ([c], r) \<and> quote_char c \<noteq> [] \<and> hd (quote_char c) \<noteq> CHR 0x22"
  proof cases
    case 3
    then have "quote_char c = [c]" unfolding quote_char_def Let_def by simp
    with 3 rune_len_ascii_iff [of c r] show ?thesis by (simp add: json_char_def)
  qed (auto simp: quote_char_def b unescape_def dest!: ctl)
  then show "json_char (quote_char c @ r) = Some ([c], r)" "quote_char c \<noteq> []" "hd (quote_char c) \<noteq> CHR 0x22" by blast+
qed

lemma unquote_quoted:
  assumes "list_all plain_char s"
  shows "unquote (concat (map quote_char s) @ CHR 0x22 # r) = Some (s, r)"
  using assms
proof (induction s)
  case Nil
  show ?case by (simp add: unquote.simps [of "CHR 0x22 # r"])
next
  case (Cons c s)
  then have c: "plain_char c" by simp
  show ?case using unquote_step [OF json_char_quote [OF c], of "concat (map quote_char s) @ CHR 0x22 # r"] Cons by simp
qed

text \<open>A bell, a vertical tab and any other control character make the quoted text no JSON.\<close>

lemma unquote_control:
  assumes "list_all plain_char s" "(of_char c :: nat) < 32 \<or> c = CHR 0x7F" "\<not> plain_char c"
  shows "unquote (concat (map quote_char (s @ c # t)) @ r) = None"
  using assms(1)
proof (induction s)
  case Nil
  let ?n = "of_char c :: nat"
  have n: "?n \<notin> {8, 9, 10, 12, 13}" "c \<noteq> CHR 0x22" "c \<noteq> CHR 0x5C" "?n < 32 \<or> ?n = 127"
    using assms(2,3) by (auto simp: plain_char_def Let_def)
  then have "quote_char c \<in> {[CHR 0x5C, CHR ''a''], [CHR 0x5C, CHR ''v''], [CHR 0x5C, CHR ''x'', hex_char (?n div 16), hex_char (?n mod 16)]}"
    unfolding quote_char_def Let_def by auto
  then have "json_char (quote_char c @ x) = None" "quote_char c \<noteq> []" "hd (quote_char c) \<noteq> CHR 0x22" for x
    by (auto simp: json_char_def unescape_def)
  then show ?case by (simp add: unquote.simps [of "quote_char c @ x" for x])
next
  case (Cons d s)
  then have d: "plain_char d" by simp
  show ?case using unquote_step [OF json_char_quote [OF d], of "concat (map quote_char (s @ c # t)) @ r"] Cons by simp
qed

end
