(* ===== verification/Agent_Proto.thy ===== *)
theory Agent_Proto
  imports Json
begin

text \<open>
  The frames between the daemon and the in-box agent (\<^verbatim>\<open>internal/agentproto/agentproto.go\<close>):
  length-prefixed JSON frames and the binary exec frames; the writer of the agent that cuts output
  into exec frames, and the agent's dispatch and command construction
  (\<^verbatim>\<open>cmd/hopbox-agent/main.go\<close>).

  A byte is an \<^typ>\<open>8 word\<close>. A writer is the bytes it has taken and the error its next write
  reports, if it is broken; a reader is the bytes still to come. The functions over JSON frames take the
  codec of their type; those of the protocol are given here, on the JSON of \<open>Json\<close>.
\<close>

type_synonym bytes = "8 word list"

text \<open>Go converts freely between a string and its bytes.\<close>

definition str_bytes :: "string \<Rightarrow> bytes" where
  "str_bytes s = map (of_nat \<circ> of_char) s"

definition bytes_str :: "bytes \<Rightarrow> string" where
  "bytes_str b = map (char_of \<circ> unat) b"

lemma bytes_str_bytes [simp]: "bytes_str (str_bytes s) = s"
  by (induction s) (simp_all add: bytes_str_def str_bytes_def unat_of_nat)

lemma length_str_bytes [simp]: "length (str_bytes s) = length s"
  by (simp add: str_bytes_def)

section \<open>Writers and readers\<close>

record writer =
  wr_out :: bytes
  wr_err :: "err option"

definition Write :: "bytes \<Rightarrow> writer \<Rightarrow> unit result \<times> writer" where
  "Write p w = (case wr_err w of Some e \<Rightarrow> (Inl e, w) | None \<Rightarrow> (Inr (), w\<lparr>wr_out := wr_out w @ p\<rparr>))"

text \<open>\<^verbatim>\<open>io.ReadFull\<close>.\<close>

definition ReadFull :: "nat \<Rightarrow> bytes \<Rightarrow> bytes result \<times> bytes" where
  "ReadFull n r =
     (if n \<le> length r then (Inr (take n r), drop n r)
      else if r = [] then (Inl ErrEOF, []) else (Inl ErrUnexpectedEOF, []))"

definition PutUint32 :: "nat \<Rightarrow> bytes" where
  "PutUint32 n = [of_nat (n div 16777216), of_nat (n div 65536), of_nat (n div 256), of_nat n]"

definition Uint32 :: "bytes \<Rightarrow> nat" where
  "Uint32 b = (case b of [b0, b1, b2, b3] \<Rightarrow>
     16777216 * unat b0 + 65536 * unat b1 + 256 * unat b2 + unat b3 | _ \<Rightarrow> 0)"

lemma unat_of_nat_byte: "unat (of_nat n :: 8 word) = n mod 256"
  by (simp add: unat_of_nat)

lemma Uint32_Put [simp]: "n < 4294967296 \<Longrightarrow> Uint32 (PutUint32 n) = n"
proof -
  assume n: "n < 4294967296"
  have a: "n div 16777216 mod 256 = n div 16777216" using n by (simp add: less_mult_imp_div_less)
  have "n = 16777216 * (n div 16777216) + n mod 16777216" by simp
  moreover have "n mod 16777216 = 65536 * (n div 65536 mod 256) + n mod 65536"
    using mod_mult2_eq [of n 65536 256] by simp
  moreover have "n mod 65536 = 256 * (n div 256 mod 256) + n mod 256"
    using mod_mult2_eq [of n 256 256] by simp
  ultimately show ?thesis by (simp add: Uint32_def PutUint32_def unat_of_nat_byte a)
qed

lemma length_PutUint32 [simp]: "length (PutUint32 n) = 4"
  by (simp add: PutUint32_def)

lemma ReadFull_append [simp]: "length p = n \<Longrightarrow> ReadFull n (p @ r) = (Inr p, r)"
  by (simp add: ReadFull_def)

section \<open>Frame types\<close>

record handshake =
  hs_WorkspaceID :: string
  hs_Token :: string

definition KindShell :: string where "KindShell = ''shell''"
definition KindForward :: string where "KindForward = ''forward''"
definition KindExec :: string where "KindExec = ''exec''"
definition KindSSH :: string where "KindSSH = ''ssh''"

record open_frame =
  of_Kind :: string

record shell_header =
  sh_Cmd :: string
  sh_Cols :: "16 word"
  sh_Rows :: "16 word"

record forward_header =
  fh_Port :: "32 word"

record exec_header =
  eh_Cmd :: "string list"

definition ExecStdout :: "8 word" where "ExecStdout = 1"
definition ExecStderr :: "8 word" where "ExecStderr = 2"
definition ExecExit :: "8 word" where "ExecExit = 3"
definition ExecStdin :: "8 word" where "ExecStdin = 4"
definition ExecStdinClose :: "8 word" where "ExecStdinClose = 5"

definition maxFrame :: nat where "maxFrame = 65536"

section \<open>Exec frames\<close>

definition WriteExecData :: "8 word \<Rightarrow> bytes \<Rightarrow> writer \<Rightarrow> unit result \<times> writer" where
  "WriteExecData ty data w =
     (if length data > maxFrame
      then (Inl (Errorf (''agentproto: exec data frame too large ('' @ show_nat (length data) @ '')'')), w)
      else case Write (ty # PutUint32 (length data)) w of
        (Inl e, w1) \<Rightarrow> (Inl e, w1)
      | (Inr _, w1) \<Rightarrow> Write data w1)"

definition WriteExecStdinClose :: "writer \<Rightarrow> unit result \<times> writer" where
  "WriteExecStdinClose w = Write (ExecStdinClose # PutUint32 0) w"

definition WriteExecExit :: "32 word \<Rightarrow> writer \<Rightarrow> unit result \<times> writer" where
  "WriteExecExit code w = Write (ExecExit # PutUint32 4 @ PutUint32 (unat code)) w"

text \<open>\<^verbatim>\<open>ReadExecFrame\<close> returns the type, the data (nil for an exit frame) and the exit code, a
  32-bit value that Go reads as signed.\<close>

definition ReadExecFrame :: "bytes \<Rightarrow> (8 word \<times> bytes \<times> 32 word) result \<times> bytes" where
  "ReadExecFrame r =
     (case ReadFull 5 r of
        (Inl e, r1) \<Rightarrow> (Inl e, r1)
      | (Inr h, r1) \<Rightarrow>
          (let ty = hd h; n = Uint32 (tl h) in
           if n > maxFrame then (Inl (Errorf (''agentproto: exec frame too large ('' @ show_nat n @ '')'')), r1)
           else case ReadFull n r1 of
             (Inl e, r2) \<Rightarrow> (Inl e, r2)
           | (Inr payload, r2) \<Rightarrow>
               if ty = ExecExit then
                 (if length payload \<noteq> 4
                  then (Inl (Errorf (''agentproto: bad exit frame length '' @ show_nat (length payload))), r2)
                  else (Inr (ty, [], of_nat (Uint32 payload)), r2))
               else (Inr (ty, payload, 0), r2)))"

section \<open>JSON frames\<close>

text \<open>\<open>marshal\<close> and \<open>unmarshal\<close> stand for \<^verbatim>\<open>encoding/json\<close> at the type of the frame.\<close>

definition writeFrame :: "('a \<Rightarrow> bytes result) \<Rightarrow> 'a \<Rightarrow> writer \<Rightarrow> unit result \<times> writer" where
  "writeFrame marshal v w =
     (case marshal v of
        Inl e \<Rightarrow> (Inl e, w)
      | Inr b \<Rightarrow>
          if length b > maxFrame
          then (Inl (Errorf (''agentproto: frame too large ('' @ show_nat (length b) @ '')'')), w)
          else (case Write (PutUint32 (length b)) w of
                  (Inl e, w1) \<Rightarrow> (Inl e, w1)
                | (Inr _, w1) \<Rightarrow> Write b w1))"

definition readFrame :: "(bytes \<Rightarrow> 'a result) \<Rightarrow> bytes \<Rightarrow> 'a result \<times> bytes" where
  "readFrame unmarshal r =
     (case ReadFull 4 r of
        (Inl e, r1) \<Rightarrow> (Inl e, r1)
      | (Inr h, r1) \<Rightarrow>
          (let n = Uint32 h in
           if n > maxFrame then (Inl (Errorf (''agentproto: frame too large ('' @ show_nat n @ '')'')), r1)
           else case ReadFull n r1 of
             (Inl e, r2) \<Rightarrow> (Inl e, r2)
           | (Inr b, r2) \<Rightarrow> (unmarshal b, r2)))"

text \<open>The codecs of the frames, by the tags of their structs. An empty command is a nil slice.\<close>

definition Marshal :: "('a \<Rightarrow> json) \<Rightarrow> 'a \<Rightarrow> bytes result" where
  "Marshal enc x = Inr (str_bytes (json_show (enc x)))"

definition Unmarshal :: "(json \<Rightarrow> 'a \<times> bool) \<Rightarrow> bytes \<Rightarrow> 'a result" where
  "Unmarshal dec b = Unmarshal_text dec (bytes_str b)"

definition enc_handshake :: "handshake \<Rightarrow> json" where
  "enc_handshake h = JObj [(''workspace_id'', JStr (hs_WorkspaceID h)), (''token'', JStr (hs_Token h))]"

definition dec_handshake :: "json \<Rightarrow> handshake \<times> bool" where
  "dec_handshake = dec_struct (\<lambda>ms.
     let (w, a) = get_field dec_str ''workspace_id'' ms []; (t, b) = get_field dec_str ''token'' ms []
     in (\<lparr> hs_WorkspaceID = w, hs_Token = t \<rparr>, a \<and> b)) \<lparr> hs_WorkspaceID = [], hs_Token = [] \<rparr>"

definition enc_open :: "open_frame \<Rightarrow> json" where
  "enc_open f = JObj [(''kind'', JStr (of_Kind f))]"

definition dec_open :: "json \<Rightarrow> open_frame \<times> bool" where
  "dec_open = dec_struct (\<lambda>ms. let (s, a) = get_field dec_str ''kind'' ms [] in (\<lparr> of_Kind = s \<rparr>, a)) \<lparr> of_Kind = [] \<rparr>"

definition enc_shell :: "shell_header \<Rightarrow> json" where
  "enc_shell h = JObj [(''cmd'', JStr (sh_Cmd h)), (''cols'', JNum (show_nat (unat (sh_Cols h)))), (''rows'', JNum (show_nat (unat (sh_Rows h))))]"

definition dec_shell :: "json \<Rightarrow> shell_header \<times> bool" where
  "dec_shell = dec_struct (\<lambda>ms.
     let (s, a) = get_field dec_str ''cmd'' ms []; (c, b) = get_field (dec_uint 65536) ''cols'' ms 0; (r, d) = get_field (dec_uint 65536) ''rows'' ms 0
     in (\<lparr> sh_Cmd = s, sh_Cols = of_nat c, sh_Rows = of_nat r \<rparr>, a \<and> b \<and> d)) \<lparr> sh_Cmd = [], sh_Cols = 0, sh_Rows = 0 \<rparr>"

definition enc_forward :: "forward_header \<Rightarrow> json" where
  "enc_forward h = JObj [(''port'', JNum (show_nat (unat (fh_Port h))))]"

definition dec_forward :: "json \<Rightarrow> forward_header \<times> bool" where
  "dec_forward = dec_struct (\<lambda>ms. let (p, a) = get_field (dec_uint 4294967296) ''port'' ms 0 in (\<lparr> fh_Port = of_nat p \<rparr>, a)) \<lparr> fh_Port = 0 \<rparr>"

definition enc_exec :: "exec_header \<Rightarrow> json" where
  "enc_exec h = JObj [(''cmd'', if eh_Cmd h = [] then JNull else JArr (map JStr (eh_Cmd h)))]"

definition dec_exec :: "json \<Rightarrow> exec_header \<times> bool" where
  "dec_exec = dec_struct (\<lambda>ms. let (c, a) = get_field dec_strs ''cmd'' ms [] in (\<lparr> eh_Cmd = c \<rparr>, a)) \<lparr> eh_Cmd = [] \<rparr>"

definition WriteHandshake :: "handshake \<Rightarrow> writer \<Rightarrow> unit result \<times> writer" where
  "WriteHandshake = writeFrame (Marshal enc_handshake)"

definition ReadHandshake :: "bytes \<Rightarrow> handshake result \<times> bytes" where
  "ReadHandshake = readFrame (Unmarshal dec_handshake)"

definition WriteOpenFrame :: "open_frame \<Rightarrow> writer \<Rightarrow> unit result \<times> writer" where
  "WriteOpenFrame = writeFrame (Marshal enc_open)"

definition ReadOpenFrame :: "bytes \<Rightarrow> open_frame result \<times> bytes" where
  "ReadOpenFrame = readFrame (Unmarshal dec_open)"

definition WriteShellHeader :: "shell_header \<Rightarrow> writer \<Rightarrow> unit result \<times> writer" where
  "WriteShellHeader = writeFrame (Marshal enc_shell)"

definition ReadShellHeader :: "bytes \<Rightarrow> shell_header result \<times> bytes" where
  "ReadShellHeader = readFrame (Unmarshal dec_shell)"

definition WriteForwardHeader :: "forward_header \<Rightarrow> writer \<Rightarrow> unit result \<times> writer" where
  "WriteForwardHeader = writeFrame (Marshal enc_forward)"

definition ReadForwardHeader :: "bytes \<Rightarrow> forward_header result \<times> bytes" where
  "ReadForwardHeader = readFrame (Unmarshal dec_forward)"

definition WriteExecHeader :: "exec_header \<Rightarrow> writer \<Rightarrow> unit result \<times> writer" where
  "WriteExecHeader = writeFrame (Marshal enc_exec)"

definition ReadExecHeader :: "bytes \<Rightarrow> exec_header result \<times> bytes" where
  "ReadExecHeader = readFrame (Unmarshal dec_exec)"

context json_codec
begin

lemma roundtrip: "fine x \<Longrightarrow> Marshal enc x = Inr b \<Longrightarrow> Unmarshal dec b = Inr x"
  by (auto simp: Marshal_def Unmarshal_def text_roundtrip)

lemma marshal_length: "Marshal enc x = Inr b \<Longrightarrow> length b = length (json_show (enc x))"
  by (auto simp: Marshal_def)

end

lemma unat16_bound: "unat (x :: 16 word) < 65536"
  using unsigned_less [of x] by simp

lemma unat32_bound: "unat (x :: 32 word) < 4294967296"
  using unsigned_less [of x] by simp

lemmas codec_simps = dec_struct_def get_field_def to_valid_id int_text_show_nat fix_strs dec_strs_of

interpretation handshake_json: json_codec enc_handshake dec_handshake "\<lambda>h. valid_utf8 (hs_WorkspaceID h) \<and> valid_utf8 (hs_Token h)"
  by unfold_locales (simp_all add: enc_handshake_def dec_handshake_def codec_simps)

interpretation open_json: json_codec enc_open dec_open "\<lambda>f. valid_utf8 (of_Kind f)"
  by unfold_locales (simp_all add: enc_open_def dec_open_def codec_simps)

interpretation shell_json: json_codec enc_shell dec_shell "\<lambda>h. valid_utf8 (sh_Cmd h)"
  by unfold_locales (simp_all add: unat16_bound enc_shell_def dec_shell_def codec_simps)

interpretation forward_json: json_codec enc_forward dec_forward "\<lambda>_. True"
  by unfold_locales (simp_all add: unat32_bound enc_forward_def dec_forward_def codec_simps)

interpretation exec_json: json_codec enc_exec dec_exec "\<lambda>h. list_all valid_utf8 (eh_Cmd h)"
  by unfold_locales (simp_all add: enc_exec_def dec_exec_def codec_simps)

section \<open>The agent's output writer\<close>

definition execChunk :: nat where "execChunk = 32768"

function exec_write_loop :: "8 word \<Rightarrow> nat \<Rightarrow> bytes \<Rightarrow> writer \<Rightarrow> (nat \<times> unit result) \<times> writer" where
  "exec_write_loop ty tot p w =
     (if p = [] then ((tot, Inr ()), w)
      else (let n = min (length p) execChunk in
            case WriteExecData ty (take n p) w of
              (Inl e, w1) \<Rightarrow> ((tot, Inl e), w1)
            | (Inr _, w1) \<Rightarrow> exec_write_loop ty (tot + n) (drop n p) w1))"
  by auto

termination
  by (relation "measure (\<lambda>(ty, tot, p, w). length p)") (auto simp: execChunk_def)

declare exec_write_loop.simps [simp del]

definition execWriter_Write :: "8 word \<Rightarrow> bytes \<Rightarrow> writer \<Rightarrow> (nat \<times> unit result) \<times> writer" where
  "execWriter_Write ty p w = exec_write_loop ty 0 p w"

text \<open>Which handler of the agent serves a stream, with the bytes it has left to read (None: the stream
  is closed), and the command line of a shell.\<close>

datatype agent_handler = HandleForward | HandleExec | HandleSSH | HandleShell

definition handleStream :: "(bytes \<Rightarrow> open_frame result) \<Rightarrow> bytes \<Rightarrow> (agent_handler \<times> bytes) option" where
  "handleStream unmarshal stream =
     (case readFrame unmarshal stream of
        (Inl _, _) \<Rightarrow> None
      | (Inr f, rest) \<Rightarrow>
          Some (if of_Kind f = KindForward then HandleForward
                else if of_Kind f = KindExec then HandleExec
                else if of_Kind f = KindSSH then HandleSSH
                else HandleShell, rest))"

definition envWithout :: "string list \<Rightarrow> string \<Rightarrow> string list" where
  "envWithout environ key = filter (\<lambda>e. \<not> HasPrefix e (key @ ''='')) environ"

definition workspaceHome :: "(string \<Rightarrow> bool) \<Rightarrow> string" where
  "workspaceHome isDir =
     (case find isDir [''/home/dev'', ''/root''] of Some d \<Rightarrow> d | None \<Rightarrow> ''/'')"

record shell_command =
  cmd_Args :: "string list"
  cmd_Dir :: string
  cmd_Env :: "string list"

definition buildCommand :: "(string \<Rightarrow> bool) \<Rightarrow> string list \<Rightarrow> string \<Rightarrow> shell_command" where
  "buildCommand isDir environ spec0 =
     (let spec = (if spec0 = [] then ''/bin/bash'' else spec0);
          home = workspaceHome isDir
      in \<lparr> cmd_Args = (if CHR '' '' \<in> set spec then [''/bin/sh'', ''-c'', spec] else [spec]),
           cmd_Dir = home,
           cmd_Env = envWithout environ ''HOME'' @ [''TERM=xterm-256color'', ''HOME='' @ home] \<rparr>)"

section \<open>Round trips\<close>

lemma Write_ok: "wr_err w = None \<Longrightarrow> Write p w = (Inr (), w\<lparr>wr_out := wr_out w @ p\<rparr>)"
  by (simp add: Write_def)

definition exec_frame :: "8 word \<Rightarrow> bytes \<Rightarrow> bytes" where
  "exec_frame ty data = ty # PutUint32 (length data) @ data"

lemma WriteExecData_ok:
  "wr_err w = None \<Longrightarrow> length data \<le> maxFrame \<Longrightarrow>
     WriteExecData ty data w = (Inr (), w\<lparr>wr_out := wr_out w @ exec_frame ty data\<rparr>)"
  by (simp add: WriteExecData_def Write_def exec_frame_def)

lemma ReadExecFrame_frame:
  assumes "length data \<le> maxFrame" "ty \<noteq> ExecExit"
  shows "ReadExecFrame (exec_frame ty data @ r) = (Inr (ty, data, 0), r)"
proof -
  have "ReadFull 5 (exec_frame ty data @ r) = (Inr (ty # PutUint32 (length data)), data @ r)"
    by (simp add: exec_frame_def ReadFull_def PutUint32_def)
  with assms show ?thesis by (simp add: ReadExecFrame_def maxFrame_def)
qed

lemma ReadExecFrame_exit:
  "ReadExecFrame ((ExecExit # PutUint32 4 @ PutUint32 (unat code)) @ r) = (Inr (ExecExit, [], code), r)"
proof -
  have u: "unat code < 4294967296" using unsigned_less [of code] by simp
  have "ReadFull 5 ((ExecExit # PutUint32 4 @ PutUint32 (unat code)) @ r) = (Inr (ExecExit # PutUint32 4), PutUint32 (unat code) @ r)"
    by (simp add: ReadFull_def PutUint32_def)
  then show ?thesis using u by (simp add: ReadExecFrame_def maxFrame_def)
qed

text \<open>A JSON frame is read back as the value that was written, and the reader stops after it.\<close>

lemma writeFrame_ok:
  assumes "writeFrame m v w = (Inr (), w')"
  shows "\<exists>b. m v = Inr b \<and> length b \<le> maxFrame \<and> wr_err w = None \<and>
    w' = w\<lparr>wr_out := wr_out w @ PutUint32 (length b) @ b\<rparr>"
  using assms by (auto simp: writeFrame_def Write_def split: sum.splits if_splits option.splits)

lemma readFrame_frame:
  "length b \<le> maxFrame \<Longrightarrow> readFrame u (PutUint32 (length b) @ b @ r) = (u b, r)"
  by (simp add: readFrame_def maxFrame_def)

text \<open>The chunks a payload is cut into.\<close>

function exec_chunks :: "bytes \<Rightarrow> bytes list" where
  "exec_chunks p = (if p = [] then [] else take execChunk p # exec_chunks (drop execChunk p))"
  by auto

termination
  by (relation "measure length") (auto simp: execChunk_def)

declare exec_chunks.simps [simp del]

lemma exec_chunks_Nil [simp]: "exec_chunks [] = []"
  by (simp add: exec_chunks.simps)

lemma concat_exec_chunks: "concat (exec_chunks p) = p"
proof (induction p rule: exec_chunks.induct)
  case (1 p)
  then show ?case by (cases "p = []") (simp_all add: exec_chunks.simps [of p])
qed

lemma exec_chunks_bound: "c \<in> set (exec_chunks p) \<Longrightarrow> c \<noteq> [] \<and> length c \<le> execChunk"
proof (induction p rule: exec_chunks.induct)
  case (1 p)
  then show ?case by (cases "p = []") (auto simp: exec_chunks.simps [of p] execChunk_def)
qed

lemma execChunk_le_maxFrame: "execChunk \<le> maxFrame"
  by (simp add: execChunk_def maxFrame_def)

lemma exec_write_loop_chunks:
  assumes "wr_err w = None"
  shows "exec_write_loop ty tot p w =
    ((tot + length p, Inr ()), w\<lparr>wr_out := wr_out w @ concat (map (exec_frame ty) (exec_chunks p))\<rparr>)"
  using assms
proof (induction p arbitrary: tot w rule: exec_chunks.induct)
  case (1 p)
  show ?case
  proof (cases "p = []")
    case True
    then show ?thesis by (simp add: exec_write_loop.simps exec_chunks.simps)
  next
    case False
    have t: "take (min (length p) execChunk) p = take execChunk p" "drop (min (length p) execChunk) p = drop execChunk p"
      by (simp_all add: min_def)
    have "length (take execChunk p) \<le> maxFrame" using execChunk_le_maxFrame by simp
    from WriteExecData_ok [OF 1(2) this]
    have w: "WriteExecData ty (take execChunk p) w = (Inr (), w\<lparr>wr_out := wr_out w @ exec_frame ty (take execChunk p)\<rparr>)" .
    have "tot + min (length p) execChunk + length (drop execChunk p) = tot + length p" by simp
    with 1(1) [OF False, of "w\<lparr>wr_out := wr_out w @ exec_frame ty (take execChunk p)\<rparr>" "tot + min (length p) execChunk"] 1(2) w False
    show ?thesis
      unfolding exec_write_loop.simps [of ty tot p w] exec_chunks.simps [of p] Let_def t by simp
  qed
qed

text \<open>Reading a whole stream of frames.\<close>

fun read_frames :: "nat \<Rightarrow> bytes \<Rightarrow> (8 word \<times> bytes \<times> 32 word) list" where
  "read_frames 0 r = []"
| "read_frames (Suc k) r =
     (case ReadExecFrame r of (Inl _, _) \<Rightarrow> [] | (Inr f, r') \<Rightarrow> f # read_frames k r')"

lemma read_frames_map:
  assumes "ty \<noteq> ExecExit" "\<forall>c \<in> set cs. length c \<le> maxFrame"
  shows "read_frames (length cs) (concat (map (exec_frame ty) cs) @ r) = map (\<lambda>c. (ty, c, 0)) cs"
  using assms(2) by (induction cs) (simp_all add: ReadExecFrame_frame [OF _ assms(1)])

section \<open>Properties\<close>

text \<open>What the agent writes of a command's output is read back byte for byte by the other side:
  the writer reports the whole length, every frame is non-empty and within the frame cap, and the
  payloads of the frames, read one by one, concatenate to the output.\<close>

theorem exec_output_roundtrip:
  assumes "wr_err w = None" "ty \<noteq> ExecExit"
  shows "\<exists>cs. execWriter_Write ty p w = ((length p, Inr ()), w\<lparr>wr_out := wr_out w @ concat (map (exec_frame ty) cs)\<rparr>) \<and>
    (\<forall>c \<in> set cs. c \<noteq> [] \<and> length c \<le> maxFrame) \<and>
    read_frames (length cs) (concat (map (exec_frame ty) cs) @ r) = map (\<lambda>c. (ty, c, 0)) cs \<and>
    concat cs = p"
proof -
  have b: "\<forall>c \<in> set (exec_chunks p). c \<noteq> [] \<and> length c \<le> maxFrame"
    using exec_chunks_bound execChunk_le_maxFrame le_trans by blast
  show ?thesis
    using exec_write_loop_chunks [OF assms(1), of ty 0 p] read_frames_map [OF assms(2)] b concat_exec_chunks
    by (intro exI [of _ "exec_chunks p"]) (simp add: execWriter_Write_def)
qed

theorem exec_output_roundtrip_witness:
  "\<exists>cs. execWriter_Write ExecStdout [104, 105] \<lparr> wr_out = [], wr_err = None \<rparr> =
      ((2, Inr ()), \<lparr> wr_out = concat (map (exec_frame ExecStdout) cs), wr_err = None \<rparr>) \<and> concat cs = [104, 105]"
  using exec_output_roundtrip [of "\<lparr> wr_out = [], wr_err = None \<rparr>" ExecStdout "[104, 105]" "[]"]
  by (auto simp: ExecStdout_def ExecExit_def)

text \<open>The exit frame carries the whole 32-bit exit code, negative ones included, and nothing of
  the bytes that follow it.\<close>

theorem exec_exit_roundtrip:
  assumes "wr_err w = None"
  shows "\<exists>b. WriteExecExit code w = (Inr (), w\<lparr>wr_out := wr_out w @ b\<rparr>) \<and>
    (\<forall>r. ReadExecFrame (b @ r) = (Inr (ExecExit, [], code), r))"
  using assms ReadExecFrame_exit [of code]
  by (intro exI [of _ "ExecExit # PutUint32 4 @ PutUint32 (unat code)"]) (simp add: WriteExecExit_def Write_ok)

theorem exec_exit_roundtrip_witness:
  "\<exists>b. WriteExecExit (- 1) \<lparr> wr_out = [], wr_err = None \<rparr> = (Inr (), \<lparr> wr_out = b, wr_err = None \<rparr>) \<and>
    (\<forall>r. ReadExecFrame (b @ r) = (Inr (ExecExit, [], - 1), r))"
  using exec_exit_roundtrip [of "\<lparr> wr_out = [], wr_err = None \<rparr>" "- 1"] by simp

end
