(* ===== verification/Agent_Hub.thy ===== *)
theory Agent_Hub
  imports Agent_Proto
begin

text \<open>
  The daemon's side of the agents' reverse connections (\<^verbatim>\<open>internal/agenthub/agenthub.go\<close>): the
  table of sessions, registration and removal, the acceptance of an agent's dial, and the streams
  opened on a session. A yamux session is an opaque number; whether it is closed is part of the
  state, changed by the environment. \<open>Register\<close> and \<open>Unregister\<close> are split where the code
  releases its lock and then reports to the sink, so that the interleavings of several
  connections are steps of a relation.
\<close>

section \<open>The hub\<close>

record hub =
  hb_sessions :: "string \<Rightarrow> nat option"
  hb_closed :: "nat \<Rightarrow> bool"

definition hub_New :: hub where
  "hub_New = \<lparr> hb_sessions = (\<lambda>_. None), hb_closed = (\<lambda>_. False) \<rparr>"

text \<open>The locked part of \<^verbatim>\<open>Register\<close> and of \<^verbatim>\<open>Unregister\<close>, then the whole functions with their
  report to the sink.\<close>

definition register_locked :: "string \<Rightarrow> nat \<Rightarrow> hub \<Rightarrow> bool \<times> hub" where
  "register_locked ws sess h =
     (case hb_sessions h ws of
        Some old \<Rightarrow>
          if \<not> hb_closed h old then (False, h)
          else (True, h\<lparr>hb_sessions := (hb_sessions h)(ws \<mapsto> sess), hb_closed := (hb_closed h)(old := True)\<rparr>)
      | None \<Rightarrow> (True, h\<lparr>hb_sessions := (hb_sessions h)(ws \<mapsto> sess)\<rparr>))"

definition unregister_locked :: "string \<Rightarrow> nat \<Rightarrow> hub \<Rightarrow> bool \<times> hub" where
  "unregister_locked ws sess h =
     (if hb_sessions h ws \<noteq> Some sess then (False, h)
      else (True, h\<lparr>hb_sessions := (hb_sessions h)(ws := None)\<rparr>))"

definition sink_report :: "(string \<Rightarrow> bool \<Rightarrow> 'q \<Rightarrow> 'q) option \<Rightarrow> string \<Rightarrow> bool \<Rightarrow> 'q \<Rightarrow> 'q" where
  "sink_report sink ws conn q = (case sink of None \<Rightarrow> q | Some f \<Rightarrow> f ws conn q)"

definition Register :: "(string \<Rightarrow> bool \<Rightarrow> 'q \<Rightarrow> 'q) option \<Rightarrow> string \<Rightarrow> nat \<Rightarrow> hub \<times> 'q \<Rightarrow> bool \<times> hub \<times> 'q" where
  "Register sink ws sess = (\<lambda>(h, q).
     let (ok, h') = register_locked ws sess h in (ok, h', if ok then sink_report sink ws True q else q))"

definition Unregister :: "(string \<Rightarrow> bool \<Rightarrow> 'q \<Rightarrow> 'q) option \<Rightarrow> string \<Rightarrow> nat \<Rightarrow> hub \<times> 'q \<Rightarrow> hub \<times> 'q" where
  "Unregister sink ws sess = (\<lambda>(h, q).
     let (ok, h') = unregister_locked ws sess h in (h', if ok then sink_report sink ws False q else q))"

definition Connected :: "string \<Rightarrow> hub \<Rightarrow> bool" where
  "Connected ws h = (case hb_sessions h ws of None \<Rightarrow> False | Some s \<Rightarrow> \<not> hb_closed h s)"

text \<open>A dial up to the registration: \<open>resolve\<close> is the token resolver, \<open>unmarshal\<close> the JSON decoder of
  the handshake, \<open>client\<close> the outcome of starting yamux on the connection (a session). The result is
  the workspace whose agent it became.\<close>

definition accept :: "(bytes \<Rightarrow> handshake result) \<Rightarrow> (string \<Rightarrow> 's \<Rightarrow> string result \<times> 's) \<Rightarrow> nat result \<Rightarrow>
    (string \<Rightarrow> bool \<Rightarrow> 'q \<Rightarrow> 'q) option \<Rightarrow> bytes \<Rightarrow> hub \<times> 'q \<times> 's \<Rightarrow> string option \<times> hub \<times> 'q \<times> 's" where
  "accept unmarshal resolve client sink conn = (\<lambda>(h, q, s).
     case readFrame unmarshal conn of
       (Inl _, _) \<Rightarrow> (None, h, q, s)
     | (Inr hs, _) \<Rightarrow>
         (case resolve (hs_Token hs) s of
            (Inl _, s') \<Rightarrow> (None, h, q, s')
          | (Inr wsID, s') \<Rightarrow>
              if hs_WorkspaceID hs \<noteq> [] \<and> hs_WorkspaceID hs \<noteq> wsID then (None, h, q, s')
              else (case client of
                      Inl _ \<Rightarrow> (None, h, q, s')
                    | Inr sess \<Rightarrow>
                        (let (ok, h', q') = Register sink wsID sess (h, q) in
                         if ok then (Some wsID, h', q', s')
                         else (None, h'\<lparr>hb_closed := (hb_closed h')(sess := True)\<rparr>, q', s')))))"

section \<open>Streams\<close>

text \<open>\<open>open\<close> is yamux's \<^verbatim>\<open>OpenStream\<close>: the writer of a new stream on a session.\<close>

definition openStream :: "(nat \<Rightarrow> writer result) \<Rightarrow> string \<Rightarrow> hub \<Rightarrow> writer result" where
  "openStream opn ws h =
     (case hb_sessions h ws of
        Some s \<Rightarrow>
          if hb_closed h s then Inl (Errorf (''agenthub: workspace '' @ quoted ws @ '' has no connected agent''))
          else (case opn s of Inl e \<Rightarrow> Inl (Wrapf ''agenthub: open stream: '' e) | Inr w \<Rightarrow> Inr w)
      | None \<Rightarrow> Inl (Errorf (''agenthub: workspace '' @ quoted ws @ '' has no connected agent'')))"

definition open_kind :: "(nat \<Rightarrow> writer result) \<Rightarrow> (open_frame \<Rightarrow> bytes result) \<Rightarrow> string \<Rightarrow> string \<Rightarrow> hub \<Rightarrow> writer result" where
  "open_kind opn mOpen kind ws h =
     rbind (openStream opn ws h) (\<lambda>w.
       case writeFrame mOpen \<lparr> of_Kind = kind \<rparr> w of
         (Inl e, _) \<Rightarrow> Inl (Wrapf ''agenthub: write open frame: '' e)
       | (Inr _, w1) \<Rightarrow> Inr w1)"

definition write_header :: "string \<Rightarrow> ('a \<Rightarrow> bytes result) \<Rightarrow> 'a \<Rightarrow> writer \<Rightarrow> writer result" where
  "write_header what m hdr w =
     (case writeFrame m hdr w of
        (Inl e, _) \<Rightarrow> Inl (Wrapf (''agenthub: write '' @ what @ '' header: '') e)
      | (Inr _, w1) \<Rightarrow> Inr w1)"

definition OpenShell :: "(nat \<Rightarrow> writer result) \<Rightarrow> (open_frame \<Rightarrow> bytes result) \<Rightarrow> (shell_header \<Rightarrow> bytes result) \<Rightarrow>
    string \<Rightarrow> shell_header \<Rightarrow> hub \<Rightarrow> writer result" where
  "OpenShell opn mOpen mShell ws hdr h =
     rbind (open_kind opn mOpen KindShell ws h) (write_header ''shell'' mShell hdr)"

definition OpenForward :: "(nat \<Rightarrow> writer result) \<Rightarrow> (open_frame \<Rightarrow> bytes result) \<Rightarrow> (forward_header \<Rightarrow> bytes result) \<Rightarrow>
    string \<Rightarrow> 32 word \<Rightarrow> hub \<Rightarrow> writer result" where
  "OpenForward opn mOpen mFwd ws port h =
     rbind (open_kind opn mOpen KindForward ws h) (write_header ''forward'' mFwd \<lparr> fh_Port = port \<rparr>)"

definition OpenSSH :: "(nat \<Rightarrow> writer result) \<Rightarrow> (open_frame \<Rightarrow> bytes result) \<Rightarrow> string \<Rightarrow> hub \<Rightarrow> writer result" where
  "OpenSSH opn mOpen ws h = open_kind opn mOpen KindSSH ws h"

definition OpenExec :: "(nat \<Rightarrow> writer result) \<Rightarrow> (open_frame \<Rightarrow> bytes result) \<Rightarrow> (exec_header \<Rightarrow> bytes result) \<Rightarrow>
    string \<Rightarrow> string list \<Rightarrow> hub \<Rightarrow> writer result" where
  "OpenExec opn mOpen mExec ws cmd h =
     rbind (open_kind opn mOpen KindExec ws h) (write_header ''exec'' mExec \<lparr> eh_Cmd = cmd \<rparr>)"

section \<open>Interleavings\<close>

text \<open>The state of the system: the hub, the reports to the sink that have been decided under the lock
  but not yet delivered (each by its own goroutine), and what the sink has been told last of each
  workspace.\<close>

type_synonym hub_sys = "hub \<times> (string \<times> bool) list \<times> (string \<Rightarrow> bool)"

inductive hub_step :: "hub_sys \<Rightarrow> hub_sys \<Rightarrow> bool" where
  registered: "register_locked ws sess h = (True, h') \<Longrightarrow> hub_step (h, pend, v) (h', pend @ [(ws, True)], v)"
| refused: "register_locked ws sess h = (False, h') \<Longrightarrow>
    hub_step (h, pend, v) (h'\<lparr>hb_closed := (hb_closed h')(sess := True)\<rparr>, pend, v)"
| dropped: "hub_step (h, pend, v) (h\<lparr>hb_closed := (hb_closed h)(sess := True)\<rparr>, pend, v)"
| unregistered: "hb_closed h sess \<Longrightarrow> unregister_locked ws sess h = (True, h') \<Longrightarrow>
    hub_step (h, pend, v) (h', pend @ [(ws, False)], v)"
| ignored: "unregister_locked ws sess h = (False, h') \<Longrightarrow> hub_step (h, pend, v) (h', pend, v)"
| reported: "(ws, conn) \<in> set pend \<Longrightarrow> hub_step (h, pend, v) (h, remove1 (ws, conn) pend, v(ws := conn))"

inductive_cases hub_stepE: "hub_step a b"

definition init_sys :: hub_sys where
  "init_sys = (hub_New, [], \<lambda>_. False)"

lemma register_locked_cases:
  "register_locked ws sess h = (ok, h') \<Longrightarrow>
    (if ok then hb_sessions h' = (hb_sessions h)(ws \<mapsto> sess) \<and>
       (\<forall>s. hb_sessions h ws = Some s \<longrightarrow> hb_closed h s) \<and> (\<forall>s. hb_closed h s \<longrightarrow> hb_closed h' s)
     else h' = h)"
  by (auto simp: register_locked_def split: option.splits if_splits)

lemma unregister_locked_cases:
  "unregister_locked ws sess h = (ok, h') \<Longrightarrow>
    hb_closed h' = hb_closed h \<and>
    (if ok then hb_sessions h ws = Some sess \<and> hb_sessions h' = (hb_sessions h)(ws := None) else h' = h)"
  by (auto simp: unregister_locked_def split: if_splits)

text \<open>A session that is registered and alive stays registered; a closed one never comes alive.\<close>

lemma hub_step_live:
  assumes "hub_step (h, pend, v) (h', pend', v')" "hb_sessions h ws = Some s" "\<not> hb_closed h' s"
  shows "hb_sessions h' ws = Some s \<and> \<not> hb_closed h s"
  using assms
  by (auto elim!: hub_stepE dest!: register_locked_cases unregister_locked_cases split: if_splits)

lemma hub_step_closed:
  assumes "hub_step (h, pend, v) (h', pend', v')" "hb_closed h s"
  shows "hb_closed h' s"
  using assms
  by (auto elim!: hub_stepE dest!: register_locked_cases unregister_locked_cases split: if_splits)

text \<open>What the open and header writes leave on a stream.\<close>

lemma open_kind_frame:
  assumes "open_kind opn mOpen k ws h = Inr w1"
  shows "\<exists>s w b. Connected ws h \<and> opn s = Inr w \<and> mOpen \<lparr> of_Kind = k \<rparr> = Inr b \<and> length b \<le> maxFrame \<and>
    wr_out w1 = wr_out w @ PutUint32 (length b) @ b"
proof -
  from assms obtain s w where w: "hb_sessions h ws = Some s" "\<not> hb_closed h s" "opn s = Inr w"
      "writeFrame mOpen \<lparr> of_Kind = k \<rparr> w = (Inr (), w1)"
    by (auto simp: open_kind_def openStream_def split: option.splits if_splits sum.splits prod.splits)
  from writeFrame_ok [OF w(4)] w(1-3) show ?thesis by (fastforce simp: Connected_def)
qed

lemma header_frame:
  assumes "rbind x (write_header what m hdr) = Inr w"
  shows "\<exists>w1 b. x = Inr w1 \<and> m hdr = Inr b \<and> length b \<le> maxFrame \<and> wr_err w = None \<and> wr_out w = wr_out w1 @ PutUint32 (length b) @ b"
  using assms
  by (cases x) (auto simp: write_header_def split: sum.splits prod.splits dest!: writeFrame_ok)

section \<open>Properties\<close>

text \<open>C5: an agent cannot be displaced: through any sequence of dials, drops, removals and reports of
  any number of connections, a session that was registered for a workspace and is still alive is
  still its registered session. In particular a second agent, started by a box occupant with the
  box's own token, is turned away.\<close>

theorem live_agent_never_displaced:
  assumes "hub_step\<^sup>*\<^sup>* (h, pend, v) (h', pend', v')" "hb_sessions h ws = Some s" "\<not> hb_closed h' s"
  shows "hb_sessions h' ws = Some s \<and> Connected ws h'"
proof -
  have "hb_sessions (fst y) ws = Some s" if "hub_step\<^sup>*\<^sup>* x y" "hb_sessions (fst x) ws = Some s" "\<not> hb_closed (fst y) s" for x y
    using that
  proof (induction rule: rtranclp_induct)
    case base
    then show ?case by simp
  next
    case (step y z)
    obtain hy py vy hz pz vz where yz: "y = (hy, py, vy)" "z = (hz, pz, vz)" by (metis prod_cases3)
    from step(2,5) yz have "\<not> hb_closed hy s" using hub_step_closed [of hy py vy hz pz vz s] by auto
    with step yz hub_step_live [of hy py vy hz pz vz ws s] show ?case by simp
  qed
  from this [OF assms(1)] assms(2,3) show ?thesis by (simp add: Connected_def)
qed

theorem live_agent_never_displaced_witness:
  "Connected ''w1'' (snd (register_locked ''w1'' 8 (snd (register_locked ''w1'' 7 hub_New))))"
proof -
  let ?h = "snd (register_locked ''w1'' 7 hub_New)"
  have r: "register_locked ''w1'' 8 ?h = (False, ?h)" by (simp add: register_locked_def hub_New_def)
  have "hub_step (?h, [], \<lambda>_. False) (?h\<lparr>hb_closed := (hb_closed ?h)(8 := True)\<rparr>, [], \<lambda>_. False)"
    using hub_step.refused [OF r] by simp
  then have "hub_step\<^sup>*\<^sup>* (?h, [], \<lambda>_. False) (?h\<lparr>hb_closed := (hb_closed ?h)(8 := True)\<rparr>, [], \<lambda>_. False)" by blast
  from live_agent_never_displaced [OF this, of "''w1''" 7] show ?thesis
    unfolding r by (simp add: register_locked_def hub_New_def Connected_def)
qed

text \<open>C6: only an agent whose token resolves to the workspace it names (or that names none) becomes its
  agent, and only if no live agent owns the workspace; a rejected dial leaves the session table and
  the sink as they were.\<close>

theorem accept_sound:
  assumes "accept unmarshal resolve client sink conn (h, q, s) = (r, h', q', s')"
  shows "case r of
      None \<Rightarrow> hb_sessions h' = hb_sessions h \<and> q' = q
    | Some wsID \<Rightarrow> (\<exists>hs rest sess. readFrame unmarshal conn = (Inr hs, rest) \<and>
        fst (resolve (hs_Token hs) s) = Inr wsID \<and> hs_WorkspaceID hs \<in> {[], wsID} \<and> client = Inr sess \<and>
        \<not> Connected wsID h \<and> hb_sessions h' = (hb_sessions h)(wsID \<mapsto> sess) \<and> q' = sink_report sink wsID True q)"
proof -
  obtain rf rest where f: "readFrame unmarshal conn = (rf, rest)" by fastforce
  show ?thesis
  proof (cases rf)
    case (Inl e)
    with assms f show ?thesis by (auto simp: accept_def)
  next
    case (Inr hs)
    obtain rr sr where rs: "resolve (hs_Token hs) s = (rr, sr)" by fastforce
    show ?thesis
    proof (cases rr)
      case (Inl e)
      with assms f Inr rs show ?thesis by (auto simp: accept_def)
    next
      case R: (Inr wsID)
      show ?thesis
      proof (cases "(hs_WorkspaceID hs \<noteq> [] \<and> hs_WorkspaceID hs \<noteq> wsID) \<or> (\<exists>e. client = Inl e)")
        case True
        with assms f Inr rs R show ?thesis by (auto simp: accept_def split: if_splits sum.splits)
      next
        case False
        then obtain sess where c: "client = Inr sess" by (cases client) auto
        obtain ok h1 where g: "register_locked wsID sess h = (ok, h1)" by fastforce
        with assms f Inr rs R False c have *: "r = (if ok then Some wsID else None)"
          "hb_sessions h' = hb_sessions h1" "q' = (if ok then sink_report sink wsID True q else q)"
          by (auto simp: accept_def Register_def split: if_splits)
        have "ok \<Longrightarrow> \<not> Connected wsID h"
          using register_locked_cases [OF g] by (auto simp: Connected_def split: option.splits)
        with * register_locked_cases [OF g] f Inr rs R False c show ?thesis by (cases ok) auto
      qed
    qed
  qed
qed

theorem accept_sound_witness:
  "fst (accept (\<lambda>b. Inr \<lparr> hs_WorkspaceID = ''w2'', hs_Token = ''t'' \<rparr>) (\<lambda>t s. (Inr ''w1'', s)) (Inr 7) None [0, 0, 0, 0] (hub_New, (), ())) = None \<and>
   hb_sessions (fst (snd (accept (\<lambda>b. Inr \<lparr> hs_WorkspaceID = ''w2'', hs_Token = ''t'' \<rparr>) (\<lambda>t s. (Inr ''w1'', s)) (Inr 7) None [0, 0, 0, 0] (hub_New, (), ())))) =
     hb_sessions hub_New"
proof -
  let ?a = "accept (\<lambda>b. Inr \<lparr> hs_WorkspaceID = ''w2'', hs_Token = ''t'' \<rparr>) (\<lambda>t s. (Inr ''w1'', s)) (Inr 7) None [0, 0, 0, 0] (hub_New, (), ())"
  have n: "fst ?a = None" by (simp add: accept_def readFrame_def ReadFull_def Uint32_def maxFrame_def)
  have "?a = (None, fst (snd ?a), fst (snd (snd ?a)), snd (snd (snd ?a)))" using n by (metis prod.collapse)
  from accept_sound [OF this] n show ?thesis by simp
qed

text \<open>A stream the hub opens reaches the handler it was opened for, with its header intact: what
  \<^verbatim>\<open>OpenExec\<close> and \<^verbatim>\<open>OpenForward\<close> write on a fresh stream is dispatched by the agent to the exec and
  forward handlers, which read back the command and the port, and what \<^verbatim>\<open>OpenSSH\<close> writes leaves the
  SSH handler at the start of the raw pipe. A stream exists only for a workspace whose agent is
  connected.\<close>

theorem streams_reach_handler:
  assumes fresh: "\<And>s w. opn s = Inr w \<Longrightarrow> wr_out w = []"
  shows "(OpenExec opn (Marshal enc_open) (Marshal enc_exec) ws cmd h = Inr w \<and> list_all valid_utf8 cmd \<longrightarrow> Connected ws h \<and>
      (\<exists>r. handleStream (Unmarshal dec_open) (wr_out w @ raw) = Some (HandleExec, r) \<and> ReadExecHeader r = (Inr \<lparr> eh_Cmd = cmd \<rparr>, raw))) \<and>
    (OpenForward opn (Marshal enc_open) (Marshal enc_forward) ws port h = Inr w \<longrightarrow> Connected ws h \<and>
      (\<exists>r. handleStream (Unmarshal dec_open) (wr_out w @ raw) = Some (HandleForward, r) \<and> ReadForwardHeader r = (Inr \<lparr> fh_Port = port \<rparr>, raw))) \<and>
    (OpenSSH opn (Marshal enc_open) ws h = Inr w \<longrightarrow> Connected ws h \<and> handleStream (Unmarshal dec_open) (wr_out w @ raw) = Some (HandleSSH, raw))"
proof -
  have kind: "Connected ws h \<and> (\<exists>b. wr_out w1 = PutUint32 (length b) @ b \<and> length b \<le> maxFrame \<and> Unmarshal dec_open b = Inr \<lparr> of_Kind = k \<rparr>)"
    if "open_kind opn (Marshal enc_open) k ws h = Inr w1" "valid_utf8 k" for k w1
    using open_kind_frame [OF that(1)] open_json.roundtrip [of "\<lparr> of_Kind = k \<rparr>"] that(2) fresh by fastforce
  have headed: "Connected ws h \<and> (\<exists>b c. wr_out w = PutUint32 (length b) @ b @ PutUint32 (length c) @ c \<and> m hdr = Inr c \<and>
      length b \<le> maxFrame \<and> length c \<le> maxFrame \<and> Unmarshal dec_open b = Inr \<lparr> of_Kind = k \<rparr>)"
    if "rbind (open_kind opn (Marshal enc_open) k ws h) (write_header what m hdr) = Inr w" "valid_utf8 k"
    for k what hdr and m :: "'h \<Rightarrow> bytes result"
    using header_frame [OF that(1)] kind [OF _ that(2)] by fastforce
  have k: "valid_utf8 KindSSH" "valid_utf8 KindExec" "valid_utf8 KindForward" by (simp_all add: KindExec_def KindForward_def KindSSH_def)
  note defs = handleStream_def readFrame_frame KindExec_def KindForward_def KindSSH_def ReadExecHeader_def ReadForwardHeader_def
  have "OpenExec opn (Marshal enc_open) (Marshal enc_exec) ws cmd h = Inr w \<and> list_all valid_utf8 cmd \<longrightarrow> Connected ws h \<and>
      (\<exists>r. handleStream (Unmarshal dec_open) (wr_out w @ raw) = Some (HandleExec, r) \<and> ReadExecHeader r = (Inr \<lparr> eh_Cmd = cmd \<rparr>, raw))"
    using headed [of KindExec "''exec''" "Marshal enc_exec" "\<lparr> eh_Cmd = cmd \<rparr>", OF _ k(2)] exec_json.roundtrip [of "\<lparr> eh_Cmd = cmd \<rparr>"]
    by (auto simp: OpenExec_def defs)
  moreover have "OpenForward opn (Marshal enc_open) (Marshal enc_forward) ws port h = Inr w \<longrightarrow> Connected ws h \<and>
      (\<exists>r. handleStream (Unmarshal dec_open) (wr_out w @ raw) = Some (HandleForward, r) \<and> ReadForwardHeader r = (Inr \<lparr> fh_Port = port \<rparr>, raw))"
    using headed [of KindForward "''forward''" "Marshal enc_forward" "\<lparr> fh_Port = port \<rparr>", OF _ k(3)] forward_json.roundtrip [of "\<lparr> fh_Port = port \<rparr>"]
    by (auto simp: OpenForward_def defs)
  moreover have "OpenSSH opn (Marshal enc_open) ws h = Inr w \<longrightarrow> Connected ws h \<and> handleStream (Unmarshal dec_open) (wr_out w @ raw) = Some (HandleSSH, raw)"
    using kind [of KindSSH w, OF _ k(1)] by (auto simp: OpenSSH_def defs)
  ultimately show ?thesis by blast
qed

text \<open>The first two frames of a stream that runs \<^verbatim>\<open>ls\<close>.\<close>

lemma demo_open_exec:
  assumes "length c \<le> 100"
  shows "\<exists>w. OpenExec (\<lambda>_. Inr \<lparr> wr_out = [], wr_err = None \<rparr>) (Marshal enc_open) (Marshal enc_exec) ''w1'' [c] (snd (register_locked ''w1'' 7 hub_New)) = Inr w"
proof -
  have "length (json_show (enc_open \<lparr> of_Kind = KindExec \<rparr>)) \<le> maxFrame"
    using json_string_length [of "''kind''"] json_string_length [of KindExec] by (simp add: enc_open_def KindExec_def maxFrame_def)
  moreover have "length (json_show (enc_exec \<lparr> eh_Cmd = [c] \<rparr>)) \<le> maxFrame"
    using json_string_length [of "''cmd''"] json_string_length [of c] assms by (simp add: enc_exec_def maxFrame_def)
  ultimately show ?thesis
    by (simp add: OpenExec_def open_kind_def openStream_def write_header_def writeFrame_def Write_def Marshal_def
        register_locked_def hub_New_def)
qed

theorem streams_reach_handler_witness:
  "\<exists>w r. OpenExec (\<lambda>_. Inr \<lparr> wr_out = [], wr_err = None \<rparr>) (Marshal enc_open) (Marshal enc_exec) ''w1'' [''ls'']
       (snd (register_locked ''w1'' 7 hub_New)) = Inr w \<and>
     handleStream (Unmarshal dec_open) (wr_out w @ [9]) = Some (HandleExec, r) \<and> ReadExecHeader r = (Inr \<lparr> eh_Cmd = [''ls''] \<rparr>, [9])"
proof -
  let ?opn = "\<lambda>_ :: nat. Inr \<lparr> wr_out = [], wr_err = None \<rparr> :: writer result"
  let ?h = "snd (register_locked ''w1'' 7 hub_New)"
  obtain w where w: "OpenExec ?opn (Marshal enc_open) (Marshal enc_exec) ''w1'' [''ls''] ?h = Inr w" using demo_open_exec [of "''ls''"] by auto
  from streams_reach_handler [of ?opn "''w1''" "[''ls'']" ?h w "[9]" 0] w show ?thesis by auto
qed

text \<open>The report of a removal can overtake the report of a registration: the two calls of the sink
  are made after the lock is released, so a reachable state has the agent of a workspace connected,
  no report outstanding, and the sink told last that it is disconnected.\<close>

theorem late_disconnect_report:
  "\<exists>h v. hub_step\<^sup>*\<^sup>* init_sys (h, [], v) \<and> Connected ws h \<and> \<not> v ws"
proof -
  let ?h1 = "\<lparr> hb_sessions = [ws \<mapsto> 0], hb_closed = (\<lambda>_. False) \<rparr> :: hub"
  let ?h2 = "\<lparr> hb_sessions = [ws \<mapsto> 0], hb_closed = (\<lambda>_. False)(0 := True) \<rparr> :: hub"
  let ?h3 = "\<lparr> hb_sessions = (\<lambda>_. None), hb_closed = (\<lambda>_. False)(0 := True) \<rparr> :: hub"
  let ?h4 = "\<lparr> hb_sessions = [ws \<mapsto> 1], hb_closed = (\<lambda>_. False)(0 := True) \<rparr> :: hub"
  let ?f = "(\<lambda>_. False) :: string \<Rightarrow> bool"
  have "hub_step init_sys (?h1, [(ws, True)], ?f)"
    using hub_step.registered [of ws 0 hub_New ?h1 "[]" ?f] by (simp add: init_sys_def register_locked_def hub_New_def)
  moreover have "hub_step (?h1, [(ws, True)], ?f) (?h1, [], ?f(ws := True))"
    using hub_step.reported [of ws True "[(ws, True)]" ?h1 ?f] by simp
  moreover have "hub_step (?h1, [], ?f(ws := True)) (?h2, [], ?f(ws := True))"
    using hub_step.dropped [of ?h1 "[]" "?f(ws := True)" 0] by simp
  moreover have "hub_step (?h2, [], ?f(ws := True)) (?h3, [(ws, False)], ?f(ws := True))"
    using hub_step.unregistered [of ?h2 0 ws ?h3 "[]" "?f(ws := True)"] by (simp add: unregister_locked_def)
  moreover have "hub_step (?h3, [(ws, False)], ?f(ws := True)) (?h4, [(ws, False), (ws, True)], ?f(ws := True))"
    using hub_step.registered [of ws 1 ?h3 ?h4 "[(ws, False)]" "?f(ws := True)"] by (simp add: register_locked_def)
  moreover have "hub_step (?h4, [(ws, False), (ws, True)], ?f(ws := True)) (?h4, [(ws, False)], ?f(ws := True))"
    using hub_step.reported [of ws True "[(ws, False), (ws, True)]" ?h4 "?f(ws := True)"] by simp
  moreover have "hub_step (?h4, [(ws, False)], ?f(ws := True)) (?h4, [], ?f(ws := False))"
    using hub_step.reported [of ws False "[(ws, False)]" ?h4 "?f(ws := True)"] by simp
  ultimately have "hub_step\<^sup>*\<^sup>* init_sys (?h4, [], ?f(ws := False))"
    by (meson converse_rtranclp_into_rtranclp r_into_rtranclp)
  moreover have "Connected ws ?h4" by (simp add: Connected_def)
  ultimately show ?thesis by (intro exI [of _ ?h4] exI [of _ "?f(ws := False)"]) simp
qed

end
