(* ===== verification/Gateway.thy ===== *)
theory Gateway
  imports Box_Adapter Agent_Hub
begin

text \<open>
  The service gateway: the subdomain route table (\<^verbatim>\<open>providers/ingress/subdomain/subdomain.go\<close>), the HTTP
  handler that picks a workspace by the Host of a request (\<^verbatim>\<open>internal/gateway/gateway.go\<close>), the tunnel
  between a standalone gateway and the daemon (\<^verbatim>\<open>internal/gateway/tunnel.go\<close>), and the connector of the
  daemon that ends in a forward stream of the agent hub (\<^verbatim>\<open>cmd/hopboxd/gateway.go\<close>).

  A connection to a workspace is the writer of its stream. The JSON codec of the tunnel frames is a
  parameter. The contract of an ingress provider is a locale, in which the box hooks are shown to
  leave every requested port routed; the route table is its interpretation. How the reverse proxy of
  the library turns a connection into a response, and the copying of a bridge after it is set up,
  are not modelled.
\<close>

lemma ws_find_after_update:
  assumes "ws_find t i db = Some w" "w_Box w' = w_Box w" "ws_all db' = ws_upd now w' (ws_all db)"
  shows "\<exists>v. ws_find t i db' = Some v \<and> w_Endpoints v = w_Endpoints w' \<and> w_Ingress v = w_Ingress w'"
proof -
  let ?P = "\<lambda>w. b_TenantID (w_Box w) = t \<and> b_ID (w_Box w) = i"
  let ?g = "\<lambda>x. if b_TenantID (w_Box x) = b_TenantID (w_Box w') \<and> b_ID (w_Box x) = b_ID (w_Box w') then ws_overwrite now x w' else x"
  note k = ws_findD [OF assms(1)]
  have "find ?P (map ?g (ws_all db)) = map_option ?g (find ?P (ws_all db))"
    by (rule find_map_key) (use k assms(2) in \<open>auto simp: ws_overwrite_def overwrite_def persisted_def\<close>)
  with assms k show ?thesis by (simp add: ws_find_def ws_upd_def ws_overwrite_def)
qed

section \<open>The contract of an ingress provider\<close>

text \<open>\<open>target\<close> is where an endpoint reference leads: a workspace and a port. \<open>ref_of\<close> is the reference
  given to a name of a workspace.\<close>

locale ingress_contract =
  fixes I :: "'w ingress_ops" and target :: "'w \<Rightarrow> string \<Rightarrow> (string \<times> int) option"
    and ref_of :: "string \<Rightarrow> string \<Rightarrow> string" and good :: "'w \<Rightarrow> bool"
  assumes expose_ok: "good w \<Longrightarrow> ig_Expose I r w = (Inr ep, w') \<Longrightarrow>
      good w' \<and> ep_Ref ep = ref_of (er_WorkspaceID r) (er_Name r) \<and> ep_Name ep = er_Name r \<and> ep_Port ep = er_Port r \<and>
      target w' = (target w)(ep_Ref ep \<mapsto> (er_WorkspaceID r, er_Port r))"
    and expose_error: "ig_Expose I r w = (Inl e, w') \<Longrightarrow> w' = w"
    and unexpose: "good w \<Longrightarrow> ig_Unexpose I rf w = (ru, w') \<Longrightarrow>
      ru = Inr () \<and> good w' \<and> target w' = (target w)(rf := None)"
    and ref_inj: "ref_of i n = ref_of i n' \<Longrightarrow> n = n'"
begin

text \<open>The loop of \<^verbatim>\<open>PostRunning\<close>: one endpoint per port that had none, all of them routed, no other route
  changed.\<close>

lemma expose_missing_routes:
  assumes "expose_missing I i t known ips eps ch w = (Inr (eps', ch'), w')" "good w"
    and "distinct (map ip_Name ips)"
  shows "\<exists>new. eps' = eps @ new \<and> good w' \<and>
    map (\<lambda>e. (we_Name e, we_Port e, we_Ref e)) new =
      map (\<lambda>p. (ip_Name p, ip_Port p, ref_of i (ip_Name p))) (filter (\<lambda>p. ip_Name p \<notin> set known) ips) \<and>
    ch' = (ch \<or> new \<noteq> []) \<and>
    (\<forall>e \<in> set new. target w' (we_Ref e) = Some (i, we_Port e)) \<and>
    (\<forall>h. h \<notin> we_Ref ` set new \<longrightarrow> target w' h = target w h)"
  using assms
proof (induction ips arbitrary: eps ch w)
  case Nil
  then show ?case by simp
next
  case (Cons p ips)
  show ?case
  proof (cases "ip_Name p \<in> set known")
    case True
    with Cons show ?thesis by simp
  next
    case False
    let ?r = "\<lparr> er_WorkspaceID = i, er_Name = ip_Name p, er_Port = ip_Port p, er_Scheme = ''subdomain'', er_TenantID = t \<rparr>"
    from Cons.prems(1) False obtain ep w1 where x: "ig_Expose I ?r w = (Inr ep, w1)"
      by (auto split: sum.splits prod.splits)
    let ?e = "\<lparr> we_Name = ep_Name ep, we_URL = ep_URL ep, we_Port = ep_Port ep, we_Ref = ep_Ref ep \<rparr>"
    note ok = expose_ok [OF Cons.prems(2) x, simplified]
    from Cons.prems(1) False x have "expose_missing I i t known ips (eps @ [?e]) True w1 = (Inr (eps', ch'), w')" by simp
    from Cons.IH [OF this] ok Cons.prems(3) obtain new where new:
      "eps' = (eps @ [?e]) @ new" "good w'" "ch'"
      "map (\<lambda>e. (we_Name e, we_Port e, we_Ref e)) new =
        map (\<lambda>p. (ip_Name p, ip_Port p, ref_of i (ip_Name p))) (filter (\<lambda>p. ip_Name p \<notin> set known) ips)"
      "\<forall>e \<in> set new. target w' (we_Ref e) = Some (i, we_Port e)"
      "\<forall>h. h \<notin> we_Ref ` set new \<longrightarrow> target w' h = target w1 h" by auto
    have "we_Ref ` set new \<subseteq> ref_of i ` ip_Name ` set ips"
    proof -
      have "map we_Ref new = map (ref_of i \<circ> ip_Name) (filter (\<lambda>p. ip_Name p \<notin> set known) ips)"
        using arg_cong [OF new(4), of "map (snd \<circ> snd)"] by (simp add: comp_def)
      then have "set (map we_Ref new) = set (map (ref_of i \<circ> ip_Name) (filter (\<lambda>p. ip_Name p \<notin> set known) ips))" by simp
      then show ?thesis by auto
    qed
    moreover have "ref_of i (ip_Name p) \<notin> ref_of i ` ip_Name ` set ips"
      using Cons.prems(3) by (auto dest: ref_inj)
    ultimately have "ref_of i (ip_Name p) \<notin> we_Ref ` set new" by blast
    with new ok False show ?thesis by (intro exI [of _ "?e # new"]) simp
  qed
qed

lemma unexpose_all:
  assumes "good w"
  shows "good (fold (\<lambda>e c. snd (ig_Unexpose I (we_Ref e) c)) es w) \<and>
    target (fold (\<lambda>e c. snd (ig_Unexpose I (we_Ref e) c)) es w) =
      (\<lambda>h. if h \<in> we_Ref ` set es then None else target w h)"
  using assms
proof (induction es arbitrary: w)
  case (Cons e es)
  obtain ru w1 where u: "ig_Unexpose I (we_Ref e) w = (ru, w1)" by fastforce
  from unexpose [OF Cons.prems u] Cons.IH [of w1] u show ?case by auto
qed simp

text \<open>The hook after it: the stored endpoints are routed to the workspace, and each requested port has
  one.\<close>

lemma PostRunning_routes:
  assumes wf: "ws_wf db" and w: "ws_find (b_TenantID b) (b_ID b) db = Some w" and g: "good c"
    and names: "distinct (map ip_Name (w_Ingress w))"
    and old: "\<forall>e \<in> set (w_Endpoints w). we_Ref e = ref_of (b_ID b) (we_Name e) \<and> target c (we_Ref e) = Some (b_ID b, we_Port e)"
    and run: "PostRunning (NewHooks (sqlite_store now) storage (Some I) cfg) b (db, c) = (Inr (), db', c')"
  shows "\<exists>w'. ws_wf db' \<and> good c' \<and> ws_find (b_TenantID b) (b_ID b) db' = Some w' \<and>
    (\<forall>e \<in> set (w_Endpoints w'). we_Ref e = ref_of (b_ID b) (we_Name e) \<and> target c' (we_Ref e) = Some (b_ID b, we_Port e)) \<and>
    (\<forall>ip \<in> set (w_Ingress w). \<exists>e \<in> set (w_Endpoints w'). we_Name e = ip_Name ip \<and>
       (e \<in> set (w_Endpoints w) \<or> we_Port e = ip_Port ip)) \<and>
    (\<forall>h. h \<notin> we_Ref ` set (w_Endpoints w') \<longrightarrow> target c' h = target c h)"
proof -
  obtain rg sg where gt: "wsGet (sqlite_store now) (b_TenantID b) (b_ID b) db = (rg, sg)" by fastforce
  from run gt have "\<exists>v. rg = Inr v" by (cases rg) (auto simp: PostRunning_def NewHooks_def)
  with wsGet_sqlite [OF wf gt] w gt have gw: "wsGet (sqlite_store now) (b_TenantID b) (b_ID b) db = (Inr w, db)" by auto
  note id = ws_findD [OF w]
  show ?thesis
  proof (cases "w_Ingress w = []")
    case True
    with run gw have "db' = db" "c' = c" by (simp_all add: PostRunning_def NewHooks_def)
    with True w wf old g show ?thesis by (intro exI [of _ w]) auto
  next
    case False
    let ?known = "map we_Name (w_Endpoints w)"
    obtain eps ch where x: "expose_missing I (b_ID b) (b_TenantID b) ?known (w_Ingress w) (w_Endpoints w) False c = (Inr (eps, ch), c')"
        "(if ch then wsUpdate (sqlite_store now) (w\<lparr>w_Endpoints := eps\<rparr>) db = (Inr (), snd (wsUpdate (sqlite_store now) (w\<lparr>w_Endpoints := eps\<rparr>) db))
            \<and> db' = snd (snd (wsUpdate (sqlite_store now) (w\<lparr>w_Endpoints := eps\<rparr>) db)) else db' = db)"
      using run gw False id by (auto simp: PostRunning_def NewHooks_def split: sum.splits prod.splits if_splits)
    from expose_missing_routes [OF x(1) g names] obtain new where new: "eps = w_Endpoints w @ new" "good c'"
        "map (\<lambda>e. (we_Name e, we_Port e, we_Ref e)) new =
          map (\<lambda>p. (ip_Name p, ip_Port p, ref_of (b_ID b) (ip_Name p))) (filter (\<lambda>p. ip_Name p \<notin> set ?known) (w_Ingress w))"
        "ch = (new \<noteq> [])" "\<forall>e \<in> set new. target c' (we_Ref e) = Some (b_ID b, we_Port e)"
        "\<forall>h. h \<notin> we_Ref ` set new \<longrightarrow> target c' h = target c h" by auto
    let ?T = "\<lambda>e. (we_Name e, we_Port e, we_Ref e)"
    have T: "?T ` set new = (\<lambda>p. (ip_Name p, ip_Port p, ref_of (b_ID b) (ip_Name p))) ` {p \<in> set (w_Ingress w). ip_Name p \<notin> set ?known}"
      using arg_cong [OF new(3), of set] by simp
    have nr: "we_Ref e = ref_of (b_ID b) (we_Name e) \<and> we_Name e \<notin> set ?known" if "e \<in> set new" for e
    proof -
      from that have "?T e \<in> ?T ` set new" by (rule imageI)
      then obtain p where "p \<in> set (w_Ingress w)" "ip_Name p \<notin> set ?known"
          "?T e = (ip_Name p, ip_Port p, ref_of (b_ID b) (ip_Name p))" unfolding T by blast
      then show ?thesis by simp
    qed
    have dis: "we_Ref e \<notin> we_Ref ` set new" if "e \<in> set (w_Endpoints w)" for e
    proof
      assume "we_Ref e \<in> we_Ref ` set new"
      then obtain e' where e': "e' \<in> set new" "we_Ref e = we_Ref e'" by blast
      from nr [OF e'(1)] old that e'(2) have "ref_of (b_ID b) (we_Name e) = ref_of (b_ID b) (we_Name e')" by auto
      from ref_inj [OF this] have "we_Name e' \<in> set ?known" using that by (metis image_eqI list.set_map)
      with nr [OF e'(1)] show False by blast
    qed
    have cover: "\<exists>e \<in> set eps. we_Name e = ip_Name ip \<and> (e \<in> set (w_Endpoints w) \<or> we_Port e = ip_Port ip)"
      if ip: "ip \<in> set (w_Ingress w)" for ip
    proof (cases "ip_Name ip \<in> set ?known")
      case True
      then show ?thesis by (auto simp: new(1))
    next
      case False
      with ip have "(ip_Name ip, ip_Port ip, ref_of (b_ID b) (ip_Name ip)) \<in> ?T ` set new" unfolding T by blast
      then show ?thesis by (auto simp: new(1))
    qed
    have routed: "\<forall>e \<in> set eps. we_Ref e = ref_of (b_ID b) (we_Name e) \<and> target c' (we_Ref e) = Some (b_ID b, we_Port e)"
      using new(1,5,6) nr dis old by auto
    have stored: "ws_wf db' \<and> (\<exists>w'. ws_find (b_TenantID b) (b_ID b) db' = Some w' \<and> w_Endpoints w' = eps)"
    proof (cases ch)
      case True
      let ?w' = "w\<lparr>w_Endpoints := eps\<rparr>"
      from x(2) True obtain w'' where u: "wsUpdate (sqlite_store now) ?w' db = (Inr (), w'', db')" by (metis prod.collapse)
      then have uw: "UpdateWorkspace now ?w' db = (Inr (), w'', db')" by (simp add: sqlite_store_def)
      have "w_Box w \<in> set (ws_boxes db)" using id by (simp add: ws_boxes_def)
      then have "phase_ok (b_Phase (w_Box ?w'))" using wsbox.wf_row [OF wf] by simp
      from UpdateWorkspace_rows [OF wf this uw] have "ws_wf db'" "ws_all db' = ws_upd now ?w' (ws_all db)" by auto
      with ws_find_after_update [OF w, of ?w' db' now] show ?thesis by auto
    next
      case False
      with x(2) new wf w show ?thesis by auto
    qed
    then obtain w' where w': "ws_wf db'" "ws_find (b_TenantID b) (b_ID b) db' = Some w'" "w_Endpoints w' = eps" by blast
    have "\<forall>h. h \<notin> we_Ref ` set eps \<longrightarrow> target c' h = target c h" using new(1,6) by auto
    with w' routed cover new(2) show ?thesis by (intro exI [of _ w']) (unfold w'(3), blast)
  qed
qed

lemma PreDestroy_routes:
  assumes "ws_wf db" "ws_find (b_TenantID b) (b_ID b) db = Some w" "good c" "wd_fault db = None"
    and "PreDestroy (NewHooks (sqlite_store now) storage (Some I) cfg) b (db, c) = (r, db', c')"
  shows "r = Inr () \<and> db' = db \<and> target c' = (\<lambda>h. if h \<in> we_Ref ` set (w_Endpoints w) then None else target c h)"
proof -
  have "wsGet (sqlite_store now) (b_TenantID b) (b_ID b) db = (Inr w, db)"
    using GetWorkspace_find [OF assms(1,4)] assms(2) by (simp add: sqlite_store_def)
  with assms(5) unexpose_all [OF assms(3)] show ?thesis by (auto simp: PreDestroy_def NewHooks_def)
qed

end

section \<open>The route table\<close>

record route =
  rt_Host :: string
  rt_WorkspaceID :: string
  rt_Port :: int
  rt_Name :: string

record sub_provider =
  sd_zone :: string
  sd_byHost :: "string \<Rightarrow> route option"

definition sd_New :: "string \<Rightarrow> sub_provider" where
  "sd_New zone = \<lparr> sd_zone = TrimPrefix zone ''.'', sd_byHost = (\<lambda>_. None) \<rparr>"

definition sd_host :: "sub_provider \<Rightarrow> string \<Rightarrow> string \<Rightarrow> string" where
  "sd_host p workspaceID name = name @ ''-'' @ workspaceID @ ''.'' @ sd_zone p"

definition sd_Expose :: "expose_request \<Rightarrow> sub_provider \<Rightarrow> endpoint result \<times> sub_provider" where
  "sd_Expose r p =
     (if er_WorkspaceID r = [] \<or> er_Name r = []
      then (Inl (Errorf ''subdomain: workspace_id and name are required''), p)
      else if er_Port r \<le> 0
      then (Inl (Errorf (''subdomain: port must be > 0, got '' @ show_int (er_Port r))), p)
      else (let host = sd_host p (er_WorkspaceID r) (er_Name r) in
            (Inr \<lparr> ep_Ref = host, ep_URL = ''https://'' @ host, ep_Name = er_Name r, ep_Port = er_Port r \<rparr>,
             p\<lparr>sd_byHost := (sd_byHost p)(host \<mapsto>
               \<lparr> rt_Host = host, rt_WorkspaceID = er_WorkspaceID r, rt_Port = er_Port r, rt_Name = er_Name r \<rparr>)\<rparr>)))"

definition sd_Unexpose :: "string \<Rightarrow> sub_provider \<Rightarrow> unit result \<times> sub_provider" where
  "sd_Unexpose ref p = (Inr (), p\<lparr>sd_byHost := (sd_byHost p)(ref := None)\<rparr>)"

definition Lookup :: "string \<Rightarrow> sub_provider \<Rightarrow> route option" where
  "Lookup host p = sd_byHost p host"

text \<open>The provider as an ingress contract, beside the rest of the world \<open>'x\<close>.\<close>

definition subdomain_ingress :: "(sub_provider \<times> 'x) ingress_ops" where
  "subdomain_ingress = \<lparr>
     ig_Expose = (\<lambda>r (p, x). let (e, p') = sd_Expose r p in (e, p', x)),
     ig_Unexpose = (\<lambda>ref (p, x). let (u, p') = sd_Unexpose ref p in (u, p', x)) \<rparr>"

definition sd_target :: "sub_provider \<times> 'x \<Rightarrow> string \<Rightarrow> (string \<times> int) option" where
  "sd_target w h = map_option (\<lambda>r. (rt_WorkspaceID r, rt_Port r)) (Lookup h (fst w))"

lemma sd_host_inj: "sd_host p i n = sd_host q i n' \<Longrightarrow> sd_zone p = sd_zone q \<Longrightarrow> n = n'"
  by (simp add: sd_host_def)

interpretation subdom: ingress_contract "subdomain_ingress :: (sub_provider \<times> 'x) ingress_ops" sd_target
  "sd_host (sd_New z)" "\<lambda>w. sd_zone (fst w) = sd_zone (sd_New z)"
  by unfold_locales
    (auto simp: subdomain_ingress_def sd_Expose_def sd_Unexpose_def sd_target_def Lookup_def sd_host_def Let_def fun_eq_iff
      split: if_splits prod.splits)


text \<open>Workspace identifiers are hexadecimal, so a host determines its workspace.\<close>

lemma sd_host_determines:
  assumes "sd_host p i n = sd_host p i' n'" "CHR ''-'' \<notin> set i" "CHR ''-'' \<notin> set i'"
  shows "i = i' \<and> n = n'"
proof -
  have e: "n @ CHR ''-'' # i = n' @ CHR ''-'' # i'" using assms(1) by (simp add: sd_host_def)
  then have "LastIndex (CHR ''-'') (n @ CHR ''-'' # i) = LastIndex (CHR ''-'') (n' @ CHR ''-'' # i')" by simp
  then have "length n = length n'" using assms(2,3) by (simp add: LastIndex_append)
  with e show ?thesis by (simp add: append_eq_append_conv)
qed

text \<open>Every route was made by an \<^verbatim>\<open>Expose\<close> that passed its checks.\<close>

definition routes_wf :: "sub_provider \<Rightarrow> bool" where
  "routes_wf p \<longleftrightarrow> (\<forall>h r. Lookup h p = Some r \<longrightarrow>
     h = sd_host p (rt_WorkspaceID r) (rt_Name r) \<and> rt_Host r = h \<and> rt_Port r > 0 \<and> rt_WorkspaceID r \<noteq> [] \<and> rt_Name r \<noteq> [])"

lemma routes_wf_New [simp]: "routes_wf (sd_New z)"
  by (simp add: routes_wf_def sd_New_def Lookup_def)

lemma routes_wf_Expose: "routes_wf p \<Longrightarrow> routes_wf (snd (sd_Expose r p))"
  by (auto simp: routes_wf_def sd_Expose_def Lookup_def sd_host_def Let_def)

lemma routes_wf_Unexpose: "routes_wf p \<Longrightarrow> routes_wf (snd (sd_Unexpose h p))"
  by (auto simp: routes_wf_def sd_Unexpose_def Lookup_def sd_host_def)

section \<open>The gateway\<close>

datatype 'p gw_outcome = HttpError nat string | Proxied string 'p

definition ServeHTTP :: "(string \<Rightarrow> 'p result) \<Rightarrow> string \<Rightarrow> 'p gw_outcome" where
  "ServeHTTP connect rhost =
     (let host = (case SplitHostPort rhost of Some (h, _) \<Rightarrow> h | None \<Rightarrow> rhost) in
      case connect host of
        Inl e \<Rightarrow> if errors_Is e ErrNoRoute then HttpError 404 (''hopbox-gw: no route for host '' @ host)
                  else HttpError 502 (''hopbox-gw: connect: '' @ err_text e)
      | Inr upstream \<Rightarrow> Proxied host upstream)"

text \<open>The dialer given to the transport hands the connection out once; the handler closes it at its
  end if it was never handed out.\<close>

definition dial_upstream :: "'p \<Rightarrow> bool \<Rightarrow> 'p result \<times> bool" where
  "dial_upstream upstream used =
     (if used then (Inl (Errorf ''hopbox-gw: upstream conn already consumed''), used) else (Inr upstream, True))"

definition inProc_Connect :: "(nat \<Rightarrow> writer result) \<Rightarrow> (open_frame \<Rightarrow> bytes result) \<Rightarrow> (forward_header \<Rightarrow> bytes result) \<Rightarrow>
    sub_provider \<Rightarrow> hub \<Rightarrow> string \<Rightarrow> writer result" where
  "inProc_Connect opn mOpen mFwd ig h host =
     (case Lookup host ig of
        None \<Rightarrow> Inl ErrNoRoute
      | Some rt \<Rightarrow> OpenForward opn mOpen mFwd (rt_WorkspaceID rt) (of_int (rt_Port rt)) h)"

section \<open>The tunnel\<close>

record tunnel_header =
  th_Host :: string

record tunnel_response =
  tr_Status :: string
  tr_Reason :: string

definition maxTunnelFrame :: nat where "maxTunnelFrame = 65536"

definition tun_writeFrame :: "('a \<Rightarrow> bytes result) \<Rightarrow> 'a \<Rightarrow> writer \<Rightarrow> unit result \<times> writer" where
  "tun_writeFrame marshal v w =
     (case marshal v of
        Inl e \<Rightarrow> (Inl e, w)
      | Inr b \<Rightarrow>
          if length b > maxTunnelFrame
          then (Inl (Errorf (''gateway tunnel: frame too large ('' @ show_nat (length b) @ '')'')), w)
          else (case Write (PutUint32 (length b)) w of
                  (Inl e, w1) \<Rightarrow> (Inl e, w1)
                | (Inr _, w1) \<Rightarrow> Write b w1))"

definition tun_readFrame :: "(bytes \<Rightarrow> 'a result) \<Rightarrow> bytes \<Rightarrow> 'a result \<times> bytes" where
  "tun_readFrame unmarshal r =
     (case ReadFull 4 r of
        (Inl e, r1) \<Rightarrow> (Inl e, r1)
      | (Inr hdr, r1) \<Rightarrow>
          (let n = Uint32 hdr in
           if n > maxTunnelFrame then (Inl (Errorf (''gateway tunnel: frame too large ('' @ show_nat n @ '')'')), r1)
           else case ReadFull n r1 of
             (Inl e, r2) \<Rightarrow> (Inl e, r2)
           | (Inr b, r2) \<Rightarrow> (unmarshal b, r2)))"

text \<open>The codecs of the two frames.\<close>

definition enc_tunnel_header :: "tunnel_header \<Rightarrow> json" where
  "enc_tunnel_header h = JObj [(''host'', JStr (th_Host h))]"

definition dec_tunnel_header :: "json \<Rightarrow> tunnel_header \<times> bool" where
  "dec_tunnel_header = dec_struct (\<lambda>ms. let (s, a) = get_field dec_str ''host'' ms [] in (\<lparr> th_Host = s \<rparr>, a)) \<lparr> th_Host = [] \<rparr>"

definition enc_tunnel_response :: "tunnel_response \<Rightarrow> json" where
  "enc_tunnel_response r =
     JObj ((''status'', JStr (tr_Status r)) # (if tr_Reason r = [] then [] else [(''reason'', JStr (tr_Reason r))]))"

definition dec_tunnel_response :: "json \<Rightarrow> tunnel_response \<times> bool" where
  "dec_tunnel_response = dec_struct (\<lambda>ms.
     let (s, a) = get_field dec_str ''status'' ms []; (t, b) = get_field dec_str ''reason'' ms []
     in (\<lparr> tr_Status = s, tr_Reason = t \<rparr>, a \<and> b)) \<lparr> tr_Status = [], tr_Reason = [] \<rparr>"

interpretation tunnel_header_json: json_codec enc_tunnel_header dec_tunnel_header "\<lambda>h. valid_utf8 (th_Host h)"
  by unfold_locales (simp_all add: enc_tunnel_header_def dec_tunnel_header_def codec_simps)

interpretation tunnel_response_json: json_codec enc_tunnel_response dec_tunnel_response
  "\<lambda>r. valid_utf8 (tr_Status r) \<and> valid_utf8 (tr_Reason r)"
  by unfold_locales (auto simp add: enc_tunnel_response_def dec_tunnel_response_def codec_simps)

text \<open>A response always arrives, a reason that is no text with its stray bytes replaced.\<close>

lemma tunnel_response_arrives:
  assumes "valid_utf8 (tr_Status r)"
  shows "Unmarshal dec_tunnel_response (str_bytes (json_show (enc_tunnel_response r))) = Inr (r\<lparr>tr_Reason := to_valid (tr_Reason r)\<rparr>)"
  using assms tunnel_response_json.parse_enc [of r]
  by (simp add: Unmarshal_def Unmarshal_text_def) (simp add: enc_tunnel_response_def dec_tunnel_response_def codec_simps)

text \<open>One tunnel connection at the server up to the bridge: the upstream and the client's bytes that are
  copied to it, if the request got that far, and what the client has been sent.\<close>

definition tunnel_handle :: "(string \<Rightarrow> 'p result) \<Rightarrow> (bytes \<Rightarrow> tunnel_header result) \<Rightarrow> (tunnel_response \<Rightarrow> bytes result) \<Rightarrow>
    bytes \<Rightarrow> writer \<Rightarrow> ('p \<times> bytes) option \<times> writer" where
  "tunnel_handle connect uHdr mResp inb w =
     (case tun_readFrame uHdr inb of
        (Inl _, _) \<Rightarrow> (None, w)
      | (Inr hdr, rest) \<Rightarrow>
          (case connect (th_Host hdr) of
             Inl e \<Rightarrow>
               if e = ErrNoRoute
               then (None, snd (tun_writeFrame mResp \<lparr> tr_Status = ''no_route'', tr_Reason = [] \<rparr> w))
               else (None, snd (tun_writeFrame mResp \<lparr> tr_Status = ''error'', tr_Reason = err_text e \<rparr> w))
           | Inr upstream \<Rightarrow>
               (case tun_writeFrame mResp \<lparr> tr_Status = ''ok'', tr_Reason = [] \<rparr> w of
                  (Inl _, w1) \<Rightarrow> (None, w1)
                | (Inr _, w1) \<Rightarrow> (Some (upstream, rest), w1))))"

text \<open>\<open>dial\<close> gives the writer of a new connection and what its peer answers to the bytes sent so far.
  The result is the connection and the bytes of the peer that follow its response.\<close>

definition remote_Connect :: "(string \<Rightarrow> (writer \<times> (bytes \<Rightarrow> bytes)) result) \<Rightarrow> string \<Rightarrow> (tunnel_header \<Rightarrow> bytes result) \<Rightarrow>
    (bytes \<Rightarrow> tunnel_response result) \<Rightarrow> string \<Rightarrow> (writer \<times> bytes) result" where
  "remote_Connect dial addr mHdr uResp host =
     (case dial addr of
        Inl e \<Rightarrow> Inl (Wrapf (''gateway tunnel: dial '' @ quoted addr @ '': '') e)
      | Inr (w, peer) \<Rightarrow>
          (case tun_writeFrame mHdr \<lparr> th_Host = host \<rparr> w of
             (Inl e, _) \<Rightarrow> Inl e
           | (Inr _, w1) \<Rightarrow>
               (case tun_readFrame uResp (peer (wr_out w1)) of
                  (Inl e, _) \<Rightarrow> Inl e
                | (Inr resp, rest) \<Rightarrow>
                    if tr_Status resp = ''ok'' then Inr (w1, rest)
                    else if tr_Status resp = ''no_route'' then Inl ErrNoRoute
                    else Inl (Errorf (''gateway tunnel: '' @ tr_Reason resp)))))"

text \<open>The peer that a dial of the daemon's tunnel reaches: the frames of the handler, then, once the
  bridge is up, what the upstream sends (\<open>down\<close>).\<close>

definition fresh_conn :: writer where
  "fresh_conn = \<lparr> wr_out = [], wr_err = None \<rparr>"

definition tunnel_peer :: "(string \<Rightarrow> 'p result) \<Rightarrow> (bytes \<Rightarrow> tunnel_header result) \<Rightarrow> (tunnel_response \<Rightarrow> bytes result) \<Rightarrow>
    bytes \<Rightarrow> bytes \<Rightarrow> bytes" where
  "tunnel_peer connect uHdr mResp down sent =
     (case tunnel_handle connect uHdr mResp sent fresh_conn of
        (None, w) \<Rightarrow> wr_out w
      | (Some _, w) \<Rightarrow> wr_out w @ down)"

lemma fresh_out [simp]: "wr_out fresh_conn = []"
  by (simp add: fresh_conn_def)

lemma tun_readFrame_frame:
  "length b \<le> maxTunnelFrame \<Longrightarrow> tun_readFrame u (PutUint32 (length b) @ b @ r) = (u b, r)"
  by (simp add: tun_readFrame_def maxTunnelFrame_def)

lemma tun_readFrame_frame' [simp]:
  "length b \<le> maxTunnelFrame \<Longrightarrow> tun_readFrame u (PutUint32 (length b) @ b) = (u b, [])"
  using tun_readFrame_frame [of b u "[]"] by simp

lemma tun_readFrame_Nil [simp]: "tun_readFrame u [] = (Inl ErrEOF, [])"
  by (simp add: tun_readFrame_def ReadFull_def)

lemma tun_writeFrame_fresh:
  "m v = Inr b \<Longrightarrow> tun_writeFrame m v fresh_conn =
     (if length b > maxTunnelFrame
      then (Inl (Errorf (''gateway tunnel: frame too large ('' @ show_nat (length b) @ '')'')), fresh_conn)
      else (Inr (), fresh_conn\<lparr>wr_out := PutUint32 (length b) @ b\<rparr>))"
  by (simp add: tun_writeFrame_def Write_def fresh_conn_def)

section \<open>The hooks over the route table\<close>

definition subdomain_hooks :: "time \<Rightarrow> (sub_provider \<times> 'x) storage_ops \<Rightarrow> hooks_config \<Rightarrow> (ws_db, sub_provider \<times> 'x) hooks" where
  "subdomain_hooks now storage cfg = NewHooks (sqlite_store now) storage (Some subdomain_ingress) cfg"

text \<open>The recorded endpoints of a workspace lead to it.\<close>

definition endpoints_routed :: "string \<Rightarrow> ws_endpoint list \<Rightarrow> sub_provider \<Rightarrow> bool" where
  "endpoints_routed i es p \<longleftrightarrow>
     list_all (\<lambda>e. we_Ref e = sd_host p i (we_Name e) \<and> sd_target (p, ()) (we_Ref e) = Some (i, we_Port e)) es"

lemma zone_New [simp]: "sd_zone (sd_New (CHR ''.'' # z)) = z"
  by (simp add: sd_New_def TrimPrefix_def CutPrefix_def HasPrefix_def)

lemma sd_host_New: "sd_zone p = z \<Longrightarrow> sd_host (sd_New (CHR ''.'' # z)) = sd_host p"
  by (simp add: sd_host_def fun_eq_iff)

lemma sd_target_fst: "sd_target (p, x) = sd_target (p, y)"
  by (simp add: sd_target_def fun_eq_iff)

lemma inProc_Connect_target:
  "inProc_Connect opn mOpen mFwd p h host = (case sd_target (p, x) host of
     None \<Rightarrow> Inl ErrNoRoute | Some (i, port) \<Rightarrow> OpenForward opn mOpen mFwd i (of_int port) h)"
  by (cases "Lookup host p") (simp_all add: inProc_Connect_def sd_target_def)

lemma expose_missing_known:
  "ip_Name ` set ips \<subseteq> set known \<Longrightarrow> expose_missing ig i t known ips es ch c = (Inr (es, ch), c)"
  by (induction ips) auto

section \<open>Histories of the route table\<close>

text \<open>An abstract table from a workspace and a name to a port, and the calls on the provider over its
  life; a route is removed by the reference its exposure returned.\<close>

datatype sd_op = OpExpose expose_request | OpUnexpose string string

definition sd_run1 :: "sd_op \<Rightarrow> sub_provider \<Rightarrow> sub_provider" where
  "sd_run1 q p = (case q of OpExpose r \<Rightarrow> snd (sd_Expose r p) | OpUnexpose i n \<Rightarrow> snd (sd_Unexpose (sd_host p i n) p))"

definition table_step :: "sd_op \<Rightarrow> (string \<times> string \<Rightarrow> int option) \<Rightarrow> string \<times> string \<Rightarrow> int option" where
  "table_step q m = (case q of
     OpExpose r \<Rightarrow> if er_WorkspaceID r = [] \<or> er_Name r = [] \<or> er_Port r \<le> 0 then m
                    else m((er_WorkspaceID r, er_Name r) \<mapsto> er_Port r)
   | OpUnexpose i n \<Rightarrow> m((i, n) := None))"

definition op_workspace :: "sd_op \<Rightarrow> string" where
  "op_workspace q = (case q of OpExpose r \<Rightarrow> er_WorkspaceID r | OpUnexpose i n \<Rightarrow> i)"

lemma sd_run1_zone [simp]: "sd_zone (sd_run1 q p) = sd_zone p"
  by (simp add: sd_run1_def sd_Expose_def sd_Unexpose_def Let_def split: sd_op.splits)

lemma sd_run1_host [simp]: "sd_host (sd_run1 q p) = sd_host p"
  by (simp add: sd_host_def fun_eq_iff)

lemma sd_run1_refines:
  assumes "CHR ''-'' \<notin> set (op_workspace q)" "CHR ''-'' \<notin> set i"
    and "sd_target (p, x) (sd_host p i n) = map_option (Pair i) (m (i, n))"
  shows "sd_target (sd_run1 q p, x) (sd_host p i n) = map_option (Pair i) (table_step q m (i, n))"
proof (cases q)
  case (OpExpose r)
  have "sd_host p i n = sd_host p (er_WorkspaceID r) (er_Name r) \<longleftrightarrow> i = er_WorkspaceID r \<and> n = er_Name r"
    using assms(1,2) sd_host_determines [of p i n] OpExpose by (auto simp: op_workspace_def)
  with OpExpose assms(3) show ?thesis
    by (auto simp: sd_run1_def table_step_def sd_target_def sd_Expose_def Lookup_def Let_def)
next
  case (OpUnexpose j k)
  have "sd_host p i n = sd_host p j k \<longleftrightarrow> i = j \<and> n = k"
    using assms(1,2) sd_host_determines [of p i n] OpUnexpose by (auto simp: op_workspace_def)
  with OpUnexpose assms(3) show ?thesis
    by (auto simp: sd_run1_def table_step_def sd_target_def sd_Unexpose_def Lookup_def)
qed

section \<open>Instances for concrete runs\<close>

definition demo_workspace :: "ws_endpoint list \<Rightarrow> workspace" where
  "demo_workspace es = \<lparr> w_Box = zero_box\<lparr>b_ID := ''1f'', b_Phase := PhaseRunning\<rparr>,
     w_Ingress = [\<lparr> ip_Name = ''app'', ip_Port = 80 \<rparr>], w_HomeMount = [], w_Endpoints = es \<rparr>"

definition demo_daemon :: "ws_endpoint list \<Rightarrow> ws_db" where
  "demo_daemon es = \<lparr> wd_rows = [ws_insert_row (demo_workspace es)], wd_fault = None,
     wd_conflict = Errorf ''UNIQUE constraint failed'' \<rparr>"

lemma demo_daemon_simps:
  "ws_wf (demo_daemon es)" "wd_fault (demo_daemon es) = None"
  "ws_find [] ''1f'' (demo_daemon es) = Some (demo_workspace es)"
proof -
  have k: "phase_ok (b_Phase (w_Box (demo_workspace es)))" "ws_kept (demo_workspace es) = demo_workspace es"
    by (simp_all add: demo_workspace_def ws_kept_def persisted_def zero_box_def known_phase_ok known_phase_def)
  note sc = ws_scan_insert_row [OF k(1), unfolded k(2)]
  then have all: "ws_all (demo_daemon es) = [demo_workspace es]" by (simp add: ws_all_def demo_daemon_def ws_scanned_def)
  show "ws_wf (demo_daemon es)" "wd_fault (demo_daemon es) = None" using sc by (simp_all add: ws_wf_def demo_daemon_def)
  show "ws_find [] ''1f'' (demo_daemon es) = Some (demo_workspace es)"
    unfolding ws_find_def all by (simp add: demo_workspace_def zero_box_def)
qed

section \<open>Properties\<close>

text \<open>C16: a standalone gateway behind the tunnel answers as the gateway inside the daemon does: the same
  404 for an unknown host, a 502 exactly when the local connect fails otherwise (also when the reason
  is too long for a frame), and otherwise a connection to the same upstream, whose raw bytes start
  where the tunnel frames end in both directions. The connector must not wrap its no-route error,
  and the host is UTF-8 text of at most 10000 bytes.\<close>

theorem tunnel_gateway_equivalent:
  fixes connect :: "string \<Rightarrow> 'p result"
  assumes host: "host = (case SplitHostPort rhost of Some (h, _) \<Rightarrow> h | None \<Rightarrow> rhost)" "valid_utf8 host" "length host \<le> 10000"
    and plain: "\<And>e. connect host = Inl e \<Longrightarrow> errors_Is e ErrNoRoute \<Longrightarrow> e = ErrNoRoute"
    and dial: "dial addr = Inr (fresh_conn, tunnel_peer connect (Unmarshal dec_tunnel_header) (Marshal enc_tunnel_response) down)"
  shows "case ServeHTTP connect rhost of
      HttpError code t \<Rightarrow>
        (\<exists>t'. ServeHTTP (remote_Connect dial addr (Marshal enc_tunnel_header) (Unmarshal dec_tunnel_response)) rhost = HttpError code t' \<and> (code = 404 \<longrightarrow> t' = t))
    | Proxied h up \<Rightarrow>
        (\<exists>w. ServeHTTP (remote_Connect dial addr (Marshal enc_tunnel_header) (Unmarshal dec_tunnel_response)) rhost = Proxied h (w, down) \<and>
             (\<forall>raw. fst (tunnel_handle connect (Unmarshal dec_tunnel_header) (Marshal enc_tunnel_response) (wr_out w @ raw) fresh_conn) = Some (up, raw)))"
proof -
  let ?bh = "str_bytes (json_show (enc_tunnel_header \<lparr> th_Host = host \<rparr>))" and ?enc = "\<lambda>r. str_bytes (json_show (enc_tunnel_response r))"
  let ?w = "fresh_conn\<lparr>wr_out := PutUint32 (length ?bh) @ ?bh\<rparr>"
  have bh: "length ?bh \<le> maxTunnelFrame"
    using json_string_length [of "''host''"] json_string_length [of host] host(3) by (simp add: enc_tunnel_header_def maxTunnelFrame_def)
  have wr: "tun_writeFrame (Marshal enc_tunnel_header) \<lparr> th_Host = host \<rparr> fresh_conn = (Inr (), ?w)"
    using bh tun_writeFrame_fresh [of "Marshal enc_tunnel_header" "\<lparr> th_Host = host \<rparr>" ?bh] by (simp add: Marshal_def)
  have rd: "tun_readFrame (Unmarshal dec_tunnel_header) (PutUint32 (length ?bh) @ ?bh @ raw) = (Inr \<lparr> th_Host = host \<rparr>, raw)" for raw
    using bh tunnel_header_json.roundtrip [of "\<lparr> th_Host = host \<rparr>" ?bh] host(2)
    by (simp only: tun_readFrame_frame) (simp add: Marshal_def)
  note rd0 = rd [of "[]", unfolded append_Nil2]
  have len: "length (?enc \<lparr> tr_Status = ''ok'', tr_Reason = [] \<rparr>) \<le> maxTunnelFrame"
    "length (?enc \<lparr> tr_Status = ''no_route'', tr_Reason = [] \<rparr>) \<le> maxTunnelFrame"
    using json_string_length [of "''status''"] json_string_length [of "''ok''"] json_string_length [of "''no_route''"]
    by (simp_all add: enc_tunnel_response_def maxTunnelFrame_def)
  have mR: "Marshal enc_tunnel_response r = Inr (?enc r)" for r by (simp add: Marshal_def)
  have uR: "Unmarshal dec_tunnel_response (?enc \<lparr> tr_Status = st, tr_Reason = x \<rparr>) = Inr \<lparr> tr_Status = st, tr_Reason = to_valid x \<rparr>"
    if "st \<in> {''ok'', ''no_route'', ''error''}" for st x
    using that tunnel_response_arrives [of "\<lparr> tr_Status = st, tr_Reason = x \<rparr>"] by auto
  have r: "remote_Connect dial addr (Marshal enc_tunnel_header) (Unmarshal dec_tunnel_response) host = (case connect host of
      Inr up \<Rightarrow> Inr (?w, down)
    | Inl e \<Rightarrow> Inl (if e = ErrNoRoute then ErrNoRoute
                 else if length (?enc \<lparr> tr_Status = ''error'', tr_Reason = err_text e \<rparr>) > maxTunnelFrame then ErrEOF
                 else Errorf (''gateway tunnel: '' @ to_valid (err_text e))))"
    using len
    by (simp add: remote_Connect_def dial wr tunnel_peer_def tunnel_handle_def rd0 tun_writeFrame_fresh [of "Marshal enc_tunnel_response", OF mR]
        tun_readFrame_frame uR fresh_out del: length_str_bytes split: sum.split)
  show ?thesis
  proof (cases "connect host")
    case (Inl e)
    with plain [OF Inl] r show ?thesis by (auto simp: ServeHTTP_def host(1) [symmetric])
  next
    case (Inr up)
    have "fst (tunnel_handle connect (Unmarshal dec_tunnel_header) (Marshal enc_tunnel_response) (wr_out ?w @ raw) fresh_conn) = Some (up, raw)" for raw
      using Inr len rd [of raw] by (simp add: tunnel_handle_def tun_writeFrame_fresh [of "Marshal enc_tunnel_response", OF mR] del: length_str_bytes)
    with Inr r show ?thesis by (auto simp: ServeHTTP_def host(1) [symmetric])
  qed
qed

theorem tunnel_gateway_equivalent_witness:
  "\<exists>w. ServeHTTP (remote_Connect (\<lambda>_. Inr (fresh_conn, tunnel_peer
        (inProc_Connect (\<lambda>_. Inr fresh_conn) (Marshal enc_open) (Marshal enc_forward)
          (snd (sd_Expose \<lparr> er_WorkspaceID = ''1f'', er_Name = ''app'', er_Port = 80, er_Scheme = [], er_TenantID = [] \<rparr> (sd_New ''gw'')))
          (snd (register_locked ''1f'' 7 hub_New)))
        (Unmarshal dec_tunnel_header) (Marshal enc_tunnel_response) [9]))
      ''d:1'' (Marshal enc_tunnel_header) (Unmarshal dec_tunnel_response)) ''app-1f.gw:443'' = Proxied ''app-1f.gw'' (w, [9])"
proof -
  let ?p = "snd (sd_Expose \<lparr> er_WorkspaceID = ''1f'', er_Name = ''app'', er_Port = 80, er_Scheme = [], er_TenantID = [] \<rparr> (sd_New ''gw''))"
  let ?c = "inProc_Connect (\<lambda>_. Inr fresh_conn) (Marshal enc_open) (Marshal enc_forward) ?p (snd (register_locked ''1f'' 7 hub_New))"
  have sp: "SplitHostPort ''app-1f.gw:443'' = Some (''app-1f.gw'', ''443'')" by code_simp
  have "length (json_show (enc_open \<lparr> of_Kind = KindForward \<rparr>)) \<le> maxFrame" "length (json_show (enc_forward \<lparr> fh_Port = 80 \<rparr>)) \<le> maxFrame"
    using json_string_length [of "''kind''"] json_string_length [of KindForward] json_string_length [of "''port''"]
    by (simp_all add: enc_open_def enc_forward_def KindForward_def maxFrame_def show_nat.simps)
  then obtain up where c: "?c ''app-1f.gw'' = Inr up"
    by (simp add: inProc_Connect_def Lookup_def sd_Expose_def sd_host_def sd_New_def TrimPrefix_def CutPrefix_def HasPrefix_def
        Let_def OpenForward_def open_kind_def openStream_def write_header_def writeFrame_def Write_def fresh_conn_def
        register_locked_def hub_New_def Marshal_def)
  from tunnel_gateway_equivalent [where rhost = "''app-1f.gw:443''" and host = "''app-1f.gw''" and connect = ?c and
      dial = "\<lambda>_. Inr (fresh_conn, tunnel_peer ?c (Unmarshal dec_tunnel_header) (Marshal enc_tunnel_response) [9])"
      and addr = "''d:1''" and down = "[9]"]
  show ?thesis using c by (auto simp: sp ServeHTTP_def)
qed

text \<open>C17: the route table is a table from workspaces and names to ports: after any history of exposures,
  refused ones included, and removals, with hexadecimal workspace identifiers, the gateway host of a
  workspace and a name leads to that workspace, at the port it was last exposed with, or nowhere.\<close>

theorem route_table_refines:
  assumes ops: "\<forall>q \<in> set ops. CHR ''-'' \<notin> set (op_workspace q)" and i: "CHR ''-'' \<notin> set i"
  shows "inProc_Connect opn mOpen mFwd (fold sd_run1 ops (sd_New z)) h (sd_host (sd_New z) i n) =
    (case fold table_step ops (\<lambda>_. None) (i, n) of
       None \<Rightarrow> Inl ErrNoRoute
     | Some port \<Rightarrow> OpenForward opn mOpen mFwd i (of_int port) h)"
proof -
  have "sd_target (fold sd_run1 ops p, ()) (sd_host p i n) = map_option (Pair i) (fold table_step ops m (i, n))"
    if "sd_target (p, ()) (sd_host p i n) = map_option (Pair i) (m (i, n))" for p m
    using that ops
  proof (induction ops arbitrary: p m)
    case (Cons q ops)
    from sd_run1_refines [of q i p "()" n m] Cons.prems i
    have "sd_target (sd_run1 q p, ()) (sd_host (sd_run1 q p) i n) = map_option (Pair i) (table_step q m (i, n))" by simp
    from Cons.IH [of "sd_run1 q p" "table_step q m", OF this] Cons.prems(2) show ?case by simp
  qed simp
  from this [of "sd_New z" "\<lambda>_. None"]
  have "sd_target (fold sd_run1 ops (sd_New z), ()) (sd_host (sd_New z) i n) = map_option (Pair i) (fold table_step ops (\<lambda>_. None) (i, n))"
    by (simp add: sd_target_def Lookup_def sd_New_def)
  then show ?thesis
    by (cases "fold table_step ops (\<lambda>_. None) (i, n)") (auto simp: inProc_Connect_def sd_target_def)
qed

theorem route_table_refines_witness:
  "\<forall>opn mOpen mFwd h. inProc_Connect opn mOpen mFwd (fold sd_run1
      [OpExpose \<lparr> er_WorkspaceID = ''1f'', er_Name = ''a'', er_Port = 80, er_Scheme = [], er_TenantID = [] \<rparr>,
       OpExpose \<lparr> er_WorkspaceID = ''2e'', er_Name = ''a'', er_Port = 81, er_Scheme = [], er_TenantID = [] \<rparr>,
       OpUnexpose ''2e'' ''a''] (sd_New ''gw'')) h ''a-1f.gw'' = OpenForward opn mOpen mFwd ''1f'' 80 h"
proof (intro allI)
  fix opn mOpen mFwd h
  let ?ops = "[OpExpose \<lparr> er_WorkspaceID = ''1f'', er_Name = ''a'', er_Port = 80, er_Scheme = [], er_TenantID = [] \<rparr>,
       OpExpose \<lparr> er_WorkspaceID = ''2e'', er_Name = ''a'', er_Port = 81, er_Scheme = [], er_TenantID = [] \<rparr>,
       OpUnexpose ''2e'' ''a'']"
  have "sd_host (sd_New ''gw'') ''1f'' ''a'' = ''a-1f.gw''"
    by (simp add: sd_host_def sd_New_def TrimPrefix_def CutPrefix_def HasPrefix_def)
  with route_table_refines [of ?ops "''1f''" opn mOpen mFwd "''gw''" h "''a''"]
  show "inProc_Connect opn mOpen mFwd (fold sd_run1 ?ops (sd_New ''gw'')) h ''a-1f.gw'' = OpenForward opn mOpen mFwd ''1f'' 80 h"
    by (simp add: op_workspace_def table_step_def)
qed

text \<open>The ports a workspace asks for are served: once the hook that follows a running box has
  succeeded, every requested name has a recorded endpoint, new ones at the requested port, and the
  gateway takes a request for any recorded endpoint to a forward stream of that workspace's agent at
  the endpoint's port. After the hook that precedes destruction none of them is routed.\<close>

theorem exposed_ports_served:
  assumes wf: "ws_wf db" and w: "ws_find (b_TenantID b) (b_ID b) db = Some w"
    and names: "distinct (map ip_Name (w_Ingress w))" and old: "endpoints_routed (b_ID b) (w_Endpoints w) p"
    and run: "PostRunning (subdomain_hooks now storage cfg) b (db, p, x) = (Inr (), db', p', x')"
  shows "\<exists>w'. ws_find (b_TenantID b) (b_ID b) db' = Some w' \<and>
    (\<forall>ip \<in> set (w_Ingress w). \<exists>e \<in> set (w_Endpoints w'). we_Name e = ip_Name ip \<and>
       (e \<in> set (w_Endpoints w) \<or> we_Port e = ip_Port ip)) \<and>
    (\<forall>e \<in> set (w_Endpoints w').
       inProc_Connect opn mOpen mFwd p' h (we_Ref e) = OpenForward opn mOpen mFwd (b_ID b) (of_int (we_Port e)) h) \<and>
    (wd_fault db' = None \<longrightarrow> (\<exists>p'' x''. PreDestroy (subdomain_hooks now storage cfg) b (db', p', x') = (Inr (), db', p'', x'') \<and>
       (\<forall>e \<in> set (w_Endpoints w'). inProc_Connect opn mOpen mFwd p'' h (we_Ref e) = Inl ErrNoRoute)))"
proof -
  note H = sd_host_New [OF refl, of p]
  have g: "sd_zone (fst (p, x)) = sd_zone (sd_New (CHR ''.'' # sd_zone p))" by simp
  have o: "\<forall>e \<in> set (w_Endpoints w). we_Ref e = sd_host (sd_New (CHR ''.'' # sd_zone p)) (b_ID b) (we_Name e) \<and>
      sd_target (p, x) (we_Ref e) = Some (b_ID b, we_Port e)"
    using old unfolding endpoints_routed_def list_all_iff H sd_target_fst [of p x "()"] .
  obtain w' where w': "ws_wf db'" "sd_zone (fst (p', x')) = sd_zone (sd_New (CHR ''.'' # sd_zone p))" "ws_find (b_TenantID b) (b_ID b) db' = Some w'"
      "\<forall>e \<in> set (w_Endpoints w'). sd_target (p', x') (we_Ref e) = Some (b_ID b, we_Port e)"
      "\<forall>ip \<in> set (w_Ingress w). \<exists>e \<in> set (w_Endpoints w'). we_Name e = ip_Name ip \<and> (e \<in> set (w_Endpoints w) \<or> we_Port e = ip_Port ip)"
    using subdom.PostRunning_routes [OF wf w g names o run [unfolded subdomain_hooks_def]] by blast
  have served: "inProc_Connect opn mOpen mFwd p' h (we_Ref e) = OpenForward opn mOpen mFwd (b_ID b) (of_int (we_Port e)) h"
    if "e \<in> set (w_Endpoints w')" for e
    using w'(4) that by (simp add: inProc_Connect_target [of _ _ _ p' _ _ x'])
  have gone: "\<exists>p'' x''. PreDestroy (subdomain_hooks now storage cfg) b (db', p', x') = (Inr (), db', p'', x'') \<and>
      (\<forall>e \<in> set (w_Endpoints w'). inProc_Connect opn mOpen mFwd p'' h (we_Ref e) = Inl ErrNoRoute)"
    if up: "wd_fault db' = None"
  proof -
    obtain r d p'' x'' where d: "PreDestroy (subdomain_hooks now storage cfg) b (db', p', x') = (r, d, p'', x'')"
      using prod_cases4 by blast
    from subdom.PreDestroy_routes [OF w'(1,3,2) up d [unfolded subdomain_hooks_def]] d show ?thesis
      by (auto simp: inProc_Connect_target [of _ _ _ p'' _ _ x''])
  qed
  show ?thesis by (intro exI [of _ w'] conjI w'(3,5) ballI served impI gone)
qed

theorem exposed_ports_served_witness:
  "\<forall>storage cfg opn mOpen mFwd h. \<exists>(es :: ws_endpoint list) db' p'. es \<noteq> [] \<and>
    PostRunning (subdomain_hooks 9 storage cfg) (zero_box\<lparr>b_ID := ''1f''\<rparr>)
      (demo_daemon [], sd_New ''gw'', ()) = (Inr (), db', p', ()) \<and>
    (\<forall>e \<in> set es. inProc_Connect opn mOpen mFwd p' h (we_Ref e) = OpenForward opn mOpen mFwd ''1f'' (of_int (we_Port e)) h)"
proof (intro allI)
  fix storage cfg opn mOpen mFwd h
  let ?b = "zero_box\<lparr>b_ID := ''1f''\<rparr>" and ?p = "sd_New ''gw''"
  let ?host = "''app-1f.gw''"
  let ?e = "\<lparr> we_Name = ''app'', we_URL = ''https://app-1f.gw'', we_Port = 80, we_Ref = ?host \<rparr>"
  let ?p' = "?p\<lparr>sd_byHost := (sd_byHost ?p)(?host \<mapsto> \<lparr> rt_Host = ?host, rt_WorkspaceID = ''1f'', rt_Port = 80, rt_Name = ''app'' \<rparr>)\<rparr>"
  let ?w = "demo_workspace [?e]"
  have w: "ws_find (b_TenantID ?b) (b_ID ?b) (demo_daemon []) = Some (demo_workspace [])"
    using demo_daemon_simps(3) by (simp add: zero_box_def)
  have get: "wsGet (sqlite_store 9) [] ''1f'' (demo_daemon []) = (Inr (demo_workspace []), demo_daemon [])"
    using GetWorkspace_find [OF demo_daemon_simps(1,2)] demo_daemon_simps(3) by (simp add: sqlite_store_def)
  obtain r u db' where u: "UpdateWorkspace 9 ?w (demo_daemon []) = (r, u, db')" using prod_cases3 by blast
  have "phase_ok (b_Phase (w_Box ?w))" by (simp add: demo_workspace_def known_phase_ok known_phase_def)
  from UpdateWorkspace_rows [OF demo_daemon_simps(1) this u] demo_daemon_simps(2,3) [of "[]"] have "r = Inr ()"
    by (simp add: demo_workspace_def zero_box_def is_ok_iff)
  with u have up: "wsUpdate (sqlite_store 9) ?w (demo_daemon []) = (Inr (), u, db')" by (simp add: sqlite_store_def)
  have x: "expose_missing subdomain_ingress ''1f'' [] [] [\<lparr> ip_Name = ''app'', ip_Port = 80 \<rparr>] [] False (?p, ()) = (Inr ([?e], True), ?p', ())"
    by (simp add: subdomain_ingress_def sd_Expose_def sd_host_def sd_New_def TrimPrefix_def CutPrefix_def HasPrefix_def Let_def)
  have run: "PostRunning (subdomain_hooks 9 storage cfg) ?b (demo_daemon [], ?p, ()) = (Inr (), db', ?p', ())"
    using x up by (simp add: subdomain_hooks_def PostRunning_def NewHooks_def get demo_workspace_def zero_box_def)
  have ok: "distinct (map ip_Name (w_Ingress (demo_workspace [])))" "endpoints_routed (b_ID ?b) (w_Endpoints (demo_workspace [])) ?p"
    by (simp_all add: demo_workspace_def endpoints_routed_def)
  from exposed_ports_served [OF demo_daemon_simps(1) w ok run, of opn mOpen mFwd h] obtain w' :: workspace where
    "(\<forall>ip \<in> set (w_Ingress (demo_workspace [])). \<exists>e \<in> set (w_Endpoints w'). we_Name e = ip_Name ip \<and>
       (e \<in> set (w_Endpoints (demo_workspace [])) \<or> we_Port e = ip_Port ip)) \<and>
     (\<forall>e \<in> set (w_Endpoints w'). inProc_Connect opn mOpen mFwd ?p' h (we_Ref e) = OpenForward opn mOpen mFwd (b_ID ?b) (of_int (we_Port e)) h)"
    by blast
  with run show "\<exists>(es :: ws_endpoint list) db' p'. es \<noteq> [] \<and> PostRunning (subdomain_hooks 9 storage cfg) ?b (demo_daemon [], ?p, ()) = (Inr (), db', p', ()) \<and>
      (\<forall>e \<in> set es. inProc_Connect opn mOpen mFwd p' h (we_Ref e) = OpenForward opn mOpen mFwd ''1f'' (of_int (we_Port e)) h)"
    by (intro exI [of _ "w_Endpoints w'"] exI [of _ db'] exI [of _ ?p']) (auto simp: demo_workspace_def)
qed

text \<open>The route table does not survive the daemon while the recorded endpoints do: with a new,
  empty table, the hook of a running workspace whose ports all have recorded endpoints succeeds and
  exposes nothing, so every one of its hosts is answered 404 from then on.\<close>

theorem restart_loses_routes:
  assumes "ws_wf db" "wd_fault db = None" "ws_find (b_TenantID b) (b_ID b) db = Some w"
    and known: "\<forall>ip \<in> set (w_Ingress w). ip_Name ip \<in> we_Name ` set (w_Endpoints w)"
  shows "PostRunning (subdomain_hooks now storage cfg) b (db, sd_New z, x) = (Inr (), db, sd_New z, x) \<and>
    (\<exists>t. ServeHTTP (inProc_Connect opn mOpen mFwd (sd_New z) h) rhost = HttpError 404 t)"
proof -
  have get: "wsGet (sqlite_store now) (b_TenantID b) (b_ID b) db = (Inr w, db)"
    using GetWorkspace_find [OF assms(1,2)] assms(3) by (simp add: sqlite_store_def)
  have "ip_Name ` set (w_Ingress w) \<subseteq> set (map we_Name (w_Endpoints w))" using known by auto
  note no = expose_missing_known [OF this]
  show ?thesis
    by (simp add: subdomain_hooks_def PostRunning_def NewHooks_def get no ServeHTTP_def inProc_Connect_def Lookup_def sd_New_def Let_def)
qed

theorem restart_loses_routes_witness:
  "\<forall>storage cfg opn mOpen mFwd h.
     PostRunning (subdomain_hooks 9 storage cfg) (zero_box\<lparr>b_ID := ''1f''\<rparr>)
       (demo_daemon [\<lparr> we_Name = ''app'', we_URL = [], we_Port = 80, we_Ref = ''app-1f.gw'' \<rparr>], sd_New ''gw'', ()) =
     (Inr (), demo_daemon [\<lparr> we_Name = ''app'', we_URL = [], we_Port = 80, we_Ref = ''app-1f.gw'' \<rparr>], sd_New ''gw'', ()) \<and>
     (\<exists>t. ServeHTTP (inProc_Connect opn mOpen mFwd (sd_New ''gw'') h) ''app-1f.gw'' = HttpError 404 t)"
proof -
  let ?es = "[\<lparr> we_Name = ''app'', we_URL = [], we_Port = 80, we_Ref = ''app-1f.gw'' \<rparr>]"
  have "ws_find (b_TenantID (zero_box\<lparr>b_ID := ''1f''\<rparr>)) (b_ID (zero_box\<lparr>b_ID := ''1f''\<rparr>)) (demo_daemon ?es) = Some (demo_workspace ?es)"
    using demo_daemon_simps(3) by (simp add: zero_box_def)
  moreover have "\<forall>ip \<in> set (w_Ingress (demo_workspace ?es)). ip_Name ip \<in> we_Name ` set (w_Endpoints (demo_workspace ?es))"
    by (simp add: demo_workspace_def)
  ultimately show ?thesis by (intro allI restart_loses_routes [OF demo_daemon_simps(1,2)])
qed

end
