(* ===== verification/Identity.thy ===== *)
theory Identity
  imports Ports
begin

text \<open>
  Who a caller is: the config-defined identity provider (\<^verbatim>\<open>providers/identity/static/static.go\<close>),
  the OpenID Connect provider (\<^verbatim>\<open>providers/identity/oidc/oidc.go\<close>, its token verifier is a
  parameter), and the registered-key directory (\<^verbatim>\<open>internal/account/account.go\<close>; the SSH key
  parser and the fingerprint are parameters). What the API layer relies on of a provider is the
  locale \<open>identity_contract\<close>, interpreted on both providers. A provider has no state of its own;
  the type \<open>'w\<close> of the world passes through.
\<close>

section \<open>The contract\<close>

definition privileged_role :: "string \<Rightarrow> bool" where
  "privileged_role role = (role = ''system'' \<or> role = ''tenant-admin'' \<or> role = ''owner'')"

locale identity_contract =
  fixes P :: "'w identity_ops"
  assumes authenticate_frame: "id_Authenticate P c w = (r, w') \<Longrightarrow> w' = w"
    and authenticate_value: "id_Authenticate P c w = (Inr p, w') \<Longrightarrow> cred_Value c \<noteq> []"
    and authenticate_det: "cred_Value c = cred_Value c' \<Longrightarrow> id_Authenticate P c w = (Inr p, w) \<Longrightarrow>
      id_Authenticate P c' w = (Inr p', w) \<Longrightarrow> p' = p"
    and authorize_role: "id_Authorize P q w = (Inr d, w') \<Longrightarrow>
      w' = w \<and> (dec_Allow d \<longleftrightarrow> list_ex privileged_role (pl_Roles (ar_Principal q)))"
    and authorize_total: "\<exists>d. id_Authorize P q w = (Inr d, w)"
begin

text \<open>A principal without a privileged role is always denied, one with such a role always allowed.\<close>

lemma authorize_decides:
  "\<exists>d. id_Authorize P q w = (Inr d, w) \<and> (dec_Allow d \<longleftrightarrow> list_ex privileged_role (pl_Roles (ar_Principal q)))"
  using authorize_total [of q w] authorize_role by blast

end

section \<open>The static provider\<close>

text \<open>The key map is an association list: the copy of a Go map.\<close>

record static_provider =
  sp_keys :: "string \<Rightarrow> principal option"

definition static_New :: "(string \<times> principal) list \<Rightarrow> static_provider" where
  "static_New keys = \<lparr> sp_keys = map_of keys \<rparr>"

definition static_Authenticate :: "static_provider \<Rightarrow> credential \<Rightarrow> principal result" where
  "static_Authenticate p c =
     (if cred_Scheme c \<noteq> [] \<and> cred_Scheme c \<noteq> ''api-key''
      then Inl (Errorf (''static: unsupported credential scheme '' @ quoted (cred_Scheme c) @ '' (want api-key)''))
      else if cred_Value c = [] then Inl (Errorf ''static: empty credential'')
      else case sp_keys p (cred_Value c) of
             None \<Rightarrow> Inl (Errorf ''static: unknown api key'')
           | Some pr \<Rightarrow> Inr pr)"

fun static_Authorize_roles :: "string list \<Rightarrow> decision" where
  "static_Authorize_roles [] =
     \<lparr> dec_Allow = False, dec_Reason = ''principal lacks a privileged role (owner|tenant-admin|system)'' \<rparr>"
| "static_Authorize_roles (role # roles) =
     (if privileged_role role then \<lparr> dec_Allow = True, dec_Reason = [] \<rparr> else static_Authorize_roles roles)"

definition static_Authorize :: "access_request \<Rightarrow> decision result" where
  "static_Authorize r = Inr (static_Authorize_roles (pl_Roles (ar_Principal r)))"

definition static_identity :: "static_provider \<Rightarrow> 'w identity_ops" where
  "static_identity p = \<lparr> id_Authenticate = (\<lambda>c w. (static_Authenticate p c, w)),
     id_Authorize = (\<lambda>r w. (static_Authorize r, w)) \<rparr>"

lemma static_Authorize_roles_iff: "dec_Allow (static_Authorize_roles rs) \<longleftrightarrow> list_ex privileged_role rs"
  by (induction rs) auto

interpretation static_id: identity_contract "static_identity p"
  by unfold_locales
    (auto simp: static_identity_def static_Authenticate_def static_Authorize_def static_Authorize_roles_iff
      split: if_splits option.splits)

section \<open>The OpenID Connect provider\<close>

record claims =
  cl_Subject :: string
  cl_Email :: string
  cl_Groups :: "string list"

record oidc_config =
  oc_TenantID :: string
  oc_PrincipalClaim :: string
  oc_AdminGroups :: "string list"

record oidc_provider =
  op_verifier :: "string \<Rightarrow> claims result"
  op_cfg :: oidc_config

definition oidc_New :: "(string \<Rightarrow> claims result) \<Rightarrow> oidc_config \<Rightarrow> oidc_provider" where
  "oidc_New v cfg = \<lparr> op_verifier = v,
     op_cfg = (if oc_PrincipalClaim cfg = [] then cfg\<lparr>oc_PrincipalClaim := ''sub''\<rparr> else cfg) \<rparr>"

definition groupsIntersect :: "string list \<Rightarrow> string list \<Rightarrow> bool" where
  "groupsIntersect have_groups want = list_ex (\<lambda>g. g \<in> set have_groups) want"

definition oidc_Authenticate :: "oidc_provider \<Rightarrow> credential \<Rightarrow> principal result" where
  "oidc_Authenticate p c =
     (if cred_Scheme c \<noteq> [] \<and> cred_Scheme c \<noteq> ''oidc-token'' \<and> cred_Scheme c \<noteq> ''api-key''
      then Inl (Errorf (''oidc: unsupported credential scheme '' @ quoted (cred_Scheme c)))
      else if cred_Value c = [] then Inl (Errorf ''oidc: empty token'')
      else case op_verifier p (cred_Value c) of
             Inl e \<Rightarrow> Inl (Wrapf ''oidc: '' e)
           | Inr cl \<Rightarrow>
               (let i = (if oc_PrincipalClaim (op_cfg p) = ''email'' then cl_Email cl else cl_Subject cl) in
                if i = [] then Inl (Errorf (''oidc: token missing '' @ quoted (oc_PrincipalClaim (op_cfg p)) @ '' claim''))
                else Inr \<lparr> pl_ID = i, pl_TenantID = oc_TenantID (op_cfg p), pl_DisplayName = cl_Email cl,
                  pl_Roles = ''owner'' # (if groupsIntersect (cl_Groups cl) (oc_AdminGroups (op_cfg p))
                                         then [''tenant-admin''] else []) \<rparr>))"

definition oidc_Authorize :: "access_request \<Rightarrow> decision result" where
  "oidc_Authorize r =
     (if list_ex (\<lambda>role. role = ''system'' \<or> role = ''tenant-admin'' \<or> role = ''owner'') (pl_Roles (ar_Principal r))
      then Inr \<lparr> dec_Allow = True, dec_Reason = [] \<rparr>
      else Inr \<lparr> dec_Allow = False, dec_Reason = ''principal lacks a privileged role'' \<rparr>)"

definition oidc_identity :: "oidc_provider \<Rightarrow> 'w identity_ops" where
  "oidc_identity p = \<lparr> id_Authenticate = (\<lambda>c w. (oidc_Authenticate p c, w)),
     id_Authorize = (\<lambda>r w. (oidc_Authorize r, w)) \<rparr>"

interpretation oidc_id: identity_contract "oidc_identity p"
  by unfold_locales
    (auto simp: oidc_identity_def oidc_Authenticate_def oidc_Authorize_def privileged_role_def [abs_def] Let_def
      split: if_splits sum.splits)

section \<open>The registered-key directory\<close>

record directory =
  dr_byFP :: "(string \<times> string) list"
  dr_accounts :: "string list"

text \<open>\<open>parse\<close> is \<^verbatim>\<open>ssh.ParseAuthorizedKey\<close> on one line (the key and its comment), \<open>fp\<close> the key's
  fingerprint. The lines of the file are those the scanner yields.\<close>

fun load_lines :: "(string \<Rightarrow> ('k \<times> string) result) \<Rightarrow> ('k \<Rightarrow> string) \<Rightarrow> string \<Rightarrow> nat \<Rightarrow> string list \<Rightarrow> directory \<Rightarrow>
    directory result" where
  "load_lines parse fp path n [] d = Inr d"
| "load_lines parse fp path n (l # ls) d =
     (let n1 = Suc n; line = TrimSpace l; pos = path @ '':'' @ show_nat n1 @ '': '' in
      if line = [] \<or> HasPrefix line ''#'' then load_lines parse fp path n1 ls d
      else case parse line of
             Inl e \<Rightarrow> Inl (Wrapf pos e)
           | Inr (key, comment) \<Rightarrow>
               (let acct = TrimSpace comment in
                if acct = [] then Inl (Errorf (pos @ ''key has no account (trailing comment)''))
                else load_lines parse fp path n1 ls
                       (d\<lparr>dr_byFP := (fp key, acct) # dr_byFP d, dr_accounts := acct # dr_accounts d\<rparr>)))"

definition Load :: "(string \<Rightarrow> ('k \<times> string) result) \<Rightarrow> ('k \<Rightarrow> string) \<Rightarrow> string \<Rightarrow> string list result \<Rightarrow> directory result" where
  "Load parse fp path file =
     (case file of Inl e \<Rightarrow> Inl e
      | Inr ls \<Rightarrow> load_lines parse fp path 0 ls \<lparr> dr_byFP = [], dr_accounts = [] \<rparr>)"

definition dir_Len :: "directory \<Rightarrow> nat" where
  "dir_Len d = length (remdups (map fst (dr_byFP d)))"

definition dir_Authenticate :: "('k \<Rightarrow> string) \<Rightarrow> directory \<Rightarrow> 'k \<Rightarrow> string result" where
  "dir_Authenticate fp d key = (case map_of (dr_byFP d) (fp key) of Some a \<Rightarrow> Inr a | None \<Rightarrow> Inr (fp key))"

definition IsAccount :: "directory \<Rightarrow> string \<Rightarrow> bool" where
  "IsAccount d p = (p \<in> set (dr_accounts d))"

section \<open>Properties\<close>

text \<open>The entries of a file: fingerprint and account of each line that is not blank or a comment.\<close>

fun key_entries :: "(string \<Rightarrow> ('k \<times> string) result) \<Rightarrow> ('k \<Rightarrow> string) \<Rightarrow> string list \<Rightarrow> (string \<times> string) list" where
  "key_entries parse fp [] = []"
| "key_entries parse fp (l # ls) =
     (let line = TrimSpace l in
      if line = [] \<or> HasPrefix line ''#'' then key_entries parse fp ls
      else case parse line of
             Inl e \<Rightarrow> key_entries parse fp ls
           | Inr (key, comment) \<Rightarrow> (fp key, TrimSpace comment) # key_entries parse fp ls)"

lemma load_lines_entries:
  assumes "load_lines parse fp path n ls d = Inr d'"
  shows "dr_byFP d' = rev (key_entries parse fp ls) @ dr_byFP d \<and>
    dr_accounts d' = rev (map snd (key_entries parse fp ls)) @ dr_accounts d"
  using assms
proof (induction ls arbitrary: n d)
  case (Cons l ls)
  show ?case
  proof (cases "TrimSpace l = [] \<or> HasPrefix (TrimSpace l) ''#''")
    case True
    with Cons.prems Cons.IH [of "Suc n" d] show ?thesis by (simp add: Let_def)
  next
    case False
    with Cons.prems obtain key comment where p: "parse (TrimSpace l) = Inr (key, comment)" "TrimSpace comment \<noteq> []"
      by (auto simp: Let_def split: sum.splits prod.splits if_splits)
    with False Cons.prems Cons.IH show ?thesis by (fastforce simp: Let_def)
  qed
qed simp

text \<open>The directory decides the tier of a key: a key the file registers authenticates as the account
  of its last line, and that principal is an account; a key the file does not register authenticates
  as its own fingerprint, which is not an account unless some line names an account so.\<close>

theorem directory_tiers:
  assumes "Load parse fp path (Inr ls) = Inr d"
  shows "case map_of (rev (key_entries parse fp ls)) (fp key) of
      Some a \<Rightarrow> dir_Authenticate fp d key = Inr a \<and> IsAccount d a
    | None \<Rightarrow> dir_Authenticate fp d key = Inr (fp key) \<and>
        (IsAccount d (fp key) \<longleftrightarrow> fp key \<in> snd ` set (key_entries parse fp ls))"
proof -
  from assms have "load_lines parse fp path 0 ls \<lparr> dr_byFP = [], dr_accounts = [] \<rparr> = Inr d"
    by (simp add: Load_def)
  from load_lines_entries [OF this]
  have d: "dr_byFP d = rev (key_entries parse fp ls)" "dr_accounts d = rev (map snd (key_entries parse fp ls))" by simp_all
  show ?thesis
  proof (cases "map_of (rev (key_entries parse fp ls)) (fp key)")
    case (Some a)
    then have "(fp key, a) \<in> set (key_entries parse fp ls)" using map_of_SomeD by fastforce
    then have "a \<in> snd ` set (key_entries parse fp ls)" by (metis image_eqI snd_conv)
    with Some d show ?thesis by (simp add: dir_Authenticate_def IsAccount_def)
  qed (simp add: d dir_Authenticate_def IsAccount_def)
qed

theorem directory_tiers_witness:
  "\<exists>d. Load (\<lambda>l. Inr (l, ''alice'')) (\<lambda>k. CHR ''f'' # k) ''keys'' (Inr [''# a comment'', ''k1'']) = Inr d \<and>
     dir_Authenticate (\<lambda>k. CHR ''f'' # k) d ''k1'' = Inr ''alice'' \<and> IsAccount d ''alice'' \<and>
     dir_Authenticate (\<lambda>k. CHR ''f'' # k) d ''k2'' = Inr ''fk2'' \<and> \<not> IsAccount d ''fk2''"
proof -
  let ?p = "\<lambda>l :: string. Inr (l, ''alice'') :: (string \<times> string) result"
  let ?f = "\<lambda>k. CHR ''f'' # k"
  have t: "TrimSpace ''# a comment'' = ''# a comment''" "TrimSpace ''k1'' = ''k1''" "TrimSpace ''alice'' = ''alice''"
    by code_simp+
  have h: "HasPrefix ''# a comment'' ''#''" "\<not> HasPrefix ''k1'' ''#''" by code_simp+
  obtain d where d: "Load ?p ?f ''keys'' (Inr [''# a comment'', ''k1'']) = Inr d"
    using t h by (simp add: Load_def Let_def)
  have e: "key_entries ?p ?f [''# a comment'', ''k1''] = [(''fk1'', ''alice'')]" using t h by (simp add: Let_def)
  from directory_tiers [OF d, of "''k1''"] directory_tiers [OF d, of "''k2''"] d e show ?thesis by auto
qed

text \<open>A principal of the OpenID Connect provider comes from verified claims: its identity is the
  configured claim and is not empty, its tenant is the configured one, it is an owner, and it is a
  tenant admin exactly when a group of the token is an admin group.\<close>

theorem oidc_principal_sound:
  assumes "oidc_Authenticate (oidc_New v cfg) c = Inr pr"
  shows "\<exists>cl. v (cred_Value c) = Inr cl \<and> pl_ID pr = (if oc_PrincipalClaim cfg = ''email'' then cl_Email cl else cl_Subject cl) \<and>
    pl_ID pr \<noteq> [] \<and> pl_TenantID pr = oc_TenantID cfg \<and> ''owner'' \<in> set (pl_Roles pr) \<and>
    (''tenant-admin'' \<in> set (pl_Roles pr) \<longleftrightarrow> set (cl_Groups cl) \<inter> set (oc_AdminGroups cfg) \<noteq> {}) \<and>
    ''system'' \<notin> set (pl_Roles pr)"
  using assms
  by (auto simp: oidc_Authenticate_def oidc_New_def groupsIntersect_def list_ex_iff Let_def split: if_splits sum.splits)

theorem oidc_principal_sound_witness:
  "\<exists>pr. oidc_Authenticate (oidc_New (\<lambda>_. Inr \<lparr> cl_Subject = ''u1'', cl_Email = ''a@x'', cl_Groups = [''ops''] \<rparr>)
      \<lparr> oc_TenantID = ''t'', oc_PrincipalClaim = [], oc_AdminGroups = [''ops''] \<rparr>) \<lparr> cred_Scheme = ''api-key'', cred_Value = ''tok'' \<rparr> = Inr pr \<and>
    pl_ID pr = ''u1'' \<and> ''tenant-admin'' \<in> set (pl_Roles pr)"
proof -
  let ?v = "\<lambda>_ :: string. Inr \<lparr> cl_Subject = ''u1'', cl_Email = ''a@x'', cl_Groups = [''ops''] \<rparr> :: claims result"
  let ?c = "\<lparr> oc_TenantID = ''t'', oc_PrincipalClaim = [], oc_AdminGroups = [''ops''] \<rparr>"
  obtain pr where p: "oidc_Authenticate (oidc_New ?v ?c) \<lparr> cred_Scheme = ''api-key'', cred_Value = ''tok'' \<rparr> = Inr pr"
    by (simp add: oidc_Authenticate_def oidc_New_def groupsIntersect_def)
  from oidc_principal_sound [OF p] p show ?thesis by auto
qed

end
