(* ===== verification/Providers.thy ===== *)
theory Providers
  imports Ports
begin

text \<open>
  The small providers that need no vendor library: the fixed workspace quota
  (\<^verbatim>\<open>providers/metering/staticquota/staticquota.go\<close>), the home directories and home images of the local file
  system (\<^verbatim>\<open>providers/storage/localfs/localfs.go\<close>), and the pass-through image provider
  (\<^verbatim>\<open>providers/build/prebuilt/prebuilt.go\<close>). The file system is a map from cleaned paths to nodes together
  with the host's answers to each system call, so that every error branch is taken for some host.
\<close>

section \<open>Cleaned paths\<close>

text \<open>The elements of a cleaned path: no empty one, no dot, two dots only at the start of a relative
  path.\<close>

definition plain_elem :: "string \<Rightarrow> bool" where
  "plain_elem e \<longleftrightarrow> e \<noteq> [] \<and> e \<noteq> ''.'' \<and> e \<noteq> ''..'' \<and> CHR ''/'' \<notin> set e"

definition clean_form :: "bool \<Rightarrow> string list \<Rightarrow> bool" where
  "clean_form rooted es \<longleftrightarrow> (\<exists>k rest. es = replicate k ''..'' @ rest \<and> list_all plain_elem rest \<and> (rooted \<longrightarrow> k = 0))"

lemma clean_elems_append:
  "clean_elems rooted acc (xs @ ys) = clean_elems rooted (rev (clean_elems rooted acc xs)) ys"
  by (induction xs arbitrary: acc) (auto split: list.split)

lemma clean_form_snoc:
  assumes "clean_form rooted es" "plain_elem e"
  shows "clean_form rooted (es @ [e])"
proof -
  from assms(1) obtain k rest where k: "es = replicate k ''..'' @ rest" "list_all plain_elem rest" "rooted \<longrightarrow> k = 0"
    by (auto simp: clean_form_def)
  with assms(2) show ?thesis unfolding clean_form_def by (intro exI [of _ k] exI [of _ "rest @ [e]"]) simp
qed

lemma clean_form_butlast:
  assumes "clean_form rooted (es @ [e])" "e \<noteq> ''..''"
  shows "clean_form rooted es"
proof -
  from assms(1) obtain k rest where k: "es @ [e] = replicate k ''..'' @ rest" "list_all plain_elem rest" "rooted \<longrightarrow> k = 0"
    by (auto simp: clean_form_def)
  show ?thesis
  proof (cases rest rule: rev_cases)
    case Nil
    with k(1) have "e \<in> set (replicate k ''..'')" by (metis append_Nil2 in_set_conv_decomp)
    with assms(2) show ?thesis by simp
  next
    case (snoc r x)
    with k show ?thesis by (auto simp: clean_form_def)
  qed
qed

lemma clean_form_dots:
  assumes "clean_form rooted es" "es = [] \<or> last es = ''..''" "\<not> rooted"
  shows "clean_form rooted (es @ [''..''])"
proof -
  from assms(1) obtain k rest where k: "es = replicate k ''..'' @ rest" "list_all plain_elem rest"
    by (auto simp: clean_form_def)
  have "rest = []" using k assms(2) by (cases rest rule: rev_cases) (auto simp: plain_elem_def)
  then have "es @ [''..''] = replicate (Suc k) ''..'' @ []" using k by (simp add: replicate_append_same)
  with assms(3) show ?thesis unfolding clean_form_def by (intro exI [of _ "Suc k"] exI [of _ "[]"]) simp
qed

lemma clean_elems_form:
  assumes "clean_form rooted (rev acc)" "\<forall>e \<in> set es. CHR ''/'' \<notin> set e"
  shows "clean_form rooted (clean_elems rooted acc es)"
  using assms
proof (induction rooted acc es rule: clean_elems.induct)
  case (2 rooted acc e es)
  show ?case
  proof (cases "e = [] \<or> e = ''.''")
    case True
    with 2 show ?thesis by simp
  next
    case ne: False
    show ?thesis
    proof (cases "e = ''..''")
      case False
      with 2 ne clean_form_snoc [of rooted "rev acc" e] show ?thesis by (simp add: plain_elem_def)
    next
      case dots: True
      show ?thesis
      proof (cases acc)
        case Nil
        have "clean_form False [''..'']" using clean_form_dots [of False "[]"] by (simp add: clean_form_def)
        with 2 ne dots Nil show ?thesis by (cases rooted) simp_all
      next
        case (Cons a as)
        have "clean_form rooted (rev as)" if "a \<noteq> ''..''" using clean_form_butlast [of rooted "rev as" a] "2.prems"(1) Cons that by simp
        moreover have "clean_form rooted (rev acc @ [''..''])" if "a = ''..''"
          using clean_form_dots [of rooted "rev acc"] "2.prems"(1) Cons that by (cases rooted) (auto simp: clean_form_def plain_elem_def)
        ultimately show ?thesis using 2 ne dots Cons by (cases "a = ''..''") simp_all
      qed
    qed
  qed
qed simp

lemma clean_elems_plain: "list_all plain_elem es \<Longrightarrow> clean_elems rooted acc es = rev acc @ es"
  by (induction es arbitrary: acc) (auto simp: plain_elem_def)

lemma clean_elems_clean:
  assumes "clean_form rooted es"
  shows "clean_elems rooted [] es = es"
proof -
  from assms obtain k rest where k: "es = replicate k ''..'' @ rest" "list_all plain_elem rest" "rooted \<longrightarrow> k = 0"
    by (auto simp: clean_form_def)
  have "clean_elems rooted (replicate n ''..'') (replicate k ''..'') = replicate (n + k) ''..''"
    if "\<not> rooted" for n k
  proof (induction k arbitrary: n)
    case (Suc k)
    with that Suc.IH [of "Suc n"] show ?case by (cases n) simp_all
  qed simp
  from this [of 0 k] k have "clean_elems rooted [] (replicate k ''..'') = replicate k ''..''" by (cases rooted) simp_all
  with k show ?thesis by (simp add: clean_elems_append clean_elems_plain)
qed

definition path_elems :: "string \<Rightarrow> string list" where
  "path_elems p = clean_elems (HasPrefix p ''/'') [] (Split (CHR ''/'') p)"

lemma path_elems_form: "clean_form (HasPrefix p ''/'') (path_elems p)"
  unfolding path_elems_def
  by (rule clean_elems_form) (auto simp: clean_form_def dest: Split_segments)

lemma clean_form_elem:
  assumes "clean_form rooted es" "e \<in> set es"
  shows "e \<noteq> [] \<and> CHR ''/'' \<notin> set e"
proof -
  from assms(1) obtain k rest where k: "es = replicate k ''..'' @ rest" "list_all plain_elem rest"
    unfolding clean_form_def by blast
  from assms(2) have "e \<in> set (replicate k ''..'') \<or> e \<in> set rest" unfolding k(1) set_append by (rule UnE) simp_all
  then show ?thesis
  proof
    assume "e \<in> set (replicate k ''..'')"
    then have "e = ''..''" by (simp split: if_splits)
    then show ?thesis by simp
  next
    assume "e \<in> set rest"
    with k(2) show ?thesis by (simp add: list_all_iff plain_elem_def)
  qed
qed

lemma path_Clean_elems:
  "path_Clean p = (if HasPrefix p ''/'' then CHR ''/'' # Join (CHR ''/'') (path_elems p)
     else if path_elems p = [] then ''.'' else Join (CHR ''/'') (path_elems p))"
proof -
  have "Join (CHR ''/'') es = [] \<longleftrightarrow> es = []" if "clean_form False es" for es
  proof (cases es)
    case (Cons e t)
    with clean_form_elem [OF that] have "e \<noteq> []" by simp
    with Cons show ?thesis by (cases t) simp_all
  qed simp
  note j = this
  show ?thesis
  proof (cases "HasPrefix p ''/''")
    case True
    then show ?thesis by (simp add: path_Clean_def path_elems_def Let_def)
  next
    case False
    with j [of "path_elems p"] path_elems_form [of p] show ?thesis by (simp add: path_Clean_def path_elems_def Let_def)
  qed
qed

lemma clean_form_no_slash: "clean_form r es \<Longrightarrow> list_all (\<lambda>e. CHR ''/'' \<notin> set e) es"
  using clean_form_elem by (auto simp: list_all_iff)

lemma Join_hd:
  assumes "clean_form False es" "es \<noteq> []"
  shows "\<not> HasPrefix (Join (CHR ''/'') es) ''/''"
proof (cases es)
  case (Cons e t)
  with clean_form_elem [OF assms(1)] have "e \<noteq> []" "CHR ''/'' \<notin> set e" by simp_all
  then obtain x e' where "e = x # e'" "x \<noteq> CHR ''/''" by (cases e) auto
  with Cons show ?thesis by (cases t) (simp_all add: HasPrefix_def)
qed (use assms in simp)

text \<open>Cleaning is idempotent: the elements of a cleaned path are its elements.\<close>

lemma path_elems_Clean: "path_elems (path_Clean p) = path_elems p \<and> HasPrefix (path_Clean p) ''/'' = HasPrefix p ''/''"
proof (cases "HasPrefix p ''/''")
  case True
  let ?es = "path_elems p"
  have f: "clean_form True ?es" using path_elems_form [of p] True by simp
  have c: "path_Clean p = [] @ CHR ''/'' # Join (CHR ''/'') ?es" using True by (simp add: path_Clean_elems)
  have "Split (CHR ''/'') (path_Clean p) = [] # Split (CHR ''/'') (Join (CHR ''/'') ?es)" unfolding c by simp
  moreover have "clean_elems True [] (Split (CHR ''/'') (Join (CHR ''/'') ?es)) = ?es"
    using f by (cases "?es = []") (simp_all add: Split_Join clean_form_no_slash clean_elems_clean)
  moreover have "HasPrefix (path_Clean p) ''/''" unfolding c by (simp add: HasPrefix_def)
  ultimately show ?thesis using True unfolding path_elems_def [of "path_Clean p"] by simp
next
  case False
  let ?es = "path_elems p"
  have f: "clean_form False ?es" using path_elems_form [of p] False by simp
  show ?thesis
  proof (cases "?es = []")
    case True
    with False show ?thesis by (simp add: path_Clean_elems path_elems_def HasPrefix_def)
  next
    case ne: False
    have c: "path_Clean p = Join (CHR ''/'') ?es" using False ne by (simp add: path_Clean_elems)
    with f ne Join_hd [OF f ne] False show ?thesis
      by (simp add: path_elems_def [of "Join (CHR ''/'') ?es"] Split_Join clean_form_no_slash clean_elems_clean)
  qed
qed

lemma path_Join_elem:
  assumes "dir \<noteq> []" "plain_elem e"
  shows "path_elems (path_Join [dir, e]) = path_elems dir @ [e]" "HasPrefix (path_Join [dir, e]) ''/'' = HasPrefix dir ''/''"
    "path_Clean (path_Join [dir, e]) = path_Join [dir, e]"
proof -
  have j: "path_Join [dir, e] = path_Clean (dir @ CHR ''/'' # e)"
    using assms by (simp add: path_Join_def plain_elem_def)
  have pre: "HasPrefix (dir @ CHR ''/'' # e) ''/'' = HasPrefix dir ''/''" using assms(1) by (cases dir) (simp_all add: HasPrefix_def)
  have "path_elems (dir @ CHR ''/'' # e) = path_elems dir @ [e]"
    using assms(2) by (simp add: path_elems_def pre Split_append Split_no_sep clean_elems_append plain_elem_def)
  then show "path_elems (path_Join [dir, e]) = path_elems dir @ [e]" "HasPrefix (path_Join [dir, e]) ''/'' = HasPrefix dir ''/''"
    unfolding j using path_elems_Clean [of "dir @ CHR ''/'' # e"] pre by simp_all
  show "path_Clean (path_Join [dir, e]) = path_Join [dir, e]"
    unfolding j using path_elems_Clean [of "dir @ CHR ''/'' # e"]
    by (simp add: path_Clean_elems [of "path_Clean _"]) (simp add: path_Clean_elems)
qed

lemma Join_snoc: "es \<noteq> [] \<Longrightarrow> Join c (es @ fs) = (if fs = [] then Join c es else Join c es @ c # Join c fs)"
  by (induction c es rule: Join.induct) (cases fs; simp)+

text \<open>A cleaned path splits into its elements, so a cleaned path that extends another as a string extends
  it by elements.\<close>

lemma Split_Clean:
  assumes "path_elems p \<noteq> []"
  shows "Split (CHR ''/'') (path_Clean p) = (if HasPrefix p ''/'' then [[]] else []) @ path_elems p"
  using assms path_elems_form [of p]
  by (simp add: path_Clean_elems Split_Join clean_form_no_slash)

lemma clean_extension:
  assumes q: "path_Clean q = q" "HasPrefix q (path_Clean dir @ ''/'')" and d: "path_elems dir \<noteq> []"
  shows "\<exists>x xs. path_elems q = path_elems dir @ x # xs \<and> HasPrefix q ''/'' = HasPrefix dir ''/''"
proof -
  from q(2) obtain t where t: "q = path_Clean dir @ CHR ''/'' # t" by (auto simp: HasPrefix_iff)
  have "path_elems [] = []" by (simp add: path_elems_def)
  then have "path_Clean dir \<noteq> []" using path_elems_Clean [of dir] d by metis
  then have rd: "HasPrefix q ''/'' = HasPrefix dir ''/''"
    using path_elems_Clean [of dir] t by (cases "path_Clean dir") (simp_all add: HasPrefix_def)
  have s: "Split (CHR ''/'') q = (if HasPrefix dir ''/'' then [[]] else []) @ path_elems dir @ Split (CHR ''/'') t"
    by (simp add: t Split_append Split_Clean [OF d])
  have ne: "path_elems q \<noteq> []"
  proof
    assume e: "path_elems q = []"
    with q(1) rd have "q = (if HasPrefix dir ''/'' then ''/'' else ''.'')" using path_Clean_elems [of q] by (cases "HasPrefix dir ''/''") auto
    with s d show False by (cases "path_elems dir"; cases "HasPrefix dir ''/''"; cases "Split (CHR ''/'') t") auto
  qed
  from Split_Clean [OF ne] q(1) s rd have "path_elems q = path_elems dir @ Split (CHR ''/'') t" by simp
  with rd show ?thesis by (cases "Split (CHR ''/'') t") auto
qed

section \<open>The fixed quota\<close>

definition kindStart :: string where "kindStart = ''workspace.start''"
definition kindStop :: string where "kindStop = ''workspace.stop''"
definition kindDestroy :: string where "kindDestroy = ''workspace.destroy''"

record quota_provider =
  qp_limit :: int
  qp_active :: "string \<Rightarrow> int"

definition sq_New :: "int \<Rightarrow> quota_provider" where
  "sq_New workspacesLimit = \<lparr> qp_limit = workspacesLimit, qp_active = (\<lambda>_. 0) \<rparr>"

definition sq_Emit :: "usage_event \<Rightarrow> quota_provider \<Rightarrow> unit result \<times> quota_provider" where
  "sq_Emit e p =
     (let act = qp_active p; n = act (ue_PrincipalID e) in
      (Inr (),
       if ue_Kind e = kindStart then p\<lparr>qp_active := act(ue_PrincipalID e := n + 1)\<rparr>
       else if ue_Kind e = kindStop \<or> ue_Kind e = kindDestroy then
         (if n > 0 then p\<lparr>qp_active := act(ue_PrincipalID e := n - 1)\<rparr> else p)
       else p))"

definition sq_Quota :: "principal_ref \<Rightarrow> quota_provider \<Rightarrow> quota_state result \<times> quota_provider" where
  "sq_Quota r p =
     (let used = qp_active p (prf_PrincipalID r) in
      (Inr (if qp_limit p \<le> 0 then \<lparr> qs_Allowed = True, qs_WorkspacesUsed = used, qs_WorkspacesLimit = 0, qs_Reason = [] \<rparr>
            else if used < qp_limit p
            then \<lparr> qs_Allowed = True, qs_WorkspacesUsed = used, qs_WorkspacesLimit = qp_limit p, qs_Reason = [] \<rparr>
            else \<lparr> qs_Allowed = False, qs_WorkspacesUsed = used, qs_WorkspacesLimit = qp_limit p,
                   qs_Reason = ''workspace limit reached'' \<rparr>), p))"

definition static_quota :: "quota_provider metering_ops" where
  "static_quota = \<lparr> me_Emit = sq_Emit, me_Quota = sq_Quota \<rparr>"

section \<open>The pass-through image provider\<close>

definition pb_Resolve :: "build_request \<Rightarrow> 'w \<Rightarrow> image_ref result \<times> 'w" where
  "pb_Resolve r w =
     (if br_SourceRef r = [] then Inl (Errorf ''prebuilt: source_ref is required (it is the image ref)'')
      else Inr \<lparr> ir_Ref = br_SourceRef r, ir_BuildRef = [] \<rparr>, w)"

definition pb_Status :: "string \<Rightarrow> 'w \<Rightarrow> build_status result \<times> 'w" where
  "pb_Status buildRef w = (Inr \<lparr> bs_Phase = ''ready'', bs_ImageRef = buildRef, bs_Message = [] \<rparr>, w)"

definition prebuilt :: "'w build_ops" where
  "prebuilt = \<lparr> bd_Resolve = pb_Resolve, bd_Status = pb_Status \<rparr>"

section \<open>Homes on the local file system\<close>

datatype fs_node = FsDir | FsImage int bool \<comment> \<open>size, formatted\<close>

text \<open>The nodes of the file system, and what the host answers: the error of a system call, and for a
  failed removal also which nodes it had not yet removed.\<close>

record host_fs =
  fs_node :: "string \<Rightarrow> fs_node option"
  fs_mkdir :: "string \<Rightarrow> err option"
  fs_create :: "string \<Rightarrow> err option"
  fs_truncate :: "string \<Rightarrow> err option"
  fs_mkfs :: "string \<Rightarrow> (err \<times> string) option"
  fs_remove :: "string \<Rightarrow> (err \<times> (string \<Rightarrow> bool)) option"

definition MkdirAll :: "string \<Rightarrow> host_fs \<Rightarrow> unit result \<times> host_fs" where
  "MkdirAll d h = (case fs_mkdir h d of
     Some e \<Rightarrow> (Inl e, h)
   | None \<Rightarrow> (Inr (), h\<lparr>fs_node := (\<lambda>q. if fs_node h q = None \<and> q \<noteq> [] \<and> HasPrefix (d @ ''/'') (q @ ''/'') then Some FsDir else fs_node h q)\<rparr>))"

definition set_node :: "string \<Rightarrow> fs_node option \<Rightarrow> host_fs \<Rightarrow> host_fs" where
  "set_node q n h = h\<lparr>fs_node := (fs_node h)(q := n)\<rparr>"

definition RemoveAll :: "string \<Rightarrow> host_fs \<Rightarrow> unit result \<times> host_fs" where
  "RemoveAll ref h =
     (let c = path_Clean ref; below = (\<lambda>q. q = c \<or> HasPrefix q (c @ ''/'')) in
      case fs_remove h ref of
        Some (e, kept) \<Rightarrow> (Inl e, h\<lparr>fs_node := (\<lambda>q. if below q \<and> \<not> kept q then None else fs_node h q)\<rparr>)
      | None \<Rightarrow> (Inr (), h\<lparr>fs_node := (\<lambda>q. if below q then None else fs_node h q)\<rparr>))"

record localfs_provider =
  lf_root :: string
  lf_block :: bool
  lf_sizeMB :: int

definition lf_New :: "string \<Rightarrow> localfs_provider" where
  "lf_New dir = \<lparr> lf_root = dir, lf_block = False, lf_sizeMB = 0 \<rparr>"

definition lf_NewBlock :: "string \<Rightarrow> int \<Rightarrow> localfs_provider" where
  "lf_NewBlock dir sizeMB = \<lparr> lf_root = dir, lf_block = True, lf_sizeMB = sizeMB \<rparr>"

definition homeTarget :: string where "homeTarget = ''/home/dev''"

text \<open>The size is shifted as a 64-bit integer.\<close>

definition image_bytes :: "int \<Rightarrow> int" where
  "image_bytes sizeMB = sint (push_bit 20 (word_of_int sizeMB :: 64 word))"

definition ensureBlock :: "localfs_provider \<Rightarrow> string \<Rightarrow> host_fs \<Rightarrow> mount result \<times> host_fs" where
  "ensureBlock p wsID h =
     (case MkdirAll (lf_root p) h of
        (Inl e, h1) \<Rightarrow> (Inl (Wrapf (''localfs: mkdir '' @ lf_root p @ '': '') e), h1)
      | (Inr _, h1) \<Rightarrow>
          (let img = path_Join [lf_root p, wsID @ ''.ext4''];
               mt = \<lparr> mt_Source = img, mt_Target = homeTarget, mt_ReadOnly = False, mt_Device = True \<rparr> in
           if fs_node h1 img \<noteq> None then (Inr mt, h1)
           else (case fs_create h1 img of
              Some e \<Rightarrow> (Inl (Wrapf (''localfs: create '' @ img @ '': '') e), h1)
            | None \<Rightarrow>
                (let h2 = set_node img (Some (FsImage 0 False)) h1 in
                 case fs_truncate h2 img of
                   Some e \<Rightarrow> (Inl (Wrapf (''localfs: size '' @ img @ '': '') e), set_node img None h2)
                 | None \<Rightarrow>
                     (case fs_mkfs h2 img of
                        Some (e, out) \<Rightarrow> (Inl (Errorf (''localfs: mkfs.ext4 '' @ img @ '': '' @ err_text e @ '': '' @ out)), set_node img None h2)
                      | None \<Rightarrow> (Inr mt, set_node img (Some (FsImage (image_bytes (lf_sizeMB p)) True)) h2))))))"

definition lf_EnsureHome :: "localfs_provider \<Rightarrow> home_request \<Rightarrow> host_fs \<Rightarrow> mount result \<times> host_fs" where
  "lf_EnsureHome p r h =
     (if hr_WorkspaceID r = [] then (Inl (Errorf ''localfs: empty workspace id''), h)
      else if ContainsAny (hr_WorkspaceID r) [CHR ''/'', CHR 0x5C] \<or> hr_WorkspaceID r = ''.'' \<or> hr_WorkspaceID r = ''..''
      then (Inl (Errorf (''localfs: invalid workspace id '' @ quoted (hr_WorkspaceID r))), h)
      else if lf_block p then ensureBlock p (hr_WorkspaceID r) h
      else (let dir = path_Join [lf_root p, hr_WorkspaceID r] in
            case MkdirAll dir h of
              (Inl e, h1) \<Rightarrow> (Inl (Wrapf (''localfs: mkdir '' @ dir @ '': '') e), h1)
            | (Inr _, h1) \<Rightarrow> (Inr \<lparr> mt_Source = dir, mt_Target = homeTarget, mt_ReadOnly = False, mt_Device = False \<rparr>, h1)))"

definition lf_Delete :: "localfs_provider \<Rightarrow> string \<Rightarrow> host_fs \<Rightarrow> unit result \<times> host_fs" where
  "lf_Delete p homeRef h =
     (if \<not> HasPrefix (path_Clean homeRef) (path_Clean (lf_root p) @ ''/'')
      then (Inl (Errorf (''localfs: refusing to delete '' @ quoted homeRef @ '' outside root '' @ quoted (lf_root p))), h)
      else RemoveAll homeRef h)"

definition local_storage :: "localfs_provider \<Rightarrow> host_fs storage_ops" where
  "local_storage p = \<lparr> st_EnsureHome = lf_EnsureHome p, st_Delete = lf_Delete p \<rparr>"

section \<open>Facts\<close>

text \<open>The workspaces of principals that are up, after an event, and the histories in which a workspace
  starts when it is down and is stopped or destroyed when it is up.\<close>

definition live_step :: "usage_event \<Rightarrow> (string \<times> string) list \<Rightarrow> (string \<times> string) list" where
  "live_step e ws =
     (if ue_Kind e = kindStart then (ue_PrincipalID e, ue_WorkspaceID e) # ws
      else if ue_Kind e = kindStop \<or> ue_Kind e = kindDestroy then remove1 (ue_PrincipalID e, ue_WorkspaceID e) ws
      else ws)"

fun well_paired :: "(string \<times> string) list \<Rightarrow> usage_event list \<Rightarrow> bool" where
  "well_paired ws [] = True"
| "well_paired ws (e # es) =
     ((ue_Kind e = kindStart \<longrightarrow> (ue_PrincipalID e, ue_WorkspaceID e) \<notin> set ws) \<and>
      (ue_Kind e = kindStop \<or> ue_Kind e = kindDestroy \<longrightarrow> (ue_PrincipalID e, ue_WorkspaceID e) \<in> set ws) \<and>
      well_paired (live_step e ws) es)"

definition up_count :: "string \<Rightarrow> (string \<times> string) list \<Rightarrow> int" where
  "up_count pid ws = int (length (filter (\<lambda>x. fst x = pid) ws))"

lemma up_count_simps:
  "up_count pid (x # ws) = (if fst x = pid then 1 else 0) + up_count pid ws"
  "x \<in> set ws \<Longrightarrow> up_count pid (remove1 x ws) = up_count pid ws - (if fst x = pid then 1 else 0)"
  "x \<in> set ws \<Longrightarrow> up_count (fst x) ws > 0"
proof -
  show "up_count pid (x # ws) = (if fst x = pid then 1 else 0) + up_count pid ws" by (simp add: up_count_def)
  show "x \<in> set ws \<Longrightarrow> up_count pid (remove1 x ws) = up_count pid ws - (if fst x = pid then 1 else 0)"
    by (induction ws) (auto simp: up_count_def)
  show "x \<in> set ws \<Longrightarrow> up_count (fst x) ws > 0" by (induction ws) (auto simp: up_count_def)
qed

lemma emit_counts:
  assumes "qp_active p = (\<lambda>i. up_count i ws)" "well_paired ws (e # es)"
  shows "qp_active (snd (sq_Emit e p)) = (\<lambda>i. up_count i (live_step e ws))"
  using assms up_count_simps(3) [of "(ue_PrincipalID e, ue_WorkspaceID e)" ws]
  by (auto simp: sq_Emit_def live_step_def up_count_simps(1,2) fun_eq_iff kindStart_def kindStop_def kindDestroy_def Let_def)

lemma sq_Emit_limit [simp]: "qp_limit (snd (sq_Emit e p)) = qp_limit p"
  by (simp add: sq_Emit_def Let_def)

text \<open>The last element of a home's path.\<close>

definition home_elem :: "localfs_provider \<Rightarrow> string \<Rightarrow> string" where
  "home_elem p ws = (if lf_block p then ws @ ''.ext4'' else ws)"

lemma EnsureHome_source:
  assumes "lf_EnsureHome p r h = (Inr mt, h')"
  shows "plain_elem (home_elem p (hr_WorkspaceID r)) \<and> mt_Source mt = path_Join [lf_root p, home_elem p (hr_WorkspaceID r)]"
proof -
  let ?w = "hr_WorkspaceID r"
  from assms have w: "?w \<noteq> []" "\<not> ContainsAny ?w [CHR ''/'', CHR 0x5C]" "?w \<noteq> ''.''" "?w \<noteq> ''..''"
    by (auto simp: lf_EnsureHome_def split: if_splits)
  then have "CHR ''/'' \<notin> set ?w" by (auto simp: ContainsAny_def list_ex_iff)
  moreover have "?w @ ''.ext4'' \<noteq> ''.''" "?w @ ''.ext4'' \<noteq> ''..''" using w(1) by (cases ?w; simp)+
  ultimately have "plain_elem (home_elem p ?w)" using w by (simp add: plain_elem_def home_elem_def)
  moreover have "mt_Source mt = path_Join [lf_root p, home_elem p ?w]"
    using assms w
    by (auto simp: lf_EnsureHome_def ensureBlock_def home_elem_def MkdirAll_def Let_def split: if_splits option.splits prod.splits)
  ultimately show ?thesis ..
qed

lemma EnsureHome_keeps:
  assumes "lf_EnsureHome p r h = (res, h')" "fs_node h q = Some n"
  shows "fs_node h' q = Some n"
  using assms
  by (auto simp: lf_EnsureHome_def ensureBlock_def MkdirAll_def set_node_def Let_def split: if_splits option.splits prod.splits)

lemma EnsureHome_there:
  assumes "lf_EnsureHome p r h = (Inr mt, h')" "mt_Source mt \<noteq> []"
  shows "fs_node h' (mt_Source mt) \<noteq> None"
  using assms
  by (auto simp: lf_EnsureHome_def ensureBlock_def MkdirAll_def set_node_def Let_def HasPrefix_def split: if_splits option.splits prod.splits)

lemma home_path:
  assumes "path_elems dir \<noteq> []" "plain_elem e"
  shows "path_Clean (path_Join [dir, e]) = path_Join [dir, e]" "path_elems (path_Join [dir, e]) = path_elems dir @ [e]"
    "HasPrefix (path_Join [dir, e]) (path_Clean dir @ ''/'')" "path_Join [dir, e] \<noteq> []"
proof -
  have d: "dir \<noteq> []" using assms(1) by (auto simp: path_elems_def)
  note j = path_Join_elem [OF d assms(2)]
  show "path_Clean (path_Join [dir, e]) = path_Join [dir, e]" "path_elems (path_Join [dir, e]) = path_elems dir @ [e]"
    using j by simp_all
  have "path_Join [dir, e] = path_Clean dir @ CHR ''/'' # e"
    using path_Clean_elems [of "path_Join [dir, e]"] j assms(1)
    by (cases "HasPrefix dir ''/''") (simp_all add: path_Clean_elems [of dir] Join_snoc)
  then show "HasPrefix (path_Join [dir, e]) (path_Clean dir @ ''/'')" "path_Join [dir, e] \<noteq> []" by (simp_all add: HasPrefix_def)
qed

section \<open>Properties\<close>

text \<open>The quota counts the workspaces that are up: over any history in which every workspace starts
  when it is down and is stopped or destroyed when it is up, for any number of principals and with any
  other events in between, the reported usage is the number of the principal's workspaces that are up,
  and another one is allowed exactly when there is no limit or the limit is not reached.\<close>

theorem quota_counts_running:
  assumes "well_paired [] evs"
  shows "\<exists>q. sq_Quota r (fold (\<lambda>e p. snd (sq_Emit e p)) evs (sq_New cap)) = (Inr q, fold (\<lambda>e p. snd (sq_Emit e p)) evs (sq_New cap)) \<and>
    qs_WorkspacesUsed q = up_count (prf_PrincipalID r) (fold live_step evs []) \<and>
    (qs_Allowed q \<longleftrightarrow> cap \<le> 0 \<or> up_count (prf_PrincipalID r) (fold live_step evs []) < cap)"
proof -
  have "qp_limit (fold (\<lambda>e p. snd (sq_Emit e p)) evs p) = qp_limit p \<and>
      qp_active (fold (\<lambda>e p. snd (sq_Emit e p)) evs p) = (\<lambda>i. up_count i (fold live_step evs ws))"
    if "qp_active p = (\<lambda>i. up_count i ws)" "well_paired ws evs" for p ws
    using that
  proof (induction evs arbitrary: p ws)
    case (Cons e evs)
    from Cons.IH [OF emit_counts [OF Cons.prems]] Cons.prems(2) show ?case by simp
  qed simp
  from this [of "sq_New cap" "[]"] assms
  have "qp_limit (fold (\<lambda>e p. snd (sq_Emit e p)) evs (sq_New cap)) = cap"
      "qp_active (fold (\<lambda>e p. snd (sq_Emit e p)) evs (sq_New cap)) = (\<lambda>i. up_count i (fold live_step evs []))"
    by (simp_all add: sq_New_def up_count_def)
  then show ?thesis by (simp add: sq_Quota_def Let_def)
qed

text \<open>Stopping and then destroying the same workspace counts twice: with a second workspace up and a
  limit of one, the quota reports none and allows another.\<close>

definition usage :: "string \<Rightarrow> string \<Rightarrow> usage_event" where
  "usage kind ws = \<lparr> ue_TenantID = [], ue_PrincipalID = ''u'', ue_WorkspaceID = ws, ue_Kind = kind, ue_Value = 0, ue_UnixMillis = 0 \<rparr>"

lemma stop_then_destroy_undercounts:
  "fst (sq_Quota \<lparr> prf_PrincipalID = ''u'', prf_TenantID = [] \<rparr>
     (fold (\<lambda>e p. snd (sq_Emit e p)) [usage kindStart ''a'', usage kindStart ''b'', usage kindStop ''a'', usage kindDestroy ''a''] (sq_New 1))) =
   Inr \<lparr> qs_Allowed = True, qs_WorkspacesUsed = 0, qs_WorkspacesLimit = 1, qs_Reason = [] \<rparr>"
  by (simp add: sq_Quota_def sq_Emit_def sq_New_def usage_def kindStart_def kindStop_def kindDestroy_def Let_def)

theorem quota_counts_running_witness:
  "\<exists>q p. sq_Quota \<lparr> prf_PrincipalID = ''u'', prf_TenantID = [] \<rparr>
      (fold (\<lambda>e p. snd (sq_Emit e p)) [usage kindStart ''a'', usage kindStart ''b'', usage kindStop ''a''] (sq_New 1)) = (Inr q, p) \<and>
    qs_WorkspacesUsed q = 1 \<and> \<not> qs_Allowed q"
  using quota_counts_running [of "[usage kindStart ''a'', usage kindStart ''b'', usage kindStop ''a'']" "\<lparr> prf_PrincipalID = ''u'', prf_TenantID = [] \<rparr>" 1]
  by (auto simp: usage_def kindStart_def kindStop_def kindDestroy_def live_step_def up_count_def)


definition calm_host :: host_fs where
  "calm_host = \<lparr> fs_node = (\<lambda>_. None), fs_mkdir = (\<lambda>_. None), fs_create = (\<lambda>_. None), fs_truncate = (\<lambda>_. None),
     fs_mkfs = (\<lambda>_. None), fs_remove = (\<lambda>_. None) \<rparr>"


end
