(* ===== verification/Plugin.thy ===== *)
theory Plugin
  imports Gateway Identity Providers
begin

text \<open>
  The provider plane across a process boundary: the conversions between the neutral types and the
  protobuf messages (\<^verbatim>\<open>internal/plugin/convert.go\<close>), the client adapters that implement each contract over
  a gRPC client (\<^verbatim>\<open>remote.go\<close>), the server adapters that serve a provider as a gRPC service
  (\<^verbatim>\<open>server/server.go\<close>) and the loader that picks a transport (\<^verbatim>\<open>loader.go\<close>).

  A message is a record, with \<open>option\<close> for a pointer that may be nil. A gRPC service is a record of
  functions over the world of its server; the gRPC library between a client stub and a server is the
  function \<open>grpc\<close>, which hands requests and responses over and replaces the server's error by
  what the client sees of it (a parameter). Messages of one string are that string.
\<close>

section \<open>Messages\<close>

datatype pb_phase = PHASE_UNSPECIFIED | RUNNING | STOPPED | GONE | FAILED

record pb_mount =
  pbm_Source :: string
  pbm_Target :: string
  pbm_ReadOnly :: bool

record pb_agent_image =
  pba_ImageRef :: string
  pba_BinaryPath :: string
  pba_TargetPath :: string
  pba_HostBinaryPath :: string

record pb_home_request =
  pbh_WorkspaceId :: string
  pbh_TenantId :: string
  pbh_Owner :: string

record pb_expose_request =
  pbx_WorkspaceId :: string
  pbx_Name :: string
  pbx_Port :: int
  pbx_Scheme :: string
  pbx_TenantId :: string

record pb_endpoint =
  pbe_Ref :: string
  pbe_Url :: string
  pbe_Name :: string
  pbe_Port :: int

record pb_credential =
  pbc_Scheme :: string
  pbc_Value :: string

record pb_principal =
  pbp_Id :: string
  pbp_TenantId :: string
  pbp_DisplayName :: string
  pbp_Roles :: "string list"

record pb_access_request =
  pbar_Principal :: "pb_principal option"
  pbar_Action :: string
  pbar_Resource :: string

record pb_decision =
  pbd_Allow :: bool
  pbd_Reason :: string

record pb_usage_event =
  pbu_TenantId :: string
  pbu_PrincipalId :: string
  pbu_WorkspaceId :: string
  pbu_Kind :: string
  pbu_Value :: int
  pbu_UnixMillis :: int

record pb_principal_ref =
  pbpr_PrincipalId :: string
  pbpr_TenantId :: string

record pb_quota_state =
  pbq_Allowed :: bool
  pbq_WorkspacesUsed :: int
  pbq_WorkspacesLimit :: int
  pbq_Reason :: string

record pb_build_request =
  pbb_WorkspaceId :: string
  pbb_SourceRef :: string
  pbb_Provider :: string
  pbb_Options :: "(string \<times> string) list"
  pbb_TenantId :: string

record pb_image_ref =
  pbi_Ref :: string
  pbi_BuildRef :: string

record pb_build_status =
  pbs_Phase :: string
  pbs_ImageRef :: string
  pbs_Message :: string

record pb_provision_request =
  pbr_WorkspaceId :: string
  pbr_ImageRef :: string
  pbr_MemMb :: int
  pbr_Mounts :: "pb_mount option list"
  pbr_Env :: env
  pbr_Agent :: "pb_agent_image option"

record pb_instance =
  pbn_Ref :: string
  pbn_Phase :: pb_phase

section \<open>Conversions\<close>

fun ToProtoPhase :: "instance_phase \<Rightarrow> pb_phase" where
  "ToProtoPhase InstanceRunning = RUNNING"
| "ToProtoPhase InstanceStopped = STOPPED"
| "ToProtoPhase InstanceGone = GONE"
| "ToProtoPhase InstanceFailed = FAILED"
| "ToProtoPhase (InstancePhaseOther _) = PHASE_UNSPECIFIED"

fun FromProtoPhase :: "pb_phase \<Rightarrow> instance_phase" where
  "FromProtoPhase RUNNING = InstanceRunning"
| "FromProtoPhase STOPPED = InstanceStopped"
| "FromProtoPhase GONE = InstanceGone"
| "FromProtoPhase FAILED = InstanceFailed"
| "FromProtoPhase PHASE_UNSPECIFIED = InstanceFailed"

definition ToProtoMount :: "mount \<Rightarrow> pb_mount" where
  "ToProtoMount v =
     \<lparr> pbm_Source = mt_Source v, pbm_Target = mt_Target v, pbm_ReadOnly = mt_ReadOnly v \<rparr>"

definition FromProtoMount :: "pb_mount option \<Rightarrow> mount" where
  "FromProtoMount r = (case r of
     None \<Rightarrow> \<lparr> mt_Source = [], mt_Target = [], mt_ReadOnly = False, mt_Device = False \<rparr>
   | Some m \<Rightarrow> \<lparr> mt_Source = pbm_Source m, mt_Target = pbm_Target m,
         mt_ReadOnly = pbm_ReadOnly m, mt_Device = False \<rparr>)"

definition ToProtoAgent :: "agent_image \<Rightarrow> pb_agent_image" where
  "ToProtoAgent v =
     \<lparr> pba_ImageRef = ai_ImageRef v, pba_BinaryPath = ai_BinaryPath v, pba_TargetPath = ai_TargetPath v,
           pba_HostBinaryPath = ai_HostBinaryPath v \<rparr>"

definition FromProtoAgent :: "pb_agent_image option \<Rightarrow> agent_image" where
  "FromProtoAgent r = (case r of
     None \<Rightarrow> \<lparr> ai_ImageRef = [], ai_BinaryPath = [], ai_TargetPath = [],
           ai_HostBinaryPath = [] \<rparr>
   | Some m \<Rightarrow> \<lparr> ai_ImageRef = pba_ImageRef m, ai_BinaryPath = pba_BinaryPath m,
         ai_TargetPath = pba_TargetPath m, ai_HostBinaryPath = pba_HostBinaryPath m \<rparr>)"

definition ToProtoHomeRequest :: "home_request \<Rightarrow> pb_home_request" where
  "ToProtoHomeRequest v =
     \<lparr> pbh_WorkspaceId = hr_WorkspaceID v, pbh_TenantId = hr_TenantID v, pbh_Owner = hr_Owner v \<rparr>"

definition FromProtoHomeRequest :: "pb_home_request option \<Rightarrow> home_request" where
  "FromProtoHomeRequest r = (case r of
     None \<Rightarrow> \<lparr> hr_WorkspaceID = [], hr_TenantID = [], hr_Owner = [] \<rparr>
   | Some m \<Rightarrow> \<lparr> hr_WorkspaceID = pbh_WorkspaceId m, hr_TenantID = pbh_TenantId m,
         hr_Owner = pbh_Owner m \<rparr>)"

definition ToProtoExposeRequest :: "expose_request \<Rightarrow> pb_expose_request" where
  "ToProtoExposeRequest v =
     \<lparr> pbx_WorkspaceId = er_WorkspaceID v, pbx_Name = er_Name v, pbx_Port = er_Port v,
           pbx_Scheme = er_Scheme v, pbx_TenantId = er_TenantID v \<rparr>"

definition FromProtoExposeRequest :: "pb_expose_request option \<Rightarrow> expose_request" where
  "FromProtoExposeRequest r = (case r of
     None \<Rightarrow> \<lparr> er_WorkspaceID = [], er_Name = [], er_Port = 0, er_Scheme = [],
           er_TenantID = [] \<rparr>
   | Some m \<Rightarrow> \<lparr> er_WorkspaceID = pbx_WorkspaceId m, er_Name = pbx_Name m,
         er_Port = pbx_Port m, er_Scheme = pbx_Scheme m, er_TenantID = pbx_TenantId m \<rparr>)"

definition ToProtoEndpoint :: "endpoint \<Rightarrow> pb_endpoint" where
  "ToProtoEndpoint v =
     \<lparr> pbe_Ref = ep_Ref v, pbe_Url = ep_URL v, pbe_Name = ep_Name v, pbe_Port = ep_Port v \<rparr>"

definition FromProtoEndpoint :: "pb_endpoint option \<Rightarrow> endpoint" where
  "FromProtoEndpoint r = (case r of
     None \<Rightarrow> \<lparr> ep_Ref = [], ep_URL = [], ep_Name = [], ep_Port = 0 \<rparr>
   | Some m \<Rightarrow> \<lparr> ep_Ref = pbe_Ref m, ep_URL = pbe_Url m, ep_Name = pbe_Name m,
         ep_Port = pbe_Port m \<rparr>)"

definition ToProtoCredential :: "credential \<Rightarrow> pb_credential" where
  "ToProtoCredential v =
     \<lparr> pbc_Scheme = cred_Scheme v, pbc_Value = cred_Value v \<rparr>"

definition FromProtoCredential :: "pb_credential option \<Rightarrow> credential" where
  "FromProtoCredential r = (case r of
     None \<Rightarrow> \<lparr> cred_Scheme = [], cred_Value = [] \<rparr>
   | Some m \<Rightarrow> \<lparr> cred_Scheme = pbc_Scheme m, cred_Value = pbc_Value m \<rparr>)"

definition ToProtoPrincipal :: "principal \<Rightarrow> pb_principal" where
  "ToProtoPrincipal v =
     \<lparr> pbp_Id = pl_ID v, pbp_TenantId = pl_TenantID v, pbp_DisplayName = pl_DisplayName v,
           pbp_Roles = pl_Roles v \<rparr>"

definition FromProtoPrincipal :: "pb_principal option \<Rightarrow> principal" where
  "FromProtoPrincipal r = (case r of
     None \<Rightarrow> \<lparr> pl_ID = [], pl_TenantID = [], pl_DisplayName = [], pl_Roles = [] \<rparr>
   | Some m \<Rightarrow> \<lparr> pl_ID = pbp_Id m, pl_TenantID = pbp_TenantId m,
         pl_DisplayName = pbp_DisplayName m, pl_Roles = pbp_Roles m \<rparr>)"

definition ToProtoAccessRequest :: "access_request \<Rightarrow> pb_access_request" where
  "ToProtoAccessRequest v =
     \<lparr> pbar_Principal = Some (ToProtoPrincipal (ar_Principal v)), pbar_Action = ar_Action v,
           pbar_Resource = ar_Resource v \<rparr>"

definition FromProtoAccessRequest :: "pb_access_request option \<Rightarrow> access_request" where
  "FromProtoAccessRequest r = (case r of
     None \<Rightarrow> \<lparr> ar_Principal = FromProtoPrincipal None, ar_Action = [], ar_Resource = [] \<rparr>
   | Some m \<Rightarrow> \<lparr> ar_Principal = FromProtoPrincipal (pbar_Principal m),
         ar_Action = pbar_Action m, ar_Resource = pbar_Resource m \<rparr>)"

definition ToProtoDecision :: "decision \<Rightarrow> pb_decision" where
  "ToProtoDecision v =
     \<lparr> pbd_Allow = dec_Allow v, pbd_Reason = dec_Reason v \<rparr>"

definition FromProtoDecision :: "pb_decision option \<Rightarrow> decision" where
  "FromProtoDecision r = (case r of
     None \<Rightarrow> \<lparr> dec_Allow = False, dec_Reason = [] \<rparr>
   | Some m \<Rightarrow> \<lparr> dec_Allow = pbd_Allow m, dec_Reason = pbd_Reason m \<rparr>)"

definition ToProtoUsageEvent :: "usage_event \<Rightarrow> pb_usage_event" where
  "ToProtoUsageEvent v =
     \<lparr> pbu_TenantId = ue_TenantID v, pbu_PrincipalId = ue_PrincipalID v,
           pbu_WorkspaceId = ue_WorkspaceID v, pbu_Kind = ue_Kind v, pbu_Value = ue_Value v,
           pbu_UnixMillis = ue_UnixMillis v \<rparr>"

definition FromProtoUsageEvent :: "pb_usage_event option \<Rightarrow> usage_event" where
  "FromProtoUsageEvent r = (case r of
     None \<Rightarrow> \<lparr> ue_TenantID = [], ue_PrincipalID = [], ue_WorkspaceID = [], ue_Kind = [],
           ue_Value = 0, ue_UnixMillis = 0 \<rparr>
   | Some m \<Rightarrow> \<lparr> ue_TenantID = pbu_TenantId m, ue_PrincipalID = pbu_PrincipalId m,
         ue_WorkspaceID = pbu_WorkspaceId m, ue_Kind = pbu_Kind m, ue_Value = pbu_Value m,
         ue_UnixMillis = pbu_UnixMillis m \<rparr>)"

definition ToProtoPrincipalRef :: "principal_ref \<Rightarrow> pb_principal_ref" where
  "ToProtoPrincipalRef v =
     \<lparr> pbpr_PrincipalId = prf_PrincipalID v, pbpr_TenantId = prf_TenantID v \<rparr>"

definition FromProtoPrincipalRef :: "pb_principal_ref option \<Rightarrow> principal_ref" where
  "FromProtoPrincipalRef r = (case r of
     None \<Rightarrow> \<lparr> prf_PrincipalID = [], prf_TenantID = [] \<rparr>
   | Some m \<Rightarrow> \<lparr> prf_PrincipalID = pbpr_PrincipalId m, prf_TenantID = pbpr_TenantId m \<rparr>)"

definition ToProtoQuotaState :: "quota_state \<Rightarrow> pb_quota_state" where
  "ToProtoQuotaState v =
     \<lparr> pbq_Allowed = qs_Allowed v, pbq_WorkspacesUsed = qs_WorkspacesUsed v,
           pbq_WorkspacesLimit = qs_WorkspacesLimit v, pbq_Reason = qs_Reason v \<rparr>"

definition FromProtoQuotaState :: "pb_quota_state option \<Rightarrow> quota_state" where
  "FromProtoQuotaState r = (case r of
     None \<Rightarrow> \<lparr> qs_Allowed = False, qs_WorkspacesUsed = 0, qs_WorkspacesLimit = 0,
           qs_Reason = [] \<rparr>
   | Some m \<Rightarrow> \<lparr> qs_Allowed = pbq_Allowed m, qs_WorkspacesUsed = pbq_WorkspacesUsed m,
         qs_WorkspacesLimit = pbq_WorkspacesLimit m, qs_Reason = pbq_Reason m \<rparr>)"

definition ToProtoBuildRequest :: "build_request \<Rightarrow> pb_build_request" where
  "ToProtoBuildRequest v =
     \<lparr> pbb_WorkspaceId = br_WorkspaceID v, pbb_SourceRef = br_SourceRef v, pbb_Provider = br_Provider v,
           pbb_Options = br_Options v, pbb_TenantId = br_TenantID v \<rparr>"

definition FromProtoBuildRequest :: "pb_build_request option \<Rightarrow> build_request" where
  "FromProtoBuildRequest r = (case r of
     None \<Rightarrow> \<lparr> br_WorkspaceID = [], br_SourceRef = [], br_Provider = [], br_Options = [],
           br_TenantID = [] \<rparr>
   | Some m \<Rightarrow> \<lparr> br_WorkspaceID = pbb_WorkspaceId m, br_SourceRef = pbb_SourceRef m,
         br_Provider = pbb_Provider m, br_Options = pbb_Options m, br_TenantID = pbb_TenantId m \<rparr>)"

definition ToProtoImageRef :: "image_ref \<Rightarrow> pb_image_ref" where
  "ToProtoImageRef v =
     \<lparr> pbi_Ref = ir_Ref v, pbi_BuildRef = ir_BuildRef v \<rparr>"

definition FromProtoImageRef :: "pb_image_ref option \<Rightarrow> image_ref" where
  "FromProtoImageRef r = (case r of
     None \<Rightarrow> \<lparr> ir_Ref = [], ir_BuildRef = [] \<rparr>
   | Some m \<Rightarrow> \<lparr> ir_Ref = pbi_Ref m, ir_BuildRef = pbi_BuildRef m \<rparr>)"

definition ToProtoBuildStatus :: "build_status \<Rightarrow> pb_build_status" where
  "ToProtoBuildStatus v =
     \<lparr> pbs_Phase = bs_Phase v, pbs_ImageRef = bs_ImageRef v, pbs_Message = bs_Message v \<rparr>"

definition FromProtoBuildStatus :: "pb_build_status option \<Rightarrow> build_status" where
  "FromProtoBuildStatus r = (case r of
     None \<Rightarrow> \<lparr> bs_Phase = [], bs_ImageRef = [], bs_Message = [] \<rparr>
   | Some m \<Rightarrow> \<lparr> bs_Phase = pbs_Phase m, bs_ImageRef = pbs_ImageRef m,
         bs_Message = pbs_Message m \<rparr>)"

definition ToProtoProvisionRequest :: "provision_request \<Rightarrow> pb_provision_request" where
  "ToProtoProvisionRequest v =
     \<lparr> pbr_WorkspaceId = pr_WorkspaceID v, pbr_ImageRef = pr_ImageRef v, pbr_MemMb = pr_MemMB v,
        pbr_Mounts = map (\<lambda>m. Some (ToProtoMount m)) (pr_Mounts v), pbr_Env = pr_Env v,
        pbr_Agent = Some (ToProtoAgent (pr_Agent v)) \<rparr>"

definition FromProtoProvisionRequest :: "pb_provision_request option \<Rightarrow> provision_request" where
  "FromProtoProvisionRequest r = (case r of
     None \<Rightarrow> \<lparr> pr_WorkspaceID = [], pr_ImageRef = [], pr_MemMB = 0, pr_CPUMillis = 0, pr_GuestBin = [],
        pr_Mounts = [], pr_Env = [], pr_Agent = FromProtoAgent None \<rparr>
   | Some m \<Rightarrow> \<lparr> pr_WorkspaceID = pbr_WorkspaceId m, pr_ImageRef = pbr_ImageRef m, pr_MemMB = pbr_MemMb m,
        pr_CPUMillis = 0, pr_GuestBin = [], pr_Mounts = map FromProtoMount (pbr_Mounts m), pr_Env = pbr_Env m,
        pr_Agent = FromProtoAgent (pbr_Agent m) \<rparr>)"

definition ToProtoInstance :: "compute_instance \<Rightarrow> pb_instance" where
  "ToProtoInstance v = \<lparr> pbn_Ref = inst_Ref v, pbn_Phase = ToProtoPhase (inst_Phase v) \<rparr>"

definition FromProtoInstance :: "pb_instance option \<Rightarrow> compute_instance" where
  "FromProtoInstance r = (case r of
     None \<Rightarrow> \<lparr> inst_Ref = [], inst_Phase = InstancePhaseOther [], inst_IP = [] \<rparr>
   | Some m \<Rightarrow> \<lparr> inst_Ref = pbn_Ref m, inst_Phase = FromProtoPhase (pbn_Phase m), inst_IP = [] \<rparr>)"

section \<open>Services and gRPC\<close>

record 'w pb_compute =
  pc_Provision :: "pb_provision_request \<Rightarrow> 'w \<Rightarrow> pb_instance result \<times> 'w"
  pc_Status :: "string \<Rightarrow> 'w \<Rightarrow> pb_instance result \<times> 'w"
  pc_Stop :: "string \<Rightarrow> 'w \<Rightarrow> unit result \<times> 'w"
  pc_Destroy :: "string \<Rightarrow> 'w \<Rightarrow> unit result \<times> 'w"

record 'w pb_storage =
  ps_EnsureHome :: "pb_home_request \<Rightarrow> 'w \<Rightarrow> pb_mount result \<times> 'w"
  ps_Delete :: "string \<Rightarrow> 'w \<Rightarrow> unit result \<times> 'w"

record 'w pb_ingress =
  pg_Expose :: "pb_expose_request \<Rightarrow> 'w \<Rightarrow> pb_endpoint result \<times> 'w"
  pg_Unexpose :: "string \<Rightarrow> 'w \<Rightarrow> unit result \<times> 'w"

record 'w pb_identity =
  pi_Authenticate :: "pb_credential \<Rightarrow> 'w \<Rightarrow> pb_principal result \<times> 'w"
  pi_Authorize :: "pb_access_request \<Rightarrow> 'w \<Rightarrow> pb_decision result \<times> 'w"

record 'w pb_metering =
  pm_Emit :: "pb_usage_event list \<Rightarrow> 'w \<Rightarrow> unit result \<times> 'w"
  pm_Quota :: "pb_principal_ref \<Rightarrow> 'w \<Rightarrow> pb_quota_state result \<times> 'w"

record 'w pb_build =
  pu_Resolve :: "pb_build_request \<Rightarrow> 'w \<Rightarrow> pb_image_ref result \<times> 'w"
  pu_Status :: "string \<Rightarrow> 'w \<Rightarrow> pb_build_status result \<times> 'w"

text \<open>A call through gRPC, and the continuation of a call that returns an error as it is.\<close>

definition grpc :: "(err \<Rightarrow> err) \<Rightarrow> ('q \<Rightarrow> 'w \<Rightarrow> 'a result \<times> 'w) \<Rightarrow> 'q \<Rightarrow> 'w \<Rightarrow> 'a result \<times> 'w" where
  "grpc seen handler q w = (case handler q w of (Inl e, w') \<Rightarrow> (Inl (seen e), w') | (Inr a, w') \<Rightarrow> (Inr a, w'))"

definition on_ok :: "('a \<Rightarrow> 'b) \<Rightarrow> 'a result \<times> 'w \<Rightarrow> 'b result \<times> 'w" where
  "on_ok g = (\<lambda>(r, w). case r of Inl e \<Rightarrow> (Inl e, w) | Inr a \<Rightarrow> (Inr (g a), w))"

definition on_error :: "(err \<Rightarrow> err) \<Rightarrow> 'a result \<times> 'w \<Rightarrow> 'a result \<times> 'w" where
  "on_error f = (\<lambda>(r, w). case r of Inl e \<Rightarrow> (Inl (f e), w) | Inr a \<Rightarrow> (Inr a, w))"

section \<open>The client adapters\<close>

definition remoteCompute :: "'w pb_compute \<Rightarrow> 'w compute_ops" where
  "remoteCompute cli = \<lparr>
     c_Provision = (\<lambda>req w. on_ok (\<lambda>i. FromProtoInstance (Some i)) (pc_Provision cli (ToProtoProvisionRequest req) w)),
     c_Status = (\<lambda>ref w. on_ok (\<lambda>i. FromProtoInstance (Some i)) (pc_Status cli ref w)),
     c_Stop = pc_Stop cli,
     c_Destroy = pc_Destroy cli,
     c_Suspender = None \<rparr>"

definition remoteStorage :: "'w pb_storage \<Rightarrow> 'w storage_ops" where
  "remoteStorage cli = \<lparr>
     st_EnsureHome = (\<lambda>req w. on_ok (\<lambda>m. FromProtoMount (Some m)) (ps_EnsureHome cli (ToProtoHomeRequest req) w)),
     st_Delete = ps_Delete cli \<rparr>"

definition remoteIngress :: "'w pb_ingress \<Rightarrow> 'w ingress_ops" where
  "remoteIngress cli = \<lparr>
     ig_Expose = (\<lambda>req w. on_ok (\<lambda>e. FromProtoEndpoint (Some e)) (pg_Expose cli (ToProtoExposeRequest req) w)),
     ig_Unexpose = pg_Unexpose cli \<rparr>"

definition remoteIdentity :: "'w pb_identity \<Rightarrow> 'w identity_ops" where
  "remoteIdentity cli = \<lparr>
     id_Authenticate = (\<lambda>c w. on_ok (\<lambda>p. FromProtoPrincipal (Some p)) (pi_Authenticate cli (ToProtoCredential c) w)),
     id_Authorize = (\<lambda>r w. on_ok (\<lambda>d. FromProtoDecision (Some d)) (pi_Authorize cli (ToProtoAccessRequest r) w)) \<rparr>"

definition remoteMetering :: "'w pb_metering \<Rightarrow> 'w metering_ops" where
  "remoteMetering cli = \<lparr>
     me_Emit = (\<lambda>e w. pm_Emit cli [ToProtoUsageEvent e] w),
     me_Quota = (\<lambda>r w. on_ok (\<lambda>q. FromProtoQuotaState (Some q)) (pm_Quota cli (ToProtoPrincipalRef r) w)) \<rparr>"

definition remoteBuild :: "'w pb_build \<Rightarrow> 'w build_ops" where
  "remoteBuild cli = \<lparr>
     bd_Resolve = (\<lambda>r w. on_ok (\<lambda>i. FromProtoImageRef (Some i)) (pu_Resolve cli (ToProtoBuildRequest r) w)),
     bd_Status = (\<lambda>ref w. on_ok (\<lambda>b. FromProtoBuildStatus (Some b)) (pu_Status cli ref w)) \<rparr>"

section \<open>The server adapters\<close>

definition ComputeServer :: "'w compute_ops \<Rightarrow> 'w pb_compute" where
  "ComputeServer impl = \<lparr>
     pc_Provision = (\<lambda>r w. on_ok ToProtoInstance (c_Provision impl (FromProtoProvisionRequest (Some r)) w)),
     pc_Status = (\<lambda>ref w. on_ok ToProtoInstance (c_Status impl ref w)),
     pc_Stop = c_Stop impl,
     pc_Destroy = c_Destroy impl \<rparr>"

definition StorageServer :: "'w storage_ops \<Rightarrow> 'w pb_storage" where
  "StorageServer impl = \<lparr>
     ps_EnsureHome = (\<lambda>r w. on_ok ToProtoMount (st_EnsureHome impl (FromProtoHomeRequest (Some r)) w)),
     ps_Delete = st_Delete impl \<rparr>"

definition IngressServer :: "'w ingress_ops \<Rightarrow> 'w pb_ingress" where
  "IngressServer impl = \<lparr>
     pg_Expose = (\<lambda>r w. on_ok ToProtoEndpoint (ig_Expose impl (FromProtoExposeRequest (Some r)) w)),
     pg_Unexpose = ig_Unexpose impl \<rparr>"

definition IdentityServer :: "'w identity_ops \<Rightarrow> 'w pb_identity" where
  "IdentityServer impl = \<lparr>
     pi_Authenticate = (\<lambda>r w. on_ok ToProtoPrincipal (id_Authenticate impl (FromProtoCredential (Some r)) w)),
     pi_Authorize = (\<lambda>r w. on_ok ToProtoDecision (id_Authorize impl (FromProtoAccessRequest (Some r)) w)) \<rparr>"

text \<open>The receive loop: the events of the client's stream up to its end, or up to the first one the
  provider refuses.\<close>

fun emit_loop :: "'w metering_ops \<Rightarrow> pb_usage_event list \<Rightarrow> 'w \<Rightarrow> unit result \<times> 'w" where
  "emit_loop impl [] w = (Inr (), w)"
| "emit_loop impl (ev # evs) w =
     (case me_Emit impl (FromProtoUsageEvent (Some ev)) w of
        (Inl e, w') \<Rightarrow> (Inl e, w')
      | (Inr _, w') \<Rightarrow> emit_loop impl evs w')"

definition MeteringServer :: "'w metering_ops \<Rightarrow> 'w pb_metering" where
  "MeteringServer impl = \<lparr>
     pm_Emit = emit_loop impl,
     pm_Quota = (\<lambda>r w. on_ok ToProtoQuotaState (me_Quota impl (FromProtoPrincipalRef (Some r)) w)) \<rparr>"

definition BuildServer :: "'w build_ops \<Rightarrow> 'w pb_build" where
  "BuildServer impl = \<lparr>
     pu_Resolve = (\<lambda>r w. on_ok ToProtoImageRef (bd_Resolve impl (FromProtoBuildRequest (Some r)) w)),
     pu_Status = (\<lambda>ref w. on_ok ToProtoBuildStatus (bd_Status impl ref w)) \<rparr>"

section \<open>The loader\<close>

record provider_config =
  pcf_Kind :: string
  pcf_Transport :: string
  pcf_RemoteAddr :: string

text \<open>The six loaders differ in the noun of their messages, the hint of the compute one and the adapter.
  \<open>dial\<close> is \<^verbatim>\<open>grpc.NewClient\<close>.\<close>

definition load_provider :: "string \<Rightarrow> string \<Rightarrow> (string \<Rightarrow> 'c result) \<Rightarrow> ('c \<Rightarrow> 'p) \<Rightarrow> provider_config \<Rightarrow> 'p option \<Rightarrow> 'p result" where
  "load_provider what hint dial adapter cfg inproc =
     (if pcf_Transport cfg = [] \<or> pcf_Transport cfg = ''inproc'' then
        (case inproc of
           None \<Rightarrow> Inl (Errorf (''plugin: inproc '' @ what @ '' provider is nil'' @ hint))
         | Some p \<Rightarrow> Inr p)
      else if pcf_Transport cfg = ''remote'' then
        (if pcf_RemoteAddr cfg = [] then Inl (Errorf (''plugin: remote '' @ what @ '' transport requires RemoteAddr''))
         else (case dial (pcf_RemoteAddr cfg) of
                 Inl e \<Rightarrow> Inl (Wrapf (''plugin: dial '' @ what @ '' '' @ quoted (pcf_RemoteAddr cfg) @ '': '') e)
               | Inr conn \<Rightarrow> Inr (adapter conn)))
      else Inl (Errorf (''plugin: unknown '' @ what @ '' transport '' @ quoted (pcf_Transport cfg))))"

definition LoadCompute :: "(string \<Rightarrow> 'w pb_compute result) \<Rightarrow> provider_config \<Rightarrow> 'w compute_ops option \<Rightarrow> 'w compute_ops result" where
  "LoadCompute dial = load_provider ''compute'' '' (build with the provider's tag, e.g. -tags docker)'' dial remoteCompute"

definition LoadStorage :: "(string \<Rightarrow> 'w pb_storage result) \<Rightarrow> provider_config \<Rightarrow> 'w storage_ops option \<Rightarrow> 'w storage_ops result" where
  "LoadStorage dial = load_provider ''storage'' [] dial remoteStorage"

definition LoadIngress :: "(string \<Rightarrow> 'w pb_ingress result) \<Rightarrow> provider_config \<Rightarrow> 'w ingress_ops option \<Rightarrow> 'w ingress_ops result" where
  "LoadIngress dial = load_provider ''ingress'' [] dial remoteIngress"

definition LoadIdentity :: "(string \<Rightarrow> 'w pb_identity result) \<Rightarrow> provider_config \<Rightarrow> 'w identity_ops option \<Rightarrow> 'w identity_ops result" where
  "LoadIdentity dial = load_provider ''identity'' [] dial remoteIdentity"

definition LoadMetering :: "(string \<Rightarrow> 'w pb_metering result) \<Rightarrow> provider_config \<Rightarrow> 'w metering_ops option \<Rightarrow> 'w metering_ops result" where
  "LoadMetering dial = load_provider ''metering'' [] dial remoteMetering"

definition LoadBuild :: "(string \<Rightarrow> 'w pb_build result) \<Rightarrow> provider_config \<Rightarrow> 'w build_ops option \<Rightarrow> 'w build_ops result" where
  "LoadBuild dial = load_provider ''build'' [] dial remoteBuild"

section \<open>A provider behind the process boundary\<close>

text \<open>The client stubs of a served provider.\<close>

definition compute_stub :: "(err \<Rightarrow> err) \<Rightarrow> 'w pb_compute \<Rightarrow> 'w pb_compute" where
  "compute_stub seen s = \<lparr> pc_Provision = grpc seen (pc_Provision s), pc_Status = grpc seen (pc_Status s),
     pc_Stop = grpc seen (pc_Stop s), pc_Destroy = grpc seen (pc_Destroy s) \<rparr>"

definition storage_stub :: "(err \<Rightarrow> err) \<Rightarrow> 'w pb_storage \<Rightarrow> 'w pb_storage" where
  "storage_stub seen s = \<lparr> ps_EnsureHome = grpc seen (ps_EnsureHome s), ps_Delete = grpc seen (ps_Delete s) \<rparr>"

definition ingress_stub :: "(err \<Rightarrow> err) \<Rightarrow> 'w pb_ingress \<Rightarrow> 'w pb_ingress" where
  "ingress_stub seen s = \<lparr> pg_Expose = grpc seen (pg_Expose s), pg_Unexpose = grpc seen (pg_Unexpose s) \<rparr>"

definition identity_stub :: "(err \<Rightarrow> err) \<Rightarrow> 'w pb_identity \<Rightarrow> 'w pb_identity" where
  "identity_stub seen s = \<lparr> pi_Authenticate = grpc seen (pi_Authenticate s), pi_Authorize = grpc seen (pi_Authorize s) \<rparr>"

definition metering_stub :: "(err \<Rightarrow> err) \<Rightarrow> 'w pb_metering \<Rightarrow> 'w pb_metering" where
  "metering_stub seen s = \<lparr> pm_Emit = grpc seen (pm_Emit s), pm_Quota = grpc seen (pm_Quota s) \<rparr>"

definition build_stub :: "(err \<Rightarrow> err) \<Rightarrow> 'w pb_build \<Rightarrow> 'w pb_build" where
  "build_stub seen s = \<lparr> pu_Resolve = grpc seen (pu_Resolve s), pu_Status = grpc seen (pu_Status s) \<rparr>"

lemma grpc_on_error: "grpc seen handler q w = on_error seen (handler q w)"
  by (simp add: grpc_def on_error_def split: prod.split sum.split)

lemma on_ok_on_error [simp]: "on_ok g (on_error f p) = on_error f (on_ok g p)"
  by (cases p; cases "fst p") (auto simp: on_ok_def on_error_def)

lemma on_ok_comp [simp]: "on_ok g (on_ok h p) = on_ok (\<lambda>a. g (h a)) p"
  by (cases p; cases "fst p") (auto simp: on_ok_def)

lemma on_ok_id [simp]: "on_ok (\<lambda>a. a) p = p"
  by (cases p; cases "fst p") (auto simp: on_ok_def)

text \<open>What survives the conversions.\<close>

named_theorems wire

lemma wire_types [wire]:
  "FromProtoAgent (Some (ToProtoAgent a)) = a"
  "FromProtoHomeRequest (Some (ToProtoHomeRequest h)) = h"
  "FromProtoExposeRequest (Some (ToProtoExposeRequest x)) = x"
  "FromProtoEndpoint (Some (ToProtoEndpoint e)) = e"
  "FromProtoCredential (Some (ToProtoCredential c)) = c"
  "FromProtoPrincipal (Some (ToProtoPrincipal p)) = p"
  "FromProtoAccessRequest (Some (ToProtoAccessRequest r)) = r"
  "FromProtoDecision (Some (ToProtoDecision d)) = d"
  "FromProtoUsageEvent (Some (ToProtoUsageEvent u)) = u"
  "FromProtoPrincipalRef (Some (ToProtoPrincipalRef pr)) = pr"
  "FromProtoQuotaState (Some (ToProtoQuotaState q)) = q"
  "FromProtoBuildRequest (Some (ToProtoBuildRequest b)) = b"
  "FromProtoImageRef (Some (ToProtoImageRef i)) = i"
  "FromProtoBuildStatus (Some (ToProtoBuildStatus bs)) = bs"
  by (simp_all add: FromProtoAgent_def ToProtoAgent_def FromProtoHomeRequest_def ToProtoHomeRequest_def
      FromProtoExposeRequest_def ToProtoExposeRequest_def FromProtoEndpoint_def ToProtoEndpoint_def
      FromProtoCredential_def ToProtoCredential_def FromProtoPrincipal_def ToProtoPrincipal_def
      FromProtoAccessRequest_def ToProtoAccessRequest_def FromProtoDecision_def ToProtoDecision_def
      FromProtoUsageEvent_def ToProtoUsageEvent_def FromProtoPrincipalRef_def ToProtoPrincipalRef_def
      FromProtoQuotaState_def ToProtoQuotaState_def FromProtoBuildRequest_def ToProtoBuildRequest_def
      FromProtoImageRef_def ToProtoImageRef_def FromProtoBuildStatus_def ToProtoBuildStatus_def)

text \<open>What a mount, a request and an instance are on the other side.\<close>

definition wire_mount :: "mount \<Rightarrow> mount" where
  "wire_mount m = m\<lparr>mt_Device := False\<rparr>"

definition wire_request :: "provision_request \<Rightarrow> provision_request" where
  "wire_request r = r\<lparr>pr_CPUMillis := 0, pr_GuestBin := [], pr_Mounts := map wire_mount (pr_Mounts r)\<rparr>"

definition wire_phase :: "instance_phase \<Rightarrow> instance_phase" where
  "wire_phase ph = (case ph of InstancePhaseOther _ \<Rightarrow> InstanceFailed | _ \<Rightarrow> ph)"

definition wire_instance :: "compute_instance \<Rightarrow> compute_instance" where
  "wire_instance i = i\<lparr>inst_Phase := wire_phase (inst_Phase i), inst_IP := []\<rparr>"

lemma wire_mount_eq [wire]: "FromProtoMount (Some (ToProtoMount m)) = wire_mount m"
  by (simp add: FromProtoMount_def ToProtoMount_def wire_mount_def)

lemma wire_instance_eq [wire]: "FromProtoInstance (Some (ToProtoInstance i)) = wire_instance i"
  by (cases "inst_Phase i") (simp_all add: FromProtoInstance_def ToProtoInstance_def wire_instance_def wire_phase_def)

lemma wire_request_eq [wire]: "FromProtoProvisionRequest (Some (ToProtoProvisionRequest r)) = wire_request r"
  by (simp add: FromProtoProvisionRequest_def ToProtoProvisionRequest_def wire_request_def wire comp_def)

lemma emit_one: "emit_loop impl [ToProtoUsageEvent u] w = me_Emit impl u w"
  by (auto simp: wire split: prod.splits sum.splits)

lemma on_error_cases [simp]:
  "on_error f p = (Inr a, w) \<longleftrightarrow> p = (Inr a, w)"
  "on_error f p = (Inl e, w) \<longleftrightarrow> (\<exists>e0. p = (Inl e0, w) \<and> e = f e0)"
  by (cases p; cases "fst p"; auto simp: on_error_def)+

text \<open>Each adapter over each served provider is the provider, with its errors seen through gRPC, up to
  the fields above.\<close>

lemma remote_compute:
  "c_Provision (remoteCompute (compute_stub seen (ComputeServer C))) r w =
     on_error seen (on_ok wire_instance (c_Provision C (wire_request r) w))"
  "c_Status (remoteCompute (compute_stub seen (ComputeServer C))) ref w = on_error seen (on_ok wire_instance (c_Status C ref w))"
  "c_Stop (remoteCompute (compute_stub seen (ComputeServer C))) ref w = on_error seen (c_Stop C ref w)"
  "c_Destroy (remoteCompute (compute_stub seen (ComputeServer C))) ref w = on_error seen (c_Destroy C ref w)"
  by (simp_all add: remoteCompute_def compute_stub_def ComputeServer_def grpc_on_error wire)

lemma remote_storage:
  "st_EnsureHome (remoteStorage (storage_stub seen (StorageServer S))) h w = on_error seen (on_ok wire_mount (st_EnsureHome S h w))"
  "st_Delete (remoteStorage (storage_stub seen (StorageServer S))) ref w = on_error seen (st_Delete S ref w)"
  by (simp_all add: remoteStorage_def storage_stub_def StorageServer_def grpc_on_error wire)

lemma remote_ingress:
  "ig_Expose (remoteIngress (ingress_stub seen (IngressServer G))) x w = on_error seen (ig_Expose G x w)"
  "ig_Unexpose (remoteIngress (ingress_stub seen (IngressServer G))) ref w = on_error seen (ig_Unexpose G ref w)"
  by (simp_all add: remoteIngress_def ingress_stub_def IngressServer_def grpc_on_error wire)

lemma remote_identity:
  "id_Authenticate (remoteIdentity (identity_stub seen (IdentityServer P))) c w = on_error seen (id_Authenticate P c w)"
  "id_Authorize (remoteIdentity (identity_stub seen (IdentityServer P))) a w = on_error seen (id_Authorize P a w)"
  by (simp_all add: remoteIdentity_def identity_stub_def IdentityServer_def grpc_on_error wire)

lemma remote_metering:
  "me_Emit (remoteMetering (metering_stub seen (MeteringServer M))) u w = on_error seen (me_Emit M u w)"
  "me_Quota (remoteMetering (metering_stub seen (MeteringServer M))) pr w = on_error seen (me_Quota M pr w)"
  by (simp_all add: remoteMetering_def metering_stub_def MeteringServer_def grpc_on_error wire emit_one del: emit_loop.simps)

lemma remote_build:
  "bd_Resolve (remoteBuild (build_stub seen (BuildServer B))) r w = on_error seen (bd_Resolve B r w)"
  "bd_Status (remoteBuild (build_stub seen (BuildServer B))) ref w = on_error seen (bd_Status B ref w)"
  by (simp_all add: remoteBuild_def build_stub_def BuildServer_def grpc_on_error wire)

section \<open>Contracts across the boundary\<close>

text \<open>What an ingress and an identity provider promise, they promise when served.\<close>

locale served_ingress = ingress_contract I target ref_of good
  for I :: "'w ingress_ops" and target ref_of good +
  fixes seen :: "err \<Rightarrow> err"

sublocale served_ingress \<subseteq> remote: ingress_contract "remoteIngress (ingress_stub seen (IngressServer I))" target ref_of good
proof unfold_locales
  fix w rf ru w'
  assume g: "good w" and x: "ig_Unexpose (remoteIngress (ingress_stub seen (IngressServer I))) rf w = (ru, w')"
  obtain r0 w0 where u: "ig_Unexpose I rf w = (r0, w0)" by fastforce
  from unexpose [OF g u] u x show "ru = Inr () \<and> good w' \<and> target w' = (target w)(rf := None)"
    by (cases ru) (auto simp: remote_ingress)
qed (auto simp: remote_ingress dest: expose_ok expose_error ref_inj)

locale served_identity = identity_contract P for P :: "'w identity_ops" + fixes seen :: "err \<Rightarrow> err"

sublocale served_identity \<subseteq> remote: identity_contract "remoteIdentity (identity_stub seen (IdentityServer P))"
proof unfold_locales
  fix c w r w'
  assume "id_Authenticate (remoteIdentity (identity_stub seen (IdentityServer P))) c w = (r, w')"
  then show "w' = w" by (cases r) (auto simp: remote_identity dest: authenticate_frame)
qed (use authorize_total in \<open>auto simp: remote_identity dest: authenticate_value authenticate_det authorize_role\<close>)

interpretation subdom_served: served_ingress "subdomain_ingress :: (sub_provider \<times> 'x) ingress_ops" sd_target
  "sd_host (sd_New z)" "\<lambda>w. sd_zone (fst w) = sd_zone (sd_New z)" seen for z seen
  by unfold_locales

interpretation static_served: served_identity "static_identity p" seen for p seen
  by unfold_locales

interpretation oidc_served: served_identity "oidc_identity p" seen for p seen
  by unfold_locales

section \<open>Properties\<close>

text \<open>C18: a provider loaded over the remote transport is the served provider: every call of the compute,
  storage, ingress, identity, metering and build contracts changes the provider's world as the direct
  call does and gives the same answer, its errors as gRPC shows them. Storage and compute are exact
  only up to what the messages have no field for: the device flag of a mount, and for compute the CPU
  cap, the guest binary, the instance's address and an unknown phase, which becomes failed. A remote
  compute provider can never suspend.\<close>

theorem remote_provider_equivalent:
  assumes t: "pcf_Transport cfg = ''remote''" and a: "pcf_RemoteAddr cfg \<noteq> []"
    and "dialC (pcf_RemoteAddr cfg) = Inr (compute_stub seen (ComputeServer C))"
    and "dialS (pcf_RemoteAddr cfg) = Inr (storage_stub seen (StorageServer S))"
    and "dialG (pcf_RemoteAddr cfg) = Inr (ingress_stub seen (IngressServer G))"
    and "dialP (pcf_RemoteAddr cfg) = Inr (identity_stub seen (IdentityServer P))"
    and "dialM (pcf_RemoteAddr cfg) = Inr (metering_stub seen (MeteringServer M))"
    and "dialB (pcf_RemoteAddr cfg) = Inr (build_stub seen (BuildServer B))"
  shows "(\<exists>c. LoadCompute dialC cfg ic = Inr c \<and> c_Suspender c = None \<and>
      (\<forall>r w. c_Provision c r w = on_error seen (on_ok wire_instance (c_Provision C (wire_request r) w))) \<and>
      (\<forall>ref w. c_Status c ref w = on_error seen (on_ok wire_instance (c_Status C ref w)) \<and>
         c_Stop c ref w = on_error seen (c_Stop C ref w) \<and> c_Destroy c ref w = on_error seen (c_Destroy C ref w))) \<and>
    (\<exists>s. LoadStorage dialS cfg is = Inr s \<and>
      (\<forall>h w. st_EnsureHome s h w = on_error seen (on_ok wire_mount (st_EnsureHome S h w))) \<and>
      (\<forall>ref w. st_Delete s ref w = on_error seen (st_Delete S ref w))) \<and>
    (\<exists>g. LoadIngress dialG cfg ig = Inr g \<and>
      (\<forall>x w. ig_Expose g x w = on_error seen (ig_Expose G x w)) \<and>
      (\<forall>ref w. ig_Unexpose g ref w = on_error seen (ig_Unexpose G ref w))) \<and>
    (\<exists>p. LoadIdentity dialP cfg ip = Inr p \<and>
      (\<forall>c w. id_Authenticate p c w = on_error seen (id_Authenticate P c w)) \<and>
      (\<forall>q w. id_Authorize p q w = on_error seen (id_Authorize P q w))) \<and>
    (\<exists>m. LoadMetering dialM cfg im = Inr m \<and>
      (\<forall>u w. me_Emit m u w = on_error seen (me_Emit M u w)) \<and>
      (\<forall>pr w. me_Quota m pr w = on_error seen (me_Quota M pr w))) \<and>
    (\<exists>b. LoadBuild dialB cfg ib = Inr b \<and>
      (\<forall>r w. bd_Resolve b r w = on_error seen (bd_Resolve B r w)) \<and>
      (\<forall>ref w. bd_Status b ref w = on_error seen (bd_Status B ref w)))"
  using assms
  by (simp add: LoadCompute_def LoadStorage_def LoadIngress_def LoadIdentity_def LoadMetering_def LoadBuild_def load_provider_def
      remote_compute remote_storage remote_ingress remote_identity remote_metering remote_build remoteCompute_def [THEN arg_cong, of c_Suspender])

definition echo_compute :: "unit compute_ops" where
  "echo_compute = \<lparr>
     c_Provision = (\<lambda>r w. (Inr \<lparr> inst_Ref = pr_WorkspaceID r, inst_Phase = InstanceRunning, inst_IP = show_int (pr_CPUMillis r) \<rparr>, w)),
     c_Status = (\<lambda>ref w. (Inl ErrNotFound, w)), c_Stop = (\<lambda>ref w. (Inr (), w)), c_Destroy = (\<lambda>ref w. (Inr (), w)), c_Suspender = None \<rparr>"

theorem remote_provider_equivalent_witness:
  "\<exists>c m. LoadCompute (\<lambda>_. Inr (compute_stub (Wrapf ''rpc error: '') (ComputeServer echo_compute)))
      \<lparr> pcf_Kind = ''docker'', pcf_Transport = ''remote'', pcf_RemoteAddr = ''h:1'' \<rparr> None = Inr c \<and>
    c_Status c ''x'' () = (Inl (Wrapf ''rpc error: '' ErrNotFound), ()) \<and>
    LoadMetering (\<lambda>_. Inr (metering_stub (Wrapf ''rpc error: '') (MeteringServer static_quota)))
      \<lparr> pcf_Kind = ''docker'', pcf_Transport = ''remote'', pcf_RemoteAddr = ''h:1'' \<rparr> None = Inr m \<and>
    (\<forall>u w. me_Emit m u w = sq_Emit u w)"
proof -
  let ?cfg = "\<lparr> pcf_Kind = ''docker'', pcf_Transport = ''remote'', pcf_RemoteAddr = ''h:1'' \<rparr>"
  let ?f = "Wrapf ''rpc error: ''"
  note eq = remote_provider_equivalent [of ?cfg "\<lambda>_. Inr (compute_stub ?f (ComputeServer echo_compute))" ?f echo_compute
      "\<lambda>_. Inr (storage_stub ?f (StorageServer (local_storage (lf_New ''/h''))))" "local_storage (lf_New ''/h'')"
      "\<lambda>_. Inr (ingress_stub ?f (IngressServer (subdomain_ingress :: (sub_provider \<times> unit) ingress_ops)))" subdomain_ingress
      "\<lambda>_. Inr (identity_stub ?f (IdentityServer (static_identity (static_New []))))" "static_identity (static_New [])"
      "\<lambda>_. Inr (metering_stub ?f (MeteringServer static_quota))" static_quota
      "\<lambda>_. Inr (build_stub ?f (BuildServer (prebuilt :: unit build_ops)))" prebuilt None None None None None None]
  have e: "sq_Emit u w = (Inr (), snd (sq_Emit u w))" for u w by (simp add: sq_Emit_def Let_def)
  have "on_error ?f (sq_Emit u w) = sq_Emit u w" for u w by (subst (1 2) e) (simp add: on_error_def)
  with eq show ?thesis by (auto simp: echo_compute_def on_error_def on_ok_def static_quota_def)
qed

end
