(* ===== verification/Api_Server.thy ===== *)
theory Api_Server
  imports Workspace_Sqlite Agent_Hub Identity
begin

text \<open>
  The public gRPC workspace service (\<^verbatim>\<open>internal/api/server.go\<close>), its authentication
  (\<^verbatim>\<open>internal/api/auth.go\<close>) and the SSH certificate authority it issues from
  (\<^verbatim>\<open>internal/sshca/sshca.go\<close>). A call's context carries the request metadata and, behind the
  interceptor, the authenticated principal. The workspace store and the agent hub are records of
  functions over their states. Key parsing and certificate signing are parameters.

  A bidirectional stream is the list of messages the client sends, with the error that ends it,
  and a sink of the messages sent to the client; a stream to the agent is the bytes the agent
  sends until it closes, and a writer. The two directions of a bridge run concurrently and share
  nothing but the end of the call; each is its own definition.
\<close>

section \<open>Statuses\<close>

datatype grpc_code = Unauthenticated | NotFound | InvalidArgument | FailedPrecondition | Internal

text \<open>The error of a call: a status, or an error of the stream passed through.\<close>

datatype api_err = Status grpc_code string | Passed err

type_synonym 'a api_result = "api_err + 'a"

section \<open>Authentication\<close>

record api_ctx =
  cx_metadata :: "(string \<Rightarrow> string list) option"
  cx_principal :: "principal option"

definition withPrincipal :: "api_ctx \<Rightarrow> principal \<Rightarrow> api_ctx" where
  "withPrincipal ctx pr = ctx\<lparr>cx_principal := Some pr\<rparr>"

definition principalFromCtx :: "api_ctx \<Rightarrow> principal option" where
  "principalFromCtx ctx = cx_principal ctx"

definition tokenFromCtx :: "api_ctx \<Rightarrow> string" where
  "tokenFromCtx ctx =
     (case cx_metadata ctx of
        None \<Rightarrow> []
      | Some md \<Rightarrow>
          (case md ''authorization'' of
             v # _ \<Rightarrow> TrimSpace (TrimPrefix v ''Bearer '')
           | [] \<Rightarrow> (case md ''hopbox-token'' of v # _ \<Rightarrow> TrimSpace v | [] \<Rightarrow> [])))"

definition authenticate :: "api_ctx \<Rightarrow> 'w identity_ops \<Rightarrow> 'w \<Rightarrow> principal api_result \<times> 'w" where
  "authenticate ctx idp w =
     (let tok = tokenFromCtx ctx in
      if tok = [] then (Inl (Status Unauthenticated ''missing api token (run `hopbox login --token <token>`)''), w)
      else case id_Authenticate idp \<lparr> cred_Scheme = ''api-key'', cred_Value = tok \<rparr> w of
             (Inl _, w') \<Rightarrow> (Inl (Status Unauthenticated ''invalid api token''), w')
           | (Inr pr, w') \<Rightarrow> (Inr pr, w'))"

text \<open>The unary and the streaming interceptor: the handler runs with the principal in its context, or
  not at all.\<close>

definition AuthInterceptor :: "'w identity_ops \<Rightarrow> api_ctx \<Rightarrow> (api_ctx \<Rightarrow> 's \<Rightarrow> 'a api_result \<times> 's) \<Rightarrow> 'w \<times> 's \<Rightarrow>
    'a api_result \<times> 'w \<times> 's" where
  "AuthInterceptor idp ctx handler = (\<lambda>(w, s).
     case authenticate ctx idp w of
       (Inl e, w') \<Rightarrow> (Inl e, w', s)
     | (Inr pr, w') \<Rightarrow> (let (r, s') = handler (withPrincipal ctx pr) s in (r, w', s')))"

section \<open>Certificates\<close>

record 'k ssh_cert =
  sc_Key :: 'k
  sc_Serial :: "64 word"
  sc_KeyId :: string
  sc_ValidPrincipals :: "string list"
  sc_ValidAfter :: "64 word"
  sc_ValidBefore :: "64 word"
  sc_Extensions :: "string list"

text \<open>\<open>ca\<close> signs: it is the outcome of \<^verbatim>\<open>cert.SignCert\<close>, None for a nil signer; \<open>rnd\<close> are the eight random
  bytes of the serial.\<close>

definition SignUserCert :: "('k ssh_cert \<Rightarrow> unit result) option \<Rightarrow> time \<Rightarrow> 64 word result \<Rightarrow> 'k \<Rightarrow> string \<Rightarrow> string list \<Rightarrow>
    duration \<Rightarrow> 'k ssh_cert result" where
  "SignUserCert ca now rnd userPub keyID principals ttl =
     (case ca of
        None \<Rightarrow> Inl (Errorf ''sshca: nil CA signer'')
      | Some sign \<Rightarrow>
          if principals = [] then Inl (Errorf ''sshca: at least one principal is required'')
          else case rnd of
                 Inl e \<Rightarrow> Inl e
               | Inr serial \<Rightarrow>
                   (let cert = \<lparr> sc_Key = userPub, sc_Serial = serial, sc_KeyId = keyID,
                          sc_ValidPrincipals = principals,
                          sc_ValidAfter = word_of_int (time_Unix (time_Add now (- Minute))),
                          sc_ValidBefore = word_of_int (time_Unix (time_Add now ttl)),
                          sc_Extensions = [''permit-pty'', ''permit-user-rc''] \<rparr>
                    in case sign cert of Inl e \<Rightarrow> Inl (Wrapf ''sshca: sign cert: '' e) | Inr _ \<Rightarrow> Inr cert))"

definition certTTL :: duration where "certTTL = 12 * Hour"

section \<open>The server\<close>

record agent_stream =
  as_in :: bytes
  as_out :: writer

record 'h api_hub =
  ah_Connected :: "string \<Rightarrow> 'h \<Rightarrow> bool"
  ah_OpenShell :: "string \<Rightarrow> shell_header \<Rightarrow> 'h \<Rightarrow> agent_stream result"
  ah_OpenExec :: "string \<Rightarrow> string list \<Rightarrow> 'h \<Rightarrow> agent_stream result"
  ah_OpenSSH :: "string \<Rightarrow> 'h \<Rightarrow> agent_stream result"

record ('s, 'h, 'k) api_server =
  av_store :: "'s workspace_store"
  av_hub :: "'h api_hub"
  av_tenant :: string
  av_owner :: string
  av_ca :: "('k ssh_cert \<Rightarrow> unit result) option"

definition NewServer :: "'s workspace_store \<Rightarrow> 'h api_hub \<Rightarrow> string \<Rightarrow> string \<Rightarrow> ('k ssh_cert \<Rightarrow> unit result) option \<Rightarrow>
    ('s, 'h, 'k) api_server" where
  "NewServer s hub tenant owner ca =
     \<lparr> av_store = s, av_hub = hub, av_tenant = tenant, av_owner = owner, av_ca = ca \<rparr>"

definition api_principal :: "('s, 'h, 'k) api_server \<Rightarrow> api_ctx \<Rightarrow> principal" where
  "api_principal sv ctx =
     (case principalFromCtx ctx of
        Some pr \<Rightarrow> pr
      | None \<Rightarrow> \<lparr> pl_ID = av_owner sv, pl_TenantID = av_tenant sv, pl_DisplayName = [], pl_Roles = [''owner''] \<rparr>)"

record cert_response =
  cr_Certificate :: string
  cr_Principal :: string
  cr_ValidBeforeUnix :: "64 word"

definition IssueSSHCert :: "('s, 'h, 'k) api_server \<Rightarrow> (string \<Rightarrow> 'k result) \<Rightarrow> ('k ssh_cert \<Rightarrow> string) \<Rightarrow> time \<Rightarrow> 64 word result \<Rightarrow>
    api_ctx \<Rightarrow> string \<Rightarrow> cert_response api_result" where
  "IssueSSHCert sv parse marshal now rnd ctx publicKey =
     (if av_ca sv = None
      then Inl (Status FailedPrecondition ''ssh certificate login is not enabled on this server'')
      else case parse publicKey of
             Inl e \<Rightarrow> Inl (Status InvalidArgument (''parse public key: '' @ err_text e))
           | Inr pub \<Rightarrow>
               (let p = pl_ID (api_principal sv ctx) in
                case SignUserCert (av_ca sv) now rnd pub (p @ ''@hopbox'') [p] certTTL of
                  Inl e \<Rightarrow> Inl (Status Internal (''sign cert: '' @ err_text e))
                | Inr cert \<Rightarrow> Inr \<lparr> cr_Certificate = marshal cert, cr_Principal = p, cr_ValidBeforeUnix = sc_ValidBefore cert \<rparr>))"

record proto_endpoint =
  pe_Name :: string
  pe_Url :: string
  pe_Port :: int

record proto_workspace =
  pw_Id :: string
  pw_TenantId :: string
  pw_Owner :: string
  pw_Name :: string
  pw_ImageRef :: string
  pw_MemMb :: int
  pw_Phase :: string
  pw_AgentConnected :: bool
  pw_Message :: string
  pw_Endpoints :: "proto_endpoint list"

definition toProto :: "workspace \<Rightarrow> proto_workspace" where
  "toProto w = (let b = w_Box w in
     \<lparr> pw_Id = b_ID b, pw_TenantId = b_TenantID b, pw_Owner = b_Owner b, pw_Name = b_Name b,
       pw_ImageRef = b_ImageRef b, pw_MemMb = b_MemMB b, pw_Phase = phase_text (b_Phase b),
       pw_AgentConnected = b_AgentConnected b, pw_Message = b_Message b,
       pw_Endpoints = map (\<lambda>e. \<lparr> pe_Name = we_Name e, pe_Url = we_URL e, pe_Port = we_Port e \<rparr>) (w_Endpoints w) \<rparr>)"

fun privileged_roles :: "string list \<Rightarrow> bool" where
  "privileged_roles [] = False"
| "privileged_roles (r # rs) = (if r = ''system'' \<or> r = ''tenant-admin'' then True else privileged_roles rs)"

definition privileged :: "principal \<Rightarrow> bool" where
  "privileged pr = privileged_roles (pl_Roles pr)"

definition not_found :: "string \<Rightarrow> api_err" where
  "not_found nameOrID = Status NotFound (''workspace '' @ quoted nameOrID @ '' not found'')"

definition resolve :: "('s, 'h, 'k) api_server \<Rightarrow> api_ctx \<Rightarrow> string \<Rightarrow> 's \<Rightarrow> workspace api_result \<times> 's" where
  "resolve sv ctx nameOrID s =
     (let pr = api_principal sv ctx;
          (r0, s0) = wsGet (av_store sv) (pl_TenantID pr) nameOrID s;
          (r1, s1) = (case r0 of
             Inl e \<Rightarrow> if errors_Is e StoreErrNotFound then wsGetByName (av_store sv) (pl_TenantID pr) nameOrID s0 else (r0, s0)
           | Inr _ \<Rightarrow> (r0, s0))
      in case r1 of
           Inl e \<Rightarrow>
             (if errors_Is e StoreErrNotFound then (Inl (not_found nameOrID), s1)
              else (Inl (Status Internal (''resolve '' @ quoted nameOrID @ '': '' @ err_text e)), s1))
         | Inr w \<Rightarrow>
             (if b_Owner (w_Box w) \<noteq> pl_ID pr \<and> \<not> privileged pr then (Inl (not_found nameOrID), s1)
              else (Inr w, s1)))"

section \<open>Unary calls\<close>

record create_request =
  crq_Name :: string
  crq_ImageRef :: string
  crq_MemMb :: int
  crq_Ingress :: "(string \<times> int) list"

definition bad_ingress :: "string \<times> int \<Rightarrow> bool" where
  "bad_ingress ip = (fst ip = [] \<or> snd ip \<le> 0)"

definition api_CreateWorkspace :: "('s, 'h, 'k) api_server \<Rightarrow> 8 word list \<Rightarrow> time \<Rightarrow> api_ctx \<Rightarrow> create_request \<Rightarrow> 's \<Rightarrow>
    proto_workspace api_result \<times> 's" where
  "api_CreateWorkspace sv rnd now ctx r s =
     (if crq_Name r = [] \<or> crq_ImageRef r = []
      then (Inl (Status InvalidArgument ''name and image_ref are required''), s)
      else
        (let pr = api_principal sv ctx;
             w0 = workspace_New rnd now (pl_TenantID pr) (pl_ID pr) (crq_Name r) (crq_ImageRef r);
             w = w0\<lparr> w_Box := (w_Box w0)\<lparr>b_MemMB := crq_MemMb r\<rparr>,
                     w_Ingress := map (\<lambda>ip. \<lparr> ip_Name = fst ip, ip_Port = snd ip \<rparr>) (crq_Ingress r) \<rparr>
         in if list_ex bad_ingress (crq_Ingress r)
            then (Inl (Status InvalidArgument ''ingress entries need a name and port > 0''), s)
            else case wsCreate (av_store sv) w s of
                   (Inl e, s') \<Rightarrow> (Inl (Status Internal (''create: '' @ err_text e)), s')
                 | (Inr _, s') \<Rightarrow> (Inr (toProto w), s')))"

definition api_GetWorkspace :: "('s, 'h, 'k) api_server \<Rightarrow> api_ctx \<Rightarrow> string \<Rightarrow> 's \<Rightarrow> proto_workspace api_result \<times> 's" where
  "api_GetWorkspace sv ctx nameOrID s =
     (case resolve sv ctx nameOrID s of
        (Inl e, s') \<Rightarrow> (Inl e, s')
      | (Inr w, s') \<Rightarrow> (Inr (toProto w), s'))"

definition api_ListWorkspaces :: "('s, 'h, 'k) api_server \<Rightarrow> api_ctx \<Rightarrow> 's \<Rightarrow> proto_workspace list api_result \<times> 's" where
  "api_ListWorkspaces sv ctx s =
     (let pr = api_principal sv ctx in
      case wsList (av_store sv) (pl_TenantID pr) s of
        (Inl e, s') \<Rightarrow> (Inl (Status Internal (''list: '' @ err_text e)), s')
      | (Inr ws, s') \<Rightarrow> (Inr (map toProto (filter (\<lambda>w. b_Owner (w_Box w) = pl_ID pr \<or> privileged pr) ws)), s'))"

definition api_DeleteWorkspace :: "('s, 'h, 'k) api_server \<Rightarrow> api_ctx \<Rightarrow> string \<Rightarrow> 's \<Rightarrow> unit api_result \<times> 's" where
  "api_DeleteWorkspace sv ctx nameOrID s =
     (case resolve sv ctx nameOrID s of
        (Inl e, s') \<Rightarrow> (Inl e, s')
      | (Inr w, s') \<Rightarrow>
          (case wsUpdate (av_store sv) (w\<lparr>w_Box := (w_Box w)\<lparr>b_Phase := PhaseDestroying\<rparr>\<rparr>) s' of
             (Inl e, _, s'') \<Rightarrow>
               (if errors_Is e StoreErrNotFound then (Inl (not_found nameOrID), s'')
                else (Inl (Status Internal (''delete: '' @ err_text e)), s''))
           | (Inr _, _, s'') \<Rightarrow> (Inr (), s'')))"

text \<open>The unary methods of the service as one dispatch.\<close>

datatype api_request = ReqCreate create_request | ReqGet string | ReqList | ReqDelete string

definition api_unary :: "('s, 'h, 'k) api_server \<Rightarrow> 8 word list \<Rightarrow> time \<Rightarrow> api_request \<Rightarrow> api_ctx \<Rightarrow> 's \<Rightarrow>
    proto_workspace list api_result \<times> 's" where
  "api_unary sv rnd now req ctx s =
     (case req of
        ReqCreate r \<Rightarrow> (let (x, s') = api_CreateWorkspace sv rnd now ctx r s in (map_sum id (\<lambda>p. [p]) x, s'))
      | ReqGet n \<Rightarrow> (let (x, s') = api_GetWorkspace sv ctx n s in (map_sum id (\<lambda>p. [p]) x, s'))
      | ReqList \<Rightarrow> api_ListWorkspaces sv ctx s
      | ReqDelete n \<Rightarrow> (let (x, s') = api_DeleteWorkspace sv ctx n s in (map_sum id (\<lambda>_. []) x, s')))"

section \<open>Streams\<close>

record 'm msg_sink =
  sk_sent :: "'m list"
  sk_err :: "err option"

definition Send :: "'m \<Rightarrow> 'm msg_sink \<Rightarrow> unit result \<times> 'm msg_sink" where
  "Send m k = (case sk_err k of Some e \<Rightarrow> (Inl e, k) | None \<Rightarrow> (Inr (), k\<lparr>sk_sent := sk_sent k @ [m]\<rparr>))"

text \<open>Resolve the workspace of a stream's \<open>open\<close> message and reach its agent.\<close>

definition not_connected :: "workspace \<Rightarrow> api_err" where
  "not_connected w = Status FailedPrecondition
     (''workspace '' @ quoted (b_Name (w_Box w)) @ '' agent not connected (phase='' @ phase_text (b_Phase (w_Box w)) @ '')'')"

definition open_agent :: "('s, 'h, 'k) api_server \<Rightarrow> api_ctx \<Rightarrow> string \<Rightarrow> string \<Rightarrow>
    (string \<Rightarrow> 'h \<Rightarrow> agent_stream result) \<Rightarrow> 's \<times> 'h \<Rightarrow> (workspace \<times> agent_stream) api_result \<times> 's" where
  "open_agent sv ctx what nameOrID opn = (\<lambda>(s, h).
     case resolve sv ctx nameOrID s of
       (Inl e, s') \<Rightarrow> (Inl e, s')
     | (Inr w, s') \<Rightarrow>
         if \<not> ah_Connected (av_hub sv) (b_ID (w_Box w)) h then (Inl (not_connected w), s')
         else case opn (b_ID (w_Box w)) h of
                Inl e \<Rightarrow> (Inl (Status Internal (''open '' @ what @ '': '' @ err_text e)), s')
              | Inr st \<Rightarrow> (Inr (w, st), s'))"

datatype exec_client_msg = ExecOpen string "string list" | ExecStdinMsg bytes
datatype exec_server_msg = MsgStdout bytes | MsgStderr bytes | MsgExitCode "32 word"

text \<open>The stdin pump: the client's messages until it half-closes.\<close>

fun exec_pump :: "exec_client_msg list \<Rightarrow> writer \<Rightarrow> writer" where
  "exec_pump [] w = snd (WriteExecStdinClose w)"
| "exec_pump (ExecStdinMsg d # ms) w =
     (case WriteExecData ExecStdin d w of (Inl _, w1) \<Rightarrow> w1 | (Inr _, w1) \<Rightarrow> exec_pump ms w1)"
| "exec_pump (ExecOpen n c # ms) w = exec_pump ms w"

lemma ReadFull_shrinks: "ReadFull n r = (Inr p, r') \<Longrightarrow> length r = n + length r' \<and> r = p @ r'"
  by (auto simp: ReadFull_def split: if_splits)

lemma ReadExecFrame_shrinks: "ReadExecFrame r = (Inr f, r') \<Longrightarrow> length r' < length r"
  by (auto simp: ReadExecFrame_def Let_def split: prod.splits sum.splits if_splits dest!: ReadFull_shrinks)

text \<open>The relay of the agent's frames to the client. A frame of another type is skipped.\<close>

function exec_relay :: "bytes \<Rightarrow> exec_server_msg msg_sink \<Rightarrow> unit api_result \<times> exec_server_msg msg_sink" where
  "exec_relay r k =
     (case ReadExecFrame r of
        (Inl e, _) \<Rightarrow>
          (if errors_Is e ErrEOF then (Inr (), k)
           else (Inl (Status Internal (''exec read: '' @ err_text e)), k))
      | (Inr (ty, data, code), r') \<Rightarrow>
          (if ty = ExecStdout \<or> ty = ExecStderr then
             (case Send (if ty = ExecStdout then MsgStdout data else MsgStderr data) k of
                (Inl e, k') \<Rightarrow> (Inl (Passed e), k')
              | (Inr _, k') \<Rightarrow> exec_relay r' k')
           else if ty = ExecExit then (let (x, k') = Send (MsgExitCode code) k in (map_sum Passed id x, k'))
           else exec_relay r' k))"
  by pat_completeness auto

termination
  by (relation "measure (\<lambda>(r, k). length r)") (auto dest: ReadExecFrame_shrinks [OF sym] ReadExecFrame_shrinks)

declare exec_relay.simps [simp del]

definition Exec :: "('s, 'h, 'k) api_server \<Rightarrow> api_ctx \<Rightarrow> exec_client_msg list \<Rightarrow> err \<Rightarrow> 's \<times> 'h \<Rightarrow> exec_server_msg msg_sink \<Rightarrow>
    unit api_result \<times> exec_server_msg msg_sink \<times> 's" where
  "Exec sv ctx msgs ending = (\<lambda>(s, h) k.
     case msgs of
       [] \<Rightarrow> (Inl (Passed ending), k, s)
     | ExecStdinMsg _ # _ \<Rightarrow> (Inl (Status InvalidArgument ''first Exec message must be `open`''), k, s)
     | ExecOpen nameOrID cmd # _ \<Rightarrow>
         if cmd = [] then (Inl (Status InvalidArgument ''cmd is required''), k, s)
         else case open_agent sv ctx ''exec'' nameOrID (\<lambda>i. ah_OpenExec (av_hub sv) i cmd) (s, h) of
                (Inl e, s') \<Rightarrow> (Inl e, k, s')
              | (Inr (w, st), s') \<Rightarrow> (let (x, k') = exec_relay (as_in st) k in (x, k', s')))"

text \<open>Shell and SSH: raw pipes. The agent's side is read in pieces of at most 32 KiB; how the bytes
  are cut into reads is not determined by the code, so the pieces are an argument.\<close>

datatype shell_client_msg = ShellOpen string string "32 word" "32 word" | ShellData bytes | ShellResize

fun pump_to_client :: "(bytes \<Rightarrow> 'm) \<Rightarrow> bytes list \<Rightarrow> err \<Rightarrow> 'm msg_sink \<Rightarrow> err \<times> 'm msg_sink" where
  "pump_to_client mk [] rerr k = (rerr, k)"
| "pump_to_client mk (b # bs) rerr k =
     (if b = [] then pump_to_client mk bs rerr k
      else case Send (mk b) k of (Inl e, k') \<Rightarrow> (e, k') | (Inr _, k') \<Rightarrow> pump_to_client mk bs rerr k')"

fun pump_to_agent :: "shell_client_msg list \<Rightarrow> err \<Rightarrow> writer \<Rightarrow> err \<times> writer" where
  "pump_to_agent [] rerr w = (rerr, w)"
| "pump_to_agent (ShellData d # ms) rerr w =
     (case Write d w of (Inl e, w') \<Rightarrow> (e, w') | (Inr _, w') \<Rightarrow> pump_to_agent ms rerr w')"
| "pump_to_agent (m # ms) rerr w = pump_to_agent ms rerr w"

text \<open>The first error of the two pumps ends the call.\<close>

definition bridge_result :: "err \<Rightarrow> unit api_result" where
  "bridge_result e = (if errors_Is e ErrEOF then Inr () else Inl (Passed e))"

definition Shell_open :: "('s, 'h, 'k) api_server \<Rightarrow> api_ctx \<Rightarrow> shell_client_msg list \<Rightarrow> err \<Rightarrow> 's \<times> 'h \<Rightarrow>
    (workspace \<times> agent_stream) api_result \<times> 's" where
  "Shell_open sv ctx msgs ending = (\<lambda>(s, h).
     case msgs of
       [] \<Rightarrow> (Inl (Passed ending), s)
     | ShellOpen nameOrID cmd cols rows # _ \<Rightarrow>
         open_agent sv ctx ''shell'' nameOrID
           (\<lambda>i. ah_OpenShell (av_hub sv) i \<lparr> sh_Cmd = cmd, sh_Cols = ucast cols, sh_Rows = ucast rows \<rparr>) (s, h)
     | _ \<Rightarrow> (Inl (Status InvalidArgument ''first Shell message must be `open`''), s))"

definition SSH_open :: "('s, 'h, 'k) api_server \<Rightarrow> api_ctx \<Rightarrow> shell_client_msg list \<Rightarrow> err \<Rightarrow> 's \<times> 'h \<Rightarrow>
    (workspace \<times> agent_stream) api_result \<times> 's" where
  "SSH_open sv ctx msgs ending = (\<lambda>(s, h).
     case msgs of
       [] \<Rightarrow> (Inl (Passed ending), s)
     | ShellOpen nameOrID _ _ _ # _ \<Rightarrow> open_agent sv ctx ''ssh'' nameOrID (ah_OpenSSH (av_hub sv)) (s, h)
     | _ \<Rightarrow> (Inl (Status InvalidArgument ''first SSH message must be `open`''), s))"

section \<open>What the service relies on of the store\<close>

abbreviation w_ID :: "workspace \<Rightarrow> string" where "w_ID w \<equiv> b_ID (w_Box w)"
abbreviation w_TenantID :: "workspace \<Rightarrow> string" where "w_TenantID w \<equiv> b_TenantID (w_Box w)"
abbreviation w_Owner :: "workspace \<Rightarrow> string" where "w_Owner w \<equiv> b_Owner (w_Box w)"
abbreviation w_Name :: "workspace \<Rightarrow> string" where "w_Name w \<equiv> b_Name (w_Box w)"

definition lookup_ws :: "string \<Rightarrow> string \<Rightarrow> workspace list \<Rightarrow> workspace option" where
  "lookup_ws t i = find (\<lambda>w. w_TenantID w = t \<and> w_ID w = i)"

text \<open>The workspaces of other owners or tenants than a principal are the same in two lists.\<close>

definition foreign_kept :: "principal \<Rightarrow> workspace list \<Rightarrow> workspace list \<Rightarrow> bool" where
  "foreign_kept pr ws ws' \<longleftrightarrow> (\<forall>t i x. lookup_ws t i ws = Some x \<and> (w_Owner x \<noteq> pl_ID pr \<or> t \<noteq> pl_TenantID pr) \<longrightarrow>
     lookup_ws t i ws' = Some x)"

definition owned_by :: "principal \<Rightarrow> proto_workspace \<Rightarrow> bool" where
  "owned_by pr p \<longleftrightarrow> pw_Owner p = pl_ID pr \<and> pw_TenantId p = pl_TenantID pr"

lemma foreign_kept_refl [simp]: "foreign_kept pr ws ws"
  by (simp add: foreign_kept_def)

lemma lookup_ws_append: "lookup_ws t i (ws @ [w]) = (case lookup_ws t i ws of None \<Rightarrow> lookup_ws t i [w] | Some x \<Rightarrow> Some x)"
  unfolding lookup_ws_def by (induction ws) auto

lemma foreign_kept_append [simp]: "foreign_kept pr ws (ws @ [w])"
  by (simp add: foreign_kept_def lookup_ws_append)

locale workspace_contract =
  fixes S :: "'s workspace_store" and all :: "'s \<Rightarrow> workspace list" and wf :: "'s \<Rightarrow> bool"
  assumes get_frame: "wsGet S t i s = (rg, s') \<Longrightarrow> s' = s"
    and name_frame: "wsGetByName S t n s = (rn, s') \<Longrightarrow> s' = s"
    and list_frame: "wsList S t s = (rl, s') \<Longrightarrow> s' = s"
    and get_sound: "wf s \<Longrightarrow> wsGet S t i s = (Inr w, s') \<Longrightarrow>
      lookup_ws t i (all s) = Some w \<and> phase_ok (b_Phase (w_Box w))"
    and name_sound: "wf s \<Longrightarrow> wsGetByName S t n s = (Inr w, s') \<Longrightarrow>
      lookup_ws t (w_ID w) (all s) = Some w \<and> w_TenantID w = t \<and> w_Name w = n \<and> phase_ok (b_Phase (w_Box w))"
    and list_sound: "wf s \<Longrightarrow> wsList S t s = (Inr ws, s') \<Longrightarrow> ws = filter (\<lambda>w. w_TenantID w = t) (all s)"
    and create_sound: "wf s \<Longrightarrow> phase_ok (b_Phase (w_Box w)) \<Longrightarrow> wsCreate S w s = (rc, s') \<Longrightarrow>
      wf s' \<and> (all s' = all s \<or> (\<exists>w'. all s' = all s @ [w']))"
    and update_sound: "wf s \<Longrightarrow> phase_ok (b_Phase (w_Box w)) \<Longrightarrow> wsUpdate S w s = (ru, w', s') \<Longrightarrow>
      wf s' \<and> (\<forall>t i. (t, i) \<noteq> (w_TenantID w, w_ID w) \<longrightarrow> lookup_ws t i (all s') = lookup_ws t i (all s))"
begin

lemma resolve_sound:
  assumes "wf s" "av_store sv = S" "resolve sv ctx n s = (r, s')"
  shows "s' = s \<and> (\<forall>w. r = Inr w \<longrightarrow> (let pr = api_principal sv ctx in
    lookup_ws (pl_TenantID pr) (w_ID w) (all s) = Some w \<and> w_TenantID w = pl_TenantID pr \<and>
    n \<in> {w_ID w, w_Name w} \<and> phase_ok (b_Phase (w_Box w)) \<and> (w_Owner w = pl_ID pr \<or> privileged pr)))"
proof -
  let ?t = "pl_TenantID (api_principal sv ctx)"
  obtain r0 s0 where g: "wsGet S ?t n s = (r0, s0)" by fastforce
  obtain rn sn where b: "wsGetByName S ?t n s0 = (rn, sn)" by fastforce
  from get_frame [OF g] name_frame [OF b] have f: "s0 = s" "sn = s" by auto
  have id: "w_ID w = n \<and> w_TenantID w = ?t" if "lookup_ws ?t n (all s) = Some w" for w
    using that by (auto simp: lookup_ws_def find_Some_iff)
  define r1 where "r1 = (case r0 of Inl e \<Rightarrow> if errors_Is e StoreErrNotFound then rn else r0 | Inr _ \<Rightarrow> r0)"
  have s': "s' = s"
    using assms(3) g b f by (auto simp: resolve_def assms(2) Let_def split: sum.splits if_splits)
  have r: "r1 = Inr w \<and> (w_Owner w = pl_ID (api_principal sv ctx) \<or> privileged (api_principal sv ctx))" if "r = Inr w" for w
    using assms(3) g b f(1) that by (auto simp: r1_def resolve_def assms(2) Let_def split: sum.splits if_splits)
  have "lookup_ws ?t (w_ID w) (all s) = Some w \<and> w_TenantID w = ?t \<and> n \<in> {w_ID w, w_Name w} \<and> phase_ok (b_Phase (w_Box w))"
    if "r1 = Inr w" for w
  proof (cases "r0 = Inr w")
    case True
    with get_sound [OF assms(1)] g id show ?thesis by auto
  next
    case False
    with that have "rn = Inr w" by (auto simp: r1_def split: sum.splits if_splits)
    with name_sound [OF assms(1)] b f(1) show ?thesis by auto
  qed
  with s' r show ?thesis unfolding Let_def by blast
qed

lemma unary_sound:
  assumes "wf s" "av_store sv = S" "api_unary sv rnd now req ctx s = (r, s')" "\<not> privileged (api_principal sv ctx)"
  shows "wf s' \<and> foreign_kept (api_principal sv ctx) (all s) (all s') \<and>
    (\<forall>ps. r = Inr ps \<longrightarrow> (\<forall>p \<in> set ps. owned_by (api_principal sv ctx) p))"
proof (cases req)
  case (ReqCreate q)
  let ?pr = "api_principal sv ctx"
  let ?w0 = "workspace_New rnd now (pl_TenantID ?pr) (pl_ID ?pr) (crq_Name q) (crq_ImageRef q)"
  let ?w = "?w0\<lparr> w_Box := (w_Box ?w0)\<lparr>b_MemMB := crq_MemMb q\<rparr>,
      w_Ingress := map (\<lambda>ip. \<lparr> ip_Name = fst ip, ip_Port = snd ip \<rparr>) (crq_Ingress q) \<rparr>"
  obtain rc sc where c: "wsCreate S ?w s = (rc, sc)" by fastforce
  have ok: "phase_ok (b_Phase (w_Box ?w))" by (simp add: workspace_New_def New_def known_phase_ok known_phase_def)
  from create_sound [OF assms(1) ok c] have "wf sc \<and> foreign_kept ?pr (all s) (all sc)" by auto
  moreover have "owned_by ?pr (toProto ?w)"
    by (simp add: owned_by_def toProto_def workspace_New_def New_def Let_def)
  ultimately show ?thesis
    using assms(1,3) c ReqCreate assms(2)
    by (auto simp: api_unary_def api_CreateWorkspace_def Let_def split: if_splits sum.splits)
next
  case (ReqGet n)
  obtain rr sr where v: "resolve sv ctx n s = (rr, sr)" by fastforce
  from resolve_sound [OF assms(1,2) v] assms(1,3,4) ReqGet v show ?thesis
    by (auto simp: api_unary_def api_GetWorkspace_def owned_by_def toProto_def Let_def split: sum.splits)
next
  case ReqList
  obtain rl sl where l: "wsList S (pl_TenantID (api_principal sv ctx)) s = (rl, sl)" by fastforce
  from list_frame [OF l] list_sound [OF assms(1), of "pl_TenantID (api_principal sv ctx)"] l assms ReqList show ?thesis
    by (auto simp: api_unary_def api_ListWorkspaces_def owned_by_def toProto_def Let_def split: sum.splits)
next
  case (ReqDelete n)
  let ?pr = "api_principal sv ctx"
  obtain rr sr where v: "resolve sv ctx n s = (rr, sr)" by fastforce
  note rs = resolve_sound [OF assms(1,2) v]
  show ?thesis
  proof (cases rr)
    case (Inl e)
    with assms(1,3) ReqDelete v rs show ?thesis by (auto simp: api_unary_def api_DeleteWorkspace_def)
  next
    case (Inr w)
    let ?d = "w\<lparr>w_Box := (w_Box w)\<lparr>b_Phase := PhaseDestroying\<rparr>\<rparr>"
    obtain ru w' su where u: "wsUpdate S ?d s = (ru, w', su)" by (metis prod_cases3)
    have "phase_ok (b_Phase (w_Box ?d))" by (simp add: known_phase_ok known_phase_def)
    from update_sound [OF assms(1) this u] have up: "wf su"
      "\<And>t i. (t, i) \<noteq> (w_TenantID w, w_ID w) \<Longrightarrow> lookup_ws t i (all su) = lookup_ws t i (all s)" by auto
    have "foreign_kept ?pr (all s) (all su)"
      unfolding foreign_kept_def
    proof (intro allI impI)
      fix t i x
      assume x: "lookup_ws t i (all s) = Some x \<and> (w_Owner x \<noteq> pl_ID ?pr \<or> t \<noteq> pl_TenantID ?pr)"
      with rs Inr assms(4) have "(t, i) \<noteq> (w_TenantID w, w_ID w)" by (auto simp: Let_def)
      with up(2) x show "lookup_ws t i (all su) = Some x" by simp
    qed
    moreover have "s' = su" "\<forall>ps. r = Inr ps \<longrightarrow> ps = []"
      using assms(2,3) ReqDelete v Inr u rs
      by (auto simp: api_unary_def api_DeleteWorkspace_def split: sum.splits if_splits)
    ultimately show ?thesis using up(1) by auto
  qed
qed

end

section \<open>The workspace database keeps the contract\<close>

lemma ws_lookup: "ws_find t i db = lookup_ws t i (ws_all db)"
  by (simp add: ws_find_def lookup_ws_def)

lemma ws_reads_frame:
  "GetWorkspace t i db = (rg, db') \<Longrightarrow> db' = db" "ws_GetByName t n db = (rg, db') \<Longrightarrow> db' = db"
  "ListWorkspaces t db = (rl, db') \<Longrightarrow> db' = db"
  by (auto simp: GetWorkspace_def ws_GetByName_def ListWorkspaces_def ws_one_def ws_list_def split: option.splits)

lemma ws_ok_up:
  "GetWorkspace t i db = (Inr w, db') \<Longrightarrow> wd_fault db = None" "ws_GetByName t n db = (Inr w, db') \<Longrightarrow> wd_fault db = None"
  "ListWorkspaces t db = (Inr ws, db') \<Longrightarrow> wd_fault db = None"
  by (auto simp: GetWorkspace_def ws_GetByName_def ListWorkspaces_def ws_one_def ws_list_def split: option.splits)

lemma ws_all_phase: "ws_wf db \<Longrightarrow> w \<in> set (ws_all db) \<Longrightarrow> phase_ok (b_Phase (w_Box w))"
  by (auto simp: ws_all_def ws_wf_columns)

lemma ws_all_distinct: "ws_wf db \<Longrightarrow> distinct (map w_ID (ws_all db))"
  using ws_all_ids [of db] by (simp add: ws_wf_def o_def)

lemma lookup_ws_mem:
  assumes "distinct (map w_ID ws)" "w \<in> set ws"
  shows "lookup_ws (w_TenantID w) (w_ID w) ws = Some w"
  using assms unfolding lookup_ws_def by (induction ws) (auto simp: rev_image_eqI)

lemma lookup_ws_upd:
  "(t, i) \<noteq> (w_TenantID w, w_ID w) \<Longrightarrow> lookup_ws t i (ws_upd now w ws) = lookup_ws t i ws"
  unfolding lookup_ws_def ws_upd_def by (induction ws) (auto simp: ws_overwrite_def)

lemma GetByName_find:
  assumes "ws_wf db" "wd_fault db = None"
  shows "ws_GetByName t n db = (case find (\<lambda>w. w_TenantID w = t \<and> w_Name w = n) (ws_all db) of
    None \<Rightarrow> Inl StoreErrNotFound | Some w \<Rightarrow> Inr w, db)"
  unfolding ws_GetByName_def using assms by (intro ws_one_find) (auto simp: ws_wf_columns)

interpretation wsdb: workspace_contract "sqlite_store now" ws_all ws_wf
proof unfold_locales
  fix t i s rg s' assume "wsGet (sqlite_store now) t i s = (rg, s')"
  then show "s' = s" by (simp add: sqlite_store_def ws_reads_frame)
next
  fix t n s rn s' assume "wsGetByName (sqlite_store now) t n s = (rn, s')"
  then show "s' = s" by (simp add: sqlite_store_def ws_reads_frame)
next
  fix t s rl s' assume "wsList (sqlite_store now) t s = (rl, s')"
  then show "s' = s" by (simp add: sqlite_store_def ws_reads_frame)
next
  fix s t i w s' assume a: "ws_wf s" "wsGet (sqlite_store now) t i s = (Inr w, s')"
  then have g: "GetWorkspace t i s = (Inr w, s')" by (simp add: sqlite_store_def)
  with GetWorkspace_find [OF a(1) ws_ok_up(1) [OF g], of t i] have "ws_find t i s = Some w" by (auto split: option.splits)
  moreover from this have "w \<in> set (ws_all s)" by (auto simp: ws_find_def find_Some_iff)
  ultimately show "lookup_ws t i (ws_all s) = Some w \<and> phase_ok (b_Phase (w_Box w))"
    using ws_all_phase [OF a(1)] by (simp add: ws_lookup)
next
  fix s t n w s' assume a: "ws_wf s" "wsGetByName (sqlite_store now) t n s = (Inr w, s')"
  then have g: "ws_GetByName t n s = (Inr w, s')" by (simp add: sqlite_store_def)
  with GetByName_find [OF a(1) ws_ok_up(2) [OF g], of t n]
  have "find (\<lambda>w. w_TenantID w = t \<and> w_Name w = n) (ws_all s) = Some w" by (auto split: option.splits)
  then have "w \<in> set (ws_all s)" "w_TenantID w = t" "w_Name w = n" by (auto simp: find_Some_iff)
  then show "lookup_ws t (w_ID w) (ws_all s) = Some w \<and> w_TenantID w = t \<and> w_Name w = n \<and> phase_ok (b_Phase (w_Box w))"
    using ws_all_phase [OF a(1)] lookup_ws_mem [OF ws_all_distinct [OF a(1)]] by auto
next
  fix s t ws s' assume a: "ws_wf s" "wsList (sqlite_store now) t s = (Inr ws, s')"
  then have g: "ListWorkspaces t s = (Inr ws, s')" by (simp add: sqlite_store_def)
  have "ListWorkspaces t s = (Inr (filter (\<lambda>w. w_TenantID w = t) (ws_all s)), s)"
    unfolding ListWorkspaces_def using a(1) ws_ok_up(3) [OF g] by (intro ws_list_rows) (auto simp: ws_wf_columns)
  with g show "ws = filter (\<lambda>w. w_TenantID w = t) (ws_all s)" by auto
next
  fix s w rc s' assume a: "ws_wf s" "phase_ok (b_Phase (w_Box w))" "wsCreate (sqlite_store now) w s = (rc, s')"
  then have "CreateWorkspace w s = (rc, s')" by (simp add: sqlite_store_def)
  from CreateWorkspace_rows [OF a(1,2) this] show "ws_wf s' \<and> (ws_all s' = ws_all s \<or> (\<exists>w'. ws_all s' = ws_all s @ [w']))" by auto
next
  fix s w ru w' s' assume a: "ws_wf s" "phase_ok (b_Phase (w_Box w))" "wsUpdate (sqlite_store now) w s = (ru, w', s')"
  then have "UpdateWorkspace now w s = (ru, w', s')" by (simp add: sqlite_store_def)
  from UpdateWorkspace_rows [OF a(1,2) this]
  show "ws_wf s' \<and> (\<forall>t i. (t, i) \<noteq> (w_TenantID w, w_ID w) \<longrightarrow> lookup_ws t i (ws_all s') = lookup_ws t i (ws_all s))"
    using lookup_ws_upd by auto
qed

section \<open>Properties\<close>

text \<open>C4: behind the authentication interceptor a caller acts as itself only. A call without a token that
  resolves to a principal is refused and touches nothing. With one, and unless the principal is an
  admin, no workspace of another owner or tenant is changed or removed by any unary call, and every
  workspace in the answer is the caller's own.\<close>

theorem api_owner_isolation:
  assumes "ws_wf db" "av_store sv = sqlite_store now"
    and "AuthInterceptor (static_identity P) ctx (api_unary sv rnd t req) (w, db) = (r, w', db')"
  shows "(\<exists>m. r = Inl (Status Unauthenticated m)) \<and> db' = db \<or>
    (\<exists>pr. tokenFromCtx ctx \<noteq> [] \<and> sp_keys P (tokenFromCtx ctx) = Some pr \<and>
      (privileged pr \<or> ws_wf db' \<and> foreign_kept pr (ws_all db) (ws_all db') \<and>
        (\<forall>ps. r = Inr ps \<longrightarrow> (\<forall>p \<in> set ps. owned_by pr p))))"
proof -
  obtain ra wa where a: "authenticate ctx (static_identity P) w = (ra, wa)" by fastforce
  show ?thesis
  proof (cases ra)
    case (Inl e)
    with a assms(3) have "r = Inl e" "db' = db" by (auto simp: AuthInterceptor_def)
    with a Inl show ?thesis
      by (auto simp: authenticate_def static_identity_def static_Authenticate_def Let_def split: if_splits option.splits)
  next
    case (Inr pr)
    with a have p: "tokenFromCtx ctx \<noteq> []" "sp_keys P (tokenFromCtx ctx) = Some pr"
      by (auto simp: authenticate_def static_identity_def static_Authenticate_def Let_def split: if_splits option.splits)
    from Inr a assms(3) have u: "api_unary sv rnd t req (withPrincipal ctx pr) db = (r, db')"
      by (auto simp: AuthInterceptor_def split: prod.splits)
    have "api_principal sv (withPrincipal ctx pr) = pr"
      by (simp add: api_principal_def principalFromCtx_def withPrincipal_def)
    with wsdb.unary_sound [OF assms(1,2) u] p show ?thesis by auto
  qed
qed

definition demo_api :: "(ws_db, unit, unit) api_server" where
  "demo_api = NewServer (sqlite_store 9) \<lparr> ah_Connected = (\<lambda>_ _. False), ah_OpenShell = (\<lambda>_ _ _. Inl ErrEOF),
     ah_OpenExec = (\<lambda>_ _ _. Inl ErrEOF), ah_OpenSSH = (\<lambda>_ _. Inl ErrEOF) \<rparr> ''default'' ''dev'' None"

definition demo_ctx :: api_ctx where
  "demo_ctx = \<lparr> cx_metadata = Some (\<lambda>k. if k = ''authorization'' then [''Bearer k1''] else []), cx_principal = None \<rparr>"

definition demo_static :: static_provider where
  "demo_static = static_New [(''k1'', \<lparr> pl_ID = ''alice'', pl_TenantID = ''default'', pl_DisplayName = [], pl_Roles = [''owner''] \<rparr>)]"

definition bob_ws :: workspace where
  "bob_ws = workspace_New [1] 5 ''default'' ''bob'' ''web'' ''alpine''"

definition bob_db :: ws_db where
  "bob_db = \<lparr> wd_rows = [ws_insert_row bob_ws], wd_fault = None, wd_conflict = Errorf ''UNIQUE'' \<rparr>"

lemma bob_db_simps [simp]: "ws_wf bob_db" "ws_all bob_db = [bob_ws]"
proof -
  have ok: "ws_scan (ws_insert_row bob_ws) = Inr bob_ws"
    using ws_scan_insert_row [of bob_ws]
    by (simp add: bob_ws_def workspace_New_def New_def ws_kept_def persisted_def known_phase_ok known_phase_def zero_box_def)
  then show "ws_wf bob_db" "ws_all bob_db = [bob_ws]"
    by (simp_all add: ws_wf_def bob_db_def ws_all_def ws_scanned_def)
qed

theorem api_owner_isolation_witness:
  "\<exists>r db'. AuthInterceptor (static_identity demo_static) demo_ctx (api_unary demo_api [] 7 (ReqDelete ''web'')) ((), bob_db) = (r, (), db') \<and>
     lookup_ws ''default'' (w_ID bob_ws) (ws_all db') = Some bob_ws"
proof -
  let ?x = "AuthInterceptor (static_identity demo_static) demo_ctx (api_unary demo_api [] 7 (ReqDelete ''web'')) ((), bob_db)"
  obtain r db' where x: "?x = (r, (), db')" by (metis (full_types) prod_cases3 old.unit.exhaust)
  have st: "av_store demo_api = sqlite_store 9" by (simp add: demo_api_def NewServer_def)
  have tok: "tokenFromCtx demo_ctx = ''k1''" by code_simp
  have b: "lookup_ws ''default'' (w_ID bob_ws) [bob_ws] = Some bob_ws" "w_Owner bob_ws = ''bob''"
    by (simp_all add: lookup_ws_def bob_ws_def workspace_New_def New_def)
  have "lookup_ws ''default'' (w_ID bob_ws) (ws_all db') = Some bob_ws"
    using api_owner_isolation [OF bob_db_simps(1) st x] tok b
    by (auto simp: demo_static_def static_New_def privileged_def foreign_kept_def)
  with x show ?thesis by blast
qed

text \<open>The agent's side of a run: its writes of output, each cut into frames, then the exit frame.\<close>

fun agent_output :: "(8 word \<times> bytes) list \<Rightarrow> writer \<Rightarrow> writer" where
  "agent_output [] w = w"
| "agent_output ((ty, p) # es) w = agent_output es (snd (execWriter_Write ty p w))"

definition agent_run :: "(8 word \<times> bytes) list \<Rightarrow> 32 word \<Rightarrow> bytes" where
  "agent_run es code = wr_out (snd (WriteExecExit code (agent_output es \<lparr> wr_out = [], wr_err = None \<rparr>)))"

text \<open>What a client has received of one stream.\<close>

fun stdout_of :: "exec_server_msg list \<Rightarrow> bytes" where
  "stdout_of [] = []"
| "stdout_of (MsgStdout b # ms) = b @ stdout_of ms"
| "stdout_of (_ # ms) = stdout_of ms"

fun stderr_of :: "exec_server_msg list \<Rightarrow> bytes" where
  "stderr_of [] = []"
| "stderr_of (MsgStderr b # ms) = b @ stderr_of ms"
| "stderr_of (_ # ms) = stderr_of ms"

definition written :: "8 word \<Rightarrow> (8 word \<times> bytes) list \<Rightarrow> bytes" where
  "written ty es = concat (map snd (filter (\<lambda>e. fst e = ty) es))"

definition as_msg :: "8 word \<times> bytes \<Rightarrow> exec_server_msg" where
  "as_msg f = (if fst f = ExecStdout then MsgStdout (snd f) else MsgStderr (snd f))"

definition frames_of :: "(8 word \<times> bytes) list \<Rightarrow> (8 word \<times> bytes) list" where
  "frames_of es = concat (map (\<lambda>(ty, p). map (Pair ty) (exec_chunks p)) es)"

lemma exec_types [simp]: "ExecStdout \<noteq> ExecStderr" "ExecStderr \<noteq> ExecStdout" "ExecStdout \<noteq> ExecExit" "ExecStderr \<noteq> ExecExit"
  "ExecExit \<noteq> ExecStdout" "ExecExit \<noteq> ExecStderr"
  by (simp_all add: ExecStdout_def ExecStderr_def ExecExit_def)

lemma agent_output_frames:
  "wr_err w = None \<Longrightarrow>
     agent_output es w = w\<lparr>wr_out := wr_out w @ concat (map (\<lambda>(ty, c). exec_frame ty c) (frames_of es))\<rparr>"
proof (induction es arbitrary: w)
  case (Cons e es)
  obtain ty p where e: "e = (ty, p)" by fastforce
  from Cons.prems have "snd (execWriter_Write ty p w) = w\<lparr>wr_out := wr_out w @ concat (map (exec_frame ty) (exec_chunks p))\<rparr>"
    by (simp add: execWriter_Write_def exec_write_loop_chunks)
  with Cons.IH [of "w\<lparr>wr_out := wr_out w @ concat (map (exec_frame ty) (exec_chunks p))\<rparr>"] Cons.prems e
  show ?case by (simp add: frames_of_def o_def)
qed (simp add: frames_of_def)

lemma exec_relay_frames:
  assumes "\<forall>(ty, c) \<in> set fs. ty \<in> {ExecStdout, ExecStderr} \<and> length c \<le> maxFrame" "sk_err k = None"
  shows "exec_relay (concat (map (\<lambda>(ty, c). exec_frame ty c) fs) @ r) k =
    exec_relay r (k\<lparr>sk_sent := sk_sent k @ map as_msg fs\<rparr>)"
  using assms
proof (induction fs arbitrary: k)
  case (Cons f fs)
  obtain ty c where f: "f = (ty, c)" by fastforce
  with Cons.prems have t: "ty = ExecStdout \<or> ty = ExecStderr" "length c \<le> maxFrame" by auto
  then have "ReadExecFrame (exec_frame ty c @ x) = (Inr (ty, c, 0), x)" for x
    using ReadExecFrame_frame [of c ty] by auto
  then have "exec_relay (exec_frame ty c @ x) k = exec_relay x (k\<lparr>sk_sent := sk_sent k @ [as_msg (ty, c)]\<rparr>)" for x
    using t Cons.prems(2) by (auto simp: exec_relay.simps [of "exec_frame ty c @ x"] Send_def as_msg_def)
  with Cons.IH [of "k\<lparr>sk_sent := sk_sent k @ [as_msg (ty, c)]\<rparr>"] Cons.prems f show ?case by simp
qed simp

lemma exec_relay_exit:
  "ReadExecFrame r = (Inr (ExecExit, d, code), r') \<Longrightarrow> sk_err k = None \<Longrightarrow>
     exec_relay r k = (Inr (), k\<lparr>sk_sent := sk_sent k @ [MsgExitCode code]\<rparr>)"
  by (simp add: exec_relay.simps [of r] Send_def)

lemma received_frames:
  assumes "\<forall>(ty, p) \<in> set es. ty \<in> {ExecStdout, ExecStderr}"
  shows "stdout_of (map as_msg (frames_of es) @ ms) = written ExecStdout es @ stdout_of ms"
    and "stderr_of (map as_msg (frames_of es) @ ms) = written ExecStderr es @ stderr_of ms"
proof -
  have chunks: "stdout_of (map as_msg (map (Pair ty) cs) @ ms) = (if ty = ExecStdout then concat cs else []) @ stdout_of ms"
    "stderr_of (map as_msg (map (Pair ty) cs) @ ms) = (if ty = ExecStdout then [] else concat cs) @ stderr_of ms" for ty cs ms
    by (induction cs) (auto simp: as_msg_def)
  show "stdout_of (map as_msg (frames_of es) @ ms) = written ExecStdout es @ stdout_of ms"
    using assms
    by (induction es) (auto simp: frames_of_def written_def chunks concat_exec_chunks simp del: map_map)
  show "stderr_of (map as_msg (frames_of es) @ ms) = written ExecStderr es @ stderr_of ms"
    using assms
    by (induction es) (auto simp: frames_of_def written_def chunks concat_exec_chunks simp del: map_map)
qed

text \<open>A command's output reaches the caller whole: whatever the agent writes on the two output streams,
  in any order and of any size, followed by the exit code, the Exec call ends well, the client has
  received each stream byte for byte and the exit code as its last message.\<close>

theorem exec_output_reaches_client:
  assumes "\<forall>(ty, p) \<in> set es. ty \<in> {ExecStdout, ExecStderr}" "sk_err k = None" "sk_sent k = []"
  shows "\<exists>ms k'. exec_relay (agent_run es code @ rest) k = (Inr (), k') \<and> sk_sent k' = ms @ [MsgExitCode code] \<and>
    stdout_of ms = written ExecStdout es \<and> stderr_of ms = written ExecStderr es"
proof -
  let ?fs = "frames_of es" and ?x = "ExecExit # PutUint32 4 @ PutUint32 (unat code)"
  let ?k = "k\<lparr>sk_sent := map as_msg ?fs\<rparr>"
  have b: "\<forall>(ty, c) \<in> set ?fs. ty \<in> {ExecStdout, ExecStderr} \<and> length c \<le> maxFrame"
    using assms(1) exec_chunks_bound execChunk_le_maxFrame unfolding frames_of_def by fastforce
  have "ReadExecFrame (?x @ rest) = (Inr (ExecExit, [], code), rest)" by (rule ReadExecFrame_exit)
  from exec_relay_exit [OF this, of ?k] assms(2)
  have "exec_relay (?x @ rest) ?k = (Inr (), ?k\<lparr>sk_sent := sk_sent ?k @ [MsgExitCode code]\<rparr>)" by simp
  moreover have "agent_run es code = concat (map (\<lambda>(ty, c). exec_frame ty c) ?fs) @ ?x"
    by (simp add: agent_run_def agent_output_frames WriteExecExit_def Write_def)
  ultimately have "exec_relay (agent_run es code @ rest) k = (Inr (), ?k\<lparr>sk_sent := sk_sent ?k @ [MsgExitCode code]\<rparr>)"
    using exec_relay_frames [OF b assms(2), of "?x @ rest"] assms(3) by simp
  with received_frames [OF assms(1), of "[]"] show ?thesis
    by (intro exI [of _ "map as_msg ?fs"] exI [of _ "?k\<lparr>sk_sent := sk_sent ?k @ [MsgExitCode code]\<rparr>"]) simp
qed

theorem exec_output_reaches_client_witness:
  "\<exists>ms k'. exec_relay (agent_run [(ExecStdout, [104]), (ExecStderr, [33]), (ExecStdout, [105])] 3) \<lparr> sk_sent = [], sk_err = None \<rparr> = (Inr (), k') \<and>
     sk_sent k' = ms @ [MsgExitCode 3] \<and> stdout_of ms = [104, 105] \<and> stderr_of ms = [33]"
  using exec_output_reaches_client [of "[(ExecStdout, [104]), (ExecStderr, [33]), (ExecStdout, [105])]" "\<lparr> sk_sent = [], sk_err = None \<rparr>" 3 "[]"]
  by (auto simp: written_def)

end
