(* ===== verification/Box_Sqlite.thy ===== *)
theory Box_Sqlite
  imports Box_Progress Sql_Base
begin

text \<open>
  The box database (\<^verbatim>\<open>internal/core/boxsqlite/boxsqlite.go\<close>): the table of boxes as a list of
  rows, one field per column, with its primary key and its unique key; the operations as the SQL
  statements they execute. A state in which \<open>bd_fault\<close> is set is one where every statement fails
  (a full disk, a locked file); \<open>bd_conflict\<close> is the driver's error for a violated key. A query
  with no \<^verbatim>\<open>ORDER BY\<close> returns the rows in insertion order.
\<close>

section \<open>Rows\<close>

record box_row =
  rw_id :: string
  rw_tenant_id :: string
  rw_owner :: string
  rw_name :: string
  rw_image_ref :: string
  rw_backend :: string
  rw_mem_mb :: int
  rw_cpu_millis :: int
  rw_ephemeral :: int
  rw_grace_ns :: int
  rw_max_ttl_ns :: int
  rw_deadline :: stamp
  rw_phase :: string
  rw_instance_ref :: string
  rw_ip :: string
  rw_bootstrap_token :: string
  rw_agent_connected :: int
  rw_attached :: int
  rw_message :: string
  rw_load :: rat
  rw_last_active :: stamp
  rw_auto_suspend :: int
  rw_keep_alive_until :: stamp
  rw_idle_timeout_ns :: int
  rw_agent_state :: string
  rw_agent_status :: string
  rw_created_at :: stamp
  rw_updated_at :: stamp

record boxes_db =
  bd_rows :: "box_row list"
  bd_fault :: "err option"
  bd_conflict :: err

definition deadlineStr :: "box \<Rightarrow> stamp" where
  "deadlineStr b = (case b_Deadline b of None \<Rightarrow> NoStamp | Some d \<Rightarrow> Format_ts d)"

definition lastActiveStr :: "box \<Rightarrow> stamp" where
  "lastActiveStr b = (if IsZero (b_LastActive b) then NoStamp else Format_ts (b_LastActive b))"

definition keepAliveStr :: "box \<Rightarrow> stamp" where
  "keepAliveStr b = (if IsZero (b_KeepAliveUntil b) then NoStamp else Format_ts (b_KeepAliveUntil b))"

text \<open>A column that may be empty: the zero value then, the parsed instant otherwise.\<close>

definition parse_column :: "string \<Rightarrow> stamp \<Rightarrow> time option result" where
  "parse_column col st =
     (case st of NoStamp \<Rightarrow> Inr None
      | Stamp t \<Rightarrow> Inr (Some t)
      | BadStamp s \<Rightarrow> Inl (Wrapf (''parse '' @ col @ '' '' @ quoted s @ '': '') (Errorf ''parsing time'')))"

definition scan :: "box_row \<Rightarrow> box result" where
  "scan r =
     rbind (parse_column ''last_active'' (rw_last_active r)) (\<lambda>la.
     rbind (parse_column ''keep_alive_until'' (rw_keep_alive_until r)) (\<lambda>ka.
     rbind (parse_column ''deadline'' (rw_deadline r)) (\<lambda>dl.
     case Parse_ts (rw_created_at r) of
       Inl e \<Rightarrow> Inl (Wrapf ''parse created_at: '' e)
     | Inr created \<Rightarrow>
     (case Parse_ts (rw_updated_at r) of
       Inl e \<Rightarrow> Inl (Wrapf ''parse updated_at: '' e)
     | Inr updated \<Rightarrow> Inr
         \<lparr> b_ID = rw_id r, b_TenantID = rw_tenant_id r, b_Owner = rw_owner r, b_Name = rw_name r,
           b_ImageRef = rw_image_ref r, b_Backend = rw_backend r, b_MemMB = rw_mem_mb r,
           b_CPUMillis = rw_cpu_millis r, b_Ephemeral = (rw_ephemeral r \<noteq> 0), b_Grace = rw_grace_ns r,
           b_MaxTTL = rw_max_ttl_ns r, b_Deadline = dl, b_AutoSuspend = (rw_auto_suspend r \<noteq> 0),
           b_KeepAliveUntil = (case ka of None \<Rightarrow> 0 | Some t \<Rightarrow> t),
           b_IdleTimeoutOverride = rw_idle_timeout_ns r, b_Phase = phase_of_text (rw_phase r),
           b_InstanceRef = rw_instance_ref r, b_IP = rw_ip r, b_BootstrapToken = rw_bootstrap_token r,
           b_AgentConnected = (rw_agent_connected r \<noteq> 0), b_Attached = (rw_attached r \<noteq> 0),
           b_Message = rw_message r, b_Load = rw_load r,
           b_LastActive = (case la of None \<Rightarrow> 0 | Some t \<Rightarrow> t), b_AgentState = rw_agent_state r,
           b_AgentStatus = rw_agent_status r, b_CreatedAt = created, b_UpdatedAt = updated \<rparr>))))"

section \<open>Statements\<close>

text \<open>\<open>insert_row\<close> is the tuple of \<^verbatim>\<open>INSERT\<close>, \<open>set_row\<close> the \<^verbatim>\<open>SET\<close> list of \<^verbatim>\<open>UPDATE\<close>.\<close>

definition insert_row :: "box \<Rightarrow> box_row" where
  "insert_row b =
     \<lparr> rw_id = b_ID b, rw_tenant_id = b_TenantID b, rw_owner = b_Owner b, rw_name = b_Name b,
       rw_image_ref = b_ImageRef b, rw_backend = b_Backend b, rw_mem_mb = b_MemMB b,
       rw_cpu_millis = b_CPUMillis b, rw_ephemeral = b2i (b_Ephemeral b), rw_grace_ns = b_Grace b,
       rw_max_ttl_ns = b_MaxTTL b, rw_deadline = deadlineStr b, rw_phase = phase_text (b_Phase b),
       rw_instance_ref = b_InstanceRef b, rw_ip = b_IP b, rw_bootstrap_token = b_BootstrapToken b,
       rw_agent_connected = b2i (b_AgentConnected b), rw_attached = b2i (b_Attached b),
       rw_message = b_Message b, rw_load = b_Load b, rw_last_active = lastActiveStr b,
       rw_auto_suspend = b2i (b_AutoSuspend b), rw_keep_alive_until = keepAliveStr b,
       rw_idle_timeout_ns = b_IdleTimeoutOverride b, rw_agent_state = b_AgentState b,
       rw_agent_status = b_AgentStatus b, rw_created_at = Format_ts (b_CreatedAt b),
       rw_updated_at = Format_ts (b_UpdatedAt b) \<rparr>"

definition set_row :: "box \<Rightarrow> box_row \<Rightarrow> box_row" where
  "set_row b r = r
     \<lparr> rw_image_ref := b_ImageRef b, rw_backend := b_Backend b, rw_mem_mb := b_MemMB b,
       rw_cpu_millis := b_CPUMillis b, rw_ephemeral := b2i (b_Ephemeral b), rw_grace_ns := b_Grace b,
       rw_max_ttl_ns := b_MaxTTL b, rw_deadline := deadlineStr b, rw_phase := phase_text (b_Phase b),
       rw_instance_ref := b_InstanceRef b, rw_ip := b_IP b, rw_bootstrap_token := b_BootstrapToken b,
       rw_agent_connected := b2i (b_AgentConnected b), rw_attached := b2i (b_Attached b),
       rw_message := b_Message b, rw_load := b_Load b, rw_last_active := lastActiveStr b,
       rw_auto_suspend := b2i (b_AutoSuspend b), rw_keep_alive_until := keepAliveStr b,
       rw_idle_timeout_ns := b_IdleTimeoutOverride b, rw_agent_state := b_AgentState b,
       rw_agent_status := b_AgentStatus b, rw_updated_at := Format_ts (b_UpdatedAt b) \<rparr>"

text \<open>The keys of the schema: the primary key, and one name per owner and tenant.\<close>

definition key_conflict :: "box_row \<Rightarrow> box_row \<Rightarrow> bool" where
  "key_conflict r r' = (rw_id r = rw_id r' \<or>
     rw_tenant_id r = rw_tenant_id r' \<and> rw_owner r = rw_owner r' \<and> rw_name r = rw_name r')"

definition one :: "(box_row list \<Rightarrow> box_row option) \<Rightarrow> boxes_db \<Rightarrow> box result \<times> boxes_db" where
  "one q db =
     (case bd_fault db of
        Some e \<Rightarrow> (Inl e, db)
      | None \<Rightarrow> (case q (bd_rows db) of None \<Rightarrow> (Inl ErrNotFound, db) | Some r \<Rightarrow> (scan r, db)))"

definition bs_Get :: "string \<Rightarrow> string \<Rightarrow> boxes_db \<Rightarrow> box result \<times> boxes_db" where
  "bs_Get tenant i = one (find (\<lambda>r. rw_id r = i))"

definition bs_GetByName :: "string \<Rightarrow> string \<Rightarrow> boxes_db \<Rightarrow> box result \<times> boxes_db" where
  "bs_GetByName tenant name = one (find (\<lambda>r. rw_tenant_id r = tenant \<and> rw_name r = name))"

definition bs_GetByToken :: "string \<Rightarrow> boxes_db \<Rightarrow> box result \<times> boxes_db" where
  "bs_GetByToken token db =
     (if token = [] then (Inl ErrNotFound, db) else one (find (\<lambda>r. rw_bootstrap_token r = token)) db)"

definition bs_GetByIP :: "string \<Rightarrow> boxes_db \<Rightarrow> box result \<times> boxes_db" where
  "bs_GetByIP ip db =
     (if ip = [] then (Inl ErrNotFound, db)
      else one (\<lambda>rs. first_desc (\<lambda>r. stamp_key (rw_updated_at r)) (filter (\<lambda>r. rw_ip r = ip) rs)) db)"

fun scan_all :: "box_row list \<Rightarrow> box list result" where
  "scan_all [] = Inr []"
| "scan_all (r # rs) = rbind (scan r) (\<lambda>b. rbind (scan_all rs) (\<lambda>bs. Inr (b # bs)))"

definition bs_List :: "string \<Rightarrow> boxes_db \<Rightarrow> box list result \<times> boxes_db" where
  "bs_List tenant db =
     (case bd_fault db of
        Some e \<Rightarrow> (Inl e, db)
      | None \<Rightarrow> (scan_all (filter (\<lambda>r. tenant = [] \<or> rw_tenant_id r = tenant) (bd_rows db)), db))"

definition bs_Create :: "box \<Rightarrow> boxes_db \<Rightarrow> unit result \<times> boxes_db" where
  "bs_Create b db =
     (case bd_fault db of
        Some e \<Rightarrow> (Inl e, db)
      | None \<Rightarrow>
          if list_ex (key_conflict (insert_row b)) (bd_rows db) then (Inl (bd_conflict db), db)
          else (Inr (), db\<lparr>bd_rows := bd_rows db @ [insert_row b]\<rparr>))"

definition bs_Update :: "time \<Rightarrow> box \<Rightarrow> boxes_db \<Rightarrow> unit result \<times> box \<times> boxes_db" where
  "bs_Update now b0 db =
     (let b = b0\<lparr>b_UpdatedAt := now\<rparr> in
      case bd_fault db of
        Some e \<Rightarrow> (Inl e, b, db)
      | None \<Rightarrow> (Inr (), b, db\<lparr>bd_rows := map (\<lambda>r. if rw_id r = b_ID b then set_row b r else r) (bd_rows db)\<rparr>))"

definition bs_Delete :: "string \<Rightarrow> string \<Rightarrow> boxes_db \<Rightarrow> unit result \<times> boxes_db" where
  "bs_Delete tenant i db =
     (case bd_fault db of
        Some e \<Rightarrow> (Inl e, db)
      | None \<Rightarrow> (Inr (), db\<lparr>bd_rows := filter (\<lambda>r. rw_id r \<noteq> i) (bd_rows db)\<rparr>))"

definition boxsqlite_store :: "time \<Rightarrow> boxes_db store_ops" where
  "boxsqlite_store now = \<lparr> sGet = bs_Get, sGetByName = bs_GetByName, sList = bs_List,
     sCreate = bs_Create, sUpdate = bs_Update now, sDelete = bs_Delete \<rparr>"

section \<open>Reading back what was written\<close>

lemma parse_column_optional [simp]:
  "parse_column col (deadlineStr b) = Inr (b_Deadline b)"
  "parse_column col (lastActiveStr b) = Inr (if b_LastActive b = 0 then None else Some (b_LastActive b))"
  "parse_column col (keepAliveStr b) = Inr (if b_KeepAliveUntil b = 0 then None else Some (b_KeepAliveUntil b))"
  by (simp_all add: parse_column_def deadlineStr_def lastActiveStr_def keepAliveStr_def Format_ts_def IsZero_def
      split: option.splits)

lemma scan_insert_row: "phase_ok (b_Phase b) \<Longrightarrow> scan (insert_row b) = Inr b"
  by (simp add: scan_def insert_row_def Format_ts_def phase_ok_def)

lemma scan_columns:
  assumes "scan r = Inr x"
  shows "b_ID x = rw_id r" "b_TenantID x = rw_tenant_id r" "b_Owner x = rw_owner r" "b_Name x = rw_name r"
    "b_IP x = rw_ip r" "b_BootstrapToken x = rw_bootstrap_token r" "phase_ok (b_Phase x)"
    "Parse_ts (rw_created_at r) = Inr (b_CreatedAt x)" "Parse_ts (rw_updated_at r) = Inr (b_UpdatedAt x)"
proof -
  obtain la ka dl c u where p: "parse_column ''last_active'' (rw_last_active r) = Inr la"
    "parse_column ''keep_alive_until'' (rw_keep_alive_until r) = Inr ka"
    "parse_column ''deadline'' (rw_deadline r) = Inr dl"
    "Parse_ts (rw_created_at r) = Inr c" "Parse_ts (rw_updated_at r) = Inr u"
    using assms by (cases "Parse_ts (rw_created_at r)"; cases "Parse_ts (rw_updated_at r)")
      (auto simp: scan_def)
  from assms have "Inr x = scan r" ..
  then show "b_ID x = rw_id r" "b_TenantID x = rw_tenant_id r" "b_Owner x = rw_owner r" "b_Name x = rw_name r"
    "b_IP x = rw_ip r" "b_BootstrapToken x = rw_bootstrap_token r" "phase_ok (b_Phase x)"
    "Parse_ts (rw_created_at r) = Inr (b_CreatedAt x)" "Parse_ts (rw_updated_at r) = Inr (b_UpdatedAt x)"
    by (simp_all add: scan_def p)
qed

lemma scan_set_row:
  assumes "scan r = Inr x" "phase_ok (b_Phase b)"
  shows "scan (set_row b r) = Inr (overwrite (b_UpdatedAt b) x b)"
proof -
  note c = scan_columns [OF assms(1)]
  have "scan (set_row b r) = Inr (b\<lparr>b_ID := rw_id r, b_TenantID := rw_tenant_id r, b_Owner := rw_owner r,
      b_Name := rw_name r, b_CreatedAt := b_CreatedAt x\<rparr>)"
    using assms(2) c(8) by (simp add: scan_def set_row_def Format_ts_def phase_ok_def)
  then show ?thesis by (simp add: overwrite_def c)
qed

text \<open>The stored boxes, and a table whose rows all scan.\<close>

definition db_boxes :: "boxes_db \<Rightarrow> box list" where
  "db_boxes db = map (\<lambda>r. case scan r of Inl _ \<Rightarrow> zero_box | Inr b \<Rightarrow> b) (bd_rows db)"

definition db_wf :: "boxes_db \<Rightarrow> bool" where
  "db_wf db = (list_all (\<lambda>r. is_ok (scan r)) (bd_rows db) \<and> distinct (map rw_id (bd_rows db)))"

definition scanned :: "box_row \<Rightarrow> box" where
  "scanned r = (case scan r of Inl _ \<Rightarrow> zero_box | Inr b \<Rightarrow> b)"

lemma db_boxes_scanned: "db_boxes db = map scanned (bd_rows db)"
  by (simp add: db_boxes_def scanned_def)

lemma db_wf_scan: "db_wf db \<Longrightarrow> r \<in> set (bd_rows db) \<Longrightarrow> scan r = Inr (scanned r)"
  by (auto simp: db_wf_def list_all_iff is_ok_iff scanned_def)

lemma db_wf_columns:
  assumes "db_wf db" "r \<in> set (bd_rows db)"
  shows "b_ID (scanned r) = rw_id r" "b_TenantID (scanned r) = rw_tenant_id r" "b_Owner (scanned r) = rw_owner r"
    "b_Name (scanned r) = rw_name r" "b_IP (scanned r) = rw_ip r" "phase_ok (b_Phase (scanned r))"
    "b_BootstrapToken (scanned r) = rw_bootstrap_token r"
  using scan_columns [OF db_wf_scan [OF assms]] by auto

lemma db_wf_ids: "db_wf db \<Longrightarrow> map b_ID (db_boxes db) = map rw_id (bd_rows db)"
  by (simp add: db_boxes_scanned db_wf_columns(1))

lemma find_scanned:
  assumes "db_wf db" "\<And>r. r \<in> set (bd_rows db) \<Longrightarrow> P (scanned r) = Q r"
  shows "find P (db_boxes db) = map_option scanned (find Q (bd_rows db))"
proof -
  have "set rs \<subseteq> set (bd_rows db) \<Longrightarrow> find P (map scanned rs) = map_option scanned (find Q rs)" for rs
    using assms(2) by (induction rs) auto
  then show ?thesis by (simp add: db_boxes_scanned)
qed

lemma scan_all_map: "(\<And>r. r \<in> set rs \<Longrightarrow> scan r = Inr (scanned r)) \<Longrightarrow> scan_all rs = Inr (map scanned rs)"
  by (induction rs) auto

lemma one_find:
  assumes "db_wf db" "\<And>r. r \<in> set (bd_rows db) \<Longrightarrow> P (scanned r) = Q r" "bd_fault db = None"
  shows "one (find Q) db = (case find P (db_boxes db) of None \<Rightarrow> Inl ErrNotFound | Some b \<Rightarrow> Inr b, db)"
proof -
  have "find P (db_boxes db) = map_option scanned (find Q (bd_rows db))"
    using assms(1,2) by (rule find_scanned)
  then show ?thesis
    using assms(3) db_wf_scan [OF assms(1)]
    by (auto simp: one_def dest!: find_Some_iff' split: option.splits)
qed

lemma bs_Get_row:
  "db_wf db \<Longrightarrow> bd_fault db = None \<Longrightarrow>
     bs_Get t i db = (case row (db_boxes db) i of None \<Rightarrow> Inl ErrNotFound | Some b \<Rightarrow> Inr b, db)"
  unfolding bs_Get_def row_def by (rule one_find) (auto simp: db_wf_columns)

lemma bs_List_rows:
  assumes "db_wf db" "bd_fault db = None"
  shows "bs_List t db = (Inr (filter (\<lambda>b. t = [] \<or> b_TenantID b = t) (db_boxes db)), db)"
proof -
  let ?rs = "filter (\<lambda>r. t = [] \<or> rw_tenant_id r = t) (bd_rows db)"
  have "scan_all ?rs = Inr (map scanned ?rs)" by (rule scan_all_map) (auto simp: db_wf_scan [OF assms(1)])
  moreover have "map scanned ?rs = filter (\<lambda>b. t = [] \<or> b_TenantID b = t) (db_boxes db)"
    using db_wf_columns(2) [OF assms(1)] by (auto simp: db_boxes_scanned filter_map intro!: arg_cong [of _ _ "map scanned"] filter_cong)
  ultimately show ?thesis using assms(2) by (simp add: bs_List_def)
qed

lemma bs_Update_rows:
  assumes "db_wf db" "phase_ok (b_Phase b)" "bs_Update now b db = (r, b', db')"
  shows "db_wf db' \<and> bd_fault db' = bd_fault db \<and> b' = b\<lparr>b_UpdatedAt := now\<rparr> \<and>
    (is_ok r \<longleftrightarrow> bd_fault db = None) \<and>
    db_boxes db' = (if is_ok r then upd_rows now b (db_boxes db) else db_boxes db)"
proof (cases "bd_fault db")
  case (Some e)
  with assms show ?thesis by (auto simp: bs_Update_def Let_def)
next
  case None
  let ?b = "b\<lparr>b_UpdatedAt := now\<rparr>"
  let ?f = "\<lambda>r. if rw_id r = b_ID b then set_row ?b r else r"
  have r: "r = Inr ()" "b' = ?b" "db' = db\<lparr>bd_rows := map ?f (bd_rows db)\<rparr>"
    using assms(3) None by (auto simp: bs_Update_def Let_def)
  have sc: "scan (?f x) = Inr (if rw_id x = b_ID b then overwrite now (scanned x) b else scanned x)"
    if "x \<in> set (bd_rows db)" for x
    using scan_set_row [OF db_wf_scan [OF assms(1) that], of ?b] db_wf_scan [OF assms(1) that] assms(2)
    by (simp add: overwrite_def)
  have ids: "map rw_id (map ?f (bd_rows db)) = map rw_id (bd_rows db)" by (simp add: set_row_def)
  have "is_ok (scan y)" if "y \<in> set (map ?f (bd_rows db))" for y
    using that sc unfolding set_map by (metis (no_types, lifting) imageE is_ok_simps(1))
  moreover have "distinct (map rw_id (map ?f (bd_rows db)))"
    unfolding ids using assms(1) by (simp add: db_wf_def)
  moreover have "bd_rows db' = map ?f (bd_rows db)" by (simp add: r(3))
  ultimately have "db_wf db'" unfolding db_wf_def list_all_iff by metis
  moreover have "db_boxes db' = upd_rows now b (db_boxes db)"
    using sc db_wf_columns(1) [OF assms(1)] r(3) by (simp add: db_boxes_def upd_rows_def scanned_def)
  ultimately show ?thesis using r None by simp
qed

lemma bs_Create_rows:
  assumes "db_wf db" "phase_ok (b_Phase b)" "bs_Create b db = (r, db')"
  shows "db_wf db' \<and> bd_fault db' = bd_fault db \<and>
    db_boxes db' = (if is_ok r then db_boxes db @ [b] else db_boxes db)"
proof (cases "bd_fault db = None \<and> \<not> list_ex (key_conflict (insert_row b)) (bd_rows db)")
  case False
  then have "\<not> is_ok r \<and> db' = db"
    using assms(3) by (auto simp: bs_Create_def split: option.splits if_splits)
  with assms(1) show ?thesis by simp
next
  case True
  then have r: "r = Inr ()" "db' = db\<lparr>bd_rows := bd_rows db @ [insert_row b]\<rparr>"
    using assms(3) by (auto simp: bs_Create_def)
  have "rw_id (insert_row b) \<notin> rw_id ` set (bd_rows db)"
    using True by (auto simp: list_ex_iff key_conflict_def)
  with assms(1) r scan_insert_row [OF assms(2)] show ?thesis by (simp add: db_wf_def db_boxes_def)
qed

lemma bs_Create_ok:
  assumes "db_wf db" "bd_fault db = None" "row (db_boxes db) (b_ID b) = None"
    "\<not> (\<exists>x \<in> set (db_boxes db). b_TenantID x = b_TenantID b \<and> b_Owner x = b_Owner b \<and> b_Name x = b_Name b)"
  shows "\<exists>db'. bs_Create b db = (Inr (), db') \<and> bd_fault db' = None"
proof -
  have "\<not> key_conflict (insert_row b) r" if "r \<in> set (bd_rows db)" for r
  proof -
    have m: "scanned r \<in> set (db_boxes db)" using that by (auto simp: db_boxes_scanned)
    then have "b_ID (scanned r) \<noteq> b_ID b" using assms(3) unfolding row_None_iff by (metis image_eqI)
    with m assms(4) db_wf_columns [OF assms(1) that] show ?thesis
      by (auto simp: key_conflict_def insert_row_def)
  qed
  then show ?thesis using assms(2) by (auto simp: bs_Create_def list_ex_iff)
qed

lemma bs_Delete_rows:
  assumes "db_wf db" "bs_Delete t i db = (r, db')"
  shows "db_wf db' \<and> bd_fault db' = bd_fault db \<and> (is_ok r \<longleftrightarrow> bd_fault db = None) \<and>
    db_boxes db' = (if is_ok r then del_rows i (db_boxes db) else db_boxes db)"
proof (cases "bd_fault db")
  case (Some e)
  with assms show ?thesis by (auto simp: bs_Delete_def)
next
  case None
  then have r: "r = Inr ()" "db' = db\<lparr>bd_rows := filter (\<lambda>r. rw_id r \<noteq> i) (bd_rows db)\<rparr>"
    using assms(2) by (auto simp: bs_Delete_def)
  have "db_boxes db' = del_rows i (db_boxes db)"
    using db_wf_columns(1) [OF assms(1)]
    by (auto simp: r(2) db_boxes_scanned del_rows_def filter_map intro!: arg_cong [of _ _ "map scanned"] filter_cong)
  with assms(1) None r show ?thesis by (auto simp: db_wf_def list_all_iff distinct_map_filter)
qed

section \<open>The database keeps the store contract\<close>

definition same_owner_name :: "box \<Rightarrow> box \<Rightarrow> bool" where
  "same_owner_name x b = (b_TenantID x = b_TenantID b \<and> b_Owner x = b_Owner b \<and> b_Name x = b_Name b)"

lemma bs_Get_cases:
  "bs_Get t i db = (case bd_fault db of Some e \<Rightarrow> (Inl e, db) | None \<Rightarrow> bs_Get t i db)"
  by (auto simp: bs_Get_def one_def split: option.splits)

lemma bs_frames: "bs_Get t i db = (rb, db') \<Longrightarrow> db' = db" "bs_List t db = (rl, db') \<Longrightarrow> db' = db"
  by (auto simp: bs_Get_def one_def bs_List_def split: option.splits)

lemma bs_Get_sound: "db_wf db \<Longrightarrow> bs_Get t i db = (Inr b, db') \<Longrightarrow> row (db_boxes db) i = Some b"
  using bs_Get_row [of db t i] by (cases "bd_fault db") (auto simp: bs_Get_def one_def split: option.splits)

lemma bs_List_sound: "db_wf db \<Longrightarrow> bs_List t db = (Inr bs, db') \<Longrightarrow>
    bs = filter (\<lambda>b. t = [] \<or> b_TenantID b = t) (db_boxes db)"
  using bs_List_rows [of db t] by (cases "bd_fault db") (auto simp: bs_List_def)

interpretation boxdb: box_store "boxsqlite_store now" db_boxes db_wf True now "\<lambda>db. bd_fault db = None" same_owner_name
proof (unfold_locales, goal_cases)
  case (1 s)
  then show ?case by (simp add: db_wf_ids) (simp add: db_wf_def)
next
  case (2 s b)
  then show ?case by (auto simp: db_boxes_scanned persisted_def db_wf_columns)
next
  case (3 t i s rb s')
  then show ?case by (simp add: boxsqlite_store_def bs_frames)
next
  case (4 s t i b s')
  then show ?case by (simp add: boxsqlite_store_def bs_Get_sound)
next
  case (5 t s rl s')
  then show ?case by (simp add: boxsqlite_store_def bs_frames)
next
  case (6 s t bs s')
  then show ?case by (simp add: boxsqlite_store_def bs_List_sound)
next
  case (7 s b r s')
  then show ?case using bs_Create_rows [of s b r s'] by (simp add: boxsqlite_store_def persisted_def)
next
  case (8 s b r b' s')
  then show ?case using bs_Update_rows [of s b now r b' s'] by (simp add: boxsqlite_store_def persisted_def)
next
  case (9 s t i r s')
  then show ?case using bs_Delete_rows [of s t i r s'] by (simp add: boxsqlite_store_def split: if_splits)
next
  case (10 s b)
  moreover have "row (db_boxes s) (b_ID b) = Some b"
    using 10 db_wf_ids [of s] row_Some_iff [of "db_boxes s"] by (simp add: db_wf_def)
  ultimately show ?case by (simp add: boxsqlite_store_def bs_Get_row)
next
  case (11 s i t)
  then show ?case by (simp add: boxsqlite_store_def bs_Get_row)
next
  case (12 s t)
  then show ?case by (simp add: boxsqlite_store_def bs_List_rows)
next
  case (13 s b x)
  then show ?case by (auto simp: boxsqlite_store_def bs_Update_def Let_def)
next
  case (14 s b)
  then show ?case using bs_Create_ok [of s b] by (auto simp: boxsqlite_store_def same_owner_name_def)
next
  case (15 s b)
  obtain r s' where d: "bs_Delete (b_TenantID b) (b_ID b) s = (r, s')" by fastforce
  from bs_Delete_rows [OF 15(1) d] 15(2) d show ?case by (cases r) (auto simp: boxsqlite_store_def)
qed

end
