(* ===== verification/Boxd.thy ===== *)
theory Boxd
  imports Box_Sqlite
begin

text \<open>
  The standalone box daemon (\<^verbatim>\<open>cmd/boxd/main.go\<close>): the engine and the reconciler over the box
  database, the reset of stale sessions at start-up, the sink that records agent connections, the
  write seam of the metadata API, and the addresses a box dials back. The properties here are
  those of the box product as boxd runs it.
\<close>

section \<open>Wiring\<close>

record boxd_cfg =
  bc_agentListen :: string
  bc_advertise :: string
  bc_agentBin :: string
  bc_image :: string
  bc_metaAddr :: string
  bc_guestBin :: string
  bc_compute :: string
  bc_fcSubnet :: string
  bc_cpuMillis :: int
  bc_memMB :: int
  bc_autoSuspend :: bool
  bc_idleTimeout :: duration
  bc_grace :: duration

definition gatewayHost :: "boxd_cfg \<Rightarrow> string" where
  "gatewayHost c =
     (if bc_compute c = ''microvm''
      then (if bc_fcSubnet c = [] then ''10.0.0'' else bc_fcSubnet c) @ ''.1''
      else ''host.docker.internal'')"

definition portOf :: "string \<Rightarrow> string \<Rightarrow> string" where
  "portOf addr def = (case SplitHostPort addr of Some (_, p) \<Rightarrow> if p \<noteq> [] then p else def | None \<Rightarrow> def)"

definition engineTenant :: string where "engineTenant = ''default''"

definition boxd_advertise :: "boxd_cfg \<Rightarrow> string" where
  "boxd_advertise c =
     (if bc_advertise c = [] then JoinHostPort (gatewayHost c) (portOf (bc_agentListen c) ''7777'')
      else bc_advertise c)"

definition boxd_metaURL :: "boxd_cfg \<Rightarrow> string" where
  "boxd_metaURL c = ''http://'' @ JoinHostPort (gatewayHost c) (portOf (bc_metaAddr c) ''8090'')"

definition boxd_reconciler :: "boxd_cfg \<Rightarrow> 'c compute_ops \<Rightarrow> (boxes_db, 'c) reconciler" where
  "boxd_reconciler c compute = NewReconciler boxsqlite_store compute
     \<lparr> rc_AgentAddr = boxd_advertise c,
       rc_Agent = \<lparr> ai_ImageRef = [], ai_BinaryPath = [], ai_TargetPath = ''/hopbox/hopbox-agent'',
          ai_HostBinaryPath = bc_agentBin c \<rparr>,
       rc_MetaURL = boxd_metaURL c, rc_GuestBin = bc_guestBin c,
       rc_Idle = \<lparr> ic_Timeout = bc_idleTimeout c, ic_LoadThreshold = ic_LoadThreshold DefaultIdle \<rparr>,
       rc_Interval = 0, rc_Hooks = None, rc_TrustedSSH = True \<rparr>"

definition boxd_engine :: "boxd_cfg \<Rightarrow> time \<Rightarrow> (boxes_db, reconcile_req list) engine" where
  "boxd_engine c now = NewEngine (boxsqlite_store now) (Some Trigger)
     \<lparr> ec_Tenant = engineTenant, ec_DefaultImage = bc_image c, ec_Backends = [''docker''],
       ec_DefBackend = [], ec_DefaultFlavor = \<lparr> fl_CPUMillis = bc_cpuMillis c, fl_MemMB = bc_memMB c \<rparr>,
       ec_Persistent = Some (\<lambda>_. bc_autoSuspend c), ec_DefaultGrace = bc_grace c \<rparr>"

definition reset_one :: "'s store_ops \<Rightarrow> box \<Rightarrow> 's \<Rightarrow> 's" where
  "reset_one S b s = (if b_Attached b then snd (snd (sUpdate S (b\<lparr>b_Attached := False\<rparr>) s)) else s)"

definition resetSessions :: "'s store_ops \<Rightarrow> 's \<Rightarrow> 's" where
  "resetSessions S s =
     (case sList S engineTenant s of
        (Inl _, s') \<Rightarrow> s'
      | (Inr boxes, s') \<Rightarrow> fold (reset_one S) boxes s')"

text \<open>\<^verbatim>\<open>mutate\<close>: resolve the calling box by its address, apply, persist.\<close>

definition boxd_mutate :: "time \<Rightarrow> string \<Rightarrow> (box \<Rightarrow> box) \<Rightarrow> boxes_db \<Rightarrow> unit result \<times> boxes_db" where
  "boxd_mutate now ip fn db =
     (case bs_GetByIP ip db of
        (Inl e, db') \<Rightarrow> (Inl e, db')
      | (Inr b, db') \<Rightarrow> (let (r, _, db'') = bs_Update now (fn b) db' in (r, db'')))"

definition boxSink_SetAgentConnected :: "'s store_ops \<Rightarrow> string \<Rightarrow> bool \<Rightarrow> 's \<times> reconcile_req list \<Rightarrow>
    's \<times> reconcile_req list" where
  "boxSink_SetAgentConnected S i conn = (\<lambda>(s, q).
     case sGet S [] i s of
       (Inl _, s') \<Rightarrow> (s', q)
     | (Inr b, s') \<Rightarrow>
         (case sUpdate S (b\<lparr>b_AgentConnected := conn\<rparr>) s' of
            (Inl _, _, s'') \<Rightarrow> (s'', q)
          | (Inr _, b', s'') \<Rightarrow> (s'', Trigger i (b_TenantID b') q)))"

lemma boxd_reconciler_parts [simp]:
  "r_store (boxd_reconciler c compute) = boxsqlite_store"
  "r_compute (boxd_reconciler c compute) = compute"
  "rc_Hooks (r_cfg (boxd_reconciler c compute)) = None"
  by (simp_all add: boxd_reconciler_def NewReconciler_def Let_def)

lemma boxd_engine_parts [simp]:
  "e_store (boxd_engine c now) = boxsqlite_store now"
  "ec_Tenant (e_cfg (boxd_engine c now)) = engineTenant"
  by (simp_all add: boxd_engine_def NewEngine_def)

text \<open>The reconciler over the box database, with no hooks, is an instance of the environment in
  which the refinement was proved.\<close>

interpretation boxrec: reconcile_env "boxsqlite_store now" db_boxes db_wf True now None
  by unfold_locales auto

section \<open>Stale sessions\<close>

definition detached_at :: "time \<Rightarrow> string set \<Rightarrow> box \<Rightarrow> box" where
  "detached_at now ids x = (if b_ID x \<in> ids \<and> b_Attached x then x\<lparr>b_Attached := False, b_UpdatedAt := now\<rparr> else x)"

lemma detached_at_empty [simp]: "detached_at now {} x = x"
  by (simp add: detached_at_def)

context box_store
begin

lemma reset_one_row:
  assumes "wf s" "up s" "row (rows s) (b_ID b) = Some b"
  shows "wf (reset_one S b s)" "up (reset_one S b s)"
    "row (rows (reset_one S b s)) i = map_option (detached_at now {b_ID b}) (row (rows s) i)"
proof -
  have m: "b \<in> set (rows s)" using row_SomeD [OF assms(3)] by simp
  have id: "map_option (detached_at now {b_ID b}) (row (rows s) j) = row (rows s) j" if "j \<noteq> b_ID b" for j
    using that by (cases "row (rows s) j") (auto simp: detached_at_def dest: row_SomeD)
  show "wf (reset_one S b s)" "up (reset_one S b s)"
    "row (rows (reset_one S b s)) i = map_option (detached_at now {b_ID b}) (row (rows s) i)"
  proof (atomize (full), cases "b_Attached b")
    case False
    have "map_option (detached_at now {b_ID b}) (row (rows s) i) = row (rows s) i"
      using id [of i] assms(3) False by (cases "i = b_ID b") (auto simp: detached_at_def)
    with False assms show "wf (reset_one S b s) \<and> up (reset_one S b s) \<and>
      row (rows (reset_one S b s)) i = map_option (detached_at now {b_ID b}) (row (rows s) i)"
      by (simp add: reset_one_def)
  next
    case True
    let ?b = "b\<lparr>b_Attached := False\<rparr>"
    have "phase_ok (b_Phase ?b)" "persisted full ?b = ?b" using wf_row [OF assms(1) m] by (simp_all add: persisted_iff)
    then obtain b' s' where u: "sUpdate S ?b s = (Inr (), b', s')" "wf s'" "up s'"
      "row (rows s') (b_ID b) = Some (?b\<lparr>b_UpdatedAt := now\<rparr>)" "\<And>j. j \<noteq> b_ID b \<Longrightarrow> row (rows s') j = row (rows s) j"
      by (rule up_update_row [OF assms]) (simp_all add: box_identity_def)
    have "row (rows s') i = map_option (detached_at now {b_ID b}) (row (rows s) i)"
      using u(4,5) id [of i] assms(3) True by (cases "i = b_ID b") (auto simp: detached_at_def)
    with u True show "wf (reset_one S b s) \<and> up (reset_one S b s) \<and>
      row (rows (reset_one S b s)) i = map_option (detached_at now {b_ID b}) (row (rows s) i)"
      by (simp add: reset_one_def)
  qed
qed

lemma fold_reset:
  assumes "wf s" "up s" "distinct (map b_ID bs)" "\<forall>b \<in> set bs. row (rows s) (b_ID b) = Some b"
  shows "wf (fold (reset_one S) bs s) \<and> up (fold (reset_one S) bs s) \<and>
    row (rows (fold (reset_one S) bs s)) i = map_option (detached_at now (b_ID ` set bs)) (row (rows s) i)"
  using assms
proof (induction bs arbitrary: s)
  case Nil
  then show ?case by (cases "row (rows s) i") auto
next
  case (Cons b bs)
  let ?s = "reset_one S b s"
  have r: "wf ?s" "up ?s" "\<And>j. row (rows ?s) j = map_option (detached_at now {b_ID b}) (row (rows s) j)"
    using reset_one_row [OF Cons.prems(1,2)] Cons.prems(4) by auto
  have "\<forall>x \<in> set bs. row (rows ?s) (b_ID x) = Some x"
  proof
    fix x
    assume x: "x \<in> set bs"
    then have "b_ID x \<in> b_ID ` set bs" by simp
    with Cons.prems(3) have "b_ID x \<noteq> b_ID b" by auto
    with x Cons.prems(4) r(3) show "row (rows ?s) (b_ID x) = Some x" by (simp add: detached_at_def)
  qed
  with Cons.IH [OF r(1,2)] Cons.prems(3) have ih: "wf (fold (reset_one S) bs ?s)" "up (fold (reset_one S) bs ?s)"
    "row (rows (fold (reset_one S) bs ?s)) i = map_option (detached_at now (b_ID ` set bs)) (row (rows ?s) i)" by auto
  have "detached_at now (b_ID ` set bs) (detached_at now {b_ID b} x) = detached_at now (b_ID ` set (b # bs)) x" for x
    using Cons.prems(3) by (auto simp: detached_at_def)
  with ih r(3) show ?case by (simp add: option.map_comp o_def)
qed

lemma resetSessions_row:
  assumes "wf s" "up s"
  shows "row (rows (resetSessions S s)) i =
    map_option (\<lambda>x. if b_TenantID x = engineTenant \<and> b_Attached x then x\<lparr>b_Attached := False, b_UpdatedAt := now\<rparr> else x)
      (row (rows s) i)"
proof -
  let ?bs = "filter (\<lambda>b. b_TenantID b = engineTenant) (rows s)"
  have l: "sList S engineTenant s = (Inr ?bs, s)"
    using up_list [OF assms, of engineTenant] by (simp add: engineTenant_def)
  have d: "distinct (map b_ID ?bs)" using wf_ids [OF assms(1)] by (simp add: distinct_map_filter)
  have m: "\<forall>b \<in> set ?bs. row (rows s) (b_ID b) = Some b" using row_Some_iff [OF wf_ids [OF assms(1)]] by auto
  have t: "b_ID x \<in> b_ID ` set ?bs \<longleftrightarrow> b_TenantID x = engineTenant" if x: "x \<in> set (rows s)" for x
  proof
    assume "b_ID x \<in> b_ID ` set ?bs"
    then obtain b where b: "b \<in> set ?bs" "b_ID x = b_ID b" by blast
    from m b(1) have "row (rows s) (b_ID b) = Some b" by blast
    moreover have "row (rows s) (b_ID x) = Some x" by (simp add: row_Some_iff [OF wf_ids [OF assms(1)]] x)
    ultimately have "b = x" using b(2) by simp
    with b show "b_TenantID x = engineTenant" by simp
  qed (use x in simp)
  have "map_option (detached_at now (b_ID ` set ?bs)) (row (rows s) i) =
    map_option (\<lambda>x. if b_TenantID x = engineTenant \<and> b_Attached x then x\<lparr>b_Attached := False, b_UpdatedAt := now\<rparr> else x)
      (row (rows s) i)"
  proof (cases "row (rows s) i")
    case (Some x)
    with t [of x] row_SomeD [OF Some] show ?thesis by (simp only: option.map detached_at_def)
  qed simp
  with fold_reset [OF assms d m] l show ?thesis by (simp add: resetSessions_def)
qed

end

section \<open>A concrete daemon\<close>

text \<open>A backend on which every call succeeds, a configuration and a one-row table: the concrete
  inputs at which the properties below are instantiated.\<close>

definition steady_compute :: "nat compute_ops" where
  "steady_compute =
     \<lparr> c_Provision = (\<lambda>q n. (Inr \<lparr> inst_Ref = pr_WorkspaceID q, inst_Phase = InstanceRunning, inst_IP = ''10.0.0.2'' \<rparr>, Suc n)),
       c_Status = (\<lambda>ref n. (Inr \<lparr> inst_Ref = ref, inst_Phase = InstanceRunning, inst_IP = ''10.0.0.2'' \<rparr>, n)),
       c_Stop = (\<lambda>ref n. (Inr (), n)), c_Destroy = (\<lambda>ref n. (Inr (), n - 1)),
       c_Suspender = Some \<lparr> c_Suspend = (\<lambda>ref n. (Inr (), n)), c_Resume = (\<lambda>ref n. (Inr (), n)) \<rparr> \<rparr>"

definition demo_cfg :: boxd_cfg where
  "demo_cfg = \<lparr> bc_agentListen = '':7777'', bc_advertise = [], bc_agentBin = [], bc_image = ''alpine'',
     bc_metaAddr = '':8090'', bc_guestBin = [], bc_compute = ''docker'', bc_fcSubnet = [], bc_cpuMillis = 2000,
     bc_memMB = 2048, bc_autoSuspend = False, bc_idleTimeout = 300, bc_grace = 120 \<rparr>"

definition demo_box :: "phase \<Rightarrow> box" where
  "demo_box p = zero_box\<lparr> b_ID := ''b1'', b_TenantID := ''default'', b_Owner := ''alice'', b_Name := ''web'',
     b_ImageRef := ''alpine'', b_Backend := ''docker'', b_Phase := p, b_CreatedAt := 1000, b_UpdatedAt := 1000 \<rparr>"

definition demo_db :: "box \<Rightarrow> boxes_db" where
  "demo_db b = \<lparr> bd_rows = [insert_row b], bd_fault = None, bd_conflict = Errorf ''UNIQUE constraint failed'' \<rparr>"

lemma demo_db_simps [simp]:
  "phase_ok (b_Phase b) \<Longrightarrow> db_wf (demo_db b)" "phase_ok (b_Phase b) \<Longrightarrow> db_boxes (demo_db b) = [b]"
  "bd_fault (demo_db b) = None"
  by (simp_all add: demo_db_def db_wf_def db_boxes_def scan_insert_row)

lemma row_single [simp]: "row [b] i = (if b_ID b = i then Some b else None)"
  by (simp add: row_def)

lemma demo_box_simps [simp]:
  "b_ID (demo_box p) = ''b1''" "b_TenantID (demo_box p) = ''default''" "b_Owner (demo_box p) = ''alice''"
  "b_Phase (demo_box p) = p" "\<not> b_Ephemeral (demo_box p)" "\<not> b_Attached (demo_box p)"
  "b_MaxTTL (demo_box p) = 0" "b_Deadline (demo_box p) = None" "b_InstanceRef (demo_box p) = []"
  "b_Name (demo_box p) = ''web''"
  by (simp_all add: demo_box_def zero_box_def)

lemma phase_ok_known [simp]:
  "phase_ok PhaseRunning" "phase_ok PhasePending" "phase_ok PhaseSuspended" "phase_ok PhaseDestroying"
  by (simp_all add: known_phase_ok known_phase_def)

section \<open>Properties\<close>



lemma ReconcileOne_row:
  assumes "db_wf db" "ReconcileOne (boxd_reconciler c compute) now rnd t i (db, w) = (res, db', w')"
    "row (db_boxes db) i = Some x"
  shows "case row (db_boxes db') i of None \<Rightarrow> removable x
    | Some y \<Rightarrow> tick_box (rc_Idle (r_cfg (boxd_reconciler c compute))) (c_Suspender compute \<noteq> None) now x y"
  using boxrec.ReconcileOne_refines [OF _ _ assms(1,2)] assms(3)
  by (simp only: boxd_reconciler_parts option.case simp_thms)

text \<open>Every phase change the reconciler persists is one of the state machine's transitions, and
  it never changes a box's identity, tier, session flag, grace, TTL or creation time.\<close>

theorem ReconcileOne_legal:
  assumes "db_wf db" "ReconcileOne (boxd_reconciler c compute) now rnd t i (db, w) = (res, db', w')"
    and "row (db_boxes db) i = Some x" "row (db_boxes db') i = Some y"
  shows "CanTransition (b_Phase x) (b_Phase y) \<and> constant_part y = constant_part x"
  using ReconcileOne_row [OF assms(1-3)] assms(4) tick_box_legal tick_box_constant by fastforce

theorem ReconcileOne_legal_witness:
  "\<exists>y. row (db_boxes (fst (snd (ReconcileOne (boxd_reconciler demo_cfg steady_compute) 5000 [] ''default'' ''b1''
     (demo_db (demo_box PhaseSuspended), 0))))) ''b1'' = Some y \<and> CanTransition PhaseSuspended (b_Phase y)"
proof -
  let ?db = "demo_db (demo_box PhaseSuspended)"
  let ?r = "ReconcileOne (boxd_reconciler demo_cfg steady_compute) 5000 [] ''default'' ''b1'' (?db, 0)"
  have run: "?r = (Inr (), ?db, 0)"
    by (simp add: ReconcileOne_def boxsqlite_store_def bs_Get_row reconcile_box_def)
  from ReconcileOne_legal [OF _ run, of "demo_box PhaseSuspended" "demo_box PhaseSuspended"] show ?thesis
    unfolding run by simp
qed

text \<open>C3: the reconciler never reaps a persistent box: unless somebody asked for its destruction, its
  row is still there after any reconcile, and not marked for destruction.\<close>

theorem persistent_never_reaped:
  assumes "db_wf db" "ReconcileOne (boxd_reconciler c compute) now rnd t i (db, w) = (res, db', w')"
    and "row (db_boxes db) i = Some x" "\<not> b_Ephemeral x" "b_Phase x \<noteq> PhaseDestroying"
  shows "\<exists>y. row (db_boxes db') i = Some y \<and> b_Phase y \<noteq> PhaseDestroying"
proof (cases "row (db_boxes db') i")
  case None
  with ReconcileOne_row [OF assms(1-3)] assms(4,5) show ?thesis by (simp add: removable_def)
next
  case (Some y)
  with ReconcileOne_row [OF assms(1-3)] tick_box_persistent [OF _ assms(4,5)] show ?thesis by auto
qed

theorem persistent_never_reaped_witness:
  "\<exists>y. row (db_boxes (fst (snd (ReconcileOne (boxd_reconciler demo_cfg steady_compute) 5000 [] ''default'' ''b1''
     (demo_db (demo_box PhaseRunning), 0))))) ''b1'' = Some y \<and> b_Phase y \<noteq> PhaseDestroying"
  by (rule persistent_never_reaped [OF _ triple_collapse, where x = "demo_box PhaseRunning"]) simp_all

text \<open>C7: while a session is attached and the box is within its TTL, the reconciler neither reaps nor
  suspends it.\<close>

theorem attached_box_kept:
  assumes "db_wf db" "ReconcileOne (boxd_reconciler c compute) now rnd t i (db, w) = (res, db', w')"
    and "row (db_boxes db) i = Some x" "b_Phase x = PhaseRunning" "b_Attached x"
    and "b_MaxTTL x \<le> 0 \<or> time_Sub now (b_CreatedAt x) < b_MaxTTL x"
  shows "\<exists>y. row (db_boxes db') i = Some y \<and> b_Attached y \<and> b_Phase y \<noteq> PhaseDestroying \<and> b_Phase y \<noteq> PhaseSuspended"
proof (cases "row (db_boxes db') i")
  case None
  with ReconcileOne_row [OF assms(1-3)] assms(4) show ?thesis by (simp add: removable_def)
next
  case (Some y)
  with ReconcileOne_row [OF assms(1-3)] have "tick_box (rc_Idle (r_cfg (boxd_reconciler c compute))) (c_Suspender compute \<noteq> None) now x y"
    by (simp only: option.case)
  from tick_box_attached [OF this assms(5,4,6)] tick_box_constant [OF this] Some assms(5)
  show ?thesis by (simp add: constant_part_def)
qed

theorem attached_box_kept_witness:
  "\<exists>y. row (db_boxes (fst (snd (ReconcileOne (boxd_reconciler demo_cfg steady_compute) 5000 [] ''default'' ''b1''
     (demo_db ((demo_box PhaseRunning)\<lparr>b_Attached := True, b_Ephemeral := True\<rparr>), 0))))) ''b1'' = Some y \<and>
     b_Attached y \<and> b_Phase y \<noteq> PhaseDestroying \<and> b_Phase y \<noteq> PhaseSuspended"
  by (rule attached_box_kept [OF _ triple_collapse,
        where x = "(demo_box PhaseRunning)\<lparr>b_Attached := True, b_Ephemeral := True\<rparr>"]) simp_all

text \<open>A detached box that counts down to a deadline is left alone until the deadline: the
  reconcile changes neither the table nor the backend.\<close>

theorem grace_respected:
  assumes "db_wf db" "ReconcileOne (boxd_reconciler c compute) now rnd t i (db, w) = (res, db', w')"
    and "row (db_boxes db) i = Some x" "b_Phase x = PhaseRunning" "b_Ephemeral x" "\<not> b_Attached x"
    and "b_Deadline x = Some d" "now < d" "b_Grace x > 0"
    and "b_MaxTTL x \<le> 0 \<or> time_Sub now (b_CreatedAt x) < b_MaxTTL x"
  shows "db' = db \<and> w' = w"
proof -
  have no: "EvalLifetime x now = no_action"
    using assms(5-10) by (auto simp: EvalLifetime_def time_Before_def)
  have "reconcile_box (boxd_reconciler c compute) now rnd x (db, w) = (Inr (), db, w)"
    using assms(4,5,6) by (simp add: reconcile_box_def reconcileLifetime_def no) (simp add: no_action_def)
  moreover have "bs_Get t i db = (Inr x, db) \<or> (\<exists>e. bs_Get t i db = (Inl e, db))"
    using bs_Get_row [OF assms(1)] assms(3) by (cases "bd_fault db") (auto simp: bs_Get_def one_def)
  ultimately show ?thesis using assms(2) by (auto simp: ReconcileOne_def boxsqlite_store_def)
qed

theorem grace_respected_witness:
  "ReconcileOne (boxd_reconciler demo_cfg steady_compute) 5000 [] ''default'' ''b1''
     (demo_db ((demo_box PhaseRunning)\<lparr>b_Ephemeral := True, b_Grace := 120, b_Deadline := Some 5120\<rparr>), 0) =
   (Inr (), demo_db ((demo_box PhaseRunning)\<lparr>b_Ephemeral := True, b_Grace := 120, b_Deadline := Some 5120\<rparr>), 0)"
proof -
  let ?b = "(demo_box PhaseRunning)\<lparr>b_Ephemeral := True, b_Grace := 120, b_Deadline := Some 5120\<rparr>"
  let ?r = "ReconcileOne (boxd_reconciler demo_cfg steady_compute) 5000 [] ''default'' ''b1'' (demo_db ?b, 0)"
  have "fst (snd ?r) = demo_db ?b \<and> snd (snd ?r) = 0"
    by (rule grace_respected [OF _ triple_collapse, where x = ?b and d = 5120]) simp_all
  moreover have "fst ?r = Inr ()"
    by (simp add: ReconcileOne_def boxsqlite_store_def bs_Get_row reconcile_box_def reconcileLifetime_def
        EvalLifetime_def no_action_def time_Before_def)
  ultimately show ?thesis by (metis triple_collapse)
qed

text \<open>C8: a detached ephemeral box does go away. With the store up and a backend that can destroy the
  instance, the first reconcile starts the countdown, one at or after the deadline marks the box,
  and the next removes its row (and has destroyed its instance).\<close>

theorem countdown_reaps:
  assumes "db_wf db" "bd_fault db = None" "row (db_boxes db) i = Some x"
    and x: "b_Phase x = PhaseRunning" "b_Ephemeral x" "\<not> b_Attached x" "b_Deadline x = None" "b_Grace x > 0"
      "b_MaxTTL x \<le> 0"
    and t: "t1 + b_Grace x \<le> t2"
    and d: "\<And>v. fst (c_Destroy compute (b_InstanceRef x) v) = Inr ()"
  shows "\<exists>db1 db2 db3 w3.
    ReconcileOne (boxd_reconciler c compute) t1 r1 (b_TenantID x) i (db, w) = (Inr (), db1, w) \<and>
    ReconcileOne (boxd_reconciler c compute) t2 r2 (b_TenantID x) i (db1, w) = (Inr (), db2, w) \<and>
    ReconcileOne (boxd_reconciler c compute) t3 r3 (b_TenantID x) i (db2, w) = (Inr (), db3, w3) \<and>
    row (db_boxes db3) i = None \<and>
    w3 = (if b_InstanceRef x = [] then w else snd (c_Destroy compute (b_InstanceRef x) w))"
proof -
  let ?R = "boxd_reconciler c compute"
  have st: "r_store ?R t = boxsqlite_store t" for t by simp
  have nh: "rc_Hooks (r_cfg ?R) = None" by simp
  have set1: "ra_SetDeadline (EvalLifetime x t1) = Some (t1 + b_Grace x)"
    using x by (simp add: EvalLifetime_def no_action_def time_Add_def)
  obtain db1 where 1: "ReconcileOne ?R t1 r1 (b_TenantID x) i (db, w) = (Inr (), db1, w)" "db_wf db1" "bd_fault db1 = None"
    "row (db_boxes db1) i = Some (x\<lparr>b_Deadline := Some (t1 + b_Grace x), b_UpdatedAt := t1\<rparr>)"
    using boxdb.countdown_starts [OF assms(1-3) st x(1,2,3) set1, where rnd = r1 and c = w] by blast
  let ?x1 = "x\<lparr>b_Deadline := Some (t1 + b_Grace x), b_UpdatedAt := t1\<rparr>"
  have reap: "ra_Reap (EvalLifetime ?x1 t2)"
    using x t by (simp add: EvalLifetime_def no_action_def time_Before_def)
  obtain db2 where 2: "ReconcileOne ?R t2 r2 (b_TenantID ?x1) i (db1, w) = (Inr (), db2, w)" "db_wf db2" "bd_fault db2 = None"
    "row (db_boxes db2) i = Some (?x1\<lparr>b_Phase := PhaseDestroying, b_Message := ''ephemeral: lifetime expired'', b_UpdatedAt := t2\<rparr>)"
    using boxdb.reap_marks [OF 1(2-4) st _ _ reap, where rnd = r2 and c = w] x by auto
  let ?x2 = "?x1\<lparr>b_Phase := PhaseDestroying, b_Message := ''ephemeral: lifetime expired'', b_UpdatedAt := t2\<rparr>"
  have dd: "c_Destroy (r_compute ?R) (b_InstanceRef ?x2) w = (Inr (), snd (c_Destroy compute (b_InstanceRef x) w))"
    using d [of w] by (cases "c_Destroy compute (b_InstanceRef x) w") simp
  have rem: "removable ?x2" by (simp add: removable_def)
  obtain db3 where 3: "ReconcileOne ?R t3 r3 (b_TenantID ?x2) i (db2, w) =
      (Inr (), db3, if b_InstanceRef ?x2 \<noteq> [] then snd (c_Destroy compute (b_InstanceRef x) w) else w)"
    "row (db_boxes db3) i = None"
    using boxdb.destroy_removes [OF 2(2-4) st nh rem dd, where rnd = r3] by blast
  from 1 2 3 show ?thesis by auto
qed

theorem countdown_reaps_witness:
  "\<exists>db1 db2 db3 w3.
    ReconcileOne (boxd_reconciler demo_cfg steady_compute) 5000 [] ''default'' ''b1''
      (demo_db ((demo_box PhaseRunning)\<lparr>b_Ephemeral := True, b_Grace := 120, b_InstanceRef := ''i1''\<rparr>), 1) = (Inr (), db1, 1) \<and>
    ReconcileOne (boxd_reconciler demo_cfg steady_compute) 5120 [] ''default'' ''b1'' (db1, 1) = (Inr (), db2, 1) \<and>
    ReconcileOne (boxd_reconciler demo_cfg steady_compute) 5121 [] ''default'' ''b1'' (db2, 1) = (Inr (), db3, w3) \<and>
    row (db_boxes db3) ''b1'' = None \<and> w3 = 0"
  using countdown_reaps [where db = "demo_db ((demo_box PhaseRunning)\<lparr>b_Ephemeral := True, b_Grace := 120, b_InstanceRef := ''i1''\<rparr>)"
      and i = "''b1''" and x = "(demo_box PhaseRunning)\<lparr>b_Ephemeral := True, b_Grace := 120, b_InstanceRef := ''i1''\<rparr>"
      and ?t1.0 = 5000 and ?t2.0 = 5120 and ?t3.0 = 5121 and compute = steady_compute and c = demo_cfg and w = 1
      and ?r1.0 = "[]" and ?r2.0 = "[]" and ?r3.0 = "[]"]
  by (simp add: steady_compute_def)

text \<open>C26: suspending an idle box and waking it by an attach is lossless for the instance: after the
  suspend, the owner's attach and the next reconcile, the box runs again on the same instance
  reference and address, attached, and nothing was provisioned.\<close>

theorem suspend_attach_resume:
  assumes "db_wf db" "bd_fault db = None" "row (db_boxes db) i = Some x"
    and x: "b_Phase x = PhaseRunning" "shouldSuspend (boxd_reconciler c compute) t1 x" "b_LastActive x \<noteq> 0"
      "b_TenantID x = engineTenant"
    and sus: "c_Suspender compute = Some susp" "c_Suspend susp (b_InstanceRef x) w = (Inr (), w1)"
      "c_Resume susp (b_InstanceRef x) w1 = (Inr (), w2)"
    and u: "ParseSpec u = Inr spec" "sp_Special spec = []"
      "byOwnerName (boxd_engine c t2) (b_Owner x) (sp_Name spec) db = (Inr x, db)"
  shows "\<exists>db1 db2 db3 b q'.
    ReconcileOne (boxd_reconciler c compute) t1 r1 engineTenant i (db, w) = (Inr (), db1, w1) \<and>
    Attach (boxd_engine c t2) r2 t2 (b_Owner x) u (db1, q) = (Inr b, db2, q') \<and>
    ReconcileOne (boxd_reconciler c compute) t3 r3 engineTenant i (db2, w1) = (Inr (), db3, w2) \<and>
    (\<exists>y. row (db_boxes db3) i = Some y \<and> b_Phase y = PhaseRunning \<and> b_Attached y \<and>
       b_InstanceRef y = b_InstanceRef x \<and> b_IP y = b_IP x)"
proof -
  let ?R = "boxd_reconciler c compute" and ?E = "boxd_engine c t2"
  have st: "r_store ?R t = boxsqlite_store t" "e_store ?E = boxsqlite_store t2" for t by simp_all
  have sp: "c_Suspender (r_compute ?R) = Some susp" using sus by simp
  let ?x1 = "x\<lparr>b_AgentConnected := False, b_Phase := PhaseSuspended, b_Message := ''auto-suspended (idle)'', b_UpdatedAt := t1\<rparr>"
  obtain db1 where 1: "ReconcileOne ?R t1 r1 (b_TenantID x) i (db, w) = (Inr (), db1, w1)" "db_wf db1" "bd_fault db1 = None"
    "row (db_boxes db1) i = Some ?x1" "db_boxes db1 = upd_rows t1 (x\<lparr>b_AgentConnected := False, b_Phase := PhaseSuspended,
       b_Message := ''auto-suspended (idle)''\<rparr>) (db_boxes db)"
    using boxdb.idle_suspends [OF assms(1-3) st(1) x(1,2) sp sus(2), where rnd = r1] by blast
  have id: "b_ID ?x1 = i" using row_SomeD [OF 1(4)] by simp
  have bo: "byOwnerName ?E (b_Owner x) (sp_Name spec) db1 = (Inr ?x1, db1)"
    using boxdb.byOwnerName_after_write [OF assms(1,2) st(2) u(3) 1(2,3) st(2) refl 1(5)]
    by (simp add: overwrite_def)
  obtain b db2 where 2: "Attach ?E r2 t2 (b_Owner x) u (db1, q) = (Inr b, db2, e_wake ?E (b_ID ?x1) (ec_Tenant (e_cfg ?E)) q)"
    "db_wf db2" "bd_fault db2 = None" "row (db_boxes db2) (b_ID ?x1) = Some (?x1\<lparr>b_Attached := True, b_UpdatedAt := t2\<rparr>)"
    using boxdb.Attach_reuses [OF 1(2,3) st(2) u(1,2) bo, where rnd = r2 and q = q] by blast
  let ?x2 = "?x1\<lparr>b_Attached := True, b_UpdatedAt := t2\<rparr>"
  have 4: "row (db_boxes db2) i = Some ?x2" using 2(4) id by simp
  obtain db3 where 3: "ReconcileOne ?R t3 r3 (b_TenantID ?x2) i (db2, w1) = (Inr (), db3, w2)"
    "row (db_boxes db3) i = Some ((started t3 ?x2)\<lparr>b_Phase := PhaseRunning, b_Message := ''resumed (attached)'', b_UpdatedAt := t3\<rparr>)"
    using boxdb.attached_resumes [OF 2(2,3) 4 st(1) _ _ sp, where rnd = r3 and c = w1 and c' = w2] sus(3) by auto
  show ?thesis
    using 1(1) 2(1) 3 x(4) by (intro exI conjI) (assumption | simp add: started_def)+
qed

definition demo_idle :: box where
  "demo_idle = (demo_box PhaseRunning)\<lparr>b_AutoSuspend := True, b_AgentConnected := True, b_InstanceRef := ''i1'',
     b_IP := ''10.0.0.2'', b_LastActive := 1000\<rparr>"

theorem suspend_attach_resume_witness:
  "\<exists>db1 db2 db3 b q'.
    ReconcileOne (boxd_reconciler demo_cfg steady_compute) 5000 [] engineTenant ''b1'' (demo_db demo_idle, 0) = (Inr (), db1, 0) \<and>
    Attach (boxd_engine demo_cfg 6000) [] 6000 ''alice'' ''web'' (db1, []) = (Inr b, db2, q') \<and>
    ReconcileOne (boxd_reconciler demo_cfg steady_compute) 7000 [] engineTenant ''b1'' (db2, 0) = (Inr (), db3, 0) \<and>
    (\<exists>y. row (db_boxes db3) ''b1'' = Some y \<and> b_Phase y = PhaseRunning \<and> b_Attached y \<and>
       b_InstanceRef y = ''i1'' \<and> b_IP y = ''10.0.0.2'')"
proof -
  have ok: "phase_ok (b_Phase demo_idle)" by (simp add: demo_idle_def)
  have f: "b_Owner demo_idle = ''alice''" "b_InstanceRef demo_idle = ''i1''" "b_IP demo_idle = ''10.0.0.2''"
    "b_ID demo_idle = ''b1''" "b_TenantID demo_idle = ''default''" "b_Name demo_idle = ''web''"
    "b_LastActive demo_idle = 1000" "b_Phase demo_idle = PhaseRunning" by (simp_all add: demo_idle_def)
  have sh: "shouldSuspend (boxd_reconciler demo_cfg steady_compute) 5000 demo_idle"
    by (simp add: shouldSuspend_def steady_compute_def demo_idle_def demo_box_def zero_box_def time_After_def IsIdle_def
        EffectiveIdle_def boxd_reconciler_def NewReconciler_def demo_cfg_def zero_idle_def DefaultIdle_def time_defs)
  have sp: "ParseSpec ''web'' = Inr (zero_spec\<lparr>sp_Name := ''web''\<rparr>)" by code_simp
  have bo: "byOwnerName (boxd_engine demo_cfg 6000) (b_Owner demo_idle) (sp_Name (zero_spec\<lparr>sp_Name := ''web''\<rparr>)) (demo_db demo_idle) =
      (Inr demo_idle, demo_db demo_idle)"
    using ok by (simp add: byOwnerName_def boxsqlite_store_def bs_List_rows f engineTenant_def)
  show ?thesis
    using suspend_attach_resume [where db = "demo_db demo_idle" and x = demo_idle and i = "''b1''" and c = demo_cfg and compute = steady_compute
        and ?t1.0 = 5000 and ?t2.0 = 6000 and ?t3.0 = 7000 and w = 0 and ?w1.0 = 0 and ?w2.0 = 0 and ?r1.0 = "[]" and ?r2.0 = "[]" and ?r3.0 = "[]"
        and q = "[]", OF _ _ _ _ sh _ _ _ _ _ sp _ bo] ok
    by (simp add: f steady_compute_def engineTenant_def zero_spec_def)
qed

section \<open>Sessions\<close>

text \<open>C14: an attach never touches another owner's box: its row is the same before and after, whatever
  user name was given and whether or not the attach succeeds; and a successful attach returns a box
  of the caller, marked attached.\<close>

theorem Attach_owner_isolation:
  assumes "db_wf db" "Attach (boxd_engine c now) rnd now owner u (db, q) = (r, db', q')"
  shows "(\<forall>i x. row (db_boxes db) i = Some x \<and> b_Owner x \<noteq> owner \<longrightarrow> row (db_boxes db') i = Some x) \<and>
    (\<forall>b. r = Inr b \<longrightarrow> b_Owner b = owner \<and> b_Attached b)"
proof -
  have e: "e_store (boxd_engine c now) = boxsqlite_store now" by simp
  show ?thesis
    using boxdb.Attach_isolation [OF assms(1) e assms(2)] boxdb.Attach_sound [OF assms(1) e assms(2)] by auto
qed

theorem Attach_owner_isolation_witness:
  "row (db_boxes (fst (snd (Attach (boxd_engine demo_cfg 9000) [] 9000 ''bob'' ''web''
     (demo_db (demo_box PhaseRunning), []))))) ''b1'' = Some (demo_box PhaseRunning)"
  using Attach_owner_isolation [OF _ triple_collapse, where db = "demo_db (demo_box PhaseRunning)" and c = demo_cfg
      and now = 9000 and rnd = "[]" and owner = "''bob''" and u = "''web''" and q = "[]"]
  by simp

text \<open>The session flag is one bit. Two sessions on one box followed by the end of one of them
  leave the box marked detached although a session is still there, so that the next reconcile of an
  ephemeral box starts to count it down.\<close>

theorem one_release_detaches_all:
  assumes "db_wf db" "bd_fault db = None" "row (db_boxes db) i = Some x" "b_TenantID x = engineTenant"
    and u: "ParseSpec u = Inr spec" "sp_Special spec = []"
      "byOwnerName (boxd_engine c t1) (b_Owner x) (sp_Name spec) db = (Inr x, db)"
  shows "\<exists>b1 b2 db1 db2 db3 q1 q2 q3 y.
    Attach (boxd_engine c t1) r1 t1 (b_Owner x) u (db, q) = (Inr b1, db1, q1) \<and>
    Attach (boxd_engine c t1) r2 t1 (b_Owner x) u (db1, q1) = (Inr b2, db2, q2) \<and>
    b_ID b1 = i \<and> b_ID b2 = i \<and>
    releaser (boxd_engine c t2) t2 i (db2, q2) = (db3, q3) \<and>
    row (db_boxes db3) i = Some y \<and> \<not> b_Attached y"
proof -
  let ?E = "boxd_engine c t1"
  have st: "e_store (boxd_engine c t) = boxsqlite_store t" for t by simp
  have id: "b_ID x = i" using row_SomeD [OF assms(3)] by simp
  obtain b1 db1 where 1: "Attach ?E r1 t1 (b_Owner x) u (db, q) = (Inr b1, db1, e_wake ?E (b_ID x) (ec_Tenant (e_cfg ?E)) q)"
    "db_wf db1" "bd_fault db1 = None" "row (db_boxes db1) (b_ID x) = Some (x\<lparr>b_Attached := True, b_UpdatedAt := t1\<rparr>)"
    "same_box (x\<lparr>b_Attached := True\<rparr>) b1" "db_boxes db1 = upd_rows t1 (x\<lparr>b_Attached := True\<rparr>) (db_boxes db)"
    using boxdb.Attach_reuses [OF assms(1,2) st u(1,2) u(3), where rnd = r1 and q = q] by blast
  let ?x1 = "x\<lparr>b_Attached := True, b_UpdatedAt := t1\<rparr>"
  have bo: "byOwnerName ?E (b_Owner x) (sp_Name spec) db1 = (Inr ?x1, db1)"
    using boxdb.byOwnerName_after_write [OF assms(1,2) st u(3) 1(2,3) st refl 1(6)] by (simp add: overwrite_def)
  obtain b2 db2 q2 where 2: "Attach ?E r2 t1 (b_Owner x) u (db1, e_wake ?E (b_ID x) (ec_Tenant (e_cfg ?E)) q) = (Inr b2, db2, q2)"
    "db_wf db2" "bd_fault db2 = None" "row (db_boxes db2) (b_ID ?x1) = Some (?x1\<lparr>b_Attached := True, b_UpdatedAt := t1\<rparr>)"
    "same_box (?x1\<lparr>b_Attached := True\<rparr>) b2"
    using boxdb.Attach_reuses [OF 1(2,3) st u(1,2) bo, where rnd = r2] by blast
  let ?x2 = "?x1\<lparr>b_Attached := True, b_UpdatedAt := t1\<rparr>"
  have r2: "row (db_boxes db2) i = Some ?x2" using 2(4) id by simp
  have ten: "b_TenantID ?x2 = ec_Tenant (e_cfg (boxd_engine c t2))" using assms(4) by simp
  obtain db3 q3 where 3: "releaser (boxd_engine c t2) t2 i (db2, q2) = (db3, q3)"
    "row (db_boxes db3) i = Some (?x2\<lparr>b_Attached := False, b_LastActive := t2, b_UpdatedAt := t2\<rparr>)"
    using boxdb.releaser_detaches [OF 2(2,3) st r2 ten, where q = q2] by blast
  have "b_ID b1 = i" "b_ID b2 = i" using 1(5) 2(5) id by (auto elim: same_boxE)
  with 1(1) 2(1) 3 show ?thesis by (intro exI conjI) (assumption | simp)+
qed

theorem one_release_detaches_all_witness:
  "\<exists>b1 b2 db1 db2 db3 q1 q2 q3 y.
    Attach (boxd_engine demo_cfg 5000) [] 5000 ''alice'' ''web'' (demo_db (demo_box PhaseRunning), []) = (Inr b1, db1, q1) \<and>
    Attach (boxd_engine demo_cfg 5000) [] 5000 ''alice'' ''web'' (db1, q1) = (Inr b2, db2, q2) \<and>
    b_ID b1 = ''b1'' \<and> b_ID b2 = ''b1'' \<and>
    releaser (boxd_engine demo_cfg 6000) 6000 ''b1'' (db2, q2) = (db3, q3) \<and>
    row (db_boxes db3) ''b1'' = Some y \<and> \<not> b_Attached y"
proof -
  have sp: "ParseSpec ''web'' = Inr (zero_spec\<lparr>sp_Name := ''web''\<rparr>)" by code_simp
  have bo: "byOwnerName (boxd_engine demo_cfg 5000) (b_Owner (demo_box PhaseRunning)) (sp_Name (zero_spec\<lparr>sp_Name := ''web''\<rparr>))
      (demo_db (demo_box PhaseRunning)) = (Inr (demo_box PhaseRunning), demo_db (demo_box PhaseRunning))"
    by (simp add: byOwnerName_def boxsqlite_store_def bs_List_rows engineTenant_def)
  show ?thesis
    using one_release_detaches_all [OF _ _ _ _ sp _ bo, where i = "''b1''" and ?t2.0 = 6000 and ?r1.0 = "[]" and ?r2.0 = "[]" and q = "[]"]
    by (simp add: engineTenant_def zero_spec_def)
qed

text \<open>A reconcile that read the box before a session ended writes the whole box back and undoes
  the detach: the row is attached again with no session there.\<close>

theorem reconcile_undoes_release:
  assumes "db_wf db" "bd_fault db = None" "row (db_boxes db) i = Some x" "b_TenantID x = engineTenant"
    and x: "b_Phase x = PhaseProvisioning" "b_AgentConnected x" "b_Attached x"
  shows "\<exists>db1 q1 db2 y.
    ReconcileOne (boxd_reconciler c compute) t1 rnd engineTenant i (db, w) =
      reconcile_box (boxd_reconciler c compute) t1 rnd x (db, w) \<and>
    releaser (boxd_engine c t2) t2 i (db, q) = (db1, q1) \<and>
    reconcile_box (boxd_reconciler c compute) t1 rnd x (db1, w) = (Inr (), db2, w) \<and>
    row (db_boxes db2) i = Some y \<and> b_Attached y"
proof -
  let ?R = "boxd_reconciler c compute"
  have st: "e_store (boxd_engine c t2) = boxsqlite_store t2" "r_store ?R t1 = boxsqlite_store t1" by simp_all
  let ?x1 = "x\<lparr>b_Attached := False, b_LastActive := t2, b_UpdatedAt := t2\<rparr>"
  have ten: "b_TenantID x = ec_Tenant (e_cfg (boxd_engine c t2))" using assms(4) by simp
  obtain db1 q1 where 1: "releaser (boxd_engine c t2) t2 i (db, q) = (db1, q1)" "db_wf db1" "bd_fault db1 = None"
    "row (db_boxes db1) i = Some ?x1"
    using boxdb.releaser_detaches [OF assms(1,2) st(1) assms(3) ten, where q = q] by blast
  let ?b = "(started t1 x)\<lparr>b_Phase := PhaseRunning, b_Message := ''agent connected''\<rparr>"
  have e: "phase_ok (b_Phase ?b)" "persisted True ?b = ?b" "box_identity ?b = box_identity ?x1" "b_CreatedAt ?b = b_CreatedAt ?x1"
    by (simp_all add: started_def box_identity_def persisted_def)
  obtain b' db2 where 2: "sUpdate (boxsqlite_store t1) ?b db1 = (Inr (), b', db2)"
    "row (db_boxes db2) i = Some (?b\<lparr>b_UpdatedAt := t1\<rparr>)"
    using boxdb.up_update_row [OF 1(2,3,4) e, where now = t1] by blast
  have "reconcile_box ?R t1 rnd x (db1, w) = (Inr (), db2, w)"
    using 2(1) x unfolding started_def
    by (simp add: reconcile_box_def setPhase_def CanTransition_def split: if_splits)
  moreover have "b_Attached (?b\<lparr>b_UpdatedAt := t1\<rparr>)" using x by (simp add: started_def)
  ultimately show ?thesis
    using 1(1) 2(2) boxdb.up_read [OF assms(1-3) st(2), of rnd w] assms(4) by metis
qed

theorem reconcile_undoes_release_witness:
  "\<exists>db1 q1 db2 y.
    releaser (boxd_engine demo_cfg 6000) 6000 ''b1''
      (demo_db ((demo_box PhaseProvisioning)\<lparr>b_Attached := True, b_AgentConnected := True\<rparr>), []) = (db1, q1) \<and>
    reconcile_box (boxd_reconciler demo_cfg steady_compute) 5000 []
      ((demo_box PhaseProvisioning)\<lparr>b_Attached := True, b_AgentConnected := True\<rparr>) (db1, 0) = (Inr (), db2, 0) \<and>
    row (db_boxes db2) ''b1'' = Some y \<and> b_Attached y"
  using reconcile_undoes_release [where x = "(demo_box PhaseProvisioning)\<lparr>b_Attached := True, b_AgentConnected := True\<rparr>"
      and i = "''b1''" and db = "demo_db ((demo_box PhaseProvisioning)\<lparr>b_Attached := True, b_AgentConnected := True\<rparr>)"
      and c = demo_cfg and compute = steady_compute and ?t1.0 = 5000 and ?t2.0 = 6000 and rnd = "[]" and w = 0 and q = "[]"]
  by (simp add: engineTenant_def known_phase_ok known_phase_def)

text \<open>At start-up no box of the daemon stays marked attached; nothing else of any box changes but
  the modification time of the boxes that were.\<close>

theorem resetSessions_detaches:
  assumes "db_wf db" "bd_fault db = None"
  shows "row (db_boxes (resetSessions (boxsqlite_store now) db)) i =
    map_option (\<lambda>x. if b_TenantID x = engineTenant \<and> b_Attached x
                  then x\<lparr>b_Attached := False, b_UpdatedAt := now\<rparr> else x) (row (db_boxes db) i)"
  by (rule boxdb.resetSessions_row [OF assms])

theorem resetSessions_detaches_witness:
  "\<exists>y. row (db_boxes (resetSessions (boxsqlite_store 7000) (demo_db ((demo_box PhaseRunning)\<lparr>b_Attached := True\<rparr>)))) ''b1'' = Some y \<and>
     \<not> b_Attached y"
  using resetSessions_detaches [of "demo_db ((demo_box PhaseRunning)\<lparr>b_Attached := True\<rparr>)" 7000 "''b1''"]
  by (simp add: engineTenant_def)



end
