(* ===== verification/Ssh_Front.thy ===== *)
theory Ssh_Front
  imports Boxd Agent_Proto Identity
begin

text \<open>
  The SSH front door (\<^verbatim>\<open>internal/sshfront/server.go\<close>): the routing of an authenticated session
  to a box, the wait for its agent, and the relay of session channels. Cryptography, the SSH
  handshake and the transport are the library's; keys are values of a type \<open>'k\<close> with a
  fingerprint. What the rest of the daemon does while a session waits and runs is a function on
  the state, an argument of \<open>route\<close>.
\<close>

section \<open>Authorities\<close>

definition AnyKey_Authenticate :: "('k \<Rightarrow> string) \<Rightarrow> 'k \<Rightarrow> string result" where
  "AnyKey_Authenticate fp key = Inr (fp key)"

record ('s, 'q, 'k) front_server =
  fs_engine :: "time \<Rightarrow> ('s, 'q) engine"
  fs_authority :: "'k \<Rightarrow> string result"
  fs_images :: "string list option"
  fs_readyTimeout :: duration
  fs_pollInterval :: duration

definition NewFrontServer :: "('k \<Rightarrow> string) \<Rightarrow> (time \<Rightarrow> ('s, 'q) engine) \<Rightarrow> ('k \<Rightarrow> string result) option \<Rightarrow> ('s, 'q, 'k) front_server" where
  "NewFrontServer fp engine authority =
     \<lparr> fs_engine = engine, fs_authority = (case authority of None \<Rightarrow> AnyKey_Authenticate fp | Some a \<Rightarrow> a),
       fs_images = None, fs_readyTimeout = 60 * Second, fs_pollInterval = 200000000 \<rparr>"

definition WithImages :: "string list \<Rightarrow> ('s, 'q, 'k) front_server \<Rightarrow> ('s, 'q, 'k) front_server" where
  "WithImages imgs sv = sv\<lparr>fs_images := Some imgs\<rparr>"

definition crlf :: string where "crlf = [CHR 0x0D, CHR 0x0A]"

definition writeImages :: "('s, 'q, 'k) front_server \<Rightarrow> string \<times> bool" where
  "writeImages sv =
     (case fs_images sv of
        None \<Rightarrow> ([], False)
      | Some [] \<Rightarrow> ([], False)
      | Some imgs \<Rightarrow>
          (''available images (use  ssh <name>:<image>@host):'' @ crlf @ concat (map (\<lambda>img. ''  '' @ img @ crlf) imgs), True))"

section \<open>Waiting for the agent\<close>

text \<open>One check of the box: is its agent connected, and what does the engine say of it.\<close>

record observation =
  ob_connected :: bool
  ob_state :: "phase \<times> string \<times> bool"

definition ready :: "observation \<Rightarrow> bool result" where
  "ready ob =
     (if ob_connected ob then Inr True
      else case ob_state ob of
        (ph, text, ok) \<Rightarrow>
          if ok \<and> ph = PhaseFailed then Inl (Errorf (''box failed to start: '' @ text)) else Inr False)"

datatype wait_event = Tick observation | DeadlineExpired | Cancelled err

text \<open>\<^verbatim>\<open>waitReady\<close> over the events it selects, in their order; None while it is still waiting.
  A duration prints as \<open>show_dur\<close> says.\<close>

fun wait_loop :: "string \<Rightarrow> wait_event list \<Rightarrow> unit result option" where
  "wait_loop timeout_err [] = None"
| "wait_loop timeout_err (Cancelled e # _) = Some (Inl e)"
| "wait_loop timeout_err (DeadlineExpired # _) = Some (Inl (Errorf timeout_err))"
| "wait_loop timeout_err (Tick ob # es) =
     (case ready ob of
        Inl e \<Rightarrow> Some (Inl e)
      | Inr True \<Rightarrow> Some (Inr ())
      | Inr False \<Rightarrow> wait_loop timeout_err es)"

definition waitReady :: "(duration \<Rightarrow> string) \<Rightarrow> ('s, 'q, 'k) front_server \<Rightarrow> string \<Rightarrow> observation \<Rightarrow> wait_event list \<Rightarrow>
    unit result option" where
  "waitReady show_dur sv i first es =
     (case ready first of
        Inl e \<Rightarrow> Some (Inl e)
      | Inr True \<Rightarrow> Some (Inr ())
      | Inr False \<Rightarrow> wait_loop (''workspace '' @ i @ '' not ready within '' @ show_dur (fs_readyTimeout sv)) es)"

section \<open>Routing\<close>

text \<open>How a session ends up: every channel answered with a text and an exit code, or relayed to the box.\<close>

datatype route_outcome = ReplyAll string "32 word" | Proxied string

definition fail_msg :: "err \<Rightarrow> route_outcome" where
  "fail_msg e = ReplyAll (''hopbox: '' @ err_text e @ crlf) 1"

text \<open>\<open>wait\<close> is the outcome of \<^verbatim>\<open>waitReady\<close> and \<open>dial\<close> that of \<^verbatim>\<open>dialAgentSSH\<close> on the id of the attached
  box; \<open>meanwhile\<close> is what others do to the state between the attach and the deferred release, at
  the instant \<open>fin\<close>.\<close>

definition route :: "('s, 'q, 'k) front_server \<Rightarrow> 8 word list \<Rightarrow> time \<Rightarrow> time \<Rightarrow> (string \<Rightarrow> unit result) \<Rightarrow> (string \<Rightarrow> unit result) \<Rightarrow>
    ('s \<times> 'q \<Rightarrow> 's \<times> 'q) \<Rightarrow> string \<Rightarrow> string \<Rightarrow> 's \<times> 'q \<Rightarrow> route_outcome \<times> 's \<times> 'q" where
  "route sv rnd now fin wait dial meanwhile who username sq =
     (let perr = ParseSpec username;
          cat = (case fs_images sv of None \<Rightarrow> [] | Some l \<Rightarrow> l)
      in if (case perr of Inl _ \<Rightarrow> False | Inr spec \<Rightarrow> sp_Name spec = ''images'' \<or> sp_Name spec = ''image'') \<and> cat \<noteq> []
         then (ReplyAll (fst (writeImages sv)) 0, sq)
         else if (case perr of Inl _ \<Rightarrow> False | Inr spec \<Rightarrow> sp_Image spec \<noteq> [] \<and> cat \<noteq> [] \<and> sp_Image spec \<notin> set cat)
         then (ReplyAll (''unknown image '' @ quoted (case perr of Inr spec \<Rightarrow> sp_Image spec | Inl _ \<Rightarrow> []) @
                 '' '' @ [CHR 0xE2, CHR 0x80, CHR 0x94] @ '' run  ssh images@host  to list the catalog'' @ crlf) 1, sq)
         else case Attach (fs_engine sv now) rnd now who username sq of
                (Inl e, s', q') \<Rightarrow> (fail_msg e, s', q')
              | (Inr b, s', q') \<Rightarrow>
                  (let outcome = (case wait (b_ID b) of
                         Inl e \<Rightarrow> fail_msg e
                       | Inr _ \<Rightarrow> (case dial (b_ID b) of
                             Inl e \<Rightarrow> fail_msg (Wrapf ''connect to box: '' e)
                           | Inr _ \<Rightarrow> Proxied (b_ID b)))
                   in (outcome, releaser (fs_engine sv fin) fin (b_ID b) (meanwhile (s', q')))))"

text \<open>The connection: the authority names the principal of the key that authenticated; the last call of
  the key callback is the one for that key.\<close>

fun auth_keys :: "('s, 'q, 'k) front_server \<Rightarrow> 'k list \<Rightarrow> string \<Rightarrow> string" where
  "auth_keys sv [] p = p"
| "auth_keys sv (k # ks) p = (case fs_authority sv k of Inl _ \<Rightarrow> auth_keys sv ks p | Inr p' \<Rightarrow> auth_keys sv ks p')"

definition handleConn :: "('s, 'q, 'k) front_server \<Rightarrow> 'k list \<Rightarrow> string result \<Rightarrow>
    (string \<Rightarrow> string \<Rightarrow> 's \<times> 'q \<Rightarrow> route_outcome \<times> 's \<times> 'q) \<Rightarrow> 's \<times> 'q \<Rightarrow> route_outcome option \<times> 's \<times> 'q" where
  "handleConn sv offered handshake rt sq =
     (case handshake of
        Inl _ \<Rightarrow> (None, sq)
      | Inr username \<Rightarrow> (let (oc, sq') = rt (auth_keys sv offered []) username sq in (Some oc, sq')))"

section \<open>Channels\<close>

record ssh_request =
  sr_Type :: string
  sr_WantReply :: bool
  sr_Payload :: bytes

text \<open>What a channel's handler does, in order: answers to requests, data, requests of its own, the close.\<close>

datatype chan_action = Reject string | Reply bool | WriteText string | SendRequest string bytes | CloseChan

fun reply_requests :: "string option \<Rightarrow> 32 word \<Rightarrow> ssh_request list \<Rightarrow> chan_action list" where
  "reply_requests write code [] = [CloseChan]"
| "reply_requests write code (r # rs) =
     (if sr_Type r = ''shell'' \<or> sr_Type r = ''exec'' \<or> sr_Type r = ''subsystem''
      then [Reply True] @ (case write of None \<Rightarrow> [] | Some t \<Rightarrow> [WriteText t]) @
             [SendRequest ''exit-status'' (PutUint32 (unat code)), CloseChan]
      else Reply (sr_Type r = ''pty-req'' \<or> sr_Type r = ''env'' \<or> sr_Type r = ''window-change'') # reply_requests write code rs)"

definition replySession :: "string \<Rightarrow> bool \<Rightarrow> string option \<Rightarrow> 32 word \<Rightarrow> ssh_request list \<Rightarrow> chan_action list" where
  "replySession channelType accepted write code reqs =
     (if channelType \<noteq> ''session'' then [Reject ''only session channels are supported'']
      else if \<not> accepted then [] else reply_requests write code reqs)"

text \<open>\<^verbatim>\<open>forwardRequests\<close>: each request is sent on, and answered with what the other side answered.\<close>

fun forwardRequests :: "(ssh_request \<Rightarrow> bool) \<Rightarrow> ssh_request list \<Rightarrow> (ssh_request \<times> bool option) list" where
  "forwardRequests answer [] = []"
| "forwardRequests answer (r # rs) =
     (r, if sr_WantReply r then Some (answer r) else None) # forwardRequests answer rs"

datatype proxy_outcome = ProxyRejected string | ProxyDropped | ProxyRelayed

definition proxyChannel :: "string \<Rightarrow> unit result \<Rightarrow> unit result \<Rightarrow> proxy_outcome" where
  "proxyChannel channelType upOpen accepted =
     (if channelType \<noteq> ''session'' then ProxyRejected ''only session channels are supported''
      else case upOpen of
             Inl e \<Rightarrow> ProxyRejected (''box session: '' @ err_text e)
           | Inr _ \<Rightarrow> (case accepted of Inl _ \<Rightarrow> ProxyDropped | Inr _ \<Rightarrow> ProxyRelayed))"

section \<open>Properties\<close>

definition boxd_front :: "('k \<Rightarrow> string) \<Rightarrow> boxd_cfg \<Rightarrow> ('k \<Rightarrow> string result) option \<Rightarrow> string list option \<Rightarrow>
    (boxes_db, reconcile_req list, 'k) front_server" where
  "boxd_front fp c authority imgs =
     (let sv = NewFrontServer fp (boxd_engine c) authority
      in case imgs of None \<Rightarrow> sv | Some l \<Rightarrow> WithImages l sv)"

lemma boxd_front_simps [simp]:
  "fs_engine (boxd_front fp c authority imgs) = boxd_engine c" "fs_images (boxd_front fp c authority imgs) = imgs"
  by (simp_all add: boxd_front_def NewFrontServer_def WithImages_def Let_def split: option.splits)



text \<open>Listing the catalog and asking for an image that is not in it spawn nothing: with a catalog, a
  user name whose box is called \<open>images\<close> is answered with the list and exit code 0, one with an
  unknown image with exit code 1, and the boxes and the wake queue are untouched.\<close>

theorem catalog_spawns_nothing:
  assumes "ParseSpec username = Inr spec" "imgs \<noteq> []"
    and "sp_Name spec = ''images'' \<or> sp_Image spec \<noteq> [] \<and> sp_Image spec \<notin> set imgs"
  shows "\<exists>text. route (boxd_front fp c authority (Some imgs)) rnd now fin wait dial meanwhile who username sq =
    (ReplyAll text (if sp_Name spec \<in> {''images'', ''image''} then 0 else 1), sq)"
  using assms by (auto simp: route_def Let_def)

theorem catalog_spawns_nothing_witness:
  "\<exists>text. route (boxd_front (\<lambda>k. k) demo_cfg None (Some [''alpine''])) [] 5000 6000 (\<lambda>_. Inr ()) (\<lambda>_. Inr ()) (\<lambda>x. x) ''bob'' ''web:mint''
     (demo_db (demo_box PhaseRunning), []) = (ReplyAll text 1, demo_db (demo_box PhaseRunning), [])"
proof -
  have p: "ParseSpec ''web:mint'' = Inr (zero_spec\<lparr>sp_Name := ''web'', sp_Image := ''mint''\<rparr>)" by code_simp
  from catalog_spawns_nothing [OF p, of "[''alpine'']"] show ?thesis by (simp add: zero_spec_def)
qed

text \<open>Waiting for a box ends. The wait returns as soon as a check finds the agent connected, stops
  with the failure's message at the first check that finds the box failed, and returns in any case
  once the deadline fires; it succeeds only if some check found the agent connected before that.\<close>

theorem wait_ends:
  assumes "DeadlineExpired \<in> set es"
  shows "\<exists>r. waitReady show_dur sv i ob es = Some r \<and>
    (r = Inr () \<longrightarrow> (\<exists>x \<in> insert ob {x. Tick x \<in> set (takeWhile (\<lambda>e. e \<noteq> DeadlineExpired) es)}. ob_connected x))"
proof -
  have "\<exists>r. wait_loop m es = Some r \<and>
      (r = Inr () \<longrightarrow> (\<exists>x. Tick x \<in> set (takeWhile (\<lambda>e. e \<noteq> DeadlineExpired) es) \<and> ob_connected x))" for m
    using assms
  proof (induction es)
    case (Cons e es)
    show ?case
    proof (cases e)
      case (Tick x)
      with Cons show ?thesis by (auto simp: ready_def split: sum.splits bool.splits prod.splits if_splits)
    qed auto
  qed simp
  then show ?thesis by (auto simp: waitReady_def ready_def split: sum.splits bool.splits prod.splits if_splits)
qed

theorem wait_ends_witness:
  "\<exists>r. waitReady (\<lambda>_. ''1m0s'') (boxd_front (\<lambda>k. k) demo_cfg None None) ''b1''
     \<lparr> ob_connected = False, ob_state = (PhasePending, [], True) \<rparr>
     [Tick \<lparr> ob_connected = False, ob_state = (PhaseProvisioning, [], True) \<rparr>, DeadlineExpired] = Some r"
proof -
  let ?es = "[Tick \<lparr> ob_connected = False, ob_state = (PhaseProvisioning, [], True) \<rparr>, DeadlineExpired]"
  have "DeadlineExpired \<in> set ?es" by simp
  from wait_ends [OF this] show ?thesis by blast
qed

end
