(* ===== verification/Box_Meta.thy ===== *)
theory Box_Meta
  imports Boxd Agent_Proto
begin

text \<open>
  The box metadata API (\<^verbatim>\<open>internal/core/boxmeta/boxmeta.go\<close>): a box is identified by the
  source address of its request, reads a document about itself, and tunes its own lifecycle. The
  server is a record of the resolver and the write seam over the state \<open>'s\<close> of the store. The
  decoders of the JSON bodies are parameters (a record of functions on the bytes of the body),
  the clock is an argument, a request path is already clean. The properties are about the server
  over the write seam of boxd and the box database.
\<close>

section \<open>Requests and responses\<close>

record http_request =
  rq_Method :: string
  rq_Path :: string
  rq_RemoteAddr :: string
  rq_ContentLength :: int
  rq_Body :: bytes

record meta =
  mt_Name :: string
  mt_Owner :: string
  mt_Image :: string
  mt_IP :: string
  mt_Phase :: string
  mt_Ephemeral :: bool
  mt_MemMB :: int
  mt_CPUMillis :: int
  mt_Load :: rat
  mt_Idle :: bool
  mt_LastActive :: int
  mt_AutoSuspend :: bool
  mt_KeepAliveUntil :: int
  mt_IdleTimeoutSec :: int
  mt_AgentState :: string
  mt_AgentStatus :: string
  mt_StartedAt :: int
  mt_ServerTimeNS :: string

datatype meta_response = MetaError nat string | MetaDoc meta | MetaTime int string | MetaNoContent

record meta_decoders =
  dec_load :: "bytes \<Rightarrow> rat result"
  dec_duration :: "bytes \<Rightarrow> string result"
  dec_enabled :: "bytes \<Rightarrow> bool result"
  dec_timeout :: "bytes \<Rightarrow> string result"
  dec_status :: "bytes \<Rightarrow> (string \<times> string) result"

section \<open>The server\<close>

record 's meta_server =
  ms_resolve :: "string \<Rightarrow> 's \<Rightarrow> box result \<times> 's"
  ms_mutate :: "(string \<Rightarrow> (box \<Rightarrow> box) \<Rightarrow> 's \<Rightarrow> unit result \<times> 's) option"
  ms_idleCfg :: idle_config

definition meta_New :: "(string \<Rightarrow> 's \<Rightarrow> box result \<times> 's) \<Rightarrow>
    (string \<Rightarrow> (box \<Rightarrow> box) \<Rightarrow> 's \<Rightarrow> unit result \<times> 's) option \<Rightarrow> idle_config \<Rightarrow> 's meta_server" where
  "meta_New resolve mutate idle = \<lparr> ms_resolve = resolve, ms_mutate = mutate,
     ms_idleCfg = (if idle = \<lparr> ic_Timeout = 0, ic_LoadThreshold = 0 \<rparr> then DefaultIdle else idle) \<rparr>"

definition nsString :: "time \<Rightarrow> string" where
  "nsString t = show_int (time_Unix t) @ ''.'' @ nano_digits (time_Nanosecond t)"

definition unix :: "time \<Rightarrow> int" where
  "unix t = (if IsZero t then 0 else time_Unix t)"

text \<open>\<^verbatim>\<open>int64(d.Seconds())\<close>: the seconds as a double, cut to an integer.\<close>

definition seconds_int64 :: "duration \<Rightarrow> int" where
  "seconds_int64 d = sgn d *
     \<lfloor>float64 (float64 (of_int (\<bar>d\<bar> div Second)) + float64 (float64 (of_int (\<bar>d\<bar> mod Second)) / 1000000000))\<rfloor>"

definition source_ip :: "http_request \<Rightarrow> string" where
  "source_ip r = (case SplitHostPort (rq_RemoteAddr r) of Some (ip, _) \<Rightarrow> ip | None \<Rightarrow> rq_RemoteAddr r)"

definition boxOf :: "'s meta_server \<Rightarrow> http_request \<Rightarrow> 's \<Rightarrow> box result \<times> 's" where
  "boxOf sv r s = ms_resolve sv (source_ip r) s"

definition unknown_box :: "http_request \<Rightarrow> meta_response" where
  "unknown_box r = MetaError 404 (''unknown box for source '' @ rq_RemoteAddr r)"

definition me :: "'s meta_server \<Rightarrow> time \<Rightarrow> http_request \<Rightarrow> 's \<Rightarrow> meta_response \<times> 's" where
  "me sv now r s =
     (case boxOf sv r s of
        (Inl _, s') \<Rightarrow> (unknown_box r, s')
      | (Inr b, s') \<Rightarrow>
          (let idle = EffectiveIdle b (ms_idleCfg sv) in
           (MetaDoc \<lparr> mt_Name = b_Name b, mt_Owner = b_Owner b, mt_Image = b_ImageRef b, mt_IP = b_IP b,
              mt_Phase = phase_text (b_Phase b), mt_Ephemeral = b_Ephemeral b, mt_MemMB = b_MemMB b,
              mt_CPUMillis = b_CPUMillis b, mt_Load = b_Load b, mt_Idle = IsIdle b now idle,
              mt_LastActive = unix (b_LastActive b), mt_AutoSuspend = b_AutoSuspend b,
              mt_KeepAliveUntil = unix (b_KeepAliveUntil b), mt_IdleTimeoutSec = seconds_int64 (ic_Timeout idle),
              mt_AgentState = b_AgentState b, mt_AgentStatus = b_AgentStatus b,
              mt_StartedAt = time_Unix (b_CreatedAt b), mt_ServerTimeNS = nsString now \<rparr>, s')))"

definition server_time :: "time \<Rightarrow> meta_response" where
  "server_time now = MetaTime (time_Unix now) (nsString now)"

text \<open>\<^verbatim>\<open>apply\<close>: decode the body (the zero value when there is none; the decoder sees the first
  1024 bytes), then change the calling box.\<close>

definition apply_req :: "'s meta_server \<Rightarrow> (bytes \<Rightarrow> 't result) \<Rightarrow> 't \<Rightarrow> http_request \<Rightarrow> (box \<Rightarrow> 't \<Rightarrow> box) \<Rightarrow>
    's \<Rightarrow> meta_response \<times> 's" where
  "apply_req sv dec zero r fn s =
     (case (if rq_ContentLength r \<noteq> 0 then dec (take 1024 (rq_Body r)) else Inr zero) of
        Inl _ \<Rightarrow> (MetaError 400 ''bad request body'', s)
      | Inr req \<Rightarrow>
          (case ms_mutate sv of
             None \<Rightarrow> (MetaNoContent, s)
           | Some mutate \<Rightarrow>
               (case mutate (source_ip r) (\<lambda>b. fn b req) s of
                  (Inl _, s') \<Rightarrow> (unknown_box r, s')
                | (Inr _, s') \<Rightarrow> (MetaNoContent, s'))))"

definition meta_heartbeat :: "'s meta_server \<Rightarrow> meta_decoders \<Rightarrow> time \<Rightarrow> http_request \<Rightarrow> 's \<Rightarrow> meta_response \<times> 's" where
  "meta_heartbeat sv D now r = apply_req sv (dec_load D) 0 r (\<lambda>b load. RecordHeartbeat load now (ms_idleCfg sv) b)"

definition keep_alive_for :: "string \<Rightarrow> duration" where
  "keep_alive_for req =
     (if req \<noteq> [] then (case ParseDuration req of Inr p \<Rightarrow> p | Inl _ \<Rightarrow> 5 * Minute) else 5 * Minute)"

definition keepAlive :: "'s meta_server \<Rightarrow> meta_decoders \<Rightarrow> time \<Rightarrow> http_request \<Rightarrow> 's \<Rightarrow> meta_response \<times> 's" where
  "keepAlive sv D now r =
     apply_req sv (dec_duration D) [] r (\<lambda>b req. b\<lparr>b_KeepAliveUntil := time_Add now (keep_alive_for req)\<rparr>)"

definition autoSuspend :: "'s meta_server \<Rightarrow> meta_decoders \<Rightarrow> http_request \<Rightarrow> 's \<Rightarrow> meta_response \<times> 's" where
  "autoSuspend sv D r = apply_req sv (dec_enabled D) False r (\<lambda>b req. b\<lparr>b_AutoSuspend := req\<rparr>)"

definition set_idle :: "box \<Rightarrow> string \<Rightarrow> box" where
  "set_idle b req =
     (if req = [] then b\<lparr>b_IdleTimeoutOverride := 0\<rparr>
      else case ParseDuration req of Inr d \<Rightarrow> b\<lparr>b_IdleTimeoutOverride := d\<rparr> | Inl _ \<Rightarrow> b)"

definition meta_idle :: "'s meta_server \<Rightarrow> meta_decoders \<Rightarrow> http_request \<Rightarrow> 's \<Rightarrow> meta_response \<times> 's" where
  "meta_idle sv D r = apply_req sv (dec_timeout D) [] r set_idle"

definition meta_status :: "'s meta_server \<Rightarrow> meta_decoders \<Rightarrow> http_request \<Rightarrow> 's \<Rightarrow> meta_response \<times> 's" where
  "meta_status sv D r = apply_req sv (dec_status D) ([], []) r
     (\<lambda>b (st, text). b\<lparr>b_AgentState := st, b_AgentStatus := text\<rparr>)"

text \<open>The routes. A GET pattern also serves HEAD; a known path with another method is refused.\<close>

definition meta_Handler :: "'s meta_server \<Rightarrow> meta_decoders \<Rightarrow> time \<Rightarrow> http_request \<Rightarrow> 's \<Rightarrow> meta_response \<times> 's" where
  "meta_Handler sv D now r s =
     (let m = rq_Method r; p = rq_Path r; get = (m = ''GET'' \<or> m = ''HEAD''); post = (m = ''POST'') in
      if get \<and> p = ''/v1/me'' then me sv now r s
      else if get \<and> p = ''/v1/me/time'' then (server_time now, s)
      else if post \<and> p = ''/v1/me/heartbeat'' then meta_heartbeat sv D now r s
      else if post \<and> p = ''/v1/me/keep-alive'' then keepAlive sv D now r s
      else if post \<and> p = ''/v1/me/auto-suspend'' then autoSuspend sv D r s
      else if post \<and> p = ''/v1/me/idle'' then meta_idle sv D r s
      else if post \<and> p = ''/v1/me/status'' then meta_status sv D r s
      else if p \<in> {''/v1/me'', ''/v1/me/time'', ''/v1/me/heartbeat'', ''/v1/me/keep-alive'',
            ''/v1/me/auto-suspend'', ''/v1/me/idle'', ''/v1/me/status''}
      then (MetaError 405 ''Method Not Allowed'', s)
      else (MetaError 404 ''404 page not found'', s))"

section \<open>The server of boxd\<close>

definition boxd_meta :: "boxd_cfg \<Rightarrow> time \<Rightarrow> boxes_db meta_server" where
  "boxd_meta c now = meta_New bs_GetByIP (Some (boxd_mutate now))
     \<lparr> ic_Timeout = bc_idleTimeout c, ic_LoadThreshold = ic_LoadThreshold DefaultIdle \<rparr>"

text \<open>A box without the fields it may change of itself, and a change of those alone.\<close>

definition untuned :: "box \<Rightarrow> box" where
  "untuned b = b\<lparr> b_Load := 0, b_LastActive := 0, b_KeepAliveUntil := 0, b_AutoSuspend := False,
     b_IdleTimeoutOverride := 0, b_AgentState := [], b_AgentStatus := [], b_UpdatedAt := 0 \<rparr>"

definition tuned :: "box \<Rightarrow> box \<Rightarrow> bool" where
  "tuned x y \<longleftrightarrow> untuned y = untuned x"

lemma tuned_fields:
  "tuned b (RecordHeartbeat load now cfg b)" "tuned b (b\<lparr>b_KeepAliveUntil := t\<rparr>)" "tuned b (b\<lparr>b_AutoSuspend := e\<rparr>)"
  "tuned b (set_idle b req)" "tuned b (b\<lparr>b_AgentState := st, b_AgentStatus := text\<rparr>)"
  by (simp_all add: tuned_def untuned_def RecordHeartbeat_def set_idle_def Let_def split: sum.split)

lemma tuned_same:
  assumes "tuned x y"
  shows "b_ID y = b_ID x" "b_Phase y = b_Phase x" "b_TenantID y = b_TenantID x" "b_Owner y = b_Owner x"
    "b_Name y = b_Name x" "b_IP y = b_IP x" "b_CreatedAt y = b_CreatedAt x" "b_Attached y = b_Attached x"
  using assms by (cases x, cases y, simp add: tuned_def untuned_def)+

lemma untuned_overwrite:
  "untuned (overwrite now x y) = (untuned y)\<lparr> b_ID := b_ID x, b_TenantID := b_TenantID x, b_Owner := b_Owner x,
     b_Name := b_Name x, b_CreatedAt := b_CreatedAt x \<rparr>"
  by (simp add: untuned_def overwrite_def)

lemma tuned_overwrite: "tuned x y \<Longrightarrow> tuned x (overwrite now x y)"
  by (simp add: tuned_def untuned_overwrite) (simp add: untuned_def)

text \<open>The row a resolution returns holds the address, and no row with that address has a later stamp.\<close>

lemma bs_GetByIP_cases:
  assumes "db_wf db" "bs_GetByIP ip db = (rb, db')"
  shows "db' = db \<and> (\<forall>b. rb = Inr b \<longrightarrow> ip \<noteq> [] \<and> bd_fault db = None \<and> b \<in> set (db_boxes db) \<and> b_IP b = ip)"
proof (cases "ip = [] \<or> bd_fault db \<noteq> None \<or> filter (\<lambda>r. rw_ip r = ip) (bd_rows db) = []")
  case True
  with assms(2) show ?thesis by (auto simp: bs_GetByIP_def Box_Sqlite.one_def split: option.splits if_splits)
next
  case False
  then obtain r where r: "first_desc (\<lambda>r. stamp_key (rw_updated_at r)) (filter (\<lambda>r. rw_ip r = ip) (bd_rows db)) = Some r"
    by (metis first_desc_None not_None_eq)
  then have m: "r \<in> set (bd_rows db)" "rw_ip r = ip" using first_desc_max by fastforce+
  with assms False r db_wf_scan [OF assms(1) m(1)] db_wf_columns(5) [OF assms(1) m(1)] show ?thesis
    by (auto simp: bs_GetByIP_def Box_Sqlite.one_def db_boxes_scanned)
qed

text \<open>The write seam of boxd with a change that only tunes.\<close>

lemma boxd_mutate_tunes:
  assumes "db_wf db" "\<And>b. tuned b (fn b)" "boxd_mutate now ip fn db = (res, db')"
  shows "db_wf db' \<and> bd_fault db' = bd_fault db \<and> (\<forall>i. row (db_boxes db') i \<noteq> row (db_boxes db) i \<longrightarrow>
      (\<exists>x y. row (db_boxes db) i = Some x \<and> b_IP x = ip \<and> row (db_boxes db') i = Some y \<and> tuned x y)) \<and>
    (is_ok res \<longrightarrow> (\<exists>x. row (db_boxes db) (b_ID x) = Some x \<and> b_IP x = ip \<and>
      row (db_boxes db') (b_ID x) = Some (overwrite now x (fn x))))"
proof -
  obtain rb db1 where g: "bs_GetByIP ip db = (rb, db1)" by fastforce
  note c = bs_GetByIP_cases [OF assms(1) g]
  show ?thesis
  proof (cases rb)
    case (Inl e)
    with assms(1,3) g c show ?thesis by (auto simp: boxd_mutate_def)
  next
    case (Inr b)
    with c have b: "b \<in> set (db_boxes db)" "b_IP b = ip" "db1 = db" "bd_fault db = None" by auto
    have "distinct (map b_ID (db_boxes db))" using assms(1) by (rule boxdb.wf_ids)
    with b have rb: "row (db_boxes db) (b_ID b) = Some b" by (simp add: row_Some_iff)
    obtain r b' db2 where u: "bs_Update now (fn b) db = (r, b', db2)" by (metis prod_cases3)
    have "phase_ok (b_Phase (fn b))"
      using boxdb.wf_row [OF assms(1) b(1)] tuned_same(2) [OF assms(2)] by simp
    from bs_Update_rows [OF assms(1) this u] b
    have "db_wf db2 \<and> bd_fault db2 = bd_fault db \<and> is_ok r \<and> db_boxes db2 = upd_rows now (fn b) (db_boxes db)" by auto
    moreover have "res = r" "db' = db2" using assms(3) g Inr b(3) u by (simp_all add: boxd_mutate_def)
    ultimately show ?thesis
      using rb b tuned_same(1) [OF assms(2), of b] tuned_overwrite [OF assms(2)]
      by (auto simp: row_upd_rows)
  qed
qed

lemma apply_req_mutate:
  assumes "apply_req (boxd_meta c t) dec zero r fn db = (resp, db')"
  shows "db' = db \<and> resp = MetaError 400 ''bad request body'' \<or>
    (\<exists>req res. boxd_mutate t (source_ip r) (\<lambda>b. fn b req) db = (res, db') \<and>
       (rq_ContentLength r = 0 \<and> req = zero \<or> rq_ContentLength r \<noteq> 0 \<and> dec (take 1024 (rq_Body r)) = Inr req) \<and>
       resp = (if is_ok res then MetaNoContent else unknown_box r))"
proof (cases "if rq_ContentLength r \<noteq> 0 then dec (take 1024 (rq_Body r)) else Inr zero")
  case (Inl e)
  with assms show ?thesis by (simp add: apply_req_def)
next
  case (Inr req)
  obtain res db1 where m: "boxd_mutate t (source_ip r) (\<lambda>b. fn b req) db = (res, db1)" by fastforce
  from assms have "db' = db1 \<and> resp = (if is_ok res then MetaNoContent else unknown_box r)"
    unfolding apply_req_def Inr by (simp add: boxd_meta_def meta_New_def m split: sum.splits)
  moreover from Inr have "rq_ContentLength r = 0 \<and> req = zero \<or> rq_ContentLength r \<noteq> 0 \<and> dec (take 1024 (rq_Body r)) = Inr req"
    by (auto split: if_splits)
  ultimately show ?thesis using m by blast
qed

text \<open>Only the boxes at an address changed, and of those only what a box may tune.\<close>

definition caller_only :: "string \<Rightarrow> boxes_db \<Rightarrow> boxes_db \<Rightarrow> bool" where
  "caller_only ip db db' \<longleftrightarrow> (\<forall>i. row (db_boxes db') i \<noteq> row (db_boxes db) i \<longrightarrow>
     (\<exists>x y. row (db_boxes db) i = Some x \<and> b_IP x = ip \<and> row (db_boxes db') i = Some y \<and> tuned x y))"

lemma apply_req_isolated:
  assumes "apply_req (boxd_meta c t) dec zero r fn db = (resp, db')" "db_wf db" "\<And>b req. tuned b (fn b req)"
  shows "db_wf db' \<and> caller_only (source_ip r) db db'"
  using apply_req_mutate [OF assms(1)]
proof
  assume "\<exists>req res. boxd_mutate t (source_ip r) (\<lambda>b. fn b req) db = (res, db') \<and>
     (rq_ContentLength r = 0 \<and> req = zero \<or> rq_ContentLength r \<noteq> 0 \<and> dec (take 1024 (rq_Body r)) = Inr req) \<and>
     resp = (if is_ok res then MetaNoContent else unknown_box r)"
  then obtain req res where "boxd_mutate t (source_ip r) (\<lambda>b. fn b req) db = (res, db')" by blast
  from boxd_mutate_tunes [OF assms(2) _ this] assms(3) show ?thesis unfolding caller_only_def by blast
qed (use assms(2) in \<open>simp add: caller_only_def\<close>)

lemma me_reads:
  assumes "me (boxd_meta c t) now r db = (resp, db')" "db_wf db"
  shows "db' = db"
proof -
  obtain rb db1 where g: "bs_GetByIP (source_ip r) db = (rb, db1)" by fastforce
  from assms(1) have "db' = db1"
    by (simp add: me_def boxOf_def boxd_meta_def meta_New_def g Let_def split: sum.splits)
  with bs_GetByIP_cases [OF assms(2) g] show ?thesis by simp
qed

section \<open>Properties\<close>

text \<open>C25: a request to the metadata API changes no box but one whose address it comes from, and of
  that one only the fields a box may tune: its load and activity, its keep-alive, its auto-suspend
  switch, its idle timeout and its status line; never its owner, phase, instance, token, session,
  tier or deadline. No box is created or removed, whatever the request and its body.\<close>

theorem metadata_isolation:
  assumes "db_wf db" "meta_Handler (boxd_meta c t) D now r db = (resp, db')"
  shows "db_wf db' \<and> (\<forall>i. row (db_boxes db') i \<noteq> row (db_boxes db) i \<longrightarrow>
    (\<exists>x y. row (db_boxes db) i = Some x \<and> b_IP x = source_ip r \<and> row (db_boxes db') i = Some y \<and> tuned x y))"
proof (cases "db' = db")
  case False
  note iso = apply_req_isolated [OF _ assms(1), unfolded caller_only_def]
  from False assms(2) me_reads [OF _ assms(1)] consider
      "meta_heartbeat (boxd_meta c t) D now r db = (resp, db')" | "keepAlive (boxd_meta c t) D now r db = (resp, db')"
    | "autoSuspend (boxd_meta c t) D r db = (resp, db')" | "meta_idle (boxd_meta c t) D r db = (resp, db')"
    | "meta_status (boxd_meta c t) D r db = (resp, db')"
    by (auto simp: meta_Handler_def Let_def split: if_splits)
  then show ?thesis
  proof cases
    case 1
    then show ?thesis unfolding meta_heartbeat_def by (rule iso) (rule tuned_fields)
  next
    case 2
    then show ?thesis unfolding keepAlive_def by (rule iso) (rule tuned_fields)
  next
    case 3
    then show ?thesis unfolding autoSuspend_def by (rule iso) (rule tuned_fields)
  next
    case 4
    then show ?thesis unfolding meta_idle_def by (rule iso) (rule tuned_fields)
  next
    case 5
    then show ?thesis unfolding meta_status_def by (rule iso) (simp add: tuned_fields split: prod.split)
  qed
qed (use assms(1) in simp)

definition demo_request :: "string \<Rightarrow> string \<Rightarrow> http_request" where
  "demo_request path addr = \<lparr> rq_Method = ''POST'', rq_Path = path, rq_RemoteAddr = addr, rq_ContentLength = 2, rq_Body = [1, 2] \<rparr>"

definition demo_decoders :: meta_decoders where
  "demo_decoders = \<lparr> dec_load = (\<lambda>_. Inr 1), dec_duration = (\<lambda>_. Inr ''10m''), dec_enabled = (\<lambda>_. Inr True),
     dec_timeout = (\<lambda>_. Inr ''1h''), dec_status = (\<lambda>_. Inr (''busy'', ''building'')) \<rparr>"

definition demo_two :: boxes_db where
  "demo_two = \<lparr> bd_rows = [insert_row ((demo_box PhaseRunning)\<lparr>b_IP := ''10.0.0.2''\<rparr>),
       insert_row ((demo_box PhaseRunning)\<lparr>b_ID := ''b2'', b_Name := ''db'', b_IP := ''10.0.0.3''\<rparr>)],
     bd_fault = None, bd_conflict = Errorf ''UNIQUE constraint failed'' \<rparr>"

lemma insert_row_columns [simp]:
  "rw_ip (insert_row b) = b_IP b" "rw_id (insert_row b) = b_ID b" "rw_updated_at (insert_row b) = Stamp (b_UpdatedAt b)"
  by (simp_all add: insert_row_def Format_ts_def)

lemma demo_two_simps [simp]:
  "db_wf demo_two" "bd_fault demo_two = None"
  "db_boxes demo_two = [(demo_box PhaseRunning)\<lparr>b_IP := ''10.0.0.2''\<rparr>,
     (demo_box PhaseRunning)\<lparr>b_ID := ''b2'', b_Name := ''db'', b_IP := ''10.0.0.3''\<rparr>]"
  by (simp_all add: demo_two_def db_wf_def db_boxes_def scan_insert_row)

theorem metadata_isolation_witness:
  "\<exists>resp db'. meta_Handler (boxd_meta demo_cfg 5000) demo_decoders 5000 (demo_request ''/v1/me/status'' ''10.0.0.2:4711'') demo_two = (resp, db') \<and>
     db_wf db' \<and> row (db_boxes db') ''b2'' = row (db_boxes demo_two) ''b2''"
proof -
  let ?r = "demo_request ''/v1/me/status'' ''10.0.0.2:4711''"
  let ?h = "meta_Handler (boxd_meta demo_cfg 5000) demo_decoders 5000 ?r demo_two"
  have w: "db_wf demo_two" by simp
  have h: "?h = (fst ?h, snd ?h)" by simp
  have ip: "source_ip ?r = ''10.0.0.2''" by code_simp
  have "row (db_boxes (snd ?h)) ''b2'' = row (db_boxes demo_two) ''b2''"
  proof (rule ccontr)
    assume "row (db_boxes (snd ?h)) ''b2'' \<noteq> row (db_boxes demo_two) ''b2''"
    with metadata_isolation [OF w h] ip obtain x where "row (db_boxes demo_two) ''b2'' = Some x" "b_IP x = ''10.0.0.2''" by metis
    then show False by (auto simp: row_def)
  qed
  with metadata_isolation [OF w h] h show ?thesis by blast
qed

text \<open>A keep-alive holds: after a box asks for it, the reconciler does not find it due for suspension
  at any instant up to the end of the duration it asked for (five minutes when it names none or one
  that does not parse), whatever its load and idle timeout.\<close>

theorem keep_alive_pins:
  assumes "db_wf db" "rq_Method r = ''POST''" "rq_Path r = ''/v1/me/keep-alive''" "rq_ContentLength r \<noteq> 0"
    and "dec_duration D (take 1024 (rq_Body r)) = Inr req"
    and "meta_Handler (boxd_meta c t) D t r db = (MetaNoContent, db')"
    and "u \<le> time_Add t (keep_alive_for req)"
  shows "\<exists>x. row (db_boxes db') (b_ID x) = Some x \<and> b_IP x = source_ip r \<and>
    \<not> shouldSuspend (boxd_reconciler c compute) u x"
proof -
  let ?fn = "\<lambda>b. b\<lparr>b_KeepAliveUntil := time_Add t (keep_alive_for req)\<rparr>"
  from assms(2,3,6) have "keepAlive (boxd_meta c t) D t r db = (MetaNoContent, db')"
    by (simp add: meta_Handler_def)
  from apply_req_mutate [OF this [unfolded keepAlive_def]] assms(4,5)
  obtain res where m: "boxd_mutate t (source_ip r) ?fn db = (res, db')" "is_ok res"
    by (auto simp: unknown_box_def split: if_splits)
  from boxd_mutate_tunes [OF assms(1) tuned_fields(2) m(1)] m(2)
  obtain x where "b_IP x = source_ip r" "row (db_boxes db') (b_ID x) = Some (overwrite t x (?fn x))" by blast
  with assms(7) show ?thesis
    by (intro exI [of _ "overwrite t x (?fn x)"]) (simp add: shouldSuspend_def overwrite_def time_After_def)
qed

theorem keep_alive_pins_witness:
  "\<exists>db' x. meta_Handler (boxd_meta demo_cfg 5000) demo_decoders 5000 (demo_request ''/v1/me/keep-alive'' ''10.0.0.2:4711'') demo_two = (MetaNoContent, db') \<and>
     row (db_boxes db') (b_ID x) = Some x \<and> b_IP x = ''10.0.0.2'' \<and> \<not> shouldSuspend (boxd_reconciler demo_cfg steady_compute) 6000 x"
proof -
  let ?r = "demo_request ''/v1/me/keep-alive'' ''10.0.0.2:4711''"
  have ip: "source_ip ?r = ''10.0.0.2''" by code_simp
  have d: "keep_alive_for ''10m'' = 10 * Minute" by code_simp
  have g: "\<exists>b. bs_GetByIP ''10.0.0.2'' demo_two = (Inr b, demo_two)"
    by (simp add: bs_GetByIP_def Box_Sqlite.one_def demo_two_def scan_insert_row)
  then obtain b where b: "bs_GetByIP ''10.0.0.2'' demo_two = (Inr b, demo_two)" by blast
  obtain db' where h: "meta_Handler (boxd_meta demo_cfg 5000) demo_decoders 5000 ?r demo_two = (MetaNoContent, db')"
    by (simp add: meta_Handler_def demo_request_def demo_decoders_def keepAlive_def apply_req_def
        boxd_meta_def meta_New_def boxd_mutate_def ip [unfolded demo_request_def] b bs_Update_def Let_def)
  from keep_alive_pins [OF _ _ _ _ _ h, of "''10m''" 6000 steady_compute] h ip d show ?thesis
    by (auto simp: demo_request_def demo_decoders_def time_Add_def Minute_def Second_def)
qed

text \<open>The resolution by address orders the rows by the text of their modification times, which is
  not the order of the times: of two rows with the same address modified within one second, the
  older one can be the one a request is attributed to.\<close>

theorem GetByIP_text_order:
  "\<exists>old new db. db_boxes db = [old, new] \<and> db_wf db \<and> b_IP old = b_IP new \<and>
    time_Before (b_UpdatedAt old) (b_UpdatedAt new) \<and> fst (bs_GetByIP (b_IP old) db) = Inr old"
proof -
  let ?o = "(demo_box PhaseDestroying)\<lparr>b_IP := ''10.0.0.2'', b_UpdatedAt := 500000000\<rparr>"
  let ?n = "(demo_box PhaseRunning)\<lparr>b_ID := ''b2'', b_Name := ''db'', b_IP := ''10.0.0.2'', b_UpdatedAt := 510000000\<rparr>"
  let ?db = "\<lparr> bd_rows = [insert_row ?o, insert_row ?n], bd_fault = None, bd_conflict = ErrEOF \<rparr>"
  have s: "scan (insert_row ?o) = Inr ?o" "scan (insert_row ?n) = Inr ?n" by (simp_all add: scan_insert_row)
  have k: "\<not> stamp_key (Stamp 500000000) < stamp_key (Stamp 510000000)" by code_simp
  have "db_wf ?db" "db_boxes ?db = [?o, ?n]" using s by (simp_all add: db_wf_def db_boxes_def)
  moreover have "fst (bs_GetByIP (b_IP ?o) ?db) = Inr ?o"
    using s k by (simp add: bs_GetByIP_def Box_Sqlite.one_def del: stamp_key.simps less_prod_simp)
  ultimately show ?thesis by (intro exI [of _ ?o] exI [of _ ?n] exI [of _ ?db]) (simp add: time_Before_def)
qed

end
