(* ===== verification/Microvm_Net.thy ===== *)
theory Microvm_Net
  imports Ports "HOL-Library.Signed_Division"
begin

text \<open>
  The host network and the machine configuration of the Firecracker backend
  (\<^verbatim>\<open>providers/compute/microvm\<close>): the network names and addresses (\<^verbatim>\<open>net_config.go\<close>), the
  allocator of guest addresses (\<^verbatim>\<open>network.go\<close>), the egress fence (\<^verbatim>\<open>firewall.go\<close>) and the
  machine configuration (\<^verbatim>\<open>config.go\<close>). Running \<^verbatim>\<open>ip\<close> and \<^verbatim>\<open>iptables\<close> is not modelled; what
  they are asked to do is.
\<close>

unbundle bit_operations_syntax

section \<open>Addresses\<close>

text \<open>\<^verbatim>\<open>strconv.Atoi\<close>.\<close>

definition Atoi :: "string \<Rightarrow> int option" where
  "Atoi s =
     (let neg = HasPrefix s ''-''; ds = (if HasPrefix s ''-'' \<or> HasPrefix s ''+'' then drop 1 s else s);
          n = (if neg then - int (read_nat ds) else int (read_nat ds))
      in if ds = [] \<or> \<not> list_all is_digit ds \<or> n < - (2 ^ 63) \<or> n \<ge> 2 ^ 63 then None else Some n)"

text \<open>\<^verbatim>\<open>net.ParseIP(s).To4()\<close> on dotted texts: four decimal numbers up to 255 without leading zeros. A
  text with a colon (IPv6, where only the mapped form has a To4) does not occur here.\<close>

definition parse_octet :: "string \<Rightarrow> nat option" where
  "parse_octet s =
     (if s = [] \<or> \<not> list_all is_digit s \<or> (length s > 1 \<and> hd s = CHR ''0'') \<or> length s > 3 \<or> read_nat s > 255
      then None else Some (read_nat s))"

definition ParseIP4 :: "string \<Rightarrow> (nat \<times> nat \<times> nat \<times> nat) option" where
  "ParseIP4 s =
     (case Split (CHR ''.'') s of
        [a, b, c, d] \<Rightarrow>
          (case (parse_octet a, parse_octet b, parse_octet c, parse_octet d) of
             (Some w, Some x, Some y, Some z) \<Rightarrow> Some (w, x, y, z)
           | _ \<Rightarrow> None)
      | _ \<Rightarrow> None)"

definition lastOctet :: "string \<Rightarrow> int" where
  "lastOctet ip = (case ParseIP4 ip of None \<Rightarrow> - 1 | Some (_, _, _, z) \<Rightarrow> int z)"

definition hex2 :: "nat \<Rightarrow> string" where
  "hex2 n = hex_byte (of_nat n)"

definition macFromIP :: "string \<Rightarrow> string" where
  "macFromIP ip =
     (case ParseIP4 ip of
        None \<Rightarrow> []
      | Some (w, x, y, z) \<Rightarrow> ''06:00:'' @ hex2 w @ '':'' @ hex2 x @ '':'' @ hex2 y @ '':'' @ hex2 z)"

definition ipBootArg :: "string \<Rightarrow> string \<Rightarrow> string \<Rightarrow> string" where
  "ipBootArg ip gateway netmask = ''ip='' @ ip @ ''::'' @ gateway @ '':'' @ netmask @ ''::eth0:off''"

section \<open>The network of a fleet\<close>

record net_config =
  nc_Bridge :: string
  nc_Subnet24 :: string
  nc_TapPrefix :: string
  nc_FenceChain :: string

definition DefaultNet :: net_config where
  "DefaultNet = \<lparr> nc_Bridge = ''hopbox-vmnet'', nc_Subnet24 = ''10.0.0'', nc_TapPrefix = ''fctap'', nc_FenceChain = ''HOPBOX-VM'' \<rparr>"

text \<open>FNV-1a on 32 bits.\<close>

definition fnv32a :: "string \<Rightarrow> 32 word" where
  "fnv32a s = foldl (\<lambda>h c. (h XOR of_nat (of_char c)) * 16777619) 2166136261 s"

definition hex4 :: "nat \<Rightarrow> string" where
  "hex4 n = hex2 (n div 256) @ hex2 n"

definition tapTag :: "string \<Rightarrow> string" where
  "tapTag bridge = ''vt'' @ hex4 (unat (fnv32a bridge AND 0xffff))"

text \<open>A bridge name is ASCII, so runes are bytes.\<close>

definition chainTag :: "string \<Rightarrow> string" where
  "chainTag bridge = map (\<lambda>c.
     if c \<ge> CHR ''a'' \<and> c \<le> CHR ''z'' then char_of (of_char c - (32 :: nat))
     else if c \<ge> CHR ''A'' \<and> c \<le> CHR ''Z'' \<or> is_digit c then c
     else CHR ''-'') bridge"

definition withDefaults :: "net_config \<Rightarrow> net_config" where
  "withDefaults c0 =
     (let d = DefaultNet;
          c1 = (if nc_Bridge c0 = [] then c0\<lparr>nc_Bridge := nc_Bridge d\<rparr> else c0);
          c2 = (if nc_Subnet24 c1 = [] then c1\<lparr>nc_Subnet24 := nc_Subnet24 d\<rparr> else c1);
          c3 = (if nc_TapPrefix c2 = []
                then c2\<lparr>nc_TapPrefix := (if nc_Bridge c2 \<noteq> nc_Bridge d then tapTag (nc_Bridge c2) else nc_TapPrefix d)\<rparr>
                else c2)
      in if nc_FenceChain c3 = []
         then c3\<lparr>nc_FenceChain := (if nc_Bridge c3 \<noteq> nc_Bridge d then chainTag (nc_Bridge c3) else nc_FenceChain d)\<rparr>
         else c3)"

definition ipFirstOctet :: int where "ipFirstOctet = 2"
definition ipLastOctet :: int where "ipLastOctet = 254"

definition nc_gateway :: "net_config \<Rightarrow> string" where "nc_gateway c = nc_Subnet24 c @ ''.1''"
definition nc_netmask :: string where "nc_netmask = ''255.255.255.0''"
definition nc_subnet :: "net_config \<Rightarrow> string" where "nc_subnet c = nc_Subnet24 c @ ''.0/24''"
definition nc_bridgeCIDR :: "net_config \<Rightarrow> string" where "nc_bridgeCIDR c = nc_Subnet24 c @ ''.1/24''"
definition nc_ip :: "net_config \<Rightarrow> int \<Rightarrow> string" where "nc_ip c octet = nc_Subnet24 c @ ''.'' @ show_int octet"
definition nc_fenceIn :: "net_config \<Rightarrow> string" where "nc_fenceIn c = nc_FenceChain c @ ''-IN''"
definition nc_fenceFwd :: "net_config \<Rightarrow> string" where "nc_fenceFwd c = nc_FenceChain c @ ''-FWD''"
definition nc_tapName :: "net_config \<Rightarrow> string \<Rightarrow> string" where "nc_tapName c ip = nc_TapPrefix c @ show_int (lastOctet ip)"

text \<open>The octets of the tap devices in the output of \<^verbatim>\<open>ip -br link show\<close>.\<close>

definition tap_of_line :: "string \<Rightarrow> string \<Rightarrow> int list" where
  "tap_of_line prefix line =
     (case Fields line of
        [] \<Rightarrow> []
      | f # _ \<Rightarrow>
          (let name = takeWhile (\<lambda>c. c \<noteq> CHR ''@'') f in
           if \<not> HasPrefix name prefix then []
           else case Atoi (TrimPrefix name prefix) of None \<Rightarrow> [] | Some n \<Rightarrow> [n]))"

definition tapOctets :: "string \<Rightarrow> string \<Rightarrow> int list" where
  "tapOctets prefix out = concat (map (tap_of_line prefix) (Split (CHR 0x0A) out))"

section \<open>The allocator\<close>

record vm_net =
  vn_cfg :: net_config
  vn_used :: "int set"

fun alloc_from :: "nat \<Rightarrow> int \<Rightarrow> vm_net \<Rightarrow> string result \<times> vm_net" where
  "alloc_from 0 oct n = (Inl (Errorf (''microvm: no free IP in '' @ nc_subnet (vn_cfg n))), n)"
| "alloc_from (Suc k) oct n =
     (if oct \<notin> vn_used n then (Inr (nc_ip (vn_cfg n) oct), n\<lparr>vn_used := insert oct (vn_used n)\<rparr>)
      else alloc_from k (oct + 1) n)"

definition allocIP :: "vm_net \<Rightarrow> string result \<times> vm_net" where
  "allocIP n = alloc_from (nat (ipLastOctet - ipFirstOctet + 1)) ipFirstOctet n"

definition reserveIP :: "string \<Rightarrow> vm_net \<Rightarrow> vm_net" where
  "reserveIP ip n = (if lastOctet ip \<ge> 0 then n\<lparr>vn_used := insert (lastOctet ip) (vn_used n)\<rparr> else n)"

definition freeIP :: "string \<Rightarrow> vm_net \<Rightarrow> vm_net" where
  "freeIP ip n = (if lastOctet ip \<ge> 0 then n\<lparr>vn_used := vn_used n - {lastOctet ip}\<rparr> else n)"

definition reserveExistingTaps :: "string result \<Rightarrow> vm_net \<Rightarrow> vm_net" where
  "reserveExistingTaps out n =
     (case out of
        Inl _ \<Rightarrow> n
      | Inr t \<Rightarrow> n\<lparr>vn_used := vn_used n \<union> set (tapOctets (nc_TapPrefix (vn_cfg n)) t)\<rparr>)"

definition newVMNet :: "unit result \<Rightarrow> string result \<Rightarrow> net_config \<Rightarrow> vm_net result" where
  "newVMNet bridge links cfg =
     (case bridge of
        Inl e \<Rightarrow> Inl e
      | Inr _ \<Rightarrow> Inr (reserveExistingTaps links \<lparr> vn_cfg = withDefaults cfg, vn_used = {} \<rparr>))"

subsection \<open>Lemmas\<close>

definition subnet_ok :: "string \<Rightarrow> bool" where
  "subnet_ok s = (case Split (CHR ''.'') s of
     [a, b, c] \<Rightarrow> parse_octet a \<noteq> None \<and> parse_octet b \<noteq> None \<and> parse_octet c \<noteq> None | _ \<Rightarrow> False)"

lemma digit_char_nonzero: "0 < d \<Longrightarrow> d < 10 \<Longrightarrow> digit_char d \<noteq> CHR ''0''"
proof
  assume d: "0 < d" "d < 10" "digit_char d = CHR ''0''"
  with of_char_digit [of d] show False by simp
qed

lemma show_nat_short:
  assumes "n < 1000"
  shows "length (show_nat n) \<le> 3" "length (show_nat n) > 1 \<Longrightarrow> hd (show_nat n) \<noteq> CHR ''0''"
proof -
  consider "n < 10" | "10 \<le> n" "n < 100" | "100 \<le> n" by linarith
  then have "length (show_nat n) \<le> 3 \<and> (length (show_nat n) > 1 \<longrightarrow> hd (show_nat n) \<noteq> CHR ''0'')"
  proof cases
    case 1
    then show ?thesis by (simp add: show_nat.simps)
  next
    case 2
    then have "show_nat n = [digit_char (n div 10), digit_char (n mod 10)]"
      by (simp add: show_nat.simps [of n] show_nat.simps [of "n div 10"])
    with 2 digit_char_nonzero [of "n div 10"] show ?thesis by simp
  next
    case 3
    then have "show_nat n = [digit_char (n div 10 div 10), digit_char (n div 10 mod 10), digit_char (n mod 10)]"
      using assms by (simp add: show_nat.simps [of n] show_nat.simps [of "n div 10"] show_nat.simps [of "n div 10 div 10"]) linarith
    with 3 assms digit_char_nonzero [of "n div 10 div 10"] show ?thesis by simp
  qed
  then show "length (show_nat n) \<le> 3" "length (show_nat n) > 1 \<Longrightarrow> hd (show_nat n) \<noteq> CHR ''0''" by auto
qed

lemma parse_octet_show: "n \<le> 255 \<Longrightarrow> parse_octet (show_nat n) = Some n"
  using show_nat_short [of n] show_nat_digits [of _ n] by (auto simp: parse_octet_def list_all_iff)

lemma show_nat_no_dot: "CHR ''.'' \<notin> set (show_nat n)"
  using show_nat_digits [of "CHR ''.''" n] by (auto simp: is_digit_def)

lemma lastOctet_ip:
  assumes "subnet_ok (nc_Subnet24 c)" "0 \<le> oct" "oct \<le> 255"
  shows "lastOctet (nc_ip c oct) = oct"
proof -
  from assms(1) obtain x y z where s: "Split (CHR ''.'') (nc_Subnet24 c) = [x, y, z]"
    "parse_octet x \<noteq> None" "parse_octet y \<noteq> None" "parse_octet z \<noteq> None"
    by (auto simp: subnet_ok_def split: list.splits)
  have "Split (CHR ''.'') (nc_ip c oct) = [x, y, z, show_nat (nat oct)]"
    using assms(2) s(1) by (simp add: nc_ip_def show_int_def Split_append Split_no_sep show_nat_no_dot)
  with s assms parse_octet_show [of "nat oct"] show ?thesis by (auto simp: lastOctet_def ParseIP4_def)
qed

lemma alloc_from_spec:
  assumes "alloc_from k oct n = (r, n')"
  shows "(\<exists>i. oct \<le> i \<and> i < oct + int k \<and> i \<notin> vn_used n \<and> {oct..<i} \<subseteq> vn_used n \<and>
        r = Inr (nc_ip (vn_cfg n) i) \<and> n' = n\<lparr>vn_used := insert i (vn_used n)\<rparr>) \<or>
    ({oct..<oct + int k} \<subseteq> vn_used n \<and> (\<exists>e. r = Inl e) \<and> n' = n)"
  using assms
proof (induction k arbitrary: oct)
  case (Suc k)
  show ?case
  proof (cases "oct \<in> vn_used n")
    case False
    with Suc.prems show ?thesis by auto
  next
    case True
    have split: "{oct..<i} = insert oct {oct + 1..<i}" if "oct < i" for i :: int using that by auto
    from Suc.IH [of "oct + 1"] Suc.prems True
    consider (a) i where "oct + 1 \<le> i" "i < oct + 1 + int k" "i \<notin> vn_used n" "{oct + 1..<i} \<subseteq> vn_used n"
        "r = Inr (nc_ip (vn_cfg n) i)" "n' = n\<lparr>vn_used := insert i (vn_used n)\<rparr>"
      | (b) "{oct + 1..<oct + 1 + int k} \<subseteq> vn_used n" "\<exists>e. r = Inl e" "n' = n" by auto
    then show ?thesis
    proof cases
      case a
      with True split [of i] show ?thesis by (intro disjI1 exI [of _ i]) auto
    next
      case b
      with True split [of "oct + int (Suc k)"] show ?thesis by (auto simp: algebra_simps)
    qed
  qed
qed auto

lemma allocIP_spec:
  assumes "allocIP n = (r, n')"
  shows "(\<exists>i \<in> {2..254}. i \<notin> vn_used n \<and> {2..<i} \<subseteq> vn_used n \<and>
        r = Inr (nc_ip (vn_cfg n) i) \<and> n' = n\<lparr>vn_used := insert i (vn_used n)\<rparr>) \<or>
    ({2..254} \<subseteq> vn_used n \<and> (\<exists>e. r = Inl e) \<and> n' = n)"
proof -
  have "{2..<(255 :: int)} = {2..254}" by auto
  then show ?thesis
    using alloc_from_spec [OF assms [unfolded allocIP_def]] by (auto simp: ipFirstOctet_def ipLastOctet_def)
qed

section \<open>The egress fence\<close>

definition vmFenceIn :: "string list \<Rightarrow> string list list" where
  "vmFenceIn allowHostPorts =
     [[''-m'', ''conntrack'', ''--ctstate'', ''ESTABLISHED,RELATED'', ''-j'', ''RETURN'']] @
     map (\<lambda>p. [''-p'', ''tcp'', ''--dport'', p, ''-j'', ''RETURN'']) allowHostPorts @
     [[''-j'', ''DROP'']]"

definition vmFenceFwd :: "string list list" where
  "vmFenceFwd =
     [[''-m'', ''conntrack'', ''--ctstate'', ''ESTABLISHED,RELATED'', ''-j'', ''RETURN''],
      [''-d'', ''169.254.0.0/16'', ''-j'', ''DROP''],
      [''-d'', ''10.0.0.0/8'', ''-j'', ''DROP''],
      [''-d'', ''172.16.0.0/12'', ''-j'', ''DROP''],
      [''-d'', ''192.168.0.0/16'', ''-j'', ''DROP''],
      [''-d'', ''100.64.0.0/10'', ''-j'', ''DROP''],
      [''-j'', ''ACCEPT'']]"

definition vmFenceRules :: "string list \<Rightarrow> string list list \<times> string list list" where
  "vmFenceRules allowHostPorts = (vmFenceIn allowHostPorts, vmFenceFwd)"

text \<open>The calls of \<^verbatim>\<open>applyFence\<close> on the firewall: flush the chain, append the rules in order, hook the
  traffic of the bridge into it. The first failing call ends it; \<open>run\<close> says how each call ends.\<close>

datatype fw_call = ClearChain string | AppendRule string "string list" | InsertUnique string nat "string list"

definition fence_calls :: "net_config \<Rightarrow> string \<Rightarrow> string \<Rightarrow> string list list \<Rightarrow> fw_call list" where
  "fence_calls c parent chain rules =
     ClearChain chain # map (AppendRule chain) rules @ [InsertUnique parent 1 [''-i'', nc_Bridge c, ''-j'', chain]]"

fun run_calls :: "(fw_call \<Rightarrow> unit result) \<Rightarrow> fw_call list \<Rightarrow> fw_call list" where
  "run_calls run [] = []"
| "run_calls run (x # xs) = (case run x of Inl _ \<Rightarrow> [x] | Inr _ \<Rightarrow> x # run_calls run xs)"

definition ensureFence :: "(fw_call \<Rightarrow> unit result) option \<Rightarrow> string list \<Rightarrow> net_config \<Rightarrow> fw_call list" where
  "ensureFence ipt allowHostPorts c =
     (case ipt of
        None \<Rightarrow> []
      | Some run \<Rightarrow>
          (let (rin, rfwd) = vmFenceRules allowHostPorts in
           run_calls run (fence_calls c ''INPUT'' (nc_fenceIn c) rin) @
           run_calls run (fence_calls c ''FORWARD'' (nc_fenceFwd c) rfwd)))"

section \<open>The machine configuration\<close>

record vm_spec =
  vs_KernelPath :: string
  vs_RootfsPath :: string
  vs_VcpuCount :: int
  vs_MemMB :: int
  vs_BootArgs :: string
  vs_TapDev :: string
  vs_GuestMAC :: string
  vs_Init :: string
  vs_Env :: env
  vs_HomeDrive :: string

record fc_boot_source =
  fb_KernelImagePath :: string
  fb_BootArgs :: string

record fc_drive =
  fd_DriveID :: string
  fd_PathOnHost :: string
  fd_IsRootDevice :: bool
  fd_IsReadOnly :: bool

record fc_machine_config =
  fm_VcpuCount :: int
  fm_MemSizeMib :: int

record fc_net_iface =
  fn_IfaceID :: string
  fn_HostDevName :: string
  fn_GuestMAC :: string

record fc_config =
  fc_BootSource :: fc_boot_source
  fc_Drives :: "fc_drive list"
  fc_MachineConfig :: fc_machine_config
  fc_NetworkIfaces :: "fc_net_iface list"

definition defaultMemMB :: int where "defaultMemMB = 256"
definition DefaultBootArgs :: string where "DefaultBootArgs = ''console=ttyS0 reboot=k panic=-1 pci=off''"
definition vmInit :: string where "vmInit = ''/sbin/hopbox-init''"

definition sortedKeys :: "env \<Rightarrow> string list" where
  "sortedKeys m = sort (map fst m)"

definition env_value :: "env \<Rightarrow> string \<Rightarrow> string" where
  "env_value m k = (case map_of m k of None \<Rightarrow> [] | Some v \<Rightarrow> v)"

definition inline_env :: "env \<Rightarrow> string list" where
  "inline_env m = map (\<lambda>k. k @ ''='' @ env_value m k)
     (filter (\<lambda>k. \<not> ContainsAny (env_value m k) [CHR '' '', CHR 0x09, CHR 0x0A]) (sortedKeys m))"

text \<open>\<open>pack\<close> is the base64 text of the JSON of the environment.\<close>

definition boot_args :: "(env \<Rightarrow> string result) \<Rightarrow> vm_spec \<Rightarrow> string" where
  "boot_args pack s =
     (if vs_BootArgs s = [] then DefaultBootArgs else vs_BootArgs s) @
     (if vs_Init s \<noteq> [] then '' init='' @ vs_Init s else []) @
     concat (map (\<lambda>t. '' '' @ t) (inline_env (vs_Env s))) @
     (if vs_Env s \<noteq> [] then (case pack (vs_Env s) of Inl _ \<Rightarrow> [] | Inr b \<Rightarrow> '' HOPBOX_ENV64='' @ b) else [])"

definition buildConfig :: "(env \<Rightarrow> string result) \<Rightarrow> vm_spec \<Rightarrow> fc_config" where
  "buildConfig pack s =
     \<lparr> fc_BootSource = \<lparr> fb_KernelImagePath = vs_KernelPath s, fb_BootArgs = boot_args pack s \<rparr>,
       fc_Drives = \<lparr> fd_DriveID = ''rootfs'', fd_PathOnHost = vs_RootfsPath s, fd_IsRootDevice = True, fd_IsReadOnly = False \<rparr> #
         (if vs_HomeDrive s \<noteq> []
          then [\<lparr> fd_DriveID = ''home'', fd_PathOnHost = vs_HomeDrive s, fd_IsRootDevice = False, fd_IsReadOnly = False \<rparr>]
          else []),
       fc_MachineConfig = \<lparr> fm_VcpuCount = (if vs_VcpuCount s < 1 then 1 else vs_VcpuCount s),
         fm_MemSizeMib = (if vs_MemMB s \<le> 0 then defaultMemMB else vs_MemMB s) \<rparr>,
       fc_NetworkIfaces = (if vs_TapDev s \<noteq> []
         then [\<lparr> fn_IfaceID = ''eth0'', fn_HostDevName = vs_TapDev s, fn_GuestMAC = vs_GuestMAC s \<rparr>] else []) \<rparr>"

text \<open>The addition is on 64 bits.\<close>

definition vcpusFromMillis :: "int \<Rightarrow> int" where
  "vcpusFromMillis milli =
     (if milli \<le> 0 then 1
      else (let n = sint (word_of_int (milli + 999) :: 64 word) sdiv 1000 in if n < 1 then 1 else n))"

section \<open>Properties\<close>

text \<open>C38: the allocator hands out guest addresses 2 to 254, never one that is in use, and fails only when
  all 253 are; giving an address back leaves the pool as it was, so no address is lost.\<close>

theorem allocator_correct:
  assumes "subnet_ok (nc_Subnet24 (vn_cfg n))"
  shows "case allocIP n of
      (Inr ip, n') \<Rightarrow> lastOctet ip \<in> {2..254} \<and> lastOctet ip \<notin> vn_used n \<and> vn_used n' = insert (lastOctet ip) (vn_used n) \<and>
        freeIP ip n' = n
    | (Inl e, n') \<Rightarrow> {2..254} \<subseteq> vn_used n \<and> n' = n"
proof -
  obtain r n' where a: "allocIP n = (r, n')" by fastforce
  have o: "lastOctet (nc_ip (vn_cfg n) i) = i" if "i \<in> {2..254}" for i
    using that by (intro lastOctet_ip [OF assms]) auto
  have "vn_used n - {i} = vn_used n" if "i \<notin> vn_used n" for i using that by auto
  with allocIP_spec [OF a] a o show ?thesis by (auto simp: freeIP_def)
qed

theorem allocator_correct_witness:
  "\<exists>n'. allocIP \<lparr> vn_cfg = DefaultNet, vn_used = {2} \<rparr> = (Inr ''10.0.0.3'', n') \<and> freeIP ''10.0.0.3'' n' = \<lparr> vn_cfg = DefaultNet, vn_used = {2} \<rparr>"
proof -
  let ?n = "\<lparr> vn_cfg = DefaultNet, vn_used = {2} \<rparr>"
  have s: "subnet_ok (nc_Subnet24 (vn_cfg ?n))" by code_simp
  have k: "nat (ipLastOctet - ipFirstOctet + 1) = Suc (Suc 251)" by (simp add: ipLastOctet_def ipFirstOctet_def)
  have "nc_ip DefaultNet 3 = ''10.0.0.3''" by code_simp
  then have a: "allocIP ?n = (Inr ''10.0.0.3'', ?n\<lparr>vn_used := {3, 2}\<rparr>)"
    unfolding allocIP_def k alloc_from.simps by (simp add: ipFirstOctet_def)
  from allocator_correct [OF s] show ?thesis unfolding a by auto
qed

text \<open>A CPU cap in milli-cores becomes the least whole number of virtual CPUs that covers it, at
  least one, for every cap that does not overflow the rounding.\<close>

theorem vcpus_ceiling:
  assumes "0 < milli" "milli \<le> 2 ^ 63 - 1000"
  shows "vcpusFromMillis milli \<ge> 1 \<and> milli \<le> 1000 * vcpusFromMillis milli \<and> 1000 * (vcpusFromMillis milli - 1) < milli"
proof -
  have "sint (word_of_int (milli + 999) :: 64 word) = milli + 999"
    by (rule sint_word64) (use assms in simp_all)
  then have v: "vcpusFromMillis milli = (milli + 999) div 1000"
    using assms by (simp add: vcpusFromMillis_def Let_def signed_divide_int_def)
  define q where "q = (milli + 999) div 1000"
  obtain r where r: "milli + 999 = 1000 * q + r" "0 \<le> r" "r < 1000"
    by (rule that [of "(milli + 999) mod 1000"]) (simp_all add: q_def)
  have "milli \<le> 1000 * q" using r by linarith
  moreover have "1000 * q - 1000 < milli" using r by linarith
  moreover have "1 \<le> q" using r assms(1) by linarith
  ultimately show ?thesis unfolding v q_def [symmetric] by (simp add: algebra_simps)
qed

theorem vcpus_ceiling_witness: "vcpusFromMillis 1500 \<ge> 1 \<and> 1500 \<le> 1000 * vcpusFromMillis 1500 \<and> 1000 * (vcpusFromMillis 1500 - 1) < 1500"
  using vcpus_ceiling [of 1500] by simp

text \<open>A packet goes through a chain rule by rule; the first rule whose conditions it meets decides. The
  conditions of a rule are the words before its last two, \<^verbatim>\<open>-j\<close> and the target; \<open>meets\<close> is what the kernel's matches say of a
  packet.\<close>

definition rule_conds :: "string list \<Rightarrow> string list" where
  "rule_conds r = take (length r - 2) r"

fun chain_verdict :: "(string list \<Rightarrow> 'p \<Rightarrow> bool) \<Rightarrow> string list list \<Rightarrow> 'p \<Rightarrow> string option" where
  "chain_verdict meets [] p = None"
| "chain_verdict meets (r # rs) p = (if meets (rule_conds r) p then Some (last r) else chain_verdict meets rs p)"

definition in_block :: "32 word \<Rightarrow> nat \<Rightarrow> 32 word \<Rightarrow> bool" where
  "in_block base len a = (drop_bit (32 - len) a = drop_bit (32 - len) base)"

definition private_addr :: "32 word \<Rightarrow> bool" where
  "private_addr a = (in_block 0xA9FE0000 16 a \<or> in_block 0x0A000000 8 a \<or> in_block 0xAC100000 12 a \<or>
     in_block 0xC0A80000 16 a \<or> in_block 0x64400000 10 a)"



text \<open>The kernel sees the boot arguments as separate words: the given arguments, the init path, one
  word per environment entry without blanks in its value, in the order of the keys, and the packed
  environment; no entry can smuggle in a further argument.\<close>

theorem boot_args_words:
  assumes "CHR '' '' \<notin> set (vs_Init s)" "\<forall>k \<in> fst ` set (vs_Env s). CHR '' '' \<notin> set k"
    and "pack (vs_Env s) = Inr b" "CHR '' '' \<notin> set b"
  shows "Split (CHR '' '') (fb_BootArgs (fc_BootSource (buildConfig pack s))) =
    Split (CHR '' '') (if vs_BootArgs s = [] then DefaultBootArgs else vs_BootArgs s) @
    (if vs_Init s \<noteq> [] then [''init='' @ vs_Init s] else []) @ inline_env (vs_Env s) @
    (if vs_Env s \<noteq> [] then [''HOPBOX_ENV64='' @ b] else [])"
proof -
  have words: "Split (CHR '' '') (a @ concat (map (\<lambda>t. '' '' @ t) ts)) = Split (CHR '' '') a @ ts"
    if "\<forall>t \<in> set ts. CHR '' '' \<notin> set t" for a ts
    using that
  proof (induction ts arbitrary: a)
    case (Cons t ts)
    have "Split (CHR '' '') (a @ CHR '' '' # t) = Split (CHR '' '') a @ [t]"
      using Cons.prems by (simp add: Split_append Split_no_sep)
    with Cons.IH [of "a @ CHR '' '' # t"] Cons.prems show ?case by simp
  qed simp
  have env: "\<forall>t \<in> set (inline_env (vs_Env s)). CHR '' '' \<notin> set t"
    using assms(2) by (auto simp: inline_env_def sortedKeys_def ContainsAny_def list_ex_iff)
  let ?ts = "(if vs_Init s \<noteq> [] then [''init='' @ vs_Init s] else []) @ inline_env (vs_Env s) @
    (if vs_Env s \<noteq> [] then [''HOPBOX_ENV64='' @ b] else [])"
  have "boot_args pack s = (if vs_BootArgs s = [] then DefaultBootArgs else vs_BootArgs s) @ concat (map (\<lambda>t. '' '' @ t) ?ts)"
    using assms(3) by (simp add: boot_args_def)
  moreover have "\<forall>t \<in> set ?ts. CHR '' '' \<notin> set t" using env assms(1,4) by auto
  ultimately show ?thesis using words [of ?ts] by (simp add: buildConfig_def)
qed

theorem boot_args_words_witness:
  "Split (CHR '' '') (fb_BootArgs (fc_BootSource (buildConfig (\<lambda>_. Inr ''e30='')
     \<lparr> vs_KernelPath = ''vmlinux'', vs_RootfsPath = ''r'', vs_VcpuCount = 1, vs_MemMB = 0, vs_BootArgs = ''a b'', vs_TapDev = [],
       vs_GuestMAC = [], vs_Init = ''/i'', vs_Env = [(''K2'', ''two words''), (''K1'', ''v'')], vs_HomeDrive = [] \<rparr>))) =
   [''a'', ''b'', ''init=/i'', ''K1=v'', ''HOPBOX_ENV64=e30='']"
proof -
  let ?s = "\<lparr> vs_KernelPath = ''vmlinux'', vs_RootfsPath = ''r'', vs_VcpuCount = 1, vs_MemMB = 0, vs_BootArgs = ''a b'', vs_TapDev = [],
       vs_GuestMAC = [], vs_Init = ''/i'', vs_Env = [(''K2'', ''two words''), (''K1'', ''v'')], vs_HomeDrive = [] \<rparr>"
  have i: "inline_env (vs_Env ?s) = [''K1=v'']" by code_simp
  from boot_args_words [of ?s "\<lambda>_. Inr ''e30=''" "''e30=''"] show ?thesis unfolding i by simp
qed

end
