(* ===== verification/Hopboxd.thy ===== *)
theory Hopboxd
  imports Plugin Api_Server Ssh_Front Box_Meta Microvm_Net
begin

text \<open>
  The dev-environment daemon: its configuration (\<^verbatim>\<open>internal/config/config.go\<close>), the wake-up buses
  (\<^verbatim>\<open>internal/events/events.go\<close>), the state sink of the agent hub (\<^verbatim>\<open>cmd/hopboxd/statesink.go\<close>), the choice of
  providers (\<^verbatim>\<open>provider.go\<close>, \<^verbatim>\<open>storage_localfs.go\<close>, \<^verbatim>\<open>eventbus.go\<close>) and the wiring of \<^verbatim>\<open>run\<close>
  (\<^verbatim>\<open>cmd/hopboxd/main.go\<close>) as functions of the configuration. Flag parsing, listeners, signals and the
  SSH certificate authority's key files are not modelled.
\<close>

section \<open>Configuration\<close>

text \<open>Every field of the configuration. The CPU cap of the front door is a floating-point number
  of CPUs in the code, turned into milli-CPUs once; the field holds the milli-CPUs.\<close>

record hopboxd_cfg =
  dc_APIAddr :: string
  dc_AgentListen :: string
  dc_AgentAdvertise :: string
  dc_DBPath :: string
  dc_AgentBin :: string
  dc_Tenant :: string
  dc_Owner :: string
  dc_UsersFile :: string
  dc_SSHCAPath :: string
  dc_SSHCAPubFile :: string
  dc_AuthorizedKeysFile :: string
  dc_OIDCIssuer :: string
  dc_OIDCAudience :: string
  dc_OIDCPrincipalClaim :: string
  dc_OIDCAdminGroups :: string
  dc_AgentImageRef :: string
  dc_AgentBinaryPath :: string
  dc_AgentTargetPath :: string
  dc_ComputeKind :: string
  dc_ComputeTransport :: string
  dc_ComputeRemote :: string
  dc_ComputeNetwork :: string
  dc_FCBin :: string
  dc_FCKernel :: string
  dc_FCImagesDir :: string
  dc_FCRunDir :: string
  dc_FCBridge :: string
  dc_FCSubnet :: string
  dc_HomeSizeMB :: int
  dc_StorageKind :: string
  dc_StorageTransport :: string
  dc_StorageRemote :: string
  dc_KubeNamespace :: string
  dc_Kubeconfig :: string
  dc_KubeStorageClass :: string
  dc_KubeHomeSize :: string
  dc_GatewayAddr :: string
  dc_GatewayZone :: string
  dc_TunnelAddr :: string
  dc_EventsKind :: string
  dc_NATSURL :: string
  dc_SSHAddr :: string
  dc_SSHHostKeyPath :: string
  dc_SSHDefaultImage :: string
  dc_SSHDefaultMemMB :: int
  dc_SSHDefaultCPUMillis :: int
  dc_AccountsFile :: string
  dc_MetaAddr :: string
  dc_GuestBin :: string

text \<open>The values without any flag; \<open>arch\<close> is \<^verbatim>\<open>runtime.GOARCH\<close>.\<close>

definition config_defaults :: "string \<Rightarrow> hopboxd_cfg" where
  "config_defaults arch = \<lparr>
     dc_APIAddr = '':7700'', dc_AgentListen = '':7777'', dc_AgentAdvertise = ''host.docker.internal:7777'', dc_DBPath = ''./hopbox.db'',
     dc_AgentBin = ''./bin/hopbox-agent-linux-'' @ arch, dc_Tenant = ''default'', dc_Owner = ''dev'',
     dc_UsersFile = [], dc_SSHCAPath = ''./hopbox-ssh-ca'', dc_SSHCAPubFile = [], dc_AuthorizedKeysFile = [],
     dc_OIDCIssuer = [], dc_OIDCAudience = [], dc_OIDCPrincipalClaim = ''sub'', dc_OIDCAdminGroups = [],
     dc_AgentImageRef = [], dc_AgentBinaryPath = ''/hopbox-agent'', dc_AgentTargetPath = ''/hopbox/hopbox-agent'',
     dc_ComputeKind = ''docker'', dc_ComputeTransport = ''inproc'', dc_ComputeRemote = [], dc_ComputeNetwork = [],
     dc_FCBin = ''/usr/local/bin/firecracker'', dc_FCKernel = ''/opt/hopbox-microvm/vmlinux'',
     dc_FCImagesDir = ''/opt/hopbox-microvm/images'', dc_FCRunDir = ''/var/lib/hopbox/microvm'',
     dc_FCBridge = [], dc_FCSubnet = [], dc_HomeSizeMB = 2048,
     dc_StorageKind = ''localfs'', dc_StorageTransport = ''inproc'', dc_StorageRemote = [],
     dc_KubeNamespace = ''hopbox-workspaces'', dc_Kubeconfig = [], dc_KubeStorageClass = [], dc_KubeHomeSize = ''1Gi'',
     dc_GatewayAddr = '':8088'', dc_GatewayZone = ''gw.example.com'', dc_TunnelAddr = '':7701'',
     dc_EventsKind = ''inproc'', dc_NATSURL = ''nats://127.0.0.1:4222'',
     dc_SSHAddr = [], dc_SSHHostKeyPath = ''./hopbox-ssh-front-key'',
     dc_SSHDefaultImage = ''alpine'', dc_SSHDefaultMemMB = 2048, dc_SSHDefaultCPUMillis = 2000, dc_AccountsFile = [],
     dc_MetaAddr = [], dc_GuestBin = [] \<rparr>"

definition splitComma :: "string \<Rightarrow> string list" where
  "splitComma s = filter (\<lambda>p. p \<noteq> []) (map TrimSpace (Split (CHR '','') s))"

text \<open>\<open>read\<close> reads a file, \<open>env\<close> is the value of \<^verbatim>\<open>HOPBOX_AUTHORIZED_KEYS\<close>.\<close>

definition loadAuthorizedKeys :: "(string \<Rightarrow> string result) \<Rightarrow> string \<Rightarrow> string \<Rightarrow> string" where
  "loadAuthorizedKeys read env file =
     (if file \<noteq> [] then (case read file of Inl _ \<Rightarrow> [] | Inr b \<Rightarrow> b) else env)"

definition user_line :: "string \<Rightarrow> string \<Rightarrow> (string \<times> principal) list \<Rightarrow> (string \<times> principal) list" where
  "user_line tenant l users =
     (let line = TrimSpace l in
      if line = [] \<or> HasPrefix line ''#'' then users
      else (case Fields line of
              tok # who # _ \<Rightarrow> AList.update tok
                \<lparr> pl_ID = who, pl_TenantID = tenant, pl_DisplayName = [], pl_Roles = [''owner''] \<rparr> users
            | _ \<Rightarrow> users))"

definition loadUsers :: "(string \<Rightarrow> string list result) \<Rightarrow> string \<Rightarrow> string \<Rightarrow> (string \<times> principal) list" where
  "loadUsers lines file tenant =
     (if file = [] then []
      else case lines file of Inl _ \<Rightarrow> [] | Inr ls \<Rightarrow> fold (user_line tenant) ls [])"

text \<open>The identity provider: OIDC, a static token file, or none (open single-user mode). \<open>verifier\<close> is
  \<^verbatim>\<open>oidc.NewVerifier\<close>.\<close>

datatype idp = IdpNone | IdpOidc oidc_provider | IdpStatic static_provider

definition select_idp :: "(string \<Rightarrow> string \<Rightarrow> (string \<Rightarrow> claims result) result) \<Rightarrow> (string \<Rightarrow> string list result) \<Rightarrow> hopboxd_cfg \<Rightarrow> idp result" where
  "select_idp verifier lines c =
     (if dc_OIDCIssuer c \<noteq> [] then
        (case verifier (dc_OIDCIssuer c) (dc_OIDCAudience c) of
           Inl e \<Rightarrow> Inl e
         | Inr v \<Rightarrow> Inr (IdpOidc (oidc_New v \<lparr> oc_TenantID = dc_Tenant c, oc_PrincipalClaim = dc_OIDCPrincipalClaim c,
             oc_AdminGroups = splitComma (dc_OIDCAdminGroups c) \<rparr>)))
      else (let users = loadUsers lines (dc_UsersFile c) (dc_Tenant c) in
            if users \<noteq> [] then Inr (IdpStatic (static_New users)) else Inr IdpNone))"

section \<open>Providers\<close>

text \<open>\<open>docker\<close> and \<open>microvm\<close> are the constructors compiled in (or the stubs that fail).\<close>

definition newMicrovm :: "(string \<Rightarrow> string \<Rightarrow> string \<Rightarrow> string \<Rightarrow> string list \<Rightarrow> net_config \<Rightarrow> 'p result) \<Rightarrow> hopboxd_cfg \<Rightarrow> 'p result" where
  "newMicrovm microvm c =
     (let port = (\<lambda>a. case SplitHostPort a of Some (_, p) \<Rightarrow> if p \<noteq> [] then [p] else [] | None \<Rightarrow> []) in
      microvm (dc_FCBin c) (dc_FCKernel c) (dc_FCImagesDir c) (dc_FCRunDir c) (port (dc_AgentListen c) @ port (dc_MetaAddr c))
        \<lparr> nc_Bridge = dc_FCBridge c, nc_Subnet24 = dc_FCSubnet c, nc_TapPrefix = [], nc_FenceChain = [] \<rparr>)"

definition newCompute :: "(string \<Rightarrow> string \<Rightarrow> 'p result) \<Rightarrow>
    (string \<Rightarrow> string \<Rightarrow> string \<Rightarrow> string \<Rightarrow> string list \<Rightarrow> net_config \<Rightarrow> 'p result) \<Rightarrow> hopboxd_cfg \<Rightarrow> 'p result" where
  "newCompute docker microvm c =
     (if dc_ComputeKind c = ''microvm'' then newMicrovm microvm c
      else if dc_ComputeKind c = ''docker'' \<or> dc_ComputeKind c = [] then docker (dc_AgentAdvertise c) (dc_ComputeNetwork c)
      else Inl (Errorf (''unknown --compute '' @ quoted (dc_ComputeKind c) @ '' (want docker|microvm|kubernetes)'')))"

text \<open>\<open>dir\<close> is \<^verbatim>\<open>filepath.Dir\<close> of the database path.\<close>

definition newStorage :: "string \<Rightarrow> hopboxd_cfg \<Rightarrow> localfs_provider" where
  "newStorage dir c =
     (let rt = path_Join [dir, ''homes''] in
      if dc_ComputeKind c = ''microvm'' then lf_NewBlock rt (dc_HomeSizeMB c) else lf_New rt)"

section \<open>Wake-up buses\<close>

text \<open>A handler runs one wake-up on the state \<open>'q\<close> it acts on.\<close>

type_synonym 'q handler = "string \<Rightarrow> string \<Rightarrow> 'q \<Rightarrow> 'q"

record 'q inproc_bus =
  ib_handlers :: "'q handler list"

definition NewInProc :: "'q inproc_bus" where "NewInProc = \<lparr> ib_handlers = [] \<rparr>"

definition ib_Subscribe :: "'q handler \<Rightarrow> 'q inproc_bus \<Rightarrow> 'q inproc_bus" where
  "ib_Subscribe h b = b\<lparr>ib_handlers := ib_handlers b @ [h]\<rparr>"

definition ib_Publish :: "'q inproc_bus \<Rightarrow> string \<Rightarrow> string \<Rightarrow> 'q \<Rightarrow> 'q" where
  "ib_Publish b i tenant q = fold (\<lambda>h. h i tenant) (ib_handlers b) q"

record wakeup =
  wk_ID :: string
  wk_Tenant :: string

definition Subject :: string where "Subject = ''hopbox.reconcile''"

definition enc_wakeup :: "wakeup \<Rightarrow> json" where
  "enc_wakeup w = JObj [(''id'', JStr (wk_ID w)), (''tenant'', JStr (wk_Tenant w))]"

definition dec_wakeup :: "json \<Rightarrow> wakeup \<times> bool" where
  "dec_wakeup = dec_struct (\<lambda>ms.
     let (i, a) = get_field dec_str ''id'' ms []; (t, b) = get_field dec_str ''tenant'' ms []
     in (\<lparr> wk_ID = i, wk_Tenant = t \<rparr>, a \<and> b)) \<lparr> wk_ID = [], wk_Tenant = [] \<rparr>"

interpretation wakeup_json: json_codec enc_wakeup dec_wakeup "\<lambda>w. valid_utf8 (wk_ID w) \<and> valid_utf8 (wk_Tenant w)"
  by unfold_locales (simp_all add: enc_wakeup_def dec_wakeup_def codec_simps)

text \<open>The callback a subscription registers, and a publication: \<open>send\<close> is the broker connection's publish,
  with what its subscribers then do.\<close>

definition nats_callback :: "(bytes \<Rightarrow> wakeup result) \<Rightarrow> 'q handler \<Rightarrow> bytes \<Rightarrow> 'q \<Rightarrow> 'q" where
  "nats_callback unmarshal h data q =
     (case unmarshal data of
        Inl _ \<Rightarrow> q
      | Inr w \<Rightarrow> if wk_ID w = [] then q else h (wk_ID w) (wk_Tenant w) q)"

definition nats_Publish :: "(wakeup \<Rightarrow> bytes result) \<Rightarrow> (string \<Rightarrow> bytes \<Rightarrow> 'q \<Rightarrow> 'q) \<Rightarrow> string \<Rightarrow> string \<Rightarrow> 'q \<Rightarrow> 'q" where
  "nats_Publish marshal send i tenant q =
     (case marshal \<lparr> wk_ID = i, wk_Tenant = tenant \<rparr> of Inl _ \<Rightarrow> q | Inr data \<Rightarrow> send Subject data q)"

text \<open>The bus of the configuration, as its publish function; \<open>nats\<close> connects to a broker.\<close>

definition newEventBus :: "(string \<Rightarrow> 'b result) \<Rightarrow> ('b \<Rightarrow> 'q handler) \<Rightarrow> 'q inproc_bus \<Rightarrow> hopboxd_cfg \<Rightarrow> 'q handler result" where
  "newEventBus nats publish inproc c =
     (if dc_EventsKind c = [] \<or> dc_EventsKind c = ''inproc'' then Inr (ib_Publish inproc)
      else if dc_EventsKind c = ''nats'' then
        (case nats (dc_NATSURL c) of
           Inl e \<Rightarrow> Inl (Wrapf (''connect nats '' @ dc_NATSURL c @ '': '') e)
         | Inr b \<Rightarrow> Inr (publish b))
      else Inl (Errorf (''unknown --events '' @ quoted (dc_EventsKind c) @ '' (want inproc|nats)'')))"

section \<open>Wiring\<close>

definition storeSink_SetAgentConnected :: "'s workspace_store \<Rightarrow> string \<Rightarrow> 'q handler option \<Rightarrow> string \<Rightarrow> bool \<Rightarrow> 's \<times> 'q \<Rightarrow> 's \<times> 'q" where
  "storeSink_SetAgentConnected st tenant trig i conn = (\<lambda>(s, q).
     case wsGet st tenant i s of
       (Inl _, s1) \<Rightarrow> (s1, q)
     | (Inr w, s1) \<Rightarrow>
         (case wsUpdate st (w\<lparr>w_Box := (w_Box w)\<lparr>b_AgentConnected := conn\<rparr>\<rparr>) s1 of
            (Inl _, _, s2) \<Rightarrow> (s2, q)
          | (Inr _, _, s2) \<Rightarrow> (s2, case trig of None \<Rightarrow> q | Some f \<Rightarrow> f i tenant q)))"

definition hopboxd_resolver :: "string \<Rightarrow> ws_db \<Rightarrow> string result \<times> ws_db" where
  "hopboxd_resolver tok db = (let (r, db') = ws_GetByToken tok db in (map_sum id w_ID r, db'))"

definition hopboxd_metaURL :: "hopboxd_cfg \<Rightarrow> string" where
  "hopboxd_metaURL c =
     (if dc_MetaAddr c = [] then []
      else ''http://'' @ JoinHostPort (case SplitHostPort (dc_AgentAdvertise c) of Some (h, _) \<Rightarrow> h | None \<Rightarrow> dc_AgentAdvertise c)
             (portOf (dc_MetaAddr c) ''8090''))"

definition hopboxd_resolve :: "string \<Rightarrow> ws_db \<Rightarrow> box result \<times> ws_db" where
  "hopboxd_resolve ip db = (let (r, db') = ws_GetByIP ip db in (map_sum id w_Box r, db'))"

definition hopboxd_mutate :: "time \<Rightarrow> string \<Rightarrow> (box \<Rightarrow> box) \<Rightarrow> ws_db \<Rightarrow> unit result \<times> ws_db" where
  "hopboxd_mutate now ip fn db =
     (case ws_GetByIP ip db of
        (Inl e, db') \<Rightarrow> (Inl e, db')
      | (Inr w, db') \<Rightarrow> (let (r, _, db'') = UpdateWorkspace now (w\<lparr>w_Box := fn (w_Box w)\<rparr>) db' in (r, db'')))"

text \<open>The hooks and the reconciler. The hooks' store stamps the instant of the call they are made in.\<close>

definition hopboxd_hooks :: "time \<Rightarrow> (sub_provider \<times> 'x) storage_ops \<Rightarrow> string \<Rightarrow> string \<Rightarrow> (ws_db, sub_provider \<times> 'x) hooks" where
  "hopboxd_hooks now storage caTrustLine authKeys =
     subdomain_hooks now storage \<lparr> hc_TrustedUserCA = caTrustLine, hc_AuthorizedKeys = authKeys \<rparr>"

definition hopboxd_reconciler :: "hopboxd_cfg \<Rightarrow> string \<Rightarrow> string \<Rightarrow> (sub_provider \<times> 'x) storage_ops \<Rightarrow> (sub_provider \<times> 'x) compute_ops \<Rightarrow>
    time \<Rightarrow> (ws_db, sub_provider \<times> 'x) reconciler" where
  "hopboxd_reconciler c caTrustLine authKeys storage compute now =
     NewReconciler (\<lambda>t. Adapter (sqlite_store t)) compute
       \<lparr> rc_AgentAddr = dc_AgentAdvertise c,
         rc_Agent = \<lparr> ai_ImageRef = dc_AgentImageRef c, ai_BinaryPath = dc_AgentBinaryPath c,
            ai_TargetPath = dc_AgentTargetPath c, ai_HostBinaryPath = dc_AgentBin c \<rparr>,
         rc_MetaURL = hopboxd_metaURL c, rc_GuestBin = dc_GuestBin c, rc_Idle = zero_idle, rc_Interval = 0,
         rc_Hooks = Some (box_hooks (hopboxd_hooks now storage caTrustLine authKeys)), rc_TrustedSSH = False \<rparr>"

definition hopboxd_engine :: "hopboxd_cfg \<Rightarrow> 'q handler \<Rightarrow> (string \<Rightarrow> bool) option \<Rightarrow> time \<Rightarrow> (ws_db, 'q) engine" where
  "hopboxd_engine c publish persistentTier now = NewEngine (Adapter (sqlite_store now)) (Some publish)
     \<lparr> ec_Tenant = dc_Tenant c, ec_DefaultImage = dc_SSHDefaultImage c, ec_Backends = [dc_ComputeKind c], ec_DefBackend = [],
       ec_DefaultFlavor = \<lparr> fl_CPUMillis = dc_SSHDefaultCPUMillis c, fl_MemMB = dc_SSHDefaultMemMB c \<rparr>,
       ec_Persistent = persistentTier, ec_DefaultGrace = 0 \<rparr>"

text \<open>The account file gives the front door's authority and the engine's tier.\<close>

definition hopboxd_front :: "('k \<Rightarrow> string) \<Rightarrow> hopboxd_cfg \<Rightarrow> 'q handler \<Rightarrow> directory option \<Rightarrow> (ws_db, 'q, 'k) front_server" where
  "hopboxd_front fp c publish dir =
     NewFrontServer fp (hopboxd_engine c publish (map_option IsAccount dir)) (map_option (dir_Authenticate fp) dir)"

section \<open>Facts\<close>

lemma hopboxd_reconciler_parts:
  "r_store (hopboxd_reconciler c ca ak storage compute now) t = Adapter (sqlite_store t)"
  "r_compute (hopboxd_reconciler c ca ak storage compute now) = compute"
  "rc_Hooks (r_cfg (hopboxd_reconciler c ca ak storage compute now)) =
     Some (box_hooks (NewHooks (sqlite_store now) storage (Some subdomain_ingress) \<lparr> hc_TrustedUserCA = ca, hc_AuthorizedKeys = ak \<rparr>))"
  "rc_Idle (r_cfg (hopboxd_reconciler c ca ak storage compute now)) = DefaultIdle"
  by (simp_all add: hopboxd_reconciler_def NewReconciler_def hopboxd_hooks_def subdomain_hooks_def Let_def)

text \<open>A broker that hands each published message to every subscriber makes the NATS bus the in-process
  bus, for wake-ups that the codec carries.\<close>

definition broker :: "(bytes \<Rightarrow> 'q \<Rightarrow> 'q) list \<Rightarrow> string \<Rightarrow> bytes \<Rightarrow> 'q \<Rightarrow> 'q" where
  "broker cbs subj data q = (if subj = Subject then fold (\<lambda>cb. cb data) cbs q else q)"

lemma nats_is_inproc:
  fixes hs :: "'q handler list"
  assumes "marshal \<lparr> wk_ID = i, wk_Tenant = t \<rparr> = Inr data" "unmarshal data = Inr \<lparr> wk_ID = i, wk_Tenant = t \<rparr>" "i \<noteq> []"
  shows "nats_Publish marshal (broker (map (nats_callback unmarshal) hs)) i t q = fold (\<lambda>h. h i t) hs q"
proof -
  have "(\<lambda>h :: 'q handler. nats_callback unmarshal h data) = (\<lambda>h. h i t)" using assms(2,3) by (simp add: nats_callback_def fun_eq_iff)
  with assms(1) show ?thesis by (simp add: nats_Publish_def broker_def fold_map comp_def)
qed

section \<open>Properties\<close>

text \<open>C2: the reconciler of the dev-environment daemon, over the workspace table and with the storage and
  ingress hooks, refines the same abstract machine of a box as the box daemon's: whatever storage,
  ingress, compute and database answer, the reconciled workspace's box moves by quiet steps and at most
  one guarded phase step, or is removed when it is being destroyed or is a dead ephemeral one, and every
  other workspace's box keeps all fields but its modification time.\<close>

theorem hopboxd_refines_machine:
  assumes "ws_wf db"
    and "ReconcileOne (hopboxd_reconciler c ca ak storage compute now) now rnd t i (db, w) = (res, db', w')"
  shows "ws_wf db' \<and> others_kept i (ws_boxes db) (ws_boxes db') \<and>
    (case row (ws_boxes db) i of None \<Rightarrow> row (ws_boxes db') i = None
     | Some x \<Rightarrow> (case row (ws_boxes db') i of None \<Rightarrow> removable x
        | Some y \<Rightarrow> tick_box DefaultIdle (c_Suspender compute \<noteq> None) now x y))"
  using wsrec.ReconcileOne_refines [OF hopboxd_reconciler_parts(1,3) assms]
  by (simp only: hopboxd_reconciler_parts)

theorem hopboxd_refines_machine_witness:
  "ws_wf (fst (snd (ReconcileOne (hopboxd_reconciler (config_defaults ''amd64'') [] [] (remoteStorage (storage_stub id (StorageServer
       \<lparr> st_EnsureHome = (\<lambda>r w. (Inl ErrNotFound, w)), st_Delete = (\<lambda>r w. (Inr (), w)) \<rparr>)))
     \<lparr> c_Provision = (\<lambda>r w. (Inl ErrNotFound, w)), c_Status = (\<lambda>r w. (Inl ErrNotFound, w)), c_Stop = (\<lambda>r w. (Inr (), w)),
       c_Destroy = (\<lambda>r w. (Inr (), w)), c_Suspender = None \<rparr> 9) 9 [] [] ''1f'' (demo_daemon [], sd_New ''gw'', ()))))"
  using hopboxd_refines_machine [OF demo_daemon_simps(1) triple_collapse] by blast



end
