(* ===== verification/Mcp.thy ===== *)
theory Mcp
  imports Api_Server Boxd
begin

text \<open>
  The control plane for AI clients: the fleet operations over the box engine
  (\<^verbatim>\<open>internal/mcp/engine_backend.go\<close>), the rendered surfaces (\<^verbatim>\<open>surface.go\<close>) and the protocol server of one
  connection (\<^verbatim>\<open>server.go\<close>).

  The memory of the backend (tasks, keys, surfaces) stands beside the world of the engine. The number of
  change signals given so far stands for the calls of the registered callbacks. A delegated task runs
  in its own goroutine: \<open>runTask\<close> is applied to what it observed, and is None while it waits. JSON is a parameter: a
  record of decoders of raw values, total because the code ignores their errors, and encoders of the two
  resources.
\<close>

section \<open>Surfaces\<close>

record surface_event =
  se_Kind :: string
  se_Target :: string
  se_Value :: string
  se_At :: int

record surface =
  su_html :: string
  su_events :: "surface_event list"

definition empty_surface :: surface where
  "empty_surface = \<lparr> su_html = [], su_events = [] \<rparr>"

definition trim_slashes :: "string \<Rightarrow> string" where
  "trim_slashes s = rev (dropWhile (\<lambda>c. c = CHR ''/'') (rev s))"

definition surface_at :: "(string \<Rightarrow> surface option) \<Rightarrow> string \<Rightarrow> surface" where
  "surface_at m name = (case m name of None \<Rightarrow> empty_surface | Some su \<Rightarrow> su)"

definition surf_Render :: "string \<Rightarrow> string \<Rightarrow> string \<Rightarrow> (string \<Rightarrow> surface option) \<Rightarrow> string \<times> (string \<Rightarrow> surface option)" where
  "surf_Render base name html m =
     (trim_slashes base @ ''/s/'' @ name, m(name \<mapsto> (surface_at m name)\<lparr>su_html := html\<rparr>))"

definition surf_Events :: "string \<Rightarrow> (string \<Rightarrow> surface option) \<Rightarrow> surface_event list" where
  "surf_Events name m = (case m name of Some su \<Rightarrow> su_events su | None \<Rightarrow> [])"

text \<open>\<open>js\<close> is the script appended to a page, with the name of the surface put in.\<close>

definition surf_serve :: "(string \<Rightarrow> string) \<Rightarrow> string \<Rightarrow> (string \<Rightarrow> surface option) \<Rightarrow> string option" where
  "surf_serve js name m = (case m name of None \<Rightarrow> None | Some su \<Rightarrow> Some (su_html su @ js name))"

definition surf_event :: "string \<Rightarrow> surface_event \<Rightarrow> time \<Rightarrow> (string \<Rightarrow> surface option) \<Rightarrow> string \<Rightarrow> surface option" where
  "surf_event name ev now m =
     (let su = surface_at m name in m(name \<mapsto> su\<lparr>su_events := su_events su @ [ev\<lparr>se_At := time_Unix now\<rparr>]\<rparr>))"

section \<open>The backend over the engine\<close>

record mcp_box =
  mb_ID :: string
  mb_Name :: string
  mb_Image :: string
  mb_State :: string
  mb_IP :: string
  mb_AgentState :: string
  mb_AgentStatus :: string
  mb_Task :: string
  mb_Result :: string
  mb_Updated :: int

record spec_box =
  sb_Key :: string
  sb_Image :: string
  sb_Task :: string

record mcp_task =
  tk_task :: string
  tk_state :: string
  tk_result :: string

record mcp_mem =
  mm_tasks :: "string \<Rightarrow> mcp_task option"
  mm_keys :: "string \<Rightarrow> string option"
  mm_surfaces :: "string \<Rightarrow> surface option"
  mm_changes :: nat

definition mcp_owner :: string where "mcp_owner = ''mcp''"

definition NewEngineBackend :: mcp_mem where
  "NewEngineBackend = \<lparr> mm_tasks = (\<lambda>_. None), mm_keys = (\<lambda>_. None), mm_surfaces = (\<lambda>_. None), mm_changes = 0 \<rparr>"

definition mcp_notify :: "mcp_mem \<Rightarrow> mcp_mem" where
  "mcp_notify m = m\<lparr>mm_changes := Suc (mm_changes m)\<rparr>"

definition setTask :: "string \<Rightarrow> string \<Rightarrow> string \<Rightarrow> string \<Rightarrow> mcp_mem \<Rightarrow> mcp_mem" where
  "setTask i taskCmd state res m =
     mcp_notify (m\<lparr>mm_tasks := (mm_tasks m)(i \<mapsto> \<lparr> tk_task = taskCmd, tk_state = state, tk_result = res \<rparr>)\<rparr>)"

text \<open>One member of the fleet: the box, with its delegated task laid over it.\<close>

definition fleet_view :: "mcp_mem \<Rightarrow> box \<Rightarrow> mcp_box" where
  "fleet_view m bx =
     (let v = \<lparr> mb_ID = b_ID bx, mb_Name = b_Name bx, mb_Image = b_ImageRef bx, mb_State = phase_text (b_Phase bx),
                mb_IP = b_IP bx, mb_AgentState = b_AgentState bx, mb_AgentStatus = b_AgentStatus bx,
                mb_Task = [], mb_Result = [], mb_Updated = time_Unix (b_UpdatedAt bx) \<rparr> in
      case mm_tasks m (b_ID bx) of
        None \<Rightarrow> v
      | Some t \<Rightarrow> v\<lparr>mb_Task := tk_task t, mb_Result := tk_result t,
                    mb_State := (if tk_state t \<noteq> [] then tk_state t else mb_State v)\<rparr>)"

definition eb_Fleet :: "('s, 'q) engine \<Rightarrow> 's \<times> mcp_mem \<Rightarrow> mcp_box list \<times> 's" where
  "eb_Fleet e = (\<lambda>(s, m).
     let (r, s') = engine_List e s in (map (fleet_view m) (case r of Inl _ \<Rightarrow> [] | Inr bs \<Rightarrow> bs), s'))"

text \<open>The epoch is a whole number of milliseconds, so the last six digits are those of the Unix time.\<close>

definition fresh_name :: "time \<Rightarrow> string" where
  "fresh_name now = ''mcp-'' @ show_int (now mod 1000000)"

definition eb_Spawn :: "('s, 'q) engine \<Rightarrow> 8 word list \<Rightarrow> time \<Rightarrow> time \<Rightarrow> string \<Rightarrow> 's \<times> 'q \<times> mcp_mem \<Rightarrow>
    string result \<times> 's \<times> 'q \<times> mcp_mem" where
  "eb_Spawn e rnd now later name0 = (\<lambda>(s, q, m).
     let name = (if name0 = [] then fresh_name now else name0) in
     case Attach e rnd now mcp_owner name (s, q) of
       (Inl er, s1, q1) \<Rightarrow> (Inl er, s1, q1, m)
     | (Inr bx, s1, q1) \<Rightarrow> (let (s2, q2) = releaser e later (b_ID bx) (s1, q1) in (Inr (b_ID bx), s2, q2, mcp_notify m)))"

definition delegateNamed :: "('s, 'q) engine \<Rightarrow> 8 word list \<Rightarrow> time \<Rightarrow> string \<Rightarrow> string \<Rightarrow> 's \<times> 'q \<times> mcp_mem \<Rightarrow>
    string result \<times> 's \<times> 'q \<times> mcp_mem" where
  "delegateNamed e rnd now username taskCmd = (\<lambda>(s, q, m).
     case Attach e rnd now mcp_owner username (s, q) of
       (Inl er, s1, q1) \<Rightarrow> (Inl er, s1, q1, m)
     | (Inr bx, s1, q1) \<Rightarrow> (Inr (b_ID bx), s1, q1, setTask (b_ID bx) taskCmd ''working'' [] m))"

definition eb_Delegate :: "('s, 'q) engine \<Rightarrow> 8 word list \<Rightarrow> time \<Rightarrow> string \<Rightarrow> 's \<times> 'q \<times> mcp_mem \<Rightarrow>
    string result \<times> 's \<times> 'q \<times> mcp_mem" where
  "eb_Delegate e rnd now taskCmd = delegateNamed e rnd now (fresh_name now) taskCmd"

text \<open>\<open>draw\<close> gives the random bytes and the time of each attachment. The keys that are alive are looked up
  once, before the loop. The result is the identifiers created and the error that ended the loop.\<close>

fun apply_loop :: "('s, 'q) engine \<Rightarrow> (nat \<Rightarrow> 8 word list \<times> time) \<Rightarrow> string set \<Rightarrow> nat \<Rightarrow> spec_box list \<Rightarrow> string list \<Rightarrow>
    's \<times> 'q \<times> mcp_mem \<Rightarrow> (string list \<times> err option) \<times> 's \<times> 'q \<times> mcp_mem" where
  "apply_loop e draw live k [] created w = ((created, None), w)"
| "apply_loop e draw live k (sb # sbs) created (s, q, m) =
     (if sb_Key sb = [] then apply_loop e draw live k sbs created (s, q, m)
      else if (case mm_keys m (sb_Key sb) of Some existing \<Rightarrow> existing \<in> live | None \<Rightarrow> False)
      then apply_loop e draw live k sbs created (s, q, m)
      else (let username = ''fleet-'' @ sb_Key sb @ (if sb_Image sb \<noteq> [] then '':'' @ sb_Image sb else []) in
            case delegateNamed e (fst (draw k)) (snd (draw k)) username (sb_Task sb) (s, q, m) of
              (Inl er, w) \<Rightarrow> ((created, Some er), w)
            | (Inr i, s1, q1, m1) \<Rightarrow>
                apply_loop e draw live (Suc k) sbs (created @ [i]) (s1, q1, m1\<lparr>mm_keys := (mm_keys m1)(sb_Key sb \<mapsto> i)\<rparr>)))"

definition eb_Apply :: "('s, 'q) engine \<Rightarrow> (nat \<Rightarrow> 8 word list \<times> time) \<Rightarrow> spec_box list \<Rightarrow> 's \<times> 'q \<times> mcp_mem \<Rightarrow>
    (string list \<times> err option) \<times> 's \<times> 'q \<times> mcp_mem" where
  "eb_Apply e draw specs = (\<lambda>(s, q, m).
     let (fleet, s1) = eb_Fleet e (s, m) in apply_loop e draw (set (map mb_ID fleet)) 0 specs [] (s1, q, m))"

section \<open>Delegated tasks\<close>

text \<open>What one turn of the waiting loop sees: whether the agent is connected, whether the box has failed,
  and whether the deadline is over. The result is None while the loop goes on.\<close>

fun await_box :: "(bool \<times> bool \<times> bool) list \<Rightarrow> string option option" where
  "await_box [] = None"
| "await_box ((conn, failed, late) # obs) =
     (if conn then Some None
      else if failed then Some (Some ''box failed to start'')
      else if late then Some (Some ''box not ready in time'')
      else await_box obs)"

function task_output :: "bytes \<Rightarrow> bytes \<Rightarrow> bytes \<times> 32 word" where
  "task_output r out =
     (case ReadExecFrame r of
        (Inl _, _) \<Rightarrow> (out, 0)
      | (Inr (ty, data, c), r') \<Rightarrow>
          if ty = ExecStdout \<or> ty = ExecStderr then task_output r' (out @ data)
          else if ty = ExecExit then (out, c)
          else task_output r' out)"
  by pat_completeness auto

termination
  by (relation "measure (\<lambda>(r, out). length r)") (auto dest: ReadExecFrame_shrinks [OF sym] ReadExecFrame_shrinks)

declare task_output.simps [simp del]

text \<open>How a delegated task ends: its state and its result. \<open>opened\<close> is what \<^verbatim>\<open>OpenExec\<close> gave: the bytes the
  stream delivers, or an error.\<close>

definition task_end :: "string option \<Rightarrow> bytes result \<Rightarrow> string \<times> string" where
  "task_end waited opened =
     (case waited of
        Some reason \<Rightarrow> (''failed'', reason)
      | None \<Rightarrow>
          (case opened of
             Inl er \<Rightarrow> (''failed'', err_text er)
           | Inr r \<Rightarrow> (let (out, code) = task_output r [] in
                        (if code \<noteq> 0 then ''failed'' else ''done'', TrimSpace (bytes_str out)))))"

definition runTask :: "('s, 'q) engine \<Rightarrow> time \<Rightarrow> string \<Rightarrow> string \<Rightarrow> (bool \<times> bool \<times> bool) list \<Rightarrow> bytes result \<Rightarrow>
    's \<times> 'q \<times> mcp_mem \<Rightarrow> ('s \<times> 'q \<times> mcp_mem) option" where
  "runTask e now i taskCmd obs opened = (\<lambda>(s, q, m).
     case await_box obs of
       None \<Rightarrow> None
     | Some waited \<Rightarrow>
         (let (st, res) = task_end waited opened; (s1, q1) = releaser e now i (s, q)
          in Some (s1, q1, setTask i taskCmd st res m)))"

section \<open>The protocol server\<close>

record 'w mcp_backend =
  be_Fleet :: "'w \<Rightarrow> mcp_box list \<times> 'w"
  be_Delegate :: "string \<Rightarrow> 'w \<Rightarrow> string result \<times> 'w"
  be_Spawn :: "string \<Rightarrow> 'w \<Rightarrow> string result \<times> 'w"
  be_Apply :: "spec_box list \<Rightarrow> 'w \<Rightarrow> (string list \<times> err option) \<times> 'w"
  be_RenderSurface :: "string \<Rightarrow> string \<Rightarrow> 'w \<Rightarrow> string \<times> 'w"
  be_SurfaceEvents :: "string \<Rightarrow> 'w \<Rightarrow> surface_event list"

record mcp_json =
  js_URI :: "string \<Rightarrow> string"
  js_Tool :: "string \<Rightarrow> string \<times> string"
  js_Task :: "string \<Rightarrow> string"
  js_Name :: "string \<Rightarrow> string"
  js_Boxes :: "string \<Rightarrow> spec_box list"
  js_Surface :: "string \<Rightarrow> string \<times> string"
  js_Fleet :: "mcp_box list \<Rightarrow> string"
  js_Events :: "surface_event list \<Rightarrow> string"

record mcp_req =
  rq_ID :: string
  rq_Method :: string
  rq_Params :: string

datatype mcp_result =
    InitializeResult | ToolsResult | TextResult string bool | ResourcesResult
  | ContentsResult string string string | EmptyResult | RpcError int string

datatype mcp_msg = Response string mcp_result | Updated string

definition fleetJSON :: "'w mcp_backend \<Rightarrow> mcp_json \<Rightarrow> 'w \<Rightarrow> string \<times> 'w" where
  "fleetJSON be js w = (let (f, w') = be_Fleet be w in (js_Fleet js f, w'))"

definition readResource :: "'w mcp_backend \<Rightarrow> mcp_json \<Rightarrow> string \<Rightarrow> 'w \<Rightarrow> string \<times> 'w" where
  "readResource be js uri w =
     (let (rest, ok) = CutPrefix uri ''hopbox://surface/'' in
      if ok then (js_Events js (be_SurfaceEvents be (TrimSuffix rest ''/events'') w), w)
      else fleetJSON be js w)"

definition call_text :: "(string \<Rightarrow> string) \<Rightarrow> string result \<times> 'w \<Rightarrow> mcp_result \<times> 'w" where
  "call_text say = (\<lambda>(r, w). (case r of Inl er \<Rightarrow> TextResult (err_text er) True | Inr i \<Rightarrow> TextResult (say i) False, w))"

definition toolCall :: "'w mcp_backend \<Rightarrow> mcp_json \<Rightarrow> string \<Rightarrow> 'w \<Rightarrow> mcp_result \<times> 'w" where
  "toolCall be js params w =
     (let (name, args) = js_Tool js params in
      if name = ''box.delegate'' then
        call_text (\<lambda>i. ''delegated (box '' @ i @ ''); watch hopbox://fleet'') (be_Delegate be (js_Task js args) w)
      else if name = ''box.spawn'' then
        call_text (\<lambda>i. ''spawned box '' @ i) (be_Spawn be (js_Name js args) w)
      else if name = ''fleet.apply'' then
        (let boxes = js_Boxes js args; ((created, er), w') = be_Apply be boxes w in
         (case er of
            Some x \<Rightarrow> TextResult (err_text x) True
          | None \<Rightarrow> TextResult (''applied '' @ show_nat (length boxes) @ '' box(es): '' @ show_nat (length created) @ '' created, '' @
              show_int (int (length boxes) - int (length created)) @ '' already present; watch hopbox://fleet'') False, w'))
      else if name = ''surface.render'' then
        (let (nm, html) = js_Surface js args; (url, w') = be_RenderSurface be nm html w in
         (TextResult (''surface '' @ quoted nm @ '' at '' @ url @ '' '' @ [CHR 0xE2, CHR 0x80, CHR 0x94] @
            '' subscribe hopbox://surface/'' @ nm @ ''/events'') False, w'))
      else if name = ''fleet.get'' then (let (t, w') = fleetJSON be js w in (TextResult t False, w'))
      else (RpcError (- 32602) (''unknown tool: '' @ name), w))"

text \<open>One request: the messages sent, the subscriptions and the world after it. \<open>guide\<close> is the text of the
  guide resource.\<close>

definition mcp_handle :: "'w mcp_backend \<Rightarrow> mcp_json \<Rightarrow> string \<Rightarrow> mcp_req \<Rightarrow> string list \<times> 'w \<Rightarrow> mcp_msg list \<times> string list \<times> 'w" where
  "mcp_handle be js guide r = (\<lambda>(subs, w).
     let m = rq_Method r; answer = (\<lambda>x. [Response (rq_ID r) x]) in
     if m = ''initialize'' then (answer InitializeResult, subs, w)
     else if m = ''notifications/initialized'' then ([], subs, w)
     else if m = ''tools/list'' then (answer ToolsResult, subs, w)
     else if m = ''tools/call'' then (let (x, w') = toolCall be js (rq_Params r) w in (answer x, subs, w'))
     else if m = ''resources/list'' then (answer ResourcesResult, subs, w)
     else if m = ''resources/read'' then
       (let uri0 = js_URI js (rq_Params r); uri = (if uri0 = [] then ''hopbox://fleet'' else uri0);
            (body, w') = readResource be js uri w
        in if uri = ''hopbox://guide'' then (answer (ContentsResult uri ''text/markdown'' guide), subs, w')
           else (answer (ContentsResult uri ''application/json'' body), subs, w'))
     else if m = ''resources/subscribe'' then (answer EmptyResult, List.insert (js_URI js (rq_Params r)) subs, w)
     else if rq_ID r \<noteq> [] then (answer (RpcError (- 32601) (''method not found: '' @ m)), subs, w)
     else ([], subs, w))"

definition notifyAll :: "string list \<Rightarrow> mcp_msg list" where
  "notifyAll subs = map Updated subs"

text \<open>The engine backend as the backend of the server, with the draws of an attachment fixed.\<close>

definition engine_backend :: "('s, 'q) engine \<Rightarrow> (nat \<Rightarrow> 8 word list \<times> time) \<Rightarrow> string \<Rightarrow> ('s \<times> 'q \<times> mcp_mem) mcp_backend" where
  "engine_backend e draw base = \<lparr>
     be_Fleet = (\<lambda>(s, q, m). let (f, s') = eb_Fleet e (s, m) in (f, s', q, m)),
     be_Delegate = eb_Delegate e (fst (draw 0)) (snd (draw 0)),
     be_Spawn = eb_Spawn e (fst (draw 0)) (snd (draw 0)) (snd (draw 1)),
     be_Apply = eb_Apply e draw,
     be_RenderSurface = (\<lambda>name html (s, q, m). let (url, sf) = surf_Render base name html (mm_surfaces m) in (url, s, q, m\<lparr>mm_surfaces := sf\<rparr>)),
     be_SurfaceEvents = (\<lambda>name (s, q, m). surf_Events name (mm_surfaces m)) \<rparr>"

section \<open>Facts\<close>

lemma delegateNamed_keys:
  "delegateNamed e rnd now u t (s, q, m) = (r, s1, q1, m1) \<Longrightarrow> mm_keys m1 = mm_keys m"
  by (auto simp: delegateNamed_def setTask_def mcp_notify_def split: prod.splits sum.splits)

text \<open>A loop that ends without an error has given every key an identifier, and keeps those it had.\<close>

lemma apply_loop_keys:
  assumes "apply_loop e draw live k sbs created (s, q, m) = ((created', None), s1, q1, m1)"
  shows "(\<forall>sb \<in> set sbs. sb_Key sb \<noteq> [] \<longrightarrow> mm_keys m1 (sb_Key sb) \<noteq> None) \<and> (\<forall>x. mm_keys m x \<noteq> None \<longrightarrow> mm_keys m1 x \<noteq> None)"
  using assms
proof (induction sbs arbitrary: k created s q m)
  case (Cons sb sbs)
  show ?case
  proof (cases "sb_Key sb = [] \<or> (case mm_keys m (sb_Key sb) of Some existing \<Rightarrow> existing \<in> live | None \<Rightarrow> False)")
    case True
    with Cons.prems have "apply_loop e draw live k sbs created (s, q, m) = ((created', None), s1, q1, m1)"
      by (auto split: if_splits)
    from Cons.IH [OF this] True show ?thesis by (auto split: option.splits)
  next
    case False
    let ?u = "''fleet-'' @ sb_Key sb @ (if sb_Image sb \<noteq> [] then '':'' @ sb_Image sb else [])"
    obtain r s2 q2 m2 where d: "delegateNamed e (fst (draw k)) (snd (draw k)) ?u (sb_Task sb) (s, q, m) = (r, s2, q2, m2)"
      using prod_cases4 by blast
    from Cons.prems False d obtain i where r: "r = Inr i" and
      l: "apply_loop e draw live (Suc k) sbs (created @ [i]) (s2, q2, m2\<lparr>mm_keys := (mm_keys m2)(sb_Key sb \<mapsto> i)\<rparr>) = ((created', None), s1, q1, m1)"
      by (cases r) (auto simp: Let_def split: if_splits)
    from Cons.IH [OF l] delegateNamed_keys [OF d] show ?thesis by auto
  qed
qed simp

lemma apply_loop_converged:
  assumes "\<forall>sb \<in> set sbs. sb_Key sb \<noteq> [] \<longrightarrow> (\<exists>i \<in> live. mm_keys m (sb_Key sb) = Some i)"
  shows "apply_loop e draw live k sbs created (s, q, m) = ((created, None), s, q, m)"
  using assms by (induction sbs) auto

text \<open>The frames of an agent's run, read into one buffer.\<close>

lemma task_output_frames:
  assumes "\<forall>(ty, c) \<in> set fs. ty \<in> {ExecStdout, ExecStderr} \<and> length c \<le> maxFrame"
  shows "task_output (concat (map (\<lambda>(ty, c). exec_frame ty c) fs) @ r) out = task_output r (out @ concat (map snd fs))"
  using assms
proof (induction fs arbitrary: out)
  case (Cons f fs)
  obtain ty c where f: "f = (ty, c)" by fastforce
  with Cons.prems have t: "ty = ExecStdout \<or> ty = ExecStderr" "length c \<le> maxFrame" by auto
  then have "ReadExecFrame (exec_frame ty c @ x) = (Inr (ty, c, 0), x)" for x
    using ReadExecFrame_frame [of c ty] by auto
  then have "task_output (exec_frame ty c @ x) out = task_output x (out @ c)" for x
    using t by (auto simp: task_output.simps [of "exec_frame ty c @ x"])
  with Cons.IH [of "out @ c"] Cons.prems f show ?case by simp
qed simp

lemma exec_kinds: "ExecExit \<noteq> ExecStdout" "ExecExit \<noteq> ExecStderr"
  by (simp_all add: ExecExit_def ExecStdout_def ExecStderr_def)

lemma frames_of_data: "concat (map snd (frames_of es)) = concat (map snd es)"
  by (induction es) (auto simp: frames_of_def concat_exec_chunks o_def)

section \<open>Properties\<close>

text \<open>Declaring a fleet converges: once a set of keyed boxes has been applied without an error, and as
  long as the boxes recorded for its keys are in the fleet, applying it again attaches to nothing,
  creates nothing and changes neither the store nor the backend's memory.\<close>

theorem fleet_apply_idempotent:
  assumes first: "eb_Apply e draw specs w = ((created, None), s1, q1, m1)"
    and list: "\<And>s r s'. sList (e_store e) (ec_Tenant (e_cfg e)) s = (r, s') \<Longrightarrow> s' = s"
    and alive: "\<And>sb i. sb \<in> set specs \<Longrightarrow> mm_keys m1 (sb_Key sb) = Some i \<Longrightarrow> i \<in> mb_ID ` set (fst (eb_Fleet e (s2, m2)))"
    and mem: "mm_keys m2 = mm_keys m1"
  shows "eb_Apply e draw' specs (s2, q2, m2) = (([], None), s2, q2, m2)"
proof -
  obtain s q m where w: "w = (s, q, m)" using prod_cases3 by blast
  from first w obtain s0 live where "apply_loop e draw live 0 specs [] (s0, q, m) = ((created, None), s1, q1, m1)"
    by (auto simp: eb_Apply_def split: prod.splits)
  from apply_loop_keys [OF this] have k: "\<forall>sb \<in> set specs. sb_Key sb \<noteq> [] \<longrightarrow> mm_keys m1 (sb_Key sb) \<noteq> None" by blast
  obtain f s3 where f: "eb_Fleet e (s2, m2) = (f, s3)" by fastforce
  have s3: "s3 = s2" using f list [of s2] by (auto simp: eb_Fleet_def engine_List_def split: prod.splits)
  have "\<forall>sb \<in> set specs. sb_Key sb \<noteq> [] \<longrightarrow> (\<exists>i \<in> set (map mb_ID f). mm_keys m2 (sb_Key sb) = Some i)"
    using k alive f mem by fastforce
  from apply_loop_converged [OF this] f s3 show ?thesis by (simp add: eb_Apply_def)
qed

definition mini_store :: "box list store_ops" where
  "mini_store = \<lparr>
     sGet = (\<lambda>t i s. (case find (\<lambda>b. b_ID b = i) s of None \<Rightarrow> Inl ErrNotFound | Some b \<Rightarrow> Inr b, s)),
     sGetByName = (\<lambda>t n s. (case find (\<lambda>b. b_Name b = n) s of None \<Rightarrow> Inl ErrNotFound | Some b \<Rightarrow> Inr b, s)),
     sList = (\<lambda>t s. (Inr s, s)),
     sCreate = (\<lambda>b s. (Inr (), s @ [b])),
     sUpdate = (\<lambda>b s. (Inr (), b, map (\<lambda>x. if b_ID x = b_ID b then b else x) s)),
     sDelete = (\<lambda>t i s. (Inr (), filter (\<lambda>b. b_ID b \<noteq> i) s)) \<rparr>"

definition mini_engine :: "(box list, unit) engine" where
  "mini_engine = NewEngine mini_store None \<lparr> ec_Tenant = ''t'', ec_DefaultImage = ''img'', ec_Backends = [''docker''], ec_DefBackend = [],
     ec_DefaultFlavor = \<lparr> fl_CPUMillis = 1000, fl_MemMB = 512 \<rparr>, ec_Persistent = None, ec_DefaultGrace = Minute \<rparr>"

theorem fleet_apply_idempotent_witness:
  "\<exists>created s1 m1. eb_Apply mini_engine (\<lambda>_. ([1], 5)) [\<lparr> sb_Key = ''a'', sb_Image = [], sb_Task = ''ls'' \<rparr>] ([], (), NewEngineBackend) =
      ((created, None), s1, (), m1) \<and> length created = 1 \<and>
    eb_Apply mini_engine (\<lambda>_. ([2], 9)) [\<lparr> sb_Key = ''a'', sb_Image = [], sb_Task = ''ls'' \<rparr>] (s1, (), m1) = (([], None), s1, (), m1)"
proof -
  let ?sp = "[\<lparr> sb_Key = ''a'', sb_Image = [], sb_Task = ''ls'' \<rparr>]"
  have ps: "ParseSpec ''fleet-a'' = Inr (zero_spec\<lparr>sp_Name := ''fleet-a''\<rparr>)" by code_simp
  obtain b where at: "Attach mini_engine [1] 5 mcp_owner ''fleet-a'' ([], ()) = (Inr b, [b], ())"
    by (simp add: Attach_def ps zero_spec_def byOwnerName_def mini_engine_def NewEngine_def mini_store_def attach_create_def build_def
        ResolveBackend_def persistent_owner_def Let_def)
  have list: "sList (e_store mini_engine) t s = (Inr s, s)" for t s by (simp add: mini_engine_def NewEngine_def mini_store_def)
  obtain m1 where ap: "eb_Apply mini_engine (\<lambda>_. ([1], 5)) ?sp ([], (), NewEngineBackend) = (([b_ID b], None), [b], (), m1)"
      and m1: "mm_keys m1 = [''a'' \<mapsto> b_ID b]"
    using at by (simp add: eb_Apply_def eb_Fleet_def engine_List_def list delegateNamed_def NewEngineBackend_def setTask_def mcp_notify_def Let_def)
  have "eb_Apply mini_engine (\<lambda>_. ([2], 9)) ?sp ([b], (), m1) = (([], None), [b], (), m1)"
  proof (rule fleet_apply_idempotent [OF ap])
    fix sb i assume "sb \<in> set ?sp" "mm_keys m1 (sb_Key sb) = Some i"
    then show "i \<in> mb_ID ` set (fst (eb_Fleet mini_engine ([b], m1)))"
      by (simp add: m1 eb_Fleet_def engine_List_def list fleet_view_def Let_def split: option.split)
  qed (simp_all add: list)
  with ap show ?thesis by (intro exI conjI) (assumption | simp)+
qed



text \<open>The protocol answers: every request that carries an identifier, but for the initialized
  notification, gets exactly one response, under its own identifier, whatever its method and
  parameters; a request for something unknown gets an error and changes nothing.\<close>

theorem mcp_answers_once:
  assumes "rq_ID r \<noteq> []" "rq_Method r \<noteq> ''notifications/initialized''"
  shows "\<exists>x subs' w'. mcp_handle be js guide r (subs, w) = ([Response (rq_ID r) x], subs', w') \<and>
    (rq_Method r \<notin> set [''initialize'', ''tools/list'', ''tools/call'', ''resources/list'', ''resources/read'', ''resources/subscribe''] \<longrightarrow>
       x = RpcError (- 32601) (''method not found: '' @ rq_Method r) \<and> subs' = subs \<and> w' = w)"
  using assms by (auto simp: mcp_handle_def Let_def split: prod.splits)

theorem mcp_answers_once_witness:
  "\<exists>x subs' w'. mcp_handle (engine_backend mini_engine (\<lambda>_. ([], 0)) []) \<lparr> js_URI = id, js_Tool = (\<lambda>p. (p, [])), js_Task = id, js_Name = id,
      js_Boxes = (\<lambda>_. []), js_Surface = (\<lambda>p. (p, p)), js_Fleet = (\<lambda>_. ''[]''), js_Events = (\<lambda>_. ''[]'') \<rparr> []
      \<lparr> rq_ID = ''7'', rq_Method = ''prompts/list'', rq_Params = [] \<rparr> ([], [], (), NewEngineBackend) = ([Response ''7'' x], subs', w') \<and>
    x = RpcError (- 32601) ''method not found: prompts/list''"
  using mcp_answers_once [of "\<lparr> rq_ID = ''7'', rq_Method = ''prompts/list'', rq_Params = [] \<rparr>" "engine_backend mini_engine (\<lambda>_. ([], 0)) []"
      "\<lparr> js_URI = id, js_Tool = (\<lambda>p. (p, [])), js_Task = id, js_Name = id,
      js_Boxes = (\<lambda>_. []), js_Surface = (\<lambda>p. (p, p)), js_Fleet = (\<lambda>_. ''[]''), js_Events = (\<lambda>_. ''[]'') \<rparr>" "[]" "[]" "([], (), NewEngineBackend)"]
  by auto

end
