(* ===== verification/Mcp_Client.thy ===== *)
theory Mcp_Client
  imports Mcp Json
begin

text \<open>
  The other end of the control plane, \<^verbatim>\<open>cmd/hopbox-mcp\<close>: the backend that runs tasks over ssh without a daemon
  (\<^verbatim>\<open>ssh_backend.go\<close>), the client that drives a plane (\<^verbatim>\<open>demo.go\<close>, \<^verbatim>\<open>ps.go\<close>, \<^verbatim>\<open>watch.go\<close>) and its reader
  (\<^verbatim>\<open>transport.go\<close>). The JSON of the protocol's parameters and resources is given by the tags of its structs.
  The locale \<open>fleet_backend\<close> is what a client relies on; the engine's backend over the box database and the
  ssh backend both satisfy it. A task of the ssh backend runs in its own goroutine: it is an entry of the list
  of running tasks, and its end is a step of its own.
\<close>

section \<open>The JSON of the protocol\<close>

definition some_str :: "string \<Rightarrow> string \<Rightarrow> (string \<times> json) list" where
  "some_str k s = (if s = [] then [] else [(k, JStr s)])"

definition enc_mcp_box :: "mcp_box \<Rightarrow> json" where
  "enc_mcp_box b = JObj ([(''id'', JStr (mb_ID b)), (''name'', JStr (mb_Name b))] @ some_str ''image'' (mb_Image b) @
     [(''state'', JStr (mb_State b))] @ some_str ''ip'' (mb_IP b) @ some_str ''agent_state'' (mb_AgentState b) @
     some_str ''agent_status'' (mb_AgentStatus b) @ some_str ''task'' (mb_Task b) @ some_str ''result'' (mb_Result b) @
     [(''updated'', JNum (show_int (mb_Updated b)))])"

fun dec_int64 :: "json \<Rightarrow> int \<Rightarrow> int \<times> bool" where
  "dec_int64 (JNum t) v =
     (let neg = starts (CHR ''-'') t; d = (if neg then tl t else t); n = (if neg then - int (read_nat d) else int (read_nat d)) in
      if d \<noteq> [] \<and> list_all is_digit d \<and> - (2 ^ 63) \<le> n \<and> n < 2 ^ 63 then (n, True) else (v, False))"
| "dec_int64 JNull v = (v, True)"
| "dec_int64 _ v = (v, False)"

definition zero_mcp_box :: mcp_box where
  "zero_mcp_box = \<lparr> mb_ID = [], mb_Name = [], mb_Image = [], mb_State = [], mb_IP = [], mb_AgentState = [], mb_AgentStatus = [],
     mb_Task = [], mb_Result = [], mb_Updated = 0 \<rparr>"

definition dec_mcp_box :: "json \<Rightarrow> mcp_box \<times> bool" where
  "dec_mcp_box = dec_struct (\<lambda>ms.
     let str = (\<lambda>k. get_field dec_str k ms []); (u, ok) = get_field dec_int64 ''updated'' ms 0 in
     (\<lparr> mb_ID = fst (str ''id''), mb_Name = fst (str ''name''), mb_Image = fst (str ''image''), mb_State = fst (str ''state''),
        mb_IP = fst (str ''ip''), mb_AgentState = fst (str ''agent_state''), mb_AgentStatus = fst (str ''agent_status''),
        mb_Task = fst (str ''task''), mb_Result = fst (str ''result''), mb_Updated = u \<rparr>,
      ok \<and> list_all (\<lambda>k. snd (str k)) [''id'', ''name'', ''image'', ''state'', ''ip'', ''agent_state'', ''agent_status'', ''task'', ''result''])) zero_mcp_box"

text \<open>A slice that was nil.\<close>

definition dec_array :: "(json \<Rightarrow> 'a \<times> bool) \<Rightarrow> json \<Rightarrow> 'a list \<times> bool" where
  "dec_array dec j = (case j of JArr js \<Rightarrow> (map (fst \<circ> dec) js, list_all (snd \<circ> dec) js) | JNull \<Rightarrow> ([], True) | _ \<Rightarrow> ([], False))"

definition enc_event :: "surface_event \<Rightarrow> json" where
  "enc_event e = JObj ([(''kind'', JStr (se_Kind e))] @ some_str ''target'' (se_Target e) @ some_str ''value'' (se_Value e) @
     [(''at'', JNum (show_int (se_At e)))])"

definition dec_event :: "json \<Rightarrow> surface_event \<times> bool" where
  "dec_event = dec_struct (\<lambda>ms.
     let (k, a) = get_field dec_str ''kind'' ms []; (t, b) = get_field dec_str ''target'' ms [];
         (v, c) = get_field dec_str ''value'' ms []; (u, d) = get_field dec_int64 ''at'' ms 0
     in (\<lparr> se_Kind = k, se_Target = t, se_Value = v, se_At = u \<rparr>, a \<and> b \<and> c \<and> d)) \<lparr> se_Kind = [], se_Target = [], se_Value = [], se_At = 0 \<rparr>"

definition dec_spec_box :: "json \<Rightarrow> spec_box \<times> bool" where
  "dec_spec_box = dec_struct (\<lambda>ms.
     let (k, a) = get_field dec_str ''key'' ms []; (i, b) = get_field dec_str ''image'' ms []; (t, c) = get_field dec_str ''task'' ms []
     in (\<lparr> sb_Key = k, sb_Image = i, sb_Task = t \<rparr>, a \<and> b \<and> c)) \<lparr> sb_Key = [], sb_Image = [], sb_Task = [] \<rparr>"

definition param :: "string \<Rightarrow> string \<Rightarrow> string" where
  "param k p = fst (Unmarshal_into (dec_struct (\<lambda>ms. get_field dec_str k ms []) []) [] p)"

text \<open>The parameters are raw texts; raw arguments are handed on. The events of a surface without events are a nil
  slice.\<close>

definition mcp_codec :: mcp_json where
  "mcp_codec = \<lparr>
     js_URI = param ''uri'',
     js_Tool = (\<lambda>p. fst (Unmarshal_into (dec_struct (\<lambda>ms.
        let (n, a) = get_field dec_str ''name'' ms []; (g, b) = get_field (\<lambda>j v. (json_show j, True)) ''arguments'' ms [] in ((n, g), a \<and> b)) ([], [])) ([], []) p)),
     js_Task = param ''task'',
     js_Name = param ''name'',
     js_Boxes = (\<lambda>p. fst (Unmarshal_into (dec_struct (\<lambda>ms. get_field (\<lambda>j v. dec_array dec_spec_box j) ''boxes'' ms []) []) [] p)),
     js_Surface = (\<lambda>p. (param ''name'' p, param ''html'' p)),
     js_Fleet = (\<lambda>f. json_show (JArr (map enc_mcp_box f))),
     js_Events = (\<lambda>es. json_show (if es = [] then JNull else JArr (map enc_event es))) \<rparr>"

section \<open>The client\<close>

text \<open>Which channel a message goes to.\<close>

fun is_notification :: "mcp_msg \<Rightarrow> bool" where
  "is_notification (Updated _) = True"
| "is_notification (Response _ _) = False"

fun toolText :: "mcp_msg \<Rightarrow> string" where
  "toolText (Response _ (TextResult t _)) = t"
| "toolText _ = []"

fun fleetFrom :: "mcp_msg \<Rightarrow> mcp_box list" where
  "fleetFrom (Response _ (ContentsResult _ _ t)) = fst (Unmarshal_into (dec_array dec_mcp_box) [] t)"
| "fleetFrom _ = []"

fun eventsFrom :: "mcp_msg \<Rightarrow> surface_event list" where
  "eventsFrom (Response _ (ContentsResult _ _ t)) = fst (Unmarshal_into (dec_array dec_event) [] t)"
| "eventsFrom _ = []"

fun str_Index :: "string \<Rightarrow> string \<Rightarrow> nat option" where
  "str_Index [] t = (if t = [] then Some 0 else None)"
| "str_Index (c # s) t = (if HasPrefix (c # s) t then Some 0 else map_option Suc (str_Index s t))"

definition TrimRight :: "string \<Rightarrow> string \<Rightarrow> string" where
  "TrimRight s cutset = rev (dropWhile (\<lambda>c. c \<in> set cutset) (rev s))"

definition idFrom :: "string \<Rightarrow> string" where
  "idFrom s =
     (case str_Index s ''box '' of
        None \<Rightarrow> []
      | Some i \<Rightarrow> (case Fields (drop (i + 4) s) of [] \<Rightarrow> [] | f # _ \<Rightarrow> TrimRight f '');''))"

definition short_id :: "string \<Rightarrow> string" where
  "short_id s = (if length s > 8 then take 8 s else s)"

definition dash :: "string \<Rightarrow> string" where
  "dash s = (if s = [] then ''-'' else s)"

definition fleet_row :: "mcp_box \<Rightarrow> string list" where
  "fleet_row b = [short_id (mb_ID b), dash (mb_Name b), dash (mb_Image b), dash (mb_State b), dash (mb_AgentState b), dash (mb_AgentStatus b)]"

text \<open>A network address, and the address in it.\<close>

definition dial_network :: "string \<Rightarrow> string \<times> string" where
  "dial_network addr = (let (s, ok) = CutPrefix addr ''unix:'' in if ok then (''unix'', s) else (''tcp'', addr))"

text \<open>One redraw of the watcher: what it prints, and how many events it has seen; None when the events are
  fewer than that.\<close>

definition watch_show :: "surface_event list \<Rightarrow> nat \<Rightarrow> (surface_event list \<times> nat) option" where
  "watch_show evs seen = (if seen \<le> length evs then Some (drop seen evs, length evs) else None)"

fun watch_run :: "surface_event list list \<Rightarrow> nat \<Rightarrow> surface_event list option" where
  "watch_run [] seen = Some []"
| "watch_run (evs # reads) seen =
     (case watch_show evs seen of
        None \<Rightarrow> None
      | Some (new, seen') \<Rightarrow> map_option (append new) (watch_run reads seen'))"

text \<open>The end of the demo: all of its boxes are done or failed.\<close>

definition demo_done :: "string set \<Rightarrow> mcp_box list \<Rightarrow> bool" where
  "demo_done mine fleet \<longleftrightarrow>
     length (filter (\<lambda>b. mb_ID b \<in> mine \<and> (mb_State b = ''done'' \<or> mb_State b = ''failed'')) fleet) = card mine"

section \<open>The standalone backend\<close>

record ssh_backend =
  xb_host :: string
  xb_keyFile :: string
  xb_order :: "string list"
  xb_boxes :: "string \<Rightarrow> mcp_box option"
  xb_keys :: "string \<Rightarrow> string option"
  xb_surfaces :: "string \<Rightarrow> surface option"
  xb_changes :: nat
  xb_seq :: nat
  xb_running :: "(string \<times> string \<times> string) list"

definition newSSHBackend :: "string \<Rightarrow> string \<Rightarrow> ssh_backend" where
  "newSSHBackend host dir = \<lparr> xb_host = host, xb_keyFile = dir @ ''/id'', xb_order = [], xb_boxes = (\<lambda>_. None), xb_keys = (\<lambda>_. None),
     xb_surfaces = (\<lambda>_. None), xb_changes = 0, xb_seq = 0, xb_running = [] \<rparr>"

text \<open>\<^verbatim>\<open>%03d\<close>.\<close>

definition pad3 :: "nat \<Rightarrow> string" where
  "pad3 n = (if n < 10 then ''00'' else if n < 100 then ''0'' else []) @ show_nat n"

definition ssh_id :: "nat \<Rightarrow> string" where
  "ssh_id n = CHR ''b'' # pad3 n"

definition ssh_notify :: "ssh_backend \<Rightarrow> ssh_backend" where
  "ssh_notify b = b\<lparr>xb_changes := Suc (xb_changes b)\<rparr>"

definition ssh_Fleet :: "ssh_backend \<Rightarrow> mcp_box list" where
  "ssh_Fleet b = map (\<lambda>i. case xb_boxes b i of Some x \<Rightarrow> x | None \<Rightarrow> zero_mcp_box) (xb_order b)"

definition ssh_newBox :: "int \<Rightarrow> string \<Rightarrow> string \<Rightarrow> ssh_backend \<Rightarrow> (string \<times> string) \<times> ssh_backend" where
  "ssh_newBox unix_now name0 task b =
     (let n = Suc (xb_seq b); i = ssh_id n; name = (if name0 = [] then ''mcp-'' @ i else name0);
          bx = zero_mcp_box\<lparr>mb_ID := i, mb_Name := name, mb_Task := task, mb_State := ''working'', mb_Updated := unix_now\<rparr>
      in ((i, name), ssh_notify (b\<lparr>xb_seq := n, xb_boxes := (xb_boxes b)(i \<mapsto> bx), xb_order := xb_order b @ [i]\<rparr>)))"

definition ssh_set :: "int \<Rightarrow> string \<Rightarrow> string \<Rightarrow> string \<Rightarrow> ssh_backend \<Rightarrow> ssh_backend" where
  "ssh_set unix_now i state res b =
     ssh_notify (case xb_boxes b i of
        None \<Rightarrow> b
      | Some bx \<Rightarrow> b\<lparr>xb_boxes := (xb_boxes b)(i \<mapsto> bx\<lparr>mb_State := state, mb_Result := res, mb_Updated := unix_now\<rparr>)\<rparr>)"

text \<open>The command line of ssh for a task.\<close>

definition ssh_args :: "ssh_backend \<Rightarrow> string \<Rightarrow> string \<Rightarrow> string list" where
  "ssh_args b name task = [''-i'', xb_keyFile b, ''-o'', ''IdentitiesOnly=yes'', ''-o'', ''StrictHostKeyChecking=accept-new'',
     ''-o'', ''UserKnownHostsFile=/dev/null'', ''-o'', ''ConnectTimeout=90'', ''-o'', ''LogLevel=ERROR'', name @ ''@'' @ xb_host b, task]"

definition ssh_runAsync :: "string \<Rightarrow> string \<Rightarrow> string \<Rightarrow> ssh_backend \<Rightarrow> ssh_backend" where
  "ssh_runAsync i name task b = b\<lparr>xb_running := xb_running b @ [(i, name, task)]\<rparr>"

text \<open>A running task ends: \<open>out\<close> is the output of ssh and \<open>er\<close> its error.\<close>

definition ssh_task_end :: "int \<Rightarrow> nat \<Rightarrow> string \<Rightarrow> err option \<Rightarrow> ssh_backend \<Rightarrow> ssh_backend" where
  "ssh_task_end unix_now k out er b =
     (let (i, name, task) = xb_running b ! k; b' = b\<lparr>xb_running := take k (xb_running b) @ drop (Suc k) (xb_running b)\<rparr> in
      case er of
        Some e \<Rightarrow> ssh_set unix_now i ''failed'' (TrimSpace (out @ '' '' @ err_text e)) b'
      | None \<Rightarrow> ssh_set unix_now i ''done'' (TrimSpace out) b')"

definition ssh_Spawn :: "int \<Rightarrow> string \<Rightarrow> ssh_backend \<Rightarrow> string result \<times> ssh_backend" where
  "ssh_Spawn unix_now name b = (let ((i, nm), b1) = ssh_newBox unix_now [] [] b in (Inr i, ssh_set unix_now i ''done'' ''spawned'' b1))"

definition ssh_Delegate :: "int \<Rightarrow> string \<Rightarrow> ssh_backend \<Rightarrow> string result \<times> ssh_backend" where
  "ssh_Delegate unix_now task b = (let ((i, nm), b1) = ssh_newBox unix_now [] task b in (Inr i, ssh_runAsync i nm task b1))"

fun ssh_apply_loop :: "int \<Rightarrow> string set \<Rightarrow> spec_box list \<Rightarrow> string list \<Rightarrow> ssh_backend \<Rightarrow> string list \<times> ssh_backend" where
  "ssh_apply_loop unix_now live [] created b = (created, b)"
| "ssh_apply_loop unix_now live (sb # sbs) created b =
     (if sb_Key sb = [] then ssh_apply_loop unix_now live sbs created b
      else if (case xb_keys b (sb_Key sb) of Some existing \<Rightarrow> existing \<in> live | None \<Rightarrow> False)
      then ssh_apply_loop unix_now live sbs created b
      else (let ((i, nm), b1) = ssh_newBox unix_now (''fleet-'' @ sb_Key sb) (sb_Task sb) b; b2 = ssh_runAsync i nm (sb_Task sb) b1 in
            ssh_apply_loop unix_now live sbs (created @ [i]) (b2\<lparr>xb_keys := (xb_keys b2)(sb_Key sb \<mapsto> i)\<rparr>)))"

definition ssh_Apply :: "int \<Rightarrow> spec_box list \<Rightarrow> ssh_backend \<Rightarrow> (string list \<times> err option) \<times> ssh_backend" where
  "ssh_Apply unix_now specs b = (let (created, b') = ssh_apply_loop unix_now (set (xb_order b)) specs [] b in ((created, None), b'))"

definition ssh_mcp :: "int \<Rightarrow> ssh_backend mcp_backend" where
  "ssh_mcp unix_now = \<lparr>
     be_Fleet = (\<lambda>b. (ssh_Fleet b, b)),
     be_Delegate = ssh_Delegate unix_now,
     be_Spawn = ssh_Spawn unix_now,
     be_Apply = ssh_Apply unix_now,
     be_RenderSurface = (\<lambda>name html b. let (url, sf) = surf_Render ''http://localhost'' name html (xb_surfaces b) in (url, b\<lparr>xb_surfaces := sf\<rparr>)),
     be_SurfaceEvents = (\<lambda>name b. surf_Events name (xb_surfaces b)) \<rparr>"

section \<open>The JSON comes back\<close>

lemma int_text_show_int: "int_text (show_int i)"
proof (cases "i < 0")
  case True
  have "hd (show_nat (nat (- i))) = CHR ''0'' \<longrightarrow> show_nat (nat (- i)) = ''0''" using show_nat_head True by fastforce
  with True show ?thesis using show_nat_digits by (auto simp: show_int_def int_text_def list_all_iff)
qed (simp add: show_int_def int_text_show_nat)

lemma dec_int64_show:
  assumes "- (2 ^ 63) \<le> i" "i < 2 ^ 63"
  shows "dec_int64 (JNum (show_int i)) v = (i, True)"
proof -
  have d: "list_all is_digit (show_nat n)" for n using show_nat_digits by (auto simp: list_all_iff)
  have n: "\<not> starts (CHR ''-'') (show_nat n)" for n
  proof -
    obtain x cs where x: "show_nat n = x # cs" by (cases "show_nat n") auto
    with d [of n] have "is_digit x" by simp
    with x digit_facts show ?thesis by auto
  qed
  show ?thesis
  proof (cases "i < 0")
    case True
    then have "show_int i = CHR ''-'' # show_nat (nat (- i))" by (simp add: show_int_def)
    with True d [of "nat (- i)"] assms show ?thesis by simp
  next
    case False
    then have "show_int i = show_nat (nat i)" by (simp add: show_int_def)
    with False d [of "nat i"] n [of "nat i"] assms show ?thesis by simp
  qed
qed

declare dec_int64.simps(1) [simp del]

definition mcp_box_fine :: "mcp_box \<Rightarrow> bool" where
  "mcp_box_fine b \<longleftrightarrow> list_all valid_utf8 [mb_ID b, mb_Name b, mb_Image b, mb_State b, mb_IP b, mb_AgentState b, mb_AgentStatus b, mb_Task b, mb_Result b] \<and>
     - (2 ^ 63) \<le> mb_Updated b \<and> mb_Updated b < 2 ^ 63"

lemma get_field_skip:
  "fold_name k \<noteq> fold_name name \<Longrightarrow> get_field dec name (some_str k s @ ms) v = get_field dec name ms v"
  by (simp add: some_str_def get_field_other)

lemma some_str_fix: "map (\<lambda>(k, v). (to_valid k, json_fix v)) (some_str k s) = some_str (to_valid k) (to_valid s)" if "valid_utf8 s"
  using that by (simp add: some_str_def to_valid_id)

definition no_field :: "string \<Rightarrow> (string \<times> json) list \<Rightarrow> bool" where
  "no_field name ms \<longleftrightarrow> list_all (\<lambda>(k, j). fold_name k \<noteq> fold_name name) ms"

lemma no_field_simps [simp]:
  "no_field name []" "no_field name ((k, j) # ms) \<longleftrightarrow> fold_name k \<noteq> fold_name name \<and> no_field name ms"
  "no_field name (some_str k s @ ms) \<longleftrightarrow> (s = [] \<or> fold_name k \<noteq> fold_name name) \<and> no_field name ms"
  by (auto simp: no_field_def some_str_def)

lemma get_field_absent: "no_field name ms \<Longrightarrow> get_field dec name ms v = (v, True)"
  by (induction ms) (auto simp: get_field_other)

lemma get_field_some: "no_field name ms \<Longrightarrow> get_field dec_str name (some_str name s @ ms) [] = (s, True)"
  by (auto simp: some_str_def get_field_absent intro!: get_field_hit) (auto simp: no_field_def list_all_iff)

lemma get_field_first: "no_field name ms \<Longrightarrow> get_field dec_str name ((name, JStr s) # ms) [] = (s, True)"
  by (auto intro!: get_field_hit simp: no_field_def list_all_iff)

lemma some_str_names [simp]: "(k, j) \<in> set (some_str n s) \<longleftrightarrow> s \<noteq> [] \<and> k = n \<and> j = JStr s"
  by (auto simp: some_str_def)

lemma enc_mcp_box_plain: "json_ints (enc_mcp_box b)" "json_depth (enc_mcp_box b) = 1"
  by (simp_all add: enc_mcp_box_def some_str_def int_text_show_int)

lemma enc_mcp_box_fix:
  "mcp_box_fine b \<Longrightarrow> json_fix (enc_mcp_box b) = enc_mcp_box b"
  by (simp add: enc_mcp_box_def mcp_box_fine_def some_str_fix to_valid_id)

lemma dec_enc_mcp_box:
  assumes "mcp_box_fine b"
  shows "dec_mcp_box (enc_mcp_box b) = (b, True)"
proof -
  obtain i n im st ip as ag tk rs u where b: "b = \<lparr> mb_ID = i, mb_Name = n, mb_Image = im, mb_State = st, mb_IP = ip, mb_AgentState = as,
      mb_AgentStatus = ag, mb_Task = tk, mb_Result = rs, mb_Updated = u \<rparr>" by (cases b)
  have "get_field dec_int64 ''updated'' [(''updated'', JNum (show_int u))] 0 = (u, True)"
    using assms by (simp add: b mcp_box_fine_def get_field_def dec_int64_show)
  then show ?thesis
    by (simp add: b enc_mcp_box_def dec_mcp_box_def dec_struct_def get_field_other get_field_skip get_field_some get_field_first)
qed

lemma fleet_text_back:
  assumes "list_all mcp_box_fine f"
  shows "Unmarshal_into (dec_array dec_mcp_box) [] (json_show (JArr (map enc_mcp_box f))) = (f, True)"
proof -
  have "json_fix (JArr (map enc_mcp_box f)) = JArr (map enc_mcp_box f)"
    using assms by (simp add: enc_mcp_box_fix list_all_iff)
  moreover have "json_ints (JArr (map enc_mcp_box f))" by (simp add: enc_mcp_box_plain list_all_iff)
  moreover have "foldr max (map (\<lambda>x. json_depth (enc_mcp_box x)) f) 0 \<le> 1" by (induction f) (simp_all add: enc_mcp_box_plain)
  then have "json_depth (JArr (map enc_mcp_box f)) \<le> 10000" by (simp add: o_def)
  ultimately have "json_parse (json_show (JArr (map enc_mcp_box f))) = Some (JArr (map enc_mcp_box f))" by (simp add: json_parse_show)
  moreover have "map (fst \<circ> dec_mcp_box \<circ> enc_mcp_box) f = f" "list_all (snd \<circ> dec_mcp_box \<circ> enc_mcp_box) f"
    using assms by (simp_all add: list_all_iff dec_enc_mcp_box map_idI)
  ultimately show ?thesis by (simp add: Unmarshal_into_def dec_array_def comp_assoc list_all_length)
qed

text \<open>The two requests of the client, with the keys of its maps in order.\<close>

definition delegate_params :: "string \<Rightarrow> string" where
  "delegate_params task = json_show (JObj [(''arguments'', JObj [(''task'', JStr task)]), (''name'', JStr ''box.delegate'')])"

definition read_params :: "string \<Rightarrow> string" where
  "read_params uri = json_show (JObj [(''uri'', JStr uri)])"

lemma delegate_params_back:
  assumes "valid_utf8 task"
  shows "js_Tool mcp_codec (delegate_params task) = (''box.delegate'', json_show (JObj [(''task'', JStr task)]))"
    "js_Task mcp_codec (json_show (JObj [(''task'', JStr task)])) = task"
proof -
  have "json_parse (delegate_params task) = Some (JObj [(''arguments'', JObj [(''task'', JStr task)]), (''name'', JStr ''box.delegate'')])"
    using json_parse_show [of "JObj [(''arguments'', JObj [(''task'', JStr task)]), (''name'', JStr ''box.delegate'')]"] assms
    by (simp add: delegate_params_def to_valid_id)
  then show "js_Tool mcp_codec (delegate_params task) = (''box.delegate'', json_show (JObj [(''task'', JStr task)]))"
    by (simp add: mcp_codec_def Unmarshal_into_def dec_struct_def get_field_def)
  have "json_parse (json_show (JObj [(''task'', JStr task)])) = Some (JObj [(''task'', JStr task)])"
    using json_parse_show [of "JObj [(''task'', JStr task)]"] assms by (simp add: to_valid_id)
  then show "js_Task mcp_codec (json_show (JObj [(''task'', JStr task)])) = task"
    by (simp add: mcp_codec_def param_def Unmarshal_into_def dec_struct_def get_field_def)
qed

lemma read_params_back: "valid_utf8 uri \<Longrightarrow> js_URI mcp_codec (read_params uri) = uri"
  using json_parse_show [of "JObj [(''uri'', JStr uri)]"]
  by (simp add: mcp_codec_def param_def read_params_def Unmarshal_into_def dec_struct_def get_field_def to_valid_id)

text \<open>The identifier in the text of a delegation.\<close>

definition plain_id :: "string \<Rightarrow> bool" where
  "plain_id i \<longleftrightarrow> i \<noteq> [] \<and> list_all (\<lambda>c. \<not> is_space c) i \<and> last i \<notin> {CHR '')'', CHR '';''}"

lemma Fields_aux_word: "list_all (\<lambda>c. \<not> is_space c) s \<Longrightarrow> rev acc @ s \<noteq> [] \<Longrightarrow> is_space c \<Longrightarrow> Fields_aux acc (s @ c # r) = (rev acc @ s) # Fields_aux [] r"
  by (induction s arbitrary: acc) auto

lemma idFrom_delegated:
  assumes "plain_id i"
  shows "idFrom (''delegated (box '' @ i @ ''); watch hopbox://fleet'') = i"
proof -
  have x: "str_Index (''delegated (box '' @ y) ''box '' = Some 11" for y by (simp add: HasPrefix_def eval_nat_numeral)
  have "Fields ((i @ '');'') @ CHR '' '' # ''watch hopbox://fleet'') = (i @ '');'') # Fields_aux [] ''watch hopbox://fleet''"
    unfolding Fields_def using assms Fields_aux_word [of "i @ '');''" "[]" "CHR '' ''" "''watch hopbox://fleet''"] by (simp add: plain_id_def is_space_def)
  moreover have "TrimRight (i @ '');'') '');'' = i"
  proof -
    have "rev i \<noteq> []" "hd (rev i) \<notin> {CHR '')'', CHR '';''}" using assms by (simp_all add: plain_id_def hd_rev)
    then show ?thesis by (cases "rev i") (auto simp: TrimRight_def rev_swap)
  qed
  ultimately show ?thesis by (simp only: idFrom_def x option.case) simp
qed

section \<open>What a client relies on\<close>

locale fleet_backend =
  fixes be :: "'w mcp_backend"
    and inv :: "'w \<Rightarrow> bool"
  assumes fleet_frame: "be_Fleet be w = (f, w') \<Longrightarrow> w' = w"
    and fleet_ids: "inv w \<Longrightarrow> distinct (map mb_ID (fst (be_Fleet be w)))"
    and delegate_listed: "inv w \<Longrightarrow> be_Delegate be task w = (Inr i, w') \<Longrightarrow>
      inv w' \<and> (\<exists>b \<in> set (fst (be_Fleet be w')). mb_ID b = i \<and> mb_State b = ''working'' \<and> mb_Task b = task)"
begin

text \<open>A read of the fleet changes nothing and gives the client the fleet.\<close>

lemma fleet_read:
  assumes "list_all mcp_box_fine (fst (be_Fleet be w))"
  shows "\<exists>msg. mcp_handle be mcp_codec guide \<lparr> rq_ID = r, rq_Method = ''resources/read'', rq_Params = read_params ''hopbox://fleet'' \<rparr> (subs, w) =
      ([msg], subs, w) \<and> fleetFrom msg = fst (be_Fleet be w)"
proof -
  obtain f w' where f: "be_Fleet be w = (f, w')" by fastforce
  have "CutPrefix ''hopbox://fleet'' ''hopbox://surface/'' = (''hopbox://fleet'', False)" by (simp add: CutPrefix_def HasPrefix_def)
  then have "readResource be mcp_codec ''hopbox://fleet'' w = (json_show (JArr (map enc_mcp_box f)), w)"
    using f fleet_frame [OF f] by (simp add: readResource_def fleetJSON_def mcp_codec_def)
  moreover have "js_URI mcp_codec (read_params ''hopbox://fleet'') = ''hopbox://fleet''" by (rule read_params_back) simp
  ultimately show ?thesis using fleet_text_back [of f] assms f by (simp add: mcp_handle_def)
qed

lemma delegate_visible:
  assumes i: "inv w" "valid_utf8 task"
    and h: "mcp_handle be mcp_codec guide \<lparr> rq_ID = r1, rq_Method = ''tools/call'', rq_Params = delegate_params task \<rparr> (subs, w) = (msgs, subs1, w1)"
    and fine: "list_all mcp_box_fine (fst (be_Fleet be w1))"
  shows "subs1 = subs \<and> (\<exists>msg. msgs = [msg] \<and>
    ((\<exists>er. msg = Response r1 (TextResult (err_text er) True)) \<or>
     (\<exists>i. toolText msg = ''delegated (box '' @ i @ ''); watch hopbox://fleet'' \<and> (plain_id i \<longrightarrow> idFrom (toolText msg) = i) \<and>
      (\<exists>msg2 b. mcp_handle be mcp_codec guide \<lparr> rq_ID = r2, rq_Method = ''resources/read'', rq_Params = read_params ''hopbox://fleet'' \<rparr> (subs, w1) = ([msg2], subs, w1) \<and>
         b \<in> set (fleetFrom msg2) \<and> mb_ID b = i \<and> mb_State b = ''working'' \<and> mb_Task b = task))))"
proof -
  obtain res w' where d: "be_Delegate be task w = (res, w')" by fastforce
  have t: "toolCall be mcp_codec (delegate_params task) w = call_text (\<lambda>i. ''delegated (box '' @ i @ ''); watch hopbox://fleet'') (res, w')"
    using d delegate_params_back [OF i(2)] by (simp add: toolCall_def)
  show ?thesis
  proof (cases res)
    case (Inl er)
    with t h show ?thesis by (auto simp: mcp_handle_def call_text_def)
  next
    case (Inr j)
    with t h have m: "msgs = [Response r1 (TextResult (''delegated (box '' @ j @ ''); watch hopbox://fleet'') False)]" "subs1 = subs" "w1 = w'"
      by (auto simp: mcp_handle_def call_text_def)
    from delegate_listed [OF i(1)] d Inr m(3) obtain b where b: "b \<in> set (fst (be_Fleet be w1))" "mb_ID b = j" "mb_State b = ''working''" "mb_Task b = task" by blast
    from fleet_read [OF fine, of guide r2 subs] b m idFrom_delegated [of j] show ?thesis by fastforce
  qed
qed

end

section \<open>The two backends\<close>

text \<open>The invariant of the ssh backend: its boxes are numbered in the order of their creation.\<close>

definition ssh_ok :: "ssh_backend \<Rightarrow> bool" where
  "ssh_ok b \<longleftrightarrow> xb_order b = map (\<lambda>n. ssh_id (Suc n)) [0..<xb_seq b] \<and> dom (xb_boxes b) = set (xb_order b) \<and>
     (\<forall>i x. xb_boxes b i = Some x \<longrightarrow> mb_ID x = i)"

lemma read_pad3: "read_nat (pad3 n) = n"
proof -
  have z: "read_nat (CHR ''0'' # s) = read_nat s" for s by (simp add: read_nat_def digit_val_def)
  show ?thesis by (simp add: pad3_def z)
qed

lemma ssh_id_inj: "ssh_id m = ssh_id n \<longleftrightarrow> m = n"
  by (metis list.inject read_pad3 ssh_id_def)

lemma ssh_newBox_ok:
  assumes "ssh_ok b" "ssh_newBox now name task b = ((i, nm), b')"
  shows "ssh_ok b' \<and> i \<notin> set (xb_order b) \<and> xb_order b' = xb_order b @ [i] \<and> xb_keys b' = xb_keys b \<and> xb_running b' = xb_running b \<and>
    xb_boxes b' = (xb_boxes b)(i \<mapsto> zero_mcp_box\<lparr>mb_ID := i, mb_Name := nm, mb_Task := task, mb_State := ''working'', mb_Updated := now\<rparr>)"
proof -
  let ?i = "ssh_id (Suc (xb_seq b))"
  have i: "i = ?i" using assms(2) by (simp add: ssh_newBox_def Let_def)
  have n: "?i \<notin> set (xb_order b)" using assms(1) by (auto simp: ssh_ok_def ssh_id_inj)
  have b': "b' = ssh_notify (b\<lparr>xb_seq := Suc (xb_seq b),
      xb_boxes := (xb_boxes b)(i \<mapsto> zero_mcp_box\<lparr>mb_ID := i, mb_Name := nm, mb_Task := task, mb_State := ''working'', mb_Updated := now\<rparr>),
      xb_order := xb_order b @ [i]\<rparr>)"
    using assms(2) by (auto simp: ssh_newBox_def Let_def)
  have "ssh_ok b'" using assms(1) i by (simp add: b' ssh_ok_def ssh_notify_def)
  with n i b' show ?thesis by (simp add: ssh_notify_def)
qed

lemma ssh_set_ok: "ssh_ok b \<Longrightarrow> ssh_ok (ssh_set now i st res b) \<and> xb_order (ssh_set now i st res b) = xb_order b"
proof -
  assume ok: "ssh_ok b"
  show ?thesis
  proof (cases "xb_boxes b i")
    case None
    with ok show ?thesis by (simp add: ssh_set_def ssh_ok_def ssh_notify_def)
  next
    case (Some x)
    then have "i \<in> set (xb_order b)" "mb_ID x = i" using ok by (auto simp: ssh_ok_def)
    with ok Some show ?thesis by (simp add: ssh_set_def ssh_ok_def ssh_notify_def insert_absorb)
  qed
qed

lemma ssh_runAsync_simps [simp]:
  "ssh_ok (ssh_runAsync i nm task b) = ssh_ok b" "xb_order (ssh_runAsync i nm task b) = xb_order b" "xb_boxes (ssh_runAsync i nm task b) = xb_boxes b"
  "xb_keys (ssh_runAsync i nm task b) = xb_keys b" "xb_running (ssh_runAsync i nm task b) = xb_running b @ [(i, nm, task)]"
  by (simp_all add: ssh_runAsync_def ssh_ok_def)

lemma ssh_keys_ok [simp]: "ssh_ok (b\<lparr>xb_keys := k\<rparr>) = ssh_ok b" "ssh_ok (b\<lparr>xb_running := r\<rparr>) = ssh_ok b" "ssh_ok (b\<lparr>xb_surfaces := sf\<rparr>) = ssh_ok b"
  by (simp_all add: ssh_ok_def)

lemma ssh_Fleet_ids: "ssh_ok b \<Longrightarrow> map mb_ID (ssh_Fleet b) = xb_order b"
proof -
  assume ok: "ssh_ok b"
  have "mb_ID (case xb_boxes b i of Some x \<Rightarrow> x | None \<Rightarrow> zero_mcp_box) = i" if i: "i \<in> set (xb_order b)" for i
  proof -
    obtain x where "xb_boxes b i = Some x" using ok i by (force simp: ssh_ok_def dom_def)
    with ok show ?thesis by (simp add: ssh_ok_def)
  qed
  then show ?thesis by (auto simp: ssh_Fleet_def intro: map_idI)
qed

interpretation ssh_fleet: fleet_backend "ssh_mcp now" ssh_ok
proof unfold_locales
  fix w w' :: ssh_backend and f
  show "be_Fleet (ssh_mcp now) w = (f, w') \<Longrightarrow> w' = w" by (simp add: ssh_mcp_def)
next
  fix w :: ssh_backend
  assume "ssh_ok w"
  then show "distinct (map mb_ID (fst (be_Fleet (ssh_mcp now) w)))" using ssh_Fleet_ids [of w] by (simp add: ssh_mcp_def ssh_ok_def distinct_map inj_on_def ssh_id_inj)
next
  fix w w' :: ssh_backend and task i
  assume ok: "ssh_ok w" and d: "be_Delegate (ssh_mcp now) task w = (Inr i, w')"
  obtain nm b1 where n: "ssh_newBox now [] task w = ((i, nm), b1)" and w': "w' = ssh_runAsync i nm task b1"
    using d by (auto simp: ssh_mcp_def ssh_Delegate_def split: prod.splits)
  from ssh_newBox_ok [OF ok n] w' show "ssh_ok w' \<and> (\<exists>b \<in> set (fst (be_Fleet (ssh_mcp now) w')). mb_ID b = i \<and> mb_State b = ''working'' \<and> mb_Task b = task)"
    by (simp add: ssh_mcp_def ssh_Fleet_def)
qed

text \<open>A declared fleet over ssh: the images asked for are not looked at, and a key that is in the declaration twice
  gets two boxes, because the boxes that are alive are looked up once, before the loop. Declaring the same fleet again
  creates nothing.\<close>

lemma ssh_apply_ignores_image: "ssh_Apply now (map (\<lambda>sb. sb\<lparr>sb_Image := im\<rparr>) specs) b = ssh_Apply now specs b"
proof -
  have "ssh_apply_loop now live (map (\<lambda>sb. sb\<lparr>sb_Image := im\<rparr>) specs) created b = ssh_apply_loop now live specs created b" for live created b
    by (induction specs arbitrary: created b) (simp_all add: Let_def split: prod.splits)
  then show ?thesis by (simp add: ssh_Apply_def)
qed

lemma ssh_apply_duplicate_key:
  assumes "ssh_ok b" "xb_keys b k = None" "k \<noteq> []"
  shows "length (fst (fst (ssh_Apply now [\<lparr> sb_Key = k, sb_Image = [], sb_Task = t \<rparr>, \<lparr> sb_Key = k, sb_Image = [], sb_Task = t \<rparr>] b))) = 2"
proof -
  obtain i nm b1 where n: "ssh_newBox now (''fleet-'' @ k) t b = ((i, nm), b1)" by (metis surj_pair)
  from ssh_newBox_ok [OF assms(1) n] have "i \<notin> set (xb_order b)" by simp
  with n assms show ?thesis by (simp add: ssh_Apply_def ssh_newBox_ok [OF assms(1) n] split: prod.splits)
qed

definition ssh_keys_live :: "ssh_backend \<Rightarrow> bool" where
  "ssh_keys_live b \<longleftrightarrow> ran (xb_keys b) \<subseteq> set (xb_order b)"

lemma ssh_apply_loop_keys:
  assumes "ssh_ok b" "ssh_keys_live b" "ssh_apply_loop now live sbs created b = (created', b')"
  shows "ssh_ok b' \<and> ssh_keys_live b' \<and> dom (xb_keys b) \<subseteq> dom (xb_keys b') \<and> (\<forall>sb \<in> set sbs. sb_Key sb \<noteq> [] \<longrightarrow> sb_Key sb \<in> dom (xb_keys b'))"
  using assms
proof (induction sbs arbitrary: created b)
  case (Cons sb sbs)
  show ?case
  proof (cases "sb_Key sb = [] \<or> (case xb_keys b (sb_Key sb) of Some existing \<Rightarrow> existing \<in> live | None \<Rightarrow> False)")
    case True
    then have l: "ssh_apply_loop now live sbs created b = (created', b')" and k: "sb_Key sb = [] \<or> sb_Key sb \<in> dom (xb_keys b)"
      using Cons.prems(3) by (auto split: option.splits if_splits)
    from Cons.IH [OF Cons.prems(1,2) l] k show ?thesis by auto
  next
    case False
    obtain i nm b1 where n: "ssh_newBox now (''fleet-'' @ sb_Key sb) (sb_Task sb) b = ((i, nm), b1)" by (metis surj_pair)
    note o = ssh_newBox_ok [OF Cons.prems(1) n]
    let ?b = "(ssh_runAsync i nm (sb_Task sb) b1)\<lparr>xb_keys := (xb_keys b1)(sb_Key sb \<mapsto> i)\<rparr>"
    have l: "ssh_apply_loop now live sbs (created @ [i]) ?b = (created', b')" using Cons.prems(3) False n by (auto split: if_splits)
    have "ssh_ok ?b" using o by simp
    moreover have "ssh_keys_live ?b" using o Cons.prems(2) by (auto simp: ssh_keys_live_def ran_def)
    ultimately have s: "ssh_ok b' \<and> ssh_keys_live b' \<and> dom (xb_keys ?b) \<subseteq> dom (xb_keys b') \<and> (\<forall>sb \<in> set sbs. sb_Key sb \<noteq> [] \<longrightarrow> sb_Key sb \<in> dom (xb_keys b'))"
      by (rule Cons.IH [OF _ _ l])
    moreover have "dom (xb_keys ?b) = insert (sb_Key sb) (dom (xb_keys b))" using o by simp
    ultimately show ?thesis by (simp only: set_simps) blast
  qed
qed simp

lemma ssh_apply_again:
  assumes "ssh_ok b" "ssh_keys_live b" "ssh_Apply now specs b = ((created, None), b')"
  shows "ssh_Apply now' specs b' = (([], None), b')"
proof -
  have l: "ssh_apply_loop now (set (xb_order b)) specs [] b = (created, b')" using assms(3) by (auto simp: ssh_Apply_def split: prod.splits)
  have "ssh_apply_loop now' (set (xb_order b')) sbs acc b' = (acc, b')" if "\<forall>sb \<in> set sbs. sb_Key sb \<noteq> [] \<longrightarrow> sb_Key sb \<in> dom (xb_keys b')" for sbs acc
    using that ssh_apply_loop_keys [OF assms(1,2) l, THEN conjunct2, THEN conjunct1]
    by (induction sbs) (auto simp: ssh_keys_live_def ran_def)
  then show ?thesis using ssh_apply_loop_keys [OF assms(1,2) l] by (simp add: ssh_Apply_def)
qed

text \<open>The engine's backend over the box database of the daemon.\<close>

lemma boxd_attach_listed:
  assumes "db_wf db" "bd_fault db = None" "Attach (boxd_engine c now) rnd now owner u (db, q) = (Inr b, db', q')"
  shows "db_wf db' \<and> bd_fault db' = None \<and> (\<exists>y \<in> set (db_boxes db'). b_ID y = b_ID b \<and> b_TenantID y = engineTenant)"
proof -
  let ?e = "boxd_engine c now"
  have st: "e_store ?e = boxsqlite_store now" by (simp add: boxd_engine_def NewEngine_def)
  note s = boxdb.Attach_sound [OF assms(1) st assms(3)]
  have f: "bd_fault db' = None"
    using assms(2,3) by (auto simp: Attach_def attach_reuse_def attach_create_def byOwnerName_def boxd_engine_def NewEngine_def boxsqlite_store_def
        bs_List_def bs_Create_def bs_Update_def Let_def split: sum.splits prod.splits if_splits option.splits)
  have t: "b_TenantID b = engineTenant"
  proof (cases "ParseSpec u")
    case (Inr spec)
    obtain ro s1 where l: "byOwnerName ?e owner (sp_Name spec) db = (ro, s1)" by fastforce
    show ?thesis
    proof (cases ro)
      case r: (Inr x)
      from l r obtain bs s2 where bs: "sList (boxsqlite_store now) engineTenant db = (Inr bs, s2)" "x \<in> set bs"
        by (auto simp: byOwnerName_def st boxd_engine_def NewEngine_def find_Some_iff split: sum.splits prod.splits option.splits)
      with boxdb.list_sound [OF assms(1) bs(1)] have "b_TenantID x = engineTenant" by (auto simp: engineTenant_def)
      moreover have "b_TenantID b = b_TenantID x"
        using assms(3) Inr l r by (auto simp: Attach_def attach_reuse_def st boxsqlite_store_def bs_Update_def Let_def split: if_splits prod.splits sum.splits option.splits)
      ultimately show ?thesis by simp
    next
      case r: (Inl er)
      with assms(3) Inr l obtain b0 where "build (e_cfg ?e) rnd now owner spec = Inr b0" "b = b0\<lparr>b_Attached := True\<rparr>"
        by (auto simp: Attach_def attach_create_def Let_def split: if_splits prod.splits sum.splits)
      with build_box(2) show ?thesis by (simp add: boxd_engine_def NewEngine_def)
    qed
  qed (use assms(3) in \<open>simp add: Attach_def\<close>)
  have "\<exists>y \<in> set (upd_rows now z rs). b_ID y = b_ID x \<and> b_TenantID y = b_TenantID x"
    if x: "x \<in> set rs" and z: "b_ID z = b_ID x" for x z rs
    using x by (intro bexI [of _ "overwrite now x z"]) (auto simp: upd_rows_def z overwrite_def intro!: image_eqI [of _ _ x])
  with s have "\<exists>y \<in> set (db_boxes db'). b_ID y = b_ID b \<and> b_TenantID y = b_TenantID b"
    by (fastforce simp: box_identity_def)
  with s f t show ?thesis by auto
qed

interpretation boxd_fleet: fleet_backend "engine_backend (boxd_engine c now) (\<lambda>_. (rnd, now)) base" "\<lambda>(db, q, m). db_wf db \<and> bd_fault db = None"
proof unfold_locales
  fix w w' :: "boxes_db \<times> reconcile_req list \<times> mcp_mem" and f
  assume "be_Fleet (engine_backend (boxd_engine c now) (\<lambda>_. (rnd, now)) base) w = (f, w')"
  then show "w' = w"
    by (auto simp: engine_backend_def eb_Fleet_def engine_List_def boxd_engine_def NewEngine_def boxsqlite_store_def bs_List_def split: prod.splits option.splits)
next
  fix w :: "boxes_db \<times> reconcile_req list \<times> mcp_mem"
  obtain db q m where w: "w = (db, q, m)" by (cases w)
  assume "case w of (db, q, m) \<Rightarrow> db_wf db \<and> bd_fault db = None"
  then have ok: "db_wf db" "bd_fault db = None" by (simp_all add: w)
  have "mb_ID (fleet_view m x) = b_ID x" for x by (simp add: fleet_view_def Let_def split: option.splits)
  moreover have "distinct (map b_ID (db_boxes db))" using ok(1) by (simp add: db_wf_ids) (simp add: db_wf_def)
  ultimately show "distinct (map mb_ID (fst (be_Fleet (engine_backend (boxd_engine c now) (\<lambda>_. (rnd, now)) base) w)))"
    using bs_List_rows [OF ok] by (simp add: w engine_backend_def eb_Fleet_def engine_List_def boxd_engine_def NewEngine_def boxsqlite_store_def comp_def distinct_map_filter)
next
  fix w w' :: "boxes_db \<times> reconcile_req list \<times> mcp_mem" and task i
  obtain db q m where w: "w = (db, q, m)" by (cases w)
  assume "case w of (db, q, m) \<Rightarrow> db_wf db \<and> bd_fault db = None"
  then have ok: "db_wf db" "bd_fault db = None" by (simp_all add: w)
  assume d: "be_Delegate (engine_backend (boxd_engine c now) (\<lambda>_. (rnd, now)) base) task w = (Inr i, w')"
  then obtain b db' q' where at: "Attach (boxd_engine c now) rnd now mcp_owner (fresh_name now) (db, q) = (Inr b, db', q')"
      and i: "i = b_ID b" and w': "w' = (db', q', setTask i task ''working'' [] m)"
    by (auto simp: w engine_backend_def eb_Delegate_def delegateNamed_def split: prod.splits sum.splits)
  from boxd_attach_listed [OF ok at] obtain y where y: "db_wf db'" "bd_fault db' = None" "y \<in> set (db_boxes db')" "b_ID y = i" "b_TenantID y = engineTenant"
    by (auto simp: i)
  let ?v = "fleet_view (setTask i task ''working'' [] m) y"
  have "?v \<in> set (fst (be_Fleet (engine_backend (boxd_engine c now) (\<lambda>_. (rnd, now)) base) w'))"
    using bs_List_rows [OF y(1,2)] y(3,5)
    by (simp add: w' engine_backend_def eb_Fleet_def engine_List_def boxd_engine_def NewEngine_def boxsqlite_store_def)
  moreover have "mb_ID ?v = i" "mb_State ?v = ''working''" "mb_Task ?v = task"
    using y(4) by (simp_all add: fleet_view_def Let_def setTask_def mcp_notify_def)
  ultimately show "(case w' of (db, q, m) \<Rightarrow> db_wf db \<and> bd_fault db = None) \<and>
      (\<exists>b \<in> set (fst (be_Fleet (engine_backend (boxd_engine c now) (\<lambda>_. (rnd, now)) base) w')). mb_ID b = i \<and> mb_State b = ''working'' \<and> mb_Task b = task)"
    using y(1,2) by (auto simp: w')
qed

section \<open>Watching a surface\<close>

text \<open>What happens to the surfaces between two reads of the watcher: pages are rendered, and people use them.\<close>

datatype surf_op = SRender string string | SEvent string surface_event time

fun surf_step :: "string \<Rightarrow> surf_op \<Rightarrow> (string \<Rightarrow> surface option) \<Rightarrow> string \<Rightarrow> surface option" where
  "surf_step base (SRender name html) m = snd (surf_Render base name html m)"
| "surf_step base (SEvent name ev now) m = surf_event name ev now m"

definition surf_steps :: "string \<Rightarrow> surf_op list \<Rightarrow> (string \<Rightarrow> surface option) \<Rightarrow> string \<Rightarrow> surface option" where
  "surf_steps base ops m = fold (surf_step base) ops m"

definition events_uri :: "string \<Rightarrow> string" where
  "events_uri name = ''hopbox://surface/'' @ name @ ''/events''"

text \<open>The watcher's call for the events, answered by the server of the plane.\<close>

definition watch_call :: "'w mcp_backend \<Rightarrow> string \<Rightarrow> string \<Rightarrow> 'w \<Rightarrow> surface_event list" where
  "watch_call be guide uri w =
     (case mcp_handle be mcp_codec guide \<lparr> rq_ID = ''3'', rq_Method = ''resources/read'', rq_Params = read_params uri \<rparr> ([uri], w) of
        (msg # _, _) \<Rightarrow> eventsFrom msg
      | _ \<Rightarrow> [])"

text \<open>The reads of a session over the engine's backend, one after each part of the history.\<close>

fun watch_reads :: "('s, 'q) engine \<Rightarrow> (nat \<Rightarrow> 8 word list \<times> time) \<Rightarrow> string \<Rightarrow> string \<Rightarrow> string \<Rightarrow> surf_op list list \<Rightarrow> 's \<times> 'q \<times> mcp_mem \<Rightarrow>
    surface_event list list" where
  "watch_reads e draw base guide uri [] w = []"
| "watch_reads e draw base guide uri (ops # rest) (s, q, m) =
     (let w' = (s, q, m\<lparr>mm_surfaces := surf_steps base ops (mm_surfaces m)\<rparr>)
      in watch_call (engine_backend e draw base) guide uri w' # watch_reads e draw base guide uri rest w')"

definition event_fine :: "surface_event \<Rightarrow> bool" where
  "event_fine ev \<longleftrightarrow> list_all valid_utf8 [se_Kind ev, se_Target ev, se_Value ev] \<and> - (2 ^ 63) \<le> se_At ev \<and> se_At ev < 2 ^ 63"

lemma dec_enc_event:
  assumes "event_fine ev"
  shows "dec_event (enc_event ev) = (ev, True)" "json_fix (enc_event ev) = enc_event ev" "json_ints (enc_event ev)" "json_depth (enc_event ev) = 1"
proof -
  obtain k t v u where ev: "ev = \<lparr> se_Kind = k, se_Target = t, se_Value = v, se_At = u \<rparr>" by (cases ev)
  have "get_field dec_int64 ''at'' [(''at'', JNum (show_int u))] 0 = (u, True)"
    using assms by (simp add: ev event_fine_def get_field_def dec_int64_show)
  then show "dec_event (enc_event ev) = (ev, True)"
    by (simp add: ev enc_event_def dec_event_def dec_struct_def get_field_other get_field_skip get_field_some get_field_first)
  show "json_fix (enc_event ev) = enc_event ev" using assms by (simp add: enc_event_def event_fine_def some_str_fix to_valid_id)
  show "json_ints (enc_event ev)" "json_depth (enc_event ev) = 1" by (simp_all add: enc_event_def some_str_def int_text_show_int)
qed

lemma events_text_back:
  assumes "list_all event_fine es"
  shows "Unmarshal_into (dec_array dec_event) [] (js_Events mcp_codec es) = (es, True)"
proof (cases "es = []")
  case True
  have "json_parse ''null'' = Some JNull" using json_parse_show [of JNull] by simp
  with True show ?thesis by (simp add: mcp_codec_def Unmarshal_into_def dec_array_def)
next
  case False
  have "json_fix (JArr (map enc_event es)) = JArr (map enc_event es)" "json_ints (JArr (map enc_event es))"
    using assms by (simp_all add: dec_enc_event list_all_iff)
  moreover have "foldr max (map (\<lambda>x. json_depth (enc_event x)) es) 0 \<le> 1" using assms by (induction es) (simp_all add: dec_enc_event)
  then have "json_depth (JArr (map enc_event es)) \<le> 10000" by (simp add: o_def)
  ultimately have "json_parse (json_show (JArr (map enc_event es))) = Some (JArr (map enc_event es))" by (simp add: json_parse_show)
  moreover have "map (fst \<circ> dec_event \<circ> enc_event) es = es" "list_all (snd \<circ> dec_event \<circ> enc_event) es"
    using assms by (simp_all add: list_all_iff dec_enc_event map_idI)
  ultimately show ?thesis using False by (simp add: mcp_codec_def Unmarshal_into_def dec_array_def comp_assoc list_all_length)
qed

text \<open>The events of a surface only grow.\<close>

lemma surf_step_events: "\<exists>ys. surf_Events name (surf_step base op m) = surf_Events name m @ ys"
  by (cases op) (auto simp: surf_Render_def surf_event_def surf_Events_def surface_at_def empty_surface_def Let_def split: option.splits)

lemma surf_steps_events: "\<exists>ys. surf_Events name (surf_steps base ops m) = surf_Events name m @ ys"
proof (induction ops arbitrary: m)
  case (Cons op ops)
  obtain ys where "surf_Events name (surf_step base op m) = surf_Events name m @ ys" using surf_step_events by blast
  with Cons [of "surf_step base op m"] show ?case by (auto simp: surf_steps_def)
qed (simp add: surf_steps_def)

lemma watch_call_events:
  assumes "valid_utf8 (events_uri name)" "list_all event_fine (surf_Events name (mm_surfaces m))"
  shows "watch_call (engine_backend e draw base) guide (events_uri name) (s, q, m) = surf_Events name (mm_surfaces m)"
proof -
  have "CutPrefix (events_uri name) ''hopbox://surface/'' = (name @ ''/events'', True)" by (simp add: CutPrefix_def HasPrefix_def events_uri_def)
  moreover have "TrimSuffix (name @ ''/events'') ''/events'' = name" by (simp add: TrimSuffix_def HasSuffix_def HasPrefix_def)
  ultimately have "readResource (engine_backend e draw base) mcp_codec (events_uri name) (s, q, m) = (js_Events mcp_codec (surf_Events name (mm_surfaces m)), s, q, m)"
    by (simp add: readResource_def engine_backend_def)
  moreover have "events_uri name \<noteq> []" "events_uri name \<noteq> ''hopbox://guide''" by (simp_all add: events_uri_def)
  ultimately show ?thesis
    using events_text_back [OF assms(2)] read_params_back [OF assms(1)] by (simp add: watch_call_def mcp_handle_def Let_def)
qed

definition demo_hist :: "surf_op list list" where
  "demo_hist = [[SRender ''ask'' ''<button id=ok>''], [SEvent ''ask'' \<lparr> se_Kind = ''click'', se_Target = ''ok'', se_Value = [], se_At = 0 \<rparr> 7000], []]"

text \<open>C34: 
  A person's use of a page reaches the watcher exactly once and in order: over any history of the page (renders, events
  on it and on others) cut anywhere by the reads of the watcher, what it prints is what was recorded, from the
  first event to those of the last read, and it never runs past the events it has seen.
\<close>

theorem watcher_prints_each_event:
  assumes "valid_utf8 (events_uri name)"
    and "list_all event_fine (surf_Events name (surf_steps base (concat hist) (mm_surfaces m)))"
  shows "watch_run (watch_reads e draw base guide (events_uri name) hist (s, q, m)) (length (surf_Events name (mm_surfaces m))) =
    Some (drop (length (surf_Events name (mm_surfaces m))) (surf_Events name (surf_steps base (concat hist) (mm_surfaces m))))"
  using assms(2)
proof (induction hist arbitrary: m)
  case (Cons ops rest)
  let ?m = "m\<lparr>mm_surfaces := surf_steps base ops (mm_surfaces m)\<rparr>"
  let ?old = "surf_Events name (mm_surfaces m)" and ?new = "surf_Events name (mm_surfaces ?m)"
  let ?all = "surf_Events name (surf_steps base (concat rest) (mm_surfaces ?m))"
  have c: "surf_steps base (concat (ops # rest)) (mm_surfaces m) = surf_steps base (concat rest) (mm_surfaces ?m)" by (simp add: surf_steps_def)
  obtain ys zs where y: "?new = ?old @ ys" and z: "?all = ?new @ zs" using surf_steps_events by (metis mcp_mem.select_convs(3) mcp_mem.update_convs(3) mcp_mem.surjective)
  have "list_all event_fine ?all" using Cons.prems c by simp
  with z have "watch_call (engine_backend e draw base) guide (events_uri name) (s, q, ?m) = ?new"
    by (intro watch_call_events [OF assms(1)]) (simp add: list_all_append)
  moreover have "watch_run (watch_reads e draw base guide (events_uri name) rest (s, q, ?m)) (length ?new) = Some (drop (length ?new) ?all)"
    by (rule Cons.IH) (use Cons.prems c in simp)
  ultimately show ?case using y z c by (simp add: Let_def watch_show_def)
qed (simp add: surf_steps_def)

theorem watcher_prints_each_event_witness:
  "watch_run (watch_reads (boxd_engine demo_cfg 0) (\<lambda>_. ([], 0)) [] [] (events_uri ''ask'') demo_hist
      (demo_db (demo_box PhaseRunning), [], NewEngineBackend)) 0 =
   Some [\<lparr> se_Kind = ''click'', se_Target = ''ok'', se_Value = [], se_At = time_Unix 7000 \<rparr>]"
proof -
  have u: "valid_utf8 (events_uri ''ask'')" by (simp add: events_uri_def)
  have ev: "surf_Events ''ask'' (surf_steps [] (concat demo_hist) (mm_surfaces NewEngineBackend)) =
      [\<lparr> se_Kind = ''click'', se_Target = ''ok'', se_Value = [], se_At = time_Unix 7000 \<rparr>]"
    by (simp add: demo_hist_def surf_steps_def surf_Render_def surf_event_def surf_Events_def surface_at_def empty_surface_def NewEngineBackend_def Let_def)
  have n: "surf_Events ''ask'' (mm_surfaces NewEngineBackend) = []" by (simp add: NewEngineBackend_def surf_Events_def)
  have "event_fine \<lparr> se_Kind = ''click'', se_Target = ''ok'', se_Value = [], se_At = time_Unix 7000 \<rparr>"
    by (simp add: event_fine_def time_Unix_def unix_epoch_secs_def)
  with watcher_prints_each_event [OF u, of "[]" demo_hist NewEngineBackend "boxd_engine demo_cfg 0" "\<lambda>_. ([], 0)" "[]" "demo_db (demo_box PhaseRunning)" "[]"] ev n
  show ?thesis by simp
qed

section \<open>The reader and its channels\<close>

text \<open>The reader takes the messages of the connection one by one and puts each in the channel of its kind; a channel
  holds 64. The client waits either for a notification or, in a call, for the response. The server pushes an update at
  any time, and answers the request of a call.\<close>

record rt_state =
  rt_wire :: "mcp_msg list"
  rt_notifs :: "mcp_msg list"
  rt_responses :: "mcp_msg list"
  rt_calling :: bool

definition rt_cap :: nat where "rt_cap = 64"

text \<open>One turn of the reader; None while the channel of the message is full or there is no message.\<close>

definition rt_route :: "rt_state \<Rightarrow> rt_state option" where
  "rt_route st =
     (case rt_wire st of
        [] \<Rightarrow> None
      | m # ms \<Rightarrow>
          if is_notification m
          then (if length (rt_notifs st) < rt_cap then Some (st\<lparr>rt_wire := ms, rt_notifs := rt_notifs st @ [m]\<rparr>) else None)
          else (if length (rt_responses st) < rt_cap then Some (st\<lparr>rt_wire := ms, rt_responses := rt_responses st @ [m]\<rparr>) else None))"

text \<open>One turn of the client: the end of a call, or the next notification, which starts one.\<close>

definition rt_client :: "rt_state \<Rightarrow> rt_state option" where
  "rt_client st =
     (if rt_calling st
      then (case rt_responses st of [] \<Rightarrow> None | _ # rs \<Rightarrow> Some (st\<lparr>rt_responses := rs, rt_calling := False\<rparr>))
      else (case rt_notifs st of [] \<Rightarrow> None | _ # ns \<Rightarrow> Some (st\<lparr>rt_notifs := ns, rt_calling := True\<rparr>)))"

inductive rt_step :: "rt_state \<Rightarrow> rt_state \<Rightarrow> bool" where
  route: "rt_route st = Some st' \<Longrightarrow> rt_step st st'"
| client: "rt_client st = Some st' \<Longrightarrow> rt_step st st'"
| push: "is_notification m \<Longrightarrow> rt_step st (st\<lparr>rt_wire := rt_wire st @ [m]\<rparr>)"
| answer: "\<not> is_notification m \<Longrightarrow> rt_calling st \<Longrightarrow> rt_step st (st\<lparr>rt_wire := rt_wire st @ [m]\<rparr>)"

text \<open>While no more than 64 notifications come before it, a response gets through and the call ends.\<close>

lemma rt_route_all:
  assumes "list_all is_notification ns" "length (rt_notifs st) + length ns \<le> rt_cap" "rt_wire st = ns @ ms"
  shows "rt_step\<^sup>*\<^sup>* st (st\<lparr>rt_wire := ms, rt_notifs := rt_notifs st @ ns\<rparr>)"
  using assms
proof (induction ns arbitrary: st)
  case Nil
  then have "st\<lparr>rt_wire := ms, rt_notifs := rt_notifs st @ []\<rparr> = st" by (cases st) simp
  then show ?case by simp
next
  case (Cons n ns)
  let ?st = "st\<lparr>rt_wire := ns @ ms, rt_notifs := rt_notifs st @ [n]\<rparr>"
  have "rt_step st ?st" by (rule rt_step.route) (use Cons.prems in \<open>simp add: rt_route_def\<close>)
  moreover have "rt_step\<^sup>*\<^sup>* ?st (?st\<lparr>rt_wire := ms, rt_notifs := rt_notifs ?st @ ns\<rparr>)" by (rule Cons.IH) (use Cons.prems in simp_all)
  ultimately show ?case by (simp add: converse_rtranclp_into_rtranclp)
qed

lemma call_ends:
  assumes "list_all is_notification ns" "length (rt_notifs st) + length ns \<le> rt_cap" "rt_wire st = ns @ m # ms" "\<not> is_notification m"
    and "rt_calling st" "rt_responses st = []"
  shows "rt_step\<^sup>*\<^sup>* st (st\<lparr>rt_wire := ms, rt_notifs := rt_notifs st @ ns, rt_calling := False\<rparr>)"
proof -
  let ?a = "st\<lparr>rt_wire := m # ms, rt_notifs := rt_notifs st @ ns\<rparr>"
  have "rt_step ?a (?a\<lparr>rt_wire := ms, rt_responses := [m]\<rparr>)"
    by (rule rt_step.route) (use assms in \<open>simp add: rt_route_def rt_cap_def\<close>)
  moreover have "rt_step (?a\<lparr>rt_wire := ms, rt_responses := [m]\<rparr>) (st\<lparr>rt_wire := ms, rt_notifs := rt_notifs st @ ns, rt_calling := False\<rparr>)"
    by (rule rt_step.client) (use assms in \<open>simp add: rt_client_def\<close>)
  ultimately show ?thesis using rt_route_all [OF assms(1-3)] by (meson rtranclp.rtrancl_into_rtrancl)
qed

text \<open>One more, and neither the reader nor the client ever moves again, whatever the server sends.\<close>

definition rt_stuck :: "rt_state \<Rightarrow> bool" where
  "rt_stuck st \<longleftrightarrow> rt_calling st \<and> rt_responses st = [] \<and> length (rt_notifs st) = rt_cap \<and> (\<exists>n ms. rt_wire st = n # ms \<and> is_notification n)"

inductive_cases rt_stepE: "rt_step st st'"

lemma rt_stuck_forever: "rt_step\<^sup>*\<^sup>* st st' \<Longrightarrow> rt_stuck st \<Longrightarrow> rt_stuck st'"
proof (induction rule: rtranclp_induct)
  case (step st1 st2)
  then have "rt_stuck st1" by simp
  with step.hyps(2) show ?case by (elim rt_stepE) (auto simp: rt_stuck_def rt_route_def rt_client_def)
qed

text \<open>Sixty-five changes of the fleet during one call are enough.\<close>

lemma reader_deadlock:
  assumes "rt_calling st" "rt_responses st = []" "rt_notifs st = []" "rt_wire st = []"
  shows "\<exists>st1. rt_step\<^sup>*\<^sup>* st st1 \<and> (\<forall>st2. rt_step\<^sup>*\<^sup>* st1 st2 \<longrightarrow> rt_calling st2)"
proof -
  have p: "rt_step\<^sup>*\<^sup>* st (st\<lparr>rt_wire := rt_wire st @ replicate k (Updated u)\<rparr>)" for k
  proof (induction k)
    case (Suc k)
    have "rt_step (st\<lparr>rt_wire := rt_wire st @ replicate k (Updated u)\<rparr>) (st\<lparr>rt_wire := rt_wire st @ replicate (Suc k) (Updated u)\<rparr>)"
      using rt_step.push [of "Updated u" "st\<lparr>rt_wire := rt_wire st @ replicate k (Updated u)\<rparr>"] by (simp add: replicate_append_same)
    with Suc show ?case by (rule rtranclp.rtrancl_into_rtrancl)
  qed simp
  let ?full = "st\<lparr>rt_wire := [Updated u], rt_notifs := replicate 64 (Updated u)\<rparr>"
  have s: "replicate 65 (Updated u) = replicate 64 (Updated u) @ [Updated u]" by (simp add: eval_nat_numeral)
  have "rt_step\<^sup>*\<^sup>* (st\<lparr>rt_wire := replicate 65 (Updated u)\<rparr>) ?full"
    using rt_route_all [of "replicate 64 (Updated u)" "st\<lparr>rt_wire := replicate 65 (Updated u)\<rparr>" "[Updated u]"] assms(3) s
    by (simp add: rt_cap_def list_all_iff del: replicate.simps)
  with p [of 65] assms(4) have "rt_step\<^sup>*\<^sup>* st ?full" by (simp del: replicate.simps)
  moreover have "rt_stuck ?full" using assms(1,2) by (simp add: rt_stuck_def rt_cap_def)
  ultimately show ?thesis using rt_stuck_forever by (metis rt_stuck_def)
qed

section \<open>Delegation\<close>


definition empty_db :: boxes_db where
  "empty_db = \<lparr> bd_rows = [], bd_fault = None, bd_conflict = Errorf ''UNIQUE constraint failed'' \<rparr>"

definition demo_new_box :: box where
  "demo_new_box = (case build (e_cfg (boxd_engine demo_cfg 7)) [1] 7 mcp_owner (zero_spec\<lparr>sp_Name := ''mcp-7''\<rparr>) of Inl _ \<Rightarrow> zero_box | Inr b \<Rightarrow> b)\<lparr>b_Attached := True\<rparr>"

lemma demo_new_box_fields:
  "b_ID demo_new_box = ''01''" "b_Name demo_new_box = ''mcp-7''" "b_ImageRef demo_new_box = ''alpine''" "b_Phase demo_new_box = PhasePending"
  "b_IP demo_new_box = []" "b_AgentState demo_new_box = []" "b_AgentStatus demo_new_box = []" "b_UpdatedAt demo_new_box = 7" "b_TenantID demo_new_box = engineTenant"
proof -
  have h: "hex_byte 1 = ''01''" by code_simp
  show "b_ID demo_new_box = ''01''" by (simp add: h demo_new_box_def boxd_engine_def NewEngine_def build_def ResolveBackend_def persistent_owner_def Let_def zero_spec_def demo_cfg_def
      newID_def zero_box_def Apply_def New_def ResolveFlavor_def hex_encode_def)
qed (simp_all add: demo_new_box_def boxd_engine_def NewEngine_def build_def ResolveBackend_def persistent_owner_def Let_def zero_spec_def demo_cfg_def
      newID_def zero_box_def Apply_def New_def ResolveFlavor_def hex_encode_def)

lemma demo_delegated:
  "\<exists>q'. Attach (boxd_engine demo_cfg 7) [1] 7 mcp_owner (fresh_name 7) (empty_db, []) = (Inr demo_new_box, demo_db demo_new_box, q')"
proof -
  have "show_nat 7 = ''7''" by code_simp
  then have f: "fresh_name 7 = ''mcp-7''" by (simp add: fresh_name_def show_int_def)
  have ps: "ParseSpec ''mcp-7'' = Inr (zero_spec\<lparr>sp_Name := ''mcp-7''\<rparr>)" by code_simp
  show ?thesis
    by (simp add: Attach_def f ps zero_spec_def byOwnerName_def boxd_engine_def NewEngine_def boxsqlite_store_def bs_List_def bs_Create_def attach_create_def build_def
        demo_new_box_def empty_db_def demo_db_def ResolveBackend_def persistent_owner_def Let_def demo_cfg_def)
qed

text \<open>The first delegation to a daemon without boxes.\<close>

definition demo_plane :: "(boxes_db \<times> reconcile_req list \<times> mcp_mem) mcp_backend" where
  "demo_plane = engine_backend (boxd_engine demo_cfg 7) (\<lambda>_. ([1], 7)) []"


end
