(* ===== verification/Box_Guest.thy ===== *)
theory Box_Guest
  imports Box_Meta
begin

text \<open>
  The in-box client of the metadata API, \<^verbatim>\<open>cmd/box-guest\<close>: the command line (\<^verbatim>\<open>main.go\<close>) and the tool server
  it runs for an AI agent in the box (\<^verbatim>\<open>mcp.go\<close>). The HTTP client is a function of method, URL and body over
  a world; the properties put the metadata server of \<open>Box_Meta\<close> behind it, with the JSON decoders of its
  request bodies. A response of the tool server is the JSON value that is written on one line.
\<close>

section \<open>Requests\<close>

record http_reply =
  hr_StatusCode :: nat
  hr_Status :: string
  hr_Body :: string

type_synonym 'w http_client = "string \<Rightarrow> string \<Rightarrow> string \<Rightarrow> 'w \<Rightarrow> http_reply result \<times> 'w"

definition guest_base :: "(string \<Rightarrow> string) \<Rightarrow> string" where
  "guest_base getenv = (if getenv ''BOX_META'' \<noteq> [] then getenv ''BOX_META'' else ''http://169.254.169.254'')"

definition doGet :: "'w http_client \<Rightarrow> string \<Rightarrow> 'w \<Rightarrow> string result \<times> 'w" where
  "doGet http url w =
     (case http ''GET'' url [] w of
        (Inl e, w') \<Rightarrow> (Inl e, w')
      | (Inr r, w') \<Rightarrow> (if hr_StatusCode r \<ge> 300 then Inl (Errorf (hr_Status r)) else Inr (hr_Body r), w'))"

definition doPost :: "'w http_client \<Rightarrow> string \<Rightarrow> string \<Rightarrow> 'w \<Rightarrow> unit result \<times> 'w" where
  "doPost http url body w =
     (case http ''POST'' url body w of
        (Inl e, w') \<Rightarrow> (Inl e, w')
      | (Inr r, w') \<Rightarrow> (if hr_StatusCode r \<ge> 300 then Inl (Errorf (hr_Status r)) else Inr (), w'))"

definition guest_keepAlive :: "'w http_client \<Rightarrow> string \<Rightarrow> string \<Rightarrow> 'w \<Rightarrow> unit result \<times> 'w" where
  "guest_keepAlive http b dur =
     doPost http (b @ ''/v1/me/keep-alive'')
       (if dur \<noteq> [] then ''{'' @ quoted ''duration'' @ '':'' @ quoted dur @ ''}'' else ''{}'')"

definition guest_autoSuspend :: "'w http_client \<Rightarrow> string \<Rightarrow> bool \<Rightarrow> 'w \<Rightarrow> unit result \<times> 'w" where
  "guest_autoSuspend http b on =
     doPost http (b @ ''/v1/me/auto-suspend'') (''{'' @ quoted ''enabled'' @ '':'' @ (if on then ''true'' else ''false'') @ ''}'')"

definition setIdle :: "'w http_client \<Rightarrow> string \<Rightarrow> string \<Rightarrow> 'w \<Rightarrow> unit result \<times> 'w" where
  "setIdle http b timeout = doPost http (b @ ''/v1/me/idle'') (''{'' @ quoted ''timeout'' @ '':'' @ quoted timeout @ ''}'')"

definition setStatus :: "'w http_client \<Rightarrow> string \<Rightarrow> string \<Rightarrow> string \<Rightarrow> 'w \<Rightarrow> unit result \<times> 'w" where
  "setStatus http b state status =
     doPost http (b @ ''/v1/me/status'')
       (''{'' @ quoted ''state'' @ '':'' @ quoted state @ '','' @ quoted ''status'' @ '':'' @ quoted status @ ''}'')"

section \<open>The command line\<close>

text \<open>What a run prints on its two output streams, and its exit code.\<close>

record run_end =
  re_Stdout :: string
  re_Stderr :: string
  re_Code :: nat

definition guest_arg :: "string list \<Rightarrow> nat \<Rightarrow> string" where
  "guest_arg args i = (if length args > i then args ! i else [])"

definition emit :: "string result \<Rightarrow> run_end" where
  "emit r =
     (case r of
        Inl e \<Rightarrow> \<lparr> re_Stdout = [], re_Stderr = ''box-guest: '' @ err_text e @ [CHR 0x0A], re_Code = 1 \<rparr>
      | Inr out \<Rightarrow> \<lparr> re_Stdout = out, re_Stderr = [], re_Code = 0 \<rparr>)"

definition emit_unit :: "unit result \<times> 'w \<Rightarrow> run_end \<times> 'w" where
  "emit_unit = (\<lambda>(r, w). (emit (map_sum id (\<lambda>_. []) r), w))"

definition emit_text :: "string result \<times> 'w \<Rightarrow> run_end \<times> 'w" where
  "emit_text = (\<lambda>(r, w). (emit r, w))"

text \<open>\<open>mcp\<close> is a run of the tool server, \<open>help\<close> the usage text.\<close>

definition box_guest :: "'w http_client \<Rightarrow> (string \<Rightarrow> string) \<Rightarrow> string \<Rightarrow> (string \<Rightarrow> 'w \<Rightarrow> run_end \<times> 'w) \<Rightarrow> string list \<Rightarrow> 'w \<Rightarrow> run_end \<times> 'w" where
  "box_guest http getenv help mcp args w =
     (let cmd = guest_arg args 0; b = guest_base getenv; a = guest_arg args 1 in
      if cmd = ''info'' then emit_text (doGet http (b @ ''/v1/me'') w)
      else if cmd = ''time'' then emit_text (doGet http (b @ ''/v1/me/time'') w)
      else if cmd = ''keep-alive'' then emit_unit (guest_keepAlive http b a w)
      else if cmd = ''auto-suspend'' then
        (if a = ''on'' then emit_unit (guest_autoSuspend http b True w)
         else if a = ''off'' then emit_unit (guest_autoSuspend http b False w)
         else if a = ''status'' \<or> a = [] then emit_text (doGet http (b @ ''/v1/me'') w)
         else (\<lparr> re_Stdout = [], re_Stderr = ''box-guest: auto-suspend on|off|status'' @ [CHR 0x0A], re_Code = 2 \<rparr>, w))
      else if cmd = ''idle'' then emit_unit (setIdle http b a w)
      else if cmd = ''status'' then emit_unit (setStatus http b a (guest_arg args 2) w)
      else if cmd = ''mcp'' then mcp b w
      else (\<lparr> re_Stdout = help @ [CHR 0x0A], re_Stderr = [],
              re_Code = (if cmd \<noteq> [] \<and> cmd \<noteq> ''help'' \<and> cmd \<noteq> ''-h'' \<and> cmd \<noteq> ''--help'' then 2 else 0) \<rparr>, w))"

section \<open>The tool server\<close>

record rpc_request =
  gr_JSONRPC :: string
  gr_ID :: "json option"
  gr_Method :: string
  gr_Params :: "json option"

text \<open>A raw message takes any value, null included.\<close>

definition dec_raw :: "json \<Rightarrow> json option \<Rightarrow> json option \<times> bool" where
  "dec_raw j v = (Some j, True)"

definition dec_rpc :: "json \<Rightarrow> rpc_request \<times> bool" where
  "dec_rpc = dec_struct (\<lambda>ms.
     let (v, a) = get_field dec_str ''jsonrpc'' ms []; (i, b) = get_field dec_raw ''id'' ms None;
         (m, c) = get_field dec_str ''method'' ms []; (p, d) = get_field dec_raw ''params'' ms None
     in (\<lparr> gr_JSONRPC = v, gr_ID = i, gr_Method = m, gr_Params = p \<rparr>, a \<and> b \<and> c \<and> d))
     \<lparr> gr_JSONRPC = [], gr_ID = None, gr_Method = [], gr_Params = None \<rparr>"

text \<open>The arguments of a call are a map of any values: the last of several members with a name counts.\<close>

definition map_arg :: "(string \<times> json) list \<Rightarrow> string \<Rightarrow> json option" where
  "map_arg ms k = map_of (rev ms) k"

definition guest_str :: "(string \<times> json) list \<Rightarrow> string \<Rightarrow> string" where
  "guest_str a k = (case map_arg a k of Some (JStr s) \<Rightarrow> s | _ \<Rightarrow> [])"

definition guest_schema :: "(string \<times> string) list \<Rightarrow> json" where
  "guest_schema props = JObj [(''properties'', JObj (map (\<lambda>(k, ty). (k, JObj [(''type'', JStr ty)])) props)), (''type'', JStr ''object'')]"

record 'w guest_tool =
  gt_Name :: string
  gt_Description :: string
  gt_InputSchema :: json
  gt_run :: "(string \<times> json) list \<Rightarrow> 'w \<Rightarrow> string result \<times> 'w"

definition say :: "string \<Rightarrow> unit result \<times> 'w \<Rightarrow> string result \<times> 'w" where
  "say text = (\<lambda>(r, w). (map_sum id (\<lambda>_. text) r, w))"

definition guest_tools :: "'w http_client \<Rightarrow> string \<Rightarrow> 'w guest_tool list" where
  "guest_tools http b =
     [\<lparr> gt_Name = ''box_info'', gt_Description = ''Show this box's metadata (load, idle, suspend settings, resources).'',
        gt_InputSchema = guest_schema [], gt_run = (\<lambda>a. doGet http (b @ ''/v1/me'')) \<rparr>,
      \<lparr> gt_Name = ''box_keep_alive'', gt_Description = ''Pin the box alive (prevent auto-suspend) for a Go duration like 30m (default 5m).'',
        gt_InputSchema = guest_schema [(''duration'', ''string'')],
        gt_run = (\<lambda>a w. say ''kept alive'' (guest_keepAlive http b (guest_str a ''duration'') w)) \<rparr>,
      \<lparr> gt_Name = ''box_auto_suspend'', gt_Description = ''Enable or disable auto-suspend on idle.'',
        gt_InputSchema = guest_schema [(''enabled'', ''boolean'')],
        gt_run = (\<lambda>a w. let on = (map_arg a ''enabled'' = Some (JBool True)) in
          say (''auto-suspend='' @ (if on then ''true'' else ''false'')) (guest_autoSuspend http b on w)) \<rparr>,
      \<lparr> gt_Name = ''box_set_idle'', gt_Description = ''Set this box's idle timeout (Go duration; empty resets to the daemon default).'',
        gt_InputSchema = guest_schema [(''timeout'', ''string'')],
        gt_run = (\<lambda>a w. say ''idle timeout set'' (setIdle http b (guest_str a ''timeout'') w)) \<rparr>,
      \<lparr> gt_Name = ''box_set_status'', gt_Description = ''Report what this agent is doing (state: working|blocked|done, plus a status line) '' @
          [CHR 0xE2, CHR 0x80, CHR 0x94] @ '' shown in the fleet at-a-glance view.'',
        gt_InputSchema = guest_schema [(''state'', ''string''), (''status'', ''string'')],
        gt_run = (\<lambda>a w. say ''status set'' (setStatus http b (guest_str a ''state'') (guest_str a ''status'') w)) \<rparr>]"

definition toolResult :: "string \<Rightarrow> bool \<Rightarrow> json" where
  "toolResult text isErr = JObj [(''content'', JArr [JObj [(''text'', JStr text), (''type'', JStr ''text'')]]), (''isError'', JBool isErr)]"

text \<open>The name and the arguments of a call; what does not fit is left empty.\<close>

fun dec_args :: "json \<Rightarrow> (string \<times> json) list \<Rightarrow> (string \<times> json) list \<times> bool" where
  "dec_args (JObj ms) v = (v @ ms, True)"
| "dec_args JNull v = ([], True)"
| "dec_args _ v = (v, False)"

definition dec_call :: "json \<Rightarrow> (string \<times> (string \<times> json) list) \<times> bool" where
  "dec_call = dec_struct (\<lambda>ms.
     let (n, a) = get_field dec_str ''name'' ms []; (g, b) = get_field dec_args ''arguments'' ms [] in ((n, g), a \<and> b)) ([], [])"

definition callTool :: "'w guest_tool list \<Rightarrow> json option \<Rightarrow> 'w \<Rightarrow> json \<times> 'w" where
  "callTool ts params w =
     (let (name, args) = (case params of None \<Rightarrow> ([], []) | Some j \<Rightarrow> fst (dec_call j)) in
      case find (\<lambda>t. gt_Name t = name) ts of
        None \<Rightarrow> (toolResult (''unknown tool: '' @ name) True, w)
      | Some t \<Rightarrow>
          (case gt_run t args w of
             (Inl e, w') \<Rightarrow> (toolResult (name @ '': '' @ err_text e) True, w')
           | (Inr text, w') \<Rightarrow> (toolResult text False, w')))"

definition tool_json :: "'w guest_tool \<Rightarrow> json" where
  "tool_json t = JObj [(''name'', JStr (gt_Name t)), (''description'', JStr (gt_Description t)), (''inputSchema'', gt_InputSchema t)]"

definition rpc_result :: "json \<Rightarrow> json \<Rightarrow> json" where
  "rpc_result i x = JObj [(''jsonrpc'', JStr ''2.0''), (''id'', i), (''result'', x)]"

definition rpc_error :: "json \<Rightarrow> string \<Rightarrow> json" where
  "rpc_error i msg = JObj [(''jsonrpc'', JStr ''2.0''), (''id'', i), (''error'', JObj [(''code'', JNum ''-32601''), (''message'', JStr msg)])]"

definition guest_dispatch :: "'w guest_tool list \<Rightarrow> json \<Rightarrow> rpc_request \<Rightarrow> 'w \<Rightarrow> json \<times> 'w" where
  "guest_dispatch ts i req w =
     (if gr_Method req = ''initialize'' then
        (rpc_result i (JObj [(''capabilities'', JObj [(''tools'', JObj [])]), (''protocolVersion'', JStr ''2024-11-05''),
           (''serverInfo'', JObj [(''name'', JStr ''box-guest''), (''version'', JStr ''1'')])]), w)
      else if gr_Method req = ''tools/list'' then (rpc_result i (JObj [(''tools'', JArr (map tool_json ts))]), w)
      else if gr_Method req = ''tools/call'' then (let (x, w') = callTool ts (gr_Params req) w in (rpc_result i x, w'))
      else (rpc_error i (''method not found: '' @ gr_Method req), w))"

definition guest_max_line :: nat where "guest_max_line = 4194304"

text \<open>The lines of the input, each without its end; the loop ends at a line beyond the buffer.\<close>

fun guest_serve :: "'w guest_tool list \<Rightarrow> string list \<Rightarrow> 'w \<Rightarrow> json list \<times> 'w" where
  "guest_serve ts [] w = ([], w)"
| "guest_serve ts (l # ls) w =
     (if length l \<ge> guest_max_line then ([], w)
      else case Unmarshal_text dec_rpc l of
        Inl _ \<Rightarrow> guest_serve ts ls w
      | Inr req \<Rightarrow>
          (case gr_ID req of
             None \<Rightarrow> guest_serve ts ls w
           | Some i \<Rightarrow> (let (x, w1) = guest_dispatch ts i req w; (xs, w2) = guest_serve ts ls w1 in (x # xs, w2))))"

definition runMCP :: "'w http_client \<Rightarrow> string \<Rightarrow> string list \<Rightarrow> 'w \<Rightarrow> json list \<times> 'w" where
  "runMCP http b ls w = guest_serve (guest_tools http b) ls w"

section \<open>The metadata server behind it\<close>

text \<open>The decoder of a request body: the first JSON value of it, into the struct of the handler. \<open>load\<close> stands
  for the number of a heartbeat, which this client never sends.\<close>

definition Decode_body :: "(json \<Rightarrow> 'a \<times> bool) \<Rightarrow> bytes \<Rightarrow> 'a result" where
  "Decode_body dec b =
     (case json_read (bytes_str b) of
        None \<Rightarrow> Inl json_error
      | Some (j, _) \<Rightarrow> (let (v, ok) = dec j in if ok then Inr v else Inl json_error))"

definition meta_json :: "(bytes \<Rightarrow> rat result) \<Rightarrow> meta_decoders" where
  "meta_json load = \<lparr>
     dec_load = load,
     dec_duration = Decode_body (dec_struct (\<lambda>ms. get_field dec_str ''duration'' ms []) []),
     dec_enabled = Decode_body (dec_struct (\<lambda>ms. get_field dec_bool ''enabled'' ms False) False),
     dec_timeout = Decode_body (dec_struct (\<lambda>ms. get_field dec_str ''timeout'' ms []) []),
     dec_status = Decode_body (dec_struct (\<lambda>ms.
       let (s, a) = get_field dec_str ''state'' ms []; (t, b) = get_field dec_str ''status'' ms [] in ((s, t), a \<and> b)) ([], [])) \<rparr>"

text \<open>The reply of the server to the client; \<open>doc\<close> is the text of a document.\<close>

definition reason_phrase :: "nat \<Rightarrow> string" where
  "reason_phrase n = (if n = 200 then ''OK'' else if n = 204 then ''No Content'' else if n = 400 then ''Bad Request''
     else if n = 404 then ''Not Found'' else if n = 405 then ''Method Not Allowed'' else [])"

definition meta_reply :: "(meta_response \<Rightarrow> string) \<Rightarrow> meta_response \<Rightarrow> http_reply" where
  "meta_reply doc r =
     (let n = (case r of MetaError n _ \<Rightarrow> n | MetaNoContent \<Rightarrow> 204 | _ \<Rightarrow> 200) in
      \<lparr> hr_StatusCode = n, hr_Status = show_nat n @ '' '' @ reason_phrase n, hr_Body = doc r \<rparr>)"

definition meta_http :: "'s meta_server \<Rightarrow> meta_decoders \<Rightarrow> (meta_response \<Rightarrow> string) \<Rightarrow> time \<Rightarrow> string \<Rightarrow> string \<Rightarrow> 's http_client" where
  "meta_http sv D doc now b addr m url body s =
     (let (resp, s') = meta_Handler sv D now \<lparr> rq_Method = m, rq_Path = drop (length b) url, rq_RemoteAddr = addr,
            rq_ContentLength = int (length body), rq_Body = str_bytes body \<rparr> s
      in (Inr (meta_reply doc resp), s'))"

section \<open>Bodies\<close>

fun q_members :: "(string \<times> string) list \<Rightarrow> string" where
  "q_members [] = ''}''"
| "q_members [(k, v)] = quoted k @ '':'' @ quoted v @ ''}''"
| "q_members ((k, v) # kv # kvs) = quoted k @ '':'' @ quoted v @ '','' @ q_members (kv # kvs)"

lemma json_value_quoted: "list_all plain_char v \<Longrightarrow> json_value (Suc n) (quoted v @ r) = Some (JStr v, r)"
  by (simp add: quoted_def json_ws_skip unquote_quoted)

lemma json_members_quoted:
  assumes "list_all (\<lambda>(k, v). list_all plain_char k \<and> list_all plain_char v) kvs" "kvs \<noteq> []" "length kvs < n"
  shows "json_members n (q_members kvs @ r) = Some (map (\<lambda>(k, v). (k, JStr v)) kvs, r)"
  using assms
proof (induction kvs arbitrary: n rule: q_members.induct)
  case (2 k v)
  then obtain m where n: "n = Suc (Suc m)" by (auto dest!: less_imp_Suc_add)
  have k: "unquote (concat (map quote_char k) @ CHR 0x22 # x) = Some (k, x)" for x using 2 by (intro unquote_quoted) simp
  have v: "json_value (Suc m) (quoted v @ x) = Some (JStr v, x)" for x using 2 by (intro json_value_quoted) simp
  show ?case unfolding n by (simp add: quoted_def [of k] json_ws_skip k v Let_def del: json_value.simps)
next
  case (3 k v kv kvs)
  then obtain m where n: "n = Suc (Suc m)" by (auto dest!: less_imp_Suc_add)
  have k: "unquote (concat (map quote_char k) @ CHR 0x22 # x) = Some (k, x)" for x using 3 by (intro unquote_quoted) simp
  have v: "json_value (Suc m) (quoted v @ x) = Some (JStr v, x)" for x using 3 by (intro json_value_quoted) simp
  have "json_members (Suc m) (q_members (kv # kvs) @ r) = Some (map (\<lambda>(k, v). (k, JStr v)) (kv # kvs), r)"
    by (rule "3.IH") (use 3 n in auto)
  then show ?case unfolding n by (simp add: quoted_def [of k] json_ws_skip k v Let_def del: json_value.simps)
qed simp

lemma q_members_head: "kvs \<noteq> [] \<Longrightarrow> \<exists>s. q_members kvs = CHR 0x22 # s"
  by (cases kvs rule: q_members.cases) (simp_all add: quoted_def)

lemma q_members_length: "length kvs \<le> length (q_members kvs)"
  by (induction kvs rule: q_members.induct) simp_all

lemma json_read_quoted:
  assumes "list_all (\<lambda>(k, v). list_all plain_char k \<and> list_all plain_char v) kvs" "kvs \<noteq> []"
  shows "json_read (CHR ''{'' # q_members kvs) = Some (JObj (map (\<lambda>(k, v). (k, JStr v)) kvs), [])"
proof -
  obtain s where s: "q_members kvs = CHR 0x22 # s" using q_members_head [OF assms(2)] by blast
  have "length kvs < 2 * length (CHR ''{'' # q_members kvs)" using q_members_length [of kvs] by simp
  from json_members_quoted [OF assms this, of "[]"]
  have m: "json_members (2 * length (CHR ''{'' # q_members kvs)) (q_members kvs) = Some (map (\<lambda>(k, v). (k, JStr v)) kvs, [])" by simp
  have w: "json_ws (CHR ''{'' # q_members kvs) = CHR ''{'' # q_members kvs" "json_ws (q_members kvs) = q_members kvs" "\<not> starts (CHR ''}'') (q_members kvs)"
    unfolding s by (simp_all add: json_ws_skip)
  have v: "json_value (Suc (2 * length (CHR ''{'' # q_members kvs))) (CHR ''{'' # q_members kvs) = Some (JObj (map (\<lambda>(k, v). (k, JStr v)) kvs), [])"
    unfolding json_value.simps w Let_def using w m by simp
  have d: "foldr max (map (\<lambda>x. json_depth (snd x)) (map (\<lambda>(k, v). (k, JStr v)) kvs)) 0 = 0" by (induction kvs) auto
  then have "json_depth (JObj (map (\<lambda>(k, v). (k, JStr v)) kvs)) \<le> 10000" by (simp add: o_def case_prod_unfold)
  with v show ?thesis by (simp add: json_read_def)
qed

text \<open>A control character that JSON cannot escape that way ends the reading.\<close>

lemma json_members_control:
  assumes "list_all plain_char k" "list_all plain_char v" "(of_char c :: nat) < 32 \<or> c = CHR 0x7F" "\<not> plain_char c"
  shows "json_members n (quoted k @ '':'' @ quoted (v @ c # t) @ r) = None"
proof (cases n)
  case (Suc m)
  have k: "unquote (concat (map quote_char k) @ CHR 0x22 # x) = Some (k, x)" for x by (rule unquote_quoted [OF assms(1)])
  have "json_value m (quoted (v @ c # t) @ r) = None"
    using unquote_control [OF assms(2-4), of t "CHR 0x22 # r"] by (cases m) (simp_all add: quoted_def json_ws_skip)
  with k show ?thesis unfolding Suc by (simp add: quoted_def [of k] json_ws_skip Let_def del: json_value.simps)
qed simp

section \<open>From the command to the row\<close>

text \<open>A request from an address comes from one known box.\<close>

definition sole_box :: "boxes_db \<Rightarrow> string \<Rightarrow> string \<Rightarrow> box \<Rightarrow> bool" where
  "sole_box db addr i x \<longleftrightarrow> db_wf db \<and> bd_fault db = None \<and> row (db_boxes db) i = Some x \<and> b_IP x \<noteq> [] \<and>
     map_option fst (SplitHostPort addr) = Some (b_IP x) \<and> list_all (\<lambda>y. b_IP y = b_IP x \<longrightarrow> b_ID y = i) (db_boxes db)"

definition only_row :: "boxes_db \<Rightarrow> boxes_db \<Rightarrow> string \<Rightarrow> box \<Rightarrow> bool" where
  "only_row db db' i y \<longleftrightarrow> db_wf db' \<and> row (db_boxes db') i = Some y \<and> (\<forall>j. j \<noteq> i \<longrightarrow> row (db_boxes db') j = row (db_boxes db) j)"

lemma sole_box_GetByIP:
  assumes "sole_box db addr i x"
  shows "bs_GetByIP (b_IP x) db = (Inr x, db)"
proof -
  note s = assms [unfolded sole_box_def]
  have d: "distinct (map b_ID (db_boxes db))" using s boxdb.wf_ids by blast
  have x: "x \<in> set (db_boxes db)" "b_ID x = i" using s row_Some_iff [OF d] by blast+
  then obtain r0 where r0: "r0 \<in> set (bd_rows db)" "x = scanned r0" by (auto simp: db_boxes_scanned)
  have "rw_ip r0 = b_IP x" using db_wf_columns(5) [OF _ r0(1)] r0(2) s by simp
  with r0(1) have "filter (\<lambda>r. rw_ip r = b_IP x) (bd_rows db) \<noteq> []" by (auto simp: filter_empty_conv)
  then obtain r where r: "first_desc (\<lambda>r. stamp_key (rw_updated_at r)) (filter (\<lambda>r. rw_ip r = b_IP x) (bd_rows db)) = Some r"
    by (metis first_desc_None not_None_eq)
  then have m: "r \<in> set (bd_rows db)" "rw_ip r = b_IP x" using first_desc_max by fastforce+
  have "scanned r \<in> set (db_boxes db)" "b_IP (scanned r) = b_IP x" using m db_wf_columns(5) [OF _ m(1)] s by (simp_all add: db_boxes_scanned)
  with s have "b_ID (scanned r) = i" by (auto simp: list_all_iff)
  with \<open>scanned r \<in> set (db_boxes db)\<close> x d have "scanned r = x" by (metis distinct_map inj_onD)
  with r s db_wf_scan [OF _ m(1)] show ?thesis by (simp add: bs_GetByIP_def Box_Sqlite.one_def)
qed

lemma sole_box_mutate:
  assumes s: "sole_box db addr i x" and t: "\<And>b. tuned b (fn b)"
  shows "\<exists>db'. boxd_mutate now (b_IP x) fn db = (Inr (), db') \<and> only_row db db' i (overwrite now x (fn x))"
proof -
  note s' = s [unfolded sole_box_def]
  obtain res db' where m: "boxd_mutate now (b_IP x) fn db = (res, db')" by fastforce
  obtain r b db2 where u: "bs_Update now (fn x) db = (r, b, db2)" by (metis prod_cases3)
  have d: "distinct (map b_ID (db_boxes db))" using s' boxdb.wf_ids by blast
  have x: "x \<in> set (db_boxes db)" "b_ID x = i" using s' row_Some_iff [OF d] by blast+
  have "phase_ok (b_Phase (fn x))" using boxdb.wf_row [OF _ x(1)] s' tuned_same(2) [OF t] by simp
  from bs_Update_rows [OF _ this u] s' have r: "is_ok r" by simp
  have ok: "res = Inr ()" using m u r sole_box_GetByIP [OF s] by (auto simp: boxd_mutate_def is_ok_iff)
  note k = boxd_mutate_tunes [OF _ t m]
  have o: "row (db_boxes db') j = row (db_boxes db) j" if "j \<noteq> i" for j
  proof (rule ccontr)
    assume "row (db_boxes db') j \<noteq> row (db_boxes db) j"
    with k s' obtain y where y: "row (db_boxes db) j = Some y" "b_IP y = b_IP x" by blast
    with row_Some_iff [OF d] s' have "b_ID y = i" "b_ID y = j" by (auto simp: list_all_iff)
    with that show False by simp
  qed
  from k s' ok obtain z where z: "row (db_boxes db) (b_ID z) = Some z" "b_IP z = b_IP x" "row (db_boxes db') (b_ID z) = Some (overwrite now z (fn z))" by auto
  have "b_ID z = i" using z(1,2) s' row_Some_iff [OF d] by (auto simp: list_all_iff)
  with z s' have "row (db_boxes db') i = Some (overwrite now x (fn x))" by simp
  with o k s' m ok show ?thesis by (auto simp: only_row_def)
qed

lemma guest_post:
  fixes body path addr :: string
  defines "r \<equiv> \<lparr> rq_Method = ''POST'', rq_Path = path, rq_RemoteAddr = addr, rq_ContentLength = int (length body), rq_Body = str_bytes body \<rparr>"
  assumes s: "sole_box db addr i x" and t: "\<And>b. tuned b (fn b v)"
    and h: "meta_Handler (boxd_meta c now) D now r db = apply_req (boxd_meta c now) dec zero r fn db"
    and body: "body \<noteq> []" "length body \<le> 1024" "dec (str_bytes body) = Inr v"
  shows "\<exists>db'. emit_unit (doPost (meta_http (boxd_meta c now) D doc now b addr) (b @ path) body db) =
      (\<lparr> re_Stdout = [], re_Stderr = [], re_Code = 0 \<rparr>, db') \<and> only_row db db' i (overwrite now x (fn x v))"
proof -
  obtain port where p: "SplitHostPort addr = Some (b_IP x, port)" using s by (auto simp: sole_box_def)
  then have ip: "source_ip r = b_IP x" by (simp add: source_ip_def r_def)
  obtain db' where m: "boxd_mutate now (b_IP x) (\<lambda>b. fn b v) db = (Inr (), db')" "only_row db db' i (overwrite now x (fn x v))"
    using sole_box_mutate [OF s, of "\<lambda>b. fn b v"] t by blast
  have d: "dec (take 1024 (str_bytes body)) = Inr v" using body(2,3) by simp
  have "apply_req (boxd_meta c now) dec zero r fn db = (MetaNoContent, db')"
    using m(1) ip d body(1) by (simp add: apply_req_def boxd_meta_def meta_New_def r_def)
  then have "meta_http (boxd_meta c now) D doc now b addr ''POST'' (b @ path) body db = (Inr (meta_reply doc MetaNoContent), db')"
    using h by (simp add: meta_http_def r_def)
  then have "emit_unit (doPost (meta_http (boxd_meta c now) D doc now b addr) (b @ path) body db) = (\<lparr> re_Stdout = [], re_Stderr = [], re_Code = 0 \<rparr>, db')"
    by (simp add: doPost_def meta_reply_def emit_unit_def emit_def)
  with m(2) show ?thesis by blast
qed

text \<open>What a command line asks of the box.\<close>

definition guest_effect :: "time \<Rightarrow> string list \<Rightarrow> (box \<Rightarrow> box) option" where
  "guest_effect now args =
     (let cmd = guest_arg args 0; a = guest_arg args 1 in
      if cmd = ''keep-alive'' then Some (\<lambda>b. b\<lparr>b_KeepAliveUntil := time_Add now (keep_alive_for a)\<rparr>)
      else if cmd = ''auto-suspend'' \<and> a \<in> {''on'', ''off''} then Some (\<lambda>b. b\<lparr>b_AutoSuspend := (a = ''on'')\<rparr>)
      else if cmd = ''idle'' then Some (\<lambda>b. set_idle b a)
      else if cmd = ''status'' then Some (\<lambda>b. b\<lparr>b_AgentState := a, b_AgentStatus := guest_arg args 2\<rparr>)
      else None)"

lemma quoted_length: "list_all plain_char s \<Longrightarrow> length (quoted s) \<le> 2 * length s + 2"
proof -
  have "length (quote_char c) \<le> 2" if "plain_char c" for c
    using that by (auto simp: plain_char_def quote_char_def Let_def)
  then have "list_all plain_char s \<Longrightarrow> length (concat (map quote_char s)) \<le> 2 * length s" by (induction s) force+
  then show "list_all plain_char s \<Longrightarrow> ?thesis" by (simp add: quoted_def)
qed

lemma Decode_body_quoted:
  assumes "list_all (\<lambda>(k, v). list_all plain_char k \<and> list_all plain_char v) kvs" "kvs \<noteq> []"
    "dec (JObj (map (\<lambda>(k, v). (k, JStr v)) kvs)) = (x, True)"
  shows "Decode_body dec (str_bytes (CHR ''{'' # q_members kvs)) = Inr x"
  using assms by (simp add: Decode_body_def json_read_quoted)

lemma plain_names: "list_all plain_char ''duration''" "list_all plain_char ''timeout''" "list_all plain_char ''state''" "list_all plain_char ''status''"
  by (simp_all add: plain_char_def)

lemma body_decodes:
  assumes "list_all plain_char a" "list_all plain_char m"
  shows "dec_duration (meta_json load) (str_bytes (CHR ''{'' # q_members [(''duration'', a)])) = Inr a"
    "dec_timeout (meta_json load) (str_bytes (CHR ''{'' # q_members [(''timeout'', a)])) = Inr a"
    "dec_status (meta_json load) (str_bytes (CHR ''{'' # q_members [(''state'', a), (''status'', m)])) = Inr (a, m)"
    "dec_duration (meta_json load) (str_bytes ''{}'') = Inr []"
  unfolding meta_json_def meta_decoders.simps
     apply (rule Decode_body_quoted; use assms plain_names in \<open>simp add: dec_struct_def get_field_def\<close>)
    apply (rule Decode_body_quoted; use assms plain_names in \<open>simp add: dec_struct_def get_field_def\<close>)
   apply (rule Decode_body_quoted; use assms plain_names in \<open>simp add: dec_struct_def get_field_def\<close>)
  apply (simp add: Decode_body_def json_read_def json_ws_skip dec_struct_def numeral_eq_Suc)
  done

lemma body_enabled:
  "dec_enabled (meta_json load) (str_bytes (''{'' @ quoted ''enabled'' @ '':'' @ (if on then ''true'' else ''false'') @ ''}'')) = Inr on"
proof -
  have u: "unquote (CHR ''e'' # CHR ''n'' # CHR ''a'' # CHR ''b'' # CHR ''l'' # CHR ''e'' # CHR ''d'' # CHR 0x22 # r) = Some (''enabled'', r)" for r
    using unquote_quoted [of "''enabled''" r] by (simp add: plain_char_def quote_char_def)
  show ?thesis
    by (simp add: meta_json_def Decode_body_def json_read_def json_ws_skip quoted_def quote_char_def u json_literal_def HasPrefix_def
        dec_struct_def get_field_def numeral_eq_Suc)
qed

section \<open>Properties\<close>



text \<open>The helper quotes its arguments for \<^verbatim>\<open>fmt\<close> and not for JSON: a status line with a control character (an
  escape sequence, a bell) is refused by the server, and the box keeps its old status.\<close>

lemma guest_status_control_refused:
  assumes "list_all plain_char a" "list_all plain_char v" "(of_char ch :: nat) < 32 \<or> ch = CHR 0x7F" "\<not> plain_char ch"
    and "length (''{'' @ quoted ''state'' @ '':'' @ quoted a @ '','' @ quoted ''status'' @ '':'' @ quoted (v @ ch # t) @ ''}'') \<le> 1024"
  shows "emit_unit (setStatus (meta_http (boxd_meta c now) (meta_json load) doc now b addr) b a (v @ ch # t) db) =
    (\<lparr> re_Stdout = [], re_Stderr = ''box-guest: 400 Bad Request'' @ [CHR 0x0A], re_Code = 1 \<rparr>, db)"
proof -
  let ?rest = "quoted ''status'' @ '':'' @ quoted (v @ ch # t) @ ''}''"
  let ?body = "''{'' @ quoted ''state'' @ '':'' @ quoted a @ '','' @ ?rest"
  have st: "unquote (concat (map quote_char ''state'') @ CHR 0x22 # x) = Some (''state'', x)" for x by (rule unquote_quoted [OF plain_names(3)])
  have v: "json_value n (quoted a @ CHR '','' # ?rest) = Some (JStr a, CHR '','' # ?rest) \<or> json_value n (quoted a @ CHR '','' # ?rest) = None" for n
    using json_value_quoted [OF assms(1), of _ "CHR '','' # ?rest"] by (cases n) simp_all
  have "json_members n (quoted ''state'' @ '':'' @ quoted a @ CHR '','' # ?rest) = None" for n
  proof (cases n)
    case (Suc k)
    show ?thesis
      unfolding Suc using v [of k] json_members_control [OF plain_names(4) assms(2-4), of k t "''}''"] st
      by (auto simp: quoted_def [of "''state''"] json_ws_skip Let_def simp del: json_value.simps)
  qed simp
  then have r: "json_read ?body = None"
    by (simp add: json_read_def json_ws_skip quoted_def [of "''state''"] Let_def)
  have "dec_status (meta_json load) (take 1024 (str_bytes ?body)) = Inl json_error"
    using assms(5) r by (simp add: meta_json_def Decode_body_def)
  then have "meta_http (boxd_meta c now) (meta_json load) doc now b addr ''POST'' (b @ ''/v1/me/status'') ?body db =
      (Inr (meta_reply doc (MetaError 400 ''bad request body'')), db)"
    by (simp add: meta_http_def meta_Handler_def meta_status_def apply_req_def Let_def)
  moreover have "show_nat 400 = ''400''" by code_simp
  ultimately show ?thesis
    by (simp add: setStatus_def doPost_def meta_reply_def emit_unit_def emit_def reason_phrase_def)
qed

text \<open>The tool server answers every request that has an identifier once, in order and under that identifier, and
  nothing else, until a line that is beyond its buffer.\<close>

definition req_ids :: "string \<Rightarrow> json list" where
  "req_ids l = (case Unmarshal_text dec_rpc l of Inl _ \<Rightarrow> [] | Inr r \<Rightarrow> (case gr_ID r of None \<Rightarrow> [] | Some i \<Rightarrow> [i]))"

definition resp_id :: "json \<Rightarrow> json option" where
  "resp_id j = (case j of JObj ms \<Rightarrow> map_of ms ''id'' | _ \<Rightarrow> None)"

lemma guest_dispatch_id: "resp_id (fst (guest_dispatch ts i req w)) = Some i"
  by (simp add: guest_dispatch_def resp_id_def rpc_result_def rpc_error_def Let_def split: prod.split)

lemma guest_mcp_answers:
  "map resp_id (fst (guest_serve ts ls w)) = map Some (concat (map req_ids (takeWhile (\<lambda>l. length l < guest_max_line) ls)))"
proof (induction ls arbitrary: w)
  case (Cons l ls)
  show ?case
    using Cons guest_dispatch_id [of ts _ _ w]
    by (auto simp: req_ids_def Let_def split: sum.split option.split prod.split) (metis fst_conv snd_conv)+
qed simp

text \<open>The status tool and the status command are the same request: they leave the same world, and the tool reports
  an error exactly when the command fails.\<close>

lemma guest_tool_is_command:
  assumes "callTool (guest_tools http (guest_base getenv))
      (Some (JObj [(''name'', JStr ''box_set_status''), (''arguments'', JObj [(''state'', JStr s), (''status'', JStr t)])])) w = (x, w1)"
    and "box_guest http getenv help mcp [''status'', s, t] w = (e, w2)"
  shows "w1 = w2 \<and> (\<exists>text. x = toolResult text (re_Code e \<noteq> 0))"
proof -
  obtain r w' where r: "setStatus http (guest_base getenv) s t w = (r, w')" by fastforce
  have c: "dec_call (JObj [(''name'', JStr ''box_set_status''), (''arguments'', JObj [(''state'', JStr s), (''status'', JStr t)])]) =
      ((''box_set_status'', [(''state'', JStr s), (''status'', JStr t)]), True)"
    by (simp add: dec_call_def dec_struct_def get_field_def)
  show ?thesis
    using assms r
    by (cases r) (auto simp: callTool_def c guest_tools_def guest_str_def map_arg_def say_def box_guest_def guest_arg_def emit_unit_def emit_def
        numeral_2_eq_2 Let_def)
qed

end
