(* ===== verification/Agent_Ssh.thy ===== *)
theory Agent_Ssh
  imports Api_Server Box_Adapter Ssh_Front Microvm_Net
begin

text \<open>
  The SSH server of the in-box agent: authentication, sessions and keys (\<^verbatim>\<open>internal/agentssh\<close>) and its
  configuration from the box's environment (\<^verbatim>\<open>cmd/hopbox-agent/ssh.go\<close>). The SSH library's handshake,
  certificate check and key parser are parameters; a session is the list of the events its loop sees.
\<close>

section \<open>Keys\<close>

text \<open>A public key is a plain key or a certificate with the key that signed it. \<open>oc_genuine\<close> says that
  the signature verifies under that key.\<close>

record 'k offered_cert =
  oc_cert :: "'k ssh_cert"
  oc_user :: bool
  oc_critical :: "string list"
  oc_SignatureKey :: 'k
  oc_genuine :: bool

datatype 'k ssh_key = PlainKey 'k | Certificate "'k offered_cert"

definition keyEqual :: "bytes \<Rightarrow> bytes \<Rightarrow> bool" where
  "keyEqual a b =
     (if length a \<noteq> length b then False
      else foldl (\<lambda>diff (x, y). Bit_Operations.or diff (Bit_Operations.xor x y)) 0 (zip a b) = 0)"

text \<open>\<open>parse\<close> is the SSH library's parser of the first key of a blob, with the bytes behind it. It consumes
  what it parses, so the length of the blob bounds the number of keys.\<close>

fun keys_loop :: "(bytes \<Rightarrow> ('a \<times> bytes) option) \<Rightarrow> nat \<Rightarrow> bytes \<Rightarrow> 'a list \<Rightarrow> 'a list" where
  "keys_loop parse 0 rest keys = keys"
| "keys_loop parse (Suc n) rest keys =
     (if rest = [] then keys
      else case parse rest of
             None \<Rightarrow> keys
           | Some (key, r) \<Rightarrow> keys_loop parse n r (keys @ [key]))"

definition ParseAuthorizedKeys :: "(bytes \<Rightarrow> ('a \<times> bytes) option) \<Rightarrow> bytes \<Rightarrow> 'a list result" where
  "ParseAuthorizedKeys parse b =
     (let keys = keys_loop parse (length b) b [] in
      if keys = [] then Inl (Errorf ''agentssh: no public keys found'') else Inr keys)"

text \<open>The persistent keys of the agent and of the certificate authority, which the code creates alike. \<open>gen\<close> is the outcome of generating a private key, \<open>pem\<close> of marshalling
  one, \<open>parse\<close> the library's parser of a key file, \<open>wr\<close> the outcome of writing the file; a file system is
  a map from paths to contents. Making the directory is best effort and leaves the files alone.\<close>

definition load_or_create :: "string \<Rightarrow> string \<Rightarrow> (bytes \<Rightarrow> 's result) \<Rightarrow> 'p result \<Rightarrow> ('p \<Rightarrow> bytes result) \<Rightarrow> unit result \<Rightarrow>
    ('p \<Rightarrow> 's result) \<Rightarrow> string \<Rightarrow> (string \<rightharpoonup> bytes) \<Rightarrow> 's result \<times> (string \<rightharpoonup> bytes)" where
  "load_or_create pkg what parse gen pem wr signer p fs =
     (case fs p of
        Some b \<Rightarrow> (case parse b of Inl e \<Rightarrow> Inl (Wrapf (pkg @ '': parse '' @ what @ '' '' @ p @ '': '') e) | Inr s \<Rightarrow> Inr s, fs)
      | None \<Rightarrow>
          (case gen of
             Inl e \<Rightarrow> (Inl e, fs)
           | Inr priv \<Rightarrow>
               (case pem priv of
                  Inl e \<Rightarrow> (Inl e, fs)
                | Inr block \<Rightarrow>
                    (case wr of
                       Inl e \<Rightarrow> (Inl (Wrapf (pkg @ '': write '' @ what @ '' '' @ p @ '': '') e), fs)
                     | Inr _ \<Rightarrow> (signer priv, fs(p \<mapsto> block))))))"

definition LoadOrCreateHostKey :: "(bytes \<Rightarrow> 's result) \<Rightarrow> 'p result \<Rightarrow> ('p \<Rightarrow> bytes result) \<Rightarrow> unit result \<Rightarrow>
    ('p \<Rightarrow> 's result) \<Rightarrow> string \<Rightarrow> (string \<rightharpoonup> bytes) \<Rightarrow> 's result \<times> (string \<rightharpoonup> bytes)" where
  "LoadOrCreateHostKey = load_or_create ''agentssh'' ''host key''"

definition LoadOrCreateCA :: "(bytes \<Rightarrow> 's result) \<Rightarrow> 'p result \<Rightarrow> ('p \<Rightarrow> bytes result) \<Rightarrow> unit result \<Rightarrow>
    ('p \<Rightarrow> 's result) \<Rightarrow> string \<Rightarrow> (string \<rightharpoonup> bytes) \<Rightarrow> 's result \<times> (string \<rightharpoonup> bytes)" where
  "LoadOrCreateCA = load_or_create ''sshca'' ''CA key''"

section \<open>Authentication\<close>

record ('k, 's) agentssh_config =
  sx_HostKey :: "'s option"
  sx_TrustedUserCA :: "'k ssh_key option"
  sx_Principal :: string
  sx_AuthorizedKeys :: "'k ssh_key list"
  sx_Shell :: string
  sx_HomeDir :: string
  sx_Trusted :: bool

text \<open>\<open>marshal\<close> is the wire form of a key; \<open>check\<close> is the certificate checker's \<^verbatim>\<open>Authenticate\<close>, given its
  \<^verbatim>\<open>IsUserAuthority\<close> callback, the user name and the certificate.\<close>

definition isUserAuthority :: "('k ssh_key \<Rightarrow> bytes) \<Rightarrow> ('k, 's) agentssh_config \<Rightarrow> 'k \<Rightarrow> bool" where
  "isUserAuthority marshal cfg auth =
     (case sx_TrustedUserCA cfg of
        None \<Rightarrow> False
      | Some ca \<Rightarrow> keyEqual (marshal (PlainKey auth)) (marshal ca))"

definition publicKeyCallback :: "('k ssh_key \<Rightarrow> bytes) \<Rightarrow> (('k \<Rightarrow> bool) \<Rightarrow> string \<Rightarrow> 'k offered_cert \<Rightarrow> unit result) \<Rightarrow>
    ('k, 's) agentssh_config \<Rightarrow> string \<Rightarrow> 'k ssh_key \<Rightarrow> unit result" where
  "publicKeyCallback marshal check cfg user key =
     (let fallback = (if list_ex (\<lambda>ak. keyEqual (marshal key) (marshal ak)) (sx_AuthorizedKeys cfg) then Inr ()
                      else Inl (Errorf ''agentssh: unauthorized credential''))
      in case (sx_TrustedUserCA cfg, key) of
           (Some _, Certificate c) \<Rightarrow>
             if sx_Principal cfg \<noteq> [] \<and> user \<noteq> sx_Principal cfg
             then Inl (Errorf (''agentssh: '' @ quoted user @ '' is not the workspace owner''))
             else check (isUserAuthority marshal cfg) user c
         | _ \<Rightarrow> fallback)"

text \<open>Whom the handshake lets in: anybody without a credential when the stream is trusted, else a user
  whose key the callback accepts. \<open>offered\<close> are the keys the client proved to hold.\<close>

definition agentssh_admits :: "('k ssh_key \<Rightarrow> bytes) \<Rightarrow> (('k \<Rightarrow> bool) \<Rightarrow> string \<Rightarrow> 'k offered_cert \<Rightarrow> unit result) \<Rightarrow>
    ('k, 's) agentssh_config \<Rightarrow> string \<Rightarrow> 'k ssh_key list \<Rightarrow> bool" where
  "agentssh_admits marshal check cfg user offered =
     (sx_Trusted cfg \<or> list_ex (\<lambda>k. is_ok (publicKeyCallback marshal check cfg user k)) offered)"

section \<open>Configuration\<close>

definition env_blob :: "(string \<Rightarrow> string) \<Rightarrow> (string \<Rightarrow> bytes result) \<Rightarrow> bytes" where
  "env_blob getenv readFile =
     (if getenv ''HOPBOX_AUTHORIZED_KEYS'' \<noteq> [] then str_bytes (getenv ''HOPBOX_AUTHORIZED_KEYS'')
      else if getenv ''HOPBOX_AUTHORIZED_KEYS_FILE'' \<noteq> []
      then (case readFile (getenv ''HOPBOX_AUTHORIZED_KEYS_FILE'') of Inr b \<Rightarrow> b | Inl _ \<Rightarrow> [])
      else [])"

text \<open>\<open>hostKey\<close> is the outcome of \<^const>\<open>LoadOrCreateHostKey\<close> at a path.\<close>

definition loadSSHConfig :: "(string \<Rightarrow> 's result) \<Rightarrow> (bytes \<Rightarrow> ('k ssh_key \<times> bytes) option) \<Rightarrow>
    (string \<Rightarrow> bytes result) \<Rightarrow> (string \<Rightarrow> bool) \<Rightarrow> (string \<Rightarrow> string) \<Rightarrow> ('k, 's) agentssh_config" where
  "loadSSHConfig hostKey parse readFile isDir getenv =
     (let zero = \<lparr> sx_HostKey = None, sx_TrustedUserCA = None, sx_Principal = [], sx_AuthorizedKeys = [],
                  sx_Shell = [], sx_HomeDir = [], sx_Trusted = False \<rparr>;
          keyPath = (if getenv ''HOPBOX_SSH_HOST_KEY'' = [] then ''/var/lib/hopbox/ssh_host_ed25519_key''
                     else getenv ''HOPBOX_SSH_HOST_KEY'')
      in case hostKey keyPath of
           Inl _ \<Rightarrow> zero
         | Inr signer \<Rightarrow>
             (let ca = getenv ''HOPBOX_TRUSTED_USER_CA''; blob = env_blob getenv readFile in
              zero\<lparr> sx_HostKey := Some signer,
                    sx_Trusted := (getenv ''HOPBOX_SSH_TRUSTED'' = ''1''),
                    sx_HomeDir := workspaceHome isDir,
                    sx_Principal := getenv ''HOPBOX_PRINCIPAL'',
                    sx_TrustedUserCA := (if ca = [] then None
                       else case ParseAuthorizedKeys parse (str_bytes ca) of Inr keys \<Rightarrow> Some (hd keys) | Inl _ \<Rightarrow> None),
                    sx_AuthorizedKeys := (if blob = [] then []
                       else case ParseAuthorizedKeys parse blob of Inr keys \<Rightarrow> keys | Inl _ \<Rightarrow> []) \<rparr>))"

text \<open>Whether the agent serves SSH on a stream at all.\<close>

definition handleSSH :: "('k, 's) agentssh_config \<Rightarrow> (('k, 's) agentssh_config \<Rightarrow> 'r) \<Rightarrow> 'r option" where
  "handleSSH cfg serve = (if sx_HostKey cfg = None then None else Some (serve cfg))"

section \<open>Sessions\<close>

record pty_req =
  pq_Cols :: "32 word"
  pq_Rows :: "32 word"

text \<open>The SSH library's decoders of request payloads: a pty request and a window change decode or fail, the
  command and the subsystem name are the field as the decoder leaves it, whatever its error.\<close>

record session_codec =
  cd_pty :: "bytes \<Rightarrow> pty_req option"
  cd_winch :: "bytes \<Rightarrow> pty_req option"
  cd_exec :: "bytes \<Rightarrow> string"
  cd_subsystem :: "bytes \<Rightarrow> string"

text \<open>What the session's loop sees: the requests of the client, and between them the moment at which the
  program started on a pty has published its terminal.\<close>

datatype session_event = Req ssh_request | PtyUp

datatype session_action =
    Answer bool
  | RunCommand "string list" bool "16 word" "16 word"
  | RunSFTP
  | Setsize "16 word" "16 word"

record session_state =
  se_ptmx :: bool
  se_started :: bool
  se_hasPTY :: bool
  se_cols :: "16 word"
  se_rows :: "16 word"

definition session_init :: session_state where
  "session_init = \<lparr> se_ptmx = False, se_started = False, se_hasPTY = False, se_cols = 80, se_rows = 24 \<rparr>"

text \<open>\<open>shellEnv\<close> is the variable \<^verbatim>\<open>SHELL\<close>, \<open>exists\<close> says which files are there.\<close>

definition loginShell :: "string \<Rightarrow> (string \<Rightarrow> bool) \<Rightarrow> string \<Rightarrow> string" where
  "loginShell shellEnv exists shell =
     (if shell \<noteq> [] then shell
      else if shellEnv \<noteq> [] then shellEnv
      else case find exists [''/bin/bash'', ''/bin/sh''] of Some c \<Rightarrow> c | None \<Rightarrow> ''/bin/sh'')"

definition shellDashC :: "(string \<Rightarrow> string) \<Rightarrow> string \<Rightarrow> string \<Rightarrow> string list" where
  "shellDashC login shell command = [login shell, ''-c'', command]"

fun session_step :: "session_codec \<Rightarrow> (string \<Rightarrow> string) \<Rightarrow> string \<Rightarrow> session_event \<Rightarrow> session_state \<Rightarrow>
    session_action list \<times> session_state" where
  "session_step cd login shell PtyUp s = ([], s\<lparr>se_ptmx := True\<rparr>)"
| "session_step cd login shell (Req r) s =
     (if sr_Type r = ''pty-req'' then
        ([Answer True],
         case cd_pty cd (sr_Payload r) of
           None \<Rightarrow> s
         | Some p \<Rightarrow> (if pq_Cols p > 0 then s\<lparr>se_cols := ucast (pq_Cols p), se_rows := ucast (pq_Rows p)\<rparr> else s)\<lparr>se_hasPTY := True\<rparr>)
      else if sr_Type r = ''window-change'' then
        (case cd_winch cd (sr_Payload r) of
           None \<Rightarrow> ([], s)
         | Some w \<Rightarrow> (if se_ptmx s then [Setsize (ucast (pq_Cols w)) (ucast (pq_Rows w))] else [],
                      s\<lparr>se_cols := ucast (pq_Cols w), se_rows := ucast (pq_Rows w)\<rparr>))
      else if sr_Type r = ''env'' then ([Answer True], s)
      else if sr_Type r = ''shell'' \<or> sr_Type r = ''exec'' then
        (if se_started s then ([Answer False], s)
         else (let cmdline = (if sr_Type r = ''exec'' then shellDashC login shell (cd_exec cd (sr_Payload r)) else [login shell])
               in ([Answer True, RunCommand cmdline (se_hasPTY s) (se_cols s) (se_rows s)], s\<lparr>se_started := True\<rparr>)))
      else if sr_Type r = ''subsystem'' then
        (if se_started s \<or> cd_subsystem cd (sr_Payload r) \<noteq> ''sftp'' then ([Answer False], s)
         else ([Answer True, RunSFTP], s\<lparr>se_started := True\<rparr>))
      else ([Answer False], s))"

fun session_loop :: "session_codec \<Rightarrow> (string \<Rightarrow> string) \<Rightarrow> string \<Rightarrow> session_event list \<Rightarrow> session_state \<Rightarrow> session_action list" where
  "session_loop cd login shell [] s = []"
| "session_loop cd login shell (ev # evs) s =
     (let (acts, s') = session_step cd login shell ev s in acts @ session_loop cd login shell evs s')"

definition handleSession :: "session_codec \<Rightarrow> (string \<Rightarrow> string) \<Rightarrow> ('k, 'h) agentssh_config \<Rightarrow> session_event list \<Rightarrow> session_action list" where
  "handleSession cd login cfg evs = session_loop cd login (sx_Shell cfg) evs session_init"

text \<open>A connection behind its handshake: each channel the client opens, by type, with the outcome of
  accepting it and the events of its session. The result is what happens on each channel.\<close>

datatype channel_outcome = Rejected string | NotAccepted | Session "session_action list"

definition agentssh_Serve :: "session_codec \<Rightarrow> (string \<Rightarrow> string) \<Rightarrow> ('k, 'h) agentssh_config \<Rightarrow> (('k, 'h) agentssh_config \<Rightarrow> unit result) \<Rightarrow>
    (string \<times> bool \<times> session_event list) list \<Rightarrow> channel_outcome list result" where
  "agentssh_Serve cd login cfg handshake chans =
     (if sx_HostKey cfg = None then Inl (Errorf ''agentssh: nil host key'')
      else case handshake cfg of
             Inl e \<Rightarrow> Inl (Wrapf ''agentssh: handshake: '' e)
           | Inr _ \<Rightarrow> Inr (map (\<lambda>(t, accepted, evs).
               if t \<noteq> ''session'' then Rejected ''only session channels are supported''
               else if \<not> accepted then NotAccepted else Session (handleSession cd login cfg evs)) chans))"

section \<open>Programs\<close>

text \<open>How a program ended: well, with an exit error (-1 for a signal), or with another error.\<close>

datatype proc_end = ProcOK | ProcExit int | ProcError err

definition exitCode :: "proc_end \<Rightarrow> int" where
  "exitCode e = (case e of ProcOK \<Rightarrow> 0 | ProcExit c \<Rightarrow> c | ProcError _ \<Rightarrow> 1)"

definition exitClose :: "int \<Rightarrow> chan_action list" where
  "exitClose code = [SendRequest ''exit-status'' (PutUint32 (unat (word_of_int code :: 32 word))), CloseChan]"

definition session_env :: "string list \<Rightarrow> string \<Rightarrow> string list" where
  "session_env environ home =
     environ @ [''TERM=xterm-256color''] @ (if home \<noteq> [] then [''HOME='' @ home] else [])"

text \<open>\<open>ptyStart\<close>, \<open>pipe\<close> and \<open>start\<close> are the outcomes of starting the program, \<open>out\<close> is what it writes and \<open>fin\<close> how
  it ends. The result is the program's environment and directory and what happens on the channel.\<close>

definition runCommand :: "unit result \<Rightarrow> unit result \<Rightarrow> proc_end option \<Rightarrow> string \<Rightarrow> proc_end \<Rightarrow> string list \<Rightarrow> string \<Rightarrow> bool \<Rightarrow>
    (string list \<times> string) \<times> chan_action list" where
  "runCommand ptyStart pipe startErr out fin environ home hasPTY =
     ((session_env environ home, home),
      if hasPTY then
        (case ptyStart of
           Inl e \<Rightarrow> WriteText (''hopbox: pty: '' @ err_text e @ [CHR 0x0D, CHR 0x0A]) # exitClose 1
         | Inr _ \<Rightarrow> WriteText out # exitClose (exitCode fin))
      else
        (case pipe of
           Inl _ \<Rightarrow> exitClose 1
         | Inr _ \<Rightarrow>
             (case startErr of
                Some e \<Rightarrow> exitClose (exitCode e)
              | None \<Rightarrow> WriteText out # exitClose (exitCode fin))))"

text \<open>\<open>server\<close> is the outcome of making the file transfer server; how it ended does not matter.\<close>

definition runSFTP :: "unit result \<Rightarrow> string \<Rightarrow> string option \<times> chan_action list" where
  "runSFTP server home =
     (if home \<noteq> [] then Some home else None, case server of Inl _ \<Rightarrow> exitClose 1 | Inr _ \<Rightarrow> exitClose 0)"

section \<open>Lemmas\<close>

text \<open>The comparison that does not stop at the first difference is equality.\<close>

lemma keyEqual_iff [simp]: "keyEqual a b \<longleftrightarrow> a = b"
proof -
  have or0: "Bit_Operations.or x y = 0 \<longleftrightarrow> x = 0 \<and> y = 0" for x y :: "8 word"
    by (auto simp: bit_eq_iff bit_or_iff)
  have xor0: "Bit_Operations.xor x y = 0 \<longleftrightarrow> x = y" for x y :: "8 word"
    by (auto simp: bit_eq_iff bit_xor_iff)
  have "foldl (\<lambda>diff (x, y). Bit_Operations.or diff (Bit_Operations.xor x y)) d (zip a b) = 0 \<longleftrightarrow> d = 0 \<and> a = b"
    if "length a = length b" for d
    using that by (induction a b arbitrary: d rule: list_induct2) (auto simp: or0 xor0)
  then show ?thesis by (auto simp: keyEqual_def)
qed

text \<open>With a parser that consumes what it parses, the length of the blob is fuel enough: more of it
  changes nothing.\<close>

lemma keys_loop_enough:
  assumes "\<And>b k r. parse b = Some (k, r) \<Longrightarrow> length r < length b" "length b \<le> n"
  shows "keys_loop parse n b ks = keys_loop parse (length b) b ks"
  using assms(2)
proof (induction "length b" arbitrary: b n ks rule: less_induct)
  case less
  show ?case
  proof (cases "b = []")
    case True
    then show ?thesis by (cases n) auto
  next
    case False
    then obtain m l where m: "n = Suc m" "length b = Suc l" using less.prems by (metis Suc_le_D length_Suc_conv list.exhaust)
    show ?thesis
    proof (cases "parse b")
      case None
      with m False show ?thesis by simp
    next
      case (Some kr)
      obtain k r where kr: "kr = (k, r)" by (cases kr)
      with Some assms(1) have l: "length r < length b" by blast
      with m less.prems less.hyps [OF l, of m] less.hyps [OF l, of l] show ?thesis using Some kr False by simp
    qed
  qed
qed

subsection \<open>The program of a session\<close>

text \<open>Which events ask for a program, the window size an event announces, and whether it asks for a pty.\<close>

definition starts_program :: "session_codec \<Rightarrow> session_event \<Rightarrow> bool" where
  "starts_program cd ev = (case ev of PtyUp \<Rightarrow> False | Req r \<Rightarrow>
     sr_Type r = ''shell'' \<or> sr_Type r = ''exec'' \<or> sr_Type r = ''subsystem'' \<and> cd_subsystem cd (sr_Payload r) = ''sftp'')"

definition announced :: "session_codec \<Rightarrow> session_event \<Rightarrow> (16 word \<times> 16 word) option" where
  "announced cd ev = (case ev of PtyUp \<Rightarrow> None | Req r \<Rightarrow>
     map_option (\<lambda>p. (ucast (pq_Cols p), ucast (pq_Rows p)))
       (if sr_Type r = ''pty-req'' then (case cd_pty cd (sr_Payload r) of Some p \<Rightarrow> if pq_Cols p > 0 then Some p else None | None \<Rightarrow> None)
        else if sr_Type r = ''window-change'' then cd_winch cd (sr_Payload r) else None))"

definition wants_pty :: "session_codec \<Rightarrow> session_event \<Rightarrow> bool" where
  "wants_pty cd ev = (case ev of PtyUp \<Rightarrow> False | Req r \<Rightarrow> sr_Type r = ''pty-req'' \<and> cd_pty cd (sr_Payload r) \<noteq> None)"

definition window :: "session_codec \<Rightarrow> session_event list \<Rightarrow> 16 word \<times> 16 word \<Rightarrow> 16 word \<times> 16 word" where
  "window cd evs d = last (d # List.map_filter (announced cd) evs)"

definition program_of :: "session_codec \<Rightarrow> (string \<Rightarrow> string) \<Rightarrow> string \<Rightarrow> ssh_request \<Rightarrow> bool \<Rightarrow> 16 word \<times> 16 word \<Rightarrow> session_action" where
  "program_of cd login shell r pty win =
     (if sr_Type r = ''subsystem'' then RunSFTP
      else RunCommand (if sr_Type r = ''exec'' then [login shell, ''-c'', cd_exec cd (sr_Payload r)] else [login shell])
             pty (fst win) (snd win))"

definition is_program :: "session_action \<Rightarrow> bool" where
  "is_program a = (case a of RunCommand _ _ _ _ \<Rightarrow> True | RunSFTP \<Rightarrow> True | _ \<Rightarrow> False)"

definition is_answer :: "session_action \<Rightarrow> bool" where
  "is_answer a = (case a of Answer _ \<Rightarrow> True | _ \<Rightarrow> False)"

definition answered :: "session_event \<Rightarrow> bool" where
  "answered ev = (case ev of PtyUp \<Rightarrow> False | Req r \<Rightarrow> sr_Type r \<noteq> ''window-change'')"

lemmas session_views = starts_program_def announced_def wants_pty_def is_program_def is_answer_def answered_def

lemma window_Cons:
  "window cd (ev # evs) d = window cd evs (case announced cd ev of None \<Rightarrow> d | Some w \<Rightarrow> w)"
  by (auto simp: window_def List.map_filter_def split: option.splits)

lemma session_started:
  "se_started s \<Longrightarrow> filter is_program (session_loop cd login shell evs s) = []"
proof (induction evs arbitrary: s)
  case (Cons ev evs)
  obtain acts s' where st: "session_step cd login shell ev s = (acts, s')" by fastforce
  from st Cons.prems have "se_started s'" "filter is_program acts = []"
    by (cases ev; auto simp: is_program_def Let_def split: if_splits option.splits)+
  with st Cons.IH [of s'] show ?case by simp
qed simp

lemma session_step_quiet:
  assumes "session_step cd login shell ev s = (acts, s')" "\<not> starts_program cd ev" "\<not> se_started s"
  shows "\<not> se_started s'" "filter is_program acts = []"
    "(se_cols s', se_rows s') = (case announced cd ev of None \<Rightarrow> (se_cols s, se_rows s) | Some w \<Rightarrow> w)"
    "se_hasPTY s' \<longleftrightarrow> se_hasPTY s \<or> wants_pty cd ev"
  using assms by (cases ev; auto simp: session_views Let_def split: if_splits option.splits)+

lemma session_step_starts:
  assumes "session_step cd login shell ev s = (acts, s')" "starts_program cd ev" "\<not> se_started s"
  obtains r where "ev = Req r" "se_started s'"
    "filter is_program acts = [program_of cd login shell r (se_hasPTY s) (se_cols s, se_rows s)]"
  using assms by (cases ev) (auto simp: session_views program_of_def shellDashC_def Let_def split: if_splits)

lemma session_programs:
  assumes "\<not> se_started s"
  shows "filter is_program (session_loop cd login shell evs s) =
    (case dropWhile (\<lambda>ev. \<not> starts_program cd ev) evs of
       Req r # _ \<Rightarrow> [program_of cd login shell r
          (se_hasPTY s \<or> list_ex (wants_pty cd) (takeWhile (\<lambda>ev. \<not> starts_program cd ev) evs))
          (window cd (takeWhile (\<lambda>ev. \<not> starts_program cd ev) evs) (se_cols s, se_rows s))]
     | _ \<Rightarrow> [])"
  using assms
proof (induction evs arbitrary: s)
  case (Cons ev evs)
  obtain acts s' where st: "session_step cd login shell ev s = (acts, s')" by fastforce
  show ?case
  proof (cases "starts_program cd ev")
    case True
    obtain r where r: "ev = Req r" "se_started s'"
      "filter is_program acts = [program_of cd login shell r (se_hasPTY s) (se_cols s, se_rows s)]"
      by (rule session_step_starts [OF st True Cons.prems])
    from True have "starts_program cd (Req r)" unfolding r(1) .
    with st r session_started [OF r(2)] show ?thesis by (simp add: window_def List.map_filter_simps)
  next
    case False
    note q = session_step_quiet [OF st False Cons.prems]
    have w: "takeWhile (\<lambda>ev. \<not> starts_program cd ev) (ev # evs) = ev # takeWhile (\<lambda>ev. \<not> starts_program cd ev) evs"
      "dropWhile (\<lambda>ev. \<not> starts_program cd ev) (ev # evs) = dropWhile (\<lambda>ev. \<not> starts_program cd ev) evs"
      using False by simp_all
    have e: "(se_hasPTY s \<or> list_ex (wants_pty cd) (ev # X)) = (se_hasPTY s' \<or> list_ex (wants_pty cd) X)" for X
      using q(4) by auto
    from Cons.IH [OF q(1)] st q(2) show ?thesis unfolding w window_Cons e q(3) [symmetric] by simp
  qed
qed simp

lemma session_init_simps:
  "se_started session_init \<longleftrightarrow> False" "se_hasPTY session_init \<longleftrightarrow> False" "se_cols session_init = 80" "se_rows session_init = 24"
  by (simp_all add: session_init_def)

lemma session_answers:
  "length (filter is_answer (session_loop cd login shell evs s)) = length (filter answered evs)"
proof (induction evs arbitrary: s)
  case (Cons ev evs)
  obtain acts s' where st: "session_step cd login shell ev s = (acts, s')" by fastforce
  then have "length (filter is_answer acts) = (if answered ev then 1 else 0)"
    by (cases ev; auto simp: session_views Let_def split: if_splits option.splits)
  with Cons.IH [of s'] st show ?case by simp
qed simp

subsection \<open>The environment of a box\<close>

lemma env_merge_value:
  "env_value (env_merge e [(k, v)]) x = (if x = k then v else env_value e x)"
  by (auto simp: env_merge_def env_value_def update_conv')

lemma box_env_values:
  assumes "e = env_merge (provision_env rc b) (hook_env hc mt)"
  shows "env_value e ''HOPBOX_PRINCIPAL'' = b_Owner b"
    "env_value e ''HOPBOX_TRUSTED_USER_CA'' = hc_TrustedUserCA hc"
    "env_value e ''HOPBOX_AUTHORIZED_KEYS'' = hc_AuthorizedKeys hc"
    "env_value e ''HOPBOX_SSH_TRUSTED'' = (if rc_TrustedSSH rc then ''1'' else [])"
    "env_value e ''HOPBOX_SSH_HOST_KEY'' = path_Join [mt_Target mt, ''.hopbox'', ''ssh_host_ed25519_key'']"
proof -
  define pe where "pe = provision_env rc b"
  have pe: "env_value pe ''HOPBOX_PRINCIPAL'' = b_Owner b" "env_value pe ''HOPBOX_TRUSTED_USER_CA'' = []"
    "env_value pe ''HOPBOX_AUTHORIZED_KEYS'' = []" "env_value pe ''HOPBOX_SSH_TRUSTED'' = (if rc_TrustedSSH rc then ''1'' else [])"
    by (simp_all add: pe_def provision_env_def env_value_def)
  have h: "e = foldl (\<lambda>m kv. env_merge m [kv]) pe (hook_env hc mt)"
    unfolding assms pe_def env_merge_def by (simp add: case_prod_beta')
  show "env_value e ''HOPBOX_PRINCIPAL'' = b_Owner b" "env_value e ''HOPBOX_TRUSTED_USER_CA'' = hc_TrustedUserCA hc"
    "env_value e ''HOPBOX_AUTHORIZED_KEYS'' = hc_AuthorizedKeys hc"
    "env_value e ''HOPBOX_SSH_TRUSTED'' = (if rc_TrustedSSH rc then ''1'' else [])"
    "env_value e ''HOPBOX_SSH_HOST_KEY'' = path_Join [mt_Target mt, ''.hopbox'', ''ssh_host_ed25519_key'']"
    unfolding h hook_env_def
    by (cases "hc_TrustedUserCA hc = []"; cases "hc_AuthorizedKeys hc = []"; simp add: env_merge_value pe)+
qed

section \<open>Properties\<close>

text \<open>The documented behaviour of the SSH library's certificate check, at Unix time \<open>now\<close>.\<close>

definition cert_checker :: "(('k \<Rightarrow> bool) \<Rightarrow> string \<Rightarrow> 'k offered_cert \<Rightarrow> unit result) \<Rightarrow> int \<Rightarrow> bool" where
  "cert_checker check now \<longleftrightarrow> (\<forall>auth user c. is_ok (check auth user c) \<longleftrightarrow>
     oc_user c \<and> oc_critical c = [] \<and> auth (oc_SignatureKey c) \<and> oc_genuine c \<and>
     (sc_ValidPrincipals (oc_cert c) = [] \<or> user \<in> set (sc_ValidPrincipals (oc_cert c))) \<and>
     0 \<le> sint (sc_ValidAfter (oc_cert c)) \<and> sint (sc_ValidAfter (oc_cert c)) \<le> now \<and>
     (sc_ValidBefore (oc_cert c) = -1 \<or> 0 \<le> sint (sc_ValidBefore (oc_cert c)) \<and> now < sint (sc_ValidBefore (oc_cert c))))"

lemma SignUserCert_fields:
  "SignUserCert ca now rnd pub k ps ttl = Inr cert \<Longrightarrow> sc_ValidPrincipals cert = ps \<and>
     sc_ValidAfter cert = word_of_int (time_Unix (now - Minute)) \<and> sc_ValidBefore cert = word_of_int (time_Unix (now + ttl))"
  by (auto simp: SignUserCert_def Let_def time_Add_def split: option.splits if_splits sum.splits)

text \<open>C11: a login certificate opens the boxes of its principal and no others, until it expires. A
  certificate the API issued to a caller is accepted by the agent of a box, configured from the
  environment the daemon gave the box, exactly when the user name is the caller's principal, the box
  belongs to that principal, and the twelve hours are not over.\<close>

theorem certificate_opens_own_boxes:
  assumes issued: "IssueSSHCert sv parseKey render t rnd ctx pk = Inr resp" "cr_Certificate resp = render (oc_cert c)"
      "\<forall>x. render x = render (oc_cert c) \<longrightarrow> x = oc_cert c"
    and c: "oc_user c" "oc_critical c = []" "oc_SignatureKey c = ca" "oc_genuine c"
    and lib: "cert_checker check (time_Unix t')"
    and ca: "ParseAuthorizedKeys parse (str_bytes (hc_TrustedUserCA hc)) = Inr (PlainKey ca # ks)"
    and key: "hostKey (path_Join [mt_Target mt, ''.hopbox'', ''ssh_host_ed25519_key'']) = Inr signer"
      "path_Join [mt_Target mt, ''.hopbox'', ''ssh_host_ed25519_key''] \<noteq> []"
    and times: "t \<le> t'" "0 \<le> time_Unix (t - Minute)" "time_Unix (t + certTTL) < 2 ^ 63" and own: "b_Owner b \<noteq> []"
  shows "is_ok (publicKeyCallback marshal check
      (loadSSHConfig hostKey parse readFile isDir (env_value (env_merge (provision_env rc b) (hook_env hc mt)))) user (Certificate c)) \<longleftrightarrow>
    user = pl_ID (api_principal sv ctx) \<and> b_Owner b = pl_ID (api_principal sv ctx) \<and> time_Unix t' < time_Unix (t + certTTL)"
proof -
  let ?cfg = "loadSSHConfig hostKey parse readFile isDir (env_value (env_merge (provision_env rc b) (hook_env hc mt)))"
  let ?p = "pl_ID (api_principal sv ctx)"
  have ne: "hc_TrustedUserCA hc \<noteq> []" using ca by (auto simp: ParseAuthorizedKeys_def str_bytes_def)
  have cfg: "sx_TrustedUserCA ?cfg = Some (PlainKey ca)" "sx_Principal ?cfg = b_Owner b"
    using box_env_values [OF refl, of rc b hc mt] key ca ne by (simp_all add: loadSSHConfig_def Let_def)
  from issued obtain pub where "SignUserCert (av_ca sv) t rnd pub (?p @ ''@hopbox'') [?p] certTTL = Inr (oc_cert c)"
    by (auto simp: IssueSSHCert_def Let_def split: if_splits sum.splits)
  from SignUserCert_fields [OF this] have cert: "sc_ValidPrincipals (oc_cert c) = [?p]"
    "sc_ValidAfter (oc_cert c) = word_of_int (time_Unix (t - Minute))" "sc_ValidBefore (oc_cert c) = word_of_int (time_Unix (t + certTTL))"
    by simp_all
  have mono: "time_Unix x \<le> time_Unix y" if "x \<le> y" for x y using that by (simp add: time_Unix_def zdiv_mono1)
  have le: "t - Minute \<le> t'" "t - Minute \<le> t + certTTL" using times(1) by (simp_all add: certTTL_def Hour_def Minute_def Second_def)
  have after: "sint (sc_ValidAfter (oc_cert c)) = time_Unix (t - Minute)" "time_Unix (t - Minute) \<le> time_Unix t'"
    using times(2,3) mono [OF le(1)] mono [OF le(2)] unfolding cert by (simp_all add: sint_word64)
  have before: "sint (sc_ValidBefore (oc_cert c)) = time_Unix (t + certTTL)" "0 \<le> time_Unix (t + certTTL)"
    using times(2,3) mono [OF le(2)] unfolding cert by (simp_all add: sint_word64)
  then have "sc_ValidBefore (oc_cert c) \<noteq> -1" by auto
  with lib c cert(1) after before times(2) cfg own show ?thesis
    by (auto simp: cert_checker_def publicKeyCallback_def isUserAuthority_def Let_def)
qed

definition demo_now :: time where "demo_now = (unix_epoch_secs + 1000) * 1000000000"

definition demo_cert :: "unit offered_cert" where
  "demo_cert = \<lparr> oc_cert = \<lparr> sc_Key = (), sc_Serial = 7, sc_KeyId = ''dev@hopbox'', sc_ValidPrincipals = [''dev''],
     sc_ValidAfter = 940, sc_ValidBefore = 44200, sc_Extensions = [''permit-pty'', ''permit-user-rc''] \<rparr>,
     oc_user = True, oc_critical = [], oc_SignatureKey = (), oc_genuine = True \<rparr>"

definition demo_check :: "int \<Rightarrow> (unit \<Rightarrow> bool) \<Rightarrow> string \<Rightarrow> unit offered_cert \<Rightarrow> unit result" where
  "demo_check now auth user c =
     (if oc_user c \<and> oc_critical c = [] \<and> auth (oc_SignatureKey c) \<and> oc_genuine c \<and>
        (sc_ValidPrincipals (oc_cert c) = [] \<or> user \<in> set (sc_ValidPrincipals (oc_cert c))) \<and>
        0 \<le> sint (sc_ValidAfter (oc_cert c)) \<and> sint (sc_ValidAfter (oc_cert c)) \<le> now \<and>
        (sc_ValidBefore (oc_cert c) = -1 \<or> 0 \<le> sint (sc_ValidBefore (oc_cert c)) \<and> now < sint (sc_ValidBefore (oc_cert c)))
      then Inr () else Inl ErrEOF)"

definition demo_rc :: "(unit, unit) reconcile_config" where
  "demo_rc = \<lparr> rc_AgentAddr = [], rc_Agent = \<lparr> ai_ImageRef = [], ai_BinaryPath = [], ai_TargetPath = [], ai_HostBinaryPath = [] \<rparr>,
     rc_MetaURL = [], rc_GuestBin = [], rc_Idle = DefaultIdle, rc_Interval = 0, rc_Hooks = None, rc_TrustedSSH = False \<rparr>"

definition demo_box_config :: "string \<Rightarrow> (unit, unit) agentssh_config" where
  "demo_box_config owner = loadSSHConfig (\<lambda>_. Inr ()) (\<lambda>_. Some (PlainKey (), [])) (\<lambda>_. Inl ErrEOF) (\<lambda>_. True)
     (env_value (env_merge (provision_env demo_rc (zero_box\<lparr>b_Owner := owner\<rparr>))
       (hook_env \<lparr> hc_TrustedUserCA = ''ca'', hc_AuthorizedKeys = [] \<rparr>
         \<lparr> mt_Source = ''h'', mt_Target = ''/home/dev'', mt_ReadOnly = False, mt_Device = False \<rparr>)))"

theorem certificate_opens_own_boxes_witness:
  "is_ok (publicKeyCallback (\<lambda>_. []) (demo_check 1000) (demo_box_config ''dev'') ''dev'' (Certificate demo_cert)) \<and>
   \<not> is_ok (publicKeyCallback (\<lambda>_. []) (demo_check 1000) (demo_box_config ''eve'') ''dev'' (Certificate demo_cert))"
proof -
  let ?sv = "demo_api\<lparr>av_ca := Some (\<lambda>_. Inr ())\<rparr>" and ?ctx = "\<lparr> cx_metadata = None, cx_principal = None \<rparr>"
  let ?render = "\<lambda>x. if x = oc_cert demo_cert then ''c'' else ''d''"
  let ?mt = "\<lparr> mt_Source = ''h'', mt_Target = ''/home/dev'', mt_ReadOnly = False, mt_Device = False \<rparr>"
  have p: "pl_ID (api_principal ?sv ?ctx) = ''dev''"
    by (simp add: demo_api_def NewServer_def api_principal_def principalFromCtx_def)
  have tm: "time_Unix demo_now = 1000" "time_Unix (demo_now - Minute) = 940" "time_Unix (demo_now + certTTL) = 44200"
    by (simp_all add: demo_now_def time_Unix_def unix_epoch_secs_def certTTL_def Hour_def Minute_def Second_def)
  have i: "IssueSSHCert ?sv (\<lambda>_. Inr ()) ?render demo_now (Inr 7) ?ctx ''k'' =
      Inr \<lparr> cr_Certificate = ?render (oc_cert demo_cert), cr_Principal = ''dev'', cr_ValidBeforeUnix = 44200 \<rparr>"
    using p by (simp add: IssueSSHCert_def SignUserCert_def Let_def tm time_Add_def demo_cert_def)
  have r: "\<forall>x. ?render x = ?render (oc_cert demo_cert) \<longrightarrow> x = oc_cert demo_cert" by simp
  have l: "cert_checker (demo_check 1000) (time_Unix demo_now)" by (simp add: cert_checker_def demo_check_def tm)
  have k: "ParseAuthorizedKeys (\<lambda>_. Some (PlainKey (), [])) (str_bytes (hc_TrustedUserCA \<lparr> hc_TrustedUserCA = ''ca'', hc_AuthorizedKeys = [] \<rparr>)) =
      Inr (PlainKey () # [])"
    by (simp add: ParseAuthorizedKeys_def str_bytes_def numeral_eq_Suc)
  have j: "path_Join [mt_Target ?mt, ''.hopbox'', ''ssh_host_ed25519_key''] \<noteq> []" by code_simp
  have t: "demo_now \<le> demo_now" "0 \<le> time_Unix (demo_now - Minute)" "time_Unix (demo_now + certTTL) < 2 ^ 63"
    by (simp_all add: tm)
  have c: "oc_user demo_cert" "oc_critical demo_cert = []" "oc_SignatureKey demo_cert = ()" "oc_genuine demo_cert"
    by (simp_all add: demo_cert_def)
  have h: "(\<lambda>_. Inr ()) (path_Join [mt_Target ?mt, ''.hopbox'', ''ssh_host_ed25519_key'']) = Inr ()" by simp
  have m: "is_ok (publicKeyCallback (\<lambda>_. []) (demo_check 1000) (demo_box_config x) ''dev'' (Certificate demo_cert)) \<longleftrightarrow> x = ''dev''"
    if "x \<noteq> []" for x
    unfolding demo_box_config_def
    using certificate_opens_own_boxes [OF i _ r c l k h j t, of "zero_box\<lparr>b_Owner := x\<rparr>" "\<lambda>_. []" "\<lambda>_. Inl ErrEOF" "\<lambda>_. True"
        demo_rc "''dev''"] that p tm by simp
  from m [of "''dev''"] m [of "''eve''"] show ?thesis by simp
qed

text \<open>What the agent's SSH server lets in. Unless the daemon said the stream is trusted, a user gets in
  only with one of the box's authorized keys or with a genuine, unexpired user certificate that the
  box's trusted authority signed, that names the user, and only under the owner's name.\<close>

theorem agentssh_auth_sound:
  assumes "cert_checker check now" "agentssh_admits marshal check cfg user offered" "\<not> sx_Trusted cfg"
  shows "\<exists>k \<in> set offered. marshal k \<in> marshal ` set (sx_AuthorizedKeys cfg) \<or>
    (\<exists>c ca. k = Certificate c \<and> sx_TrustedUserCA cfg = Some ca \<and> marshal (PlainKey (oc_SignatureKey c)) = marshal ca \<and>
       oc_genuine c \<and> oc_user c \<and> (sx_Principal cfg = [] \<or> user = sx_Principal cfg) \<and>
       (sc_ValidPrincipals (oc_cert c) = [] \<or> user \<in> set (sc_ValidPrincipals (oc_cert c))) \<and>
       sint (sc_ValidAfter (oc_cert c)) \<le> now \<and> (sc_ValidBefore (oc_cert c) = -1 \<or> now < sint (sc_ValidBefore (oc_cert c))))" (is "\<exists>k \<in> _. ?P k")
proof -
  from assms(2,3) obtain k where k: "k \<in> set offered" "is_ok (publicKeyCallback marshal check cfg user k)"
    by (auto simp: agentssh_admits_def list_ex_iff)
  show ?thesis
  proof (rule bexI [OF _ k(1)], cases "\<exists>c ca. k = Certificate c \<and> sx_TrustedUserCA cfg = Some ca")
    case False
    with k(2) have "marshal k \<in> marshal ` set (sx_AuthorizedKeys cfg)"
      by (auto simp: publicKeyCallback_def Let_def list_ex_iff split: if_splits option.splits ssh_key.splits)
    then show "?P k" by blast
  next
    case True
    then obtain c ca where c: "k = Certificate c" "sx_TrustedUserCA cfg = Some ca" by blast
    with k(2) have "is_ok (check (isUserAuthority marshal cfg) user c)" "sx_Principal cfg = [] \<or> user = sx_Principal cfg"
      by (auto simp: publicKeyCallback_def Let_def split: if_splits)
    with assms(1) c show "?P k"
      by (auto simp: cert_checker_def isUserAuthority_def)
  qed
qed

theorem agentssh_auth_sound_witness:
  "\<exists>k \<in> set [Certificate demo_cert]. (\<lambda>_. []) k \<in> (\<lambda>_. []) ` set (sx_AuthorizedKeys (demo_box_config ''dev'')) \<or>
    (\<exists>c. k = Certificate c \<and> ''dev'' \<in> set (sc_ValidPrincipals (oc_cert c)))"
proof -
  have s: "sint (940 :: 64 word) = 940" "sint (44200 :: 64 word) = 44200"
    using sint_word64 [of 940] sint_word64 [of 44200] by simp_all
  have cfg: "sx_TrustedUserCA (demo_box_config ''dev'') = Some (PlainKey ())" "sx_Principal (demo_box_config ''dev'') = ''dev''"
    "\<not> sx_Trusted (demo_box_config ''dev'')"
    using box_env_values [OF refl, of demo_rc "zero_box\<lparr>b_Owner := ''dev''\<rparr>" "\<lparr> hc_TrustedUserCA = ''ca'', hc_AuthorizedKeys = [] \<rparr>"
      "\<lparr> mt_Source = ''h'', mt_Target = ''/home/dev'', mt_ReadOnly = False, mt_Device = False \<rparr>"]
    by (simp_all add: demo_box_config_def loadSSHConfig_def Let_def ParseAuthorizedKeys_def str_bytes_def numeral_eq_Suc demo_rc_def)
  have "agentssh_admits (\<lambda>_. []) (demo_check 1000) (demo_box_config ''dev'') ''dev'' [Certificate demo_cert]"
    using cfg s by (simp add: agentssh_admits_def publicKeyCallback_def Let_def demo_check_def isUserAuthority_def demo_cert_def)
  from agentssh_auth_sound [OF _ this cfg(3), of 1000] show ?thesis
    by (auto simp: cert_checker_def demo_check_def demo_cert_def)
qed

text \<open>A session runs one program, the first it was asked for (a shell, a command, file transfer), with
  a pty exactly if one was requested before it and with the window size announced last, 80 by 24 if
  none was; later requests for a program start nothing, and every request but a window change is
  answered exactly once.\<close>

theorem session_runs_one_program:
  "filter is_program (handleSession cd login cfg evs) =
    (case dropWhile (\<lambda>ev. \<not> starts_program cd ev) evs of
       Req r # _ \<Rightarrow> [program_of cd login (sx_Shell cfg) r
          (list_ex (wants_pty cd) (takeWhile (\<lambda>ev. \<not> starts_program cd ev) evs))
          (window cd (takeWhile (\<lambda>ev. \<not> starts_program cd ev) evs) (80, 24))]
     | _ \<Rightarrow> []) \<and>
   length (filter is_answer (handleSession cd login cfg evs)) = length (filter answered evs)"
  using session_programs [of session_init cd login "sx_Shell cfg" evs]
  unfolding handleSession_def session_init_simps simp_thms by (simp add: session_answers)

text \<open>The keys are stable: once one has been created and written, every later start reads the same signer,
  if parsing a written key gives its signer back.\<close>

lemma load_or_create_stable:
  assumes "load_or_create pkg what parse gen pem wr signer p fs = (Inr s, fs')"
    and "\<forall>k b. pem k = Inr b \<longrightarrow> parse b = signer k"
  shows "load_or_create pkg what parse gen' pem' wr' signer' p fs' = (Inr s, fs')"
  using assms by (auto simp: load_or_create_def split: option.splits sum.splits)

lemmas host_key_stable = load_or_create_stable [where pkg = "''agentssh''" and what = "''host key''", folded LoadOrCreateHostKey_def]
lemmas ca_key_stable = load_or_create_stable [where pkg = "''sshca''" and what = "''CA key''", folded LoadOrCreateCA_def]

end
