(* ===== verification/Microvm.thy ===== *)
theory Microvm
  imports Microvm_Net
begin

text \<open>
  The Firecracker compute provider (\<^verbatim>\<open>providers/compute/microvm/microvm.go\<close>): its table of
  machines, the host resources each holds (address, tap device, copy-on-write clone, run
  directory, snapshot, \<^verbatim>\<open>vm.json\<close>), and every operation on them. What the host answers to a
  command (creating a tap, starting the process, booting, pausing) is an argument of the
  operation: an outcome record. A nil dereference is the value None.
\<close>

section \<open>State\<close>

record vm =
  v_cmd :: bool  \<comment> \<open>whether the command is non-nil\<close>
  v_dir :: string
  v_image :: string
  v_ip :: string
  v_tap :: string
  v_sock :: string
  v_suspended :: bool
  v_done :: bool

record vm_meta =
  vmm_Image :: string
  vmm_IP :: string
  vmm_Tap :: string
  vmm_Suspended :: bool

text \<open>What is on the host: the tap devices, the clones by box, and for each run directory whether it
  holds the disk of the box and a snapshot, and its \<^verbatim>\<open>vm.json\<close>.\<close>

record vm_host =
  ho_taps :: "string set"
  ho_clones :: "string set"
  ho_dirs :: "string set"
  ho_disks :: "string set"
  ho_snaps :: "string set"
  ho_meta :: "string \<Rightarrow> vm_meta option"
  ho_images :: "string set"

record mv_provider =
  mp_fcBin :: string
  mp_kernel :: string
  mp_imagesDir :: string
  mp_runDir :: string
  mp_net :: vm_net
  mp_vms :: "string \<Rightarrow> vm option"
  mp_host :: vm_host

definition persist :: "unit result \<Rightarrow> vm \<Rightarrow> vm_host \<Rightarrow> vm_host" where
  "persist out v h =
     (case out of
        Inl _ \<Rightarrow> h
      | Inr _ \<Rightarrow> h\<lparr>ho_meta := (ho_meta h)(v_dir v \<mapsto> \<lparr> vmm_Image = v_image v, vmm_IP = v_ip v, vmm_Tap = v_tap v,
           vmm_Suspended = v_suspended v \<rparr>)\<rparr>)"

definition snapPaths :: "vm \<Rightarrow> string \<times> string" where
  "snapPaths v = (path_Join [v_dir v, ''snapshot''], path_Join [v_dir v, ''mem''])"

definition imagePath :: "mv_provider \<Rightarrow> string \<Rightarrow> string result" where
  "imagePath p img =
     (let base = path_Join [mp_imagesDir p, img @ ''.ext4''] in
      if base \<in> ho_images (mp_host p) then Inr base
      else Inl (Errorf (''microvm: unknown image '' @ quoted img @ '' (no '' @ base @ '')'')))"

definition vm_dir :: "mv_provider \<Rightarrow> string \<Rightarrow> string" where
  "vm_dir p ref = path_Join [mp_runDir p, ''vm-'' @ ref]"

definition removeAll :: "string \<Rightarrow> vm_host \<Rightarrow> vm_host" where
  "removeAll d h = h\<lparr>ho_dirs := ho_dirs h - {d}, ho_disks := ho_disks h - {d}, ho_snaps := ho_snaps h - {d},
     ho_meta := (ho_meta h)(d := None)\<rparr>"

section \<open>Taps\<close>

record tap_outcomes =
  to_add :: "unit result"
  to_master :: "unit result"
  to_up :: "unit result"

definition createTap :: "tap_outcomes \<Rightarrow> string \<Rightarrow> vm_host \<Rightarrow> unit result \<times> vm_host" where
  "createTap o' tap h0 =
     (let h = h0\<lparr>ho_taps := ho_taps h0 - {tap}\<rparr> in
      case to_add o' of
        Inl e \<Rightarrow> (Inl (Wrapf (''microvm: tap add '' @ tap @ '': '') e), h)
      | Inr _ \<Rightarrow>
          (let h1 = h\<lparr>ho_taps := insert tap (ho_taps h)\<rparr> in
           case to_master o' of
             Inl e \<Rightarrow> (Inl (Wrapf ''microvm: tap master: '' e), h1)
           | Inr _ \<Rightarrow> (case to_up o' of Inl e \<Rightarrow> (Inl (Wrapf ''microvm: tap up: '' e), h1) | Inr _ \<Rightarrow> (Inr (), h1))))"

definition deleteTap :: "string \<Rightarrow> vm_host \<Rightarrow> vm_host" where
  "deleteTap tap h = h\<lparr>ho_taps := ho_taps h - {tap}\<rparr>"

section \<open>Provision\<close>

record provision_outcomes =
  po_mkdir :: "unit result"
  po_clone :: "string result"
  po_tap :: tap_outcomes
  po_serial :: "unit result"
  po_start :: "unit result"
  po_socket :: "unit result"
  po_boot :: "fc_config \<Rightarrow> unit result"
  po_persist :: "unit result"

definition defaultDNS :: string where "defaultDNS = ''1.1.1.1 8.8.8.8''"

definition set_env :: "string \<Rightarrow> string \<Rightarrow> env \<Rightarrow> env" where
  "set_env k v m = (if k \<in> fst ` set m then map (\<lambda>(a, b). if a = k then (a, v) else (a, b)) m else m @ [(k, v)])"

definition vm_env :: "provision_request \<Rightarrow> env \<times> string" where
  "vm_env r =
     (let env0 = pr_Env r;
          env1 = (if ''HOPBOX_DNS'' \<in> fst ` set env0 then env0 else set_env ''HOPBOX_DNS'' defaultDNS env0)
      in case find mt_Device (pr_Mounts r) of
           None \<Rightarrow> (env1, [])
         | Some m \<Rightarrow> (set_env ''HOPBOX_HOME_MOUNT'' (mt_Target m) (set_env ''HOPBOX_HOME_DEV'' ''/dev/vdb'' env1), mt_Source m))"

definition vm_config :: "(env \<Rightarrow> string result) \<Rightarrow> mv_provider \<Rightarrow> provision_request \<Rightarrow> string \<Rightarrow> string \<Rightarrow> string \<Rightarrow> fc_config" where
  "vm_config pack p r rootfs ip tap =
     (let c = vn_cfg (mp_net p); (env, home) = vm_env r in
      buildConfig pack \<lparr> vs_KernelPath = mp_kernel p, vs_RootfsPath = rootfs, vs_VcpuCount = vcpusFromMillis (pr_CPUMillis r),
        vs_MemMB = pr_MemMB r, vs_BootArgs = DefaultBootArgs @ '' '' @ ipBootArg ip (nc_gateway c) nc_netmask,
        vs_TapDev = tap, vs_GuestMAC = macFromIP ip, vs_Init = vmInit, vs_Env = env, vs_HomeDrive = home \<rparr>)"

text \<open>The machine after its process was started: what the three remaining steps answer decides.\<close>

definition boot_result :: "provision_outcomes \<Rightarrow> fc_config \<Rightarrow> unit result" where
  "boot_result o' cfg =
     (case po_serial o' of
        Inl e \<Rightarrow> Inl e
      | Inr _ \<Rightarrow>
          (case po_start o' of
             Inl e \<Rightarrow> Inl (Wrapf ''microvm: start firecracker: '' e)
           | Inr _ \<Rightarrow>
               (case po_socket o' of
                  Inl e \<Rightarrow> Inl e
                | Inr _ \<Rightarrow> (case po_boot o' cfg of Inl e \<Rightarrow> Inl (Wrapf ''microvm: boot: '' e) | Inr _ \<Rightarrow> Inr ()))))"

definition mv_Provision :: "(env \<Rightarrow> string result) \<Rightarrow> provision_outcomes \<Rightarrow> provision_request \<Rightarrow> mv_provider \<Rightarrow>
    compute_instance result \<times> mv_provider" where
  "mv_Provision pack o' r p =
     (let ref = pr_WorkspaceID r; dir = vm_dir p ref in
      case po_mkdir o' of
        Inl e \<Rightarrow> (Inl e, p)
      | Inr _ \<Rightarrow>
        (let p0 = p\<lparr>mp_host := (mp_host p)\<lparr>ho_dirs := insert dir (ho_dirs (mp_host p))\<rparr>\<rparr>;
             sweep = (\<lambda>q. q\<lparr>mp_host := removeAll dir (mp_host q)\<rparr>);
             teardown = (\<lambda>q. q\<lparr>mp_host := (mp_host q)\<lparr>ho_clones := ho_clones (mp_host q) - {ref}\<rparr>\<rparr>)
         in case imagePath p0 (pr_ImageRef r) of
              Inl e \<Rightarrow> (Inl e, sweep p0)
            | Inr base \<Rightarrow>
              (case po_clone o' of
                 Inl e \<Rightarrow> (Inl (Wrapf ''microvm: stage rootfs: '' e), sweep p0)
               | Inr rootfs \<Rightarrow>
                 (let p1 = p0\<lparr>mp_host := (mp_host p0)\<lparr>ho_clones := insert ref (ho_clones (mp_host p0)),
                               ho_disks := insert dir (ho_disks (mp_host p0))\<rparr>\<rparr>
                  in case allocIP (mp_net p1) of
                       (Inl e, _) \<Rightarrow> (Inl e, sweep (teardown p1))
                     | (Inr ip, n2) \<Rightarrow>
                       (let p2 = p1\<lparr>mp_net := n2\<rparr>;
                            tap = nc_tapName (vn_cfg n2) ip;
                            release = (\<lambda>q. q\<lparr>mp_net := freeIP ip (mp_net q)\<rparr>)
                        in case createTap (po_tap o') tap (mp_host p2) of
                             (Inl e, h3) \<Rightarrow> (Inl e, sweep (release (teardown (p2\<lparr>mp_host := h3\<rparr>))))
                           | (Inr _, h3) \<Rightarrow>
                             (let p3 = p2\<lparr>mp_host := h3\<rparr>;
                                  cfg = vm_config pack p3 r rootfs ip tap
                              in case boot_result o' cfg of
                                   Inl e \<Rightarrow> (Inl e, sweep (teardown (release (p3\<lparr>mp_host := deleteTap tap (mp_host p3)\<rparr>))))
                                 | Inr _ \<Rightarrow>
                                   (let v = \<lparr> v_cmd = True, v_dir = dir, v_image = pr_ImageRef r, v_ip = ip, v_tap = tap,
                                          v_sock = path_Join [dir, ''fc.sock''], v_suspended = False, v_done = False \<rparr>
                                    in (Inr \<lparr> inst_Ref = ref, inst_Phase = InstanceRunning, inst_IP = ip \<rparr>,
                                        p3\<lparr>mp_host := persist (po_persist o') v (mp_host p3),
                                           mp_vms := (mp_vms p3)(ref \<mapsto> v)\<rparr>))))))))"

section \<open>The other operations\<close>

definition mv_Status :: "string \<Rightarrow> mv_provider \<Rightarrow> compute_instance result" where
  "mv_Status ref p =
     (case mp_vms p ref of
        None \<Rightarrow> Inr \<lparr> inst_Ref = ref, inst_Phase = InstanceGone, inst_IP = [] \<rparr>
      | Some v \<Rightarrow>
          if v_suspended v then Inr \<lparr> inst_Ref = ref, inst_Phase = InstanceStopped, inst_IP = v_ip v \<rparr>
          else if v_done v then Inr \<lparr> inst_Ref = ref, inst_Phase = InstanceGone, inst_IP = [] \<rparr>
          else Inr \<lparr> inst_Ref = ref, inst_Phase = InstanceRunning, inst_IP = v_ip v \<rparr>)"

text \<open>\<open>pause\<close> and \<open>snap\<close> are the answers of the machine's API. Killing the process makes it exit.\<close>

definition mv_Suspend :: "unit result \<Rightarrow> unit result \<Rightarrow> unit result \<Rightarrow> string \<Rightarrow> mv_provider \<Rightarrow> unit result option \<times> mv_provider" where
  "mv_Suspend pause snap pers ref p =
     (case mp_vms p ref of
        None \<Rightarrow> (Some (Inl (Errorf (''microvm: suspend: unknown box '' @ ref))), p)
      | Some v \<Rightarrow>
          if v_suspended v then (Some (Inr ()), p)
          else case pause of
                 Inl e \<Rightarrow> (Some (Inl (Wrapf ''microvm: pause: '' e)), p)
               | Inr _ \<Rightarrow>
                   (case snap of
                      Inl e \<Rightarrow> (Some (Inl (Wrapf ''microvm: snapshot: '' e)), p)
                    | Inr _ \<Rightarrow>
                        (let h1 = (mp_host p)\<lparr>ho_snaps := insert (v_dir v) (ho_snaps (mp_host p))\<rparr> in
                         if \<not> v_cmd v then (None, p\<lparr>mp_host := h1\<rparr>)
                         else (let v' = v\<lparr>v_suspended := True, v_done := True\<rparr> in
                               (Some (Inr ()), p\<lparr>mp_vms := (mp_vms p)(ref \<mapsto> v'), mp_host := persist pers v' h1\<rparr>)))))"

record resume_outcomes =
  ro_tap :: tap_outcomes
  ro_log :: "unit result"
  ro_start :: "unit result"
  ro_socket :: "unit result"
  ro_load :: "unit result"
  ro_persist :: "unit result"

definition mv_Resume :: "resume_outcomes \<Rightarrow> string \<Rightarrow> mv_provider \<Rightarrow> unit result \<times> mv_provider" where
  "mv_Resume o' ref p =
     (case mp_vms p ref of
        None \<Rightarrow> (Inl (Errorf (''microvm: resume: unknown box '' @ ref)), p)
      | Some v \<Rightarrow>
          if \<not> v_suspended v then (Inr (), p)
          else case createTap (ro_tap o') (v_tap v) (mp_host p) of
                 (Inl e, h) \<Rightarrow> (Inl (Wrapf ''microvm: resume tap: '' e), p\<lparr>mp_host := h\<rparr>)
               | (Inr _, h) \<Rightarrow>
                   (let p1 = p\<lparr>mp_host := h\<rparr> in
                    case ro_log o' of
                      Inl e \<Rightarrow> (Inl e, p1)
                    | Inr _ \<Rightarrow>
                      (case ro_start o' of
                         Inl e \<Rightarrow> (Inl (Wrapf ''microvm: resume start: '' e), p1)
                       | Inr _ \<Rightarrow>
                         (case ro_socket o' of
                            Inl e \<Rightarrow> (Inl e, p1)
                          | Inr _ \<Rightarrow>
                            (case ro_load o' of
                               Inl e \<Rightarrow> (Inl (Wrapf ''microvm: load snapshot: '' e), p1)
                             | Inr _ \<Rightarrow>
                               (let v' = v\<lparr>v_cmd := True, v_suspended := False, v_done := False\<rparr> in
                                (Inr (), p1\<lparr>mp_vms := (mp_vms p1)(ref \<mapsto> v'), mp_host := persist (ro_persist o') v' (mp_host p1)\<rparr>)))))))"

text \<open>\<^verbatim>\<open>kill\<close> reads the process of the command, which a reattached machine does not have. The exit of the
  process is observed by the goroutine that waits for it.\<close>

definition mv_kill :: "string \<Rightarrow> mv_provider \<Rightarrow> unit result option \<times> mv_provider" where
  "mv_kill ref p =
     (case mp_vms p ref of
        None \<Rightarrow> (Some (Inr ()), p)
      | Some v \<Rightarrow> if \<not> v_cmd v then (None, p) else (Some (Inr ()), p\<lparr>mp_vms := (mp_vms p)(ref \<mapsto> v\<lparr>v_done := True\<rparr>)\<rparr>))"

definition mv_Stop :: "string \<Rightarrow> mv_provider \<Rightarrow> unit result option \<times> mv_provider" where
  "mv_Stop ref p = mv_kill ref p"

definition mv_Destroy :: "unit result \<Rightarrow> string \<Rightarrow> mv_provider \<Rightarrow> unit result option \<times> mv_provider" where
  "mv_Destroy rm ref p =
     (case mv_kill ref p of
        (None, p1) \<Rightarrow> (None, p1)
      | (Some _, p1) \<Rightarrow>
          (case mp_vms p1 ref of
             None \<Rightarrow> (Some (Inr ()), p1)
           | Some v \<Rightarrow>
               (let h = deleteTap (v_tap v) (mp_host p1);
                    h1 = h\<lparr>ho_clones := ho_clones h - {ref}\<rparr>;
                    p2 = p1\<lparr>mp_vms := (mp_vms p1)(ref := None), mp_net := freeIP (v_ip v) (mp_net p1), mp_host := h1\<rparr>
                in case rm of
                     Inl e \<Rightarrow> (Some (Inl e), p2)
                   | Inr _ \<Rightarrow> (Some (Inr ()), p2\<lparr>mp_host := removeAll (v_dir v) (mp_host p2)\<rparr>))))"

section \<open>Start\<close>

text \<open>\<open>clone\<close> is the outcome of rebuilding the copy-on-write device of a box.\<close>

definition reattach_one :: "(string \<Rightarrow> string result) \<Rightarrow> string \<times> bool \<Rightarrow> mv_provider \<Rightarrow> mv_provider" where
  "reattach_one clone e p =
     (let (name, isDir) = e in
      if \<not> isDir \<or> \<not> HasPrefix name ''vm-'' then p
      else
        (let ref = TrimPrefix name ''vm-''; dir = path_Join [mp_runDir p, name] in
         case ho_meta (mp_host p) dir of
           None \<Rightarrow> p
         | Some m \<Rightarrow>
             if dir \<notin> ho_snaps (mp_host p) then p
             else case imagePath p (vmm_Image m) of
                    Inl _ \<Rightarrow> p
                  | Inr base \<Rightarrow>
                      (case clone ref of
                         Inl _ \<Rightarrow> p
                       | Inr _ \<Rightarrow> p\<lparr> mp_host := (mp_host p)\<lparr>ho_clones := insert ref (ho_clones (mp_host p))\<rparr>,
                             mp_net := reserveIP (vmm_IP m) (mp_net p),
                             mp_vms := (mp_vms p)(ref \<mapsto> \<lparr> v_cmd = False, v_dir = dir, v_image = vmm_Image m, v_ip = vmm_IP m,
                               v_tap = vmm_Tap m, v_sock = path_Join [dir, ''fc.sock''], v_suspended = True, v_done = False \<rparr>) \<rparr>)))"

definition reattach :: "(string \<Rightarrow> string result) \<Rightarrow> (string \<times> bool) list result \<Rightarrow> mv_provider \<Rightarrow> mv_provider" where
  "reattach clone entries p = (case entries of Inl _ \<Rightarrow> p | Inr es \<Rightarrow> fold (reattach_one clone) es p)"

record start_outcomes =
  so_kvm :: "unit result"
  so_mkdir :: "unit result"
  so_bridge :: "unit result"
  so_links :: "string result"
  so_entries :: "(string \<times> bool) list result"
  so_clone :: "string \<Rightarrow> string result"

definition mv_New :: "start_outcomes \<Rightarrow> string \<Rightarrow> string \<Rightarrow> string \<Rightarrow> string \<Rightarrow> net_config \<Rightarrow> vm_host \<Rightarrow> mv_provider result" where
  "mv_New o' fcBin vmlinux imagesDir runDir netCfg h =
     (case so_kvm o' of
        Inl e \<Rightarrow> Inl (Wrapf ''microvm: /dev/kvm unavailable (need KVM / nested virt): '' e)
      | Inr _ \<Rightarrow>
          (case so_mkdir o' of
             Inl e \<Rightarrow> Inl e
           | Inr _ \<Rightarrow>
               rbind (newVMNet (so_bridge o') (so_links o') netCfg) (\<lambda>net.
                 Inr (reattach (so_clone o') (so_entries o')
                   \<lparr> mp_fcBin = fcBin, mp_kernel = vmlinux, mp_imagesDir = imagesDir, mp_runDir = runDir,
                     mp_net = net, mp_vms = (\<lambda>_. None), mp_host = h \<rparr>))))"

definition Images :: "(string \<times> bool) list result \<Rightarrow> string list" where
  "Images entries =
     (case entries of
        Inl _ \<Rightarrow> []
      | Inr es \<Rightarrow> sort (map (\<lambda>e. TrimSuffix (fst e) ''.ext4'') (filter (\<lambda>e. HasSuffix (fst e) ''.ext4'' \<and> \<not> snd e) es)))"

section \<open>Lemmas\<close>

lemma createTap_taps: "createTap o' tap h = (r, h') \<Longrightarrow> h' = h\<lparr>ho_taps := ho_taps h'\<rparr>"
  by (auto simp: createTap_def Let_def split: sum.splits)

text \<open>The three ways out of \<^verbatim>\<open>Provision\<close>: before an address was taken, after, and a running machine.\<close>

lemma mv_Provision_cases:
  assumes "subnet_ok (nc_Subnet24 (vn_cfg (mp_net p)))" "mv_Provision pack o' r p = (res, p')"
  shows "case res of
      Inl e \<Rightarrow> mp_vms p' = mp_vms p \<and> mp_net p' = mp_net p \<and>
        (is_ok (po_mkdir o') \<longrightarrow> vm_dir p (pr_WorkspaceID r) \<notin> ho_dirs (mp_host p') \<and>
           vm_dir p (pr_WorkspaceID r) \<notin> ho_disks (mp_host p'))
    | Inr inst \<Rightarrow> \<exists>i \<in> {2..254}. i \<notin> vn_used (mp_net p) \<and> mp_net p' = (mp_net p)\<lparr>vn_used := insert i (vn_used (mp_net p))\<rparr> \<and>
        inst = \<lparr> inst_Ref = pr_WorkspaceID r, inst_Phase = InstanceRunning, inst_IP = nc_ip (vn_cfg (mp_net p)) i \<rparr> \<and>
        (\<exists>v. mp_vms p' = (mp_vms p)(pr_WorkspaceID r \<mapsto> v) \<and> v_ip v = nc_ip (vn_cfg (mp_net p)) i \<and> v_cmd v \<and>
           v_tap v = nc_tapName (vn_cfg (mp_net p)) (nc_ip (vn_cfg (mp_net p)) i) \<and> \<not> v_suspended v \<and> \<not> v_done v)"
proof -
  obtain ra n2 where a: "allocIP (mp_net p) = (ra, n2)" by fastforce
  show ?thesis
  proof (cases ra)
    case (Inl e)
    with assms(2) a show ?thesis
      by (auto simp: mv_Provision_def Let_def removeAll_def split: sum.splits)
  next
    case (Inr ip)
    from allocIP_spec [OF a] Inr obtain i where i: "i \<in> {2..254}" "i \<notin> vn_used (mp_net p)"
      "ip = nc_ip (vn_cfg (mp_net p)) i" "n2 = (mp_net p)\<lparr>vn_used := insert i (vn_used (mp_net p))\<rparr>" by auto
    have "lastOctet ip = i" unfolding i(3) using i(1) by (intro lastOctet_ip [OF assms(1)]) auto
    then have f: "freeIP ip n2 = mp_net p" using i by (simp add: freeIP_def insert_Diff_if)
    obtain h where h: "h = (mp_host p)\<lparr>ho_dirs := insert (vm_dir p (pr_WorkspaceID r)) (ho_dirs (mp_host p)),
        ho_clones := insert (pr_WorkspaceID r) (ho_clones (mp_host p)),
        ho_disks := insert (vm_dir p (pr_WorkspaceID r)) (ho_disks (mp_host p))\<rparr>" by blast
    obtain rt h3 where t: "createTap (po_tap o') (nc_tapName (vn_cfg n2) ip) h = (rt, h3)" by fastforce
    let ?v = "\<lparr> v_cmd = True, v_dir = vm_dir p (pr_WorkspaceID r), v_image = pr_ImageRef r, v_ip = ip,
       v_tap = nc_tapName (vn_cfg n2) ip, v_sock = path_Join [vm_dir p (pr_WorkspaceID r), ''fc.sock''],
       v_suspended = False, v_done = False \<rparr>"
    show ?thesis
    proof (cases res)
      case (Inl e)
      then show ?thesis
        using assms(2) a Inr t f unfolding h
        by (auto simp: mv_Provision_def Let_def removeAll_def split: sum.splits)
    next
      case R: (Inr inst)
      have "inst = \<lparr> inst_Ref = pr_WorkspaceID r, inst_Phase = InstanceRunning, inst_IP = ip \<rparr> \<and> mp_net p' = n2 \<and>
          mp_vms p' = (mp_vms p)(pr_WorkspaceID r \<mapsto> ?v)"
        using assms(2) a Inr t R unfolding h
        by (auto simp: mv_Provision_def Let_def split: sum.splits)
      moreover have "vn_cfg n2 = vn_cfg (mp_net p)" unfolding i(4) by simp
      ultimately show ?thesis
        unfolding R using i by (simp only: sum.case) (rule bexI [of _ i], auto)
    qed
  qed
qed

section \<open>A run of the daemon\<close>

text \<open>Every operation, with any outcome, on any box, and the exit of a machine's process on its own.\<close>

inductive mv_step :: "mv_provider \<Rightarrow> mv_provider \<Rightarrow> bool" where
  provision: "mv_Provision pack o' r p = (res, p') \<Longrightarrow> mv_step p p'"
| suspend: "mv_Suspend pause snap pers ref p = (res, p') \<Longrightarrow> mv_step p p'"
| resume: "mv_Resume o'' ref p = (res', p') \<Longrightarrow> mv_step p p'"
| stop: "mv_Stop ref p = (res, p') \<Longrightarrow> mv_step p p'"
| destroy: "mv_Destroy rm ref p = (res, p') \<Longrightarrow> mv_step p p'"
| exited: "mp_vms p ref = Some v \<Longrightarrow> mv_step p (p\<lparr>mp_vms := (mp_vms p)(ref \<mapsto> v\<lparr>v_done := True\<rparr>)\<rparr>)"

text \<open>Each machine holds a guest address of the subnet that is marked as used and the tap device of that
  address, and no two machines hold the same.\<close>

definition mv_wf :: "mv_provider \<Rightarrow> bool" where
  "mv_wf p \<longleftrightarrow> subnet_ok (nc_Subnet24 (vn_cfg (mp_net p))) \<and>
     (\<forall>ref v. mp_vms p ref = Some v \<longrightarrow> (\<exists>i \<in> {2..254}. i \<in> vn_used (mp_net p) \<and>
        v_ip v = nc_ip (vn_cfg (mp_net p)) i \<and> v_tap v = nc_tapName (vn_cfg (mp_net p)) (v_ip v))) \<and>
     (\<forall>r1 r2 v1 v2. mp_vms p r1 = Some v1 \<and> mp_vms p r2 = Some v2 \<and> v_ip v1 = v_ip v2 \<longrightarrow> r1 = r2)"

lemma nc_ip_inj:
  assumes "subnet_ok (nc_Subnet24 c)" "i \<in> {2..254}" "j \<in> {2..254}" "nc_ip c i = nc_ip c j"
  shows "i = j"
proof -
  have oct: "lastOctet (nc_ip c k) = k" if "k \<in> {2..254}" for k
    by (rule lastOctet_ip [OF assms(1)]) (use that in auto)
  have "lastOctet (nc_ip c i) = lastOctet (nc_ip c j)" by (simp only: assms(4))
  then show ?thesis by (simp only: oct [OF assms(2)] oct [OF assms(3)])
qed

text \<open>A change of one machine that keeps its address and tap keeps the invariant.\<close>

lemma mv_wf_change:
  assumes "mv_wf p" "mp_vms p ref = Some v" "mp_vms p' = (mp_vms p)(ref \<mapsto> v')" "mp_net p' = mp_net p"
    "v_ip v' = v_ip v" "v_tap v' = v_tap v"
  shows "mv_wf p'"
  using assms unfolding mv_wf_def by (auto split: if_splits)

lemma mv_wf_same: "mv_wf p \<Longrightarrow> mp_vms p' = mp_vms p \<Longrightarrow> mp_net p' = mp_net p \<Longrightarrow> mv_wf p'"
  by (simp add: mv_wf_def)

lemma mv_wf_Provision:
  assumes "mv_wf p" "mv_Provision pack o' r p = (res, p')"
  shows "mv_wf p'"
proof -
  from assms(1) have sn: "subnet_ok (nc_Subnet24 (vn_cfg (mp_net p)))" by (simp add: mv_wf_def)
  note c = mv_Provision_cases [OF sn assms(2)]
  show ?thesis
  proof (cases res)
    case (Inl e)
    with c assms(1) show ?thesis by (auto intro: mv_wf_same)
  next
    case (Inr inst)
    with c obtain i v where i: "i \<in> {2..254}" "i \<notin> vn_used (mp_net p)"
      "mp_net p' = (mp_net p)\<lparr>vn_used := insert i (vn_used (mp_net p))\<rparr>"
      "mp_vms p' = (mp_vms p)(pr_WorkspaceID r \<mapsto> v)" "v_ip v = nc_ip (vn_cfg (mp_net p)) i"
      "v_tap v = nc_tapName (vn_cfg (mp_net p)) (nc_ip (vn_cfg (mp_net p)) i)" by auto
    have fresh: "v_ip w \<noteq> v_ip v" if "mp_vms p q = Some w" for q w
    proof
      assume e: "v_ip w = v_ip v"
      from that assms(1) obtain j where "j \<in> {2..254}" "j \<in> vn_used (mp_net p)" "v_ip w = nc_ip (vn_cfg (mp_net p)) j"
        unfolding mv_wf_def by blast
      with e i nc_ip_inj [OF sn] show False by metis
    qed
    have "\<exists>j \<in> {2..254}. j \<in> vn_used (mp_net p') \<and> v_ip w = nc_ip (vn_cfg (mp_net p')) j \<and>
        v_tap w = nc_tapName (vn_cfg (mp_net p')) (v_ip w)" if "mp_vms p' q = Some w" for q w
    proof (cases "q = pr_WorkspaceID r")
      case True
      with that i show ?thesis by (intro bexI [of _ i]) auto
    next
      case False
      with that i(4) have "mp_vms p q = Some w" by simp
      with assms(1) obtain j where "j \<in> {2..254}" "j \<in> vn_used (mp_net p)" "v_ip w = nc_ip (vn_cfg (mp_net p)) j"
        "v_tap w = nc_tapName (vn_cfg (mp_net p)) (v_ip w)" unfolding mv_wf_def by blast
      with i(3) show ?thesis by (intro bexI [of _ j]) simp_all
    qed
    moreover have "q1 = q2" if "mp_vms p' q1 = Some w1" "mp_vms p' q2 = Some w2" "v_ip w1 = v_ip w2" for q1 q2 w1 w2
      using that i(4) fresh assms(1) unfolding mv_wf_def by (auto split: if_splits)
    ultimately show ?thesis using sn i(3) unfolding mv_wf_def by simp
  qed
qed

lemma mv_wf_Suspend:
  assumes "mv_wf p" "mv_Suspend pause snap pers ref p = (res, p')"
  shows "mv_wf p'"
proof (cases "mp_vms p ref")
  case (Some v)
  from assms(2) Some consider "mp_vms p' = mp_vms p" "mp_net p' = mp_net p"
    | "mp_vms p' = (mp_vms p)(ref \<mapsto> v\<lparr>v_suspended := True, v_done := True\<rparr>)" "mp_net p' = mp_net p"
    by (auto simp: mv_Suspend_def Let_def split: if_splits sum.splits)
  then show ?thesis
  proof cases
    case 1
    then show ?thesis by (rule mv_wf_same [OF assms(1)])
  next
    case 2
    then show ?thesis by (rule mv_wf_change [OF assms(1) Some]) simp_all
  qed
qed (use assms in \<open>auto simp: mv_Suspend_def\<close>)

lemma mv_wf_Resume:
  assumes "mv_wf p" "mv_Resume o' ref p = (res, p')"
  shows "mv_wf p'"
proof (cases "mp_vms p ref")
  case (Some v)
  obtain rt h where t: "createTap (ro_tap o') (v_tap v) (mp_host p) = (rt, h)" by fastforce
  from assms(2) Some t consider "mp_vms p' = mp_vms p" "mp_net p' = mp_net p"
    | "mp_vms p' = (mp_vms p)(ref \<mapsto> v\<lparr>v_cmd := True, v_suspended := False, v_done := False\<rparr>)" "mp_net p' = mp_net p"
    by (auto simp: mv_Resume_def Let_def split: if_splits sum.splits)
  then show ?thesis
  proof cases
    case 1
    then show ?thesis by (rule mv_wf_same [OF assms(1)])
  next
    case 2
    then show ?thesis by (rule mv_wf_change [OF assms(1) Some]) simp_all
  qed
qed (use assms in \<open>auto simp: mv_Resume_def\<close>)

lemma mv_wf_kill:
  assumes "mv_wf p" "mv_kill ref p = (res, p')"
  shows "mv_wf p'"
proof (cases "mp_vms p ref")
  case (Some v)
  from assms(2) Some consider "p' = p"
    | "mp_vms p' = (mp_vms p)(ref \<mapsto> v\<lparr>v_done := True\<rparr>)" "mp_net p' = mp_net p"
    by (auto simp: mv_kill_def split: if_splits)
  then show ?thesis
  proof cases
    case 1
    with assms(1) show ?thesis by simp
  next
    case 2
    then show ?thesis by (rule mv_wf_change [OF assms(1) Some]) simp_all
  qed
qed (use assms in \<open>auto simp: mv_kill_def\<close>)

text \<open>Taking a machine out gives its address back and leaves those of the others.\<close>

lemma mv_wf_remove:
  assumes "mv_wf p" "mp_vms p ref = Some v" "mp_vms p' = (mp_vms p)(ref := None)" "mp_net p' = freeIP (v_ip v) (mp_net p)"
  shows "mv_wf p'"
proof -
  let ?c = "vn_cfg (mp_net p)"
  from assms(1) have sn: "subnet_ok (nc_Subnet24 ?c)" by (simp add: mv_wf_def)
  from assms(1,2) obtain i where i: "i \<in> {2..254}" "v_ip v = nc_ip ?c i" unfolding mv_wf_def by blast
  have "lastOctet (v_ip v) = i" unfolding i(2) by (rule lastOctet_ip [OF sn]) (use i(1) in auto)
  with i(1) assms(4) have n: "vn_cfg (mp_net p') = ?c" "vn_used (mp_net p') = vn_used (mp_net p) - {i}"
    by (auto simp: freeIP_def)
  have "\<exists>j \<in> {2..254}. j \<in> vn_used (mp_net p') \<and> v_ip w = nc_ip ?c j \<and> v_tap w = nc_tapName ?c (v_ip w)"
    if "mp_vms p' q = Some w" for q w
  proof -
    from that assms(3) have q: "q \<noteq> ref" "mp_vms p q = Some w" by (auto split: if_splits)
    with assms(1) obtain j where j: "j \<in> {2..254}" "j \<in> vn_used (mp_net p)" "v_ip w = nc_ip ?c j" "v_tap w = nc_tapName ?c (v_ip w)"
      unfolding mv_wf_def by blast
    have "j \<noteq> i" using assms(1,2) q j(3) i(2) unfolding mv_wf_def by metis
    with j n(2) show ?thesis by blast
  qed
  with sn n(1) assms(1,3) show ?thesis unfolding mv_wf_def by (auto split: if_splits)
qed

lemma mv_wf_Destroy:
  assumes "mv_wf p" "mv_Destroy rm ref p = (res, p')"
  shows "mv_wf p'"
proof -
  obtain rk p1 where k: "mv_kill ref p = (rk, p1)" by fastforce
  note w1 = mv_wf_kill [OF assms(1) k]
  show ?thesis
  proof (cases "rk = None \<or> mp_vms p1 ref = None")
    case True
    with assms(2) k w1 show ?thesis by (auto simp: mv_Destroy_def split: option.splits)
  next
    case False
    then obtain v where v: "mp_vms p1 ref = Some v" by blast
    with False assms(2) k have "mp_vms p' = (mp_vms p1)(ref := None) \<and> mp_net p' = freeIP (v_ip v) (mp_net p1)"
      by (auto simp: mv_Destroy_def Let_def split: sum.splits)
    then show ?thesis by (intro mv_wf_remove [OF w1 v]) simp_all
  qed
qed

lemma mv_step_wf: "mv_step p p' \<Longrightarrow> mv_wf p \<Longrightarrow> mv_wf p'"
proof (induction rule: mv_step.induct)
  case (exited p ref v)
  show ?case by (rule mv_wf_change [OF exited(2) exited(1), of _ "v\<lparr>v_done := True\<rparr>"]) simp_all
qed (auto simp: mv_Stop_def intro: mv_wf_Provision mv_wf_Suspend mv_wf_Resume mv_wf_kill mv_wf_Destroy)

section \<open>Properties\<close>



definition demo_mv :: mv_provider where
  "demo_mv = \<lparr> mp_fcBin = ''firecracker'', mp_kernel = ''vmlinux'', mp_imagesDir = ''/img'', mp_runDir = ''/run'',
     mp_net = \<lparr> vn_cfg = DefaultNet, vn_used = {} \<rparr>, mp_vms = (\<lambda>_. None),
     mp_host = \<lparr> ho_taps = {}, ho_clones = {}, ho_dirs = {}, ho_disks = {}, ho_snaps = {}, ho_meta = (\<lambda>_. None),
       ho_images = {''/img/alpine.ext4''} \<rparr> \<rparr>"

definition demo_outcomes :: "unit result \<Rightarrow> provision_outcomes" where
  "demo_outcomes boot = \<lparr> po_mkdir = Inr (), po_clone = Inr ''/dev/mapper/x'',
     po_tap = \<lparr> to_add = Inr (), to_master = Inr (), to_up = Inr () \<rparr>, po_serial = Inr (), po_start = Inr (),
     po_socket = Inr (), po_boot = (\<lambda>_. boot), po_persist = Inr () \<rparr>"

definition demo_req :: "string \<Rightarrow> provision_request" where
  "demo_req ref = \<lparr> pr_WorkspaceID = ref, pr_ImageRef = ''alpine'', pr_MemMB = 512, pr_CPUMillis = 1000, pr_GuestBin = [],
     pr_Mounts = [], pr_Env = [], pr_Agent = \<lparr> ai_ImageRef = [], ai_BinaryPath = [], ai_TargetPath = [], ai_HostBinaryPath = [] \<rparr> \<rparr>"

lemma demo_subnet: "subnet_ok ''10.0.0''"
  by code_simp

lemma demo_mv_wf: "mv_wf demo_mv"
  by (simp add: mv_wf_def demo_mv_def DefaultNet_def demo_subnet)

lemma demo_image: "path_Join [''/img'', ''alpine.ext4''] = ''/img/alpine.ext4''"
  by code_simp

lemma demo_alloc: "\<exists>n. allocIP \<lparr> vn_cfg = DefaultNet, vn_used = {} \<rparr> = (Inr ''10.0.0.2'', n)"
proof -
  have k: "nat (ipLastOctet - ipFirstOctet + 1) = Suc 252" by (simp add: ipLastOctet_def ipFirstOctet_def)
  have "nc_ip DefaultNet 2 = ''10.0.0.2''" by code_simp
  then show ?thesis unfolding allocIP_def k alloc_from.simps by (simp add: ipFirstOctet_def)
qed



text \<open>Destroying or stopping a machine that was restored after a restart of the daemon dereferences a
  nil command, as long as the machine was not resumed.\<close>

theorem destroy_reattached_panics:
  assumes "reattach_one clone (''vm-'' @ ref, True) p = p'" "p' \<noteq> p"
  shows "fst (mv_Destroy rm ref p') = None \<and> fst (mv_Stop ref p') = None"
proof -
  have "HasPrefix (''vm-'' @ ref) ''vm-''" "TrimPrefix (''vm-'' @ ref) ''vm-'' = ref"
    by (simp_all add: HasPrefix_def TrimPrefix_def)
  with assms obtain v where "mp_vms p' ref = Some v" "\<not> v_cmd v"
    by (auto simp: reattach_one_def Let_def split: option.splits if_splits sum.splits)
  then show ?thesis by (simp add: mv_Destroy_def mv_Stop_def mv_kill_def)
qed

text \<open>Provisioning a box again (which the reconciler does when its machine has exited) puts a new machine
  in the table without giving the old address back: the address stays reserved and no machine
  holds it.\<close>

theorem reprovision_leaks_address:
  assumes "mv_wf p" "mp_vms p ref = Some v" "pr_WorkspaceID r = ref" "mv_Provision pack o' r p = (Inr inst, p')"
  shows "lastOctet (v_ip v) \<in> vn_used (mp_net p') \<and> (\<forall>q w. mp_vms p' q = Some w \<longrightarrow> v_ip w \<noteq> v_ip v)"
proof -
  let ?c = "vn_cfg (mp_net p)"
  from assms(1) have sn: "subnet_ok (nc_Subnet24 ?c)" by (simp add: mv_wf_def)
  from assms(1,2) obtain j where j: "j \<in> {2..254}" "j \<in> vn_used (mp_net p)" "v_ip v = nc_ip ?c j" unfolding mv_wf_def by blast
  have oct: "lastOctet (v_ip v) = j" unfolding j(3) by (rule lastOctet_ip [OF sn]) (use j(1) in auto)
  from mv_Provision_cases [OF sn assms(4)] obtain i v' where i: "i \<in> {2..254}" "i \<notin> vn_used (mp_net p)"
    "mp_net p' = (mp_net p)\<lparr>vn_used := insert i (vn_used (mp_net p))\<rparr>"
    "mp_vms p' = (mp_vms p)(ref \<mapsto> v')" "v_ip v' = nc_ip ?c i" using assms(3) by auto
  have "v_ip v' \<noteq> v_ip v" using nc_ip_inj [OF sn i(1) j(1)] i(2,5) j(2,3) by auto
  moreover have "v_ip w \<noteq> v_ip v" if "mp_vms p q = Some w" "q \<noteq> ref" for q w
    using assms(1,2) that unfolding mv_wf_def by metis
  ultimately show ?thesis using oct i(3,4) j(2) by (auto split: if_splits)
qed

text \<open>A resumed machine keeps its snapshot file, and a restart looks at the file only: a box that was
  suspended, resumed and then lost with the daemon comes back as suspended, on the old snapshot,
  although its \<^verbatim>\<open>vm.json\<close> says it was running.\<close>

theorem stale_snapshot_restored:
  assumes "mp_vms p ref = Some v" "\<not> v_suspended v" "v_cmd v" "v_dir v = vm_dir p ref"
    and "mv_Suspend (Inr ()) (Inr ()) (Inr ()) ref p = (res, p1)"
    and "mv_Resume o' ref p1 = (Inr (), p2)" "ro_persist o' = Inr ()"
    and "mp_host q = mp_host p2" "mp_runDir q = mp_runDir p" "imagePath q (v_image v) = Inr base" "clone ref = Inr dev"
  shows "\<exists>m w. ho_meta (mp_host q) (vm_dir p ref) = Some m \<and> \<not> vmm_Suspended m \<and>
    mp_vms (reattach_one clone (''vm-'' @ ref, True) q) ref = Some w \<and> v_suspended w"
proof -
  from assms(1-5) have p1: "mp_vms p1 ref = Some (v\<lparr>v_suspended := True, v_done := True\<rparr>)"
    "vm_dir p ref \<in> ho_snaps (mp_host p1)"
    by (auto simp: mv_Suspend_def persist_def Let_def)
  obtain rt h where t: "createTap (ro_tap o') (v_tap v) (mp_host p1) = (rt, h)" by fastforce
  from createTap_taps [OF t] have hs: "ho_snaps h = ho_snaps (mp_host p1)" by (metis vm_host.simps(5) vm_host.update_convs(1) vm_host.select_convs(5) vm_host.surjective)
  from assms(4,6,7) p1(1) t
  have "ho_snaps (mp_host p2) = ho_snaps h" "\<exists>m. ho_meta (mp_host p2) (vm_dir p ref) = Some m \<and> \<not> vmm_Suspended m \<and> vmm_Image m = v_image v"
    by (auto simp: mv_Resume_def persist_def Let_def split: sum.splits)
  moreover have "HasPrefix (''vm-'' @ ref) ''vm-''" "TrimPrefix (''vm-'' @ ref) ''vm-'' = ref"
    "path_Join [mp_runDir q, ''vm-'' @ ref] = vm_dir p ref"
    using assms(9) by (simp_all add: HasPrefix_def TrimPrefix_def vm_dir_def)
  ultimately show ?thesis using assms(8,10,11) p1(2) hs by (auto simp: reattach_one_def Let_def)
qed

end
