(* ===== verification/Compute_Contract.thy ===== *)
theory Compute_Contract
  imports Boxd Microvm
begin

text \<open>
  What the compute contract of \<^verbatim>\<open>internal/core/ports/ports.go\<close> promises (its notes and the conformance
  suite say: an instance that was provisioned is there, a status reports the instance's state and changes
  nothing, a destroyed or unknown reference is gone and not an error) as a locale, what the reconciler
  gets from it, and the microVM provider as an instance of it. The container providers keep it under
  what their vendors document (\<open>Docker\<close>).
\<close>

section \<open>The contract\<close>

text \<open>\<open>state\<close> is the phase of the instance behind a reference, \<open>good\<close> an invariant of the provider's world.\<close>

locale compute_contract =
  fixes C :: "'w compute_ops" and state :: "'w \<Rightarrow> string \<Rightarrow> instance_phase" and good :: "'w \<Rightarrow> bool"
  assumes provision_good: "good w \<Longrightarrow> c_Provision C r w = (ri, w') \<Longrightarrow> good w'"
    and provision_there: "good w \<Longrightarrow> c_Provision C r w = (Inr i, w') \<Longrightarrow> state w' (inst_Ref i) \<noteq> InstanceGone"
    and status_frame: "good w \<Longrightarrow> c_Status C ref w = (ri, w') \<Longrightarrow> good w' \<and> state w' = state w"
    and status_faithful: "good w \<Longrightarrow> c_Status C ref w = (Inr i, w') \<Longrightarrow> inst_Ref i = ref \<and> inst_Phase i = state w ref"
    and stop_good: "good w \<Longrightarrow> c_Stop C ref w = (ru, w') \<Longrightarrow> good w'"
    and destroy_good: "good w \<Longrightarrow> c_Destroy C ref w = (ru, w') \<Longrightarrow> good w'"
    and destroy_gone: "good w \<Longrightarrow> c_Destroy C ref w = (Inr (), w') \<Longrightarrow> state w' ref = InstanceGone"
    and suspender_good: "c_Suspender C = Some s \<Longrightarrow> good w \<Longrightarrow> c_Suspend s ref w = (ru, w') \<Longrightarrow> good w'"
      "c_Suspender C = Some s \<Longrightarrow> good w \<Longrightarrow> c_Resume s ref w = (ru, w') \<Longrightarrow> good w'"

context compute_contract
begin

text \<open>The conformance suite's case: destroy, then ask.\<close>

lemma destroy_then_status:
  assumes "good w" "c_Destroy C ref w = (Inr (), w1)" "c_Status C ref w1 = (Inr i, w2)"
  shows "inst_Phase i = InstanceGone"
  using status_faithful [OF destroy_good [OF assms(1,2)] assms(3)] destroy_gone [OF assms(1,2)] by simp

text \<open>The reconciler removes a row only behind a destroy that succeeded.\<close>

lemma destroy_leaves_no_instance:
  assumes "good c" "r_compute r = C" "rc_Hooks (r_cfg r) = None" "destroy r now b (s, c) = (res, s', c')" "s' \<noteq> s"
  shows "b_InstanceRef b = [] \<or> state c' (b_InstanceRef b) = InstanceGone"
proof -
  obtain rd cd where d: "c_Destroy C (b_InstanceRef b) c = (rd, cd)" by fastforce
  with assms(2-5) have "b_InstanceRef b = [] \<or> rd = Inr () \<and> c' = cd"
    by (auto simp: destroy_def Let_def split: if_splits sum.splits prod.splits)
  with destroy_gone [OF assms(1), of "b_InstanceRef b"] d show ?thesis by auto
qed

end

section \<open>The microVM provider\<close>

text \<open>The provider's operations as a contract. The outcomes of the host's calls come from the rest of the
  world \<open>'e\<close>, in any way it likes.\<close>

record 'e mv_env =
  me_provision :: "'e \<Rightarrow> provision_outcomes \<times> 'e"
  me_remove :: "'e \<Rightarrow> unit result \<times> 'e"
  me_suspend :: "'e \<Rightarrow> (unit result \<times> unit result \<times> unit result) \<times> 'e"
  me_resume :: "'e \<Rightarrow> resume_outcomes \<times> 'e"

text \<open>A call that dereferences the nil process of a reattached machine does not return; the invariant of
  the contract below excludes it, so which result stands for it does not matter.\<close>

definition returned :: "unit result option \<Rightarrow> unit result" where
  "returned r = (case r of Some x \<Rightarrow> x | None \<Rightarrow> Inl (Errorf ''panic''))"

definition microvm_compute :: "(env \<Rightarrow> string result) \<Rightarrow> 'e mv_env \<Rightarrow> (mv_provider \<times> 'e) compute_ops" where
  "microvm_compute pack E =
     \<lparr> c_Provision = (\<lambda>r (p, e). let (o', e') = me_provision E e; (res, p') = mv_Provision pack o' r p in (res, p', e')),
       c_Status = (\<lambda>ref (p, e). (mv_Status ref p, p, e)),
       c_Stop = (\<lambda>ref (p, e). let (res, p') = mv_Stop ref p in (returned res, p', e)),
       c_Destroy = (\<lambda>ref (p, e). let (rm, e') = me_remove E e; (res, p') = mv_Destroy rm ref p in (returned res, p', e')),
       c_Suspender = Some
         \<lparr> c_Suspend = (\<lambda>ref (p, e). let ((pause, snap, pers), e') = me_suspend E e; (res, p') = mv_Suspend pause snap pers ref p
              in (returned res, p', e')),
           c_Resume = (\<lambda>ref (p, e). let (o', e') = me_resume E e; (res, p') = mv_Resume o' ref p in (res, p', e')) \<rparr> \<rparr>"

definition mv_state :: "mv_provider \<times> 'e \<Rightarrow> string \<Rightarrow> instance_phase" where
  "mv_state w ref = (case mp_vms (fst w) ref of
     None \<Rightarrow> InstanceGone
   | Some v \<Rightarrow> if v_suspended v then InstanceStopped else if v_done v then InstanceGone else InstanceRunning)"

definition mv_good :: "mv_provider \<times> 'e \<Rightarrow> bool" where
  "mv_good w \<longleftrightarrow> subnet_ok (nc_Subnet24 (vn_cfg (mp_net (fst w)))) \<and> (\<forall>ref v. mp_vms (fst w) ref = Some v \<longrightarrow> v_cmd v)"

lemma mv_goodI:
  assumes "mv_good (p, e)" "vn_cfg (mp_net p') = vn_cfg (mp_net p)"
    "\<And>ref v. mp_vms p' ref = Some v \<Longrightarrow> v_cmd v \<or> mp_vms p ref = Some v"
  shows "mv_good (p', e')"
  using assms by (auto simp: mv_good_def)

lemma mv_kill_good: "mv_good (p, e) \<Longrightarrow> mv_kill ref p = (r, p') \<Longrightarrow> mv_good (p', e') \<and> r = Some (Inr ()) \<and> mp_net p' = mp_net p"
  by (auto simp: mv_kill_def mv_good_def split: option.splits if_splits)

lemma mv_Provision_good:
  assumes "mv_good (p, e)" "mv_Provision pack o' r p = (res, p')"
  shows "mv_good (p', e')" "case res of Inl _ \<Rightarrow> True | Inr i \<Rightarrow> mv_state (p', e') (inst_Ref i) \<noteq> InstanceGone"
proof -
  from assms(1) have "subnet_ok (nc_Subnet24 (vn_cfg (mp_net p)))" by (simp add: mv_good_def)
  note c = mv_Provision_cases [OF this assms(2)]
  show "mv_good (p', e')" by (rule mv_goodI [OF assms(1)]) (use c in \<open>auto split: sum.splits if_splits\<close>)
  show "case res of Inl _ \<Rightarrow> True | Inr i \<Rightarrow> mv_state (p', e') (inst_Ref i) \<noteq> InstanceGone"
    using c by (auto simp: mv_state_def split: sum.splits)
qed

lemma mv_Destroy_good:
  assumes "mv_good (p, e)" "mv_Destroy rm ref p = (res, p')"
  shows "mv_good (p', e')" "mv_state (p', e') ref = InstanceGone"
proof -
  obtain rk p1 where k: "mv_kill ref p = (rk, p1)" by fastforce
  with mv_kill_good [OF assms(1), of ref rk p1 e] have g: "mv_good (p1, e)" "rk = Some (Inr ())" by auto
  from k g assms(2) show "mv_state (p', e') ref = InstanceGone"
    by (auto simp: mv_Destroy_def mv_state_def Let_def split: option.splits sum.splits)
  from k g assms(2) show "mv_good (p', e')"
    by (auto simp: mv_Destroy_def mv_good_def freeIP_def Let_def split: option.splits sum.splits if_splits)
qed

lemma mv_suspender_good:
  assumes "mv_good (p, e)"
  shows "mv_Suspend pause snap pers ref p = (res, p') \<Longrightarrow> mv_good (p', e')"
    "mv_Resume o' ref p = (res', p') \<Longrightarrow> mv_good (p', e')"
  using assms by (auto simp: mv_Suspend_def mv_Resume_def mv_good_def Let_def split: option.splits sum.splits if_splits prod.splits)

interpretation microvm: compute_contract "microvm_compute pack E" mv_state mv_good
  for pack and E :: "'e mv_env"
proof
  fix w w' :: "mv_provider \<times> 'e" and r ri i ref ru s
  obtain p e where w: "w = (p, e)" by fastforce
  assume g: "mv_good w"
  then have g': "mv_good (p, e)" by (simp add: w)
  show "mv_good w'" if "c_Provision (microvm_compute pack E) r w = (ri, w')"
    using that mv_Provision_good(1) [OF g'] by (auto simp: w microvm_compute_def Let_def split: prod.splits)
  show "mv_state w' (inst_Ref i) \<noteq> InstanceGone" if "c_Provision (microvm_compute pack E) r w = (Inr i, w')"
    using that by (auto simp: w microvm_compute_def Let_def split: prod.splits dest: mv_Provision_good(2) [OF g'])
  show "mv_good w' \<and> mv_state w' = mv_state w" if "c_Status (microvm_compute pack E) ref w = (ri, w')"
    using that g by (auto simp: w microvm_compute_def)
  show "inst_Ref i = ref \<and> inst_Phase i = mv_state w ref" if "c_Status (microvm_compute pack E) ref w = (Inr i, w')"
    using that by (auto simp: w microvm_compute_def mv_Status_def mv_state_def split: option.splits if_splits)
  show "mv_good w'" if "c_Stop (microvm_compute pack E) ref w = (ru, w')"
    using that mv_kill_good [OF g', of ref _ _ e] by (auto simp: w microvm_compute_def mv_Stop_def Let_def split: prod.splits)
  show "mv_good w'" if "c_Destroy (microvm_compute pack E) ref w = (ru, w')"
    using that mv_Destroy_good(1) [OF g'] by (auto simp: w microvm_compute_def Let_def split: prod.splits)
  show "mv_state w' ref = InstanceGone" if "c_Destroy (microvm_compute pack E) ref w = (Inr (), w')"
    using that mv_Destroy_good(2) [OF g'] by (auto simp: w microvm_compute_def Let_def split: prod.splits)
next
  fix w w' :: "mv_provider \<times> 'e" and ref ru s
  obtain p e where w: "w = (p, e)" by fastforce
  assume s: "c_Suspender (microvm_compute pack E) = Some s" and g: "mv_good w"
  then have g': "mv_good (p, e)" by (simp add: w)
  show "mv_good w'" if "c_Suspend s ref w = (ru, w')"
    using that s mv_suspender_good(1) [OF g'] by (auto simp: w microvm_compute_def Let_def split: prod.splits)
  show "mv_good w'" if "c_Resume s ref w = (ru, w')"
    using that s mv_suspender_good(2) [OF g'] by (auto simp: w microvm_compute_def Let_def split: prod.splits)
qed

section \<open>Properties\<close>


definition demo_vm :: vm where
  "demo_vm = \<lparr> v_cmd = True, v_dir = ''/run/vm-b1'', v_image = ''alpine'', v_ip = ''10.0.0.2'', v_tap = ''hbtap2'',
     v_sock = ''/run/vm-b1/fc.sock'', v_suspended = False, v_done = False \<rparr>"

definition demo_vms :: "(string \<rightharpoonup> vm) \<Rightarrow> mv_provider \<times> unit" where
  "demo_vms m = (demo_mv\<lparr>mp_vms := m\<rparr>, ())"

definition demo_env :: "unit mv_env" where
  "demo_env = \<lparr> me_provision = (\<lambda>e. (demo_outcomes (Inr ()), e)), me_remove = (\<lambda>e. (Inr (), e)),
     me_suspend = (\<lambda>e. ((Inr (), Inr (), Inr ()), e)),
     me_resume = (\<lambda>e. (\<lparr> ro_tap = \<lparr> to_add = Inr (), to_master = Inr (), to_up = Inr () \<rparr>, ro_log = Inr (), ro_start = Inr (),
        ro_socket = Inr (), ro_load = Inr (), ro_persist = Inr () \<rparr>, e)) \<rparr>"

abbreviation "demo_microvm \<equiv> microvm_compute (\<lambda>_. Inr []) demo_env"

lemma demo_vms_good: "(\<And>r v. m r = Some v \<Longrightarrow> v_cmd v) \<Longrightarrow> mv_good (demo_vms m)"
  by (simp add: mv_good_def demo_vms_def demo_mv_def DefaultNet_def demo_subnet)




end
