(* ===== verification/Docker.thy ===== *)
theory Docker
  imports Compute_Contract
begin

text \<open>
  The docker compute provider (\<^verbatim>\<open>providers/compute/docker/docker.go\<close>) and its egress fence
  (\<^verbatim>\<open>firewall.go\<close>). The docker client is a record of functions over the engine's world \<open>'d\<close>; what the
  provider relies on of it is stated as hypotheses on what the engine finds under a reference.
\<close>

section \<open>The client\<close>

datatype mount_type = TypeBind | TypeVolume

record docker_mount =
  dm_Type :: mount_type
  dm_Source :: string
  dm_Target :: string
  dm_ReadOnly :: bool

record container_config =
  cc_Image :: string
  cc_Env :: "string list"
  cc_Entrypoint :: "string list"
  cc_Labels :: "(string \<times> string) list"

record host_config =
  hf_Mounts :: "docker_mount list"
  hf_ExtraHosts :: "string list"
  hf_Memory :: int
  hf_NanoCPUs :: int
  hf_NetworkMode :: string

record network_options =
  no_Driver :: string
  no_Subnet :: string
  no_Options :: "(string \<times> string) list"
  no_Labels :: "(string \<times> string) list"

text \<open>The networks of a container by name (a nil entry is None) and its address on the default bridge.\<close>

record network_settings =
  ns_Networks :: "string \<Rightarrow> string option"
  ns_IPAddress :: string

record inspect_response =
  in_NetworkSettings :: "network_settings option"
  in_Running :: bool
  in_Status :: string
  in_ExitCode :: int

record 'd docker_cli =
  dk_NetworkInspect :: "string \<Rightarrow> 'd \<Rightarrow> unit result \<times> 'd"
  dk_NetworkCreate :: "string \<Rightarrow> network_options \<Rightarrow> 'd \<Rightarrow> unit result \<times> 'd"
  dk_ContainerRemove :: "string \<Rightarrow> 'd \<Rightarrow> unit result \<times> 'd"
  dk_ContainerCreate :: "container_config \<Rightarrow> host_config \<Rightarrow> string \<Rightarrow> string \<Rightarrow> 'd \<Rightarrow> string result \<times> 'd"
  dk_ContainerStart :: "string \<Rightarrow> 'd \<Rightarrow> unit result \<times> 'd"
  dk_ContainerStop :: "string \<Rightarrow> 'd \<Rightarrow> unit result \<times> 'd"
  dk_ContainerWait :: "string \<Rightarrow> 'd \<Rightarrow> unit result \<times> 'd"
  dk_ContainerInspect :: "string \<Rightarrow> 'd \<Rightarrow> inspect_response result \<times> 'd"
  dk_ImageInspect :: "string \<Rightarrow> 'd \<Rightarrow> unit result \<times> 'd"
  dk_ImagePull :: "string \<Rightarrow> string \<Rightarrow> 'd \<Rightarrow> unit result \<times> 'd"
  dk_VolumeCreate :: "'d \<Rightarrow> string result \<times> 'd"
  dk_NotFound :: "err \<Rightarrow> bool"
  dk_fw :: "(fw_call \<Rightarrow> 'd \<Rightarrow> unit result \<times> 'd) option"

section \<open>The provider\<close>

record docker_provider =
  dp_arch :: string
  dp_network :: string
  dp_agentPort :: string
  dp_metaPort :: string

definition platformString :: "docker_provider \<Rightarrow> string" where
  "platformString p = ''linux/'' @ dp_arch p"

definition labelWorkspace :: string where "labelWorkspace = ''hopbox.workspace_id''"
definition agentTarget :: string where "agentTarget = ''/hopbox/hopbox-agent''"
definition workspaceSubnet :: string where "workspaceSubnet = ''172.31.0.0/24''"

definition WithNetwork :: "string \<Rightarrow> docker_provider \<Rightarrow> docker_provider" where
  "WithNetwork name p = p\<lparr>dp_network := name\<rparr>"

definition WithMetaPort :: "string \<Rightarrow> docker_provider \<Rightarrow> docker_provider" where
  "WithMetaPort port p = p\<lparr>dp_metaPort := port\<rparr>"

definition docker_New :: "unit result \<Rightarrow> string \<Rightarrow> string \<Rightarrow> (docker_provider \<Rightarrow> docker_provider) list \<Rightarrow> docker_provider result" where
  "docker_New newClient arch advertise opts =
     (case newClient of
        Inl e \<Rightarrow> Inl (Wrapf ''docker: new client: '' e)
      | Inr _ \<Rightarrow>
          (let port = (case SplitHostPort advertise of Some (_, q) \<Rightarrow> if q \<noteq> [] then q else ''7777'' | None \<Rightarrow> ''7777'')
           in Inr (foldl (\<lambda>p o'. o' p) \<lparr> dp_arch = arch, dp_network = [], dp_agentPort = port, dp_metaPort = [] \<rparr> opts)))"

section \<open>The fence\<close>

definition fenceInChain :: string where "fenceInChain = ''HOPBOX-WS-IN''"
definition fenceFwdChain :: string where "fenceFwdChain = ''HOPBOX-WS-FWD''"

definition fenceRules :: "string list \<Rightarrow> string list list \<times> string list list" where
  "fenceRules allowHostPorts =
     ([[''-m'', ''conntrack'', ''--ctstate'', ''ESTABLISHED,RELATED'', ''-j'', ''RETURN'']] @
      map (\<lambda>p. [''-p'', ''tcp'', ''--dport'', p, ''-j'', ''RETURN'']) allowHostPorts @ [[''-j'', ''DROP'']],
      [[''-m'', ''conntrack'', ''--ctstate'', ''ESTABLISHED,RELATED'', ''-j'', ''RETURN''],
       [''-d'', ''169.254.0.0/16'', ''-j'', ''DROP''], [''-d'', ''10.0.0.0/8'', ''-j'', ''DROP''],
       [''-d'', ''172.16.0.0/12'', ''-j'', ''DROP''], [''-d'', ''192.168.0.0/16'', ''-j'', ''DROP''],
       [''-d'', ''100.64.0.0/10'', ''-j'', ''DROP''], [''-j'', ''RETURN'']])"

fun fw_calls :: "(fw_call \<Rightarrow> 'd \<Rightarrow> unit result \<times> 'd) \<Rightarrow> fw_call list \<Rightarrow> 'd \<Rightarrow> 'd" where
  "fw_calls run [] d = d"
| "fw_calls run (x # xs) d = (case run x d of (Inl _, d') \<Rightarrow> d' | (Inr _, d') \<Rightarrow> fw_calls run xs d')"

definition applyFence :: "(fw_call \<Rightarrow> 'd \<Rightarrow> unit result \<times> 'd) \<Rightarrow> string \<Rightarrow> string \<Rightarrow> string \<Rightarrow> string list list \<Rightarrow> 'd \<Rightarrow> 'd" where
  "applyFence run parent chain subnet rules =
     fw_calls run (ClearChain chain # map (AppendRule chain) rules @ [InsertUnique parent 1 [''-s'', subnet, ''-j'', chain]])"

text \<open>\<^verbatim>\<open>ensureFence\<close>: best effort, a failure ends the chain it belongs to.\<close>

definition docker_ensureFence :: "'d docker_cli \<Rightarrow> string \<Rightarrow> string list \<Rightarrow> 'd \<Rightarrow> 'd" where
  "docker_ensureFence cli subnet allowHostPorts d =
     (case dk_fw cli of
        None \<Rightarrow> d
      | Some run \<Rightarrow>
          (let (rin, rfwd) = fenceRules allowHostPorts
           in applyFence run ''DOCKER-USER'' fenceFwdChain subnet rfwd (applyFence run ''INPUT'' fenceInChain subnet rin d)))"

section \<open>Operations\<close>

definition errdefsConflict :: "err \<Rightarrow> bool" where
  "errdefsConflict e = Contains (err_text e) ''already exists''"

definition ensureNetwork :: "'d docker_cli \<Rightarrow> docker_provider \<Rightarrow> 'd \<Rightarrow> unit result \<times> 'd" where
  "ensureNetwork cli p d =
     (let fence = (\<lambda>d. (Inr (), docker_ensureFence cli workspaceSubnet
                     ([dp_agentPort p] @ (if dp_metaPort p \<noteq> [] then [dp_metaPort p] else [])) d))
      in case dk_NetworkInspect cli (dp_network p) d of
           (Inr _, d1) \<Rightarrow> fence d1
         | (Inl e, d1) \<Rightarrow>
             if dk_NotFound cli e then
               (case dk_NetworkCreate cli (dp_network p)
                   \<lparr> no_Driver = ''bridge'', no_Subnet = workspaceSubnet,
                     no_Options = [(''com.docker.network.bridge.enable_icc'', ''false'')],
                     no_Labels = [(labelWorkspace, ''network'')] \<rparr> d1 of
                  (Inl ce, d2) \<Rightarrow> if errdefsConflict ce then fence d2
                     else (Inl (Wrapf (''docker: create network '' @ quoted (dp_network p) @ '': '') ce), d2)
                | (Inr _, d2) \<Rightarrow> fence d2)
             else (Inl (Wrapf (''docker: inspect network '' @ quoted (dp_network p) @ '': '') e), d1))"

definition containerIP :: "inspect_response \<Rightarrow> string \<Rightarrow> string" where
  "containerIP info network =
     (case in_NetworkSettings info of
        None \<Rightarrow> []
      | Some ns \<Rightarrow>
          if network \<noteq> [] then (case ns_Networks ns network of Some ip \<Rightarrow> ip | None \<Rightarrow> ns_IPAddress ns)
          else ns_IPAddress ns)"

definition ensureImage :: "'d docker_cli \<Rightarrow> docker_provider \<Rightarrow> string \<Rightarrow> 'd \<Rightarrow> unit result \<times> 'd" where
  "ensureImage cli p ref d =
     (case dk_ImageInspect cli ref d of
        (Inr _, d1) \<Rightarrow> (Inr (), d1)
      | (Inl e, d1) \<Rightarrow>
          if \<not> dk_NotFound cli e then (Inl (Wrapf (''docker: inspect image '' @ quoted ref @ '': '') e), d1)
          else (case dk_ImagePull cli ref (platformString p) d1 of
                  (Inl e', d2) \<Rightarrow> (Inl (Wrapf (''docker: pull image '' @ quoted ref @ '': '') e'), d2)
                | (Inr _, d2) \<Rightarrow> (Inr (), d2)))"

text \<open>\<^verbatim>\<open>target[:strings.LastIndex(target, "/")+1]\<close>\<close>

definition target_dir :: "string \<Rightarrow> string" where
  "target_dir target = (case LastIndex (CHR ''/'') target of None \<Rightarrow> [] | Some i \<Rightarrow> take (i + 1) target)"

definition stageAgent :: "'d docker_cli \<Rightarrow> docker_provider \<Rightarrow> agent_image \<Rightarrow> string \<Rightarrow> 'd \<Rightarrow> docker_mount result \<times> 'd" where
  "stageAgent cli p a target d =
     (if ai_HostBinaryPath a \<noteq> []
      then (Inr \<lparr> dm_Type = TypeBind, dm_Source = ai_HostBinaryPath a, dm_Target = target, dm_ReadOnly = True \<rparr>, d)
      else if ai_ImageRef a = [] \<or> ai_BinaryPath a = []
      then (Inl (Errorf ''docker: Agent needs HostBinaryPath or (ImageRef+BinaryPath)''), d)
      else case dk_ImagePull cli (ai_ImageRef a) (platformString p) d of
             (Inl e, d1) \<Rightarrow> (Inl (Wrapf (''docker: pull agent image '' @ quoted (ai_ImageRef a) @ '': '') e), d1)
           | (Inr _, d1) \<Rightarrow>
         (case dk_VolumeCreate cli d1 of
             (Inl e, d2) \<Rightarrow> (Inl (Wrapf ''docker: create agent volume: '' e), d2)
           | (Inr vol, d2) \<Rightarrow>
         (case dk_ContainerCreate cli
               \<lparr> cc_Image = ai_ImageRef a, cc_Env = [], cc_Entrypoint = [''cp'', ai_BinaryPath a, target], cc_Labels = [] \<rparr>
               \<lparr> hf_Mounts = [\<lparr> dm_Type = TypeVolume, dm_Source = vol, dm_Target = target_dir target, dm_ReadOnly = False \<rparr>],
                 hf_ExtraHosts = [], hf_Memory = 0, hf_NanoCPUs = 0, hf_NetworkMode = [] \<rparr> (platformString p) [] d2 of
             (Inl e, d3) \<Rightarrow> (Inl (Wrapf ''docker: create agent seeder: '' e), d3)
           | (Inr seed, d3) \<Rightarrow>
         (case dk_ContainerStart cli seed d3 of
             (Inl e, d4) \<Rightarrow> (Inl (Wrapf ''docker: start agent seeder: '' e), d4)
           | (Inr _, d4) \<Rightarrow>
         (case dk_ContainerWait cli seed d4 of
             (Inl e, d5) \<Rightarrow> (Inl (Wrapf ''docker: wait agent seeder: '' e), d5)
           | (Inr _, d5) \<Rightarrow>
               (Inr \<lparr> dm_Type = TypeVolume, dm_Source = vol, dm_Target = target_dir target, dm_ReadOnly = True \<rparr>,
                snd (dk_ContainerRemove cli seed d5)))))))"

text \<open>Products of \<^verbatim>\<open>int64\<close> values wrap.\<close>

definition int64 :: "int \<Rightarrow> int" where
  "int64 x = sint (word_of_int x :: 64 word)"

text \<open>\<open>iter\<close> is the order in which the environment map is ranged over.\<close>

definition box_config :: "(env \<Rightarrow> env) \<Rightarrow> provision_request \<Rightarrow> string \<Rightarrow> container_config" where
  "box_config iter r target =
     \<lparr> cc_Image = pr_ImageRef r, cc_Env = map (\<lambda>(k, v). k @ ''='' @ v) (iter (pr_Env r)), cc_Entrypoint = [target],
       cc_Labels = [(labelWorkspace, pr_WorkspaceID r)] \<rparr>"

definition box_mounts :: "docker_mount \<Rightarrow> provision_request \<Rightarrow> docker_mount list" where
  "box_mounts agentMount r =
     [agentMount] @
     (if pr_GuestBin r \<noteq> []
      then [\<lparr> dm_Type = TypeBind, dm_Source = pr_GuestBin r, dm_Target = ''/usr/local/bin/box-guest'', dm_ReadOnly = True \<rparr>]
      else []) @
     map (\<lambda>m. \<lparr> dm_Type = TypeBind, dm_Source = mt_Source m, dm_Target = mt_Target m, dm_ReadOnly = mt_ReadOnly m \<rparr>) (pr_Mounts r)"

definition box_host :: "docker_provider \<Rightarrow> provision_request \<Rightarrow> docker_mount \<Rightarrow> host_config" where
  "box_host p r agentMount =
     \<lparr> hf_Mounts = box_mounts agentMount r, hf_ExtraHosts = [''host.docker.internal:host-gateway''],
       hf_Memory = (if pr_MemMB r > 0 then int64 (pr_MemMB r * 1024 * 1024) else 0),
       hf_NanoCPUs = (if pr_CPUMillis r > 0 then int64 (pr_CPUMillis r * 1000000) else 0),
       hf_NetworkMode = dp_network p \<rparr>"

definition docker_Provision :: "'d docker_cli \<Rightarrow> (env \<Rightarrow> env) \<Rightarrow> docker_provider \<Rightarrow> provision_request \<Rightarrow> 'd \<Rightarrow> compute_instance result \<times> 'd" where
  "docker_Provision cli iter p r d =
     (let target = (if ai_TargetPath (pr_Agent r) = [] then agentTarget else ai_TargetPath (pr_Agent r));
          name = ''hopbox-'' @ pr_WorkspaceID r
      in case stageAgent cli p (pr_Agent r) target d of
           (Inl e, d1) \<Rightarrow> (Inl e, d1)
         | (Inr agentMount, d1) \<Rightarrow>
       (case (if dp_network p \<noteq> [] then ensureNetwork cli p d1 else (Inr (), d1)) of
           (Inl e, d2) \<Rightarrow> (Inl e, d2)
         | (Inr _, d2) \<Rightarrow>
       (let (rr, d3) = dk_ContainerRemove cli name d2 in
        if (case rr of Inl e \<Rightarrow> \<not> dk_NotFound cli e | Inr _ \<Rightarrow> False)
        then (Inl (Wrapf (''docker: remove stale container '' @ quoted name @ '': '') (projl rr)), d3)
        else case ensureImage cli p (pr_ImageRef r) d3 of
           (Inl e, d4) \<Rightarrow> (Inl e, d4)
         | (Inr _, d4) \<Rightarrow>
       (case dk_ContainerCreate cli (box_config iter r target) (box_host p r agentMount) (platformString p) name d4 of
           (Inl e, d5) \<Rightarrow> (Inl (Wrapf ''docker: create: '' e), d5)
         | (Inr i, d5) \<Rightarrow>
       (case dk_ContainerStart cli i d5 of
           (Inl e, d6) \<Rightarrow> (Inl (Wrapf ''docker: start: '' e), d6)
         | (Inr _, d6) \<Rightarrow>
             (let (ri, d7) = dk_ContainerInspect cli i d6
              in (Inr \<lparr> inst_Ref = i, inst_Phase = InstanceRunning,
                       inst_IP = (case ri of Inr info \<Rightarrow> containerIP info (dp_network p) | Inl _ \<Rightarrow> []) \<rparr>, d7)))))))"

text \<open>\<^verbatim>\<open>strings.EqualFold\<close> on a status word of the engine, which are ASCII.\<close>

definition to_lower :: "char \<Rightarrow> char" where
  "to_lower c = (if CHR ''A'' \<le> c \<and> c \<le> CHR ''Z'' then char_of (of_char c + 32 :: nat) else c)"

definition EqualFold :: "string \<Rightarrow> string \<Rightarrow> bool" where
  "EqualFold a b = (map to_lower a = map to_lower b)"

definition info_phase :: "inspect_response \<Rightarrow> instance_phase" where
  "info_phase info = (if in_Running info then InstanceRunning
     else if EqualFold (in_Status info) ''exited'' \<and> in_ExitCode info \<noteq> 0 then InstanceFailed
     else InstanceStopped)"

definition docker_Status :: "'d docker_cli \<Rightarrow> string \<Rightarrow> 'd \<Rightarrow> compute_instance result \<times> 'd" where
  "docker_Status cli ref d =
     (case dk_ContainerInspect cli ref d of
        (Inl e, d1) \<Rightarrow>
          if dk_NotFound cli e then (Inr \<lparr> inst_Ref = ref, inst_Phase = InstanceGone, inst_IP = [] \<rparr>, d1)
          else (Inl (Wrapf ''docker: inspect: '' e), d1)
      | (Inr info, d1) \<Rightarrow> (Inr \<lparr> inst_Ref = ref, inst_Phase = info_phase info, inst_IP = [] \<rparr>, d1))"

definition docker_Stop :: "'d docker_cli \<Rightarrow> string \<Rightarrow> 'd \<Rightarrow> unit result \<times> 'd" where
  "docker_Stop cli ref d =
     (case dk_ContainerStop cli ref d of
        (Inl e, d1) \<Rightarrow> (Inl (Wrapf ''docker: stop: '' e), d1)
      | (Inr _, d1) \<Rightarrow> (Inr (), d1))"

definition docker_Destroy :: "'d docker_cli \<Rightarrow> string \<Rightarrow> 'd \<Rightarrow> unit result \<times> 'd" where
  "docker_Destroy cli ref d =
     (case dk_ContainerRemove cli ref d of
        (Inl e, d1) \<Rightarrow> if dk_NotFound cli e then (Inr (), d1) else (Inl (Wrapf ''docker: remove: '' e), d1)
      | (Inr _, d1) \<Rightarrow> (Inr (), d1))"

definition docker_compute :: "'d docker_cli \<Rightarrow> (env \<Rightarrow> env) \<Rightarrow> docker_provider \<Rightarrow> 'd compute_ops" where
  "docker_compute cli iter p =
     \<lparr> c_Provision = docker_Provision cli iter p, c_Status = docker_Status cli, c_Stop = docker_Stop cli,
       c_Destroy = docker_Destroy cli, c_Suspender = None \<rparr>"

section \<open>The engine\<close>

text \<open>What the provider relies on of the engine, in terms of the container it finds under a reference (an
  identifier or a name): a call on a reference touches that container only, a removal that succeeds or
  finds nothing leaves nothing under the reference, a container that was created is found under its
  new identifier and its name with the given configuration, and the other calls leave the containers
  alone.\<close>

record container =
  ct_ID :: string
  ct_Name :: string
  ct_Config :: container_config
  ct_Host :: host_config
  ct_Running :: bool
  ct_Status :: string
  ct_ExitCode :: int

definition same_spec :: "container \<Rightarrow> container \<Rightarrow> bool" where
  "same_spec c c' \<longleftrightarrow> ct_ID c' = ct_ID c \<and> ct_Name c' = ct_Name c \<and> ct_Config c' = ct_Config c \<and> ct_Host c' = ct_Host c"

definition describes :: "inspect_response \<Rightarrow> container \<Rightarrow> bool" where
  "describes info c \<longleftrightarrow> in_Running info = ct_Running c \<and> in_Status info = ct_Status c \<and> in_ExitCode info = ct_ExitCode c"

definition keeps :: "('d \<Rightarrow> string \<Rightarrow> container option) \<Rightarrow> (container \<Rightarrow> bool) \<Rightarrow> 'd \<Rightarrow> 'd \<Rightarrow> bool" where
  "keeps found P d d' \<longleftrightarrow> (\<forall>y c. found d y = Some c \<and> P c \<longrightarrow> found d' y = Some c)"

definition only_on :: "('d \<Rightarrow> string \<Rightarrow> container option) \<Rightarrow> string \<Rightarrow> 'd \<Rightarrow> 'd \<Rightarrow> bool" where
  "only_on found x d d' \<longleftrightarrow> keeps found (\<lambda>c. \<forall>cx. found d x = Some cx \<longrightarrow> ct_ID cx \<noteq> ct_ID c) d d' \<and>
     (\<forall>y c'. found d' y = Some c' \<longrightarrow> (\<exists>c. found d y = Some c \<and> same_spec c c'))"

definition docker_engine :: "'d docker_cli \<Rightarrow> ('d \<Rightarrow> string \<Rightarrow> container option) \<Rightarrow> bool" where
  "docker_engine cli found \<longleftrightarrow>
     (\<forall>d x c. found d x = Some c \<longrightarrow> (x = ct_ID c \<or> x = ct_Name c) \<and> found d (ct_ID c) = Some c \<and>
        found d (ct_Name c) = Some c \<and> \<not> HasPrefix (ct_ID c) ''hopbox-'') \<and>
     (\<forall>x d r d'. dk_ContainerRemove cli x d = (r, d') \<longrightarrow> only_on found x d d' \<and>
        ((case r of Inr _ \<Rightarrow> True | Inl e \<Rightarrow> dk_NotFound cli e) \<longrightarrow> found d' x = None)) \<and>
     (\<forall>cfg host pf name d r d'. dk_ContainerCreate cli cfg host pf name d = (r, d') \<longrightarrow> keeps found (\<lambda>_. True) d d' \<and>
        (\<forall>i. r = Inr i \<longrightarrow> found d i = None \<and> (\<exists>c. found d' i = Some c \<and> ct_ID c = i \<and> ct_Config c = cfg \<and> ct_Host c = host \<and>
           (name \<noteq> [] \<longrightarrow> ct_Name c = name)))) \<and>
     (\<forall>x d r d'. dk_ContainerStart cli x d = (r, d') \<longrightarrow> only_on found x d d' \<and>
        (is_ok r \<longrightarrow> (\<exists>c c'. found d x = Some c \<and> found d' x = Some c' \<and> same_spec c c'))) \<and>
     (\<forall>x d r d'. dk_ContainerStop cli x d = (r, d') \<longrightarrow> only_on found x d d') \<and>
     (\<forall>x d r d'. dk_ContainerWait cli x d = (r, d') \<longrightarrow> only_on found x d d') \<and>
     (\<forall>x d r d'. dk_ContainerInspect cli x d = (r, d') \<longrightarrow> found d' = found d \<and>
        (case r of Inr info \<Rightarrow> \<exists>c. found d x = Some c \<and> describes info c | Inl e \<Rightarrow> dk_NotFound cli e \<longrightarrow> found d x = None)) \<and>
     (\<forall>n d r d'. dk_NetworkInspect cli n d = (r, d') \<longrightarrow> found d' = found d) \<and>
     (\<forall>n o' d r d'. dk_NetworkCreate cli n o' d = (r, d') \<longrightarrow> found d' = found d) \<and>
     (\<forall>n d r d'. dk_ImageInspect cli n d = (r, d') \<longrightarrow> found d' = found d) \<and>
     (\<forall>n pf d r d'. dk_ImagePull cli n pf d = (r, d') \<longrightarrow> found d' = found d) \<and>
     (\<forall>d r d'. dk_VolumeCreate cli d = (r, d') \<longrightarrow> found d' = found d) \<and>
     (\<forall>run x d. dk_fw cli = Some run \<longrightarrow> found (snd (run x d)) = found d)"

lemma engineD:
  assumes "docker_engine cli found"
  shows found_ref: "found d x = Some c \<Longrightarrow> (x = ct_ID c \<or> x = ct_Name c) \<and> found d (ct_ID c) = Some c \<and> found d (ct_Name c) = Some c \<and>
      \<not> HasPrefix (ct_ID c) ''hopbox-''"
    and engine_remove: "dk_ContainerRemove cli x d = (r, d') \<Longrightarrow> only_on found x d d' \<and>
      ((case r of Inr _ \<Rightarrow> True | Inl e \<Rightarrow> dk_NotFound cli e) \<longrightarrow> found d' x = None)"
    and engine_create: "dk_ContainerCreate cli cfg host pf name d = (ri, d') \<Longrightarrow> keeps found (\<lambda>_. True) d d' \<and>
      (\<forall>i. ri = Inr i \<longrightarrow> found d i = None \<and> (\<exists>c. found d' i = Some c \<and> ct_ID c = i \<and> ct_Config c = cfg \<and> ct_Host c = host \<and>
         (name \<noteq> [] \<longrightarrow> ct_Name c = name)))"
    and engine_start: "dk_ContainerStart cli x d = (r, d') \<Longrightarrow> only_on found x d d' \<and>
      (is_ok r \<longrightarrow> (\<exists>c c'. found d x = Some c \<and> found d' x = Some c' \<and> same_spec c c'))"
    and engine_wait: "dk_ContainerWait cli x d = (r, d') \<Longrightarrow> only_on found x d d'"
    and engine_inspect: "dk_ContainerInspect cli x d = (ro, d') \<Longrightarrow> found d' = found d \<and>
      (case ro of Inr info \<Rightarrow> \<exists>c. found d x = Some c \<and> describes info c | Inl e \<Rightarrow> dk_NotFound cli e \<longrightarrow> found d x = None)"
    and engine_quiet: "dk_NetworkInspect cli n d = (r, d') \<Longrightarrow> found d' = found d"
      "dk_NetworkCreate cli n o' d = (r, d') \<Longrightarrow> found d' = found d"
      "dk_ImageInspect cli n d = (r, d') \<Longrightarrow> found d' = found d"
      "dk_ImagePull cli n pf d = (r, d') \<Longrightarrow> found d' = found d"
      "dk_VolumeCreate cli d = (rs, d') \<Longrightarrow> found d' = found d"
      "dk_fw cli = Some run \<Longrightarrow> found (snd (run q d)) = found d"
proof -
  note e = assms [unfolded docker_engine_def]
  show "found d x = Some c \<Longrightarrow> (x = ct_ID c \<or> x = ct_Name c) \<and> found d (ct_ID c) = Some c \<and> found d (ct_Name c) = Some c \<and>
      \<not> HasPrefix (ct_ID c) ''hopbox-''"
    using e [THEN conjunct1] by blast
  show "dk_ContainerRemove cli x d = (r, d') \<Longrightarrow> only_on found x d d' \<and>
      ((case r of Inr _ \<Rightarrow> True | Inl e \<Rightarrow> dk_NotFound cli e) \<longrightarrow> found d' x = None)"
    using e [THEN conjunct2, THEN conjunct1] by blast
  show "dk_ContainerCreate cli cfg host pf name d = (ri, d') \<Longrightarrow> keeps found (\<lambda>_. True) d d' \<and>
      (\<forall>i. ri = Inr i \<longrightarrow> found d i = None \<and> (\<exists>c. found d' i = Some c \<and> ct_ID c = i \<and> ct_Config c = cfg \<and> ct_Host c = host \<and>
         (name \<noteq> [] \<longrightarrow> ct_Name c = name)))"
    using e [THEN conjunct2, THEN conjunct2, THEN conjunct1] by blast
  show "dk_ContainerStart cli x d = (r, d') \<Longrightarrow> only_on found x d d' \<and>
      (is_ok r \<longrightarrow> (\<exists>c c'. found d x = Some c \<and> found d' x = Some c' \<and> same_spec c c'))"
    using e [THEN conjunct2, THEN conjunct2, THEN conjunct2, THEN conjunct1] by blast
  show "dk_ContainerWait cli x d = (r, d') \<Longrightarrow> only_on found x d d'"
    using e [THEN conjunct2, THEN conjunct2, THEN conjunct2, THEN conjunct2, THEN conjunct2, THEN conjunct1] by blast
  show "dk_ContainerInspect cli x d = (ro, d') \<Longrightarrow> found d' = found d \<and>
      (case ro of Inr info \<Rightarrow> \<exists>c. found d x = Some c \<and> describes info c | Inl e \<Rightarrow> dk_NotFound cli e \<longrightarrow> found d x = None)"
    using e [THEN conjunct2, THEN conjunct2, THEN conjunct2, THEN conjunct2, THEN conjunct2, THEN conjunct2, THEN conjunct1] by blast
  show "dk_NetworkInspect cli n d = (r, d') \<Longrightarrow> found d' = found d"
    using e [THEN conjunct2, THEN conjunct2, THEN conjunct2, THEN conjunct2, THEN conjunct2, THEN conjunct2, THEN conjunct2, THEN conjunct1] by blast
  show "dk_NetworkCreate cli n o' d = (r, d') \<Longrightarrow> found d' = found d"
    using e [THEN conjunct2, THEN conjunct2, THEN conjunct2, THEN conjunct2, THEN conjunct2, THEN conjunct2, THEN conjunct2, THEN conjunct2, THEN conjunct1] by blast
  show "dk_ImageInspect cli n d = (r, d') \<Longrightarrow> found d' = found d"
    using e [THEN conjunct2, THEN conjunct2, THEN conjunct2, THEN conjunct2, THEN conjunct2, THEN conjunct2, THEN conjunct2, THEN conjunct2, THEN conjunct2, THEN conjunct1] by blast
  show "dk_ImagePull cli n pf d = (r, d') \<Longrightarrow> found d' = found d"
    using e [THEN conjunct2, THEN conjunct2, THEN conjunct2, THEN conjunct2, THEN conjunct2, THEN conjunct2, THEN conjunct2, THEN conjunct2, THEN conjunct2, THEN conjunct2, THEN conjunct1] by blast
  show "dk_VolumeCreate cli d = (rs, d') \<Longrightarrow> found d' = found d"
    using e [THEN conjunct2, THEN conjunct2, THEN conjunct2, THEN conjunct2, THEN conjunct2, THEN conjunct2, THEN conjunct2, THEN conjunct2, THEN conjunct2, THEN conjunct2, THEN conjunct2, THEN conjunct1] by blast
  show "dk_fw cli = Some run \<Longrightarrow> found (snd (run q d)) = found d"
    using e [THEN conjunct2, THEN conjunct2, THEN conjunct2, THEN conjunct2, THEN conjunct2, THEN conjunct2, THEN conjunct2, THEN conjunct2, THEN conjunct2, THEN conjunct2, THEN conjunct2, THEN conjunct2] by blast
qed

lemma keeps_refl: "found d' = found d \<Longrightarrow> keeps found P d d'"
  by (simp add: keeps_def)

lemma keeps_trans: "keeps found P d d1 \<Longrightarrow> keeps found P d1 d2 \<Longrightarrow> keeps found P d d2"
  by (auto simp: keeps_def)

lemma keeps_mono: "keeps found (\<lambda>_. True) d d' \<Longrightarrow> keeps found P d d'"
  by (simp add: keeps_def)

text \<open>A call on a reference that names a container made after \<open>d0\<close> keeps the containers of \<open>d0\<close>, and one on
  the name of a box keeps the containers of other names.\<close>

lemma keeps_new:
  assumes E: "docker_engine cli found" and "keeps found P d0 d" "only_on found x d d'"
    and x: "\<And>cx. found d x = Some cx \<Longrightarrow> found d0 (ct_ID cx) = None"
  shows "keeps found P d0 d'"
  unfolding keeps_def
proof (intro allI impI)
  fix y c assume y: "found d0 y = Some c \<and> P c"
  with assms(2) have "found d y = Some c" by (simp add: keeps_def)
  moreover have "ct_ID cx \<noteq> ct_ID c" if "found d x = Some cx" for cx
    using x [OF that] found_ref [OF E conjunct1 [OF y]] by (metis option.discI)
  ultimately show "found d' y = Some c" using assms(3) by (auto simp: only_on_def keeps_def)
qed

lemma keeps_other_names:
  assumes E: "docker_engine cli found" and "only_on found name d d'" "HasPrefix name ''hopbox-''"
  shows "keeps found (\<lambda>c. ct_Name c \<noteq> name) d d'"
  unfolding keeps_def
proof (intro allI impI)
  fix y c assume y: "found d y = Some c \<and> ct_Name c \<noteq> name"
  have "ct_ID cx \<noteq> ct_ID c" if "found d name = Some cx" for cx
  proof
    assume "ct_ID cx = ct_ID c"
    moreover have n: "found d (ct_ID cx) = Some cx" "ct_Name cx = name" using found_ref [OF E that] assms(3) by blast+
    moreover have "found d (ct_ID c) = Some c" using found_ref [OF E conjunct1 [OF y]] by blast
    ultimately have "cx = c" by (metis option.inject)
    with n(2) y show False by blast
  qed
  with y assms(2) show "found d' y = Some c" by (auto simp: only_on_def keeps_def)
qed

lemma fw_calls_quiet:
  assumes "docker_engine cli found" "dk_fw cli = Some run"
  shows "found (fw_calls run xs d) = found d"
proof (induction xs arbitrary: d)
  case (Cons x xs)
  obtain r d' where x: "run x d = (r, d')" by fastforce
  then have "found d' = found d" using engine_quiet(6) [OF assms, of x d] by simp
  with x Cons.IH [of d'] show ?case by (cases r) simp_all
qed simp

lemma ensureFence_quiet: "docker_engine cli found \<Longrightarrow> found (docker_ensureFence cli sn ps d) = found d"
  by (auto simp: docker_ensureFence_def applyFence_def fw_calls_quiet split: option.splits prod.splits simp del: fw_calls.simps)

lemma ensureNetwork_quiet:
  assumes "docker_engine cli found" "ensureNetwork cli p d = (r, d')"
  shows "found d' = found d"
  using assms(2) by (auto simp: ensureNetwork_def Let_def ensureFence_quiet [OF assms(1)] split: prod.splits sum.splits if_splits
    dest!: engine_quiet(1,2) [OF assms(1)])

lemma ensureImage_quiet:
  assumes "docker_engine cli found" "ensureImage cli p ref d = (r, d')"
  shows "found d' = found d"
  using assms(2) by (auto simp: ensureImage_def split: prod.splits sum.splits if_splits dest!: engine_quiet(3,4) [OF assms(1)])

text \<open>Staging the agent keeps every container that was there: the seeder is a new one.\<close>

lemma stageAgent_keeps:
  assumes E: "docker_engine cli found" and "stageAgent cli p a target d = (r, d')"
  shows "keeps found (\<lambda>_. True) d d'"
proof -
  obtain r1 d1 where 1: "dk_ImagePull cli (ai_ImageRef a) (platformString p) d = (r1, d1)" by fastforce
  obtain r2 d2 where 2: "dk_VolumeCreate cli d1 = (r2, d2)" by fastforce
  obtain r3 d3 where 3: "dk_ContainerCreate cli
      \<lparr> cc_Image = ai_ImageRef a, cc_Env = [], cc_Entrypoint = [''cp'', ai_BinaryPath a, target], cc_Labels = [] \<rparr>
      \<lparr> hf_Mounts = [\<lparr> dm_Type = TypeVolume, dm_Source = projr r2, dm_Target = target_dir target, dm_ReadOnly = False \<rparr>],
        hf_ExtraHosts = [], hf_Memory = 0, hf_NanoCPUs = 0, hf_NetworkMode = [] \<rparr> (platformString p) [] d2 = (r3, d3)" by fastforce
  obtain r4 d4 where 4: "dk_ContainerStart cli (projr r3) d3 = (r4, d4)" by fastforce
  obtain r5 d5 where 5: "dk_ContainerWait cli (projr r3) d4 = (r5, d5)" by fastforce
  obtain r6 d6 where 6: "dk_ContainerRemove cli (projr r3) d5 = (r6, d6)" by fastforce
  have f: "found d2 = found d" using engine_quiet(4) [OF E 1] engine_quiet(5) [OF E 2] by simp
  have k3: "keeps found (\<lambda>_. True) d d3" using engine_create [OF E 3] f by (simp add: keeps_def)
  have k: "keeps found (\<lambda>_. True) d d4 \<and> keeps found (\<lambda>_. True) d d5 \<and> keeps found (\<lambda>_. True) d d6" if "is_ok r3"
  proof -
    let ?new = "\<lambda>v. \<forall>c. found v (projr r3) = Some c \<longrightarrow> ct_ID c = projr r3"
    from that obtain c where n: "found d (projr r3) = None" "?new d3"
      using engine_create [OF E 3] f by (auto simp: is_ok_iff)
    have step: "keeps found (\<lambda>_. True) d v' \<and> ?new v'" if "keeps found (\<lambda>_. True) d v \<and> ?new v" "only_on found (projr r3) v v'" for v v'
    proof
      show "keeps found (\<lambda>_. True) d v'" using that n(1) by (intro keeps_new [OF E _ that(2)]) auto
      show "?new v'" using that unfolding only_on_def same_spec_def by metis
    qed
    have "only_on found (projr r3) d3 d4" "only_on found (projr r3) d4 d5" "only_on found (projr r3) d5 d6"
      using engine_start [OF E 4] engine_wait [OF E 5] engine_remove [OF E 6] by blast+
    then show ?thesis using step [of d3 d4] step [of d4 d5] step [of d5 d6] k3 n(2) by blast
  qed
  have "keeps found (\<lambda>_. True) d d" "keeps found (\<lambda>_. True) d d1" "keeps found (\<lambda>_. True) d d2"
    using engine_quiet(4) [OF E 1] f by (simp_all add: keeps_refl)
  then show ?thesis using assms(2) 1 2 3 4 5 6 k k3
    by (auto simp: stageAgent_def split: if_splits sum.splits)
qed

text \<open>\<^verbatim>\<open>Provision\<close>, whatever happens, keeps the containers of other names; when it succeeds, the box's
  container is the one asked for.\<close>

lemma Provision_engine:
  assumes E: "docker_engine cli found" and pr: "docker_Provision cli iter p r d = (res, d')"
  defines "name \<equiv> ''hopbox-'' @ pr_WorkspaceID r"
    and "target \<equiv> if ai_TargetPath (pr_Agent r) = [] then agentTarget else ai_TargetPath (pr_Agent r)"
  shows "keeps found (\<lambda>c. ct_Name c \<noteq> name) d d'"
    "res = Inr i \<Longrightarrow> \<exists>c m. found d' (inst_Ref i) = Some c \<and> found d' name = Some c \<and> ct_ID c = inst_Ref i \<and>
       ct_Config c = box_config iter r target \<and> ct_Host c = box_host p r m \<and>
       fst (stageAgent cli p (pr_Agent r) target d) = Inr m"
proof -
  let ?K = "keeps found (\<lambda>c. ct_Name c \<noteq> name)"
  have np: "HasPrefix name ''hopbox-''" unfolding name_def by (rule HasPrefix_append)
  obtain r1 d1 where 1: "stageAgent cli p (pr_Agent r) target d = (r1, d1)" by fastforce
  obtain r2 d2 where 2: "(if dp_network p \<noteq> [] then ensureNetwork cli p d1 else (Inr (), d1)) = (r2, d2)" by fastforce
  obtain r3 d3 where 3: "dk_ContainerRemove cli name d2 = (r3, d3)" by fastforce
  obtain r4 d4 where 4: "ensureImage cli p (pr_ImageRef r) d3 = (r4, d4)" by fastforce
  obtain r5 d5 where 5: "dk_ContainerCreate cli (box_config iter r target) (box_host p r (projr r1)) (platformString p) name d4 = (r5, d5)"
    by fastforce
  obtain r6 d6 where 6: "dk_ContainerStart cli (projr r5) d5 = (r6, d6)" by fastforce
  obtain r7 d7 where 7: "dk_ContainerInspect cli (projr r5) d6 = (r7, d7)" by fastforce
  have k1: "?K d d1" by (rule keeps_mono [OF stageAgent_keeps [OF E 1]])
  have "found d2 = found d1" using 2 ensureNetwork_quiet [OF E, of p d1 r2 d2] by (auto split: if_splits)
  with k1 have k2: "?K d d2" by (simp add: keeps_def)
  have k3: "?K d d3" by (rule keeps_trans [OF k2 keeps_other_names [OF E _ np]]) (use engine_remove [OF E 3] in blast)
  have f4: "found d4 = found d3" by (rule ensureImage_quiet [OF E 4])
  with k3 have k4: "?K d d4" by (simp add: keeps_def)
  have k5: "?K d d5" by (rule keeps_trans [OF k4 keeps_mono]) (use engine_create [OF E 5] in blast)
  have ok5: "found d4 (projr r5) = None \<and> (\<exists>c. found d5 (projr r5) = Some c \<and> ct_ID c = projr r5 \<and> ct_Name c = name \<and>
      ct_Config c = box_config iter r target \<and> ct_Host c = box_host p r (projr r1))" if "is_ok r5"
    using engine_create [OF E 5] that by (auto simp: is_ok_iff name_def)
  have k6: "?K d d6" if "is_ok r5"
    unfolding keeps_def
  proof (intro allI impI)
    fix y c assume y: "found d y = Some c \<and> ct_Name c \<noteq> name"
    with k5 k4 have f: "found d4 y = Some c" "found d5 y = Some c" by (simp_all add: keeps_def)
    have "found d4 (ct_ID c) = Some c" using found_ref [OF E f(1)] by blast
    with ok5 [OF that] have "ct_ID c \<noteq> projr r5" by (metis option.discI)
    with ok5 [OF that] f(2) engine_start [OF E 6] show "found d6 y = Some c" by (auto simp: only_on_def keeps_def)
  qed
  have f7: "found d7 = found d6" using engine_inspect [OF E 7] by blast
  with k6 have k7: "?K d d7" if "is_ok r5" using that by (simp add: keeps_def)
  note sp = pr [unfolded docker_Provision_def, folded name_def target_def, unfolded Let_def]
  show "?K d d'" using sp 1 2 3 4 5 6 7 k1 k2 k3 k4 k5 k6 k7 by (auto split: if_splits sum.splits)
  show "\<exists>c m. found d' (inst_Ref i) = Some c \<and> found d' name = Some c \<and> ct_ID c = inst_Ref i \<and>
      ct_Config c = box_config iter r target \<and> ct_Host c = box_host p r m \<and> fst (stageAgent cli p (pr_Agent r) target d) = Inr m"
    if "res = Inr i"
  proof -
    from sp 1 2 3 4 5 6 7 that have o: "is_ok r1" "is_ok r5" "is_ok r6" "inst_Ref i = projr r5" "d' = d7"
      by (auto split: if_splits sum.splits)
    from ok5 [OF o(2)] engine_start [OF E 6] o(3) obtain c c' where
      "found d5 (projr r5) = Some c" "ct_ID c = projr r5" "ct_Name c = name" "ct_Config c = box_config iter r target"
      "ct_Host c = box_host p r (projr r1)" "found d6 (projr r5) = Some c'" "same_spec c c'" by auto
    moreover then have "found d6 (ct_Name c') = Some c'" using found_ref [OF E] by blast
    ultimately show ?thesis using 1 o f7 by (intro exI [of _ c'] exI [of _ "projr r1"]) (auto simp: same_spec_def is_ok_iff)
  qed
qed

section \<open>Properties\<close>

definition container_state :: "('d \<Rightarrow> string \<Rightarrow> container option) \<Rightarrow> 'd \<Rightarrow> string \<Rightarrow> instance_phase" where
  "container_state found d x = (case found d x of None \<Rightarrow> InstanceGone
     | Some c \<Rightarrow> if ct_Running c then InstanceRunning
         else if EqualFold (ct_Status c) ''exited'' \<and> ct_ExitCode c \<noteq> 0 then InstanceFailed else InstanceStopped)"

text \<open>Under the documented behaviour of the engine the provider keeps the compute contract.\<close>

lemma docker_contract:
  assumes E: "docker_engine cli found"
  shows "compute_contract (docker_compute cli iter p) (container_state found) (\<lambda>_. True)"
proof
  fix w w' r ref i and ri :: "compute_instance result"
  show "container_state found w' (inst_Ref i) \<noteq> InstanceGone" if "c_Provision (docker_compute cli iter p) r w = (Inr i, w')"
    using Provision_engine(2) [OF E, of iter p r w "Inr i" w' i] that by (auto simp: docker_compute_def container_state_def split: if_splits)
  have st: "found w' = found w" if "docker_Status cli ref w = (ri, w')"
    using that engine_inspect [OF E, of ref w] by (auto simp: docker_Status_def split: prod.splits sum.splits if_splits)
  then show "True \<and> container_state found w' = container_state found w" if "c_Status (docker_compute cli iter p) ref w = (ri, w')"
    using that by (auto simp: docker_compute_def container_state_def)
  show "inst_Ref i = ref \<and> inst_Phase i = container_state found w ref" if "c_Status (docker_compute cli iter p) ref w = (Inr i, w')"
  proof -
    obtain ro d' where o: "dk_ContainerInspect cli ref w = (ro, d')" by fastforce
    from engine_inspect [OF E o] that o show ?thesis
      by (auto simp: docker_compute_def docker_Status_def container_state_def info_phase_def describes_def split: sum.splits if_splits)
  qed
  show "container_state found w' ref = InstanceGone" if "c_Destroy (docker_compute cli iter p) ref w = (Inr (), w')"
  proof -
    obtain ro d' where o: "dk_ContainerRemove cli ref w = (ro, d')" by fastforce
    from engine_remove [OF E o] that o show ?thesis
      by (auto simp: docker_compute_def docker_Destroy_def container_state_def split: sum.splits if_splits)
  qed
qed (simp_all add: docker_compute_def)


text \<open>A small engine with room for one container.\<close>

definition demo_found :: "container option \<Rightarrow> string \<Rightarrow> container option" where
  "demo_found d x = (case d of Some c \<Rightarrow> if ct_ID c = ''0'' \<and> (x = ''0'' \<or> x = ct_Name c) then Some c else None | None \<Rightarrow> None)"

definition demo_docker :: "container option docker_cli" where
  "demo_docker =
     \<lparr> dk_NetworkInspect = (\<lambda>_ d. (Inr (), d)), dk_NetworkCreate = (\<lambda>_ _ d. (Inr (), d)),
       dk_ContainerRemove = (\<lambda>x d. if demo_found d x = None then (Inl ErrNotFound, d) else (Inr (), None)),
       dk_ContainerCreate = (\<lambda>cfg host _ name d. case d of Some _ \<Rightarrow> (Inl (Errorf ''full''), d)
         | None \<Rightarrow> (Inr ''0'', Some \<lparr> ct_ID = ''0'', ct_Name = if name = [] then ''1'' else name, ct_Config = cfg, ct_Host = host,
             ct_Running = False, ct_Status = ''created'', ct_ExitCode = 0 \<rparr>)),
       dk_ContainerStart = (\<lambda>x d. case demo_found d x of None \<Rightarrow> (Inl ErrNotFound, d) | Some c \<Rightarrow> (Inr (), Some (c\<lparr>ct_Running := True\<rparr>))),
       dk_ContainerStop = (\<lambda>x d. case demo_found d x of None \<Rightarrow> (Inl ErrNotFound, d) | Some c \<Rightarrow> (Inr (), Some (c\<lparr>ct_Running := False\<rparr>))),
       dk_ContainerWait = (\<lambda>_ d. (Inr (), d)),
       dk_ContainerInspect = (\<lambda>x d. (case demo_found d x of None \<Rightarrow> Inl ErrNotFound
         | Some c \<Rightarrow> Inr \<lparr> in_NetworkSettings = None, in_Running = ct_Running c, in_Status = ct_Status c, in_ExitCode = ct_ExitCode c \<rparr>, d)),
       dk_ImageInspect = (\<lambda>_ d. (Inr (), d)), dk_ImagePull = (\<lambda>_ _ d. (Inr (), d)), dk_VolumeCreate = (\<lambda>d. (Inr ''v'', d)),
       dk_NotFound = (\<lambda>e. e = ErrNotFound), dk_fw = None \<rparr>"

lemma demo_found_simps [simp]:
  "demo_found None x = None"
  "demo_found (Some c) x = (if ct_ID c = ''0'' \<and> (x = ''0'' \<or> x = ct_Name c) then Some c else None)"
  by (simp_all add: demo_found_def)

lemma demo_found_ID: "demo_found d x = Some c \<Longrightarrow> d = Some c \<and> ct_ID c = ''0''"
  by (cases d) (auto split: if_splits)

lemma demo_only_on:
  assumes "\<And>c. demo_found d x = Some c \<Longrightarrow> d' = None \<or> (\<exists>c'. d' = Some c' \<and> same_spec c c')" "demo_found d x = None \<Longrightarrow> d' = d"
  shows "only_on demo_found x d d'"
proof (cases "demo_found d x")
  case None
  with assms(2) show ?thesis by (simp add: only_on_def keeps_def same_spec_def)
next
  case (Some c)
  note c = demo_found_ID [OF Some]
  have k: "ct_ID c1 = ct_ID c" if "demo_found d y = Some c1" for y c1 using demo_found_ID [OF that] c by simp
  have "\<exists>c0. demo_found d y = Some c0 \<and> same_spec c0 c'" if "demo_found d' y = Some c'" for y c'
  proof -
    from demo_found_ID [OF that] have d': "d' = Some c'" "ct_ID c' = ''0''" by simp_all
    with assms(1) [OF Some] have s: "same_spec c c'" by simp
    then have n: "ct_Name c' = ct_Name c" by (simp add: same_spec_def)
    from that d' have "y = ''0'' \<or> y = ct_Name c'" by (cases "y = ''0'' \<or> y = ct_Name c'") simp_all
    with n c have "demo_found d y = Some c" by (metis demo_found_simps(2))
    with s show ?thesis by blast
  qed
  moreover have "keeps demo_found (\<lambda>c. \<forall>cx. demo_found d x = Some cx \<longrightarrow> ct_ID cx \<noteq> ct_ID c) d d'"
    unfolding keeps_def using k Some by metis
  ultimately show ?thesis unfolding only_on_def by blast
qed

lemma demo_docker_engine: "docker_engine demo_docker demo_found"
proof -
  have 1: "demo_found d x = Some c \<Longrightarrow> (x = ct_ID c \<or> x = ct_Name c) \<and> demo_found d (ct_ID c) = Some c \<and>
        demo_found d (ct_Name c) = Some c \<and> \<not> HasPrefix (ct_ID c) ''hopbox-''" for d x c
    by (cases d) (auto simp: HasPrefix_def split: if_splits)
  have 2: "only_on demo_found x d d' \<and> ((case r of Inr _ \<Rightarrow> True | Inl e \<Rightarrow> dk_NotFound demo_docker e) \<longrightarrow> demo_found d' x = None)"
    if "dk_ContainerRemove demo_docker x d = (r, d')" for x d r d'
    using that by (auto simp: demo_docker_def split: if_splits intro!: demo_only_on)
  have 3: "keeps demo_found (\<lambda>_. True) d d' \<and> (\<forall>i. r = Inr i \<longrightarrow> demo_found d i = None \<and> (\<exists>c. demo_found d' i = Some c \<and> ct_ID c = i \<and>
        ct_Config c = cfg \<and> ct_Host c = host \<and> (name \<noteq> [] \<longrightarrow> ct_Name c = name)))"
    if "dk_ContainerCreate demo_docker cfg host pf name d = (r, d')" for cfg host pf name d r d'
    using that by (cases d) (auto simp: demo_docker_def keeps_def)
  have 4: "only_on demo_found x d d' \<and> (is_ok r \<longrightarrow> (\<exists>c c'. demo_found d x = Some c \<and> demo_found d' x = Some c' \<and> same_spec c c'))"
    if "dk_ContainerStart demo_docker x d = (r, d')" for x d r d'
    using that by (cases d) (auto simp: demo_docker_def same_spec_def split: if_splits intro!: demo_only_on)
  have 5: "only_on demo_found x d d'" if "dk_ContainerStop demo_docker x d = (r, d')" for x d r d'
    using that by (cases d) (auto simp: demo_docker_def same_spec_def split: if_splits intro!: demo_only_on)
  have 6: "only_on demo_found x d d'" if "dk_ContainerWait demo_docker x d = (r, d')" for x d r d'
    using that by (cases d) (auto simp: demo_docker_def same_spec_def split: if_splits intro!: demo_only_on)
  have 7: "demo_found d' = demo_found d \<and>
        (case r of Inr info \<Rightarrow> \<exists>c. demo_found d x = Some c \<and> describes info c | Inl e \<Rightarrow> dk_NotFound demo_docker e \<longrightarrow> demo_found d x = None)"
    if "dk_ContainerInspect demo_docker x d = (r, d')" for x d r d'
    using that by (cases d) (auto simp: demo_docker_def describes_def split: if_splits)
  have 8: "dk_NetworkInspect demo_docker n d = (Inr (), d)" "dk_NetworkCreate demo_docker n o' d = (Inr (), d)" "dk_fw demo_docker = None"
    "dk_ImageInspect demo_docker n d = (Inr (), d)" "dk_ImagePull demo_docker n pf d = (Inr (), d)" "dk_VolumeCreate demo_docker d = (Inr ''v'', d)"
    for n o' pf d by (simp_all add: demo_docker_def)
  show ?thesis unfolding docker_engine_def using 1 2 3 4 5 6 7 8 by (intro conjI allI impI) (blast | simp)+
qed

definition demo_docker_provider :: docker_provider where
  "demo_docker_provider = \<lparr> dp_arch = ''amd64'', dp_network = [], dp_agentPort = ''7777'', dp_metaPort = [] \<rparr>"

definition demo_docker_req :: provision_request where
  "demo_docker_req = \<lparr> pr_WorkspaceID = ''b1'', pr_ImageRef = ''alpine'', pr_MemMB = 512, pr_CPUMillis = 1000, pr_GuestBin = [],
     pr_Mounts = [], pr_Env = [], pr_Agent = \<lparr> ai_ImageRef = [], ai_BinaryPath = [], ai_TargetPath = [], ai_HostBinaryPath = ''/a'' \<rparr> \<rparr>"

lemma demo_docker_provision:
  "\<exists>i d. docker_Provision demo_docker id demo_docker_provider demo_docker_req None = (Inr i, d) \<and> inst_Ref i = ''0''"
  by (simp add: docker_Provision_def demo_docker_req_def demo_docker_provider_def stageAgent_def ensureImage_def demo_docker_def
    demo_found_def Let_def)


text \<open>The docker provider passes the conformance suite on any engine that behaves as documented: a
  provisioned instance is reported, a destroyed one is reported gone, and asking for or destroying a
  reference that the engine answers it does not know is not an error.\<close>

theorem docker_conforms:
  assumes "docker_engine cli found"
  shows "(\<forall>r i w w1 j w2. docker_Provision cli iter p r w = (Inr i, w1) \<and> docker_Status cli (inst_Ref i) w1 = (Inr j, w2) \<longrightarrow>
      inst_Phase j \<noteq> InstanceGone) \<and>
    (\<forall>ref w w1 j w2. docker_Destroy cli ref w = (Inr (), w1) \<and> docker_Status cli ref w1 = (Inr j, w2) \<longrightarrow> inst_Phase j = InstanceGone) \<and>
    (\<forall>ref w e w1. dk_ContainerInspect cli ref w = (Inl e, w1) \<and> dk_NotFound cli e \<longrightarrow>
      docker_Status cli ref w = (Inr \<lparr> inst_Ref = ref, inst_Phase = InstanceGone, inst_IP = [] \<rparr>, w1)) \<and>
    (\<forall>ref w e w1. dk_ContainerRemove cli ref w = (Inl e, w1) \<and> dk_NotFound cli e \<longrightarrow> docker_Destroy cli ref w = (Inr (), w1))"
proof -
  note c = docker_contract [OF assms, of iter p]
  have s: "c_Provision (docker_compute cli iter p) = docker_Provision cli iter p" "c_Status (docker_compute cli iter p) = docker_Status cli"
    "c_Destroy (docker_compute cli iter p) = docker_Destroy cli" by (simp_all add: docker_compute_def)
  show ?thesis
    using compute_contract.destroy_then_status [OF c, unfolded s] compute_contract.provision_there [OF c, unfolded s]
      compute_contract.status_faithful [OF c, unfolded s]
    by (auto simp: docker_Status_def docker_Destroy_def)
qed

theorem docker_conforms_witness:
  "\<exists>i d j d2. docker_Provision demo_docker id demo_docker_provider demo_docker_req None = (Inr i, d) \<and>
     docker_Status demo_docker (inst_Ref i) d = (Inr j, d2) \<and> inst_Phase j \<noteq> InstanceGone"
proof -
  obtain i d where p: "docker_Provision demo_docker id demo_docker_provider demo_docker_req None = (Inr i, d)"
    using demo_docker_provision by blast
  obtain j d2 where s: "docker_Status demo_docker (inst_Ref i) d = (Inr j, d2)"
    by (cases "demo_found d (inst_Ref i)") (auto simp: docker_Status_def demo_docker_def)
  from docker_conforms [OF demo_docker_engine, where iter = id and p = demo_docker_provider] p s
  have "inst_Phase j \<noteq> InstanceGone" by metis
  with p s show ?thesis by blast
qed

end
