(* ===== verification/Kubernetes.thy ===== *)
theory Kubernetes
  imports Compute_Contract Providers
begin

text \<open>
  The kubernetes providers: boxes as bare pods (\<^verbatim>\<open>providers/compute/kubernetes/kubernetes.go\<close>) and homes as
  persistent volume claims (\<^verbatim>\<open>providers/storage/kubernetes/k8spvc.go\<close>). The cluster's API client is not part of
  the program: it is a parameter, with what its documentation says as the predicate \<open>k8s_cluster\<close>.
\<close>

section \<open>The objects the providers write\<close>

datatype volume_source = EmptyDir | PersistentVolumeClaim string

record volume =
  vo_Name :: string
  vo_Source :: volume_source

record volume_mount =
  vx_Name :: string
  vx_MountPath :: string
  vx_ReadOnly :: bool

record pod_container =
  kc_Name :: string
  kc_Image :: string
  kc_Command :: "string list"
  kc_Env :: env
  kc_VolumeMounts :: "volume_mount list"
  kc_MemoryLimit :: "int option"

record pod =
  po_Name :: string
  po_Labels :: "(string \<times> string) list"
  po_RestartPolicy :: string
  po_Volumes :: "volume list"
  po_InitContainers :: "pod_container list"
  po_Containers :: "pod_container list"
  po_Phase :: string

record 'q pvc =
  pv_Name :: string
  pv_Labels :: "(string \<times> string) list"
  pv_AccessModes :: "string list"
  pv_Storage :: 'q
  pv_StorageClassName :: "string option"

record ('k, 'q) k8s_cli =
  pods_Get :: "string \<Rightarrow> string \<Rightarrow> 'k \<Rightarrow> pod result \<times> 'k"
  pods_Create :: "string \<Rightarrow> pod \<Rightarrow> 'k \<Rightarrow> unit result \<times> 'k"
  pods_Delete :: "string \<Rightarrow> string \<Rightarrow> 'k \<Rightarrow> unit result \<times> 'k"
  pvcs_Get :: "string \<Rightarrow> string \<Rightarrow> 'k \<Rightarrow> unit result \<times> 'k"
  pvcs_Create :: "string \<Rightarrow> 'q pvc \<Rightarrow> 'k \<Rightarrow> unit result \<times> 'k"
  pvcs_Delete :: "string \<Rightarrow> string \<Rightarrow> 'k \<Rightarrow> unit result \<times> 'k"
  IsNotFound :: "err \<Rightarrow> bool"
  IsAlreadyExists :: "err \<Rightarrow> bool"

section \<open>Boxes as pods\<close>

definition k8s_labelWorkspace :: string where "k8s_labelWorkspace = ''hopbox.workspace_id''"
definition agentVolume :: string where "agentVolume = ''hopbox-agent''"
definition defaultTarget :: string where "defaultTarget = ''/hopbox/hopbox-agent''"

text \<open>The provider is its namespace.\<close>

definition k8s_New :: "string \<Rightarrow> string" where
  "k8s_New ns = (if ns = [] then ''hopbox-workspaces'' else ns)"

definition podName :: "string \<Rightarrow> string" where
  "podName wsID = ''hopbox-'' @ wsID"

definition k8s_ref :: "string \<Rightarrow> string \<Rightarrow> string" where
  "k8s_ref ns name = ns @ ''/'' @ name"

definition splitRef :: "string \<Rightarrow> string \<times> string" where
  "splitRef ref = (case Cut (CHR ''/'') ref of (a, b, True) \<Rightarrow> (a, b) | (_, _, False) \<Rightarrow> ([], ref))"

text \<open>\<^verbatim>\<open>path.Dir\<close>\<close>

definition path_Dir :: "string \<Rightarrow> string" where
  "path_Dir p = path_Clean (case LastIndex (CHR ''/'') p of None \<Rightarrow> [] | Some i \<Rightarrow> take (i + 1) p)"

definition mount_volume :: "nat \<Rightarrow> string" where
  "mount_volume i = ''hopbox-mount-'' @ show_nat i"

fun mount_volumes :: "nat \<Rightarrow> mount list \<Rightarrow> volume list \<times> volume_mount list" where
  "mount_volumes i [] = ([], [])"
| "mount_volumes i (m # ms) =
     (let (vs, xs) = mount_volumes (i + 1) ms in
      (\<lparr> vo_Name = mount_volume i, vo_Source = PersistentVolumeClaim (mt_Source m) \<rparr> # vs,
       \<lparr> vx_Name = mount_volume i, vx_MountPath = mt_Target m, vx_ReadOnly = mt_ReadOnly m \<rparr> # xs))"

definition workspace_container :: "(env \<Rightarrow> env) \<Rightarrow> provision_request \<Rightarrow> string \<Rightarrow> volume_mount list \<Rightarrow> pod_container" where
  "workspace_container iter r target wsMounts =
     \<lparr> kc_Name = ''workspace'', kc_Image = pr_ImageRef r, kc_Command = [target], kc_Env = iter (pr_Env r), kc_VolumeMounts = wsMounts,
       kc_MemoryLimit = (if pr_MemMB r > 0 then Some (sint (word_of_int (pr_MemMB r * 1024 * 1024) :: 64 word)) else None) \<rparr>"

definition agent_target :: "provision_request \<Rightarrow> string" where
  "agent_target r = (if ai_TargetPath (pr_Agent r) = [] then defaultTarget else ai_TargetPath (pr_Agent r))"

text \<open>The range over the environment map is in no order the code fixes: \<open>iter\<close>.\<close>

definition box_pod :: "(env \<Rightarrow> env) \<Rightarrow> provision_request \<Rightarrow> pod" where
  "box_pod iter r =
     (let target = agent_target r;
          agentDir = path_Dir target;
          (vs, xs) = mount_volumes 0 (pr_Mounts r);
          volumes = \<lparr> vo_Name = agentVolume, vo_Source = EmptyDir \<rparr> # vs;
          wsMounts = \<lparr> vx_Name = agentVolume, vx_MountPath = agentDir, vx_ReadOnly = True \<rparr> # xs
      in \<lparr> po_Name = podName (pr_WorkspaceID r), po_Labels = [(k8s_labelWorkspace, pr_WorkspaceID r)], po_RestartPolicy = ''Never'',
           po_Volumes = volumes,
           po_InitContainers =
             [\<lparr> kc_Name = ''hopbox-agent-init'', kc_Image = ai_ImageRef (pr_Agent r),
                kc_Command = [''cp'', ai_BinaryPath (pr_Agent r), target], kc_Env = [],
                kc_VolumeMounts = [\<lparr> vx_Name = agentVolume, vx_MountPath = agentDir, vx_ReadOnly = False \<rparr>],
                kc_MemoryLimit = None \<rparr>],
           po_Containers = [workspace_container iter r target wsMounts],
           po_Phase = [] \<rparr>)"

definition k8s_Provision :: "('k, 'q) k8s_cli \<Rightarrow> (env \<Rightarrow> env) \<Rightarrow> string \<Rightarrow> provision_request \<Rightarrow> 'k \<Rightarrow> compute_instance result \<times> 'k" where
  "k8s_Provision cli iter ns r k =
     (if ai_ImageRef (pr_Agent r) = [] \<or> ai_BinaryPath (pr_Agent r) = []
      then (Inl (Errorf ''kubernetes: Agent needs ImageRef+BinaryPath (HostBinaryPath is docker-only)''), k)
      else let name = podName (pr_WorkspaceID r);
               (rd, k1) = pods_Delete cli ns name k;
               failed = (case rd of Inl e \<Rightarrow> if IsNotFound cli e then None else Some e | Inr _ \<Rightarrow> None) in
        (case failed of
           Some e \<Rightarrow> (Inl (Wrapf (''kubernetes: remove stale pod '' @ quoted name @ '': '') e), k1)
         | None \<Rightarrow>
             (case pods_Create cli ns (box_pod iter r) k1 of
                (Inl e, k2) \<Rightarrow> (Inl (Wrapf (''kubernetes: create pod '' @ quoted name @ '': '') e), k2)
              | (Inr _, k2) \<Rightarrow> (Inr \<lparr> inst_Ref = k8s_ref ns name, inst_Phase = InstanceRunning, inst_IP = [] \<rparr>, k2))))"

definition pod_phase :: "string \<Rightarrow> instance_phase" where
  "pod_phase ph =
     (if ph = ''Running'' then InstanceRunning
      else if ph = ''Succeeded'' then InstanceGone
      else if ph = ''Failed'' then InstanceFailed
      else InstanceStopped)"

text \<open>The namespace and the name a reference stands for.\<close>

definition ref_pod :: "string \<Rightarrow> string \<Rightarrow> string \<times> string" where
  "ref_pod ns ref = (let (n, name) = splitRef ref in (if n = [] then ns else n, name))"

definition k8s_Status :: "('k, 'q) k8s_cli \<Rightarrow> string \<Rightarrow> string \<Rightarrow> 'k \<Rightarrow> compute_instance result \<times> 'k" where
  "k8s_Status cli ns ref k =
     (let (n, name) = ref_pod ns ref; (r, k1) = pods_Get cli n name k in
      (case r of
         Inl e \<Rightarrow> if IsNotFound cli e then Inr \<lparr> inst_Ref = ref, inst_Phase = InstanceGone, inst_IP = [] \<rparr>
                  else Inl (Wrapf (''kubernetes: get pod '' @ quoted ref @ '': '') e)
       | Inr pod \<Rightarrow> Inr \<lparr> inst_Ref = ref, inst_Phase = pod_phase (po_Phase pod), inst_IP = [] \<rparr>, k1))"

definition k8s_delete :: "('k, 'q) k8s_cli \<Rightarrow> string \<Rightarrow> string \<Rightarrow> 'k \<Rightarrow> unit result \<times> 'k" where
  "k8s_delete cli ns ref k =
     (let (n, name) = ref_pod ns ref; (r, k1) = pods_Delete cli n name k in
      (case r of
         Inl e \<Rightarrow> if IsNotFound cli e then Inr () else Inl (Wrapf (''kubernetes: delete pod '' @ quoted ref @ '': '') e)
       | Inr _ \<Rightarrow> Inr (), k1))"

definition k8s_compute :: "('k, 'q) k8s_cli \<Rightarrow> (env \<Rightarrow> env) \<Rightarrow> string \<Rightarrow> 'k compute_ops" where
  "k8s_compute cli iter ns =
     \<lparr> c_Provision = k8s_Provision cli iter ns, c_Status = k8s_Status cli ns, c_Stop = k8s_delete cli ns,
       c_Destroy = k8s_delete cli ns, c_Suspender = None \<rparr>"

section \<open>Homes as volume claims\<close>

definition k8s_labelTenant :: string where "k8s_labelTenant = ''hopbox.tenant''"

record 'q k8spvc_provider =
  kp_ns :: string
  kp_storageClass :: string
  kp_size :: 'q

definition k8spvc_New :: "(string \<Rightarrow> 'q result) \<Rightarrow> string \<Rightarrow> string \<Rightarrow> string \<Rightarrow> 'q k8spvc_provider result" where
  "k8spvc_New parseQuantity namespace storageClass size' =
     (let sz = if size' = [] then ''1Gi'' else size' in
      case parseQuantity sz of
        Inl e \<Rightarrow> Inl (Wrapf (''k8spvc: bad home size '' @ quoted sz @ '': '') e)
      | Inr q \<Rightarrow> Inr \<lparr> kp_ns = (if namespace = [] then ''hopbox-workspaces'' else namespace), kp_storageClass = storageClass, kp_size = q \<rparr>)"

definition pvcName :: "string \<Rightarrow> string" where
  "pvcName wsID = ''hopbox-home-'' @ wsID"

definition home_pvc :: "'q k8spvc_provider \<Rightarrow> home_request \<Rightarrow> 'q pvc" where
  "home_pvc p r = \<lparr> pv_Name = pvcName (hr_WorkspaceID r),
     pv_Labels = [(k8s_labelWorkspace, hr_WorkspaceID r), (k8s_labelTenant, hr_TenantID r)],
     pv_AccessModes = [''ReadWriteOnce''], pv_Storage = kp_size p,
     pv_StorageClassName = (if kp_storageClass p = [] then None else Some (kp_storageClass p)) \<rparr>"

definition claim_mount :: "string \<Rightarrow> mount" where
  "claim_mount name = \<lparr> mt_Source = name, mt_Target = homeTarget, mt_ReadOnly = False, mt_Device = False \<rparr>"

definition k8spvc_EnsureHome :: "('k, 'q) k8s_cli \<Rightarrow> 'q k8spvc_provider \<Rightarrow> home_request \<Rightarrow> 'k \<Rightarrow> mount result \<times> 'k" where
  "k8spvc_EnsureHome cli p r k =
     (if hr_WorkspaceID r = [] then (Inl (Errorf ''k8spvc: empty workspace id''), k)
      else let name = pvcName (hr_WorkspaceID r) in
        (case pvcs_Get cli (kp_ns p) name k of
           (Inr _, k1) \<Rightarrow> (Inr (claim_mount name), k1)
         | (Inl e, k1) \<Rightarrow>
             if \<not> IsNotFound cli e then (Inl (Wrapf (''k8spvc: get pvc '' @ quoted name @ '': '') e), k1)
             else (case pvcs_Create cli (kp_ns p) (home_pvc p r) k1 of
                (Inl e', k2) \<Rightarrow> if IsAlreadyExists cli e' then (Inr (claim_mount name), k2)
                  else (Inl (Wrapf (''k8spvc: create pvc '' @ quoted name @ '': '') e'), k2)
              | (Inr _, k2) \<Rightarrow> (Inr (claim_mount name), k2))))"

definition k8spvc_Delete :: "('k, 'q) k8s_cli \<Rightarrow> 'q k8spvc_provider \<Rightarrow> string \<Rightarrow> 'k \<Rightarrow> unit result \<times> 'k" where
  "k8spvc_Delete cli p homeRef k =
     (case pvcs_Delete cli (kp_ns p) homeRef k of
        (Inl e, k1) \<Rightarrow> (if IsNotFound cli e then Inr () else Inl (Wrapf (''k8spvc: delete pvc '' @ quoted homeRef @ '': '') e), k1)
      | (Inr _, k1) \<Rightarrow> (Inr (), k1))"

definition k8spvc_storage :: "('k, 'q) k8s_cli \<Rightarrow> 'q k8spvc_provider \<Rightarrow> 'k storage_ops" where
  "k8spvc_storage cli p = \<lparr> st_EnsureHome = k8spvc_EnsureHome cli p, st_Delete = k8spvc_Delete cli p \<rparr>"

section \<open>The cluster\<close>

text \<open>What the API documents, on the pods and the claims that exist by namespace and name. A read returns
  the object and changes nothing. A create that succeeds stores the object under a name that was free, in
  the phase it starts in. A delete touches nothing else, and answers that a name is unknown only when it is;
  a pod whose deletion was accepted may go on existing while it terminates.\<close>

definition same_pod :: "pod \<Rightarrow> pod \<Rightarrow> bool" where
  "same_pod q q' \<longleftrightarrow> q' = q\<lparr>po_Phase := po_Phase q'\<rparr>"

definition k8s_cluster :: "('k, 'q) k8s_cli \<Rightarrow> ('k \<Rightarrow> string \<times> string \<rightharpoonup> pod) \<Rightarrow> ('k \<Rightarrow> (string \<times> string) set) \<Rightarrow> bool" where
  "k8s_cluster cli pods claims \<longleftrightarrow>
     (\<forall>ns n k r k'. pods_Get cli ns n k = (r, k') \<longrightarrow> pods k' = pods k \<and> claims k' = claims k \<and>
        (case r of Inr q \<Rightarrow> pods k (ns, n) = Some q | Inl e \<Rightarrow> IsNotFound cli e \<longrightarrow> pods k (ns, n) = None)) \<and>
     (\<forall>ns q k r k'. pods_Create cli ns q k = (r, k') \<longrightarrow> claims k' = claims k \<and>
        (\<forall>x. x \<noteq> (ns, po_Name q) \<longrightarrow> pods k' x = pods k x) \<and>
        (is_ok r \<longrightarrow> pods k (ns, po_Name q) = None \<and>
           (\<exists>q'. pods k' (ns, po_Name q) = Some q' \<and> same_pod q q' \<and> po_Phase q' \<in> {[], ''Pending''}))) \<and>
     (\<forall>ns n k r k'. pods_Delete cli ns n k = (r, k') \<longrightarrow> claims k' = claims k \<and>
        (\<forall>x. x \<noteq> (ns, n) \<longrightarrow> pods k' x = pods k x) \<and>
        (\<forall>e. r = Inl e \<and> IsNotFound cli e \<longrightarrow> pods k' (ns, n) = None)) \<and>
     (\<forall>ns n k r k'. pvcs_Get cli ns n k = (r, k') \<longrightarrow> pods k' = pods k \<and> claims k' = claims k \<and>
        (case r of Inr _ \<Rightarrow> (ns, n) \<in> claims k | Inl e \<Rightarrow> IsNotFound cli e \<longrightarrow> (ns, n) \<notin> claims k)) \<and>
     (\<forall>ns c k r k'. pvcs_Create cli ns c k = (r, k') \<longrightarrow> pods k' = pods k \<and> claims k \<subseteq> claims k' \<and>
        claims k' \<subseteq> insert (ns, pv_Name c) (claims k) \<and>
        ((case r of Inr _ \<Rightarrow> True | Inl e \<Rightarrow> IsAlreadyExists cli e) \<longrightarrow> (ns, pv_Name c) \<in> claims k')) \<and>
     (\<forall>ns n k r k'. pvcs_Delete cli ns n k = (r, k') \<longrightarrow> pods k' = pods k \<and> claims k - {(ns, n)} \<subseteq> claims k' \<and> claims k' \<subseteq> claims k)"

section \<open>Lemmas\<close>

lemma splitRef_ref: "CHR ''/'' \<notin> set ns \<Longrightarrow> splitRef (k8s_ref ns name) = (ns, name)"
  by (simp add: splitRef_def k8s_ref_def Cut_found)

lemma ref_pod_ref: "CHR ''/'' \<notin> set ns \<Longrightarrow> ref_pod ns (k8s_ref ns name) = (ns, name)"
  by (simp add: ref_pod_def splitRef_ref)

lemma same_pod_spec: "same_pod q q' \<Longrightarrow> po_Volumes q' = po_Volumes q \<and> po_Containers q' = po_Containers q"
  by (cases q, cases q') (simp add: same_pod_def)

lemma mount_volume_inj: "mount_volume i = mount_volume j \<longleftrightarrow> i = j"
  unfolding mount_volume_def by (metis read_show_nat same_append_eq)

lemma mount_volumes_length: "length (fst (mount_volumes i ms)) = length ms" "length (snd (mount_volumes i ms)) = length ms"
  by (induction i ms rule: mount_volumes.induct) (auto split: prod.splits)

lemma mount_volumes_nth:
  "j < length ms \<Longrightarrow> fst (mount_volumes i ms) ! j = \<lparr> vo_Name = mount_volume (i + j), vo_Source = PersistentVolumeClaim (mt_Source (ms ! j)) \<rparr>"
  "j < length ms \<Longrightarrow> snd (mount_volumes i ms) ! j = \<lparr> vx_Name = mount_volume (i + j), vx_MountPath = mt_Target (ms ! j), vx_ReadOnly = mt_ReadOnly (ms ! j) \<rparr>"
  by (induction i ms arbitrary: j rule: mount_volumes.induct) (auto simp: nth_Cons split: prod.splits nat.splits)

lemma mount_volumes_names:
  "map vo_Name (fst (mount_volumes i ms)) = map mount_volume [i..<i + length ms]"
  "map vx_Name (snd (mount_volumes i ms)) = map mount_volume [i..<i + length ms]"
  "map vx_MountPath (snd (mount_volumes i ms)) = map mt_Target ms"
  by (auto intro!: nth_equalityI simp: mount_volumes_length mount_volumes_nth)

lemma box_pod_simps [simp]:
  "po_Name (box_pod iter r) = podName (pr_WorkspaceID r)"
  "po_Volumes (box_pod iter r) = \<lparr> vo_Name = agentVolume, vo_Source = EmptyDir \<rparr> # fst (mount_volumes 0 (pr_Mounts r))"
  "po_Containers (box_pod iter r) = [workspace_container iter r (agent_target r)
     (\<lparr> vx_Name = agentVolume, vx_MountPath = path_Dir (agent_target r), vx_ReadOnly = True \<rparr> # snd (mount_volumes 0 (pr_Mounts r)))]"
  "po_InitContainers (box_pod iter r) =
     [\<lparr> kc_Name = ''hopbox-agent-init'', kc_Image = ai_ImageRef (pr_Agent r),
        kc_Command = [''cp'', ai_BinaryPath (pr_Agent r), agent_target r], kc_Env = [],
        kc_VolumeMounts = [\<lparr> vx_Name = agentVolume, vx_MountPath = path_Dir (agent_target r), vx_ReadOnly = False \<rparr>],
        kc_MemoryLimit = None \<rparr>]"
  by (simp_all add: box_pod_def Let_def split: prod.splits)

lemmas cluster_get = k8s_cluster_def [THEN iffD1, THEN conjunct1, rule_format]
lemmas cluster_create = k8s_cluster_def [THEN iffD1, THEN conjunct2, THEN conjunct1, rule_format]
lemmas cluster_delete = k8s_cluster_def [THEN iffD1, THEN conjunct2, THEN conjunct2, THEN conjunct1, rule_format]
lemmas cluster_pvc_get = k8s_cluster_def [THEN iffD1, THEN conjunct2, THEN conjunct2, THEN conjunct2, THEN conjunct1, rule_format]
lemmas cluster_pvc_create =
  k8s_cluster_def [THEN iffD1, THEN conjunct2, THEN conjunct2, THEN conjunct2, THEN conjunct2, THEN conjunct1, rule_format]
lemmas cluster_pvc_delete =
  k8s_cluster_def [THEN iffD1, THEN conjunct2, THEN conjunct2, THEN conjunct2, THEN conjunct2, THEN conjunct2, rule_format]

text \<open>A provision touches at most the pod of its box, and no claim.\<close>

lemma k8s_Provision_cluster:
  assumes C: "k8s_cluster cli pods claims" and p: "k8s_Provision cli iter ns r k = (res, k')"
  shows "claims k' = claims k" "x \<noteq> (ns, podName (pr_WorkspaceID r)) \<Longrightarrow> pods k' x = pods k x"
    "res = Inr i \<Longrightarrow> inst_Ref i = k8s_ref ns (podName (pr_WorkspaceID r)) \<and>
       (\<exists>q. pods k' (ns, podName (pr_WorkspaceID r)) = Some q \<and> same_pod (box_pod iter r) q \<and> po_Phase q \<in> {[], ''Pending''})"
proof -
  let ?name = "podName (pr_WorkspaceID r)"
  obtain rd k1 where d: "pods_Delete cli ns ?name k = (rd, k1)" by fastforce
  obtain rc k2 where c: "pods_Create cli ns (box_pod iter r) k1 = (rc, k2)" by fastforce
  note D = cluster_delete [OF C d] and K = cluster_create [OF C c]
  have k': "k' \<in> {k, k1, k2}" using p d c by (auto simp: k8s_Provision_def Let_def split: if_splits option.splits sum.splits)
  show "claims k' = claims k" using k' D K by auto
  show "pods k' x = pods k x" if "x \<noteq> (ns, ?name)" using k' D K that by (cases x) auto
  assume "res = Inr i"
  with p d c have "is_ok rc \<and> k' = k2 \<and> inst_Ref i = k8s_ref ns ?name"
    by (auto simp: k8s_Provision_def Let_def is_ok_def split: if_splits option.splits sum.splits)
  with K show "inst_Ref i = k8s_ref ns ?name \<and>
       (\<exists>q. pods k' (ns, ?name) = Some q \<and> same_pod (box_pod iter r) q \<and> po_Phase q \<in> {[], ''Pending''})" by simp
qed

lemma k8s_delete_cluster:
  assumes "k8s_cluster cli pods claims" "k8s_delete cli ns ref k = (res, k')"
  shows "claims k' = claims k" "x \<noteq> ref_pod ns ref \<Longrightarrow> pods k' x = pods k x"
proof -
  obtain n name where r: "ref_pod ns ref = (n, name)" by fastforce
  obtain rd where d: "pods_Delete cli n name k = (rd, k')" using assms(2) r by (auto simp: k8s_delete_def split: prod.splits)
  from cluster_delete [OF assms(1) d] r show "claims k' = claims k" "x \<noteq> ref_pod ns ref \<Longrightarrow> pods k' x = pods k x"
    by (simp, cases x, auto)
qed

lemma k8spvc_EnsureHome_cluster:
  assumes C: "k8s_cluster cli pods claims" and p: "k8spvc_EnsureHome cli p r k = (res, k')"
  shows "pods k' = pods k" "claims k \<subseteq> claims k'"
    "res = Inr m \<Longrightarrow> m = claim_mount (pvcName (hr_WorkspaceID r)) \<and> (kp_ns p, mt_Source m) \<in> claims k'"
proof -
  let ?name = "pvcName (hr_WorkspaceID r)"
  obtain rg k1 where g: "pvcs_Get cli (kp_ns p) ?name k = (rg, k1)" by fastforce
  obtain rc k2 where c: "pvcs_Create cli (kp_ns p) (home_pvc p r) k1 = (rc, k2)" by fastforce
  note G = cluster_pvc_get [OF C g] and K = cluster_pvc_create [OF C c]
  have k': "k' \<in> {k, k1, k2}" using p g c by (auto simp: k8spvc_EnsureHome_def Let_def split: if_splits sum.splits)
  show "pods k' = pods k" "claims k \<subseteq> claims k'" using k' G K by auto
  have n: "pv_Name (home_pvc p r) = ?name" by (simp add: home_pvc_def)
  assume "res = Inr m"
  with p g c have "m = claim_mount ?name \<and> (is_ok rg \<and> k' = k1 \<or> (case rc of Inr _ \<Rightarrow> True | Inl e \<Rightarrow> IsAlreadyExists cli e) \<and> k' = k2)"
    by (auto simp: k8spvc_EnsureHome_def Let_def is_ok_def split: if_splits sum.splits)
  with G K n show "m = claim_mount ?name \<and> (kp_ns p, mt_Source m) \<in> claims k'" by (auto simp: claim_mount_def is_ok_def split: sum.splits)
qed

lemma k8spvc_EnsureHome_again:
  assumes C: "k8s_cluster cli pods claims" and "k8spvc_EnsureHome cli p r k = (res, k')"
    and "(kp_ns p, pvcName (hr_WorkspaceID r)) \<in> claims k"
  shows "claims k' = claims k"
proof -
  obtain rg k1 where g: "pvcs_Get cli (kp_ns p) (pvcName (hr_WorkspaceID r)) k = (rg, k1)" by fastforce
  from cluster_pvc_get [OF C g] assms(2,3) g show ?thesis
    by (auto simp: k8spvc_EnsureHome_def Let_def split: if_splits sum.splits)
qed

section \<open>Properties\<close>

text \<open>The rule the API server applies to a pod's volumes: their names are distinct, and every mount of every
  container is of one of them.\<close>

definition pod_ok :: "pod \<Rightarrow> bool" where
  "pod_ok q \<longleftrightarrow> distinct (map vo_Name (po_Volumes q)) \<and>
     (\<forall>c \<in> set (po_InitContainers q @ po_Containers q). \<forall>m \<in> set (kc_VolumeMounts c). vx_Name m \<in> set (map vo_Name (po_Volumes q)))"

text \<open>C22: the pod built for any request, with any number of mounts, is well formed: its volumes have distinct
  names and every container mounts only volumes the pod has. The workspace container mounts, in the
  order of the request and behind the agent's volume, the claim of every requested mount at its
  target, read-only exactly when requested; and its mount paths are distinct when the request's
  targets are distinct and none of them is the agent's directory.\<close>

theorem box_pod_well_formed:
  "pod_ok (box_pod iter r) \<and>
   (\<forall>i < length (pr_Mounts r). \<exists>v x. po_Volumes (box_pod iter r) ! Suc i = v \<and>
      kc_VolumeMounts (hd (po_Containers (box_pod iter r))) ! Suc i = x \<and>
      vx_Name x = vo_Name v \<and> vo_Source v = PersistentVolumeClaim (mt_Source (pr_Mounts r ! i)) \<and>
      vx_MountPath x = mt_Target (pr_Mounts r ! i) \<and> vx_ReadOnly x = mt_ReadOnly (pr_Mounts r ! i)) \<and>
   (distinct (map mt_Target (pr_Mounts r)) \<and> path_Dir (agent_target r) \<notin> set (map mt_Target (pr_Mounts r)) \<longrightarrow>
      distinct (map vx_MountPath (kc_VolumeMounts (hd (po_Containers (box_pod iter r))))))"
proof (intro conjI allI impI)
  have a: "agentVolume \<noteq> mount_volume i" for i by (simp add: agentVolume_def mount_volume_def)
  have "distinct (map mount_volume [0..<n])" for n by (simp add: distinct_map inj_on_def mount_volume_inj)
  moreover have "vx_Name m \<in> mount_volume ` {0..<length (pr_Mounts r)}" if "m \<in> set (snd (mount_volumes 0 (pr_Mounts r)))" for m
    using mount_volumes_names(2) [of 0 "pr_Mounts r", THEN arg_cong [of _ _ set]] that by auto
  ultimately show "pod_ok (box_pod iter r)"
    using mount_volumes_names(1) [of 0 "pr_Mounts r"] a by (auto simp: pod_ok_def workspace_container_def)
next
  fix i assume "i < length (pr_Mounts r)"
  then show "\<exists>v x. po_Volumes (box_pod iter r) ! Suc i = v \<and> kc_VolumeMounts (hd (po_Containers (box_pod iter r))) ! Suc i = x \<and>
      vx_Name x = vo_Name v \<and> vo_Source v = PersistentVolumeClaim (mt_Source (pr_Mounts r ! i)) \<and>
      vx_MountPath x = mt_Target (pr_Mounts r ! i) \<and> vx_ReadOnly x = mt_ReadOnly (pr_Mounts r ! i)"
    by (simp add: workspace_container_def mount_volumes_nth)
next
  assume "distinct (map mt_Target (pr_Mounts r)) \<and> path_Dir (agent_target r) \<notin> set (map mt_Target (pr_Mounts r))"
  then show "distinct (map vx_MountPath (kc_VolumeMounts (hd (po_Containers (box_pod iter r)))))"
    using mount_volumes_names(3) [of 0 "pr_Mounts r"] by (simp add: workspace_container_def del: list.set_map)
qed

definition demo_pod_req :: provision_request where
  "demo_pod_req = \<lparr> pr_WorkspaceID = ''w1'', pr_ImageRef = ''ubuntu:24.04'', pr_MemMB = 512, pr_CPUMillis = 0, pr_GuestBin = [],
     pr_Mounts = [claim_mount ''hopbox-home-w1''], pr_Env = [],
     pr_Agent = \<lparr> ai_ImageRef = ''agent'', ai_BinaryPath = ''/hopbox-agent'', ai_TargetPath = [], ai_HostBinaryPath = [] \<rparr> \<rparr>"

lemma demo_pod_req_simps [simp]:
  "pr_Mounts demo_pod_req = [claim_mount ''hopbox-home-w1'']" "pr_WorkspaceID demo_pod_req = ''w1''" "agent_target demo_pod_req = defaultTarget"
  "ai_ImageRef (pr_Agent demo_pod_req) = ''agent''" "ai_BinaryPath (pr_Agent demo_pod_req) = ''/hopbox-agent''"
  by (simp_all add: demo_pod_req_def agent_target_def)

theorem box_pod_well_formed_witness:
  "vx_MountPath (kc_VolumeMounts (hd (po_Containers (box_pod id demo_pod_req))) ! 1) = ''/home/dev'' \<and>
   distinct (map vx_MountPath (kc_VolumeMounts (hd (po_Containers (box_pod id demo_pod_req)))))"
proof -
  have "path_Dir defaultTarget \<noteq> ''/home/dev''" by code_simp
  with box_pod_well_formed [of id demo_pod_req] show ?thesis by (simp add: claim_mount_def homeTarget_def)
qed

text \<open>A pod's life. Whatever the cluster answers, a provision touches no other pod and no claim. After one
  that succeeds the cluster has the pod that was built, the reference the core keeps leads back to it
  (a status that is answered finds it, still coming up), and stopping or destroying the reference
  touches no other pod and no claim.\<close>

theorem k8s_box_lifecycle:
  assumes C: "k8s_cluster cli pods claims" and ns: "CHR ''/'' \<notin> set ns" and p: "k8s_Provision cli iter ns r k = (res, k1)"
  shows "claims k1 = claims k \<and> (\<forall>x. x \<noteq> (ns, podName (pr_WorkspaceID r)) \<longrightarrow> pods k1 x = pods k x) \<and>
    (\<forall>i. res = Inr i \<longrightarrow>
       (\<exists>q. pods k1 (ns, podName (pr_WorkspaceID r)) = Some q \<and> same_pod (box_pod iter r) q) \<and>
       (\<forall>j k2. k8s_Status cli ns (inst_Ref i) k1 = (Inr j, k2) \<longrightarrow>
          j = \<lparr> inst_Ref = inst_Ref i, inst_Phase = InstanceStopped, inst_IP = [] \<rparr> \<and> pods k2 = pods k1) \<and>
       (\<forall>ru k2. k8s_delete cli ns (inst_Ref i) k1 = (ru, k2) \<longrightarrow>
          claims k2 = claims k \<and> (\<forall>x. x \<noteq> (ns, podName (pr_WorkspaceID r)) \<longrightarrow> pods k2 x = pods k x)))"
proof -
  let ?name = "podName (pr_WorkspaceID r)"
  note P = k8s_Provision_cluster [OF C p]
  have ok: "(\<exists>q. pods k1 (ns, ?name) = Some q \<and> same_pod (box_pod iter r) q) \<and>
       (\<forall>j k2. k8s_Status cli ns (inst_Ref i) k1 = (Inr j, k2) \<longrightarrow>
          j = \<lparr> inst_Ref = inst_Ref i, inst_Phase = InstanceStopped, inst_IP = [] \<rparr> \<and> pods k2 = pods k1) \<and>
       (\<forall>ru k2. k8s_delete cli ns (inst_Ref i) k1 = (ru, k2) \<longrightarrow>
          claims k2 = claims k \<and> (\<forall>x. x \<noteq> (ns, ?name) \<longrightarrow> pods k2 x = pods k x))" if "res = Inr i" for i
  proof (intro conjI allI impI)
    from P(3) [OF that] obtain q where i: "inst_Ref i = k8s_ref ns ?name" and q: "pods k1 (ns, ?name) = Some q"
      "same_pod (box_pod iter r) q" "pod_phase (po_Phase q) = InstanceStopped" by (auto simp: pod_phase_def)
    note rp = ref_pod_ref [OF ns, of ?name]
    show "\<exists>q. pods k1 (ns, ?name) = Some q \<and> same_pod (box_pod iter r) q" using q by blast
    show "j = \<lparr> inst_Ref = inst_Ref i, inst_Phase = InstanceStopped, inst_IP = [] \<rparr>" "pods k2 = pods k1"
      if s: "k8s_Status cli ns (inst_Ref i) k1 = (Inr j, k2)" for j k2
    proof -
      obtain rg kg where g: "pods_Get cli ns ?name k1 = (rg, kg)" by fastforce
      from cluster_get [OF C g] s g i rp q show "j = \<lparr> inst_Ref = inst_Ref i, inst_Phase = InstanceStopped, inst_IP = [] \<rparr>" "pods k2 = pods k1"
        by (auto simp: k8s_Status_def split: sum.splits if_splits)
    qed
    show "claims k2 = claims k" "x \<noteq> (ns, ?name) \<Longrightarrow> pods k2 x = pods k x" if d: "k8s_delete cli ns (inst_Ref i) k1 = (ru, k2)" for ru k2 x
      using k8s_delete_cluster [OF C d] P(1) P(2) [of x] i rp by auto
  qed
  show ?thesis using P(1,2) ok by blast
qed

text \<open>A cluster that knows one namespace's worth of pods and claims; \<open>graceful\<close> says whether a deleted pod
  lingers while it terminates.\<close>

type_synonym demo_kube = "(string \<times> string \<rightharpoonup> pod) \<times> (string \<times> string) set"

definition demo_k8s :: "bool \<Rightarrow> (demo_kube, unit) k8s_cli" where
  "demo_k8s graceful =
     \<lparr> pods_Get = (\<lambda>ns n (ps, cs). (case ps (ns, n) of None \<Rightarrow> Inl ErrNotFound | Some q \<Rightarrow> Inr q, ps, cs)),
       pods_Create = (\<lambda>ns q (ps, cs). if ps (ns, po_Name q) = None then (Inr (), ps((ns, po_Name q) \<mapsto> q\<lparr>po_Phase := ''Pending''\<rparr>), cs)
          else (Inl (Errorf ''already exists''), ps, cs)),
       pods_Delete = (\<lambda>ns n (ps, cs). if ps (ns, n) = None then (Inl ErrNotFound, ps, cs)
          else (Inr (), if graceful then ps else ps((ns, n) := None), cs)),
       pvcs_Get = (\<lambda>ns n (ps, cs). (if (ns, n) \<in> cs then Inr () else Inl ErrNotFound, ps, cs)),
       pvcs_Create = (\<lambda>ns c (ps, cs). (if (ns, pv_Name c) \<in> cs then Inl (Errorf ''already exists'') else Inr (), ps, insert (ns, pv_Name c) cs)),
       pvcs_Delete = (\<lambda>ns n (ps, cs). (if (ns, n) \<in> cs then Inr () else Inl ErrNotFound, ps, cs - {(ns, n)})),
       IsNotFound = (\<lambda>e. e = ErrNotFound), IsAlreadyExists = (\<lambda>e. e = Errorf ''already exists'') \<rparr>"

lemma demo_k8s_cluster: "k8s_cluster (demo_k8s g) fst snd"
  unfolding k8s_cluster_def by (intro conjI allI impI) (auto simp: demo_k8s_def same_pod_def is_ok_def split: option.splits if_splits)

lemma demo_k8s_provision:
  "k8s_Provision (demo_k8s g) iter ns demo_pod_req (ps, cs) =
     (if ps (ns, ''hopbox-w1'') = None \<or> \<not> g
      then (Inr \<lparr> inst_Ref = k8s_ref ns ''hopbox-w1'', inst_Phase = InstanceRunning, inst_IP = [] \<rparr>,
            ps((ns, ''hopbox-w1'') \<mapsto> (box_pod iter demo_pod_req)\<lparr>po_Phase := ''Pending''\<rparr>), cs)
      else (Inl (Wrapf (''kubernetes: create pod '' @ quoted ''hopbox-w1'' @ '': '') (Errorf ''already exists'')), ps, cs))"
  by (auto simp: k8s_Provision_def demo_k8s_def podName_def Let_def)

lemma demo_k8s_status:
  "k8s_Status (demo_k8s g) ns ref k =
     (Inr \<lparr> inst_Ref = ref, inst_Phase = (case fst k (ref_pod ns ref) of None \<Rightarrow> InstanceGone | Some q \<Rightarrow> pod_phase (po_Phase q)), inst_IP = [] \<rparr>, k)"
  by (cases k, cases "ref_pod ns ref") (simp add: k8s_Status_def demo_k8s_def split: option.splits)

theorem k8s_box_lifecycle_witness:
  "\<exists>i k1. k8s_Provision (demo_k8s True) id ''hb'' demo_pod_req (Map.empty, {}) = (Inr i, k1) \<and>
     k8s_Status (demo_k8s True) ''hb'' (inst_Ref i) k1 = (Inr \<lparr> inst_Ref = inst_Ref i, inst_Phase = InstanceStopped, inst_IP = [] \<rparr>, k1)"
proof -
  obtain i k1 where p: "k8s_Provision (demo_k8s True) id ''hb'' demo_pod_req (Map.empty, {}) = (Inr i, k1)" "inst_Ref i = k8s_ref ''hb'' ''hopbox-w1''"
    by (simp add: demo_k8s_provision)
  obtain j where s: "k8s_Status (demo_k8s True) ''hb'' (inst_Ref i) k1 = (Inr j, k1)"
    by (simp add: demo_k8s_status)
  from k8s_box_lifecycle [OF demo_k8s_cluster _ p(1)] s
  have "j = \<lparr> inst_Ref = inst_Ref i, inst_Phase = InstanceStopped, inst_IP = [] \<rparr>" by (cases k1) auto
  with p(1) s show ?thesis by blast
qed

text \<open>On a cluster where pods terminate gracefully, as they do by default, provisioning a box whose pod is still
  there fails, and a box that was destroyed is still reported.\<close>

lemma k8s_graceful_reprovision_fails:
  "\<exists>i k1 e. k8s_Provision (demo_k8s True) iter ''hb'' demo_pod_req (Map.empty, {}) = (Inr i, k1) \<and>
     fst (k8s_Provision (demo_k8s True) iter ''hb'' demo_pod_req k1) = Inl e \<and>
     (\<exists>k2 j k3. k8s_delete (demo_k8s True) ''hb'' (inst_Ref i) k1 = (Inr (), k2) \<and>
        k8s_Status (demo_k8s True) ''hb'' (inst_Ref i) k2 = (Inr j, k3) \<and> inst_Phase j \<noteq> InstanceGone)"
  by (simp add: demo_k8s_provision k8s_delete_def k8s_Status_def ref_pod_ref) (simp add: demo_k8s_def pod_phase_def)

text \<open>A home outlives its pod. The claim that the storage provider hands out is mounted in the box's pod,
  writable, at the home directory, by the compute provider that receives it; it is there while the
  pod runs and after the pod is stopped or destroyed; and asking for the home again gives the same
  claim and creates none.\<close>

theorem k8s_home_survives:
  assumes C: "k8s_cluster cli pods claims" and h: "k8spvc_EnsureHome cli p hreq k = (Inr m, k1)" and m: "m \<in> set (pr_Mounts r)"
    and pr: "k8s_Provision cli iter (kp_ns p) r k1 = (Inr i, k2)" and d: "k8s_delete cli (kp_ns p) (inst_Ref i) k2 = (ru, k3)"
    and h2: "k8spvc_EnsureHome cli p hreq k3 = (Inr m', k4)"
  shows "(\<exists>q v x. pods k2 (kp_ns p, podName (pr_WorkspaceID r)) = Some q \<and> v \<in> set (po_Volumes q) \<and>
      vo_Source v = PersistentVolumeClaim (pvcName (hr_WorkspaceID hreq)) \<and> x \<in> set (kc_VolumeMounts (hd (po_Containers q))) \<and>
      vx_Name x = vo_Name v \<and> vx_MountPath x = ''/home/dev'' \<and> \<not> vx_ReadOnly x) \<and>
    (kp_ns p, pvcName (hr_WorkspaceID hreq)) \<in> claims k2 \<and> claims k3 = claims k2 \<and> m' = m \<and> claims k4 = claims k2"
proof -
  let ?c = "pvcName (hr_WorkspaceID hreq)"
  note H = k8spvc_EnsureHome_cluster [OF C h] and P = k8s_Provision_cluster [OF C pr]
  from H(3) have m1: "m = claim_mount ?c" and in1: "(kp_ns p, ?c) \<in> claims k1" by (auto simp: claim_mount_def)
  have c3: "claims k3 = claims k2" by (rule k8s_delete_cluster(1) [OF C d])
  have c4: "claims k4 = claims k3" using k8spvc_EnsureHome_again [OF C h2] in1 P(1) c3 by simp
  have m2: "m' = m" using k8spvc_EnsureHome_cluster(3) [OF C h2] m1 by simp
  from P(3) [OF refl] obtain q where q: "pods k2 (kp_ns p, podName (pr_WorkspaceID r)) = Some q" "same_pod (box_pod iter r) q" by blast
  from m obtain n where n: "n < length (pr_Mounts r)" "pr_Mounts r ! n = m" by (auto simp: in_set_conv_nth)
  let ?v = "fst (mount_volumes 0 (pr_Mounts r)) ! n" and ?x = "snd (mount_volumes 0 (pr_Mounts r)) ! n"
  have "po_Volumes q = po_Volumes (box_pod iter r)" "po_Containers q = po_Containers (box_pod iter r)"
    using same_pod_spec [OF q(2)] by simp_all
  moreover have "?v \<in> set (fst (mount_volumes 0 (pr_Mounts r)))" "?x \<in> set (snd (mount_volumes 0 (pr_Mounts r)))"
    using n(1) mount_volumes_length by (metis nth_mem)+
  moreover have "vo_Source ?v = PersistentVolumeClaim ?c" "vx_Name ?x = vo_Name ?v" "vx_MountPath ?x = ''/home/dev''" "\<not> vx_ReadOnly ?x"
    using n m1 by (simp_all add: mount_volumes_nth claim_mount_def homeTarget_def)
  ultimately have "\<exists>v x. v \<in> set (po_Volumes q) \<and> vo_Source v = PersistentVolumeClaim ?c \<and> x \<in> set (kc_VolumeMounts (hd (po_Containers q))) \<and>
      vx_Name x = vo_Name v \<and> vx_MountPath x = ''/home/dev'' \<and> \<not> vx_ReadOnly x"
    by (intro exI [of _ ?v] exI [of _ ?x]) (simp add: workspace_container_def)
  with q(1) P(1) in1 c3 c4 m2 show ?thesis by auto
qed

definition demo_k8spvc :: "unit k8spvc_provider" where
  "demo_k8spvc = \<lparr> kp_ns = ''hb'', kp_storageClass = [], kp_size = () \<rparr>"

definition demo_home_req :: home_request where
  "demo_home_req = \<lparr> hr_WorkspaceID = ''w1'', hr_TenantID = ''t'', hr_Owner = ''o'' \<rparr>"

lemma demo_k8s_home:
  "k8spvc_EnsureHome (demo_k8s g) demo_k8spvc demo_home_req (ps, cs) =
     (Inr (claim_mount ''hopbox-home-w1''), ps, insert (''hb'', ''hopbox-home-w1'') cs)"
  by (auto simp: k8spvc_EnsureHome_def demo_k8s_def demo_k8spvc_def demo_home_req_def pvcName_def home_pvc_def Let_def)

theorem k8s_home_survives_witness:
  "\<exists>k1 i k2 ru k3 k4. k8spvc_EnsureHome (demo_k8s False) demo_k8spvc demo_home_req (Map.empty, {}) = (Inr (claim_mount ''hopbox-home-w1''), k1) \<and>
     k8s_Provision (demo_k8s False) id ''hb'' demo_pod_req k1 = (Inr i, k2) \<and> k8s_delete (demo_k8s False) ''hb'' (inst_Ref i) k2 = (ru, k3) \<and>
     k8spvc_EnsureHome (demo_k8s False) demo_k8spvc demo_home_req k3 = (Inr (claim_mount ''hopbox-home-w1''), k4) \<and> snd k4 = snd k2"
proof -
  have ns: "kp_ns demo_k8spvc = ''hb''" by (simp add: demo_k8spvc_def)
  obtain k1 where h: "k8spvc_EnsureHome (demo_k8s False) demo_k8spvc demo_home_req (Map.empty, {}) = (Inr (claim_mount ''hopbox-home-w1''), k1)"
    by (simp add: demo_k8s_home)
  obtain i k2 where p: "k8s_Provision (demo_k8s False) id ''hb'' demo_pod_req k1 = (Inr i, k2)"
    by (cases k1) (simp add: demo_k8s_provision)
  obtain ru k3 where d: "k8s_delete (demo_k8s False) ''hb'' (inst_Ref i) k2 = (ru, k3)"
    by (cases "k8s_delete (demo_k8s False) ''hb'' (inst_Ref i) k2")
  obtain k4 where h2: "k8spvc_EnsureHome (demo_k8s False) demo_k8spvc demo_home_req k3 = (Inr (claim_mount ''hopbox-home-w1''), k4)"
    by (cases k3) (simp add: demo_k8s_home)
  have "snd k4 = snd k2"
    using k8s_home_survives [OF demo_k8s_cluster h _ p [folded ns] d [folded ns] h2] by (simp add: ns)
  with h p d h2 show ?thesis by blast
qed

end
