(* ===== verification/Base64.thy ===== *)
theory Base64
  imports Agent_Proto
begin

text \<open>
  \<^verbatim>\<open>base64.StdEncoding\<close> of the Go library, which carries an environment on a kernel command line: three
  bytes are four characters of a 64-letter alphabet, the last group padded with equal signs. The
  decoder skips line breaks, takes padding only at the end, and refuses anything else.
\<close>

definition b64_alphabet :: string where
  "b64_alphabet = ''ABCDEFGHIJKLMNOPQRSTUVWXYZabcdefghijklmnopqrstuvwxyz0123456789+/''"

definition b64_char :: "nat \<Rightarrow> char" where
  "b64_char i = b64_alphabet ! (i mod 64)"

fun index_of :: "'a \<Rightarrow> 'a list \<Rightarrow> nat option" where
  "index_of x [] = None"
| "index_of x (y # ys) = (if x = y then Some 0 else map_option Suc (index_of x ys))"

definition b64_val :: "char \<Rightarrow> nat option" where
  "b64_val c = index_of c b64_alphabet"

text \<open>The 24-bit number of three bytes.\<close>

definition quantum :: "8 word \<Rightarrow> 8 word \<Rightarrow> 8 word \<Rightarrow> nat" where
  "quantum a b c = unat a * 65536 + unat b * 256 + unat c"

fun EncodeToString :: "bytes \<Rightarrow> string" where
  "EncodeToString [] = []"
| "EncodeToString [a] = (let n = quantum a 0 0 in [b64_char (n div 262144), b64_char (n div 4096), CHR ''='', CHR ''=''])"
| "EncodeToString [a, b] = (let n = quantum a b 0 in [b64_char (n div 262144), b64_char (n div 4096), b64_char (n div 64), CHR ''=''])"
| "EncodeToString (a # b # c # bs) =
     (let n = quantum a b c in
      [b64_char (n div 262144), b64_char (n div 4096), b64_char (n div 64), b64_char n] @ EncodeToString bs)"

text \<open>The three bytes of a 24-bit number.\<close>

definition bytes_of_quantum :: "nat \<Rightarrow> bytes" where
  "bytes_of_quantum n = [of_nat (n div 65536), of_nat (n div 256), of_nat n]"

definition b64_group :: "char \<Rightarrow> char \<Rightarrow> char \<Rightarrow> char \<Rightarrow> bytes option" where
  "b64_group w x y z =
     (case (b64_val w, b64_val x, b64_val y, b64_val z) of
        (Some p, Some q, Some r, Some s) \<Rightarrow> Some (bytes_of_quantum (p * 262144 + q * 4096 + r * 64 + s))
      | _ \<Rightarrow> None)"

definition b64_last :: "char \<Rightarrow> char \<Rightarrow> char \<Rightarrow> char \<Rightarrow> bytes option" where
  "b64_last w x y z =
     (if z \<noteq> CHR ''='' then b64_group w x y z
      else if y \<noteq> CHR ''='' then map_option (take 2) (b64_group w x y (CHR ''A''))
      else map_option (take 1) (b64_group w x (CHR ''A'') (CHR ''A'')))"

fun b64_decode :: "string \<Rightarrow> bytes option" where
  "b64_decode [] = Some []"
| "b64_decode [w, x, y, z] = b64_last w x y z"
| "b64_decode (w # x # y # z # s) =
     (case b64_group w x y z of None \<Rightarrow> None | Some b \<Rightarrow> map_option (append b) (b64_decode s))"
| "b64_decode s = None"

definition DecodeString :: "string \<Rightarrow> bytes option" where
  "DecodeString s = b64_decode (filter (\<lambda>c. c \<noteq> CHR 0x0A \<and> c \<noteq> CHR 0x0D) s)"

section \<open>The round trip\<close>

lemma b64_val_char: "b64_val (b64_char i) = Some (i mod 64)"
proof -
  have "list_all (\<lambda>i. b64_val (b64_alphabet ! i) = Some i) [0..<64]" by code_simp
  then have "\<forall>i < 64. b64_val (b64_alphabet ! i) = Some i" by (simp add: list_all_iff)
  then show ?thesis by (simp add: b64_char_def)
qed

lemma b64_char_plain: "b64_char i \<notin> {CHR ''='', CHR 0x0A, CHR 0x0D, CHR '' '', CHR 0x22}"
proof -
  have "list_all (\<lambda>i. b64_alphabet ! i \<notin> {CHR ''='', CHR 0x0A, CHR 0x0D, CHR '' '', CHR 0x22}) [0..<64]" by code_simp
  then have "\<forall>i < 64. b64_alphabet ! i \<notin> {CHR ''='', CHR 0x0A, CHR 0x0D, CHR '' '', CHR 0x22}" by (simp only: list_all_iff) simp
  then show ?thesis by (simp add: b64_char_def)
qed

lemma b64_char_eqs [simp]: "b64_char i \<noteq> CHR ''=''"
  using b64_char_plain [of i] by simp

lemma b64_A: "CHR ''A'' = b64_char 0"
  by code_simp

lemma unat_byte: "unat (a :: 8 word) < 256"
  using unsigned_less [of a] by simp

lemma bytes_of_quantum_quantum: "bytes_of_quantum (quantum a b c) = [a, b, c]"
proof -
  note u = unat_byte [of a] unat_byte [of b] unat_byte [of c]
  have d: "(i * 65536 + j * 256 + k) div 65536 = i \<and> (i * 65536 + j * 256 + k) div 256 = i * 256 + j" if "j < 256" "k < 256" for i j k :: nat
    using that by linarith
  have z: "(of_nat 256 :: 8 word) = 0" "(of_nat 65536 :: 8 word) = 0" unfolding word_of_nat_eq_0_iff by simp_all
  have "quantum a b c div 65536 = unat a" "quantum a b c div 256 = unat a * 256 + unat b" using u d by (simp_all only: quantum_def)
  moreover have "(of_nat (unat a * 256 + unat b) :: 8 word) = b" "(of_nat (quantum a b c) :: 8 word) = c"
    unfolding quantum_def of_nat_add of_nat_mult z by simp_all
  ultimately show ?thesis by (simp add: bytes_of_quantum_def)
qed

lemma digits64: "n < 16777216 \<Longrightarrow> n div 262144 mod 64 * 262144 + n div 4096 mod 64 * 4096 + n div 64 mod 64 * 64 + n mod 64 = (n :: nat)"
proof -
  assume n: "n < 16777216"
  have "n div 64 div 64 = n div 4096" "n div 4096 div 64 = n div 262144" by (simp_all add: div_mult2_eq [symmetric])
  then have "n div 64 = n div 4096 * 64 + n div 64 mod 64" "n div 4096 = n div 262144 * 64 + n div 4096 mod 64"
    by (metis div_mult_mod_eq)+
  moreover have "n div 262144 mod 64 = n div 262144" using n by simp
  ultimately show ?thesis using div_mult_mod_eq [of n 64] by linarith
qed

lemma quantum_less: "quantum a b c < 16777216"
  using unat_byte [of a] unat_byte [of b] unat_byte [of c] by (simp add: quantum_def)

lemma b64_group_quantum:
  "b64_group (b64_char (quantum a b c div 262144)) (b64_char (quantum a b c div 4096)) (b64_char (quantum a b c div 64)) (b64_char (quantum a b c)) =
     Some [a, b, c]"
  unfolding b64_group_def b64_val_char prod.case option.case digits64 [OF quantum_less [of a b c]] bytes_of_quantum_quantum by (rule refl)

lemma b64_decode_group:
  "b64_decode (w # x # y # z # EncodeToString bs) =
     (if bs = [] then b64_last w x y z
      else case b64_group w x y z of None \<Rightarrow> None | Some b \<Rightarrow> map_option (append b) (b64_decode (EncodeToString bs)))"
  by (cases bs rule: EncodeToString.cases) (simp_all add: Let_def split: option.splits)

lemma b64_decode_encode: "b64_decode (EncodeToString bs) = Some bs"
proof (induction bs rule: EncodeToString.induct)
  case (2 a)
  have "b64_char (quantum a 0 0 div 64) = b64_char 0" "b64_char (quantum a 0 0) = b64_char 0"
    by (simp_all add: b64_char_def quantum_def mod_eq_0_iff_dvd)
  with b64_group_quantum [of a 0 0] show ?case by (simp add: Let_def b64_last_def b64_A)
next
  case (3 a b)
  have "b64_char (quantum a b 0) = b64_char 0" by (simp add: b64_char_def quantum_def mod_eq_0_iff_dvd)
  with b64_group_quantum [of a b 0] show ?case by (simp add: Let_def b64_last_def b64_A)
next
  case (4 a b c bs)
  then show ?case by (simp add: Let_def b64_decode_group b64_group_quantum b64_last_def)
qed simp

lemma EncodeToString_chars: "c \<in> set (EncodeToString bs) \<Longrightarrow> c \<notin> {CHR 0x0A, CHR 0x0D, CHR '' '', CHR 0x22}"
  by (induction bs rule: EncodeToString.induct) (use b64_char_plain in \<open>auto simp: Let_def\<close>)

lemma DecodeString_EncodeToString: "DecodeString (EncodeToString bs) = Some bs"
proof -
  have "filter (\<lambda>c. c \<noteq> CHR 0x0A \<and> c \<noteq> CHR 0x0D) (EncodeToString bs) = EncodeToString bs"
    by (rule filter_True) (use EncodeToString_chars in auto)
  then show ?thesis by (simp add: DecodeString_def b64_decode_encode)
qed

end
