(* ===== verification/Agent_Main.thy ===== *)
theory Agent_Main
  imports Base64 Agent_Ssh Agent_Hub Microvm
begin

text \<open>
  The program that runs in every box, \<^verbatim>\<open>cmd/hopbox-agent\<close>: its start (\<^verbatim>\<open>env.go\<close>, \<^verbatim>\<open>home.go\<close>, \<^verbatim>\<open>dns.go\<close> and
  \<^verbatim>\<open>main\<close>), its connection to the control plane, and the handlers of the streams it is sent (exec,
  forward and shell; SSH is in \<open>Agent_Ssh\<close>). The operating system, the processes it starts are
  parameters; so are the codecs of the frames, for which the properties take those of the protocol. The environment is an association list.
\<close>

section \<open>The start\<close>

text \<open>\<^verbatim>\<open>os.Setenv\<close> refuses an empty name, a name with an equal sign or a zero byte, and a value with a zero byte.\<close>

definition env_name_ok :: "string \<Rightarrow> bool" where
  "env_name_ok k \<longleftrightarrow> k \<noteq> [] \<and> CHR ''='' \<notin> set k \<and> CHR 0x00 \<notin> set k"

definition Setenv :: "string \<Rightarrow> string \<Rightarrow> env \<Rightarrow> env" where
  "Setenv k v e = (if env_name_ok k \<and> CHR 0x00 \<notin> set v then set_env k v e else e)"

text \<open>The packed environment as JSON: \<^verbatim>\<open>Marshal\<close> writes the keys of a map in order, \<^verbatim>\<open>Unmarshal\<close> adds its
  members one by one, null as the empty text.\<close>

definition enc_env :: "env \<Rightarrow> json" where
  "enc_env m = JObj (map (\<lambda>k. (k, JStr (env_value m k))) (sortedKeys m))"

definition env_members :: "(string \<times> json) list \<Rightarrow> env \<times> bool" where
  "env_members ms = foldl (\<lambda>(e, ok) (k, j). let (v, ok') = dec_str j [] in (set_env k v e, ok \<and> ok')) ([], True) ms"

definition dec_env :: "json \<Rightarrow> env \<times> bool" where
  "dec_env = dec_struct env_members []"

text \<open>\<open>iter\<close> is the order of the range over the decoded map.\<close>

definition applyPackedEnv :: "(bytes \<Rightarrow> env result) \<Rightarrow> (env \<Rightarrow> env) \<Rightarrow> env \<Rightarrow> env" where
  "applyPackedEnv unmarshal iter e =
     (let b64 = env_value e ''HOPBOX_ENV64'' in
      if b64 = [] then e
      else case DecodeString b64 of
             None \<Rightarrow> e
           | Some raw \<Rightarrow> (case unmarshal raw of Inl _ \<Rightarrow> e | Inr m \<Rightarrow> foldl (\<lambda>e (k, v). Setenv k v e) e (iter m)))"

text \<open>What is mounted where, when anything is.\<close>

definition mountHome :: "(string \<Rightarrow> unit result) \<Rightarrow> (string \<Rightarrow> string \<Rightarrow> unit result) \<Rightarrow> env \<Rightarrow> (string \<times> string) option" where
  "mountHome mkdirAll mountDev e =
     (let dev = env_value e ''HOPBOX_HOME_DEV''; target = env_value e ''HOPBOX_HOME_MOUNT'' in
      if dev = [] \<or> target = [] then None
      else if \<not> is_ok (mkdirAll target) then None
      else if \<not> is_ok (mountDev dev target) then None
      else Some (dev, target))"

fun FieldsFunc_aux :: "(char \<Rightarrow> bool) \<Rightarrow> string \<Rightarrow> string \<Rightarrow> string list" where
  "FieldsFunc_aux p acc [] = (if acc = [] then [] else [rev acc])"
| "FieldsFunc_aux p acc (c # cs) =
     (if p c then (if acc = [] then FieldsFunc_aux p [] cs else rev acc # FieldsFunc_aux p [] cs)
      else FieldsFunc_aux p (c # acc) cs)"

definition FieldsFunc :: "(char \<Rightarrow> bool) \<Rightarrow> string \<Rightarrow> string list" where
  "FieldsFunc p s = FieldsFunc_aux p [] s"

definition resolv_conf :: "string \<Rightarrow> string" where
  "resolv_conf spec = concat (map (\<lambda>ns. ''nameserver '' @ ns @ [CHR 0x0A])
     (FieldsFunc (\<lambda>r. r = CHR '' '' \<or> r = CHR '','' \<or> r = CHR 0x09 \<or> r = CHR 0x0A) spec))"

text \<open>The text of \<^verbatim>\<open>/etc/resolv.conf\<close> afterwards (None: there is no such file).\<close>

definition ensureDNS :: "unit result \<Rightarrow> unit result \<Rightarrow> env \<Rightarrow> string option \<Rightarrow> string option" where
  "ensureDNS removed wrote e f =
     (let spec = env_value e ''HOPBOX_DNS'' in
      if spec = [] then f
      else if resolv_conf spec = [] then f
      else let f1 = (if is_ok removed then None else f) in
           if is_ok wrote then Some (resolv_conf spec) else f1)"

text \<open>The load, and what the heartbeat sends; \<open>parseFloat\<close> is the value that \<^verbatim>\<open>strconv.ParseFloat\<close> returns
  (also beside an error) and \<open>show_g\<close> the verb \<^verbatim>\<open>%g\<close>.\<close>

definition loadAvg1 :: "(string \<Rightarrow> string result) \<Rightarrow> (string \<Rightarrow> 'f :: zero) \<Rightarrow> 'f" where
  "loadAvg1 readFile parseFloat =
     (case readFile ''/proc/loadavg'' of
        Inl _ \<Rightarrow> 0
      | Inr b \<Rightarrow> (case Fields b of [] \<Rightarrow> 0 | f # _ \<Rightarrow> parseFloat f))"

record heartbeat_request =
  hq_URL :: string
  hq_Body :: string
  hq_ContentType :: string

definition heartbeat :: "('f \<Rightarrow> string) \<Rightarrow> 'f \<Rightarrow> string \<Rightarrow> heartbeat_request" where
  "heartbeat show_g load base =
     \<lparr> hq_URL = base @ ''/v1/me/heartbeat'', hq_Body = ''{'' @ [CHR 0x22] @ ''load'' @ [CHR 0x22] @ '':'' @ show_g load @ ''}'',
       hq_ContentType = ''application/json'' \<rparr>"

record ('k, 's) agent_started =
  as_env :: env
  as_home :: "(string \<times> string) option"
  as_resolv :: "string option"
  as_addr :: string
  as_handshake :: handshake
  as_ssh :: "('k, 's) agentssh_config"
  as_heartbeat :: "string option"

text \<open>The start of \<^verbatim>\<open>main\<close>, up to the connection loop (None: the agent ends because its address or token is
  missing). \<open>ssh\<close> is \<^const>\<open>loadSSHConfig\<close> on the environment.\<close>

record agent_os =
  ao_unmarshal :: "bytes \<Rightarrow> env result"
  ao_iter :: "env \<Rightarrow> env"
  ao_mkdirAll :: "string \<Rightarrow> unit result"
  ao_mountDev :: "string \<Rightarrow> string \<Rightarrow> unit result"
  ao_removed :: "unit result"
  ao_wrote :: "unit result"
  ao_resolv :: "string option"

definition agent_start :: "agent_os \<Rightarrow> ((string \<Rightarrow> string) \<Rightarrow> ('k, 's) agentssh_config) \<Rightarrow> env \<Rightarrow> ('k, 's) agent_started option" where
  "agent_start os ssh e0 =
     (let e = applyPackedEnv (ao_unmarshal os) (ao_iter os) e0;
          home = mountHome (ao_mkdirAll os) (ao_mountDev os) e;
          resolv = ensureDNS (ao_removed os) (ao_wrote os) e (ao_resolv os);
          addr = env_value e ''HOPBOX_CONTROL_ADDR'';
          token = env_value e ''HOPBOX_AGENT_TOKEN'';
          wsID = env_value e ''HOPBOX_WORKSPACE_ID'';
          meta = env_value e ''BOX_META''
      in if addr = [] \<or> token = [] then None
         else Some \<lparr> as_env = e, as_home = home, as_resolv = resolv, as_addr = addr,
                as_handshake = \<lparr> hs_WorkspaceID = wsID, hs_Token = token \<rparr>, as_ssh = ssh (env_value e),
                as_heartbeat = (if meta = [] then None else Some meta) \<rparr>)"

section \<open>The connection\<close>

text \<open>A session ends with the error of its accept loop, after the streams that were accepted.\<close>

definition serveSession :: "(bytes \<Rightarrow> open_frame result) \<Rightarrow> bytes list \<Rightarrow> err \<Rightarrow> (agent_handler \<times> bytes) option list \<times> err" where
  "serveSession unmarshal streams ending = (map (handleStream unmarshal) streams, ending)"

definition connectAndServe :: "(string \<Rightarrow> writer result) \<Rightarrow> (handshake \<Rightarrow> bytes result) \<Rightarrow> (writer \<Rightarrow> (bytes list \<times> err) result) \<Rightarrow>
    (bytes \<Rightarrow> open_frame result) \<Rightarrow> string \<Rightarrow> handshake \<Rightarrow> (agent_handler \<times> bytes) option list \<times> err" where
  "connectAndServe dial mHandshake mux uOpen addr hs =
     (case dial addr of
        Inl e \<Rightarrow> ([], e)
      | Inr conn \<Rightarrow>
          (case writeFrame mHandshake hs conn of
             (Inl e, _) \<Rightarrow> ([], e)
           | (Inr _, conn1) \<Rightarrow>
               (case mux conn1 of
                  Inl e \<Rightarrow> ([], e)
                | Inr (streams, ending) \<Rightarrow> serveSession uOpen streams ending)))"

section \<open>Running a command\<close>

text \<open>The pump of the controller's input to the command: the pieces that the pipe took, \<open>takes\<close> saying
  whether it takes a piece after those before it. It ends at the close frame, at the end of the stream
  or when the pipe breaks, and then the pipe is closed; whether it ended at a close frame is kept too.\<close>

function stdin_pump :: "(bytes list \<Rightarrow> bytes \<Rightarrow> bool) \<Rightarrow> bytes list \<Rightarrow> bytes \<Rightarrow> bytes list \<times> bool" where
  "stdin_pump takes got r =
     (case ReadExecFrame r of
        (Inl _, _) \<Rightarrow> (got, False)
      | (Inr (ty, data, _), r') \<Rightarrow>
          (if ty = ExecStdin then (if takes got data then stdin_pump takes (got @ [data]) r' else (got, False))
           else if ty = ExecStdinClose then (got, True)
           else stdin_pump takes got r'))"
  by pat_completeness auto

termination
  by (relation "measure (\<lambda>(a, d, r). length r)") (auto dest: ReadExecFrame_shrinks [OF sym] ReadExecFrame_shrinks)

declare stdin_pump.simps [simp del]

text \<open>A process that was started: from its input, its writes on the two output streams in the order they
  are made (True: on standard error) and how it ends.\<close>

record exec_run =
  xr_Writes :: "(bool \<times> bytes) list"
  xr_End :: proc_end

type_synonym proc = "bytes list \<Rightarrow> exec_run"

definition out_frames :: "(bool \<times> bytes) list \<Rightarrow> (8 word \<times> bytes) list" where
  "out_frames = map (\<lambda>(err, b). (if err then ExecStderr else ExecStdout, b))"

definition handleExec :: "(bytes \<Rightarrow> exec_header result) \<Rightarrow> string list \<Rightarrow> unit result \<Rightarrow> (string list \<Rightarrow> string list \<Rightarrow> proc result) \<Rightarrow>
    (bytes list \<Rightarrow> bytes \<Rightarrow> bool) \<Rightarrow> bytes \<Rightarrow> writer \<Rightarrow> writer" where
  "handleExec unmarshal environ pipe start takes stream w =
     (case readFrame unmarshal stream of
        (Inl _, _) \<Rightarrow> w
      | (Inr hdr, rest) \<Rightarrow>
          if eh_Cmd hdr = [] then snd (WriteExecExit 2 w)
          else if \<not> is_ok pipe then snd (WriteExecExit 126 w)
          else case start (eh_Cmd hdr) (environ @ [''TERM=dumb'']) of
                 Inl e \<Rightarrow> snd (WriteExecExit 127 (snd (WriteExecData ExecStderr (str_bytes (''hopbox-agent: '' @ err_text e @ [CHR 0x0A])) w)))
               | Inr run \<Rightarrow>
                   (let x = run (fst (stdin_pump takes [] rest)) in
                    snd (WriteExecExit (word_of_int (exitCode (xr_End x))) (agent_output (out_frames (xr_Writes x)) w))))"

section \<open>Forwards and shells\<close>

text \<open>The address that is dialled in the box, what the service is sent and what it sends back; None when the
  stream is closed without a service.\<close>

definition handleForward :: "(bytes \<Rightarrow> forward_header result) \<Rightarrow> (string \<Rightarrow> (bytes \<Rightarrow> bytes) result) \<Rightarrow> bytes \<Rightarrow> (string \<times> bytes \<times> bytes) option" where
  "handleForward unmarshal dial stream =
     (case readFrame unmarshal stream of
        (Inl _, _) \<Rightarrow> None
      | (Inr hdr, rest) \<Rightarrow>
          (let addr = ''127.0.0.1:'' @ show_nat (unat (fh_Port hdr)) in
           case dial addr of Inl _ \<Rightarrow> None | Inr service \<Rightarrow> Some (addr, rest, service rest)))"

record winsize =
  ws_Cols :: "16 word"
  ws_Rows :: "16 word"

definition shell_size :: "shell_header \<Rightarrow> winsize" where
  "shell_size hdr = (if sh_Cols hdr = 0 then \<lparr> ws_Cols = 80, ws_Rows = 24 \<rparr> else \<lparr> ws_Cols = sh_Cols hdr, ws_Rows = sh_Rows hdr \<rparr>)"

text \<open>The command that is started on a terminal, with its size, what is typed into it and what it prints.\<close>

definition handleShell :: "(bytes \<Rightarrow> shell_header result) \<Rightarrow> (string \<Rightarrow> bool) \<Rightarrow> string list \<Rightarrow>
    (shell_command \<Rightarrow> winsize \<Rightarrow> (bytes \<Rightarrow> bytes) result) \<Rightarrow> bytes \<Rightarrow> (shell_command \<times> winsize \<times> bytes \<times> bytes) option" where
  "handleShell unmarshal isDir environ ptyStart stream =
     (case readFrame unmarshal stream of
        (Inl _, _) \<Rightarrow> None
      | (Inr hdr, rest) \<Rightarrow>
          (let cmd = buildCommand isDir environ (sh_Cmd hdr); sz = shell_size hdr in
           case ptyStart cmd sz of Inl _ \<Rightarrow> None | Inr tty \<Rightarrow> Some (cmd, sz, rest, tty rest)))"

section \<open>The environment of a microVM\<close>

lemma env_value_set_env: "env_value (set_env k v e) j = (if j = k then v else env_value e j)"
proof -
  have u: "map_of (map (\<lambda>(a, b). if a = k then (a, v) else (a, b)) e) j = (if j = k then (if k \<in> fst ` set e then Some v else None) else map_of e j)"
    by (induction e) (force simp: image_iff)+
  show ?thesis
  proof (cases "k \<in> fst ` set e")
    case True
    with u show ?thesis by (simp add: env_value_def set_env_def)
  next
    case False
    then have "map_of e k = None" by (simp add: map_of_eq_None_iff)
    with False show ?thesis by (auto simp: env_value_def set_env_def map_add_def split: option.splits)
  qed
qed

lemma set_env_distinct:
  assumes "distinct (map fst e)"
  shows "distinct (map fst (set_env k v e))"
proof (cases "k \<in> fst ` set e")
  case True
  have "map (fst \<circ> (\<lambda>(a, b). if a = k then (a, v) else (a, b))) e = map fst e" by (induction e) auto
  with True have "map fst (set_env k v e) = map fst e" by (simp only: set_env_def if_True map_map)
  with assms show ?thesis by simp
qed (use assms in \<open>simp add: set_env_def\<close>)

lemma vm_env_distinct: "distinct (map fst (pr_Env r)) \<Longrightarrow> distinct (map fst (fst (vm_env r)))"
  by (simp add: vm_env_def set_env_distinct Let_def split: option.split)

text \<open>The environment that is read back: the entries in the order of their keys.\<close>

lemma env_members_strings:
  assumes "distinct (map fst e @ ks)"
  shows "foldl (\<lambda>(e, ok) (k, j). let (v, ok') = dec_str j [] in (set_env k v e, ok \<and> ok')) (e, True) (map (\<lambda>k. (k, JStr (f k))) ks) =
    (e @ map (\<lambda>k. (k, f k)) ks, True)"
  using assms
proof (induction ks arbitrary: e)
  case (Cons k ks)
  then have "set_env k (f k) e = e @ [(k, f k)]" by (simp add: set_env_def)
  with Cons show ?case by simp
qed simp

lemma env_roundtrip:
  assumes "distinct (map fst m)" "\<forall>(k, v) \<in> set m. valid_utf8 k \<and> valid_utf8 v"
  shows "Unmarshal dec_env (str_bytes (json_show (enc_env m))) = Inr (map (\<lambda>k. (k, env_value m k)) (sortedKeys m))"
proof -
  have v: "valid_utf8 k \<and> valid_utf8 (env_value m k)" if "k \<in> set (sortedKeys m)" for k
    using that assms by (auto simp: sortedKeys_def env_value_def)
  have fx: "json_fix (enc_env m) = enc_env m" using v by (simp add: enc_env_def to_valid_id)
  have "json_depth (JObj (map (\<lambda>k. (k, JStr (f k))) ks)) = 1" "json_ints (JObj (map (\<lambda>k. (k, JStr (f k))) ks))" for f ks
    by (induction ks) simp_all
  then have "json_parse (json_show (enc_env m)) = Some (enc_env m)"
    using json_parse_show [of "enc_env m"] fx unfolding enc_env_def by simp
  moreover have "dec_env (enc_env m) = (map (\<lambda>k. (k, env_value m k)) (sortedKeys m), True)"
    using env_members_strings [of "[]" "sortedKeys m" "env_value m"] assms(1)
    by (simp add: dec_env_def dec_struct_def enc_env_def env_members_def sortedKeys_def)
  ultimately show ?thesis by (simp add: Unmarshal_def Unmarshal_text_def)
qed

lemma map_of_sortedKeys: "map_of (map (\<lambda>k. (k, env_value m k)) (sortedKeys m)) = map_of m"
proof
  fix k
  show "map_of (map (\<lambda>k. (k, env_value m k)) (sortedKeys m)) k = map_of m k"
  proof (cases "k \<in> fst ` set m")
    case True
    then obtain v where "map_of m k = Some v" by (meson map_of_eq_None_iff not_None_eq)
    with True show ?thesis by (simp add: map_of_map_keys map_of_map_restrict sortedKeys_def env_value_def)
  next
    case False
    then have "map_of m k = None" by (simp add: map_of_eq_None_iff)
    with False show ?thesis by (simp add: map_of_map_restrict sortedKeys_def)
  qed
qed

text \<open>Setting the entries of a map, in any order, leaves every one of them that can be set.\<close>

lemma Setenv_all:
  assumes "distinct (map fst m)" "map_of m k = Some v" "env_name_ok k" "CHR 0x00 \<notin> set v"
  shows "env_value (foldl (\<lambda>e (k, v). Setenv k v e) e m) k = v"
  using assms
proof (induction m arbitrary: e)
  case (Cons x m)
  obtain a b where x: "x = (a, b)" by fastforce
  have other: "env_value (foldl (\<lambda>e (k, v). Setenv k v e) e0 m) k = env_value e0 k" if "k \<notin> fst ` set m" for e0
    using that by (induction m arbitrary: e0) (auto simp: Setenv_def env_value_set_env)
  show ?case
  proof (cases "a = k")
    case True
    with Cons.prems x have "b = v" "k \<notin> fst ` set m" by auto
    with other True x Cons.prems(3,4) show ?thesis by (simp add: Setenv_def env_value_set_env)
  next
    case False
    with Cons x show ?thesis by simp
  qed
qed simp

lemma EncodeToString_length: "length (EncodeToString bs) = 4 * ((length bs + 2) div 3)"
proof (induction bs rule: EncodeToString.induct)
  case (4 a b c bs)
  have "(length (a # b # c # bs) + 2) div 3 = Suc ((length bs + 2) div 3)" by simp
  with 4 show ?case by (simp add: Let_def)
qed (simp_all add: Let_def)

text \<open>What the kernel documents of its command line: a word of the form name=value that it does not know itself is
  an environment variable of the first process, the last of several with one name counting, as long as the
  line is within its limit, has no quotes, and no double dash before the word.\<close>

definition kernel_passes :: "(string \<Rightarrow> env) \<Rightarrow> string \<Rightarrow> bool" where
  "kernel_passes init k \<longleftrightarrow> (\<forall>args pre v post. length args < 2048 \<and> CHR 0x22 \<notin> set args \<and>
     Split (CHR '' '') args = pre @ (k @ ''='' @ v) # post \<and> ''--'' \<notin> set pre \<and> \<not> list_ex (\<lambda>w. HasPrefix w (k @ ''='')) post \<longrightarrow>
     env_value (init args) k = v)"

definition packed_env :: "(env \<Rightarrow> bytes result) \<Rightarrow> env \<Rightarrow> string result" where
  "packed_env marshal e = map_sum id EncodeToString (marshal e)"

lemma ipBootArg_no_blank:
  "CHR '' '' \<notin> set ip \<Longrightarrow> CHR '' '' \<notin> set gw \<Longrightarrow> CHR '' '' \<notin> set (ipBootArg ip gw nc_netmask)"
  by (simp add: ipBootArg_def nc_netmask_def)

lemma inline_env_eq: "w \<in> set (inline_env m) \<Longrightarrow> CHR ''='' \<in> set w"
  by (auto simp: inline_env_def)

text \<open>The boot line of a machine, split at its blanks.\<close>

lemma vm_boot_words:
  assumes "CHR '' '' \<notin> set ip" "CHR '' '' \<notin> set (nc_gateway (vn_cfg (mp_net p)))"
    and "\<forall>k \<in> fst ` set (fst (vm_env r)). CHR '' '' \<notin> set k" "marshal (fst (vm_env r)) = Inr blob" "fst (vm_env r) \<noteq> []"
  shows "\<exists>pre. Split (CHR '' '') (fb_BootArgs (fc_BootSource (vm_config (packed_env marshal) p r rootfs ip tap))) =
      pre @ [''HOPBOX_ENV64='' @ EncodeToString blob] \<and> ''--'' \<notin> set pre"
proof -
  let ?ip = "ipBootArg ip (nc_gateway (vn_cfg (mp_net p))) nc_netmask"
  let ?s = "\<lparr> vs_KernelPath = mp_kernel p, vs_RootfsPath = rootfs, vs_VcpuCount = vcpusFromMillis (pr_CPUMillis r),
        vs_MemMB = pr_MemMB r, vs_BootArgs = DefaultBootArgs @ '' '' @ ?ip,
        vs_TapDev = tap, vs_GuestMAC = macFromIP ip, vs_Init = vmInit, vs_Env = fst (vm_env r), vs_HomeDrive = snd (vm_env r) \<rparr>"
  have c: "vm_config (packed_env marshal) p r rootfs ip tap = buildConfig (packed_env marshal) ?s"
    by (simp add: vm_config_def Let_def split: prod.splits)
  have ip: "Split (CHR '' '') ?ip = [?ip]" using ipBootArg_no_blank assms(1,2) by (simp add: Split_no_sep)
  have a: "Split (CHR '' '') (DefaultBootArgs @ '' '' @ ?ip) = Split (CHR '' '') DefaultBootArgs @ [?ip]"
    using ip by (simp add: Split_append)
  have d: "''--'' \<notin> set (Split (CHR '' '') DefaultBootArgs)" by code_simp
  have n: "?ip \<noteq> ''--''" "''--'' \<notin> set (inline_env m)" for m
    using inline_env_eq [of "''--''" m] by (auto simp: ipBootArg_def)
  have e: "CHR '' '' \<notin> set (EncodeToString blob)" using EncodeToString_chars [of "CHR '' ''" blob] by auto
  have i: "CHR '' '' \<notin> set vmInit" "vmInit \<noteq> []" by code_simp+
  have w: "Split (CHR '' '') (fb_BootArgs (fc_BootSource (buildConfig (packed_env marshal) ?s))) =
     (Split (CHR '' '') (DefaultBootArgs @ '' '' @ ?ip) @ [''init='' @ vmInit] @ inline_env (fst (vm_env r))) @ [''HOPBOX_ENV64='' @ EncodeToString blob]"
    using boot_args_words [of ?s "packed_env marshal" "EncodeToString blob"] assms(3-5) e i by (simp add: packed_env_def)
  show ?thesis unfolding c w a by (rule exI, rule conjI, rule refl) (use d n in auto)
qed

lemma vm_env_nonempty: "fst (vm_env r) \<noteq> []"
  by (auto simp: vm_env_def set_env_def Let_def split: option.splits)

lemma vm_config_args:
  assumes "marshal (fst (vm_env r)) = Inr blob"
  shows "fb_BootArgs (fc_BootSource (vm_config (packed_env marshal) p r rootfs ip tap)) =
    (DefaultBootArgs @ '' '' @ ipBootArg ip (nc_gateway (vn_cfg (mp_net p))) nc_netmask) @ '' init='' @ vmInit @
    concat (map (\<lambda>t. '' '' @ t) (inline_env (fst (vm_env r)))) @ '' HOPBOX_ENV64='' @ EncodeToString blob"
proof -
  have "vmInit \<noteq> []" by (simp add: vmInit_def)
  then show ?thesis using assms vm_env_nonempty [of r]
    by (auto simp: vm_config_def buildConfig_def boot_args_def packed_env_def Let_def split: prod.splits)
qed


text \<open>A first process's environment that follows the kernel's rule, and a box with a home image.\<close>

definition demo_init :: "string \<Rightarrow> env" where
  "demo_init args = rev (map (\<lambda>w. (takeWhile (\<lambda>c. c \<noteq> CHR ''='') w, drop 1 (dropWhile (\<lambda>c. c \<noteq> CHR ''='') w)))
     (filter (\<lambda>w. CHR ''='' \<in> set w) (Split (CHR '' '') args)))"

lemma demo_init_passes:
  assumes "CHR ''='' \<notin> set k"
  shows "kernel_passes demo_init k"
  unfolding kernel_passes_def
proof (intro allI impI)
  fix args pre v post
  assume a: "length args < 2048 \<and> CHR 0x22 \<notin> set args \<and> Split (CHR '' '') args = pre @ (k @ ''='' @ v) # post \<and>
    ''--'' \<notin> set pre \<and> \<not> list_ex (\<lambda>w. HasPrefix w (k @ ''='')) post"
  let ?f = "\<lambda>w. (takeWhile (\<lambda>c. c \<noteq> CHR ''='') w, drop 1 (dropWhile (\<lambda>c. c \<noteq> CHR ''='') w))"
  let ?g = "\<lambda>ws. rev (map ?f (filter (\<lambda>w. CHR ''='' \<in> set w) ws))"
  have "k \<notin> fst ` set (?g post)"
  proof
    assume "k \<in> fst ` set (?g post)"
    then obtain w where w: "w \<in> set post" "CHR ''='' \<in> set w" "k = takeWhile (\<lambda>c. c \<noteq> CHR ''='') w" by auto
    from split_list_first [OF w(2)] obtain b u where "w = b @ CHR ''='' # u" "CHR ''='' \<notin> set b" by blast
    with w(3) have "w = k @ CHR ''='' # u" by (simp add: takeWhile_sep)
    with w(1) a show False by (auto simp: list_ex_iff HasPrefix_iff)
  qed
  then have n: "map_of (?g post) k = None" by (simp add: map_of_eq_None_iff)
  have f: "?f (k @ ''='' @ v) = (k, v)" using assms by (simp add: takeWhile_sep dropWhile_sep)
  have "demo_init args = ?g post @ (k, v) # ?g pre" using a f by (simp add: demo_init_def)
  with n show "env_value (demo_init args) k = v" by (simp add: env_value_def map_add_def)
qed

definition demo_home :: mount where
  "demo_home = \<lparr> mt_Source = ''/homes/b1.ext4'', mt_Target = ''/home/dev'', mt_ReadOnly = False, mt_Device = True \<rparr>"

definition demo_vm_req :: provision_request where
  "demo_vm_req = \<lparr> pr_WorkspaceID = ''b1'', pr_ImageRef = ''base'', pr_MemMB = 512, pr_CPUMillis = 1000, pr_GuestBin = [],
     pr_Mounts = [demo_home], pr_Env = [(''HOPBOX_TRUSTED_USER_CA'', ''ssh-ed25519 AAAA'')],
     pr_Agent = \<lparr> ai_ImageRef = [], ai_BinaryPath = [], ai_TargetPath = [], ai_HostBinaryPath = [] \<rparr> \<rparr>"


end
