(* ===== verification/Cli.thy ===== *)
theory Cli
  imports Agent_Main Providers
begin

text \<open>
  The command line client, \<^verbatim>\<open>cmd/hopbox\<close>: the login that trades a key for a certificate, the OpenSSH
  configuration it writes, and the client ends of the exec, shell and proxy streams. Files are a map from
  paths to texts; what the operating system, the terminal and the service answer are parameters.
\<close>

section \<open>Arguments\<close>

definition parseExpose :: "string \<Rightarrow> (string \<times> int) result" where
  "parseExpose s =
     (let (name, portStr, ok) = Cut (CHR '':'') s in
      if \<not> ok \<or> name = [] \<or> portStr = []
      then Inl (Errorf (''invalid --expose '' @ quoted s @ '', want name:port (e.g. app:3000)''))
      else case Atoi portStr of
             None \<Rightarrow> Inl (Errorf (''invalid port in --expose '' @ quoted s))
           | Some port \<Rightarrow>
               if port \<le> 0 then Inl (Errorf (''invalid port in --expose '' @ quoted s))
               else Inr (name, sint (word_of_int port :: 32 word)))"

fun parse_exposes :: "string list \<Rightarrow> (string \<times> int) list result" where
  "parse_exposes [] = Inr []"
| "parse_exposes (e # es) =
     (case parseExpose e of Inl x \<Rightarrow> Inl x
      | Inr p \<Rightarrow> (case parse_exposes es of Inl x \<Rightarrow> Inl x | Inr ps \<Rightarrow> Inr (p # ps)))"

text \<open>\<^verbatim>\<open>hopbox create\<close>, \<^verbatim>\<open>ls\<close> and \<^verbatim>\<open>rm\<close>: the calls and what is printed. \<open>call\<close> is the service's answer.\<close>

definition create_cmd :: "unit result \<Rightarrow> (string \<Rightarrow> string \<Rightarrow> int \<Rightarrow> (string \<times> int) list \<Rightarrow> (string \<times> string \<times> string) result) \<Rightarrow>
    string \<Rightarrow> int \<Rightarrow> string list \<Rightarrow> string \<Rightarrow> string result" where
  "create_cmd dialed call img mem expose name =
     rbind (parse_exposes expose) (\<lambda>ingress.
     rbind dialed (\<lambda>_.
     rbind (call name img mem ingress) (\<lambda>(n, i, ph).
       Inr (''created '' @ n @ '' ('' @ i @ '') phase='' @ ph @ [CHR 0x0A]))))"

definition list_row :: "string \<Rightarrow> string \<Rightarrow> bool \<Rightarrow> string \<Rightarrow> string list \<Rightarrow> string \<Rightarrow> string list" where
  "list_row name ph agent img urls i =
     (let eps = Join (CHR '','') urls in
      [name, ph, if agent then ''true'' else ''false'', img, if eps = [] then ''-'' else eps, i])"

definition rm_cmd :: "unit result \<Rightarrow> (string \<Rightarrow> unit result) \<Rightarrow> string \<Rightarrow> string result" where
  "rm_cmd dialed call name = rbind dialed (\<lambda>_. rbind (call name) (\<lambda>_. Inr (''destroying '' @ name @ [CHR 0x0A])))"

definition exec_args :: "string list \<Rightarrow> (string \<times> string list) result" where
  "exec_args args =
     (let name = hd args; command = tl args;
          command' = (if command \<noteq> [] \<and> hd command = ''--'' then tl command else command)
      in if command' = [] then Inl (Errorf ''a command is required'') else Inr (name, command'))"

text \<open>The arguments of the wrapper around ssh: a user that is asked for, and the rest.\<close>

fun ssh_user_args :: "string list \<Rightarrow> string \<Rightarrow> string \<times> string list" where
  "ssh_user_args [] u = (u, [])"
| "ssh_user_args [a] u = (u, [a])"
| "ssh_user_args (a # b # rest) u =
     (if a = ''--user'' then ssh_user_args rest b
      else (let (u', r) = ssh_user_args (b # rest) u in (u', a # r)))"

section \<open>Files and credentials\<close>

type_synonym cli_fs = "string \<rightharpoonup> string"

text \<open>A write that fails leaves anything in the file it was writing.\<close>

record cli_os =
  co_home :: "string result"
  co_mkdirAll :: "string \<Rightarrow> unit result"
  co_write :: "string \<Rightarrow> (err \<times> string option) option"
  co_executable :: "string result"
  co_readErr :: "string \<Rightarrow> err option"

definition os_WriteFile :: "cli_os \<Rightarrow> string \<Rightarrow> string \<Rightarrow> cli_fs \<Rightarrow> unit result \<times> cli_fs" where
  "os_WriteFile os p s fs = (case co_write os p of Some (e, rest) \<Rightarrow> (Inl e, fs(p := rest)) | None \<Rightarrow> (Inr (), fs(p \<mapsto> s)))"

definition os_ErrNotExist :: err where "os_ErrNotExist = Errorf ''file does not exist''"

definition os_ReadFile :: "cli_os \<Rightarrow> string \<Rightarrow> cli_fs \<Rightarrow> string result" where
  "os_ReadFile os p fs =
     (case fs p of None \<Rightarrow> Inl os_ErrNotExist | Some s \<Rightarrow> (case co_readErr os p of Some e \<Rightarrow> Inl e | None \<Rightarrow> Inr s))"

definition hopboxDir :: "cli_os \<Rightarrow> string result" where
  "hopboxDir os =
     rbind (co_home os) (\<lambda>home. let d = path_Join [home, ''.hopbox''] in rbind (co_mkdirAll os d) (\<lambda>_. Inr d))"

definition identityKeyPath :: "cli_os \<Rightarrow> string result" where
  "identityKeyPath os = rbind (hopboxDir os) (\<lambda>d. Inr (path_Join [d, ''id_ed25519'']))"

definition read_trimmed :: "cli_os \<Rightarrow> string \<Rightarrow> cli_fs \<Rightarrow> string" where
  "read_trimmed os file fs =
     (case hopboxDir os of
        Inl _ \<Rightarrow> []
      | Inr d \<Rightarrow> TrimSpace (case os_ReadFile os (path_Join [d, file]) fs of Inl _ \<Rightarrow> [] | Inr b \<Rightarrow> b))"

definition readPrincipal :: "cli_os \<Rightarrow> cli_fs \<Rightarrow> string" where
  "readPrincipal os = read_trimmed os ''principal''"

definition readToken :: "cli_os \<Rightarrow> cli_fs \<Rightarrow> string" where
  "readToken os = read_trimmed os ''token''"

text \<open>The metadata that every call carries.\<close>

definition GetRequestMetadata :: "string \<Rightarrow> string \<Rightarrow> string list" where
  "GetRequestMetadata token key = (if key = ''authorization'' then [''Bearer '' @ token] else [])"

definition dial_metadata :: "cli_os \<Rightarrow> cli_fs \<Rightarrow> string \<Rightarrow> string list" where
  "dial_metadata os fs = (let tok = readToken os fs in if tok = [] then (\<lambda>_. []) else GetRequestMetadata tok)"

text \<open>A new key pair: the private key's text, and the line of the public key.\<close>

definition generateIdentity :: "cli_os \<Rightarrow> (string \<times> string result) result \<Rightarrow> string \<Rightarrow> cli_fs \<Rightarrow> unit result \<times> cli_fs" where
  "generateIdentity os key path fs =
     (case key of
        Inl e \<Rightarrow> (Inl e, fs)
      | Inr (pem, signer) \<Rightarrow>
          (case os_WriteFile os path pem fs of
             (Inl e, fs1) \<Rightarrow> (Inl e, fs1)
           | (Inr _, fs1) \<Rightarrow>
               (case signer of
                  Inl e \<Rightarrow> (Inl e, fs1)
                | Inr pub \<Rightarrow> os_WriteFile os (path @ ''.pub'') pub fs1)))"

text \<open>\<^verbatim>\<open>hopbox login\<close>. \<open>issue\<close> is the service's answer to a call with some metadata: the certificate and the
  principal.\<close>

definition login_token :: "cli_os \<Rightarrow> string \<Rightarrow> cli_fs \<Rightarrow> unit result \<times> cli_fs" where
  "login_token os token fs =
     (if token = [] then (Inr (), fs)
      else case hopboxDir os of Inl e \<Rightarrow> (Inl e, fs) | Inr d \<Rightarrow> os_WriteFile os (path_Join [d, ''token'']) token fs)"

definition login_key :: "cli_os \<Rightarrow> (string \<times> string result) result \<Rightarrow> string \<Rightarrow> cli_fs \<Rightarrow> unit result \<times> cli_fs" where
  "login_key os key keyPath fs = (if fs keyPath = None then generateIdentity os key keyPath fs else (Inr (), fs))"

definition login :: "cli_os \<Rightarrow> (string \<times> string result) result \<Rightarrow> ((string \<Rightarrow> string list) \<Rightarrow> string \<Rightarrow> (string \<times> string) result) \<Rightarrow>
    unit result \<Rightarrow> string \<Rightarrow> cli_fs \<Rightarrow> unit result \<times> cli_fs" where
  "login os key issue dialed token fs =
     (case login_token os token fs of
        (Inl e, fs1) \<Rightarrow> (Inl e, fs1)
      | (Inr _, fs1) \<Rightarrow>
     (case identityKeyPath os of
        Inl e \<Rightarrow> (Inl e, fs1)
      | Inr keyPath \<Rightarrow>
     (case login_key os key keyPath fs1 of
        (Inl e, fs2) \<Rightarrow> (Inl e, fs2)
      | (Inr _, fs2) \<Rightarrow>
     (case os_ReadFile os (keyPath @ ''.pub'') fs2 of
        Inl e \<Rightarrow> (Inl (Wrapf ''read public key: '' e), fs2)
      | Inr pubLine \<Rightarrow>
     (case dialed of
        Inl e \<Rightarrow> (Inl e, fs2)
      | Inr _ \<Rightarrow>
     (case issue (dial_metadata os fs2) pubLine of
        Inl e \<Rightarrow> (Inl e, fs2)
      | Inr (certificate, pl) \<Rightarrow>
     (case os_WriteFile os (keyPath @ ''-cert.pub'') certificate fs2 of
        (Inl e, fs3) \<Rightarrow> (Inl e, fs3)
      | (Inr _, fs3) \<Rightarrow>
          (Inr (), case hopboxDir os of Inl _ \<Rightarrow> fs3 | Inr d \<Rightarrow> snd (os_WriteFile os (path_Join [d, ''principal'']) pl fs3)))))))))"

section \<open>The OpenSSH configuration\<close>

definition include_line :: string where "include_line = ''Include hopbox/*.config''"

definition ensureInclude :: "cli_os \<Rightarrow> string \<Rightarrow> cli_fs \<Rightarrow> unit result \<times> cli_fs" where
  "ensureInclude os configPath fs =
     (case os_ReadFile os configPath fs of
        Inl e \<Rightarrow>
          if e \<noteq> os_ErrNotExist then (Inl e, fs)
          else os_WriteFile os configPath (include_line @ [CHR 0x0A, CHR 0x0A]) fs
      | Inr existing \<Rightarrow>
          if Contains existing include_line then (Inr (), fs)
          else os_WriteFile os configPath (include_line @ [CHR 0x0A, CHR 0x0A] @ existing) fs)"

definition cli_user :: "cli_os \<Rightarrow> string \<Rightarrow> cli_fs \<Rightarrow> string" where
  "cli_user os user fs =
     (if user \<noteq> [] then user else if readPrincipal os fs \<noteq> [] then readPrincipal os fs else ''dev'')"

definition cli_self :: "cli_os \<Rightarrow> string" where
  "cli_self os = (case co_executable os of Inl _ \<Rightarrow> ''hopbox'' | Inr s \<Rightarrow> if s = [] then ''hopbox'' else s)"

definition nl :: string where "nl = [CHR 0x0A]"

text \<open>The dash of the comment line is written as the three bytes of its encoding.\<close>

definition config_block :: "string \<Rightarrow> string \<Rightarrow> string \<Rightarrow> string \<Rightarrow> string \<Rightarrow> string \<Rightarrow> string" where
  "config_block name host user idPath self apiAddr =
     ''# managed by hopbox '' @ [CHR 0xE2, CHR 0x80, CHR 0x94] @ '' workspace '' @ quoted name @ '' (regenerate with: hopbox ssh-config '' @ name @ '')'' @ nl @
     ''Host '' @ host @ nl @
     ''    User '' @ user @ nl @
     ''    IdentityFile '' @ idPath @ nl @
     ''    IdentitiesOnly yes'' @ nl @
     ''    ProxyCommand '' @ quoted self @ '' proxy '' @ name @ '' --addr '' @ apiAddr @ nl @
     ''    StrictHostKeyChecking accept-new'' @ nl @
     ''    UserKnownHostsFile ~/.ssh/known_hosts'' @ nl"

definition ssh_config :: "cli_os \<Rightarrow> string \<Rightarrow> string \<Rightarrow> string \<Rightarrow> string \<Rightarrow> cli_fs \<Rightarrow> unit result \<times> cli_fs" where
  "ssh_config os apiAddr al user name fs =
     (let host = (if al = [] then name else al); u = cli_user os user fs; self = cli_self os in
      case identityKeyPath os of
        Inl e \<Rightarrow> (Inl e, fs)
      | Inr idPath \<Rightarrow>
     (case co_home os of
        Inl e \<Rightarrow> (Inl e, fs)
      | Inr home \<Rightarrow>
          (let sshDir = path_Join [home, ''.ssh''] in
           case co_mkdirAll os (path_Join [sshDir, ''hopbox'']) of
             Inl e \<Rightarrow> (Inl e, fs)
           | Inr _ \<Rightarrow>
          (case ensureInclude os (path_Join [sshDir, ''config'']) fs of
             (Inl e, fs1) \<Rightarrow> (Inl e, fs1)
           | (Inr _, fs1) \<Rightarrow>
               os_WriteFile os (path_Join [sshDir, ''hopbox'', host @ ''.config'']) (config_block name host u idPath self apiAddr) fs1))))"

text \<open>The command line of \<^verbatim>\<open>hopbox ssh\<close>.\<close>

definition ssh_command :: "cli_os \<Rightarrow> string \<Rightarrow> string list \<Rightarrow> cli_fs \<Rightarrow> string list result" where
  "ssh_command os apiAddr args fs =
     (let (u0, rest) = ssh_user_args args []; user = cli_user os u0 fs in
      case rest of
        [] \<Rightarrow> Inl (Errorf ''a workspace name is required'')
      | name # extra \<Rightarrow>
          (let self = cli_self os in
           Inr ([''ssh'', ''-o'', ''ProxyCommand='' @ quoted self @ '' proxy '' @ name @ '' --addr '' @ apiAddr, ''-o'', ''StrictHostKeyChecking=accept-new''] @
             (case identityKeyPath os of
                Inr idPath \<Rightarrow> if idPath \<noteq> [] then [''-o'', ''IdentityFile='' @ idPath, ''-o'', ''IdentitiesOnly=yes''] else []
              | Inl _ \<Rightarrow> []) @
             [user @ ''@'' @ name] @ extra)))"

section \<open>Streams\<close>

definition cliBuf :: nat where "cliBuf = 32768"

text \<open>The messages of the reads of standard input, each of at most the buffer.\<close>

definition exec_stdin :: "bytes list \<Rightarrow> exec_client_msg list" where
  "exec_stdin reads = map ExecStdinMsg (filter (\<lambda>b. b \<noteq> []) reads)"

text \<open>What the client printed and the code it ends with, when the messages end with the given error.\<close>

fun exec_recv :: "exec_server_msg list \<Rightarrow> err \<Rightarrow> bytes \<times> bytes \<times> int \<Rightarrow> (bytes \<times> bytes) \<times> int result" where
  "exec_recv [] ending (out, er, code) = ((out, er), if ending = ErrEOF then Inr code else Inl ending)"
| "exec_recv (MsgStdout d # ms) ending (out, er, code) = exec_recv ms ending (out @ d, er, code)"
| "exec_recv (MsgStderr d # ms) ending (out, er, code) = exec_recv ms ending (out, er @ d, code)"
| "exec_recv (MsgExitCode c # ms) ending (out, er, code) = exec_recv ms ending (out, er, sint c)"

text \<open>The shell and the proxy: raw bytes. A message of the service is data or an exit code; how the service
  ends the stream does not matter to the shell.\<close>

datatype shell_server_msg = ShellOut bytes | ShellExit "32 word"

definition shell_stdin :: "bytes list \<Rightarrow> shell_client_msg list" where
  "shell_stdin reads = map ShellData (filter (\<lambda>b. b \<noteq> []) reads)"

fun shell_pump :: "shell_server_msg list \<Rightarrow> bytes \<times> int \<Rightarrow> bytes \<times> int" where
  "shell_pump [] (out, code) = (out, code)"
| "shell_pump (ShellOut d # ms) (out, code) = shell_pump ms (out @ d, code)"
| "shell_pump (ShellExit c # ms) (out, code) = shell_pump ms (out, sint c)"

text \<open>The first message of a shell; \<open>tty\<close> is the size of the terminal, when there is one.\<close>

definition shell_open :: "(int \<times> int) option \<Rightarrow> string \<Rightarrow> shell_client_msg" where
  "shell_open tty name = (let (cols, rows) = (case tty of None \<Rightarrow> (80, 24) | Some s \<Rightarrow> s) in ShellOpen name [] (word_of_int cols) (word_of_int rows))"

definition shell_end :: "bytes \<times> int \<Rightarrow> unit result" where
  "shell_end x = (if snd x \<noteq> 0 then Inl (Errorf ''shell exited non-zero'') else Inr ())"

text \<open>The proxy copies until one of its directions ends.\<close>

definition proxy_end :: "err \<Rightarrow> unit result" where
  "proxy_end e = (if errors_Is e ErrEOF then Inr () else Inl e)"

section \<open>Lemmas\<close>

lemma exec_pump_frames:
  assumes "wr_err w = None" "\<forall>d \<in> set ds. length d \<le> maxFrame"
  shows "exec_pump (map ExecStdinMsg ds) w =
    w\<lparr>wr_out := wr_out w @ concat (map (exec_frame ExecStdin) ds) @ exec_frame ExecStdinClose []\<rparr>"
  using assms
proof (induction ds arbitrary: w)
  case Nil
  then show ?case by (simp add: WriteExecStdinClose_def Write_ok exec_frame_def)
next
  case (Cons d ds)
  then show ?case by (simp add: WriteExecData_ok)
qed

lemma exec_in_types [simp]: "ExecStdin \<noteq> ExecExit" "ExecStdinClose \<noteq> ExecExit" "ExecStdinClose \<noteq> ExecStdin"
  by (simp_all add: ExecStdin_def ExecStdinClose_def ExecExit_def)

lemma stdin_pump_frames:
  assumes "\<forall>d \<in> set ds. length d \<le> maxFrame"
  shows "stdin_pump (\<lambda>_ _. True) got (concat (map (exec_frame ExecStdin) ds) @ exec_frame ExecStdinClose [] @ r) = (got @ ds, True)"
  using assms
proof (induction ds arbitrary: got)
  case Nil
  have "ReadExecFrame (exec_frame ExecStdinClose [] @ r) = (Inr (ExecStdinClose, [], 0), r)" by (rule ReadExecFrame_frame) simp_all
  then show ?case by (simp add: stdin_pump.simps [of _ got])
next
  case (Cons d ds)
  let ?r = "concat (map (exec_frame ExecStdin) ds) @ exec_frame ExecStdinClose [] @ r"
  have "ReadExecFrame (exec_frame ExecStdin d @ ?r) = (Inr (ExecStdin, d, 0), ?r)" by (rule ReadExecFrame_frame) (use Cons.prems in simp_all)
  with Cons show ?case by (simp add: stdin_pump.simps [of _ got])
qed

lemma exec_recv_all:
  "exec_recv ms ErrEOF (out, er, code) = ((out @ stdout_of ms, er @ stderr_of ms), Inr code)" if "\<forall>c. MsgExitCode c \<notin> set ms"
  using that by (induction ms arbitrary: out er rule: stdout_of.induct) auto

lemma exec_recv_append: "exec_recv (ms @ [MsgExitCode c]) ErrEOF (out, er, code) = ((out @ stdout_of ms, er @ stderr_of ms), Inr (sint c))"
  by (induction ms arbitrary: out er code rule: stdout_of.induct) simp_all

lemma out_frames_types: "\<forall>(ty, p) \<in> set (out_frames ws). ty \<in> {ExecStdout, ExecStderr}"
  by (auto simp: out_frames_def)

lemma written_out_frames:
  "written ExecStdout (out_frames ws) = concat (map snd (filter (\<lambda>w. \<not> fst w) ws))"
  "written ExecStderr (out_frames ws) = concat (map snd (filter fst ws))"
  by (induction ws) (auto simp: written_def out_frames_def)

text \<open>A stream that was opened for a command can be written on.\<close>

lemma OpenExec_writable: "OpenExec opn mOpen mExec ws cmd h = Inr w \<Longrightarrow> wr_err w = None"
  unfolding OpenExec_def by (drule header_frame) auto

section \<open>Properties\<close>

text \<open>C10: a command from one end to the other. The client's arguments and everything it reads on its input, of
  any length, reach the program in the box: the service's pump and the hub's stream deliver the
  command to the agent's exec handler, which starts it with exactly the input the client read and
  closes it at the end. What the program writes on its two output streams, in any order and size,
  is what the client prints on its own, and the client ends with the program's exit code as a
  32-bit number, as long as the arguments are UTF-8 text (the frame's JSON would replace other bytes). A
  program that cannot be started ends the client with code 127 and the reason on
  its error output.\<close>

theorem exec_end_to_end:
  assumes fresh: "\<And>s w. opn s = Inr w \<Longrightarrow> wr_out w = []"
    and opened: "OpenExec opn (Marshal enc_open) (Marshal enc_exec) ws cmd h = Inr w" "cmd \<noteq> []" "list_all valid_utf8 cmd"
    and reads: "\<forall>d \<in> set reads. length d \<le> cliBuf"
    and sent: "exec_pump (exec_stdin reads) w = w1"
  shows "\<exists>rest. handleStream (Unmarshal dec_open) (wr_out w1) = Some (HandleExec, rest) \<and>
    (\<forall>run. start cmd (environ @ [''TERM=dumb'']) = Inr run \<longrightarrow>
       (let x = run (filter (\<lambda>b. b \<noteq> []) reads);
            out = handleExec (Unmarshal dec_exec) environ (Inr ()) start (\<lambda>_ _. True) rest \<lparr> wr_out = [], wr_err = None \<rparr> in
        \<exists>k. exec_relay (wr_out out) \<lparr> sk_sent = [], sk_err = None \<rparr> = (Inr (), k) \<and>
          exec_recv (sk_sent k) ErrEOF ([], [], 0) =
            ((concat (map snd (filter (\<lambda>w. \<not> fst w) (xr_Writes x))), concat (map snd (filter fst (xr_Writes x)))),
             Inr (sint (word_of_int (exitCode (xr_End x)) :: 32 word))))) \<and>
    (\<forall>e. start cmd (environ @ [''TERM=dumb'']) = Inl e \<and> length (err_text e) \<le> 60000 \<longrightarrow>
       (let out = handleExec (Unmarshal dec_exec) environ (Inr ()) start (\<lambda>_ _. True) rest \<lparr> wr_out = [], wr_err = None \<rparr> in
        \<exists>k. exec_relay (wr_out out) \<lparr> sk_sent = [], sk_err = None \<rparr> = (Inr (), k) \<and>
          exec_recv (sk_sent k) ErrEOF ([], [], 0) = (([], str_bytes (''hopbox-agent: '' @ err_text e @ [CHR 0x0A])), Inr 127)))"
proof -
  let ?ds = "filter (\<lambda>b. b \<noteq> []) reads"
  let ?raw = "concat (map (exec_frame ExecStdin) ?ds) @ exec_frame ExecStdinClose []"
  let ?w0 = "\<lparr> wr_out = [], wr_err = None \<rparr> :: writer" and ?k0 = "\<lparr> sk_sent = [], sk_err = None \<rparr> :: exec_server_msg msg_sink"
  have small: "\<forall>d \<in> set ?ds. length d \<le> maxFrame" using reads by (auto simp: cliBuf_def maxFrame_def)
  have w1: "wr_out w1 = wr_out w @ ?raw"
    unfolding sent [symmetric] exec_stdin_def exec_pump_frames [OF OpenExec_writable [OF opened(1)] small] by simp
  have "\<exists>r. handleStream (Unmarshal dec_open) (wr_out w @ ?raw) = Some (HandleExec, r) \<and> ReadExecHeader r = (Inr \<lparr> eh_Cmd = cmd \<rparr>, ?raw)"
    by (rule streams_reach_handler [where opn = opn,
        THEN conjunct1, THEN mp, THEN conjunct2]) (use fresh opened in simp_all)
  then obtain rest where rest: "handleStream (Unmarshal dec_open) (wr_out w @ ?raw) = Some (HandleExec, rest)" "ReadExecHeader rest = (Inr \<lparr> eh_Cmd = cmd \<rparr>, ?raw)"
    by blast
  note rest = rest(1) rest(2) [unfolded ReadExecHeader_def]
  have pump: "fst (stdin_pump (\<lambda>_ _. True) [] ?raw) = ?ds" using stdin_pump_frames [OF small, of "[]" "[]"] by simp
  have relay: "\<exists>k ms. exec_relay (agent_run es code) ?k0 = (Inr (), k) \<and> sk_sent k = ms @ [MsgExitCode code] \<and>
      stdout_of ms = written ExecStdout es \<and> stderr_of ms = written ExecStderr es"
    if "\<forall>(ty, p) \<in> set es. ty \<in> {ExecStdout, ExecStderr}" for es code
    using exec_output_reaches_client [of es ?k0 code "[]"] that by fastforce
  have ran: "\<exists>k. exec_relay (wr_out (handleExec (Unmarshal dec_exec) environ (Inr ()) start (\<lambda>_ _. True) rest ?w0)) ?k0 = (Inr (), k) \<and>
      exec_recv (sk_sent k) ErrEOF ([], [], 0) =
      ((concat (map snd (filter (\<lambda>w. \<not> fst w) (xr_Writes (run ?ds)))), concat (map snd (filter fst (xr_Writes (run ?ds))))),
       Inr (sint (word_of_int (exitCode (xr_End (run ?ds))) :: 32 word)))"
    if st: "start cmd (environ @ [''TERM=dumb'']) = Inr run" for run
  proof -
    have "wr_out (handleExec (Unmarshal dec_exec) environ (Inr ()) start (\<lambda>_ _. True) rest ?w0) =
        agent_run (out_frames (xr_Writes (run ?ds))) (word_of_int (exitCode (xr_End (run ?ds))))"
      using st rest(2) pump opened(2) by (simp add: handleExec_def agent_run_def is_ok_def Let_def)
    with relay [OF out_frames_types, of "xr_Writes (run ?ds)" "word_of_int (exitCode (xr_End (run ?ds)))"] show ?thesis
      by (auto simp: exec_recv_append written_out_frames)
  qed
  have failed: "\<exists>k. exec_relay (wr_out (handleExec (Unmarshal dec_exec) environ (Inr ()) start (\<lambda>_ _. True) rest ?w0)) ?k0 = (Inr (), k) \<and>
      exec_recv (sk_sent k) ErrEOF ([], [], 0) = (([], str_bytes (''hopbox-agent: '' @ err_text e @ [CHR 0x0A])), Inr 127)"
    if st: "start cmd (environ @ [''TERM=dumb'']) = Inl e" "length (err_text e) \<le> 60000" for e
  proof -
    let ?m = "str_bytes (''hopbox-agent: '' @ err_text e @ [CHR 0x0A])" and ?x = "ExecExit # PutUint32 4 @ PutUint32 (unat (127 :: 32 word))"
    have m: "length ?m \<le> maxFrame" using st(2) by (simp add: maxFrame_def)
    have o: "wr_out (handleExec (Unmarshal dec_exec) environ (Inr ()) start (\<lambda>_ _. True) rest ?w0) = exec_frame ExecStderr ?m @ ?x"
      using st(1) rest(2) opened(2) WriteExecData_ok [of ?w0 ?m ExecStderr] m
      by (simp add: handleExec_def is_ok_def WriteExecExit_def Write_def)
    have "exec_relay (concat (map (\<lambda>(ty, c). exec_frame ty c) [(ExecStderr, ?m)]) @ ?x @ []) ?k0 =
        (Inr (), \<lparr> sk_sent = [MsgStderr ?m, MsgExitCode 127], sk_err = None \<rparr>)"
      using exec_relay_frames [of "[(ExecStderr, ?m)]" ?k0 "?x @ []"] m exec_relay_exit [OF ReadExecFrame_exit [of 127 "[]"]] by (simp add: as_msg_def)
    then show ?thesis unfolding o by (intro exI [of _ "\<lparr> sk_sent = [MsgStderr ?m, MsgExitCode 127], sk_err = None \<rparr>"]) simp
  qed
  show ?thesis using rest(1) w1 ran failed by (intro exI [of _ rest]) (simp add: Let_def)
qed

text \<open>A program that copies its input and ends with code 3, for concrete runs.\<close>

definition demo_cat :: "string list \<Rightarrow> string list \<Rightarrow> proc result" where
  "demo_cat argv env = (if hd argv = ''cat'' then Inr (\<lambda>ins. \<lparr> xr_Writes = [(False, concat ins)], xr_End = ProcExit 3 \<rparr>) else Inl ErrNotFound)"

theorem exec_end_to_end_witness:
  "\<exists>w rest k. OpenExec (\<lambda>_. Inr \<lparr> wr_out = [], wr_err = None \<rparr>) (Marshal enc_open) (Marshal enc_exec) ''w1'' [''cat''] (snd (register_locked ''w1'' 7 hub_New)) = Inr w \<and>
     handleStream (Unmarshal dec_open) (wr_out (exec_pump (exec_stdin [[104], [], [105]]) w)) = Some (HandleExec, rest) \<and>
     exec_relay (wr_out (handleExec (Unmarshal dec_exec) [] (Inr ()) demo_cat (\<lambda>_ _. True) rest \<lparr> wr_out = [], wr_err = None \<rparr>)) \<lparr> sk_sent = [], sk_err = None \<rparr> = (Inr (), k) \<and>
     exec_recv (sk_sent k) ErrEOF ([], [], 0) = (([104, 105], []), Inr 3)"
proof -
  let ?opn = "\<lambda>_ :: nat. Inr \<lparr> wr_out = [], wr_err = None \<rparr> :: writer result" and ?h = "snd (register_locked ''w1'' 7 hub_New)"
  obtain w where w: "OpenExec ?opn (Marshal enc_open) (Marshal enc_exec) ''w1'' [''cat''] ?h = Inr w" using demo_open_exec [of "''cat''"] by auto
  have s: "demo_cat [''cat''] ([] @ [''TERM=dumb'']) = Inr (\<lambda>ins. \<lparr> xr_Writes = [(False, concat ins)], xr_End = ProcExit 3 \<rparr>)"
    by (simp add: demo_cat_def)
  have i: "sint (3 :: 32 word) = 3" by simp
  from exec_end_to_end [where opn = ?opn and reads = "[[104], [], [105]]"
      and start = demo_cat and environ = "[]", OF _ w _ _ _ refl] s
  show ?thesis using w by (simp add: cliBuf_def exitCode_def Let_def i)
qed

text \<open>When the agent's connection is lost between two frames, before the exit code, the service ends the call
  without an error and the client reports success.\<close>

lemma exec_lost_agent_succeeds:
  assumes "\<forall>(ty, p) \<in> set es. ty \<in> {ExecStdout, ExecStderr}"
  shows "\<exists>k. exec_relay (wr_out (agent_output es \<lparr> wr_out = [], wr_err = None \<rparr>)) \<lparr> sk_sent = [], sk_err = None \<rparr> = (Inr (), k) \<and>
     snd (exec_recv (sk_sent k) ErrEOF ([], [], 0)) = Inr 0"
proof -
  let ?start = "\<lparr> sk_sent = [], sk_err = None \<rparr> :: exec_server_msg msg_sink"
  let ?k = "\<lparr> sk_sent = map as_msg (frames_of es), sk_err = None \<rparr>"
  have b: "\<forall>(ty, c) \<in> set (frames_of es). ty \<in> {ExecStdout, ExecStderr} \<and> length c \<le> maxFrame"
    using assms exec_chunks_bound execChunk_le_maxFrame unfolding frames_of_def by fastforce
  have e: "exec_relay [] k = (Inr (), k)" for k by (simp add: exec_relay.simps [of "[]"] ReadExecFrame_def ReadFull_def)
  have "exec_relay (wr_out (agent_output es \<lparr> wr_out = [], wr_err = None \<rparr>)) ?start = (Inr (), ?k)"
    using exec_relay_frames [OF b, of ?start "[]"] e by (simp add: agent_output_frames)
  moreover have "\<forall>c. MsgExitCode c \<notin> set (sk_sent ?k)" by (auto simp: as_msg_def)
  ultimately show ?thesis using exec_recv_all [of "sk_sent ?k" "[]" "[]" 0] by auto
qed

text \<open>A port beyond 32 bits is accepted and exposes another one.\<close>

lemma parseExpose_wraps: "parseExpose ''app:4294967376'' = Inr (''app'', 80)"
proof -
  have a: "Atoi ''4294967376'' = Some 4294967376"
    by (simp add: Atoi_def HasPrefix_def read_nat_def digit_val_def is_digit_def Let_def)
  have w: "sint (word_of_int 4294967376 :: 32 word) = 80" by simp
  have c: "Cut (CHR '':'') ''app:4294967376'' = (''app'', ''4294967376'', True)" by (simp add: Cut_def)
  show ?thesis unfolding parseExpose_def c Let_def prod.case a option.case w by simp
qed

lemma os_WriteFile_ok: "co_write os p = None \<Longrightarrow> os_WriteFile os p s fs = (Inr (), fs(p \<mapsto> s))"
  by (simp add: os_WriteFile_def)

lemma os_WriteFile_other: "os_WriteFile os p s fs = (r, fs') \<Longrightarrow> q \<noteq> p \<Longrightarrow> fs' q = fs q"
  by (auto simp: os_WriteFile_def split: option.splits)

lemma os_WriteFile_snd [simp]: "q \<noteq> p \<Longrightarrow> snd (os_WriteFile os p s fs) q = fs q"
  by (auto simp: os_WriteFile_def split: option.splits)

lemma os_WriteFile_done: "os_WriteFile os p s fs = (Inr u, fs') \<Longrightarrow> fs' = fs(p \<mapsto> s)"
  by (auto simp: os_WriteFile_def split: option.splits)

text \<open>The service sees the token the client saved.\<close>

lemma token_reaches_service:
  "readToken os fs \<noteq> [] \<Longrightarrow> cx_metadata ctx = Some (dial_metadata os fs) \<Longrightarrow> tokenFromCtx ctx = readToken os fs"
proof -
  have "TrimSpace (readToken os fs) = readToken os fs" 
    by (cases "hopboxDir os") (simp_all add: readToken_def read_trimmed_def, simp add: TrimSpace_def)
  then show "readToken os fs \<noteq> [] \<Longrightarrow> cx_metadata ctx = Some (dial_metadata os fs) \<Longrightarrow> tokenFromCtx ctx = readToken os fs"
    by (simp add: dial_metadata_def tokenFromCtx_def GetRequestMetadata_def TrimPrefix_def HasPrefix_def)
qed

text \<open>The files of a directory are its cleaned path followed by their names.\<close>

lemma path_Join_prefix: "d \<noteq> [] \<Longrightarrow> \<exists>P. \<forall>e. plain_elem e \<longrightarrow> path_Join [d, e] = P @ e"
proof (intro exI allI impI)
  fix e assume d: "d \<noteq> []" and e: "plain_elem e"
  note j = path_Join_elem [OF d e]
  have c: "path_Join [d, e] = (if HasPrefix d ''/'' then CHR ''/'' # Join (CHR ''/'') (path_elems d @ [e]) else Join (CHR ''/'') (path_elems d @ [e]))"
    using path_Clean_elems [of "path_Join [d, e]"] unfolding j by simp
  show "path_Join [d, e] = ((if HasPrefix d ''/'' then ''/'' else []) @ (if path_elems d = [] then [] else Join (CHR ''/'') (path_elems d) @ ''/'')) @ e"
    unfolding c using Join_snoc [of "path_elems d" "CHR ''/''" "[e]"] by (cases "path_elems d = []") simp_all
qed

lemma plain_files: "plain_elem ''id_ed25519''" "plain_elem ''token''" "plain_elem ''principal''"
  by (simp_all add: plain_elem_def)

lemma hopboxDir_not_Nil: "hopboxDir os = Inr d \<Longrightarrow> d \<noteq> []"
proof -
  have "path_Clean p \<noteq> []" for p by (simp add: path_Clean_def Let_def)
  then have "path_Join [home, ''.hopbox''] \<noteq> []" for home by (simp add: path_Join_def Let_def)
  then show "hopboxDir os = Inr d \<Longrightarrow> d \<noteq> []" by (auto simp: hopboxDir_def Let_def)
qed

lemma login_files:
  assumes "hopboxDir os = Inr d"
  obtains P where "identityKeyPath os = Inr (P @ ''id_ed25519'')" "path_Join [d, ''id_ed25519''] = P @ ''id_ed25519''"
    "path_Join [d, ''token''] = P @ ''token''" "path_Join [d, ''principal''] = P @ ''principal''"
proof -
  from path_Join_prefix [OF hopboxDir_not_Nil [OF assms]] obtain P where P: "\<And>e. plain_elem e \<Longrightarrow> path_Join [d, e] = P @ e" by blast
  show thesis by (rule that [of P]) (use assms P plain_files in \<open>simp_all add: identityKeyPath_def\<close>)
qed

text \<open>Making or keeping the key pair touches no other file, and a private key that is there stays.\<close>

lemma login_key_files:
  assumes "login_key os key K fs = (r, fs')"
  shows "q \<notin> {K, K @ ''.pub''} \<Longrightarrow> fs' q = fs q" "fs K \<noteq> None \<Longrightarrow> fs' = fs"
proof -
  show "fs K \<noteq> None \<Longrightarrow> fs' = fs" using assms by (auto simp: login_key_def)
  show "fs' q = fs q" if "q \<notin> {K, K @ ''.pub''}"
    using assms that
    by (auto simp: login_key_def generateIdentity_def split: if_splits sum.splits prod.splits dest!: os_WriteFile_other [where q = q])
qed

text \<open>C40: logging in. Whatever fails on the way, a private key that exists is never replaced, nor its public
  half, and no file beside the five of the login changes. A login that succeeds has stored the
  certificate which the service issued for the stored public key, and when a token was given the
  request, like every later call of the client, carried that token, as the service reads it.\<close>

theorem login_sound:
  assumes dir: "hopboxDir os = Inr d" and rd: "co_readErr os = (\<lambda>_. None)" and l: "login os key issue dialed token fs = (res, fs')"
    and K: "path_Join [d, ''id_ed25519''] = K"
  shows "(fs K \<noteq> None \<longrightarrow> fs' K = fs K \<and> fs' (K @ ''.pub'') = fs (K @ ''.pub'')) \<and>
    (\<forall>q. q \<notin> {K, K @ ''.pub'', K @ ''-cert.pub'', path_Join [d, ''token''], path_Join [d, ''principal'']} \<longrightarrow> fs' q = fs q) \<and>
    (res = Inr () \<longrightarrow> (\<exists>pub certificate pl md. fs' (K @ ''.pub'') = Some pub \<and> issue md pub = Inr (certificate, pl) \<and>
       fs' (K @ ''-cert.pub'') = Some certificate \<and>
       (TrimSpace token \<noteq> [] \<longrightarrow> (\<forall>ctx. cx_metadata ctx = Some md \<or> cx_metadata ctx = Some (dial_metadata os fs') \<longrightarrow> tokenFromCtx ctx = TrimSpace token))))"
proof -
  obtain P where P: "identityKeyPath os = Inr K" "K = P @ ''id_ed25519''" "path_Join [d, ''token''] = P @ ''token''"
    "path_Join [d, ''principal''] = P @ ''principal''" using login_files [OF dir] K by metis
  obtain r1 fs1 where 1: "login_token os token fs = (r1, fs1)" by fastforce
  obtain r2 fs2 where 2: "login_key os key K fs1 = (r2, fs2)" by fastforce
  have f1: "fs1 q = fs q" if "q \<noteq> P @ ''token''" for q
    using 1 dir that P(3) by (auto simp: login_token_def split: if_splits dest: os_WriteFile_other [where q = q])
  note f2 = login_key_files [OF 2]
  have f3: "fs' q = fs1 q \<or> fs' q = fs2 q" if "q \<notin> {K @ ''-cert.pub'', P @ ''principal''}" for q
    using l 1 2 P dir that by (auto simp: login_def split: sum.splits prod.splits dest!: os_WriteFile_other [where q = q])
  have keep: "fs K \<noteq> None \<longrightarrow> fs' K = fs K \<and> fs' (K @ ''.pub'') = fs (K @ ''.pub'')"
    using f1 [of K] f1 [of "K @ ''.pub''"] f2(2) f3 [of K] f3 [of "K @ ''.pub''"] P(2) by auto
  have other: "fs' q = fs q" if "q \<notin> {K, K @ ''.pub'', K @ ''-cert.pub'', path_Join [d, ''token''], path_Join [d, ''principal'']}" for q
    using f1 [of q] f2(1) [of q] f3 [of q] that P(3,4) by auto
  have fine: "\<exists>pub certificate pl md. fs' (K @ ''.pub'') = Some pub \<and> issue md pub = Inr (certificate, pl) \<and>
       fs' (K @ ''-cert.pub'') = Some certificate \<and>
       (TrimSpace token \<noteq> [] \<longrightarrow> (\<forall>ctx. cx_metadata ctx = Some md \<or> cx_metadata ctx = Some (dial_metadata os fs') \<longrightarrow> tokenFromCtx ctx = TrimSpace token))"
    if ok: "res = Inr ()"
  proof -
    from l ok 1 2 P dir obtain pub certificate pl fs3 where s: "r1 = Inr ()" "os_ReadFile os (K @ ''.pub'') fs2 = Inr pub"
        "issue (dial_metadata os fs2) pub = Inr (certificate, pl)" "os_WriteFile os (K @ ''-cert.pub'') certificate fs2 = (Inr (), fs3)"
        "fs' = snd (os_WriteFile os (P @ ''principal'') pl fs3)"
      by (auto simp: login_def split: sum.splits prod.splits)
    have p: "fs2 (K @ ''.pub'') = Some pub" using s(2) by (auto simp: os_ReadFile_def split: option.splits)
    have c: "fs' (K @ ''.pub'') = Some pub" "fs' (K @ ''-cert.pub'') = Some certificate" "fs' (P @ ''token'') = fs2 (P @ ''token'')"
      using s(4,5) p P(2) by (auto dest!: os_WriteFile_done)
    have tok: "readToken os fs2 = TrimSpace token \<and> readToken os fs' = TrimSpace token" if "TrimSpace token \<noteq> []"
    proof -
      from that have "token \<noteq> []" by (auto simp: TrimSpace_def)
      with 1 s(1) dir P(3) have "fs1 (P @ ''token'') = Some token" by (auto simp: login_token_def dest!: os_WriteFile_done)
      with f2(1) [of "P @ ''token''"] P(2) have "fs2 (P @ ''token'') = Some token" by simp
      with c(3) dir P(3) rd show ?thesis by (simp add: readToken_def read_trimmed_def os_ReadFile_def)
    qed
    have "TrimSpace token \<noteq> [] \<longrightarrow> (\<forall>ctx. cx_metadata ctx = Some (dial_metadata os fs2) \<or> cx_metadata ctx = Some (dial_metadata os fs') \<longrightarrow>
        tokenFromCtx ctx = TrimSpace token)"
      using tok token_reaches_service [of os fs2] token_reaches_service [of os fs'] by auto
    with c(1,2) s(3) show ?thesis by blast
  qed
  show ?thesis using keep other fine by blast
qed

definition demo_os :: cli_os where
  "demo_os = \<lparr> co_home = Inr ''/h'', co_mkdirAll = (\<lambda>_. Inr ()), co_write = (\<lambda>_. None), co_executable = Inr ''/bin/hopbox'', co_readErr = (\<lambda>_. None) \<rparr>"

lemma demo_dir: "hopboxDir demo_os = Inr ''/h/.hopbox''" "path_Join [''/h/.hopbox'', ''id_ed25519''] = ''/h/.hopbox/id_ed25519''"
  "path_Join [''/h/.hopbox'', ''token''] = ''/h/.hopbox/token''" "path_Join [''/h/.hopbox'', ''principal''] = ''/h/.hopbox/principal''"
  by code_simp+

lemma demo_os_simps [simp]: "co_write demo_os = (\<lambda>_. None)" "co_readErr demo_os = (\<lambda>_. None)" "identityKeyPath demo_os = Inr ''/h/.hopbox/id_ed25519''"
  "co_home demo_os = Inr ''/h''" "co_mkdirAll demo_os = (\<lambda>_. Inr ())"
  by (simp_all add: identityKeyPath_def demo_dir) (simp_all add: demo_os_def)

theorem login_sound_witness:
  "\<exists>fs'. login demo_os (Inr (''pem'', Inr ''ssh-ed25519 K'')) (\<lambda>md pub. Inr (pub @ '' cert'', ''alice'')) (Inr ()) ''tok'' Map.empty = (Inr (), fs') \<and>
     fs' ''/h/.hopbox/id_ed25519-cert.pub'' = Some ''ssh-ed25519 K cert'' \<and> fs' ''/h/x'' = None"
proof -
  let ?l = "login demo_os (Inr (''pem'', Inr ''ssh-ed25519 K'')) (\<lambda>md pub. Inr (pub @ '' cert'', ''alice'')) (Inr ()) ''tok'' Map.empty"
  obtain fs' where l: "?l = (Inr (), fs')" "fs' ''/h/.hopbox/id_ed25519.pub'' = Some ''ssh-ed25519 K''"
    by (simp add: login_def login_token_def login_key_def generateIdentity_def demo_dir os_WriteFile_def os_ReadFile_def)
  from login_sound [OF demo_dir(1) _ l(1) demo_dir(2)] l show ?thesis by (auto simp: demo_dir)
qed

lemma config_block_proxy: "Contains (config_block name host user idPath self apiAddr) (quoted self @ '' proxy '' @ name @ '' --addr '' @ apiAddr)"
proof -
  have "config_block name host user idPath self apiAddr =
     (''# managed by hopbox '' @ [CHR 0xE2, CHR 0x80, CHR 0x94] @ '' workspace '' @ quoted name @ '' (regenerate with: hopbox ssh-config '' @ name @ '')'' @ nl @
      ''Host '' @ host @ nl @ ''    User '' @ user @ nl @ ''    IdentityFile '' @ idPath @ nl @ ''    IdentitiesOnly yes'' @ nl @ ''    ProxyCommand '') @
     (quoted self @ '' proxy '' @ name @ '' --addr '' @ apiAddr) @
     (nl @ ''    StrictHostKeyChecking accept-new'' @ nl @ ''    UserKnownHostsFile ~/.ssh/known_hosts'' @ nl)"
    unfolding config_block_def append_assoc by (rule refl)
  then show ?thesis unfolding Contains_iff by blast
qed

text \<open>Writing the OpenSSH entry of a workspace. On success the configuration includes the entries of the
  client, everything that was in it is still there behind the new line, the entry names the proxy
  with the workspace and the address, and running the command again changes nothing.\<close>

theorem ssh_config_stable:
  assumes ok: "co_write os = (\<lambda>_. None)" "co_readErr os = (\<lambda>_. None)" and home: "co_home os = Inr home" "co_mkdirAll os = (\<lambda>_. Inr ())"
    and run: "ssh_config os apiAddr al user name fs = (res, fs')" and conf: "path_Join [path_Join [home, ''.ssh''], ''config''] = conf"
    and entry: "path_Join [path_Join [home, ''.ssh''], ''hopbox'', (if al = [] then name else al) @ ''.config''] = entry" "entry \<noteq> conf"
    and other: "path_Join [path_Join [home, ''.hopbox''], ''principal''] \<notin> {conf, entry}"
  shows "res = Inr () \<and> (\<exists>tx. fs' conf = Some tx \<and> Contains tx include_line \<and>
      (\<forall>old. fs conf = Some old \<longrightarrow> (\<exists>added. tx = added @ old))) \<and>
    (\<exists>tx. fs' entry = Some tx \<and> Contains tx (quoted (cli_self os) @ '' proxy '' @ name @ '' --addr '' @ apiAddr)) \<and>
    ssh_config os apiAddr al user name fs' = (Inr (), fs')"
proof -
  let ?host = "if al = [] then name else al"
  have d: "hopboxDir os = Inr (path_Join [home, ''.hopbox''])" using home by (simp add: hopboxDir_def Let_def)
  have i: "identityKeyPath os = Inr (path_Join [path_Join [home, ''.hopbox''], ''id_ed25519''])" by (simp add: identityKeyPath_def d)
  let ?block = "\<lambda>f. config_block name ?host (cli_user os user f) (path_Join [path_Join [home, ''.hopbox''], ''id_ed25519'']) (cli_self os) apiAddr"
  have step: "ssh_config os apiAddr al user name f = (case ensureInclude os conf f of (Inl e, g) \<Rightarrow> (Inl e, g) | (Inr _, g) \<Rightarrow> (Inr (), g(entry \<mapsto> ?block f)))" for f
    using ok(1) home conf entry(1) by (auto simp: ssh_config_def i Let_def os_WriteFile_def split: sum.splits prod.splits)
  have inc: "\<exists>tx. ensureInclude os conf f = (Inr (), f(conf \<mapsto> tx)) \<and> Contains tx include_line \<and> (\<forall>old. f conf = Some old \<longrightarrow>
      (if Contains old include_line then tx = old else \<exists>added. tx = added @ old))" for f
  proof (cases "f conf")
    case None
    have "Contains (include_line @ [CHR 0x0A, CHR 0x0A]) include_line" unfolding Contains_iff by (metis append_Nil)
    with None show ?thesis
      by (intro exI [of _ "include_line @ [CHR 0x0A, CHR 0x0A]"]) (simp add: ensureInclude_def os_ReadFile_def os_WriteFile_def ok)
  next
    case (Some old)
    have c: "Contains (include_line @ [CHR 0x0A, CHR 0x0A] @ old) include_line" unfolding Contains_iff by (metis append_Nil)
    have a: "include_line @ [CHR 0x0A, CHR 0x0A] @ old = (include_line @ [CHR 0x0A, CHR 0x0A]) @ old" by simp
    show ?thesis
    proof (cases "Contains old include_line")
      case True
      with Some show ?thesis by (auto simp: ensureInclude_def os_ReadFile_def ok fun_upd_idem)
    next
      case False
      with Some c a show ?thesis
        by (intro exI [of _ "include_line @ [CHR 0x0A, CHR 0x0A] @ old"]) (simp add: ensureInclude_def os_ReadFile_def os_WriteFile_def ok)
    qed
  qed
  from inc [of fs] obtain tx where x: "ensureInclude os conf fs = (Inr (), fs(conf \<mapsto> tx))" "Contains tx include_line"
    "\<forall>old. fs conf = Some old \<longrightarrow> (if Contains old include_line then tx = old else \<exists>added. tx = added @ old)" by blast
  have r: "res = Inr ()" "fs' = fs(conf \<mapsto> tx, entry \<mapsto> ?block fs)" using run step [of fs] x(1) by auto
  have u: "cli_user os user fs' = cli_user os user fs"
    using other r(2) by (simp add: cli_user_def readPrincipal_def read_trimmed_def os_ReadFile_def d)
  have c': "fs' conf = Some tx" using r(2) entry(2) by simp
  from inc [of fs'] c' x(2) have "ensureInclude os conf fs' = (Inr (), fs')" by (auto simp: fun_upd_idem)
  then have again: "ssh_config os apiAddr al user name fs' = (Inr (), fs')" using step [of fs'] u r(2) by simp
  have b: "Contains (?block fs) (quoted (cli_self os) @ '' proxy '' @ name @ '' --addr '' @ apiAddr)" by (rule config_block_proxy)
  have old: "\<forall>old. fs conf = Some old \<longrightarrow> (\<exists>added. tx = added @ old)" using x(3) by (metis append_Nil)
  show ?thesis using r c' x(2) old b again entry(2) by auto
qed

theorem ssh_config_stable_witness:
  "\<exists>fs'. ssh_config demo_os ''localhost:7700'' [] [] ''web'' [''/h/.ssh/config'' \<mapsto> ''Host *''] = (Inr (), fs') \<and>
     ssh_config demo_os ''localhost:7700'' [] [] ''web'' fs' = (Inr (), fs')"
proof -
  obtain res fs' where r: "ssh_config demo_os ''localhost:7700'' [] [] ''web'' [''/h/.ssh/config'' \<mapsto> ''Host *''] = (res, fs')"
    by (cases "ssh_config demo_os ''localhost:7700'' [] [] ''web'' [''/h/.ssh/config'' \<mapsto> ''Host *'']")
  have c: "path_Join [path_Join [''/h'', ''.ssh''], ''config''] = ''/h/.ssh/config''"
    "path_Join [path_Join [''/h'', ''.ssh''], ''hopbox'', (if [] = ([] :: string) then ''web'' else []) @ ''.config''] = ''/h/.ssh/hopbox/web.config''"
    "path_Join [path_Join [''/h'', ''.hopbox''], ''principal''] = ''/h/.hopbox/principal''" by code_simp+
  from ssh_config_stable [OF _ _ _ _ r c(1) c(2)] c(3) r show ?thesis by simp
qed

text \<open>When the public half of a new key could not be written, the private one is kept and every later login fails
  to read the public one.\<close>

lemma login_half_key_stuck:
  assumes "identityKeyPath os = Inr K" "fs K \<noteq> None" "fs (K @ ''.pub'') = None"
  shows "fst (login os key issue dialed [] fs) = Inl (Wrapf ''read public key: '' os_ErrNotExist)"
  using assms by (auto simp: login_def login_token_def login_key_def os_ReadFile_def)

end
