(* ===== verification/Rootfs.thy ===== *)
theory Rootfs
  imports Microvm
begin

text \<open>
  The disks of the microVM provider (\<^verbatim>\<open>providers/compute/microvm/rootfs.go\<close>), each a copy-on-write snapshot of
  a base image or, where loop devices are missing, a copy; and its client of the machine's API
  (\<^verbatim>\<open>fcapi.go\<close>). The programs it runs (\<^verbatim>\<open>losetup\<close>, \<^verbatim>\<open>blockdev\<close>, \<^verbatim>\<open>dmsetup\<close>) and the file system act on a host
  \<open>'d\<close> that is a parameter.
\<close>

section \<open>The host\<close>

text \<open>A program that fails gives its error and what it printed.\<close>

record 'd host_tools =
  ht_Stat :: "string \<Rightarrow> 'd \<Rightarrow> bool"
  ht_Output :: "string list \<Rightarrow> 'd \<Rightarrow> (err \<times> string + string) \<times> 'd"
  ht_copyFile :: "string \<Rightarrow> string \<Rightarrow> 'd \<Rightarrow> unit result \<times> 'd"
  ht_truncateFile :: "string \<Rightarrow> int \<Rightarrow> 'd \<Rightarrow> unit result \<times> 'd"

definition cowHeadroom :: int where "cowHeadroom = 8 * 2 ^ 30"

definition rf_run :: "'d host_tools \<Rightarrow> string list \<Rightarrow> 'd \<Rightarrow> unit result \<times> 'd" where
  "rf_run T cmd d =
     (case ht_Output T cmd d of
        (Inl (e, out), d') \<Rightarrow> (Inl (Errorf (hd cmd @ '': '' @ err_text e @ '': '' @ TrimSpace out)), d')
      | (Inr _, d') \<Rightarrow> (Inr (), d'))"

definition losetupDetach :: "'d host_tools \<Rightarrow> string \<Rightarrow> 'd \<Rightarrow> unit result \<times> 'd" where
  "losetupDetach T loop = rf_run T [''losetup'', ''-d'', loop]"

text \<open>The loop device named first in the output of \<^verbatim>\<open>losetup -j\<close>.\<close>

definition parse_loop :: "string \<Rightarrow> string" where
  "parse_loop out =
     (let l = hd (Split (CHR 0x0A) (TrimSpace out)); loop = hd (Split (CHR '':'') l) in
      if HasPrefix loop ''/dev/loop'' then loop else [])"

definition findLoop :: "'d host_tools \<Rightarrow> string \<Rightarrow> 'd \<Rightarrow> string \<times> 'd" where
  "findLoop T file d =
     (case ht_Output T [''losetup'', ''-j'', file] d of (Inl _, d') \<Rightarrow> ([], d') | (Inr out, d') \<Rightarrow> (parse_loop out, d'))"

definition losetup :: "'d host_tools \<Rightarrow> string \<Rightarrow> bool \<Rightarrow> 'd \<Rightarrow> string result \<times> 'd" where
  "losetup T file readonly d =
     (case ht_Output T ([''losetup'', ''--find'', ''--show''] @ (if readonly then [''--read-only''] else []) @ [file]) d of
        (Inl (e, _), d') \<Rightarrow> (Inl (Wrapf (''losetup '' @ file @ '': '') e), d')
      | (Inr out, d') \<Rightarrow> (Inr (TrimSpace out), d'))"

definition loopFor :: "'d host_tools \<Rightarrow> string \<Rightarrow> bool \<Rightarrow> 'd \<Rightarrow> string result \<times> 'd" where
  "loopFor T file readonly d = (let (l, d1) = findLoop T file d in if l \<noteq> [] then (Inr l, d1) else losetup T file readonly d1)"

definition originLoop :: "'d host_tools \<Rightarrow> string \<Rightarrow> 'd \<Rightarrow> string result \<times> 'd" where
  "originLoop T base = loopFor T base True"

definition blockSectors :: "'d host_tools \<Rightarrow> string \<Rightarrow> 'd \<Rightarrow> int result \<times> 'd" where
  "blockSectors T dev d =
     (case ht_Output T [''blockdev'', ''--getsz'', dev] d of
        (Inl (e, _), d') \<Rightarrow> (Inl (Wrapf (''blockdev --getsz '' @ dev @ '': '') e), d')
      | (Inr out, d') \<Rightarrow>
          (case Atoi (TrimSpace out) of None \<Rightarrow> (Inl (Errorf (''strconv.ParseInt: parsing '' @ quoted (TrimSpace out) @ '': invalid syntax'')), d')
           | Some n \<Rightarrow> (Inr n, d')))"

section \<open>Clones\<close>

record origin =
  og_loop :: string
  og_sectors :: int

type_synonym rootfs_pool = "string \<rightharpoonup> origin"

definition newRootfsPool :: rootfs_pool where "newRootfsPool = Map.empty"

definition originFor :: "'d host_tools \<Rightarrow> string \<Rightarrow> rootfs_pool \<times> 'd \<Rightarrow> origin result \<times> rootfs_pool \<times> 'd" where
  "originFor T base = (\<lambda>(p, d).
     case p base of
       Some o' \<Rightarrow> (Inr o', p, d)
     | None \<Rightarrow>
         (case originLoop T base d of
            (Inl e, d1) \<Rightarrow> (Inl e, p, d1)
          | (Inr loop, d1) \<Rightarrow>
              (case blockSectors T loop d1 of
                 (Inl e, d2) \<Rightarrow> (Inl e, p, snd (losetupDetach T loop d2))
               | (Inr sz, d2) \<Rightarrow> (let o' = \<lparr> og_loop = loop, og_sectors = sz \<rparr> in (Inr o', p(base \<mapsto> o'), d2)))))"

definition dm_char :: "char \<Rightarrow> bool" where
  "dm_char r \<longleftrightarrow> of_char r \<in> {97..122 :: nat} \<or> of_char r \<in> {65..90 :: nat} \<or> of_char r \<in> {48..57 :: nat} \<or> r = CHR ''-'' \<or> r = CHR ''_''"

text \<open>On ASCII identifiers, where a rune is a byte.\<close>

definition dmSafe :: "string \<Rightarrow> string" where
  "dmSafe i = take 64 (map (\<lambda>r. if dm_char r then r else CHR ''-'') i)"

definition dm_name :: "string \<Rightarrow> string" where
  "dm_name i = ''hopbox-'' @ dmSafe i"

definition dm_dev :: "string \<Rightarrow> string" where
  "dm_dev i = ''/dev/mapper/'' @ dm_name i"

text \<open>What a teardown needs: the snapshot's name and its store; None for a copied file, which needs nothing.\<close>

definition rf_teardown :: "'d host_tools \<Rightarrow> (string \<times> string) option \<Rightarrow> 'd \<Rightarrow> 'd" where
  "rf_teardown T td d =
     (case td of
        None \<Rightarrow> d
      | Some (name, cow) \<Rightarrow>
          (let d1 = snd (rf_run T [''dmsetup'', ''remove'', ''--retry'', name] d); (loop, d2) = findLoop T cow d1 in
           if loop \<noteq> [] then snd (losetupDetach T loop d2) else d2))"

definition clone_copy :: "'d host_tools \<Rightarrow> string \<Rightarrow> string \<Rightarrow> 'd \<Rightarrow> (string \<times> (string \<times> string) option) result \<times> 'd" where
  "clone_copy T dir base d =
     (let f = path_Join [dir, ''rootfs.ext4''] in
      if ht_Stat T f d then (Inr (f, None), d)
      else case ht_copyFile T base f d of (Inl e, d1) \<Rightarrow> (Inl e, d1) | (Inr _, d1) \<Rightarrow> (Inr (f, None), d1))"

definition clone_cow :: "'d host_tools \<Rightarrow> string \<Rightarrow> string \<Rightarrow> origin \<Rightarrow> 'd \<Rightarrow> (string \<times> (string \<times> string) option) result \<times> 'd" where
  "clone_cow T i dir o' d =
     (let cow = path_Join [dir, ''cow.img''];
          (fresh, d1) = (if ht_Stat T cow d then (Inr (), d) else ht_truncateFile T cow cowHeadroom d) in
      case fresh of
        Inl e \<Rightarrow> (Inl e, d1)
      | Inr _ \<Rightarrow>
          (let name = dm_name i; dev = dm_dev i in
           if ht_Stat T dev d1 then (Inr (dev, Some (name, cow)), d1)
           else case loopFor T cow False d1 of
                  (Inl e, d2) \<Rightarrow> (Inl e, d2)
                | (Inr cowLoop, d2) \<Rightarrow>
                    (case rf_run T [''dmsetup'', ''create'', name, ''--table'',
                         ''0 '' @ show_int (og_sectors o') @ '' snapshot '' @ og_loop o' @ '' '' @ cowLoop @ '' P 8''] d2 of
                       (Inl e, d3) \<Rightarrow> (Inl (Wrapf ''microvm: dm snapshot: '' e), snd (losetupDetach T cowLoop d3))
                     | (Inr _, d3) \<Rightarrow> (Inr (dev, Some (name, cow)), d3))))"

definition clone :: "'d host_tools \<Rightarrow> string \<Rightarrow> string \<Rightarrow> string \<Rightarrow> rootfs_pool \<times> 'd \<Rightarrow>
    (string \<times> (string \<times> string) option) result \<times> rootfs_pool \<times> 'd" where
  "clone T i dir base s =
     (case originFor T base s of
        (Inl _, p, d) \<Rightarrow> (let (r, d') = clone_copy T dir base d in (r, p, d'))
      | (Inr o', p, d) \<Rightarrow> (let (r, d') = clone_cow T i dir o' d in (r, p, d')))"

text \<open>The origins are released in the order in which the map is ranged over.\<close>

definition pool_close :: "'d host_tools \<Rightarrow> origin list \<Rightarrow> 'd \<Rightarrow> 'd" where
  "pool_close T os d = foldl (\<lambda>d o'. snd (losetupDetach T (og_loop o') d)) d os"

section \<open>The machine's API\<close>

datatype fc_body =
    BootSource fc_boot_source | Drive fc_drive | MachineConfig fc_machine_config | NetIface fc_net_iface
  | InstanceStart | PausedState | SnapshotCreate string string | SnapshotLoad string string bool

datatype fc_method = PUT | PATCH

text \<open>\<open>http\<close> is the exchange: an error of the transport, or the status code, its text and the body.\<close>

definition fc_do :: "(fc_method \<Rightarrow> string \<Rightarrow> fc_body \<Rightarrow> 'v \<Rightarrow> (nat \<times> string \<times> string) result \<times> 'v) \<Rightarrow> fc_method \<Rightarrow> string \<Rightarrow> fc_body \<Rightarrow> 'v \<Rightarrow> unit result \<times> 'v" where
  "fc_do http m path body v =
     (case http m path body v of
        (Inl e, v1) \<Rightarrow> (Inl e, v1)
      | (Inr (code, status, rb), v1) \<Rightarrow>
          (if code \<ge> 300
           then Inl (Errorf (''fc '' @ (case m of PUT \<Rightarrow> ''PUT'' | PATCH \<Rightarrow> ''PATCH'') @ '' '' @ path @ '': '' @ status @ '': '' @ TrimSpace rb))
           else Inr (), v1))"

fun fc_puts :: "(string \<Rightarrow> fc_body \<Rightarrow> 'v \<Rightarrow> unit result \<times> 'v) \<Rightarrow> (string \<times> fc_body) list \<Rightarrow> 'v \<Rightarrow> unit result \<times> 'v" where
  "fc_puts put [] v = (Inr (), v)"
| "fc_puts put ((path, b) # cs) v = (case put path b v of (Inl e, v1) \<Rightarrow> (Inl e, v1) | (Inr _, v1) \<Rightarrow> fc_puts put cs v1)"

definition boot_calls :: "fc_config \<Rightarrow> (string \<times> fc_body) list" where
  "boot_calls cfg =
     [(''/boot-source'', BootSource (fc_BootSource cfg))] @
     map (\<lambda>d. (''/drives/'' @ fd_DriveID d, Drive d)) (fc_Drives cfg) @
     [(''/machine-config'', MachineConfig (fc_MachineConfig cfg))] @
     map (\<lambda>n. (''/network-interfaces/'' @ fn_IfaceID n, NetIface n)) (fc_NetworkIfaces cfg) @
     [(''/actions'', InstanceStart)]"

definition fc_boot :: "(fc_method \<Rightarrow> string \<Rightarrow> fc_body \<Rightarrow> 'v \<Rightarrow> (nat \<times> string \<times> string) result \<times> 'v) \<Rightarrow> fc_config \<Rightarrow> 'v \<Rightarrow> unit result \<times> 'v" where
  "fc_boot http cfg = fc_puts (fc_do http PUT) (boot_calls cfg)"

definition fc_pause :: "(fc_method \<Rightarrow> string \<Rightarrow> fc_body \<Rightarrow> 'v \<Rightarrow> (nat \<times> string \<times> string) result \<times> 'v) \<Rightarrow> 'v \<Rightarrow> unit result \<times> 'v" where
  "fc_pause http = fc_do http PATCH ''/vm'' PausedState"

definition fc_snapshot :: "(fc_method \<Rightarrow> string \<Rightarrow> fc_body \<Rightarrow> 'v \<Rightarrow> (nat \<times> string \<times> string) result \<times> 'v) \<Rightarrow> string \<Rightarrow> string \<Rightarrow> 'v \<Rightarrow> unit result \<times> 'v" where
  "fc_snapshot http statePath memPath = fc_do http PUT ''/snapshot/create'' (SnapshotCreate statePath memPath)"

definition fc_loadSnapshot :: "(fc_method \<Rightarrow> string \<Rightarrow> fc_body \<Rightarrow> 'v \<Rightarrow> (nat \<times> string \<times> string) result \<times> 'v) \<Rightarrow> string \<Rightarrow> string \<Rightarrow> bool \<Rightarrow> 'v \<Rightarrow> unit result \<times> 'v" where
  "fc_loadSnapshot http statePath memPath resume = fc_do http PUT ''/snapshot/load'' (SnapshotLoad statePath memPath resume)"

text \<open>The wait for the socket: the clock and the file are read once per round; None when the rounds given are used up.\<close>

fun wait_rounds :: "nat \<Rightarrow> (nat \<Rightarrow> time) \<Rightarrow> (nat \<Rightarrow> bool) \<Rightarrow> time \<Rightarrow> string \<Rightarrow> nat \<Rightarrow> unit result option" where
  "wait_rounds 0 clock there deadline path k = None"
| "wait_rounds (Suc n) clock there deadline path k =
     (if clock k < deadline
      then if there k then Some (Inr ()) else wait_rounds n clock there deadline path (Suc k)
      else Some (Inl (Errorf (''microvm: firecracker api socket '' @ path @ '' did not appear''))))"

definition waitForSocket :: "nat \<Rightarrow> time \<Rightarrow> (nat \<Rightarrow> time) \<Rightarrow> (nat \<Rightarrow> bool) \<Rightarrow> string \<Rightarrow> int \<Rightarrow> unit result option" where
  "waitForSocket rounds now clock there path timeout = wait_rounds rounds clock there (now + timeout) path 0"

section \<open>Lemmas\<close>

text \<open>What is documented of the host: a stat finds files and active mapper devices; the programs leave the files'
  contents alone, only the device mapper's commands change its devices, and a snapshot that was created
  is there; truncating and copying write one file.\<close>

definition rootfs_host :: "'d host_tools \<Rightarrow> ('d \<Rightarrow> string \<rightharpoonup> 'c) \<Rightarrow> ('d \<Rightarrow> string set) \<Rightarrow> bool" where
  "rootfs_host T content dm \<longleftrightarrow>
     (\<forall>x d. ht_Stat T x d \<longleftrightarrow> content d x \<noteq> None \<or> (\<exists>n \<in> dm d. x = ''/dev/mapper/'' @ n)) \<and>
     (\<forall>cmd d r d'. ht_Output T cmd d = (r, d') \<longrightarrow> content d' = content d \<and> (hd cmd \<noteq> ''dmsetup'' \<longrightarrow> dm d' = dm d) \<and>
        (\<forall>n t out. cmd = [''dmsetup'', ''create'', n, ''--table'', t] \<and> r = Inr out \<longrightarrow> dm d' = insert n (dm d))) \<and>
     (\<forall>f n d r d'. ht_truncateFile T f n d = (r, d') \<longrightarrow> dm d' = dm d \<and> (\<forall>g. g \<noteq> f \<longrightarrow> content d' g = content d g) \<and>
        (is_ok r \<longrightarrow> content d' f \<noteq> None)) \<and>
     (\<forall>a f d r d'. ht_copyFile T a f d = (r, d') \<longrightarrow> dm d' = dm d \<and> (\<forall>g. g \<noteq> f \<longrightarrow> content d' g = content d g) \<and>
        (is_ok r \<longrightarrow> content d' f \<noteq> None))"

lemmas host_stat = rootfs_host_def [THEN iffD1, THEN conjunct1, rule_format]
lemmas host_output = rootfs_host_def [THEN iffD1, THEN conjunct2, THEN conjunct1, rule_format]
lemmas host_truncate = rootfs_host_def [THEN iffD1, THEN conjunct2, THEN conjunct2, THEN conjunct1, rule_format]
lemmas host_copy = rootfs_host_def [THEN iffD1, THEN conjunct2, THEN conjunct2, THEN conjunct2, rule_format]

lemma rf_run_host:
  assumes "rootfs_host T content dm" "rf_run T cmd d = (r, d')"
  shows "content d' = content d" "hd cmd \<noteq> ''dmsetup'' \<Longrightarrow> dm d' = dm d"
    "cmd = [''dmsetup'', ''create'', n, ''--table'', t] \<Longrightarrow> is_ok r \<Longrightarrow> dm d' = insert n (dm d)"
proof -
  obtain ro where o: "ht_Output T cmd d = (ro, d')" "is_ok r \<longrightarrow> (\<exists>out. ro = Inr out)"
    using assms(2) by (auto simp: rf_run_def is_ok_def split: prod.splits sum.splits)
  note h = host_output [OF assms(1) o(1)]
  show "content d' = content d" using h by simp
  show "hd cmd \<noteq> ''dmsetup'' \<Longrightarrow> dm d' = dm d" using h by simp
  show "cmd = [''dmsetup'', ''create'', n, ''--table'', t] \<Longrightarrow> is_ok r \<Longrightarrow> dm d' = insert n (dm d)" using h o(2) by blast
qed

text \<open>Looking for and attaching loop devices leaves files and snapshots alone.\<close>

lemma loop_host:
  assumes H: "rootfs_host T content dm"
  shows "losetupDetach T l d = (ru, d') \<Longrightarrow> content d' = content d \<and> dm d' = dm d"
    "loopFor T f ro d = (rl, d') \<Longrightarrow> content d' = content d \<and> dm d' = dm d"
    "blockSectors T f d = (ri, d') \<Longrightarrow> content d' = content d \<and> dm d' = dm d"
    "originFor T base (p, d) = (rg, p', d') \<Longrightarrow> content d' = content d \<and> dm d' = dm d"
proof -
  have det: "content d' = content d \<and> dm d' = dm d" if "losetupDetach T l d = (ru, d')" for l d d' ru
    using rf_run_host(1,2) [OF H that [unfolded losetupDetach_def]] by simp
  have out: "content d' = content d \<and> dm d' = dm d" if "ht_Output T cmd d = (r, d')" "hd cmd \<noteq> ''dmsetup''" for cmd d d' r
    using host_output [OF H that(1)] that(2) by simp
  have loop: "content d' = content d \<and> dm d' = dm d" if "loopFor T f ro d = (rl, d')" for f ro d d' rl
  proof -
    obtain l d1 where f: "findLoop T f d = (l, d1)" by fastforce
    obtain r2 d2 where s: "losetup T f ro d1 = (r2, d2)" by fastforce
    have "content d1 = content d \<and> dm d1 = dm d" using f out [of "[''losetup'', ''-j'', f]" d]
      by (auto simp: findLoop_def split: prod.splits sum.splits)
    moreover have "content d2 = content d1 \<and> dm d2 = dm d1"
      using s out [of "[''losetup'', ''--find'', ''--show''] @ (if ro then [''--read-only''] else []) @ [f]" d1]
      by (auto simp: losetup_def split: prod.splits sum.splits)
    ultimately show ?thesis using that f s by (auto simp: loopFor_def split: if_splits)
  qed
  have sec: "content d' = content d \<and> dm d' = dm d" if "blockSectors T f d = (ri, d')" for f d d' ri
    using that out [of "[''blockdev'', ''--getsz'', f]" d] by (auto simp: blockSectors_def split: prod.splits sum.splits option.splits)
  show "losetupDetach T l d = (ru, d') \<Longrightarrow> content d' = content d \<and> dm d' = dm d" by (rule det)
  show "loopFor T f ro d = (rl, d') \<Longrightarrow> content d' = content d \<and> dm d' = dm d" by (rule loop)
  show "blockSectors T f d = (ri, d') \<Longrightarrow> content d' = content d \<and> dm d' = dm d" by (rule sec)
  assume o: "originFor T base (p, d) = (rg, p', d')"
  obtain r1 d1 where l: "originLoop T base d = (r1, d1)" by fastforce
  obtain r2 d2 where s: "blockSectors T (projr r1) d1 = (r2, d2)" by fastforce
  obtain r3 d3 where x: "losetupDetach T (projr r1) d2 = (r3, d3)" by fastforce
  have "d' \<in> {d, d1, d2, d3}" using o l s x by (auto simp: originFor_def Let_def split: option.splits sum.splits)
  with loop [OF l [unfolded originLoop_def]] sec [OF s] det [OF x] show "content d' = content d \<and> dm d' = dm d" by auto
qed

lemma originFor_pool: "originFor T base (p, d) = (Inr o', p', d') \<Longrightarrow> p' base = Some o'"
  by (auto simp: originFor_def Let_def split: option.splits sum.splits prod.splits)

lemma clone_cow_host:
  assumes H: "rootfs_host T content dm" and c: "clone_cow T i dir o' d = (res, d')"
  shows "content d f \<noteq> None \<Longrightarrow> content d' f = content d f"
    "res = Inr x \<Longrightarrow> x = (dm_dev i, Some (dm_name i, path_Join [dir, ''cow.img''])) \<and> ht_Stat T (dm_dev i) d' \<and> ht_Stat T (path_Join [dir, ''cow.img'']) d'"
proof -
  let ?cow = "path_Join [dir, ''cow.img'']"
  obtain rf d1 where f: "(if ht_Stat T ?cow d then (Inr (), d) else ht_truncateFile T ?cow cowHeadroom d) = (rf, d1)" by fastforce
  obtain rl d2 where l: "loopFor T ?cow False d1 = (rl, d2)" by fastforce
  let ?cmd = "[''dmsetup'', ''create'', dm_name i, ''--table'', ''0 '' @ show_int (og_sectors o') @ '' snapshot '' @ og_loop o' @ '' '' @ projr rl @ '' P 8'']"
  obtain rr d3 where r: "rf_run T ?cmd d2 = (rr, d3)" by fastforce
  obtain rx d4 where x: "losetupDetach T (projr rl) d3 = (rx, d4)" by fastforce
  have F: "(content d f \<noteq> None \<longrightarrow> content d1 f = content d f) \<and> (is_ok rf \<longrightarrow> ht_Stat T ?cow d1)" for f
  proof (cases "ht_Stat T ?cow d")
    case False
    with f have t: "ht_truncateFile T ?cow cowHeadroom d = (rf, d1)" by simp
    from False have "content d ?cow = None" using host_stat [OF H, of ?cow d] by blast
    moreover have "is_ok rf \<longrightarrow> ht_Stat T ?cow d1" using host_truncate [OF H t] host_stat [OF H, of ?cow d1] by blast
    ultimately show ?thesis using host_truncate [OF H t] by metis
  qed (use f in auto)
  note L = loop_host(2) [OF H l] and R = rf_run_host(1) [OF H r] and X = loop_host(1) [OF H x]
  have d': "d' \<in> {d1, d2, d3, d4}" using c f l r x by (auto simp: clone_cow_def Let_def split: if_splits sum.splits)
  show "content d f \<noteq> None \<Longrightarrow> content d' f = content d f" using d' F L R X by auto
  assume ok: "res = Inr x"
  from ok c f l r x have s: "is_ok rf" "x = (dm_dev i, Some (dm_name i, ?cow))" "ht_Stat T (dm_dev i) d1 \<and> d' = d1 \<or> is_ok rr \<and> d' = d3"
    by (auto simp: clone_cow_def is_ok_def Let_def split: if_splits sum.splits)
  have "ht_Stat T (dm_dev i) d3" if "is_ok rr"
    using rf_run_host(3) [OF H r refl that] host_stat [OF H] by (auto simp: dm_dev_def)
  moreover have "ht_Stat T ?cow d1 \<Longrightarrow> is_ok rr \<Longrightarrow> ht_Stat T ?cow d3"
    using host_stat [OF H] L R rf_run_host(3) [OF H r refl] by auto
  ultimately show "x = (dm_dev i, Some (dm_name i, ?cow)) \<and> ht_Stat T (dm_dev i) d' \<and> ht_Stat T ?cow d'" using s F by auto
qed

text \<open>Identifiers made of the letters a device name may have, and not too long, keep apart.\<close>

lemma dmSafe_id: "list_all dm_char i \<Longrightarrow> length i \<le> 64 \<Longrightarrow> dmSafe i = i"
  by (simp add: dmSafe_def list_all_iff map_idI)

lemma dmSafe_bounded: "length (dmSafe i) \<le> 64 \<and> list_all dm_char (dmSafe i)"
proof -
  have "dm_char (CHR ''-'')" by (simp add: dm_char_def)
  then show ?thesis by (auto simp: dmSafe_def list_all_iff dest!: in_set_takeD)
qed

section \<open>Properties\<close>


text \<open>A host with files and snapshots, on which every command succeeds.\<close>

type_synonym demo_disks = "(string \<rightharpoonup> nat) \<times> string set"

definition demo_tools :: "demo_disks host_tools" where
  "demo_tools =
     \<lparr> ht_Stat = (\<lambda>x d. fst d x \<noteq> None \<or> (\<exists>n \<in> snd d. x = ''/dev/mapper/'' @ n)),
       ht_Output = (\<lambda>cmd d. (Inr (if hd cmd = ''blockdev'' then ''2048'' else ''/dev/loop3''),
          case cmd of [a, b, n, c, t] \<Rightarrow> if a = ''dmsetup'' \<and> b = ''create'' then (fst d, insert n (snd d)) else d | _ \<Rightarrow> d)),
       ht_copyFile = (\<lambda>a f d. (Inr (), (fst d)(f \<mapsto> 1), snd d)),
       ht_truncateFile = (\<lambda>f n d. (Inr (), (fst d)(f \<mapsto> 0), snd d)) \<rparr>"

lemma demo_tools_host: "rootfs_host demo_tools fst snd"
  unfolding rootfs_host_def by (intro conjI allI impI) (auto simp: demo_tools_def split: list.splits if_splits)


text \<open>The kind of disk is decided anew each time: a box that runs on a copy gets an empty snapshot as soon as the
  origin can be attached.\<close>

lemma clone_ignores_copy:
  assumes "originFor T base s = (Inr o', p, d)" "clone T i dir base s = (Inr (path, td), s')"
  shows "path = dm_dev i"
proof -
  have "clone_cow T i dir o' d = (Inr (a, b), e) \<Longrightarrow> a = dm_dev i" for a b e
    by (auto simp: clone_cow_def Let_def split: if_splits sum.splits prod.splits)
  with assms show ?thesis by (auto simp: clone_def split: prod.splits)
qed

lemma fc_puts_made:
  fixes calls :: "(string \<times> fc_body) list"
  assumes "\<And>path b l. snd (put path b l) = l @ [(path, b)]" "\<And>path b l. is_ok (fst (put path b l)) \<longleftrightarrow> good (length l)"
  shows "\<exists>n \<le> length calls. snd (fc_puts put calls l) = l @ take n calls \<and> (\<forall>i < n - 1. good (length l + i)) \<and>
    (is_ok (fst (fc_puts put calls l)) \<longleftrightarrow> n = length calls \<and> (\<forall>i < n. good (length l + i))) \<and>
    (n < length calls \<longrightarrow> 0 < n \<and> \<not> good (length l + (n - 1)))"
proof (induction calls arbitrary: l)
  case Nil
  then show ?case by (simp add: is_ok_def)
next
  case (Cons c cs)
  obtain path b where c: "c = (path, b)" by fastforce
  obtain r where p: "put path b l = (r, l @ [(path, b)])" using assms(1) [of path b l] by (metis prod.collapse)
  show ?case
  proof (cases "good (length l)")
    case False
    with assms(2) [of path b l] p c have "fst (fc_puts put (c # cs) l) = r" "snd (fc_puts put (c # cs) l) = l @ [c]" "\<not> is_ok r"
      by (auto simp: is_ok_def split: sum.splits)
    with False show ?thesis by (intro exI [of _ 1]) auto
  next
    case True
    with assms(2) [of path b l] p c have s: "fc_puts put (c # cs) l = fc_puts put cs (l @ [c])" by (auto simp: is_ok_def split: sum.splits)
    have all: "(\<forall>i < Suc m. good (length l + i)) \<longleftrightarrow> (\<forall>i < m. good (Suc (length l + i)))" for m
      using True by (auto simp: less_Suc_eq_0_disj)
    from Cons [of "l @ [c]"] obtain n where n: "n \<le> length cs" "snd (fc_puts put cs (l @ [c])) = l @ take (Suc n) (c # cs)"
      "\<forall>i < n - 1. good (Suc (length l + i))"
      "is_ok (fst (fc_puts put cs (l @ [c]))) \<longleftrightarrow> n = length cs \<and> (\<forall>i < n. good (Suc (length l + i)))"
      "n < length cs \<longrightarrow> 0 < n \<and> \<not> good (Suc (length l + (n - 1)))" by auto
    have "\<forall>i < Suc n - 1. good (length l + i)" using n(3) all [of "n - 1"] by (cases n) auto
    moreover have "Suc n < length (c # cs) \<longrightarrow> \<not> good (length l + (Suc n - 1))" using n(5) by (cases n) auto
    ultimately show ?thesis unfolding s using n(1,2,4) all [of n] by (intro exI [of _ "Suc n"]) simp
  qed
qed

lemma boot_calls_last: "\<exists>xs. boot_calls cfg = xs @ [(''/actions'', InstanceStart)] \<and> (''/actions'', InstanceStart) \<notin> set xs"
  unfolding boot_calls_def append_assoc [symmetric] by (intro exI conjI, rule refl) auto

text \<open>A machine is started only when it is fully configured. However the machine's API answers each call,
  the calls that were made are the first ones of the fixed sequence (boot source, every drive, the
  machine's size, every network interface, start), all but the last of them were answered well, the
  result is an error exactly when the last one was not, and without an error all of them were made,
  the start last.\<close>

theorem boot_configures_then_starts:
  fixes answer :: "nat \<Rightarrow> (nat \<times> string \<times> string) result"
  assumes "\<And>m path b made. http m path b made = (answer (length made), made @ [(path, b)])"
    and "fc_boot http cfg [] = (res, made)"
  shows "\<exists>n. made = take n (boot_calls cfg) \<and> n \<le> length (boot_calls cfg) \<and>
    (\<forall>i < n - 1. \<exists>code st body. answer i = Inr (code, st, body) \<and> code < 300) \<and>
    (res = Inr () \<longleftrightarrow> (\<exists>code st body. answer (n - 1) = Inr (code, st, body) \<and> code < 300)) \<and>
    (res = Inr () \<longrightarrow> made = boot_calls cfg) \<and>
    ((''/actions'', InstanceStart) \<in> set made \<longrightarrow> n = length (boot_calls cfg) \<and> last made = (''/actions'', InstanceStart))"
proof -
  define good where "good k \<longleftrightarrow> (\<exists>code st body. answer k = Inr (code, st, body) \<and> code < 300)" for k
  have put: "snd (fc_do http PUT path b l) = l @ [(path, b)]" "is_ok (fst (fc_do http PUT path b l)) \<longleftrightarrow> good (length l)" for path b l
    using assms(1) by (auto simp: fc_do_def is_ok_def good_def split: sum.splits prod.splits)
  obtain xs where xs: "boot_calls cfg = xs @ [(''/actions'', InstanceStart)]" "(''/actions'', InstanceStart) \<notin> set xs" using boot_calls_last by blast
  have ok: "is_ok res \<longleftrightarrow> res = Inr ()" by (auto simp: is_ok_def split: sum.splits)
  from fc_puts_made [of "fc_do http PUT" good "boot_calls cfg" "[]", OF put] assms(2)
  obtain n where n: "n \<le> length (boot_calls cfg)" "made = take n (boot_calls cfg)" "\<forall>i < n - 1. good i"
    "res = Inr () \<longleftrightarrow> n = length (boot_calls cfg) \<and> (\<forall>i < n. good i)" "n < length (boot_calls cfg) \<longrightarrow> 0 < n \<and> \<not> good (n - 1)"
    by (auto simp: fc_boot_def ok)
  have e: "res = Inr () \<longleftrightarrow> good (n - 1)"
  proof
    assume g: "good (n - 1)"
    with n(1,5) have l: "n = length (boot_calls cfg)" by (metis le_neq_implies_less)
    moreover have "\<forall>i < n. good i" using g n(3) by (metis Suc_diff_1 less_antisym less_nat_zero_code not_gr_zero)
    ultimately show "res = Inr ()" using n(4) by simp
  qed (use n(4) xs(1) in simp)
  have s: "n = length (boot_calls cfg)" if "(''/actions'', InstanceStart) \<in> set made"
  proof (rule ccontr)
    assume "n \<noteq> length (boot_calls cfg)"
    with n(1) xs(1) have "made = take n xs" using n(2) by simp
    with that xs(2) show False by (auto dest: in_set_takeD)
  qed
  have "res = Inr () \<Longrightarrow> made = boot_calls cfg" "n = length (boot_calls cfg) \<Longrightarrow> last made = (''/actions'', InstanceStart)"
    using n(2,4) xs(1) by simp_all
  with n(1-3) e s show ?thesis unfolding good_def by (intro exI [of _ n]) blast
qed

definition demo_fc :: fc_config where
  "demo_fc = \<lparr> fc_BootSource = \<lparr> fb_KernelImagePath = ''k'', fb_BootArgs = [] \<rparr>, fc_Drives = [],
     fc_MachineConfig = \<lparr> fm_VcpuCount = 1, fm_MemSizeMib = 256 \<rparr>, fc_NetworkIfaces = [] \<rparr>"

theorem boot_configures_then_starts_witness:
  "\<exists>made. fc_boot (\<lambda>m path b made. (Inr (204, ''No Content'', []), made @ [(path, b)])) demo_fc [] = (Inr (), made) \<and>
     made = boot_calls demo_fc \<and> last made = (''/actions'', InstanceStart)"
proof -
  let ?h = "\<lambda>(m :: fc_method) path b made. (Inr (204, ''No Content'', []), made @ [(path, b)]) :: (nat \<times> string \<times> string) result \<times> (string \<times> fc_body) list"
  obtain res made where b: "fc_boot ?h demo_fc [] = (res, made)" by fastforce
  from boot_configures_then_starts [of ?h "\<lambda>_. Inr (204, ''No Content'', [])", OF refl b]
  have "res = Inr ()" "made = boot_calls demo_fc" by auto
  with b show ?thesis by (simp add: boot_calls_def demo_fc_def)
qed

text \<open>The wait ends: one round more than the tens of milliseconds in the timeout, and one for the last look, are
  enough, and it succeeds exactly when a round before the deadline saw the socket.\<close>

lemma wait_rounds_end:
  assumes "\<And>k. clock k \<le> clock (Suc k)" "deadline \<le> clock (k + n)"
  shows "\<exists>r. wait_rounds (Suc n) clock there deadline path k = Some r \<and> (is_ok r \<longleftrightarrow> (\<exists>j \<ge> k. clock j < deadline \<and> there j))"
  using assms(2)
proof (induction n arbitrary: k)
  case 0
  have "clock k \<le> clock j" if "k \<le> j" for j using lift_Suc_mono_le [of clock, OF assms(1) that] .
  with 0 show ?case by (force simp: is_ok_def)
next
  case (Suc n)
  have m: "clock k \<le> clock j" if "k \<le> j" for j using lift_Suc_mono_le [of clock, OF assms(1) that] .
  show ?case
  proof (cases "clock k < deadline \<and> \<not> there k")
    case True
    from Suc.IH [of "Suc k"] Suc.prems obtain r where "wait_rounds (Suc n) clock there deadline path (Suc k) = Some r"
      "is_ok r \<longleftrightarrow> (\<exists>j \<ge> Suc k. clock j < deadline \<and> there j)" by auto
    moreover have "(\<exists>j \<ge> Suc k. clock j < deadline \<and> there j) \<longleftrightarrow> (\<exists>j \<ge> k. clock j < deadline \<and> there j)"
      using True by (metis Suc_leD le_SucE le_antisym not_less_eq_eq)
    ultimately show ?thesis using True by simp
  next
    case False
    with m show ?thesis by (force simp: is_ok_def)
  qed
qed

lemma waitForSocket_ends:
  assumes "now \<le> clock 0" "\<And>k. clock k + 10000000 \<le> clock (Suc k)" "0 \<le> timeout"
  shows "\<exists>r. waitForSocket (nat (timeout div 10000000) + 2) now clock there path timeout = Some r \<and>
    (is_ok r \<longleftrightarrow> (\<exists>k. clock k < now + timeout \<and> there k))"
proof -
  let ?n = "nat (timeout div 10000000) + 1"
  have "now + int k * 10000000 \<le> clock k" for k
  proof (induction k)
    case (Suc k)
    then show ?case using assms(2) [of k] by simp
  qed (use assms(1) in simp)
  from this [of ?n] have "now + timeout \<le> clock (0 + ?n)"
    using assms(3) div_mult_mod_eq [of timeout 10000000] pos_mod_bound [of 10000000 timeout] by (auto simp: pos_imp_zdiv_nonneg_iff)
  moreover have "clock k \<le> clock (Suc k)" for k using assms(2) [of k] by simp
  ultimately show ?thesis using wait_rounds_end [of clock "now + timeout" 0 ?n there path] by (simp add: waitForSocket_def)
qed

end
