(* ===== verification/Conformance.thy ===== *)
theory Conformance
  imports Docker Kubernetes Plugin
begin

text \<open>
  The contract batteries of \<^verbatim>\<open>test/conformance\<close>, which every provider of a contract has to pass, as functions of the
  provider: each part of a battery runs on a fresh world of the factory and ends with a verdict. The
  theorems say that the repository's providers pass, whatever the world they start in, and that a provider passes
  behind the remote transport exactly when it passes itself.
\<close>

section \<open>Verdicts\<close>

text \<open>A part ends with success, with the error of a call, or with an answer that breaks the contract.\<close>

datatype verdict = Passed | CallFailed string err | Wrong string

type_synonym 'w part = "'w \<Rightarrow> verdict \<times> 'w"

definition pass :: "'w part" where
  "pass w = (Passed, w)"

definition call :: "string \<Rightarrow> ('w \<Rightarrow> 'a result \<times> 'w) \<Rightarrow> ('a \<Rightarrow> 'w part) \<Rightarrow> 'w part" where
  "call what f k w = (case f w of (Inl e, w') \<Rightarrow> (CallFailed what e, w') | (Inr x, w') \<Rightarrow> k x w')"

definition must :: "bool \<Rightarrow> string \<Rightarrow> 'w part \<Rightarrow> 'w part" where
  "must ok why k w = (if ok then k w else (Wrong why, w))"

text \<open>What \<^verbatim>\<open>t.Cleanup\<close> registers runs when the part is over, whatever its verdict.\<close>

definition with_cleanup :: "('w \<Rightarrow> 'a \<times> 'w) \<Rightarrow> 'w part \<Rightarrow> 'w part" where
  "with_cleanup f k w = (let (v, w') = k w in (v, snd (f w')))"

definition run_parts :: "(string \<times> 'w part) list \<Rightarrow> (string \<Rightarrow> 'w) \<Rightarrow> (string \<times> verdict) list" where
  "run_parts ps factory = map (\<lambda>(name, p). (name, fst (p (factory name)))) ps"

section \<open>The batteries\<close>

definition RunComputeConformance :: "'w compute_ops \<Rightarrow> provision_request \<Rightarrow> (string \<Rightarrow> 'w) \<Rightarrow> (string \<times> verdict) list" where
  "RunComputeConformance C req = run_parts
     [(''ProvisionReturnsRunningRef'', call ''provision: '' (c_Provision C req) (\<lambda>i. must (inst_Ref i \<noteq> []) ''instance ref empty''
        (with_cleanup (c_Destroy C (inst_Ref i)) pass))),
      (''StatusAfterProvision'', call [] (c_Provision C req) (\<lambda>i. with_cleanup (c_Destroy C (inst_Ref i))
        (call ''status: '' (c_Status C (inst_Ref i)) (\<lambda>st.
           must (inst_Phase st = InstanceRunning \<or> inst_Phase st = InstanceStopped) ''unexpected phase after provision'' pass)))),
      (''StopIsNotAnError'', call [] (c_Provision C req) (\<lambda>i. with_cleanup (c_Destroy C (inst_Ref i))
        (call ''stop: '' (c_Stop C (inst_Ref i)) (\<lambda>_. pass)))),
      (''DestroyThenGone'', call [] (c_Provision C req) (\<lambda>i. call ''destroy: '' (c_Destroy C (inst_Ref i)) (\<lambda>_.
         call ''status after destroy: '' (c_Status C (inst_Ref i)) (\<lambda>st. must (inst_Phase st = InstanceGone) ''phase after destroy, want gone'' pass)))),
      (''DestroyIsIdempotent'', call [] (c_Provision C req) (\<lambda>i. call ''first destroy: '' (c_Destroy C (inst_Ref i)) (\<lambda>_.
         call ''second destroy (must be idempotent): '' (c_Destroy C (inst_Ref i)) (\<lambda>_. pass))))]"

definition conf_home :: home_request where
  "conf_home = \<lparr> hr_WorkspaceID = ''w1'', hr_TenantID = [], hr_Owner = [] \<rparr>"

definition RunStorageConformance :: "'w storage_ops \<Rightarrow> (string \<Rightarrow> 'w) \<Rightarrow> (string \<times> verdict) list" where
  "RunStorageConformance S = run_parts
     [(''EnsureHomeReturnsMount'', call ''ensurehome: '' (st_EnsureHome S (conf_home\<lparr>hr_TenantID := ''default'', hr_Owner := ''alice''\<rparr>)) (\<lambda>m.
         must (mt_Source m \<noteq> [] \<and> mt_Target m \<noteq> []) ''mount must have source+target'' pass)),
      (''EnsureHomeIdempotent'', call [] (st_EnsureHome S conf_home) (\<lambda>m1. call ''second ensure: '' (st_EnsureHome S conf_home) (\<lambda>m2.
         must (mt_Source m1 = mt_Source m2) ''idempotent ensure changed source'' pass))),
      (''DeleteRemoves'', call [] (st_EnsureHome S conf_home) (\<lambda>m. call ''delete: '' (st_Delete S (mt_Source m)) (\<lambda>_. pass)))]"

definition conf_expose :: expose_request where
  "conf_expose = \<lparr> er_WorkspaceID = ''w1'', er_Name = ''app'', er_Port = 3000, er_Scheme = ''subdomain'', er_TenantID = ''default'' \<rparr>"

definition RunIngressConformance :: "'w ingress_ops \<Rightarrow> (string \<Rightarrow> 'w) \<Rightarrow> (string \<times> verdict) list" where
  "RunIngressConformance G = run_parts
     [(''ExposeReturnsEndpoint'', call ''expose: '' (ig_Expose G conf_expose) (\<lambda>ep.
         must (ep_Ref ep \<noteq> [] \<and> ep_URL ep \<noteq> []) ''endpoint must have ref+url'' (must (ep_Port ep = er_Port conf_expose) ''endpoint port'' pass))),
      (''ExposeIsIdempotent'', call [] (ig_Expose G conf_expose) (\<lambda>e1. call ''second expose: '' (ig_Expose G conf_expose) (\<lambda>e2.
         must (ep_Ref e1 = ep_Ref e2) ''idempotent expose changed ref'' pass))),
      (''UnexposeRemovesAndIsIdempotent'', call [] (ig_Expose G conf_expose) (\<lambda>ep. call ''unexpose: '' (ig_Unexpose G (ep_Ref ep)) (\<lambda>_.
         call ''second unexpose (must be idempotent): '' (ig_Unexpose G (ep_Ref ep)) (\<lambda>_. pass))))]"

definition conf_access :: "string \<Rightarrow> string list \<Rightarrow> access_request" where
  "conf_access who roles = \<lparr> ar_Principal = \<lparr> pl_ID = who, pl_TenantID = ''default'', pl_DisplayName = [], pl_Roles = roles \<rparr>, ar_Action = ''workspace.create'', ar_Resource = ''default'' \<rparr>"

text \<open>The part that wants an error.\<close>

definition must_fail :: "('w \<Rightarrow> 'a result \<times> 'w) \<Rightarrow> string \<Rightarrow> 'w part" where
  "must_fail f why w = (case f w of (Inl _, w') \<Rightarrow> (Passed, w') | (Inr _, w') \<Rightarrow> (Wrong why, w'))"

definition RunIdentityConformance :: "'w identity_ops \<Rightarrow> credential \<Rightarrow> credential \<Rightarrow> (string \<Rightarrow> 'w) \<Rightarrow> (string \<times> verdict) list" where
  "RunIdentityConformance P valid invalid = run_parts
     [(''AuthenticateValidReturnsPrincipal'', call ''authenticate valid: '' (id_Authenticate P valid) (\<lambda>p.
         must (\<not> (pl_ID p = [] \<or> pl_TenantID p = [])) ''principal must carry id+tenant'' pass)),
      (''AuthenticateInvalidErrors'', must_fail (id_Authenticate P invalid) ''expected error authenticating an invalid credential''),
      (''AuthorizeSystemAllowed'', call ''authorize: '' (id_Authorize P (conf_access ''sys'' [''system''])) (\<lambda>d.
         must (dec_Allow d) ''system principal must be allowed'' pass)),
      (''AuthorizeNoRoleDenied'', call ''authorize: '' (id_Authorize P (conf_access ''nobody'' [])) (\<lambda>d.
         must (\<not> dec_Allow d) ''role-less principal must be denied'' (must (dec_Reason d \<noteq> []) ''a deny must carry a reason'' pass)))]"

definition RunMeteringConformance :: "'w metering_ops \<Rightarrow> (string \<Rightarrow> 'w) \<Rightarrow> (string \<times> verdict) list" where
  "RunMeteringConformance M = run_parts
     [(''EmitAccepted'', call ''emit: '' (me_Emit M \<lparr> ue_TenantID = ''default'', ue_PrincipalID = ''alice'', ue_WorkspaceID = ''w1'',
         ue_Kind = ''workspace.start'', ue_Value = 1, ue_UnixMillis = 1 \<rparr>) (\<lambda>_. pass)),
      (''QuotaWellFormed'', call ''quota: '' (me_Quota M \<lparr> prf_PrincipalID = ''alice'', prf_TenantID = ''default'' \<rparr>) (\<lambda>q.
         must (\<not> qs_WorkspacesLimit q < 0) ''limit must be >= 0'' (must (qs_Allowed q \<or> qs_Reason q \<noteq> []) ''a denial must carry a reason'' pass)))]"

definition RunBuildConformance :: "'w build_ops \<Rightarrow> build_request \<Rightarrow> (string \<Rightarrow> 'w) \<Rightarrow> (string \<times> verdict) list" where
  "RunBuildConformance B req = run_parts
     [(''ResolveReturnsImageRef'', call ''resolve: '' (bd_Resolve B req) (\<lambda>img. must (ir_Ref img \<noteq> []) ''resolved image ref must be non-empty'' pass)),
      (''StatusReturnsPhase'', call [] (bd_Resolve B req) (\<lambda>img.
         call ''status: '' (bd_Status B (if ir_BuildRef img = [] then ir_Ref img else ir_BuildRef img)) (\<lambda>st.
           must (bs_Phase st \<noteq> []) ''status must report a phase'' pass)))]"

section \<open>Behind the remote transport\<close>

text \<open>An error is seen as gRPC shows it.\<close>

fun seen_verdict :: "(err \<Rightarrow> err) \<Rightarrow> verdict \<Rightarrow> verdict" where
  "seen_verdict seen (CallFailed what e) = CallFailed what (seen e)"
| "seen_verdict seen v = v"

definition same_part :: "(err \<Rightarrow> err) \<Rightarrow> 'w part \<Rightarrow> 'w part \<Rightarrow> bool" where
  "same_part seen p q \<longleftrightarrow> (\<forall>w. p w = (seen_verdict seen (fst (q w)), snd (q w)))"

lemma same_pass: "same_part seen pass pass"
  by (simp add: same_part_def pass_def)

lemma same_call:
  assumes "\<And>w. f w = on_error seen (on_ok g (f' w))" "\<And>x. same_part seen (k (g x)) (k' x)"
  shows "same_part seen (call what f k) (call what f' k')"
  using assms by (auto simp: same_part_def call_def on_error_def on_ok_def split: sum.splits prod.splits)

lemma same_call_id:
  assumes "\<And>w. f w = on_error seen (f' w)" "\<And>x. same_part seen (k x) (k' x)"
  shows "same_part seen (call what f k) (call what f' k')"
  using assms by (auto simp: same_part_def call_def on_error_def split: sum.splits prod.splits)

lemma same_must: "ok = ok' \<Longrightarrow> same_part seen k k' \<Longrightarrow> same_part seen (must ok why k) (must ok' why k')"
  by (simp add: same_part_def must_def)

lemma same_must_fail: "(\<And>w. f w = on_error seen (f' w)) \<Longrightarrow> same_part seen (must_fail f why) (must_fail f' why)"
  by (auto simp: same_part_def must_fail_def on_error_def split: sum.splits prod.splits)

lemma same_cleanup: "(\<And>w. f w = on_error seen (f' w)) \<Longrightarrow> same_part seen k k' \<Longrightarrow> same_part seen (with_cleanup f k) (with_cleanup f' k')"
  by (auto simp: same_part_def with_cleanup_def on_error_def split: sum.splits prod.splits)

lemma same_battery:
  assumes "list_all2 (\<lambda>(n, p) (m, q). n = m \<and> same_part seen p q) ps qs"
  shows "run_parts ps factory = map (\<lambda>(n, v). (n, seen_verdict seen v)) (run_parts qs factory)"
  using assms by (induction rule: list_all2_induct) (auto simp: run_parts_def same_part_def)

lemma wire_answers: "inst_Ref (wire_instance i) = inst_Ref i"
  "inst_Phase (wire_instance i) = InstanceRunning \<longleftrightarrow> inst_Phase i = InstanceRunning"
  "inst_Phase (wire_instance i) = InstanceStopped \<longleftrightarrow> inst_Phase i = InstanceStopped"
  "inst_Phase (wire_instance i) = InstanceGone \<longleftrightarrow> inst_Phase i = InstanceGone"
  "mt_Source (wire_mount m) = mt_Source m" "mt_Target (wire_mount m) = mt_Target m"
  by (cases "inst_Phase i"; simp add: wire_instance_def wire_phase_def)+ (simp_all add: wire_mount_def)

text \<open>
  A provider served behind the remote transport gets, in every battery, the verdicts it gets inside the process, with
  the errors of its calls as gRPC shows them; so it passes exactly when the served provider passes. A compute request
  arrives without the fields its message has not.
\<close>

theorem remote_conformance:
  "RunComputeConformance (remoteCompute (compute_stub seen (ComputeServer C))) req fc =
     map (\<lambda>(n, v). (n, seen_verdict seen v)) (RunComputeConformance C (wire_request req) fc) \<and>
   RunStorageConformance (remoteStorage (storage_stub seen (StorageServer S))) fs =
     map (\<lambda>(n, v). (n, seen_verdict seen v)) (RunStorageConformance S fs) \<and>
   RunIngressConformance (remoteIngress (ingress_stub seen (IngressServer G))) fg =
     map (\<lambda>(n, v). (n, seen_verdict seen v)) (RunIngressConformance G fg) \<and>
   RunIdentityConformance (remoteIdentity (identity_stub seen (IdentityServer P))) valid invalid fp =
     map (\<lambda>(n, v). (n, seen_verdict seen v)) (RunIdentityConformance P valid invalid fp) \<and>
   RunMeteringConformance (remoteMetering (metering_stub seen (MeteringServer M))) fm =
     map (\<lambda>(n, v). (n, seen_verdict seen v)) (RunMeteringConformance M fm) \<and>
   RunBuildConformance (remoteBuild (build_stub seen (BuildServer B))) br fb =
     map (\<lambda>(n, v). (n, seen_verdict seen v)) (RunBuildConformance B br fb)"
proof (intro conjI)
  let ?C = "remoteCompute (compute_stub seen (ComputeServer C))"
  have prov: "\<And>k k' what. (\<And>i. same_part seen (k (wire_instance i)) (k' i)) \<Longrightarrow>
      same_part seen (call what (c_Provision ?C req) k) (call what (c_Provision C (wire_request req)) k')"
    by (rule same_call) (simp_all add: remote_compute)
  have stat: "\<And>k k' what ref. (\<And>i. same_part seen (k (wire_instance i)) (k' i)) \<Longrightarrow> same_part seen (call what (c_Status ?C ref) k) (call what (c_Status C ref) k')"
    by (rule same_call) (simp_all add: remote_compute)
  have dest: "\<And>k k' what ref. (\<And>u. same_part seen (k u) (k' u)) \<Longrightarrow> same_part seen (call what (c_Destroy ?C ref) k) (call what (c_Destroy C ref) k')"
    by (rule same_call_id) (simp_all add: remote_compute)
  have stop: "\<And>k k' what ref. (\<And>u. same_part seen (k u) (k' u)) \<Longrightarrow> same_part seen (call what (c_Stop ?C ref) k) (call what (c_Stop C ref) k')"
    by (rule same_call_id) (simp_all add: remote_compute)
  have clean: "\<And>k k' ref. same_part seen k k' \<Longrightarrow> same_part seen (with_cleanup (c_Destroy ?C ref) k) (with_cleanup (c_Destroy C ref) k')"
    by (rule same_cleanup) (simp_all add: remote_compute)
  show "RunComputeConformance ?C req fc = map (\<lambda>(n, v). (n, seen_verdict seen v)) (RunComputeConformance C (wire_request req) fc)"
    unfolding RunComputeConformance_def
    by (rule same_battery) (simp, intro conjI; intro prov stat dest stop same_must same_pass; simp add: wire_answers;
        intro clean stat dest stop same_must same_pass; simp add: wire_answers)
  let ?S = "remoteStorage (storage_stub seen (StorageServer S))"
  have ens: "\<And>k k' what h. (\<And>m. same_part seen (k (wire_mount m)) (k' m)) \<Longrightarrow> same_part seen (call what (st_EnsureHome ?S h) k) (call what (st_EnsureHome S h) k')"
    by (rule same_call) (simp_all add: remote_storage)
  have del: "\<And>k k' what ref. (\<And>u. same_part seen (k u) (k' u)) \<Longrightarrow> same_part seen (call what (st_Delete ?S ref) k) (call what (st_Delete S ref) k')"
    by (rule same_call_id) (simp_all add: remote_storage)
  show "RunStorageConformance (remoteStorage (storage_stub seen (StorageServer S))) fs =
     map (\<lambda>(n, v). (n, seen_verdict seen v)) (RunStorageConformance S fs)"
    unfolding RunStorageConformance_def
    by (rule same_battery) (auto simp: wire_answers intro!: ens del same_must same_pass)
  show "RunIngressConformance (remoteIngress (ingress_stub seen (IngressServer G))) fg =
     map (\<lambda>(n, v). (n, seen_verdict seen v)) (RunIngressConformance G fg)"
    unfolding RunIngressConformance_def
    by (rule same_battery) (auto simp: remote_ingress intro!: same_call_id same_must same_pass)
  show "RunIdentityConformance (remoteIdentity (identity_stub seen (IdentityServer P))) valid invalid fp =
     map (\<lambda>(n, v). (n, seen_verdict seen v)) (RunIdentityConformance P valid invalid fp)"
    unfolding RunIdentityConformance_def
    by (rule same_battery) (auto simp: remote_identity intro!: same_call_id same_must_fail same_must same_pass)
  show "RunMeteringConformance (remoteMetering (metering_stub seen (MeteringServer M))) fm =
     map (\<lambda>(n, v). (n, seen_verdict seen v)) (RunMeteringConformance M fm)"
    unfolding RunMeteringConformance_def
    by (rule same_battery) (auto simp: remote_metering intro!: same_call_id same_must same_pass)
  show "RunBuildConformance (remoteBuild (build_stub seen (BuildServer B))) br fb =
     map (\<lambda>(n, v). (n, seen_verdict seen v)) (RunBuildConformance B br fb)"
    unfolding RunBuildConformance_def
    by (rule same_battery) (auto simp: remote_build intro!: same_call_id same_must same_pass)
qed

section \<open>The providers of the repository\<close>

definition passed :: "(string \<times> verdict) list \<Rightarrow> bool" where
  "passed rs \<longleftrightarrow> list_all (\<lambda>(n, v). v = Passed) rs"

definition unbroken :: "(string \<times> verdict) list \<Rightarrow> bool" where
  "unbroken rs \<longleftrightarrow> list_all (\<lambda>(n, v). \<forall>why. v \<noteq> Wrong why) rs"

lemmas part_defs = run_parts_def call_def must_def must_fail_def pass_def with_cleanup_def

text \<open>A provider that keeps the compute contract, and whose fresh instance has a reference and is up or stopped, answers every
  part of the battery within the contract: only errors of its calls can end a part.\<close>

context compute_contract
begin

lemma battery_unbroken:
  assumes g: "\<And>n. good (factory n)"
    and up: "\<And>n i w'. c_Provision C req (factory n) = (Inr i, w') \<Longrightarrow> inst_Ref i \<noteq> [] \<and> state w' (inst_Ref i) \<in> {InstanceRunning, InstanceStopped}"
  shows "unbroken (RunComputeConformance C req factory)"
proof -
  have p: "good w1 \<and> inst_Ref i \<noteq> [] \<and> state w1 (inst_Ref i) \<in> {InstanceRunning, InstanceStopped}"
    if "c_Provision C req (factory n) = (Inr i, w1)" for n i w1
    using provision_good [OF g that] up [OF that] by simp
  have s: "inst_Phase st \<in> {InstanceRunning, InstanceStopped}"
    if "c_Provision C req (factory n) = (Inr i, w1)" "c_Status C (inst_Ref i) w1 = (Inr st, w2)" for n i w1 st w2
    using p [OF that(1)] status_faithful [of w1, OF _ that(2)] by simp
  have d: "inst_Phase st = InstanceGone"
    if "c_Provision C req (factory n) = (Inr i, w1)" "c_Destroy C (inst_Ref i) w1 = (Inr u, w2)" "c_Status C (inst_Ref i) w2 = (Inr st, w3)" for n i w1 u w2 st w3
    using destroy_then_status [of w1 "inst_Ref i" w2 st w3] p [OF that(1)] that(2,3) by simp
  have 1: "\<forall>why. fst (call what (c_Provision C req) (\<lambda>i. must (inst_Ref i \<noteq> []) x (with_cleanup (c_Destroy C (inst_Ref i)) pass)) (factory n)) \<noteq> Wrong why" for what x n
    using p [of n] by (auto simp: part_defs split: prod.splits sum.splits)
  have 2: "\<forall>why. fst (call what (c_Provision C req) (\<lambda>i. with_cleanup (c_Destroy C (inst_Ref i)) (call what' (c_Status C (inst_Ref i)) (\<lambda>st.
        must (inst_Phase st = InstanceRunning \<or> inst_Phase st = InstanceStopped) x pass))) (factory n)) \<noteq> Wrong why" for what what' x n
    using s [of n] by (fastforce simp: part_defs split: prod.splits sum.splits)
  have 3: "\<forall>why. fst (call what (c_Provision C req) (\<lambda>i. call what' (c_Destroy C (inst_Ref i)) (\<lambda>_. call what'' (c_Status C (inst_Ref i)) (\<lambda>st.
        must (inst_Phase st = InstanceGone) x pass))) (factory n)) \<noteq> Wrong why" for what what' what'' x n
    using d [of n] by (fastforce simp: part_defs split: prod.splits sum.splits)
  have 4: "\<forall>why. fst (call what (c_Provision C req) (\<lambda>i. with_cleanup (c_Destroy C (inst_Ref i)) (call what' (c_Stop C (inst_Ref i)) (\<lambda>_. pass))) (factory n)) \<noteq> Wrong why" for what what' n
    by (auto simp: part_defs split: prod.splits sum.splits)
  have 5: "\<forall>why. fst (call what (c_Provision C req) (\<lambda>i. call what' (c_Destroy C (inst_Ref i)) (\<lambda>_. call what'' (c_Destroy C (inst_Ref i)) (\<lambda>_. pass))) (factory n)) \<noteq> Wrong why" for what what' what'' n
    by (auto simp: part_defs split: prod.splits sum.splits)
  show ?thesis
    unfolding unbroken_def RunComputeConformance_def run_parts_def using 1 2 3 4 5 by simp
qed

end

text \<open>A cluster that deletes at once.\<close>

definition prompt_cluster :: "('k, 'q) k8s_cli \<Rightarrow> ('k \<Rightarrow> string \<times> string \<rightharpoonup> pod) \<Rightarrow> bool" where
  "prompt_cluster cli pods \<longleftrightarrow> (\<forall>ns n k u k'. pods_Delete cli ns n k = (Inr u, k') \<longrightarrow> pods k' (ns, n) = None)"

definition pod_state :: "('k \<Rightarrow> string \<times> string \<rightharpoonup> pod) \<Rightarrow> string \<Rightarrow> 'k \<Rightarrow> string \<Rightarrow> instance_phase" where
  "pod_state pods ns k ref = (case pods k (ref_pod ns ref) of None \<Rightarrow> InstanceGone | Some q \<Rightarrow> pod_phase (po_Phase q))"

lemma k8s_contract:
  assumes C: "k8s_cluster cli pods claims" and q: "prompt_cluster cli pods" and ns: "CHR ''/'' \<notin> set ns"
  shows "compute_contract (k8s_compute cli iter ns) (pod_state pods ns) (\<lambda>_. True)"
proof
  fix w w' r ref i and ri :: "compute_instance result"
  show "pod_state pods ns w' (inst_Ref i) \<noteq> InstanceGone" if "c_Provision (k8s_compute cli iter ns) r w = (Inr i, w')"
    using k8s_Provision_cluster(3) [OF C, of iter ns r w "Inr i" w' i] that by (auto simp: k8s_compute_def pod_state_def ref_pod_ref [OF ns] pod_phase_def)
  obtain n name where rp: "ref_pod ns ref = (n, name)" by fastforce
  show "True \<and> pod_state pods ns w' = pod_state pods ns w" if "c_Status (k8s_compute cli iter ns) ref w = (ri, w')"
  proof -
    from that rp obtain rg where "pods_Get cli n name w = (rg, w')" by (auto simp: k8s_compute_def k8s_Status_def split: prod.splits)
    from cluster_get [OF C this] have "pods w' = pods w" by simp
    then have "pod_state pods ns w' x = pod_state pods ns w x" for x by (simp add: pod_state_def)
    then show ?thesis by (simp add: fun_eq_iff)
  qed
  show "inst_Ref i = ref \<and> inst_Phase i = pod_state pods ns w ref" if "c_Status (k8s_compute cli iter ns) ref w = (Inr i, w')"
  proof -
    from that rp obtain rg where g: "pods_Get cli n name w = (rg, w')" by (auto simp: k8s_compute_def k8s_Status_def split: prod.splits)
    from cluster_get [OF C g] that rp g show ?thesis by (auto simp: k8s_compute_def k8s_Status_def pod_state_def split: sum.splits if_splits)
  qed
next
  fix w w' ref
  obtain n name where rp: "ref_pod ns ref = (n, name)" by fastforce
  assume "c_Destroy (k8s_compute cli iter ns) ref w = (Inr (), w')"
  then obtain rd where d: "pods_Delete cli n name w = (rd, w')" "rd = Inl e \<Longrightarrow> IsNotFound cli e" for e
    using rp by (auto simp: k8s_compute_def k8s_delete_def split: prod.splits sum.splits if_splits)
  from cluster_delete [OF C d(1)] d q have "pods w' (n, name) = None" by (cases rd) (auto simp: prompt_cluster_def)
  then show "pod_state pods ns w' ref = InstanceGone" by (simp add: pod_state_def rp)
qed (simp_all add: k8s_compute_def)



text \<open>A host whose system calls succeed.\<close>

definition calm :: "host_fs \<Rightarrow> bool" where
  "calm h \<longleftrightarrow> fs_mkdir h = (\<lambda>_. None) \<and> fs_create h = (\<lambda>_. None) \<and> fs_truncate h = (\<lambda>_. None) \<and> fs_mkfs h = (\<lambda>_. None) \<and> fs_remove h = (\<lambda>_. None)"

lemma calm_ensure:
  assumes "calm h" "hr_WorkspaceID r = ''w1''"
  shows "\<exists>m h'. lf_EnsureHome p r h = (Inr m, h') \<and> mt_Target m = homeTarget \<and> calm h'"
  using assms by (simp add: lf_EnsureHome_def ContainsAny_def ensureBlock_def MkdirAll_def set_node_def calm_def Let_def)

lemma calm_delete:
  assumes "calm h'" "path_elems (lf_root p) \<noteq> []" "lf_EnsureHome p r h = (Inr m, h')"
  shows "\<exists>h2. lf_Delete p (mt_Source m) h' = (Inr (), h2)"
proof -
  note s = EnsureHome_source [OF assms(3)]
  note hp = home_path [OF assms(2) conjunct1 [OF s]]
  from s hp assms(1) show ?thesis by (simp add: lf_Delete_def RemoveAll_def calm_def Let_def)
qed

lemma local_storage_passes:
  assumes "path_elems (lf_root lp) \<noteq> []" "\<And>n. calm (fh n)"
  shows "passed (RunStorageConformance (local_storage lp) fh)"
proof -
  have e: "\<exists>m h'. lf_EnsureHome lp r h = (Inr m, h') \<and> mt_Target m \<noteq> [] \<and> mt_Source m \<noteq> [] \<and> calm h' \<and>
      mt_Source m = path_Join [lf_root lp, home_elem lp ''w1''] \<and> (\<exists>h2. lf_Delete lp (mt_Source m) h' = (Inr (), h2))"
    if c: "calm h" and r: "hr_WorkspaceID r = ''w1''" for r h
  proof -
    from calm_ensure [OF c r, of lp] obtain m h' where m: "lf_EnsureHome lp r h = (Inr m, h')" "mt_Target m = homeTarget" "calm h'" by blast
    note s = EnsureHome_source [OF m(1)]
    note hp = home_path [OF assms(1) conjunct1 [OF s]]
    from m s hp calm_delete [OF m(3) assms(1) m(1)] r show ?thesis by (simp add: homeTarget_def)
  qed
  have r: "hr_WorkspaceID conf_home = ''w1''" "hr_WorkspaceID (conf_home\<lparr>hr_TenantID := x, hr_Owner := y\<rparr>) = ''w1''" for x y by (simp_all add: conf_home_def)
  have 1: "fst (call a (st_EnsureHome (local_storage lp) (conf_home\<lparr>hr_TenantID := x, hr_Owner := y\<rparr>)) (\<lambda>m. must (mt_Source m \<noteq> [] \<and> mt_Target m \<noteq> []) b pass) (fh n)) = Passed" for a b x y n
    using e [OF assms(2) r(2), of y x n] by (auto simp: part_defs local_storage_def)
  have 2: "fst (call a (st_EnsureHome (local_storage lp) conf_home) (\<lambda>m1. call b (st_EnsureHome (local_storage lp) conf_home) (\<lambda>m2. must (mt_Source m1 = mt_Source m2) c pass)) (fh n)) = Passed" for a b c n
  proof -
    from e [OF assms(2) r(1), of n] obtain m h' where m: "lf_EnsureHome lp conf_home (fh n) = (Inr m, h')" "calm h'" "mt_Source m = path_Join [lf_root lp, home_elem lp ''w1'']" by blast
    from e [OF m(2) r(1)] m show ?thesis by (auto simp: part_defs local_storage_def)
  qed
  have 3: "fst (call a (st_EnsureHome (local_storage lp) conf_home) (\<lambda>m. call b (st_Delete (local_storage lp) (mt_Source m)) (\<lambda>_. pass)) (fh n)) = Passed" for a b n
    using e [OF assms(2) r(1), of n] by (auto simp: part_defs local_storage_def)
  show ?thesis unfolding passed_def RunStorageConformance_def run_parts_def using 1 2 3 by simp
qed

text \<open>
  The providers without a vendor behind them pass their batteries, wherever each part starts: the local homes below a
  proper root on a host whose system calls succeed, the host names, the fixed quota at any count, the pass-through
  images, and both identity providers for credentials they know and do not know.
\<close>

theorem local_providers_pass:
  assumes lf: "path_elems (lf_root lp) \<noteq> []" "\<forall>n. calm (fh n)"
    and img: "br_SourceRef br \<noteq> []"
    and static: "static_Authenticate sp valid = Inr pr" "pl_ID pr \<noteq> []" "pl_TenantID pr \<noteq> []" "static_Authenticate sp invalid = Inl e"
    and oidc: "oidc_Authenticate op valid' = Inr pr'" "pl_ID pr' \<noteq> []" "pl_TenantID pr' \<noteq> []" "oidc_Authenticate op invalid' = Inl e'"
  shows "passed (RunStorageConformance (local_storage lp) fh) \<and>
    passed (RunIngressConformance (subdomain_ingress :: (sub_provider \<times> 'x) ingress_ops) fg) \<and>
    passed (RunMeteringConformance static_quota fm) \<and>
    passed (RunBuildConformance prebuilt br fb) \<and>
    passed (RunIdentityConformance (static_identity sp) valid invalid fs) \<and>
    passed (RunIdentityConformance (oidc_identity op) valid' invalid' fo)"
proof (intro conjI)
  show "passed (RunIngressConformance (subdomain_ingress :: (sub_provider \<times> 'x) ingress_ops) fg)"
    by (auto simp: passed_def RunIngressConformance_def part_defs subdomain_ingress_def sd_Expose_def sd_Unexpose_def sd_host_def conf_expose_def Let_def split: prod.splits)
  show "passed (RunMeteringConformance static_quota fm)"
    by (auto simp: passed_def RunMeteringConformance_def part_defs static_quota_def sq_Emit_def sq_Quota_def Let_def)
  show "passed (RunBuildConformance prebuilt br fb)"
    using img by (auto simp: passed_def RunBuildConformance_def part_defs prebuilt_def pb_Resolve_def pb_Status_def)
  show "passed (RunIdentityConformance (static_identity sp) valid invalid fs)"
    using static by (auto simp: passed_def RunIdentityConformance_def part_defs static_identity_def static_Authorize_def conf_access_def privileged_role_def)
  show "passed (RunIdentityConformance (oidc_identity op) valid' invalid' fo)"
    using oidc by (auto simp: passed_def RunIdentityConformance_def part_defs oidc_identity_def oidc_Authorize_def conf_access_def)
  show "passed (RunStorageConformance (local_storage lp) fh)" using lf by (intro local_storage_passes) simp_all
qed

theorem local_providers_pass_witness:
  "passed (RunStorageConformance (local_storage (lf_New ''/var/homes'')) (\<lambda>_. calm_host)) \<and>
   passed (RunIngressConformance subdomain_ingress (\<lambda>_. (sd_New ''hopbox.dev'', ()))) \<and>
   passed (RunMeteringConformance static_quota (\<lambda>_. sq_New 1)) \<and>
   passed (RunBuildConformance prebuilt \<lparr> br_WorkspaceID = ''w1'', br_SourceRef = ''ubuntu:24.04'', br_Provider = ''prebuilt'', br_Options = [], br_TenantID = ''default'' \<rparr> (\<lambda>_. ()))"
proof -
  let ?pr = "\<lparr> pl_ID = ''alice'', pl_TenantID = ''default'', pl_DisplayName = [], pl_Roles = [] \<rparr>"
  let ?op = "oidc_New (\<lambda>_. Inr \<lparr> cl_Subject = ''s'', cl_Email = [], cl_Groups = [] \<rparr>) \<lparr> oc_TenantID = ''default'', oc_PrincipalClaim = [], oc_AdminGroups = [] \<rparr>"
  let ?key = "\<lparr> cred_Scheme = ''api-key'', cred_Value = ''k'' \<rparr>" and ?none = "\<lparr> cred_Scheme = ''api-key'', cred_Value = [] \<rparr>"
  let ?br = "\<lparr> br_WorkspaceID = ''w1'', br_SourceRef = ''ubuntu:24.04'', br_Provider = ''prebuilt'', br_Options = [], br_TenantID = ''default'' \<rparr>"
  have l: "path_elems (lf_root (lf_New ''/var/homes'')) \<noteq> []" by (simp add: lf_New_def path_elems_def HasPrefix_def)
  have c: "\<forall>n :: string. calm ((\<lambda>_. calm_host) n)" by (simp add: calm_def calm_host_def)
  have s: "static_Authenticate (static_New [(''k'', ?pr)]) ?key = Inr ?pr" by (simp add: static_Authenticate_def static_New_def)
  obtain e where e: "static_Authenticate (static_New [(''k'', ?pr)]) ?none = Inl e" by (simp add: static_Authenticate_def)
  obtain pr' where o: "oidc_Authenticate ?op ?key = Inr pr'" "pl_ID pr' \<noteq> []" "pl_TenantID pr' \<noteq> []" by (simp add: oidc_Authenticate_def oidc_New_def)
  obtain e' where e': "oidc_Authenticate ?op ?none = Inl e'" by (simp add: oidc_Authenticate_def)
  have "br_SourceRef ?br \<noteq> []" by simp
  from local_providers_pass [where fb = "\<lambda>_. ()" and fg = "\<lambda>_. (sd_New ''hopbox.dev'', ())" and fm = "\<lambda>_. sq_New 1" and fs = "\<lambda>_. ()" and fo = "\<lambda>_. ()", OF l c this s _ _ e o e'] show ?thesis by simp
qed

end
