(* ===== verification/Bridge.thy ===== *)
theory Bridge
  imports Cli Gateway
begin

text \<open>
  The raw pipes of the program: the shell and SSH calls of the service (\<^verbatim>\<open>internal/api/server.go\<close>), the SSH transport of
  the client (\<^verbatim>\<open>cmd/hopbox/proxy.go\<close>) and the tunnel's bridge (\<^verbatim>\<open>internal/gateway/tunnel.go\<close>) all run two copying
  goroutines, one for each direction, and return with the first error that one of them puts in a channel of two.
  Here the goroutines interleave as a step relation. Up is from the client to the box.
\<close>

section \<open>Two pumps\<close>

text \<open>Why a pump stopped: its source ended, or a write failed.\<close>

datatype pump_end = SourceEnd | WriteFailed

record pump =
  pm_src :: "bytes list"
  pm_end :: err
  pm_out :: bytes
  pm_on :: bool

record bridge =
  bg_up :: pump
  bg_down :: pump
  bg_errc :: "(bool \<times> pump_end \<times> err) list"
  bg_done :: "(bool \<times> pump_end \<times> err) option"

text \<open>One turn of a pump: a piece is read and written; the source ends; or the write fails, having written a part of
  the piece. The result is the pump and what it puts in the channel.\<close>

inductive pump_step :: "pump \<Rightarrow> pump \<Rightarrow> (pump_end \<times> err) list \<Rightarrow> bool" where
  copy: "pm_on p \<Longrightarrow> pm_src p = d # ds \<Longrightarrow> pump_step p (p\<lparr>pm_src := ds, pm_out := pm_out p @ d\<rparr>) []"
| ended: "pm_on p \<Longrightarrow> pm_src p = [] \<Longrightarrow> pump_step p (p\<lparr>pm_on := False\<rparr>) [(SourceEnd, pm_end p)]"
| failed: "pm_on p \<Longrightarrow> pm_src p = (d @ r) # ds \<Longrightarrow> pump_step p (p\<lparr>pm_src := r # ds, pm_out := pm_out p @ d, pm_on := False\<rparr>) [(WriteFailed, e)]"

text \<open>The call returns with the first error in the channel, and closes both sides.\<close>

inductive bridge_step :: "bridge \<Rightarrow> bridge \<Rightarrow> bool" where
  up: "bg_done b = None \<Longrightarrow> pump_step (bg_up b) p es \<Longrightarrow> bridge_step b (b\<lparr>bg_up := p, bg_errc := bg_errc b @ map (Pair True) es\<rparr>)"
| down: "bg_done b = None \<Longrightarrow> pump_step (bg_down b) p es \<Longrightarrow> bridge_step b (b\<lparr>bg_down := p, bg_errc := bg_errc b @ map (Pair False) es\<rparr>)"
| return: "bg_done b = None \<Longrightarrow> bg_errc b = x # xs \<Longrightarrow> bridge_step b (b\<lparr>bg_done := Some x, bg_errc := xs\<rparr>)"

definition pump_start :: "bytes list \<Rightarrow> err \<Rightarrow> pump" where
  "pump_start src en = \<lparr> pm_src = src, pm_end = en, pm_out = [], pm_on = True \<rparr>"

definition bridge_start :: "bytes list \<Rightarrow> err \<Rightarrow> bytes list \<Rightarrow> err \<Rightarrow> bridge" where
  "bridge_start usrc uend dsrc dend = \<lparr> bg_up = pump_start usrc uend, bg_down = pump_start dsrc dend, bg_errc = [], bg_done = None \<rparr>"

section \<open>The pipes of the program\<close>

text \<open>The bytes of the client's messages; a read of nothing is not sent.\<close>

fun shell_data :: "shell_client_msg \<Rightarrow> bytes list" where
  "shell_data (ShellData d) = [d]"
| "shell_data _ = []"

definition nonempty_reads :: "bytes list \<Rightarrow> bytes list" where
  "nonempty_reads = filter (\<lambda>b. b \<noteq> [])"

definition Shell_bridge :: "shell_client_msg list \<Rightarrow> err \<Rightarrow> bytes list \<Rightarrow> err \<Rightarrow> bridge" where
  "Shell_bridge msgs ending reads rerr = bridge_start (concat (map shell_data msgs)) ending (nonempty_reads reads) rerr"

definition SSH_bridge :: "shell_client_msg list \<Rightarrow> err \<Rightarrow> bytes list \<Rightarrow> err \<Rightarrow> bridge" where
  "SSH_bridge msgs ending reads rerr = bridge_start (concat (map shell_data msgs)) ending (nonempty_reads reads) rerr"

definition proxy_bridge :: "bytes list \<Rightarrow> err \<Rightarrow> bytes list \<Rightarrow> err \<Rightarrow> bridge" where
  "proxy_bridge stdin rerr msgs ending = bridge_start (nonempty_reads stdin) rerr (nonempty_reads msgs) ending"

text \<open>\<^verbatim>\<open>io.Copy\<close> takes the end of its source as no error.\<close>

definition tunnel_bridge :: "bytes list \<Rightarrow> err \<Rightarrow> bytes list \<Rightarrow> err \<Rightarrow> bridge" where
  "tunnel_bridge conn cend upstream uend = bridge_start conn cend upstream uend"

definition tunnel_logs :: "bool \<times> pump_end \<times> err \<Rightarrow> err option" where
  "tunnel_logs x = (case x of (_, SourceEnd, e) \<Rightarrow> if e = ErrEOF then None else Some e | (_, WriteFailed, e) \<Rightarrow> Some e)"

definition call_result :: "bridge \<Rightarrow> unit result option" where
  "call_result b = map_option (\<lambda>(_, _, e). proxy_end e) (bg_done b)"

section \<open>Facts\<close>

inductive_cases pump_stepE: "pump_step p q es"
inductive_cases bridge_stepE: "bridge_step b c"

text \<open>What a pump has delivered and what is left is what its source gave.\<close>

lemma pump_step_keeps:
  "pump_step p q es \<Longrightarrow> pm_out q @ concat (pm_src q) = pm_out p @ concat (pm_src p) \<and> pm_end q = pm_end p \<and> pm_on p \<and>
     (pm_on q \<longleftrightarrow> es = []) \<and> (\<forall>(w, e) \<in> set es. w = SourceEnd \<longrightarrow> pm_src q = [] \<and> e = pm_end p)"
  by (induction rule: pump_step.induct) auto

definition pump_left :: "pump \<Rightarrow> nat" where
  "pump_left p = length (pm_src p) + (if pm_on p then 1 else 0)"

lemma pump_step_left: "pump_step p q es \<Longrightarrow> pump_left q + length es = pump_left p - (if es = [] then 1 else 0) \<and> pump_left p > 0"
  by (induction rule: pump_step.induct) (auto simp: pump_left_def)

lemma pump_moves: "pm_on p \<Longrightarrow> \<exists>q es. pump_step p q es"
  using pump_step.copy pump_step.ended by (cases "pm_src p") blast+

definition bridge_left :: "bridge \<Rightarrow> nat" where
  "bridge_left b = 2 * pump_left (bg_up b) + 2 * pump_left (bg_down b) + length (bg_errc b) + (if bg_done b = None then 1 else 0)"

lemma bridge_step_left: "bridge_step b c \<Longrightarrow> bridge_left c < bridge_left b"
proof (induction rule: bridge_step.induct)
  case (up b p es)
  with pump_step_left [OF up(2)] show ?case by (cases es) (auto simp: bridge_left_def split: if_splits)
next
  case (down b p es)
  with pump_step_left [OF down(2)] show ?case by (cases es) (auto simp: bridge_left_def split: if_splits)
qed (simp add: bridge_left_def)

text \<open>What holds of a bridge all along: nothing is lost, reordered or made up in either direction, an end of a source
  is reported only when all of it was written, and the call is over or a pump still runs or has reported.\<close>

definition pump_ok :: "bytes list \<Rightarrow> err \<Rightarrow> pump \<Rightarrow> bool" where
  "pump_ok src en p \<longleftrightarrow> pm_out p @ concat (pm_src p) = concat src \<and> pm_end p = en"

definition report_ok :: "pump \<Rightarrow> pump_end \<times> err \<Rightarrow> bool" where
  "report_ok p x \<longleftrightarrow> (fst x = SourceEnd \<longrightarrow> pm_src p = [] \<and> snd x = pm_end p) \<and> \<not> pm_on p"

definition bridge_ok :: "bytes list \<Rightarrow> err \<Rightarrow> bytes list \<Rightarrow> err \<Rightarrow> bridge \<Rightarrow> bool" where
  "bridge_ok usrc uend dsrc dend b \<longleftrightarrow> pump_ok usrc uend (bg_up b) \<and> pump_ok dsrc dend (bg_down b) \<and>
     (\<forall>dir x. (dir, x) \<in> set (bg_errc b) \<or> bg_done b = Some (dir, x) \<longrightarrow> report_ok (if dir then bg_up b else bg_down b) x) \<and>
     (bg_done b = None \<longrightarrow> bg_errc b = [] \<longrightarrow> pm_on (bg_up b) \<and> pm_on (bg_down b))"

lemma pump_step_ok: "pump_step p q es \<Longrightarrow> pump_ok src en p \<Longrightarrow> pump_ok src en q"
  using pump_step_keeps [of p q es] by (auto simp: pump_ok_def)

lemma pump_step_reports: "pump_step p q es \<Longrightarrow> x \<in> set es \<Longrightarrow> report_ok q x"
  using pump_step_keeps [of p q es] by (fastforce simp: report_ok_def)

lemma pump_step_on: "pump_step p q es \<Longrightarrow> \<not> report_ok p x"
  using pump_step_keeps [of p q es] by (auto simp: report_ok_def)

lemma bridge_okI:
  assumes "pump_ok usrc uend (bg_up b)" "pump_ok dsrc dend (bg_down b)"
    "\<And>dir x. (dir, x) \<in> set (bg_errc b) \<Longrightarrow> report_ok (if dir then bg_up b else bg_down b) x"
    "\<And>dir x. bg_done b = Some (dir, x) \<Longrightarrow> report_ok (if dir then bg_up b else bg_down b) x"
    "bg_done b = None \<Longrightarrow> bg_errc b = [] \<Longrightarrow> pm_on (bg_up b) \<and> pm_on (bg_down b)"
  shows "bridge_ok usrc uend dsrc dend b"
  using assms unfolding bridge_ok_def by blast

lemma bridge_okD:
  assumes "bridge_ok usrc uend dsrc dend b"
  shows "pump_ok usrc uend (bg_up b)" "pump_ok dsrc dend (bg_down b)"
    "(dir, x) \<in> set (bg_errc b) \<Longrightarrow> report_ok (if dir then bg_up b else bg_down b) x"
    "bg_done b = Some (dir, x) \<Longrightarrow> report_ok (if dir then bg_up b else bg_down b) x"
    "bg_done b = None \<Longrightarrow> bg_errc b = [] \<Longrightarrow> pm_on (bg_up b) \<and> pm_on (bg_down b)"
  using assms unfolding bridge_ok_def by blast+

lemma bridge_step_ok: "bridge_step b c \<Longrightarrow> bridge_ok usrc uend dsrc dend b \<Longrightarrow> bridge_ok usrc uend dsrc dend c"
proof (induction rule: bridge_step.induct)
  case (up b p es)
  note d = bridge_okD [OF up(3)]
  show ?case
  proof (rule bridge_okI)
    fix dir x assume "(dir, x) \<in> set (bg_errc (b\<lparr>bg_up := p, bg_errc := bg_errc b @ map (Pair True) es\<rparr>))"
    then show "report_ok (if dir then bg_up (b\<lparr>bg_up := p, bg_errc := bg_errc b @ map (Pair True) es\<rparr>) else bg_down (b\<lparr>bg_up := p, bg_errc := bg_errc b @ map (Pair True) es\<rparr>)) x"
      using d(3) [of dir x] pump_step_on [OF up(2)] pump_step_reports [OF up(2)] by (cases dir) auto
  qed (use up(1) d pump_step_ok [OF up(2)] pump_step_keeps [OF up(2)] in simp_all)
next
  case (down b p es)
  note d = bridge_okD [OF down(3)]
  show ?case
  proof (rule bridge_okI)
    fix dir x assume "(dir, x) \<in> set (bg_errc (b\<lparr>bg_down := p, bg_errc := bg_errc b @ map (Pair False) es\<rparr>))"
    then show "report_ok (if dir then bg_up (b\<lparr>bg_down := p, bg_errc := bg_errc b @ map (Pair False) es\<rparr>) else bg_down (b\<lparr>bg_down := p, bg_errc := bg_errc b @ map (Pair False) es\<rparr>)) x"
      using d(3) [of dir x] pump_step_on [OF down(2)] pump_step_reports [OF down(2)] by (cases dir) auto
  qed (use down(1) d pump_step_ok [OF down(2)] pump_step_keeps [OF down(2)] in simp_all)
next
  case (return b x xs)
  note d = bridge_okD [OF return(3)]
  have r: "report_ok (if dir then bg_up b else bg_down b) y" if "(dir, y) = x \<or> (dir, y) \<in> set xs" for dir y
    by (rule d(3)) (use return(2) that in auto)
  show ?case
  proof (rule bridge_okI)
    show "report_ok (if dir then bg_up (b\<lparr>bg_done := Some x, bg_errc := xs\<rparr>) else bg_down (b\<lparr>bg_done := Some x, bg_errc := xs\<rparr>)) y"
      if "(dir, y) \<in> set (bg_errc (b\<lparr>bg_done := Some x, bg_errc := xs\<rparr>))" for dir y
      using r [of dir y] that by (cases dir) auto
    show "report_ok (if dir then bg_up (b\<lparr>bg_done := Some x, bg_errc := xs\<rparr>) else bg_down (b\<lparr>bg_done := Some x, bg_errc := xs\<rparr>)) y"
      if "bg_done (b\<lparr>bg_done := Some x, bg_errc := xs\<rparr>) = Some (dir, y)" for dir y
      using r [of dir y] that by (cases dir) auto
  qed (use d(1,2) in simp_all)
qed

lemma bridge_runs:
  assumes "(bridge_step ^^ n) (bridge_start usrc uend dsrc dend) b"
  shows "bridge_ok usrc uend dsrc dend b \<and> n + bridge_left b \<le> 2 * (length usrc + length dsrc) + 5"
  using assms
proof (induction n arbitrary: b)
  case 0
  then show ?case by (auto simp: bridge_ok_def pump_ok_def bridge_start_def pump_start_def bridge_left_def pump_left_def)
next
  case (Suc n)
  then obtain c where c: "(bridge_step ^^ n) (bridge_start usrc uend dsrc dend) c" "bridge_step c b" by auto
  from Suc.IH [OF c(1)] bridge_step_ok [OF c(2)] bridge_step_left [OF c(2)] show ?case by fastforce
qed

lemma bridge_moves:
  assumes "bridge_ok usrc uend dsrc dend b" "bg_done b = None"
  shows "\<exists>c. bridge_step b c"
proof (cases "bg_errc b")
  case Nil
  with assms have "pm_on (bg_up b)" by (simp add: bridge_ok_def)
  with pump_moves bridge_step.up [OF assms(2)] show ?thesis by blast
next
  case (Cons x xs)
  with bridge_step.return [OF assms(2)] show ?thesis by blast
qed

text \<open>C29: 
  A raw call of the service carries bytes. However the two pumps interleave and wherever a write fails, the call ends
  after a bounded number of steps and can always go on until then; what has arrived on either side is a beginning of
  what the other side sent; the call succeeds exactly when the error that came first is the end of a stream; and when
  that was the end of a source, everything of that source had arrived.
\<close>

theorem raw_call_carries_bytes:
  assumes "(bridge_step ^^ n) b0 b" "b0 \<in> {Shell_bridge msgs ending reads rerr, SSH_bridge msgs ending reads rerr}"
  shows "n \<le> 2 * (length msgs + length reads) + 5 \<and>
    ((\<exists>c. bridge_step b c) \<longleftrightarrow> call_result b = None) \<and>
    (\<exists>r. pm_out (bg_up b) @ r = concat (concat (map shell_data msgs))) \<and> (\<exists>r. pm_out (bg_down b) @ r = concat reads) \<and>
    (\<forall>dir w e. bg_done b = Some (dir, w, e) \<longrightarrow> (call_result b = Some (Inr ()) \<longleftrightarrow> errors_Is e ErrEOF) \<and>
      (w = SourceEnd \<longrightarrow> (if dir then pm_out (bg_up b) = concat (concat (map shell_data msgs)) \<and> e = ending
                          else pm_out (bg_down b) = concat reads \<and> e = rerr)))"
proof -
  let ?u = "concat (map shell_data msgs)" and ?d = "nonempty_reads reads"
  have n: "concat ?d = concat reads" unfolding nonempty_reads_def by (induction reads) auto
  have "length ?u \<le> length msgs"
  proof (induction msgs)
    case (Cons m ms) then show ?case by (cases m) auto
  qed simp
  moreover have "length ?d \<le> length reads" by (simp add: nonempty_reads_def)
  moreover from assms have run: "(bridge_step ^^ n) (bridge_start ?u ending ?d rerr) b" by (auto simp: Shell_bridge_def SSH_bridge_def)
  note ok = bridge_runs [OF run]
  ultimately have 1: "n \<le> 2 * (length msgs + length reads) + 5" by auto
  have "(\<exists>c. bridge_step b c) \<longleftrightarrow> bg_done b = None"
    using bridge_moves [of ?u ending ?d rerr b] ok by (auto elim: bridge_stepE)
  then have 2: "(\<exists>c. bridge_step b c) \<longleftrightarrow> call_result b = None" by (simp add: call_result_def)
  from bridge_okD(1,2) [OF conjunct1 [OF ok]] n have 3: "\<exists>r. pm_out (bg_up b) @ r = concat ?u" "\<exists>r. pm_out (bg_down b) @ r = concat reads"
    by (auto simp: pump_ok_def)
  have 4: "(call_result b = Some (Inr ()) \<longleftrightarrow> errors_Is e ErrEOF) \<and>
      (w = SourceEnd \<longrightarrow> (if dir then pm_out (bg_up b) = concat ?u \<and> e = ending else pm_out (bg_down b) = concat reads \<and> e = rerr))"
    if d: "bg_done b = Some (dir, w, e)" for dir w e
  proof -
    from bridge_okD(1,2,4) [OF conjunct1 [OF ok]] d
    have "report_ok (if dir then bg_up b else bg_down b) (w, e)" "pump_ok ?u ending (bg_up b)" "pump_ok ?d rerr (bg_down b)" by blast+
    with d n show ?thesis by (cases dir) (auto simp: call_result_def proxy_end_def report_ok_def pump_ok_def)
  qed
  from 1 2 3 4 show ?thesis by blast
qed

text \<open>A person at a prompt: a line is sent, an answer comes, and the session ends on the box's side.\<close>

theorem raw_call_carries_bytes_witness:
  "\<exists>b. (bridge_step ^^ 4) (SSH_bridge [ShellOpen ''web'' [] 0 0, ShellData [1, 2]] ErrEOF [[3], []] ErrEOF) b \<and>
     call_result b = Some (Inr ()) \<and> pm_out (bg_up b) = [1, 2] \<and> pm_out (bg_down b) = [3]"
proof -
  let ?up = "\<lparr> pm_src = [], pm_end = ErrEOF, pm_out = [1, 2], pm_on = True \<rparr>"
  let ?down = "\<lambda>on. \<lparr> pm_src = [], pm_end = ErrEOF, pm_out = [3], pm_on = on \<rparr>"
  obtain s b1 b2 b3 b4 where
    s: "s = SSH_bridge [ShellOpen ''web'' [] 0 0, ShellData [1, 2]] ErrEOF [[3], []] ErrEOF"
    and b1: "b1 = \<lparr> bg_up = ?up, bg_down = pump_start [[3]] ErrEOF, bg_errc = [], bg_done = None \<rparr>"
    and b2: "b2 = \<lparr> bg_up = ?up, bg_down = ?down True, bg_errc = [], bg_done = None \<rparr>"
    and b3: "b3 = \<lparr> bg_up = ?up, bg_down = ?down False, bg_errc = [(False, SourceEnd, ErrEOF)], bg_done = None \<rparr>"
    and b4: "b4 = \<lparr> bg_up = ?up, bg_down = ?down False, bg_errc = [], bg_done = Some (False, SourceEnd, ErrEOF) \<rparr>" by blast
  have f: "s = \<lparr> bg_up = pump_start [[1, 2]] ErrEOF, bg_down = pump_start [[3]] ErrEOF, bg_errc = [], bg_done = None \<rparr>"
    by (simp add: s SSH_bridge_def bridge_start_def nonempty_reads_def)
  have 1: "bridge_step s b1"
    using bridge_step.up [of s, OF _ pump_step.copy [of "bg_up s" "[1, 2]" "[]"]] by (simp add: f b1 pump_start_def)
  have 2: "bridge_step b1 b2"
    using bridge_step.down [of b1, OF _ pump_step.copy [of "bg_down b1" "[3]" "[]"]] by (simp add: b1 b2 pump_start_def)
  have 3: "bridge_step b2 b3"
    using bridge_step.down [of b2, OF _ pump_step.ended [of "bg_down b2"]] by (simp add: b2 b3)
  have 4: "bridge_step b3 b4" using bridge_step.return [of b3 "(False, SourceEnd, ErrEOF)" "[]"] by (simp add: b3 b4)
  have run: "(bridge_step ^^ 4) s b4"
    using 1 2 3 4 by (auto simp: eval_nat_numeral intro!: relcomppI)
  have e: "bg_done b4 = Some (False, SourceEnd, ErrEOF)" "errors_Is ErrEOF ErrEOF" "pm_out (bg_up b4) = [1, 2]" "pm_out (bg_down b4) = [3]"
    by (simp_all add: b4)
  have "call_result b4 = Some (Inr ())"
    using raw_call_carries_bytes [OF run, of "[ShellOpen ''web'' [] 0 0, ShellData [1, 2]]" ErrEOF "[[3], []]" ErrEOF] s e(1,2) by auto
  with run e s show ?thesis by blast
qed

text \<open>The first direction that ends takes the other one with it: a client that closes its side loses an answer that is
  on its way, and the call reports success.\<close>

lemma half_close_cuts_answer:
  "\<exists>b. bridge_step\<^sup>*\<^sup>* (SSH_bridge [] ErrEOF [d] rerr) b \<and> call_result b = Some (Inr ()) \<and> pm_out (bg_down b) = []"
proof -
  let ?s = "SSH_bridge [] ErrEOF [d] rerr"
  let ?b1 = "?s\<lparr>bg_up := (bg_up ?s)\<lparr>pm_on := False\<rparr>, bg_errc := [(True, SourceEnd, ErrEOF)]\<rparr>"
  have s: "bg_done ?s = None" "pm_on (bg_up ?s)" "pm_src (bg_up ?s) = []" "pm_end (bg_up ?s) = ErrEOF" "bg_errc ?s = []" "pm_out (bg_down ?s) = []"
    by (simp_all add: SSH_bridge_def bridge_start_def pump_start_def)
  have 1: "bridge_step ?s ?b1" using bridge_step.up [OF s(1) pump_step.ended [OF s(2,3)]] s by simp
  have 2: "bridge_step ?b1 (?b1\<lparr>bg_done := Some (True, SourceEnd, ErrEOF), bg_errc := []\<rparr>)" by (rule bridge_step.return) (simp_all add: s)
  have "bridge_step\<^sup>*\<^sup>* ?s (?b1\<lparr>bg_done := Some (True, SourceEnd, ErrEOF), bg_errc := []\<rparr>)" by (rule rtranclp_trans [OF r_into_rtranclp [of bridge_step, OF 1] r_into_rtranclp [of bridge_step, OF 2]])
  then show ?thesis by (intro exI conjI) (assumption | simp add: call_result_def proxy_end_def s)+
qed

text \<open>A send on a call that the service has ended fails with the end of the stream, so a proxy whose input pump notices
  first ends with success although the service refused the call.\<close>

lemma proxy_hides_refusal:
  "\<exists>b. bridge_step\<^sup>*\<^sup>* (proxy_bridge [[c]] rerr [] refusal) b \<and> call_result b = Some (Inr ())"
proof -
  let ?s = "proxy_bridge [[c]] rerr [] refusal"
  have s: "bg_done ?s = None" "pm_on (bg_up ?s)" "pm_src (bg_up ?s) = ([] @ [c]) # []" "bg_errc ?s = []"
    by (simp_all add: proxy_bridge_def bridge_start_def pump_start_def nonempty_reads_def)
  let ?b1 = "?s\<lparr>bg_up := (bg_up ?s)\<lparr>pm_src := [[c]], pm_out := pm_out (bg_up ?s) @ [], pm_on := False\<rparr>, bg_errc := [(True, WriteFailed, ErrEOF)]\<rparr>"
  have 1: "bridge_step ?s ?b1" using bridge_step.up [OF s(1) pump_step.failed [OF s(2,3), of ErrEOF]] s by simp
  have 2: "bridge_step ?b1 (?b1\<lparr>bg_done := Some (True, WriteFailed, ErrEOF), bg_errc := []\<rparr>)" by (rule bridge_step.return) (simp_all add: s)
  have "bridge_step\<^sup>*\<^sup>* ?s (?b1\<lparr>bg_done := Some (True, WriteFailed, ErrEOF), bg_errc := []\<rparr>)" by (rule rtranclp_trans [OF r_into_rtranclp [of bridge_step, OF 1] r_into_rtranclp [of bridge_step, OF 2]])
  then show ?thesis by (intro exI conjI) (assumption | simp add: call_result_def proxy_end_def)+
qed

text \<open>The client's shell ends well whatever error ends its call.\<close>

lemma shell_hides_errors: "shell_end (shell_pump [] ([], 0)) = Inr ()"
  by (simp add: shell_end_def)

end
