(* ===== verification/Ssh_Relay.thy ===== *)
theory Ssh_Relay
  imports Bridge Ssh_Front
begin

text \<open>
  The relay of a session between the client of the SSH front door and the SSH server in the box
  (\<^verbatim>\<open>internal/sshfront/server.go\<close>: \<^verbatim>\<open>proxyChannel\<close>, \<^verbatim>\<open>forwardRequests\<close>), its
  goroutines as the steps of a relation, with the accept loop, the connection to the box and the replies that need
  no box.
\<close>

section \<open>Connections\<close>

text \<open>The accept loop: a connection is handled in a goroutine of its own, an error ends the loop, as success when the
  daemon is stopping.\<close>

datatype 'c accepted = Conn 'c | AcceptFailed err bool

fun front_Serve :: "'c accepted list \<Rightarrow> 'c list \<times> unit result option" where
  "front_Serve [] = ([], None)"
| "front_Serve (Conn c # as) = (let (cs, r) = front_Serve as in (c # cs, r))"
| "front_Serve (AcceptFailed e stopping # _) = ([], Some (if stopping then Inr () else Inl e))"

text \<open>The connection to the box: \<open>openSSH\<close> is the hub's stream, \<open>handshake\<close> the SSH handshake over it; the flag says whether a
  stream is left open.\<close>

definition dialAgentSSH :: "(string \<Rightarrow> unit result) \<Rightarrow> (string \<Rightarrow> unit result) \<Rightarrow> string \<Rightarrow> unit result \<times> bool" where
  "dialAgentSSH openSSH handshake i =
     (case openSSH i of
        Inl e \<Rightarrow> (Inl e, False)
      | Inr _ \<Rightarrow> (case handshake i of Inl e \<Rightarrow> (Inl e, False) | Inr _ \<Rightarrow> (Inr (), True)))"

definition sendExitCode :: "32 word \<Rightarrow> ssh_request" where
  "sendExitCode code = \<lparr> sr_Type = ''exit-status'', sr_WantReply = False, sr_Payload = PutUint32 (unat code) \<rparr>"

definition replyAll :: "(string \<times> bool \<times> ssh_request list) list \<Rightarrow> string option \<Rightarrow> 32 word \<Rightarrow> chan_action list list" where
  "replyAll chans write code = map (\<lambda>(ct, ok, reqs). replySession ct ok write code reqs) chans"

section \<open>The relay\<close>

text \<open>\<open>rl_in\<close> copies the client's data into the box, \<open>rl_out\<close> and \<open>rl_err\<close> copy the box's output and error output; requests are
  forwarded in both directions with their answers. \<open>rl_refused\<close> records that the client's channel refused a write of the output.\<close>

record relay =
  rl_in :: pump
  rl_out :: pump
  rl_err :: pump
  rl_eof :: bool
  rl_up_reqs :: "ssh_request list"
  rl_to_client :: "(ssh_request \<times> bool option) list"
  rl_dn_reqs :: "ssh_request list"
  rl_to_box :: "(ssh_request \<times> bool option) list"
  rl_refused :: bool
  rl_closed :: bool

definition forward_one :: "ssh_request \<Rightarrow> bool \<Rightarrow> ssh_request \<times> bool option" where
  "forward_one q ok = (q, if sr_WantReply q then Some ok else None)"

inductive relay_step :: "relay \<Rightarrow> relay \<Rightarrow> bool" where
  stdin: "\<not> rl_closed r \<Longrightarrow> pump_step (rl_in r) p es \<Longrightarrow> relay_step r (r\<lparr>rl_in := p, rl_eof := (rl_eof r \<or> es \<noteq> [])\<rparr>)"
| stdout: "\<not> rl_closed r \<Longrightarrow> pump_step (rl_out r) p es \<Longrightarrow>
    relay_step r (r\<lparr>rl_out := p, rl_refused := (rl_refused r \<or> WriteFailed \<in> fst ` set es)\<rparr>)"
| stderr: "\<not> rl_closed r \<Longrightarrow> pump_step (rl_err r) p es \<Longrightarrow> relay_step r (r\<lparr>rl_err := p\<rparr>)"
| ask: "\<not> rl_closed r \<Longrightarrow> rl_dn_reqs r = q # qs \<Longrightarrow> relay_step r (r\<lparr>rl_dn_reqs := qs, rl_to_box := rl_to_box r @ [forward_one q ok]\<rparr>)"
| tell: "\<not> rl_closed r \<Longrightarrow> rl_up_reqs r = q # qs \<Longrightarrow> relay_step r (r\<lparr>rl_up_reqs := qs, rl_to_client := rl_to_client r @ [forward_one q ok]\<rparr>)"
| finish: "\<not> rl_closed r \<Longrightarrow> rl_up_reqs r = [] \<Longrightarrow> \<not> pm_on (rl_out r) \<Longrightarrow> relay_step r (r\<lparr>rl_closed := True\<rparr>)"

text \<open>A session: what the client sends, and what the box sends until it closes its channel.\<close>

record session_io =
  io_in :: "bytes list"
  io_asks :: "ssh_request list"
  io_out :: "bytes list"
  io_err :: "bytes list"
  io_tells :: "ssh_request list"

definition relay_start :: "session_io \<Rightarrow> relay" where
  "relay_start s = \<lparr> rl_in = pump_start (io_in s) ErrEOF, rl_out = pump_start (io_out s) ErrEOF, rl_err = pump_start (io_err s) ErrEOF,
     rl_eof = False, rl_up_reqs = io_tells s, rl_to_client = [], rl_dn_reqs = io_asks s, rl_to_box = [], rl_refused = False, rl_closed = False \<rparr>"

inductive_cases relay_stepE: "relay_step r r'"

section \<open>What holds of a relay\<close>

definition forwarded :: "ssh_request list \<Rightarrow> (ssh_request \<times> bool option) list \<Rightarrow> ssh_request list \<Rightarrow> bool" where
  "forwarded all done left \<longleftrightarrow> map fst done @ left = all \<and> list_all (\<lambda>(q, a). a = None \<longleftrightarrow> \<not> sr_WantReply q) done"

lemma forwarded_one: "forwarded xs done (q # qs) \<Longrightarrow> forwarded xs (done @ [forward_one q ok]) qs"
  by (auto simp: forwarded_def forward_one_def)

definition relay_ok :: "session_io \<Rightarrow> relay \<Rightarrow> bool" where
  "relay_ok s r \<longleftrightarrow> pump_ok (io_in s) ErrEOF (rl_in r) \<and> pump_ok (io_out s) ErrEOF (rl_out r) \<and> pump_ok (io_err s) ErrEOF (rl_err r) \<and>
     forwarded (io_tells s) (rl_to_client r) (rl_up_reqs r) \<and> forwarded (io_asks s) (rl_to_box r) (rl_dn_reqs r) \<and>
     (pm_on (rl_out r) \<or> rl_refused r \<or> pm_src (rl_out r) = []) \<and>
     (rl_closed r \<longrightarrow> rl_up_reqs r = [] \<and> \<not> pm_on (rl_out r))"

definition relay_left :: "relay \<Rightarrow> nat" where
  "relay_left r = pump_left (rl_in r) + pump_left (rl_out r) + pump_left (rl_err r) + length (rl_up_reqs r) + length (rl_dn_reqs r) +
     (if rl_closed r then 0 else 1)"

lemma pump_step_less: "pump_step p q es \<Longrightarrow> pump_left q < pump_left p"
  using pump_step_left [of p q es] by (cases es) auto

lemma pump_step_stops: "pump_step p q es \<Longrightarrow> pm_on q \<or> WriteFailed \<in> fst ` set es \<or> pm_src q = []"
  by (induction rule: pump_step.induct) auto

lemma relay_step_ok: "relay_step r r' \<Longrightarrow> relay_ok s r \<Longrightarrow> relay_ok s r' \<and> relay_left r' < relay_left r"
proof (induction rule: relay_step.induct)
  case (stdin r p es)
  then show ?case using pump_step_ok [OF stdin(2)] pump_step_less [OF stdin(2)] by (simp add: relay_ok_def relay_left_def)
next
  case (stdout r p es)
  then show ?case using pump_step_ok [OF stdout(2)] pump_step_less [OF stdout(2)] pump_step_stops [OF stdout(2)]
    by (auto simp: relay_ok_def relay_left_def)
next
  case (stderr r p es)
  then show ?case using pump_step_ok [OF stderr(2)] pump_step_less [OF stderr(2)] by (simp add: relay_ok_def relay_left_def)
next
  case (ask r q qs ok)
  then show ?case using forwarded_one [of "io_asks s" _ q qs ok] by (simp add: relay_ok_def relay_left_def)
next
  case (tell r q qs ok)
  then show ?case using forwarded_one [of "io_tells s" _ q qs ok] by (simp add: relay_ok_def relay_left_def)
next
  case (finish r)
  then show ?case by (simp add: relay_ok_def relay_left_def)
qed

definition io_size :: "session_io \<Rightarrow> nat" where
  "io_size s = length (io_in s) + length (io_asks s) + length (io_out s) + length (io_err s) + length (io_tells s)"

lemma relay_runs: "(relay_step ^^ n) (relay_start s) r \<Longrightarrow> relay_ok s r \<and> n + relay_left r \<le> io_size s + 4"
proof (induction n arbitrary: r)
  case 0
  then show ?case by (auto simp: relay_start_def relay_ok_def pump_ok_def forwarded_def pump_start_def relay_left_def pump_left_def io_size_def)
next
  case (Suc n)
  then obtain c where c: "(relay_step ^^ n) (relay_start s) c" "relay_step c r" by auto
  from Suc.IH [OF c(1)] relay_step_ok [OF c(2)] show ?case by fastforce
qed

lemma relay_moves: "(\<exists>r'. relay_step r r') \<longleftrightarrow> \<not> rl_closed r"
proof
  show "\<not> rl_closed r" if "\<exists>r'. relay_step r r'" using that by (auto elim: relay_stepE)
  assume o: "\<not> rl_closed r"
  show "\<exists>r'. relay_step r r'"
  proof (cases "rl_up_reqs r")
    case Nil
    then show ?thesis using relay_step.finish [OF o] relay_step.stdout [OF o] pump_moves [of "rl_out r"] by blast
  qed (use relay_step.tell [OF o] in blast)
qed

text \<open>C28: 
  The front door relays a session whole. However its goroutines interleave, the relay goes on until the client's
  channel is closed, which happens within a number of steps bounded by what the two sides send; all along, what
  reached either side is a beginning of what the other sent, requests are forwarded in order and answered exactly when an
  answer was wanted; and once the channel is closed, every request of the box, the exit status among them, and, unless the client refused
  a write, all of the box's output have been delivered before.
\<close>

theorem relay_delivers:
  assumes "(relay_step ^^ n) (relay_start s) r"
  shows "n \<le> io_size s + 4 \<and> ((\<exists>r'. relay_step r r') \<longleftrightarrow> \<not> rl_closed r) \<and>
    (\<exists>x. pm_out (rl_in r) @ x = concat (io_in s)) \<and> (\<exists>x. pm_out (rl_out r) @ x = concat (io_out s)) \<and> (\<exists>x. pm_out (rl_err r) @ x = concat (io_err s)) \<and>
    (\<exists>x. map fst (rl_to_client r) @ x = io_tells s) \<and> (\<exists>x. map fst (rl_to_box r) @ x = io_asks s) \<and>
    list_all (\<lambda>(q, a). a = None \<longleftrightarrow> \<not> sr_WantReply q) (rl_to_client r @ rl_to_box r) \<and>
    (rl_closed r \<longrightarrow> map fst (rl_to_client r) = io_tells s \<and> (rl_refused r \<or> pm_out (rl_out r) = concat (io_out s)))"
proof -
  from relay_runs [OF assms] have ok: "relay_ok s r" and n: "n \<le> io_size s + 4" by auto
  then have p: "pump_ok (io_in s) ErrEOF (rl_in r)" "pump_ok (io_out s) ErrEOF (rl_out r)" "pump_ok (io_err s) ErrEOF (rl_err r)"
    and f: "forwarded (io_tells s) (rl_to_client r) (rl_up_reqs r)" "forwarded (io_asks s) (rl_to_box r) (rl_dn_reqs r)"
    and c: "rl_closed r \<Longrightarrow> rl_up_reqs r = [] \<and> (rl_refused r \<or> pm_src (rl_out r) = [])"
    by (auto simp: relay_ok_def)
  from p have "\<exists>x. pm_out (rl_in r) @ x = concat (io_in s)" "\<exists>x. pm_out (rl_out r) @ x = concat (io_out s)" "\<exists>x. pm_out (rl_err r) @ x = concat (io_err s)"
    by (auto simp: pump_ok_def)
  moreover from f have "\<exists>x. map fst (rl_to_client r) @ x = io_tells s" "\<exists>x. map fst (rl_to_box r) @ x = io_asks s"
    "list_all (\<lambda>(q, a). a = None \<longleftrightarrow> \<not> sr_WantReply q) (rl_to_client r @ rl_to_box r)"
    by (auto simp: forwarded_def)
  moreover have "rl_closed r \<longrightarrow> map fst (rl_to_client r) = io_tells s \<and> (rl_refused r \<or> pm_out (rl_out r) = concat (io_out s))"
    using c p(2) f(1) by (auto simp: pump_ok_def forwarded_def)
  ultimately show ?thesis using n relay_moves [of r] by blast
qed

text \<open>A command with one byte of output and its exit status.\<close>

definition demo_exec :: ssh_request where
  "demo_exec = \<lparr> sr_Type = ''exec'', sr_WantReply = True, sr_Payload = [7] \<rparr>"

definition demo_session :: session_io where
  "demo_session = \<lparr> io_in = [], io_asks = [demo_exec], io_out = [[2]], io_err = [], io_tells = [sendExitCode 3] \<rparr>"

theorem relay_delivers_witness:
  "\<exists>r. (relay_step ^^ 5) (relay_start demo_session) r \<and> rl_closed r \<and> \<not> rl_refused r \<and> map fst (rl_to_client r) = [sendExitCode 3] \<and>
     pm_out (rl_out r) = [2] \<and> rl_to_box r = [(demo_exec, Some True)]"
proof -
  let ?in = "pump_start [] ErrEOF" and ?exit = "forward_one (sendExitCode 3) True"
  let ?out = "\<lambda>on. \<lparr> pm_src = [], pm_end = ErrEOF, pm_out = [2], pm_on = on \<rparr>"
  let ?r = "\<lambda>out ups told cl. \<lparr> rl_in = ?in, rl_out = out, rl_err = ?in, rl_eof = False, rl_up_reqs = ups, rl_to_client = told,
    rl_dn_reqs = [], rl_to_box = [forward_one demo_exec True], rl_refused = False, rl_closed = cl \<rparr>"
  obtain s r1 r2 r3 r4 r5 where s: "s = relay_start demo_session"
    and r1: "r1 = ?r (pump_start [[2]] ErrEOF) [sendExitCode 3] [] False" and r2: "r2 = ?r (?out True) [sendExitCode 3] [] False"
    and r3: "r3 = ?r (?out False) [sendExitCode 3] [] False" and r4: "r4 = ?r (?out False) [] [?exit] False"
    and r5: "r5 = ?r (?out False) [] [?exit] True" by blast
  have 1: "relay_step s r1" using relay_step.ask [of s demo_exec "[]" True] by (simp add: s r1 relay_start_def demo_session_def)
  have 2: "relay_step r1 r2" using relay_step.stdout [of r1, OF _ pump_step.copy [of "rl_out r1" "[2]" "[]"]] by (simp add: r1 r2 pump_start_def)
  have 3: "relay_step r2 r3" using relay_step.stdout [of r2, OF _ pump_step.ended [of "rl_out r2"]] by (simp add: r2 r3)
  have 4: "relay_step r3 r4" using relay_step.tell [of r3 "sendExitCode 3" "[]" True] by (simp add: r3 r4)
  have 5: "relay_step r4 r5" using relay_step.finish [of r4] by (simp add: r4 r5)
  have run: "(relay_step ^^ 5) s r5" using 1 2 3 4 5 by (auto simp: eval_nat_numeral intro!: relcomppI)
  have "rl_closed r5" "\<not> rl_refused r5" "rl_to_box r5 = [(demo_exec, Some True)]"
    by (simp_all add: r5 forward_one_def demo_exec_def)
  with run relay_delivers [OF run [unfolded s]] s show ?thesis by (auto simp: demo_session_def)
qed

text \<open>The relay does not wait for the error output: the client's channel can be closed, with nothing refused, before any of what the box wrote
  there was copied.\<close>

lemma stderr_may_be_cut:
  "\<exists>r. relay_step\<^sup>*\<^sup>* (relay_start \<lparr> io_in = [], io_asks = [], io_out = [], io_err = [d], io_tells = [] \<rparr>) r \<and>
     rl_closed r \<and> \<not> rl_refused r \<and> pm_out (rl_err r) = []"
proof -
  let ?s = "relay_start \<lparr> io_in = [], io_asks = [], io_out = [], io_err = [d], io_tells = [] \<rparr>"
  let ?r1 = "?s\<lparr>rl_out := (rl_out ?s)\<lparr>pm_on := False\<rparr>, rl_refused := False\<rparr>"
  have s: "\<not> rl_closed ?s" "pm_on (rl_out ?s)" "pm_src (rl_out ?s) = []" "rl_up_reqs ?s = []" "\<not> rl_refused ?s" "pm_out (rl_err ?s) = []"
    by (simp_all add: relay_start_def pump_start_def)
  have 1: "relay_step ?s ?r1" using relay_step.stdout [OF s(1) pump_step.ended [OF s(2,3)]] s(5) by simp
  have 2: "relay_step ?r1 (?r1\<lparr>rl_closed := True\<rparr>)" by (rule relay_step.finish) (simp_all add: s)
  from 1 2 have "relay_step\<^sup>*\<^sup>* ?s (?r1\<lparr>rl_closed := True\<rparr>)" by (meson converse_rtranclp_into_rtranclp r_into_rtranclp)
  then show ?thesis by (intro exI conjI) (assumption | simp add: s)+
qed

end
