(* ===== verification/Daemons.thy ===== *)
theory Daemons
  imports Hopboxd Mcp_Client
begin

text \<open>
  How the processes start: \<^verbatim>\<open>cmd/boxd/main.go\<close> and \<^verbatim>\<open>cmd/hopboxd/main.go\<close> (\<^verbatim>\<open>run\<close>), the standalone gateway
  (\<^verbatim>\<open>cmd/hopbox-gw/main.go\<close>, \<^verbatim>\<open>internal/gateway/tls.go\<close>) and the provider process (\<^verbatim>\<open>cmd/hopbox-provider\<close>). A start is a
  sequence of events: what was cleared, what is served where, in the order of the code, and the error that ended
  it. What the host answers (opening a database, listening, reading a key) is an argument.
\<close>

section \<open>Starts\<close>

datatype boot_event =
    ResetSessions | ServeMeta string string | RunReconciler | ServeHub string | RemoveSocket string
  | ServeSurfaces string string | ServeMCP string string | ServeFront string "string list option" | Drain | CloseCompute
  | ServeGateway string | ServeTunnel string | ServeAPI string idp

type_synonym boot = "boot_event list \<Rightarrow> boot_event list \<times> unit result"

definition attempt :: "'a result \<Rightarrow> ('a \<Rightarrow> boot) \<Rightarrow> boot" where
  "attempt r k es = (case r of Inl e \<Rightarrow> (es, Inl e) | Inr x \<Rightarrow> k x es)"

definition happens :: "boot_event \<Rightarrow> boot \<Rightarrow> boot" where
  "happens e k es = k (es @ [e])"

definition finally_if :: "bool \<Rightarrow> boot_event \<Rightarrow> boot \<Rightarrow> boot" where
  "finally_if b e k es = (let (es', r) = k es in (if b then es' @ [e] else es', r))"

text \<open>What the host answers.\<close>

record boot_host =
  bh_open :: "string \<Rightarrow> unit result"
  bh_listen :: "string \<Rightarrow> string \<Rightarrow> unit result"
  bh_hostKey :: "string \<Rightarrow> unit result"
  bh_serve :: "unit result"

section \<open>boxd\<close>

record boxd_flags =
  bf_cfg :: boxd_cfg
  bf_sshAddr :: string
  bf_hostKeyPath :: string
  bf_db :: string
  bf_fcBin :: string
  bf_fcKernel :: string
  bf_fcImagesDir :: string
  bf_fcRunDir :: string
  bf_fcBridge :: string
  bf_mcpAddr :: string
  bf_surfaceAddr :: string
  bf_surfaceURL :: string

text \<open>The values without any flag.\<close>

definition boxd_defaults :: boxd_flags where
  "boxd_defaults = \<lparr> bf_cfg = \<lparr> bc_agentListen = '':7777'', bc_advertise = [], bc_agentBin = [], bc_image = ''alpine'', bc_metaAddr = '':8090'', bc_guestBin = [],
       bc_compute = ''docker'', bc_fcSubnet = [], bc_cpuMillis = 2000, bc_memMB = 2048, bc_autoSuspend = False, bc_idleTimeout = 5 * Minute, bc_grace = 2 * Minute \<rparr>,
     bf_sshAddr = '':2222'', bf_hostKeyPath = ''./boxd-ssh-host-key'', bf_db = ''./boxd.db'', bf_fcBin = ''/usr/local/bin/firecracker'',
     bf_fcKernel = ''/opt/hopbox-microvm/vmlinux'', bf_fcImagesDir = ''/opt/hopbox-microvm/images'', bf_fcRunDir = ''/var/lib/hopbox/microvm'',
     bf_fcBridge = [], bf_mcpAddr = [], bf_surfaceAddr = [], bf_surfaceURL = [] \<rparr>"

text \<open>The backend; \<open>docker\<close> and \<open>microvm\<close> are the constructors compiled in (or the stubs that fail).\<close>

definition boxd_newDocker :: "(string \<Rightarrow> string \<Rightarrow> string \<Rightarrow> 'p result) \<Rightarrow> string \<Rightarrow> string \<Rightarrow> 'p result" where
  "boxd_newDocker docker advertise metaPort = docker advertise ''boxd-net'' metaPort"

definition boxd_newMicrovm :: "(string \<Rightarrow> string \<Rightarrow> string \<Rightarrow> string \<Rightarrow> string list \<Rightarrow> net_config \<Rightarrow> 'p result) \<Rightarrow> boxd_flags \<Rightarrow> string \<Rightarrow> string \<Rightarrow> 'p result" where
  "boxd_newMicrovm microvm f advertise metaPort =
     microvm (bf_fcBin f) (bf_fcKernel f) (bf_fcImagesDir f) (bf_fcRunDir f)
       (metaPort # (case SplitHostPort advertise of Some (_, p) \<Rightarrow> if p \<noteq> [] then [p] else [] | None \<Rightarrow> []))
       \<lparr> nc_Bridge = bf_fcBridge f, nc_Subnet24 = bc_fcSubnet (bf_cfg f), nc_TapPrefix = [], nc_FenceChain = [] \<rparr>"

definition boxd_newCompute :: "(string \<Rightarrow> string \<Rightarrow> string \<Rightarrow> 'p result) \<Rightarrow> (string \<Rightarrow> string \<Rightarrow> string \<Rightarrow> string \<Rightarrow> string list \<Rightarrow> net_config \<Rightarrow> 'p result) \<Rightarrow>
    boxd_flags \<Rightarrow> string \<Rightarrow> string \<Rightarrow> 'p result" where
  "boxd_newCompute docker microvm f advertise metaPort =
     (let c = bc_compute (bf_cfg f) in
      if c = ''microvm'' then boxd_newMicrovm microvm f advertise metaPort
      else if c = ''docker'' \<or> c = [] then boxd_newDocker docker advertise metaPort
      else Inl (Errorf (''unknown --compute '' @ quoted c @ '' (want docker|microvm)'')))"

text \<open>The control plane, when it is asked for: the surfaces first, then the socket.\<close>

definition surface_url :: "boxd_flags \<Rightarrow> string" where
  "surface_url f = (if bf_surfaceURL f = [] \<and> bf_surfaceAddr f \<noteq> [] then ''http://'' @ bf_surfaceAddr f else bf_surfaceURL f)"

definition boot_mcp :: "boxd_flags \<Rightarrow> boot_host \<Rightarrow> boot \<Rightarrow> boot" where
  "boot_mcp f h k =
     (if bf_mcpAddr f = [] then k
      else let (network, a) = dial_network (bf_mcpAddr f);
               plane = (\<lambda>k. attempt (bh_listen h network a) (\<lambda>_. happens (ServeMCP network a) k));
               socket = (\<lambda>k. if network = ''unix'' then happens (RemoveSocket a) (plane k) else plane k)
           in if bf_surfaceAddr f = [] then socket k
              else attempt (bh_listen h ''tcp'' (bf_surfaceAddr f)) (\<lambda>_. happens (ServeSurfaces (bf_surfaceAddr f) (surface_url f)) (socket k)))"

text \<open>\<open>closer\<close> says whether the backend has resources to close, and \<open>images\<close> gives its catalog when it has one. The metadata API
  listens in a goroutine of its own; whether it could is an answer of the host.\<close>

definition boxd_run :: "('p \<Rightarrow> bool) \<Rightarrow> ('p \<Rightarrow> string list option) \<Rightarrow> (string \<Rightarrow> string \<Rightarrow> string \<Rightarrow> 'p result) \<Rightarrow>
    (string \<Rightarrow> string \<Rightarrow> string \<Rightarrow> string \<Rightarrow> string list \<Rightarrow> net_config \<Rightarrow> 'p result) \<Rightarrow> boxd_flags \<Rightarrow> boot_host \<Rightarrow> boot_event list \<times> unit result" where
  "boxd_run closer images docker microvm f h =
     (let c = bf_cfg f; metaPort = portOf (bc_metaAddr c) ''8090'';
          meta = (if is_ok (bh_listen h ''tcp'' (bc_metaAddr c)) then happens (ServeMeta (bc_metaAddr c) (boxd_metaURL c)) else id) in
      attempt (bh_open h (bf_db f)) (\<lambda>_. happens ResetSessions (meta (
      attempt (boxd_newCompute docker microvm f (boxd_advertise c) metaPort) (\<lambda>p. finally_if (closer p) CloseCompute (
      happens RunReconciler (
      attempt (bh_listen h ''tcp'' (bc_agentListen c)) (\<lambda>_. happens (ServeHub (bc_agentListen c)) (
      attempt (bh_hostKey h (bf_hostKeyPath f)) (\<lambda>_.
      attempt (bh_listen h ''tcp'' (bf_sshAddr f)) (\<lambda>_. boot_mcp f h (
      happens (ServeFront (bf_sshAddr f) (images p)) (happens Drain (\<lambda>es. (es, bh_serve h)))))))))))))) [])"

section \<open>hopboxd\<close>

text \<open>Beside the host: the backends compiled in, the dialers of remote providers, the files of the certificate authority and
  of the accounts, the event bus, and what the choice of the identity provider reads.\<close>

record ('w, 'b, 'q) boot_deps =
  bd_docker :: "string \<Rightarrow> string \<Rightarrow> 'w compute_ops result"
  bd_microvm :: "string \<Rightarrow> string \<Rightarrow> string \<Rightarrow> string \<Rightarrow> string list \<Rightarrow> net_config \<Rightarrow> 'w compute_ops result"
  bd_dialCompute :: "string \<Rightarrow> 'w pb_compute result"
  bd_storage :: "'w storage_ops option"
  bd_dialStorage :: "string \<Rightarrow> 'w pb_storage result"
  bd_readFile :: "string \<Rightarrow> string result"
  bd_loadCA :: "string \<Rightarrow> unit result"
  bd_accounts :: "string \<Rightarrow> unit result"
  bd_nats :: "string \<Rightarrow> 'b result"
  bd_publish :: "'b \<Rightarrow> 'q handler"
  bd_subscribe :: "unit result"
  bd_verifier :: "string \<Rightarrow> string \<Rightarrow> (string \<Rightarrow> claims result) result"
  bd_lines :: "string \<Rightarrow> string list result"

definition wrap_err :: "string \<Rightarrow> 'a result \<Rightarrow> 'a result" where
  "wrap_err pre r = (case r of Inl e \<Rightarrow> Inl (Wrapf pre e) | Inr x \<Rightarrow> Inr x)"

definition listen_on :: "boot_host \<Rightarrow> string \<Rightarrow> boot_event \<Rightarrow> boot \<Rightarrow> boot" where
  "listen_on h addr ev k = attempt (bh_listen h ''tcp'' addr) (\<lambda>_. happens ev k)"

definition if_set :: "string \<Rightarrow> (boot \<Rightarrow> boot) \<Rightarrow> boot \<Rightarrow> boot" where
  "if_set v step k = (if v = [] then k else step k)"

definition hopboxd_compute :: "('w, 'b, 'q) boot_deps \<Rightarrow> hopboxd_cfg \<Rightarrow> 'w compute_ops result" where
  "hopboxd_compute d c =
     (let inproc = newCompute (bd_docker d) (bd_microvm d) c in
      case inproc of
        Inl e \<Rightarrow> if dc_ComputeTransport c \<noteq> ''remote'' then Inl e
          else LoadCompute (bd_dialCompute d) \<lparr> pcf_Kind = dc_ComputeKind c, pcf_Transport = dc_ComputeTransport c, pcf_RemoteAddr = dc_ComputeRemote c \<rparr> None
      | Inr p \<Rightarrow> LoadCompute (bd_dialCompute d) \<lparr> pcf_Kind = dc_ComputeKind c, pcf_Transport = dc_ComputeTransport c, pcf_RemoteAddr = dc_ComputeRemote c \<rparr> (Some p))"

definition hopboxd_ca :: "('w, 'b, 'q) boot_deps \<Rightarrow> hopboxd_cfg \<Rightarrow> unit result" where
  "hopboxd_ca d c =
     (if dc_SSHCAPubFile c \<noteq> [] then wrap_err ''ssh-ca-pub: '' (case bd_readFile d (dc_SSHCAPubFile c) of Inl e \<Rightarrow> Inl e | Inr _ \<Rightarrow> Inr ())
      else wrap_err ''ssh ca: '' (bd_loadCA d (dc_SSHCAPath c)))"

text \<open>From the reconciler on: every listener of the configuration, the service last.\<close>

definition hopboxd_services :: "('w, 'b, 'q) boot_deps \<Rightarrow> boot_host \<Rightarrow> hopboxd_cfg \<Rightarrow> boot" where
  "hopboxd_services d h c =
     happens RunReconciler (
     attempt (newEventBus (bd_nats d) (bd_publish d) NewInProc c) (\<lambda>_.
     attempt (wrap_err ''events subscribe: '' (bd_subscribe d)) (\<lambda>_.
     listen_on h (dc_AgentListen c) (ServeHub (dc_AgentListen c)) (
     if_set (dc_SSHAddr c) (\<lambda>k. attempt (wrap_err ''ssh front-door host key: '' (bh_hostKey h (dc_SSHHostKeyPath c)))
       (\<lambda>_. listen_on h (dc_SSHAddr c) (ServeFront (dc_SSHAddr c) None) k)) (
     if_set (dc_GatewayAddr c) (listen_on h (dc_GatewayAddr c) (ServeGateway (dc_GatewayAddr c))) (
     if_set (dc_TunnelAddr c) (listen_on h (dc_TunnelAddr c) (ServeTunnel (dc_TunnelAddr c))) (
     attempt (bh_listen h ''tcp'' (dc_APIAddr c)) (\<lambda>_.
     attempt (select_idp (bd_verifier d) (bd_lines d) c) (\<lambda>i.
     happens (ServeAPI (dc_APIAddr c) i) (\<lambda>es. (es, bh_serve h)))))))))))"

text \<open>Before it: the database, the providers, the certificate authority, the accounts and the metadata API.\<close>

definition hopboxd_boot :: "('w, 'b, 'q) boot_deps \<Rightarrow> boot_host \<Rightarrow> hopboxd_cfg \<Rightarrow> boot" where
  "hopboxd_boot d h c =
     attempt (bh_open h (dc_DBPath c)) (\<lambda>_.
     attempt (hopboxd_compute d c) (\<lambda>_.
     attempt (LoadStorage (bd_dialStorage d) \<lparr> pcf_Kind = dc_StorageKind c, pcf_Transport = dc_StorageTransport c, pcf_RemoteAddr = dc_StorageRemote c \<rparr> (bd_storage d)) (\<lambda>_.
     attempt (hopboxd_ca d c) (\<lambda>_.
     attempt (if dc_AccountsFile c = [] then Inr () else wrap_err ''accounts: '' (bd_accounts d (dc_AccountsFile c))) (\<lambda>_.
     if_set (dc_MetaAddr c) (\<lambda>k. attempt (wrap_err (''metadata listen '' @ dc_MetaAddr c @ '': '') (bh_listen h ''tcp'' (dc_MetaAddr c)))
       (\<lambda>_. happens (ServeMeta (dc_MetaAddr c) (hopboxd_metaURL c)) k)) (hopboxd_services d h c))))))"

definition hopboxd_run :: "('w, 'b, 'q) boot_deps \<Rightarrow> boot_host \<Rightarrow> hopboxd_cfg \<Rightarrow> boot_event list \<times> unit result" where
  "hopboxd_run d h c = hopboxd_boot d h c []"

text \<open>How a call of the service is handled: behind the interceptor of the chosen provider, or by the handler itself.\<close>

definition api_handled :: "idp \<Rightarrow> api_ctx \<Rightarrow> (api_ctx \<Rightarrow> 's \<Rightarrow> 'a api_result \<times> 's) \<Rightarrow> 's \<Rightarrow> 'a api_result \<times> 's" where
  "api_handled i ctx handler s =
     (case i of
        IdpNone \<Rightarrow> handler ctx s
      | IdpOidc p \<Rightarrow> (let (r, _, s') = AuthInterceptor (oidc_identity p :: unit identity_ops) ctx handler ((), s) in (r, s'))
      | IdpStatic p \<Rightarrow> (let (r, _, s') = AuthInterceptor (static_identity p :: unit identity_ops) ctx handler ((), s) in (r, s')))"

section \<open>The standalone gateway\<close>

record gw_flags =
  gf_listen :: string
  gf_tunnel :: string
  gf_tlsCert :: string
  gf_tlsKey :: string
  gf_selfSigned :: bool
  gf_zone :: string
  gf_redirect :: string
  gf_askAddr :: string

definition gw_defaults :: gw_flags where
  "gw_defaults = \<lparr> gf_listen = '':8088'', gf_tunnel = ''localhost:7701'', gf_tlsCert = [], gf_tlsKey = [], gf_selfSigned = False,
     gf_zone = ''gw.example.com'', gf_redirect = [], gf_askAddr = [] \<rparr>"

text \<open>May a certificate be issued for a domain?\<close>

definition gw_ask :: "string \<Rightarrow> string \<Rightarrow> int" where
  "gw_ask zone d = (let z = TrimPrefix zone ''.'' in if d = z \<or> HasSuffix d (''.'' @ z) then 200 else 403)"

definition redirectToHTTPS :: "string \<Rightarrow> string \<Rightarrow> int \<times> string" where
  "redirectToHTTPS rhost uri = (301, ''https://'' @ rhost @ uri)"

text \<open>The certificate made for a zone: its names and its validity; \<open>genKey\<close>, \<open>genSerial\<close> and \<open>sign\<close> are the outcomes of the
  cryptographic library.\<close>

record tls_cert =
  tc_CommonName :: string
  tc_NotBefore :: time
  tc_NotAfter :: time
  tc_DNSNames :: "string list"

definition SelfSignedCert :: "unit result \<Rightarrow> unit result \<Rightarrow> (tls_cert \<Rightarrow> unit result) \<Rightarrow> time \<Rightarrow> string \<Rightarrow> tls_cert result" where
  "SelfSignedCert genKey genSerial sign now zone0 =
     (let zone = TrimPrefix zone0 ''.'' in
      case genKey of Inl e \<Rightarrow> Inl e | Inr _ \<Rightarrow>
      (case genSerial of Inl e \<Rightarrow> Inl e | Inr _ \<Rightarrow>
       (let tmpl = \<lparr> tc_CommonName = ''*.'' @ zone, tc_NotBefore = now - Hour, tc_NotAfter = now + 365 * 24 * Hour,
              tc_DNSNames = [''*.'' @ zone, zone] \<rparr> in
        case sign tmpl of Inl e \<Rightarrow> Inl e | Inr _ \<Rightarrow> Inr tmpl)))"

text \<open>How the process serves: with a certificate of two files, with one it makes, or in the clear.\<close>

datatype gw_mode = GwFiles string string | GwSelf tls_cert | GwPlain

definition gw_serve :: "(string \<Rightarrow> tls_cert result) \<Rightarrow> gw_flags \<Rightarrow> gw_mode result" where
  "gw_serve selfSigned f =
     (if gf_tlsCert f \<noteq> [] \<and> gf_tlsKey f \<noteq> [] then Inr (GwFiles (gf_tlsCert f) (gf_tlsKey f))
      else if gf_selfSigned f then map_sum (Wrapf ''hopbox-gw: self-signed cert: '') GwSelf (selfSigned (gf_zone f))
      else Inr GwPlain)"

text \<open>How a client matches a host with a name of a certificate: label by label, the first label of the name being possibly
  the wildcard.\<close>

definition cert_name_matches :: "string \<Rightarrow> string \<Rightarrow> bool" where
  "cert_name_matches name host =
     (let ps = Split (CHR ''.'') name; hs = Split (CHR ''.'') host in
      length ps = length hs \<and> tl ps = tl hs \<and> (hd ps = ''*'' \<or> hd ps = hd hs))"

section \<open>The provider process\<close>

datatype ('c, 's, 'i) served = ServedCompute 'c | ServedStorage 's | ServedIngress 'i

definition provider_serve :: "unit result \<Rightarrow> (string \<Rightarrow> 'w compute_ops result) \<Rightarrow> 'v storage_ops \<Rightarrow> string \<Rightarrow> string \<Rightarrow> string \<Rightarrow>
    ('w pb_compute, 'v pb_storage, sub_provider \<times> (sub_provider \<times> unit) pb_ingress) served result" where
  "provider_serve listen compute storage what advertise zone =
     (case listen of
        Inl e \<Rightarrow> Inl (Wrapf ''hopbox-provider: listen: '' e)
      | Inr _ \<Rightarrow>
          if what = ''compute'' then map_sum (Wrapf ''hopbox-provider: compute: '') (\<lambda>c. ServedCompute (ComputeServer c)) (compute advertise)
          else if what = ''storage'' then Inr (ServedStorage (StorageServer storage))
          else if what = ''ingress'' then Inr (ServedIngress (sd_New zone, IngressServer subdomain_ingress))
          else Inl (Errorf (''hopbox-provider: unknown --serve '' @ quoted what)))"

definition kubeNamespace :: "string \<Rightarrow> string" where
  "kubeNamespace env = (if env \<noteq> [] then env else ''hopbox-workspaces'')"

lemmas boot_defs = attempt_def happens_def finally_if_def listen_on_def if_set_def wrap_err_def

section \<open>What a start does\<close>

lemma attempt_cases:
  assumes "attempt r k es = (es', u)"
  obtains e where "r = Inl e" "es' = es" "u = Inl e" | x where "r = Inr x" "k x es = (es', u)"
  using assms by (auto simp: attempt_def split: sum.splits)

text \<open>The control plane adds its servers, or fails before anything else is started.\<close>

lemma boot_mcp_cases:
  assumes "boot_mcp f h k es = (es', u)"
  obtains e pre where "u = Inl e" "es' = es @ pre" "\<And>a i. ServeFront a i \<notin> set pre"
  | pre where "k (es @ pre) = (es', u)" "\<And>a i. ServeFront a i \<notin> set pre"
      "bf_mcpAddr f \<noteq> [] \<Longrightarrow> \<exists>n a. dial_network (bf_mcpAddr f) = (n, a) \<and> ServeMCP n a \<in> set pre"
proof -
  obtain n a where d: "dial_network (bf_mcpAddr f) = (n, a)" by fastforce
  let ?s = "if bf_surfaceAddr f = [] then [] else [ServeSurfaces (bf_surfaceAddr f) (surface_url f)]" and ?r = "if n = ''unix'' then [RemoveSocket a] else []"
  consider (off) "bf_mcpAddr f = []" | (surfaces) e where "bf_mcpAddr f \<noteq> []" "bf_surfaceAddr f \<noteq> []" "bh_listen h ''tcp'' (bf_surfaceAddr f) = Inl e"
    | (socket) e where "bf_mcpAddr f \<noteq> []" "bf_surfaceAddr f = [] \<or> bh_listen h ''tcp'' (bf_surfaceAddr f) = Inr ()" "bh_listen h n a = Inl e"
    | (up) "bf_mcpAddr f \<noteq> []" "bf_surfaceAddr f = [] \<or> bh_listen h ''tcp'' (bf_surfaceAddr f) = Inr ()" "bh_listen h n a = Inr ()"
    by (metis old.sum.exhaust unit.exhaust)
  then show thesis
  proof cases
    case off
    with assms that(2) [of "[]"] show ?thesis by (simp add: boot_mcp_def)
  next
    case surfaces
    then show ?thesis using assms that(1) [of e "[]"] by (simp add: boot_mcp_def boot_defs d)
  next
    case socket
    have "es' = es @ ?s @ ?r" "u = Inl e" using socket assms by (auto simp: boot_mcp_def boot_defs d Let_def split: if_splits)
    then show ?thesis using that(1) [of e "?s @ ?r"] by simp
  next
    case up
    have "k (es @ ?s @ ?r @ [ServeMCP n a]) = (es', u)" using up assms by (auto simp: boot_mcp_def boot_defs d Let_def split: if_splits)
    then show ?thesis using that(2) [of "?s @ ?r @ [ServeMCP n a]"] d by simp
  qed
qed

text \<open>What every event of a start satisfies, whatever it started with.\<close>

definition adds_only :: "(boot_event \<Rightarrow> bool) \<Rightarrow> boot \<Rightarrow> bool" where
  "adds_only Q k \<longleftrightarrow> (\<forall>es. \<forall>e \<in> set (fst (k es)). e \<in> set es \<or> Q e)"

lemma adds_only_attempt [intro]: "(\<And>x. r = Inr x \<Longrightarrow> adds_only Q (k x)) \<Longrightarrow> adds_only Q (attempt r k)"
  by (cases r) (auto simp: adds_only_def attempt_def)

lemma adds_only_happens [intro]: "Q e \<Longrightarrow> adds_only Q k \<Longrightarrow> adds_only Q (happens e k)"
  by (fastforce simp: adds_only_def happens_def)

lemma adds_only_return [intro]: "adds_only Q (\<lambda>es. (es, u))"
  by (simp add: adds_only_def)

lemma adds_only_if_set [intro]: "adds_only Q k \<Longrightarrow> (\<And>k. adds_only Q k \<Longrightarrow> adds_only Q (step k)) \<Longrightarrow> adds_only Q (if_set v step k)"
  by (simp add: if_set_def)

lemma adds_only_listen [intro]: "Q e \<Longrightarrow> adds_only Q k \<Longrightarrow> adds_only Q (listen_on h a e k)"
  by (auto simp: listen_on_def)

lemma adds_onlyD: "adds_only Q k \<Longrightarrow> k [] = (es, u) \<Longrightarrow> e \<in> set es \<Longrightarrow> Q e"
  by (auto simp: adds_only_def dest!: spec [of _ "[]"])

text \<open>The service of hopboxd runs behind the provider the configuration selects.\<close>

definition served_as :: "hopboxd_cfg \<Rightarrow> idp result \<Rightarrow> boot_event \<Rightarrow> bool" where
  "served_as c r e = (case e of ServeAPI a i \<Rightarrow> a = dc_APIAddr c \<and> r = Inr i | _ \<Rightarrow> True)"

lemma hopboxd_serves:
  assumes "hopboxd_run d h c = (es, u)" "ServeAPI a i \<in> set es"
  shows "a = dc_APIAddr c" "select_idp (bd_verifier d) (bd_lines d) c = Inr i"
proof -
  have "adds_only (served_as c (select_idp (bd_verifier d) (bd_lines d) c)) (hopboxd_boot d h c)" unfolding hopboxd_boot_def hopboxd_services_def
    by (intro adds_only_attempt adds_only_if_set adds_only_happens adds_only_return adds_only_listen; simp add: served_as_def)
  from adds_onlyD [OF this assms(1) [unfolded hopboxd_run_def] assms(2)]
  have "served_as c (select_idp (bd_verifier d) (bd_lines d) c) (ServeAPI a i)" .
  then show "a = dc_APIAddr c" "select_idp (bd_verifier d) (bd_lines d) c = Inr i" by (simp_all add: served_as_def)
qed

text \<open>A provider decides alone whether a call reaches its handler.\<close>

lemma AuthInterceptor_eq:
  "AuthInterceptor idp ctx handler ((), s) = (case fst (authenticate ctx idp ()) of Inl e \<Rightarrow> (Inl e, (), s)
     | Inr pr \<Rightarrow> (fst (handler (withPrincipal ctx pr) s), (), snd (handler (withPrincipal ctx pr) s)))"
  by (auto simp: AuthInterceptor_def split: prod.splits sum.splits)

text \<open>A user file that cannot be read leaves the service open to everyone.\<close>

lemma unreadable_users_open:
  assumes "hopboxd_run d h c = (es, u)" "ServeAPI a i \<in> set es" "dc_OIDCIssuer c = []" "bd_lines d (dc_UsersFile c) = Inl e"
  shows "api_handled i ctx handler s = handler ctx s"
  using hopboxd_serves [OF assms(1,2)] assms(3,4) by (auto simp: select_idp_def loadUsers_def api_handled_def split: if_splits)

text \<open>boxd starts in order: its first act is to clear the sessions a previous run left; and either the start fails, and the front
  door never opened, or the front door is opened after the reconciler and the agent hub (and the control plane, if it is asked for)
  are running, the fleet is drained when it closes, and the backend is released last.\<close>

theorem boxd_boot:
  assumes "boxd_run closer ims docker microvm f h = (es, u)"
  shows "(\<exists>e. u = Inl e \<and> (\<forall>a i. ServeFront a i \<notin> set es) \<and> (es = [] \<or> hd es = ResetSessions)) \<or>
    (\<exists>p pre. boxd_newCompute docker microvm f (boxd_advertise (bf_cfg f)) (portOf (bc_metaAddr (bf_cfg f)) ''8090'') = Inr p \<and>
      es = ResetSessions # pre @ [ServeFront (bf_sshAddr f) (ims p), Drain] @ (if closer p then [CloseCompute] else []) \<and> u = bh_serve h \<and>
      RunReconciler \<in> set pre \<and> ServeHub (bc_agentListen (bf_cfg f)) \<in> set pre \<and> (\<forall>a i. ServeFront a i \<notin> set pre) \<and>
      (bf_mcpAddr f \<noteq> [] \<longrightarrow> (\<exists>n a. dial_network (bf_mcpAddr f) = (n, a) \<and> ServeMCP n a \<in> set pre)))"
    (is "?failed \<or> ?served")
proof -
  let ?c = "bf_cfg f" and ?front = "\<lambda>p es. (es @ [ServeFront (bf_sshAddr f) (ims p), Drain], bh_serve h)"
  let ?mt = "if is_ok (bh_listen h ''tcp'' (bc_metaAddr ?c)) then [ServeMeta (bc_metaAddr ?c) (boxd_metaURL ?c)] else []"
  let ?hub = "ResetSessions # ?mt @ [RunReconciler, ServeHub (bc_agentListen ?c)]" and ?post = "\<lambda>p. if closer p then [CloseCompute] else []"
  note run = assms [unfolded boxd_run_def Let_def boot_defs]
  show ?thesis
  proof (cases "bh_open h (bf_db f)")
    case (Inl e)
    show ?thesis using run by (auto simp: Inl)
  next
    case o: (Inr x)
    show ?thesis
    proof (cases "boxd_newCompute docker microvm f (boxd_advertise ?c) (portOf (bc_metaAddr ?c) ''8090'')")
      case (Inl e)
      show ?thesis using run by (auto simp: o Inl split: if_splits)
    next
      case p: (Inr p)
      consider (hub) e where "bh_listen h ''tcp'' (bc_agentListen ?c) = Inl e"
        | (key) e where "bh_listen h ''tcp'' (bc_agentListen ?c) = Inr ()" "bh_hostKey h (bf_hostKeyPath f) = Inl e"
        | (front) e where "bh_listen h ''tcp'' (bc_agentListen ?c) = Inr ()" "bh_hostKey h (bf_hostKeyPath f) = Inr ()" "bh_listen h ''tcp'' (bf_sshAddr f) = Inl e"
        | (served) "bh_listen h ''tcp'' (bc_agentListen ?c) = Inr ()" "bh_hostKey h (bf_hostKeyPath f) = Inr ()" "bh_listen h ''tcp'' (bf_sshAddr f) = Inr ()"
        by (metis old.sum.exhaust unit.exhaust)
      then show ?thesis
      proof cases
        case hub
        show ?thesis using run by (auto simp: o p hub split: if_splits)
      next
        case key
        show ?thesis using run by (auto simp: o p key split: if_splits)
      next
        case front
        show ?thesis using run by (auto simp: o p front split: if_splits)
      next
        case served
        obtain es' where m: "boot_mcp f h (?front p) ?hub = (es', u)" and es: "es = es' @ ?post p"
          using run by (cases "boot_mcp f h (?front p) ?hub") (auto simp: o p served split: if_splits prod.splits)
        from m show ?thesis
        proof (cases rule: boot_mcp_cases)
          case (1 e q)
          then show ?thesis using es by auto
        next
          case (2 q)
          then have ?served using p es by (intro exI [of _ p] exI [of _ "?mt @ [RunReconciler, ServeHub (bc_agentListen ?c)] @ q"]) (auto simp: happens_def)
          then show ?thesis ..
        qed
      qed
    qed
  qed
qed

text \<open>C19: With single sign-on configured, the service of hopboxd is never open: a call is refused and changes nothing, or the issuer's
  verifier accepted its token and the handler runs as the principal of the token's claim, in the daemon's tenant.\<close>

theorem sso_never_open:
  assumes run: "hopboxd_run d h c = (es, u)" "ServeAPI a i \<in> set es" and sso: "dc_OIDCIssuer c \<noteq> []"
  shows "(\<exists>e. api_handled i ctx handler s = (Inl e, s)) \<or>
    (\<exists>v cl pr. bd_verifier d (dc_OIDCIssuer c) (dc_OIDCAudience c) = Inr v \<and> tokenFromCtx ctx \<noteq> [] \<and> v (tokenFromCtx ctx) = Inr cl \<and>
      pl_ID pr = (if dc_OIDCPrincipalClaim c = ''email'' then cl_Email cl else cl_Subject cl) \<and> pl_ID pr \<noteq> [] \<and> pl_TenantID pr = dc_Tenant c \<and>
      api_handled i ctx handler s = handler (withPrincipal ctx pr) s)"
proof -
  obtain v p where v: "bd_verifier d (dc_OIDCIssuer c) (dc_OIDCAudience c) = Inr v" and i: "i = IdpOidc p" and p: "op_verifier p = v"
    "oc_PrincipalClaim (op_cfg p) = (if dc_OIDCPrincipalClaim c = [] then ''sub'' else dc_OIDCPrincipalClaim c)" "oc_TenantID (op_cfg p) = dc_Tenant c"
    using hopboxd_serves(2) [OF run] sso by (auto simp: select_idp_def oidc_New_def split: sum.splits if_splits)
  have handled: "api_handled i ctx handler s = (case fst (authenticate ctx (oidc_identity p) ()) of
      Inl e \<Rightarrow> (Inl e, s) | Inr pr \<Rightarrow> handler (withPrincipal ctx pr) s)"
    by (simp add: api_handled_def i AuthInterceptor_eq split: sum.splits)
  show ?thesis
  proof (cases "fst (authenticate ctx (oidc_identity p) ())")
    case (Inl e)
    then show ?thesis by (simp add: handled)
  next
    case (Inr pr)
    then obtain cl where "tokenFromCtx ctx \<noteq> []" "v (tokenFromCtx ctx) = Inr cl" "pl_TenantID pr = dc_Tenant c" "pl_ID pr \<noteq> []"
      "pl_ID pr = (if dc_OIDCPrincipalClaim c = ''email'' then cl_Email cl else cl_Subject cl)"
      by (auto simp: authenticate_def oidc_identity_def oidc_Authenticate_def p Let_def split: if_splits sum.splits)
    then show ?thesis using v Inr by (auto simp: handled)
  qed
qed

text \<open>A daemon with an issuer that knows one token.\<close>

definition demo_sso_cfg :: hopboxd_cfg where
  "demo_sso_cfg = (config_defaults ''amd64'')\<lparr>dc_OIDCIssuer := ''https://sso''\<rparr>"

definition demo_verify :: "string \<Rightarrow> claims result" where
  "demo_verify tok = (if tok = ''t0k'' then Inr \<lparr> cl_Subject = ''ann'', cl_Email = ''a@x'', cl_Groups = [] \<rparr> else Inl (Errorf ''bad token''))"

definition demo_deps :: "(unit, unit, unit) boot_deps" where
  "demo_deps = \<lparr> bd_docker = (\<lambda>_ _. Inr echo_compute), bd_microvm = (\<lambda>_ _ _ _ _ _. Inl (Errorf ''no microvm'')), bd_dialCompute = (\<lambda>_. Inl (Errorf ''no route'')),
     bd_storage = Some \<lparr> st_EnsureHome = (\<lambda>_ w. (Inl (Errorf ''full''), w)), st_Delete = (\<lambda>_ w. (Inr (), w)) \<rparr>, bd_dialStorage = (\<lambda>_. Inl (Errorf ''no route'')),
     bd_readFile = (\<lambda>_. Inl (Errorf ''no file'')), bd_loadCA = (\<lambda>_. Inr ()), bd_accounts = (\<lambda>_. Inr ()), bd_nats = (\<lambda>_. Inl (Errorf ''no nats'')),
     bd_publish = (\<lambda>_ _ _ q. q), bd_subscribe = Inr (), bd_verifier = (\<lambda>_ _. Inr demo_verify), bd_lines = (\<lambda>_. Inl (Errorf ''no file'')) \<rparr>"

definition demo_boot_host :: "boot_host" where
  "demo_boot_host = \<lparr> bh_open = (\<lambda>_. Inr ()), bh_listen = (\<lambda>_ _. Inr ()), bh_hostKey = (\<lambda>_. Inr ()), bh_serve = Inr () \<rparr>"

definition demo_call :: "string \<Rightarrow> api_ctx" where
  "demo_call tok = \<lparr> cx_metadata = Some (\<lambda>k. if k = ''hopbox-token'' then [tok] else []), cx_principal = None \<rparr>"

text \<open>There, a call with another token does not reach a handler that would count it.\<close>

lemma sso_never_open_witness:
  "\<exists>i. hopboxd_run demo_deps demo_boot_host demo_sso_cfg =
      ([RunReconciler, ServeHub '':7777'', ServeGateway '':8088'', ServeTunnel '':7701'', ServeAPI '':7700'' i], Inr ()) \<and>
    (\<exists>e. api_handled i (demo_call ''other'') (\<lambda>_ n. (Inr (), Suc n)) 0 = (Inl e, 0))"
proof -
  let ?i = "IdpOidc (oidc_New demo_verify \<lparr> oc_TenantID = ''default'', oc_PrincipalClaim = ''sub'', oc_AdminGroups = splitComma [] \<rparr>)"
  have run: "hopboxd_run demo_deps demo_boot_host demo_sso_cfg =
      ([RunReconciler, ServeHub '':7777'', ServeGateway '':8088'', ServeTunnel '':7701'', ServeAPI '':7700'' ?i], Inr ())"
    by (simp add: hopboxd_run_def hopboxd_boot_def hopboxd_services_def boot_defs demo_deps_def demo_boot_host_def demo_sso_cfg_def config_defaults_def hopboxd_compute_def
      hopboxd_ca_def newCompute_def LoadCompute_def LoadStorage_def load_provider_def newEventBus_def select_idp_def)
  have tok: "tokenFromCtx (demo_call ''other'') = ''other''" by code_simp
  from sso_never_open [OF run, of "'':7700''" ?i "demo_call ''other''" "\<lambda>_ n. (Inr (), Suc n)" 0]
  have "\<exists>e. api_handled ?i (demo_call ''other'') (\<lambda>_ n. (Inr (), Suc n)) 0 = (Inl e, 0)"
    by (auto simp: tok demo_deps_def demo_verify_def demo_sso_cfg_def)
  with run show ?thesis by blast
qed

lemma HasSuffix_iff: "HasSuffix s a \<longleftrightarrow> (\<exists>x. s = x @ a)"
proof -
  have "HasSuffix s a \<longleftrightarrow> (\<exists>y. rev s = rev a @ y)" unfolding HasSuffix_def HasPrefix_def by (metis append_eq_conv_conj)
  also have "\<dots> \<longleftrightarrow> (\<exists>x. s = x @ a)" by (metis rev_append rev_rev_ident)
  finally show ?thesis .
qed

text \<open>The gateway process vouches for every endpoint: the issuance check accepts the host of each exposed endpoint of its zone and
  refuses every domain outside the zone, and when the process makes its own certificate, a client accepts it for the host of every
  endpoint whose name and workspace have no dot.\<close>

theorem gateway_vouches:
  assumes "CHR ''.'' \<notin> set n" "CHR ''.'' \<notin> set i" "SelfSignedCert gk gs sign now zone = Inr cert"
  shows "gw_ask zone (sd_host (sd_New zone) i n) = 200 \<and> list_ex (\<lambda>name. cert_name_matches name (sd_host (sd_New zone) i n)) (tc_DNSNames cert) \<and>
    (gw_ask zone d = 200 \<longleftrightarrow> d = sd_zone (sd_New zone) \<or> (\<exists>x. d = x @ ''.'' @ sd_zone (sd_New zone))) \<and>
    tc_NotBefore cert < now \<and> now < tc_NotAfter cert"
proof (intro conjI)
  let ?z = "sd_zone (sd_New zone)" and ?label = "n @ ''-'' @ i"
  have ask: "gw_ask zone x = 200 \<longleftrightarrow> x = ?z \<or> (\<exists>y. x = y @ ''.'' @ ?z)" for x
    by (auto simp: gw_ask_def sd_New_def HasSuffix_iff Let_def)
  have host: "sd_host (sd_New zone) i n = ?label @ ''.'' @ ?z" by (simp add: sd_host_def)
  show "gw_ask zone (sd_host (sd_New zone) i n) = 200" unfolding host ask by blast
  show "gw_ask zone d = 200 \<longleftrightarrow> d = ?z \<or> (\<exists>x. d = x @ ''.'' @ ?z)" by (rule ask)
  have cert: "tc_DNSNames cert = [''*.'' @ ?z, ?z]" "tc_NotBefore cert = now - Hour" "tc_NotAfter cert = now + 365 * 24 * Hour"
    using assms(3) by (auto simp: SelfSignedCert_def sd_New_def Let_def split: sum.splits)
  have "Split (CHR ''.'') (sd_host (sd_New zone) i n) = ?label # Split (CHR ''.'') ?z"
    using Split_append_sep [of "CHR ''.''" ?label ?z] assms(1,2) by (simp add: host)
  then show "list_ex (\<lambda>name. cert_name_matches name (sd_host (sd_New zone) i n)) (tc_DNSNames cert)"
    using Split_append_sep [of "CHR ''.''" "''*''" ?z] by (simp add: cert cert_name_matches_def)
  show "tc_NotBefore cert < now" "now < tc_NotAfter cert" by (simp_all add: cert Hour_def Minute_def Second_def)
qed

end
