(* ===== verification/Spec2Isabelle.thy ===== *)
theory Spec2Isabelle
  imports Hopboxd Mcp_Client Box_Guest Agent_Ssh Docker Kubernetes Agent_Main Cli Rootfs Conformance Ssh_Relay Daemons
begin

text \<open>
  Hopbox gives every user disposable or persistent development boxes. A daemon keeps the desired state of the
  boxes in a database; a reconciler drives each box towards it through a compute provider (docker, kubernetes,
  Firecracker); an agent inside the box dials back to the daemon's hub, and everything that enters a box (SSH
  sessions, commands, HTTP services) travels over that connection. Users reach the daemon over SSH (the user
  name is the request), over a gRPC service, over the HTTP gateway, or through an AI client's tool protocol; a
  box reaches the metadata API by its source address. Two daemons share this core:
  \<^verbatim>\<open>cmd/boxd\<close> (boxes only) and \<^verbatim>\<open>cmd/hopboxd\<close> (boxes with homes,
  exposed ports, identities and remote providers). This theory imports the whole development.

  \<^bold>\<open>The theories and the code they model\<close>.

  \<^item> \<open>Prelude\<close>, \<open>Go_Time\<close>: errors with wrapping and
  \<^verbatim>\<open>errors.Is\<close>, Go strings, paths, host and port splitting, instants, durations and
  their parser and RFC 3339 text, the lemma collections shared by all theories. \<open>Json\<close>: the printer
  and the reader of \<^verbatim>\<open>encoding/json\<close> on bytes, with its escapes, numbers, UTF-8 and
  nesting limit, and the locale \<open>json_codec\<close>, interpreted for every record the programs exchange.
  \<open>Base64\<close>: the encoding of the packed environment.

  \<^item> \<open>Ports\<close> (\<^verbatim>\<open>internal/core/ports/ports.go\<close>): the neutral data of
  the provider contracts; a contract is a record of functions over the world, so that a provider is an argument
  of what uses it.

  \<^item> \<open>Box_Model\<close> (\<^verbatim>\<open>internal/core/box\<close>: box, phase, flavor, backend,
  idle, lifetime): the box record, the transition table, the idle and lifetime policies. \<open>Box_Spec\<close>
  (\<^verbatim>\<open>spec.go\<close>): the request grammar with every error.

  \<^item> \<open>Box_Store\<close> (\<^verbatim>\<open>store.go\<close>): the store interface and the locales
  \<open>box_store_frame\<close> and \<open>box_store\<close>, the contract every client proof rests on.
  \<open>Box_Engine\<close> (\<^verbatim>\<open>engine.go\<close>): attach, build, list and release over an
  abstract store. \<open>Box_Reconcile\<close> (\<^verbatim>\<open>reconcile.go\<close>):
  \<open>ReconcileOne\<close>, \<open>Drain\<close>, the bounded queue and the loop as the step relation
  \<open>run_step\<close>; the abstract box machine (\<open>quiet_step\<close>, \<open>phase_step\<close>,
  \<open>tick_box\<close>) and, in locale \<open>reconcile_env\<close>, its refinement.
  \<open>Box_Progress\<close>: what a reconcile achieves when store and providers answer.

  \<^item> \<open>Sql_Base\<close>, \<open>Box_Sqlite\<close>
  (\<^verbatim>\<open>internal/core/boxsqlite\<close>), \<open>Workspace_Sqlite\<close>
  (\<^verbatim>\<open>internal/core/store/sqlite\<close>, \<^verbatim>\<open>internal/core/workspace\<close>):
  both databases as lists of rows of text and integer columns, with the scanning of a row, the keys and every
  statement; a fault of the driver is part of the state. \<open>Box_Adapter\<close>
  (\<^verbatim>\<open>internal/core/boxstore\<close>): the workspace table seen as boxes, and the hooks for
  homes, ports and certificates. \<open>Box_Sqlite\<close> and \<open>Box_Adapter\<close> interpret
  \<open>box_store\<close>; \<open>Boxd\<close> and \<open>Box_Adapter\<close> interpret
  \<open>reconcile_env\<close>.

  \<^item> \<open>Boxd\<close> (\<^verbatim>\<open>cmd/boxd/main.go\<close>): the wiring of the box daemon, and
  the lifecycle properties over its database. \<open>Compute_Contract\<close>: what the daemon relies on in a compute
  provider, as the locale \<open>compute_contract\<close>, interpreted by the microVM provider.

  \<^item> \<open>Agent_Proto\<close> (\<^verbatim>\<open>internal/agentproto\<close>, the stream side of
  \<^verbatim>\<open>cmd/hopbox-agent\<close>): JSON and binary frames on bytes, the chunking writer, stream
  dispatch. \<open>Agent_Hub\<close> (\<^verbatim>\<open>internal/agenthub\<close>): the session table, the
  handshake, the streams, and all interleavings of connections as \<open>hub_step\<close>.
  \<open>Agent_Main\<close> (\<^verbatim>\<open>cmd/hopbox-agent\<close>): the agent's start (environment, home,
  resolver), its connection and every stream handler. \<open>Agent_Ssh\<close>
  (\<^verbatim>\<open>internal/agentssh\<close>, \<^verbatim>\<open>cmd/hopbox-agent/ssh.go\<close>, the key files
  of \<^verbatim>\<open>internal/sshca\<close>): the SSH server inside a box.

  \<^item> \<open>Box_Meta\<close> (\<^verbatim>\<open>internal/core/boxmeta\<close>): the metadata API.
  \<open>Box_Guest\<close> (\<^verbatim>\<open>cmd/box-guest\<close>): the helper inside a box that calls it, with
  its tool server on standard input.
  \<open>Identity\<close> (\<^verbatim>\<open>providers/identity\<close>,
  \<^verbatim>\<open>internal/account\<close>): the static and OIDC providers, both interpretations of
  \<open>identity_contract\<close>, and the key directory. \<open>Api_Server\<close>
  (\<^verbatim>\<open>internal/api\<close>, the certificate of \<^verbatim>\<open>internal/sshca\<close>): every
  call with its interceptor, over any store that satisfies \<open>workspace_contract\<close>.
  \<open>Ssh_Front\<close> (\<^verbatim>\<open>internal/sshfront\<close>): routing of a session, the wait for
  the agent, the release; \<open>Ssh_Relay\<close>: the relay of its channels to the box, as \<open>relay_step\<close>.

  \<^item> \<open>Microvm_Net\<close>, \<open>Microvm\<close>
  (\<^verbatim>\<open>providers/compute/microvm\<close>): names and addresses, the allocator, firewall rules,
  machine configuration, and the provider with every outcome of the host, its histories as
  \<open>mv_step\<close>. \<open>Rootfs\<close> (\<^verbatim>\<open>rootfs.go\<close>,
  \<^verbatim>\<open>fcapi.go\<close>): disks cloned from origins, and the machine's API.
  \<open>Docker\<close> (\<^verbatim>\<open>providers/compute/docker\<close>) and \<open>Kubernetes\<close>
  (\<^verbatim>\<open>providers/compute/kubernetes\<close>, \<^verbatim>\<open>providers/storage/kubernetes\<close>):
  every operation over the client of the engine or the cluster.

  \<^item> \<open>Gateway\<close> (\<^verbatim>\<open>internal/gateway\<close>,
  \<^verbatim>\<open>providers/ingress/subdomain\<close>, \<^verbatim>\<open>cmd/hopboxd/gateway.go\<close>):
  the route table (an interpretation of \<open>ingress_contract\<close>), the gateway, the tunnel.
  \<open>Providers\<close> (\<^verbatim>\<open>providers/metering\<close>,
  \<^verbatim>\<open>providers/storage/localfs\<close>, \<^verbatim>\<open>providers/build\<close>): quota,
  homes, prebuilt images. \<open>Plugin\<close> (\<^verbatim>\<open>internal/plugin\<close>): messages, client
  and server adapters, loader; a provider that satisfies a contract still does behind the transport
  (\<open>served_ingress\<close>, \<open>served_identity\<close>).

  \<open>Conformance\<close> (\<^verbatim>\<open>test/conformance\<close>): the batteries a provider has to pass, as
  functions from a provider to verdicts, and which of the modelled providers pass them.

  \<^item> \<open>Mcp\<close> (\<^verbatim>\<open>internal/mcp\<close>): fleet operations, delegated tasks,
  surfaces and the dispatch of requests. \<open>Mcp_Client\<close> (\<^verbatim>\<open>cmd/hopbox-mcp\<close>): its
  clients, the reader they share, and the backend that works over plain ssh; both backends interpret
  \<open>fleet_backend\<close>. \<open>Cli\<close> (\<^verbatim>\<open>cmd/hopbox\<close>): the command line
  client. \<open>Bridge\<close>: the two pumps of a raw call, of the proxy and of the tunnel, as
  \<open>bridge_step\<close>.

  \<^item> \<open>Hopboxd\<close> (\<^verbatim>\<open>cmd/hopboxd\<close>,
  \<^verbatim>\<open>internal/config\<close>, \<^verbatim>\<open>internal/events\<close>): configuration, choice
  of providers, buses, state sink and the wiring of all of the above. \<open>Daemons\<close>: how the processes
  start (\<^verbatim>\<open>run\<close> of both daemons, \<^verbatim>\<open>cmd/hopbox-gw\<close>,
  \<^verbatim>\<open>cmd/hopbox-provider\<close>, \<^verbatim>\<open>internal/gateway/tls.go\<close>), as sequences
  of events.

  \<^bold>\<open>State and effects\<close>. A handler of the code is one function from the state it can touch to
  its result and the state after it; an error is the left part of a sum and keeps the text and the sentinel it
  wraps. The clock, random bytes and the outcomes of system calls are arguments. Integers that can wrap or are
  cut (frame lengths, exit codes, durations) are words or carry the bound check of the code; a float64 load is a
  rational number. Concurrency is a step relation whose steps are the regions the code runs under one lock.

  \<^bold>\<open>What the theorems show\<close>. Lifecycle: whatever the providers and the database answer,
  \<open>ReconcileOne\<close> moves one row by the abstract machine and leaves the others, over both databases
  and both daemons; persistent, attached and not yet due boxes are kept, due ones are reaped with their
  instance, pending ones come up, suspended ones resume on attach; a report of the hub reaches the queue.
  Ownership: neither the engine, the gRPC service nor the metadata API changes or shows a box of somebody else;
  certificates, keys and tokens give exactly the documented principal. Agents: only an agent with the right
  token is registered, a live one is never displaced; a command, its input, output and exit code pass from the
  command line through service, hub and agent and back unchanged; raw calls and relayed SSH sessions deliver
  what was sent, in order; a
  certificate of the service opens the boxes of its owner and no others; a microVM's agent sees the environment it
  was given. Services: an exposed port is served and no longer after removal, the tunnel gateway and remote
  providers are equivalent to their local forms, in the conformance batteries too; with single sign-on the service
  is never open. Hosts: no two microVMs share an address, a failed provision leaves nothing, disks and homes are
  kept, a machine starts only when fully configured, the fence isolates, docker and kubernetes provisions touch
  only what is theirs, and the compute providers keep the contract of the battery. Control plane: a delegated task
  is seen in the fleet, the watcher prints each event once, the in-box helper tunes its own box and no other.
  Termination: the waits for an agent, a socket and a delegated task end by their deadlines, raw calls within a
  bound in the sizes of their inputs.

  \<^bold>\<open>Bounds and fuel\<close>. Recursion is structural or has a measure, except for the JSON reader:
  its fuel is twice the length of the input and one, which \<open>json_fuel_enough\<close> shows to be enough for every
  text. Loops that poll until a deadline (\<open>waitReady\<close>, \<open>await_box\<close>,
  \<open>waitForSocket\<close>) run over the list of what their select statement receives; the theorems say that a
  list holding the deadline makes them return, and what is returned. The trigger queue holds
  \<open>queue_cap\<close> requests as in the code, the allocator 253 addresses, frames at most the caps of the
  protocol, JSON nests at most 10000 deep, the kernel's command line is cut at 2048 bytes.

  \<^bold>\<open>Parameters\<close>. yamux, the gRPC transport, the OIDC verifier, the SSH key parser, the
  firewall's matches, the message broker, the docker engine, the kubernetes cluster, the guest kernel's boot and the
  programs that run in a box enter as arguments; where a theorem needs something of one (\<open>docker_engine\<close>,
  \<open>k8s_cluster\<close>, \<open>kernel_passes\<close>, the documented meaning of a match), it is a hypothesis of
  that theorem and its witness gives an instance.

  \<^bold>\<open>Not modelled\<close>. Generated protobuf code, whose messages are records here; drivers, sockets,
  the SSH and TLS handshakes, terminals, processes and mounts (library and system calls whose outcomes are
  arguments where they matter); the cryptography of keys and certificates; the bytes of proxied HTTP; the
  construction of the kubernetes client; the schema migrations of the databases; the flag libraries, the layout of
  printed tables, fixed texts (tool schemas, the guide, page scripts) and log lines. What is left of the sources
  beyond these is the order of goroutines that share nothing but the process.
\<close>

end
